(* ===== verification/CanPrelude.thy ===== *)
theory CanPrelude
  imports Main "HOL-Library.Word"
begin

unbundle bit_operations_syntax

text \<open>
  Shared vocabulary of the development.

  \<^item> The machine integers of the library (\<^verbatim>\<open>uint8_t\<close>, \<^verbatim>\<open>uint16_t\<close>, \<^verbatim>\<open>uint32_t\<close>) as words of
    their width, so that increments and shifts wrap as they do in C++.
  \<^item> A running single-shot timer as the time at which it fires (microseconds).
  \<^item> The mask and byte-splitting lemmas that every wire format uses, in the collection
    \<open>wire\<close>.
  \<^item> \<open>update_first\<close>: the loop ``find the first entry that satisfies a test, change it and
    return'' by which the protocol objects walk their fixed tables.
  \<^item> Two interfaces as locales: \<open>io_machine\<close>, an event-driven component with an invariant,
    and \<open>wire_codec\<close>, an encoder with the decoder that inverts it.  Every component
    interprets them on its own operations.
\<close>

section \<open>Machine integers and time\<close>

type_synonym u8 = "8 word"
type_synonym u16 = "16 word"
type_synonym u32 = "32 word"
type_synonym bytes = "u8 list"

type_synonym time = nat
type_synonym timer = "time option"

abbreviation timer_armed :: "timer \<Rightarrow> bool" where
  "timer_armed t \<equiv> t \<noteq> None"

definition milliseconds :: "nat \<Rightarrow> time" where
  "milliseconds n = n * 1000"

definition microseconds :: "nat \<Rightarrow> time" where
  "microseconds n = n"

section \<open>Bits and bytes\<close>

named_theorems wire

lemma mask_as_take_bit [wire]:
  fixes x :: "'a::len word"
  shows "x AND 0xF = take_bit 4 x" and "x AND 0x1F = take_bit 5 x"
    and "x AND 0xFF = take_bit 8 x" and "x AND 0xFFF = take_bit 12 x"
  by (simp_all add: take_bit_eq_mask mask_numeral)

lemma bit_u8_bound: "bit (x :: u8) n \<Longrightarrow> n < 8"
  using bit_imp_le_length [of x n] by simp

lemma bit_u16_bound: "bit (x :: u16) n \<Longrightarrow> n < 16"
  using bit_imp_le_length [of x n] by simp

lemma bit_u32_bound: "bit (x :: u32) n \<Longrightarrow> n < 32"
  using bit_imp_le_length [of x n] by simp

lemmas bit_bounds = bit_u8_bound bit_u16_bound bit_u32_bound

lemma unat_u8_less: "unat (x :: u8) < 256"
  using unsigned_less [of x] by simp

lemma unat_u16_less: "unat (x :: u16) < 65536"
  using unsigned_less [of x] by simp

lemma take_bit_small:
  fixes x :: "'a::len word"
  assumes "unat x < 2 ^ n"
  shows "take_bit n x = x"
proof -
  have "unat (take_bit n x) = unat x"
    using assms by (simp add: unsigned_take_bit_eq take_bit_nat_eq_self)
  then show ?thesis by (simp add: word_unat_eq_iff)
qed

lemma unat_take_bit_less: "unat (take_bit n (x :: 'a::len word)) < 2 ^ n"
  by (simp add: unsigned_take_bit_eq)

section \<open>Fixed tables\<close>

fun update_first :: "('a \<Rightarrow> bool) \<Rightarrow> ('a \<Rightarrow> 'a) \<Rightarrow> 'a list \<Rightarrow> 'a list" where
  "update_first P f [] = []"
| "update_first P f (x # xs) = (if P x then f x # xs else x # update_first P f xs)"

lemma length_update_first [simp]: "length (update_first P f xs) = length xs"
  by (induction xs) auto

lemma update_first_none: "(\<And>x. x \<in> set xs \<Longrightarrow> \<not> P x) \<Longrightarrow> update_first P f xs = xs"
  by (induction xs) auto

lemma map_update_first:
  "(\<And>x. P x \<Longrightarrow> g (f x) = g x) \<Longrightarrow> map g (update_first P f xs) = map g xs"
  by (induction xs) auto

lemma set_update_first: "set (update_first P f xs) \<subseteq> set xs \<union> f ` {x \<in> set xs. P x}"
  by (induction xs) auto

lemma update_first_nth:
  assumes "i < length xs" and "P (xs ! i)" and "\<And>j. j < i \<Longrightarrow> \<not> P (xs ! j)"
  shows "update_first P f xs = xs[i := f (xs ! i)]"
  using assms
proof (induction xs arbitrary: i)
  case Nil
  then show ?case by simp
next
  case (Cons x xs)
  show ?case
  proof (cases i)
    case 0
    with Cons.prems show ?thesis by simp
  next
    case (Suc k)
    have "\<not> P x" using Cons.prems(3) [of 0] Suc by simp
    moreover have "\<not> P (xs ! j)" if "j < k" for j
      using Cons.prems(3) [of "Suc j"] that Suc by simp
    ultimately show ?thesis using Cons Suc by simp
  qed
qed

text \<open>The position of the first entry that a loop over a table stops at.\<close>

fun find_first :: "('a \<Rightarrow> bool) \<Rightarrow> 'a list \<Rightarrow> nat option" where
  "find_first P [] = None"
| "find_first P (x # xs) = (if P x then Some 0 else map_option Suc (find_first P xs))"

lemma find_first_Some:
  "find_first P xs = Some i \<Longrightarrow> i < length xs \<and> P (xs ! i) \<and> (\<forall>j < i. \<not> P (xs ! j))"
proof (induction xs arbitrary: i)
  case Nil
  then show ?case by simp
next
  case (Cons x xs)
  then show ?case
    by (cases "P x") (auto simp: less_Suc_eq_0_disj)
qed

lemma find_first_None: "find_first P xs = None \<longleftrightarrow> (\<forall>x \<in> set xs. \<not> P x)"
  by (induction xs) auto

lemma update_first_find:
  "update_first P f xs =
     (case find_first P xs of None \<Rightarrow> xs | Some i \<Rightarrow> xs[i := f (xs ! i)])"
  by (induction xs) (auto split: option.splits)

section \<open>Event-driven components\<close>

text \<open>
  Every object of the library is driven by events: a call of the application, a frame from
  the driver, a completed send, a timer that fires.  An event changes the state and yields
  outputs.  \<open>run_io\<close> runs a list of events and collects the outputs in order;
  \<open>admissible\<close> says that each event is enabled when it happens (a timer only fires while
  it is armed, the driver only completes a frame it was given).
\<close>

fun run_io :: "('e \<Rightarrow> 's \<Rightarrow> 's \<times> 'o list) \<Rightarrow> 'e list \<Rightarrow> 's \<Rightarrow> 's \<times> 'o list" where
  "run_io step [] s = (s, [])"
| "run_io step (e # es) s =
     (case step e s of (s', out) \<Rightarrow>
        (case run_io step es s' of (s'', out') \<Rightarrow> (s'', out @ out')))"

fun admissible :: "('e \<Rightarrow> 's \<Rightarrow> bool) \<Rightarrow> ('e \<Rightarrow> 's \<Rightarrow> 's \<times> 'o list) \<Rightarrow> 'e list \<Rightarrow> 's \<Rightarrow> bool" where
  "admissible enabled step [] s = True"
| "admissible enabled step (e # es) s =
     (enabled e s \<and> admissible enabled step es (fst (step e s)))"

fun total_over :: "('e \<Rightarrow> 's \<Rightarrow> 'm::comm_monoid_add) \<Rightarrow> ('e \<Rightarrow> 's \<Rightarrow> 's \<times> 'o list)
    \<Rightarrow> 'e list \<Rightarrow> 's \<Rightarrow> 'm" where
  "total_over brought step [] s = 0"
| "total_over brought step (e # es) s = brought e s + total_over brought step es (fst (step e s))"

lemma run_io_append:
  "run_io step (xs @ ys) s =
     (case run_io step xs s of (s', out) \<Rightarrow>
        (case run_io step ys s' of (s'', out') \<Rightarrow> (s'', out @ out')))"
  by (induction xs arbitrary: s) (auto split: prod.splits)

locale io_machine =
  fixes step :: "'e \<Rightarrow> 's \<Rightarrow> 's \<times> 'o list"
    and enabled :: "'e \<Rightarrow> 's \<Rightarrow> bool"
    and inv :: "'s \<Rightarrow> bool"
  assumes step_inv: "inv s \<Longrightarrow> enabled e s \<Longrightarrow> inv (fst (step e s))"
begin

lemma run_inv:
  assumes "inv s" and "admissible enabled step es s"
  shows "inv (fst (run_io step es s))"
  using assms
proof (induction es arbitrary: s)
  case Nil
  then show ?case by simp
next
  case (Cons e es)
  have "inv (fst (step e s))"
    using Cons.prems by (auto intro: step_inv)
  then have "inv (fst (run_io step es (fst (step e s))))"
    using Cons.prems(2) by (intro Cons.IH) auto
  then show ?case by (simp add: case_prod_beta)
qed

lemma run_outputs:
  assumes "\<And>s e. inv s \<Longrightarrow> enabled e s \<Longrightarrow> list_all Q (snd (step e s))"
    and "inv s" and "admissible enabled step es s"
  shows "list_all Q (snd (run_io step es s))"
  using assms(2,3)
proof (induction es arbitrary: s)
  case Nil
  then show ?case by simp
next
  case (Cons e es)
  then have "list_all Q (snd (step e s))" by (simp add: assms(1))
  moreover have "list_all Q (snd (run_io step es (fst (step e s))))"
    using Cons.prems by (intro Cons.IH) (auto intro: step_inv)
  ultimately show ?case by (simp add: case_prod_beta)
qed

end

text \<open>
  A component whose every step conserves a quantity (a number, a multiset of callbacks): what
  it holds afterwards plus what it gave out equals what it held before plus what the event
  brought in.
\<close>

locale conserving_machine = io_machine step enabled inv
  for step :: "'e \<Rightarrow> 's \<Rightarrow> 's \<times> 'o list"
    and enabled :: "'e \<Rightarrow> 's \<Rightarrow> bool"
    and inv :: "'s \<Rightarrow> bool" +
  fixes held :: "'s \<Rightarrow> 'm::comm_monoid_add"
    and brought :: "'e \<Rightarrow> 's \<Rightarrow> 'm"
    and released :: "'o list \<Rightarrow> 'm"
  assumes released_append: "released (xs @ ys) = released xs + released ys"
    and released_nil: "released [] = 0"
    and step_conserves: "inv s \<Longrightarrow> enabled e s \<Longrightarrow>
      held (fst (step e s)) + released (snd (step e s)) = held s + brought e s"
begin

lemma run_conserves:
  assumes "inv s" and "admissible enabled step es s"
  shows "held (fst (run_io step es s)) + released (snd (run_io step es s))
    = held s + total_over brought step es s"
  using assms
proof (induction es arbitrary: s)
  case Nil
  then show ?case by (simp add: released_nil)
next
  case (Cons e es)
  let ?s = "fst (step e s)"
  have "inv ?s" using Cons.prems by (auto intro: step_inv)
  then have rest: "held (fst (run_io step es ?s)) + released (snd (run_io step es ?s))
      = held ?s + total_over brought step es ?s"
    using Cons.prems(2) by (intro Cons.IH) auto
  have first: "held ?s + released (snd (step e s)) = held s + brought e s"
    using Cons.prems by (auto intro: step_conserves)
  have sums: "a + (r1 + r2) = h + (b + t)" if "a + r2 = g + t" "g + r1 = h + b" for a r1 r2 h b t g :: 'm
  proof -
    have "a + (r1 + r2) = (a + r2) + r1" by (simp only: ac_simps)
    also have "\<dots> = (g + r1) + t" unfolding that(1) by (simp only: ac_simps)
    finally show ?thesis unfolding that(2) by (simp only: ac_simps)
  qed
  show ?case using sums [OF rest first] by (simp add: case_prod_beta released_append)
qed

end

section \<open>Wire codecs\<close>

locale wire_codec =
  fixes encode :: "'a \<Rightarrow> 'b"
    and decode :: "'b \<Rightarrow> 'c"
    and image :: "'a \<Rightarrow> 'c"
    and encodable :: "'a \<Rightarrow> bool"
  assumes decode_encode: "encodable x \<Longrightarrow> decode (encode x) = image x"
begin

lemma encode_injective:
  assumes "encodable x" and "encodable y" and "encode x = encode y"
  shows "image x = image y"
  using assms by (metis decode_encode)

lemma decode_map_encode:
  assumes "\<forall>x \<in> set xs. encodable x"
  shows "map decode (map encode xs) = map image xs"
  using assms by (induction xs) (auto simp: decode_encode)

end

end
