(* ===== verification/ProtocolDefs.thy ===== *)
theory ProtocolDefs
  imports CanPrelude
begin

text \<open>
  The identifier layout, the constants and the enumerations of
  \<^verbatim>\<open>can-lite/core/CanProtocolDefinitions.hpp\<close>.  A 29-bit identifier packs a 5-bit
  priority, a 4-bit category, an 8-bit message type and a 12-bit node id.  The
  \<^verbatim>\<open>hal::Can::Id\<close> of the hardware layer, a standard or an extended identifier, is the
  datatype \<open>can_id\<close>.
\<close>

section \<open>Constants\<close>

definition canProtocolVersion :: u8 where "canProtocolVersion = 1"

definition canIdPriorityShift :: nat where "canIdPriorityShift = 24"
definition canIdCategoryShift :: nat where "canIdCategoryShift = 20"
definition canIdMessageTypeShift :: nat where "canIdMessageTypeShift = 12"
definition canIdCategoryMask :: u32 where "canIdCategoryMask = 0xF"
definition canIdNodeIdMask :: u32 where "canIdNodeIdMask = 0xFFF"
definition canBroadcastNodeId :: u16 where "canBroadcastNodeId = 0"

definition canSystemCategoryId :: u8 where "canSystemCategoryId = 0"
definition canHeartbeatMessageTypeId :: u8 where "canHeartbeatMessageTypeId = 0x01"
definition canCommandAckMessageTypeId :: u8 where "canCommandAckMessageTypeId = 0x02"
definition canStatusRequestMessageTypeId :: u8 where "canStatusRequestMessageTypeId = 0x03"
definition canCategoryListRequestMessageTypeId :: u8 where
  "canCategoryListRequestMessageTypeId = 0x04"
definition canCategoryListResponseMessageTypeId :: u8 where
  "canCategoryListResponseMessageTypeId = 0x05"

definition canFirstApplicationCategoryId :: u8 where "canFirstApplicationCategoryId = 0x02"
definition canLastApplicationCategoryId :: u8 where "canLastApplicationCategoryId = 0x0F"

definition canMaxFramePayloadSize :: nat where "canMaxFramePayloadSize = 8"
definition canMaxRegisteredCategories :: nat where "canMaxRegisteredCategories = 8"

definition canCategoryErrorResponseMessageTypeId :: u8 where
  "canCategoryErrorResponseMessageTypeId = 0xFE"

definition canLastCommandMessageTypeId :: u8 where "canLastCommandMessageTypeId = 0x7F"

definition canCommandAckSize :: nat where "canCommandAckSize = 4"

lemmas can_constants =
  canProtocolVersion_def canIdPriorityShift_def canIdCategoryShift_def
  canIdMessageTypeShift_def canIdCategoryMask_def canIdNodeIdMask_def canBroadcastNodeId_def
  canSystemCategoryId_def canHeartbeatMessageTypeId_def canCommandAckMessageTypeId_def
  canStatusRequestMessageTypeId_def canCategoryListRequestMessageTypeId_def
  canCategoryListResponseMessageTypeId_def canFirstApplicationCategoryId_def
  canLastApplicationCategoryId_def canMaxFramePayloadSize_def canMaxRegisteredCategories_def
  canCategoryErrorResponseMessageTypeId_def canLastCommandMessageTypeId_def
  canCommandAckSize_def

section \<open>Enumerations\<close>

text \<open>
  Both enumerations have a fixed underlying type, and the code casts bytes from the wire to
  them unchecked.  A value of the datatype is an enumerator; the \<^verbatim>\<open>_code\<close> functions give
  the underlying byte, and code that compares a byte from the wire with an enumerator
  compares codes.
\<close>

datatype CanPriority = emergency | command | response | telemetry | heartbeat

fun CanPriority_code :: "CanPriority \<Rightarrow> u8" where
  "CanPriority_code emergency = 0"
| "CanPriority_code command = 4"
| "CanPriority_code response = 8"
| "CanPriority_code telemetry = 12"
| "CanPriority_code heartbeat = 16"

datatype CanAckStatus =
  ackSuccess | unknownCommand | invalidPayload | invalidState | sequenceError
  | rateLimited | notImplemented | categoryError

fun CanAckStatus_code :: "CanAckStatus \<Rightarrow> u8" where
  "CanAckStatus_code ackSuccess = 0"
| "CanAckStatus_code unknownCommand = 1"
| "CanAckStatus_code invalidPayload = 2"
| "CanAckStatus_code invalidState = 3"
| "CanAckStatus_code sequenceError = 4"
| "CanAckStatus_code rateLimited = 5"
| "CanAckStatus_code notImplemented = 6"
| "CanAckStatus_code categoryError = 7"

definition CanAckStatusToString :: "u8 \<Rightarrow> string" where
  "CanAckStatusToString status =
     (if status = CanAckStatus_code ackSuccess then ''success''
      else if status = CanAckStatus_code unknownCommand then ''unknownCommand''
      else if status = CanAckStatus_code invalidPayload then ''invalidPayload''
      else if status = CanAckStatus_code invalidState then ''invalidState''
      else if status = CanAckStatus_code sequenceError then ''sequenceError''
      else if status = CanAckStatus_code rateLimited then ''rateLimited''
      else if status = CanAckStatus_code notImplemented then ''notImplemented''
      else if status = CanAckStatus_code categoryError then ''categoryError''
      else ''unknown'')"

section \<open>Identifiers\<close>

datatype can_id = Id11 u16 | Id29 u32

definition MakeCanId :: "CanPriority \<Rightarrow> u8 \<Rightarrow> u8 \<Rightarrow> u16 \<Rightarrow> u32" where
  "MakeCanId priority category messageType nodeId =
     push_bit canIdPriorityShift (ucast (CanPriority_code priority)) OR
     push_bit canIdCategoryShift (ucast category AND canIdCategoryMask) OR
     push_bit canIdMessageTypeShift (ucast messageType) OR
     (ucast nodeId AND canIdNodeIdMask)"

definition ExtractCanPriority :: "u32 \<Rightarrow> u8" where
  "ExtractCanPriority canId = ucast (drop_bit canIdPriorityShift canId AND 0x1F)"

definition ExtractCanCategory :: "u32 \<Rightarrow> u8" where
  "ExtractCanCategory canId = ucast (drop_bit canIdCategoryShift canId AND 0xF)"

definition ExtractCanMessageType :: "u32 \<Rightarrow> u8" where
  "ExtractCanMessageType canId = ucast (drop_bit canIdMessageTypeShift canId AND 0xFF)"

definition ExtractCanNodeId :: "u32 \<Rightarrow> u16" where
  "ExtractCanNodeId canId = ucast (canId AND canIdNodeIdMask)"

definition IsCommandMessageType :: "u8 \<Rightarrow> bool" where
  "IsCommandMessageType messageType \<longleftrightarrow> messageType \<le> canLastCommandMessageTypeId"

definition IsResponseMessageType :: "u8 \<Rightarrow> bool" where
  "IsResponseMessageType messageType \<longleftrightarrow> messageType > canLastCommandMessageTypeId"

definition IsApplicationCategoryId :: "u8 \<Rightarrow> bool" where
  "IsApplicationCategoryId category \<longleftrightarrow>
     category \<ge> canFirstApplicationCategoryId \<and> category \<le> canLastApplicationCategoryId"

section \<open>The fields of a composed identifier\<close>

lemmas can_id_defs = MakeCanId_def ExtractCanPriority_def ExtractCanCategory_def
  ExtractCanMessageType_def ExtractCanNodeId_def canIdPriorityShift_def
  canIdCategoryShift_def canIdMessageTypeShift_def canIdCategoryMask_def canIdNodeIdMask_def

lemma ExtractCanMessageType_Make [simp]:
  "ExtractCanMessageType (MakeCanId p c m n) = m"
  unfolding can_id_defs wire
  by (rule bit_word_eqI) (auto simp: bit_simps dest: bit_bounds)

lemma ExtractCanCategory_Make: "ExtractCanCategory (MakeCanId p c m n) = take_bit 4 c"
  unfolding can_id_defs wire
  by (rule bit_word_eqI) (auto simp: bit_simps dest: bit_bounds)

lemma ExtractCanNodeId_Make: "ExtractCanNodeId (MakeCanId p c m n) = take_bit 12 n"
  unfolding can_id_defs wire
  by (rule bit_word_eqI) (auto simp: bit_simps dest: bit_bounds)

lemma ExtractCanPriority_Make [simp]:
  "ExtractCanPriority (MakeCanId p c m n) = CanPriority_code p"
proof -
  have "ExtractCanPriority (MakeCanId p c m n) = take_bit 5 (CanPriority_code p)"
    unfolding can_id_defs wire
    by (rule bit_word_eqI) (auto simp: bit_simps dest: bit_bounds)
  also have "\<dots> = CanPriority_code p"
    by (cases p) (simp_all add: take_bit_small)
  finally show ?thesis .
qed

lemma ExtractCanCategory_Make_small [simp]:
  "unat c < 16 \<Longrightarrow> ExtractCanCategory (MakeCanId p c m n) = c"
  by (simp add: ExtractCanCategory_Make take_bit_small)

lemma ExtractCanNodeId_Make_small [simp]:
  "unat n < 4096 \<Longrightarrow> ExtractCanNodeId (MakeCanId p c m n) = n"
  by (simp add: ExtractCanNodeId_Make take_bit_small)

lemma ExtractCanCategory_bound: "unat (ExtractCanCategory i) < 16"
proof -
  have "ExtractCanCategory i = take_bit 4 (ucast (drop_bit 20 i))"
    unfolding can_id_defs wire
    by (rule bit_word_eqI) (auto simp: bit_simps dest: bit_bounds)
  then show ?thesis using unat_take_bit_less [of 4 "ucast (drop_bit 20 i) :: u8"] by simp
qed

lemma bit_CanPriority_code: "bit (CanPriority_code p) n \<Longrightarrow> n < 5"
proof -
  have "take_bit 5 (CanPriority_code p) = CanPriority_code p"
    by (cases p) (simp_all add: take_bit_small)
  then have "bit (CanPriority_code p) n = (n < 5 \<and> bit (CanPriority_code p) n)"
    by (metis bit_take_bit_iff)
  then show "bit (CanPriority_code p) n \<Longrightarrow> n < 5" by blast
qed

lemma MakeCanId_29_bits: "unat (MakeCanId p c m n) < 2 ^ 29"
proof -
  have "take_bit 29 (MakeCanId p c m n) = MakeCanId p c m n"
    unfolding can_id_defs wire
    by (rule bit_word_eqI) (auto simp: bit_simps dest: bit_bounds bit_CanPriority_code)
  then show ?thesis using unat_take_bit_less [of 29 "MakeCanId p c m n"] by simp
qed

lemma IsCommand_iff_not_IsResponse:
  "IsCommandMessageType m \<longleftrightarrow> \<not> IsResponseMessageType m"
  by (auto simp: IsCommandMessageType_def IsResponseMessageType_def)

lemma CanPriority_code_inject [simp]: "CanPriority_code p = CanPriority_code q \<longleftrightarrow> p = q"
  by (cases p; cases q) auto

lemma CanAckStatus_code_inject [simp]: "CanAckStatus_code p = CanAckStatus_code q \<longleftrightarrow> p = q"
  by (cases p; cases q) auto

section \<open>Properties\<close>

text \<open>A composed identifier fits in 29 bits and its four fields are read back: the
  priority and the message type always, category and node id modulo the width of their
  field, exactly when they are in range.\<close>

theorem can_id_round_trip:
  "unat (MakeCanId p c m n) < 2 ^ 29 \<and>
   ExtractCanPriority (MakeCanId p c m n) = CanPriority_code p \<and>
   ExtractCanMessageType (MakeCanId p c m n) = m \<and>
   (ExtractCanCategory (MakeCanId p c m n) = c) = (unat c < 16) \<and>
   (ExtractCanNodeId (MakeCanId p c m n) = n) = (unat n < 4096)"
proof -
  have "unat (take_bit 4 c) < 16" and "unat (take_bit 12 n) < 4096"
    using unat_take_bit_less [of 4 c] unat_take_bit_less [of 12 n] by simp_all
  then show ?thesis
    using MakeCanId_29_bits [of p c m n]
    by (auto simp: ExtractCanCategory_Make ExtractCanNodeId_Make take_bit_small)
qed

lemma CanId_priority_bits: "drop_bit 24 (MakeCanId p c m n) = ucast (CanPriority_code p)"
  unfolding can_id_defs wire
  by (rule bit_word_eqI) (auto simp: bit_simps dest: bit_bounds bit_CanPriority_code)

text \<open>Identifiers arbitrate by priority: whatever their other fields, the frame of the more
  urgent priority has the smaller identifier and so wins the bus.\<close>

theorem can_id_arbitrates_by_priority:
  assumes "CanPriority_code p < CanPriority_code q"
  shows "MakeCanId p c m n < MakeCanId q c' m' n'"
proof (rule ccontr)
  assume "\<not> ?thesis"
  then have "unat (MakeCanId q c' m' n') \<le> unat (MakeCanId p c m n)"
    by (simp add: not_less word_le_nat_alt)
  then have "unat (drop_bit 24 (MakeCanId q c' m' n')) \<le> unat (drop_bit 24 (MakeCanId p c m n))"
    by (simp add: drop_bit_eq_div unat_div div_le_mono)
  then have "unat (CanPriority_code q) \<le> unat (CanPriority_code p)"
    by (simp add: CanId_priority_bits unsigned_ucast_eq)
      (cases p; cases q; simp)
  with assms show False by (simp add: word_less_nat_alt)
qed

end
