(* ===== verification/FrameCodec.thy ===== *)
theory FrameCodec
  imports ProtocolDefs
begin

text \<open>
  The big-endian accessors of \<^verbatim>\<open>can-lite/core/CanFrameCodec.cpp\<close>.  A
  \<^verbatim>\<open>hal::Can::Message\<close> is a byte vector of capacity 8, here a byte list; writing returns
  the success flag with the changed message.  Signed values are integers, converted to and
  from the unsigned wire word as \<^verbatim>\<open>static_cast\<close> does.  The four float conversions are
  in \<open>FixedPoint\<close>.
\<close>

abbreviation message_max_size :: nat where
  "message_max_size \<equiv> canMaxFramePayloadSize"

definition well_sized :: "bytes \<Rightarrow> bool" where
  "well_sized msg \<longleftrightarrow> length msg \<le> message_max_size"

section \<open>Growing and bounds\<close>

function grow_loop :: "nat \<Rightarrow> bytes \<Rightarrow> bytes" where
  "grow_loop n msg = (if length msg < n then grow_loop n (msg @ [0]) else msg)"
  by pat_completeness auto
termination
  by (relation "measure (\<lambda>(n, msg). n - length msg)") auto

declare grow_loop.simps [simp del]

definition Grow :: "bytes \<Rightarrow> nat \<Rightarrow> nat \<Rightarrow> bool \<times> bytes" where
  "Grow msg offset width =
     (if offset > message_max_size \<or> width > message_max_size - offset then (False, msg)
      else (True, grow_loop (offset + width) msg))"

definition Readable :: "bytes \<Rightarrow> nat \<Rightarrow> nat \<Rightarrow> bool" where
  "Readable msg offset width \<longleftrightarrow> offset \<le> length msg \<and> width \<le> length msg - offset"

lemma grow_loop_eq: "grow_loop n msg = msg @ replicate (n - length msg) 0"
proof (induction n msg rule: grow_loop.induct)
  case (1 n msg)
  show ?case
  proof (cases "length msg < n")
    case True
    then have "n - length msg = Suc (n - Suc (length msg))" by simp
    with True 1 show ?thesis by (simp add: grow_loop.simps [of n msg])
  next
    case False
    then show ?thesis by (simp add: grow_loop.simps [of n msg])
  qed
qed

lemma length_grow_loop [simp]: "length (grow_loop n msg) = max n (length msg)"
  by (simp add: grow_loop_eq)

section \<open>Writing and reading\<close>

definition WriteUInt16 :: "bytes \<Rightarrow> nat \<Rightarrow> u16 \<Rightarrow> bool \<times> bytes" where
  "WriteUInt16 msg offset value =
     (case Grow msg offset 2 of
        (False, msg) \<Rightarrow> (False, msg)
      | (True, msg) \<Rightarrow>
          (True, msg[offset := ucast (drop_bit 8 value), offset + 1 := ucast (value AND 0xFF)]))"

definition ReadUInt16 :: "bytes \<Rightarrow> nat \<Rightarrow> u16" where
  "ReadUInt16 msg offset =
     (if \<not> Readable msg offset 2 then 0
      else push_bit 8 (ucast (msg ! offset)) OR ucast (msg ! (offset + 1)))"

definition WriteUInt32 :: "bytes \<Rightarrow> nat \<Rightarrow> u32 \<Rightarrow> bool \<times> bytes" where
  "WriteUInt32 msg offset value =
     (case Grow msg offset 4 of
        (False, msg) \<Rightarrow> (False, msg)
      | (True, msg) \<Rightarrow>
          (True, msg[offset := ucast (drop_bit 24 value AND 0xFF),
                     offset + 1 := ucast (drop_bit 16 value AND 0xFF),
                     offset + 2 := ucast (drop_bit 8 value AND 0xFF),
                     offset + 3 := ucast (value AND 0xFF)]))"

definition ReadUInt32 :: "bytes \<Rightarrow> nat \<Rightarrow> u32" where
  "ReadUInt32 msg offset =
     (if \<not> Readable msg offset 4 then 0
      else push_bit 24 (ucast (msg ! offset)) OR push_bit 16 (ucast (msg ! (offset + 1))) OR
           push_bit 8 (ucast (msg ! (offset + 2))) OR ucast (msg ! (offset + 3)))"

definition WriteInt16 :: "bytes \<Rightarrow> nat \<Rightarrow> int \<Rightarrow> bool \<times> bytes" where
  "WriteInt16 msg offset value = WriteUInt16 msg offset (word_of_int value)"

definition ReadInt16 :: "bytes \<Rightarrow> nat \<Rightarrow> int" where
  "ReadInt16 msg offset = sint (ReadUInt16 msg offset)"

definition WriteInt32 :: "bytes \<Rightarrow> nat \<Rightarrow> int \<Rightarrow> bool \<times> bytes" where
  "WriteInt32 msg offset value = WriteUInt32 msg offset (word_of_int value)"

definition ReadInt32 :: "bytes \<Rightarrow> nat \<Rightarrow> int" where
  "ReadInt32 msg offset = sint (ReadUInt32 msg offset)"

section \<open>Splitting and joining words\<close>

lemma join_split_u16 [wire]:
  "(push_bit 8 (ucast (ucast (drop_bit 8 v) :: u8)) OR ucast (ucast (take_bit 8 v) :: u8)) = (v :: u16)"
  by (rule bit_word_eqI) (auto simp: bit_simps)

lemma join_split_u32 [wire]:
  "(push_bit 24 (ucast (ucast (take_bit 8 (drop_bit 24 v)) :: u8)) OR
    push_bit 16 (ucast (ucast (take_bit 8 (drop_bit 16 v)) :: u8)) OR
    push_bit 8 (ucast (ucast (take_bit 8 (drop_bit 8 v)) :: u8)) OR
    ucast (ucast (take_bit 8 v) :: u8)) = (v :: u32)" (is "?joined = v")
proof (rule bit_word_eqI)
  fix n
  assume "n < LENGTH(32)"
  then have "n < 8 \<or> 8 \<le> n \<and> n < 16 \<or> 16 \<le> n \<and> n < 24 \<or> 24 \<le> n \<and> n < 32"
    by simp arith
  then show "bit ?joined n = bit v n"
    by (elim disjE) (auto simp: bit_simps)
qed

lemma sint_of_int16: "- (2 ^ 15) \<le> v \<Longrightarrow> v < 2 ^ 15 \<Longrightarrow> sint (word_of_int v :: u16) = v"
  by (simp add: signed_of_int signed_take_bit_int_eq_self_iff)

lemma sint_of_int32: "- (2 ^ 31) \<le> v \<Longrightarrow> v < 2 ^ 31 \<Longrightarrow> sint (word_of_int v :: u32) = v"
  by (simp add: signed_of_int signed_take_bit_int_eq_self_iff)

section \<open>What writing and reading do\<close>

lemma Grow_fails: "fst (Grow msg offset width) \<longleftrightarrow> offset + width \<le> message_max_size"
  by (auto simp: Grow_def)

lemma WriteUInt16_fits:
  assumes "offset + 2 \<le> message_max_size"
  shows "WriteUInt16 msg offset v =
    (True, (msg @ replicate (offset + 2 - length msg) 0)
       [offset := ucast (drop_bit 8 v), offset + 1 := ucast (take_bit 8 v)])"
  using assms by (simp add: WriteUInt16_def Grow_def grow_loop_eq wire)

lemma WriteUInt32_fits:
  assumes "offset + 4 \<le> message_max_size"
  shows "WriteUInt32 msg offset v =
    (True, (msg @ replicate (offset + 4 - length msg) 0)
       [offset := ucast (take_bit 8 (drop_bit 24 v)),
        offset + 1 := ucast (take_bit 8 (drop_bit 16 v)),
        offset + 2 := ucast (take_bit 8 (drop_bit 8 v)),
        offset + 3 := ucast (take_bit 8 v)])"
  using assms by (simp add: WriteUInt32_def Grow_def grow_loop_eq wire)

lemma WriteUInt16_refused:
  "\<not> offset + 2 \<le> message_max_size \<Longrightarrow> WriteUInt16 msg offset v = (False, msg)"
  by (auto simp: WriteUInt16_def Grow_def)

lemma WriteUInt32_refused:
  "\<not> offset + 4 \<le> message_max_size \<Longrightarrow> WriteUInt32 msg offset v = (False, msg)"
  by (auto simp: WriteUInt32_def Grow_def)

text \<open>Appending at the end, the only way the payload writer uses these operations.\<close>

definition be16 :: "u16 \<Rightarrow> bytes" where
  "be16 v = [ucast (drop_bit 8 v), ucast (take_bit 8 v)]"

definition be32 :: "u32 \<Rightarrow> bytes" where
  "be32 v = [ucast (take_bit 8 (drop_bit 24 v)), ucast (take_bit 8 (drop_bit 16 v)),
             ucast (take_bit 8 (drop_bit 8 v)), ucast (take_bit 8 v)]"

lemma length_be16 [simp]: "length (be16 v) = 2" and length_be32 [simp]: "length (be32 w) = 4"
  by (simp_all add: be16_def be32_def)

lemma replicate_0_append:
  "xs @ replicate 2 0 = xs @ [0, 0]" and "ys @ replicate 4 0 = ys @ [0, 0, 0, 0]"
  by (simp_all add: numeral_eq_Suc)

lemma replicate_4_0: "replicate 4 0 = [0, 0, 0, 0]"
  by (simp add: numeral_eq_Suc)

lemma WriteUInt16_append:
  assumes "length msg + 2 \<le> message_max_size"
  shows "WriteUInt16 msg (length msg) v = (True, msg @ be16 v)"
  using assms by (simp add: WriteUInt16_fits be16_def replicate_0_append list_update_append)

lemma WriteUInt32_append:
  assumes "length msg + 4 \<le> message_max_size"
  shows "WriteUInt32 msg (length msg) v = (True, msg @ be32 v)"
  using assms by (simp add: WriteUInt32_fits be32_def replicate_4_0 list_update_append)

lemma nth_middle:
  "k < length bs \<Longrightarrow> (xs @ bs @ ys) ! (length xs + k) = bs ! k"
  by (simp add: nth_append)

lemma ReadUInt16_at: "ReadUInt16 (xs @ be16 v @ ys) (length xs) = v"
  using nth_middle [of 0 "be16 v" xs ys] nth_middle [of 1 "be16 v" xs ys]
  by (simp add: ReadUInt16_def Readable_def) (simp add: be16_def wire)

lemma ReadUInt32_at: "ReadUInt32 (xs @ be32 v @ ys) (length xs) = v"
  using nth_middle [of 0 "be32 v" xs ys] nth_middle [of 1 "be32 v" xs ys]
    nth_middle [of 2 "be32 v" xs ys] nth_middle [of 3 "be32 v" xs ys]
  by (simp add: ReadUInt32_def Readable_def) (simp add: be32_def wire)

section \<open>Properties\<close>

text \<open>Lengths: a write never leaves the message longer than its capacity.\<close>

lemma WriteUInt16_well_sized: "well_sized msg \<Longrightarrow> well_sized (snd (WriteUInt16 msg offset v))"
  by (cases "offset + 2 \<le> message_max_size")
     (auto simp: WriteUInt16_fits WriteUInt16_refused well_sized_def)

lemma WriteUInt32_well_sized: "well_sized msg \<Longrightarrow> well_sized (snd (WriteUInt32 msg offset v))"
  by (cases "offset + 4 \<le> message_max_size")
     (auto simp: WriteUInt32_fits WriteUInt32_refused well_sized_def)

text \<open>Every write that fits is read back at the same offset, whatever was there before.\<close>

lemma ReadUInt16_WriteUInt16:
  assumes "offset + 2 \<le> message_max_size"
  shows "ReadUInt16 (snd (WriteUInt16 msg offset v)) offset = v"
proof -
  have "2 \<le> length msg + (offset + 2 - length msg) - offset"
    and "offset \<le> length msg + (offset + 2 - length msg)" by simp_all
  then show ?thesis using assms
    by (simp add: WriteUInt16_fits ReadUInt16_def Readable_def wire)
qed

lemma ReadUInt32_WriteUInt32:
  assumes "offset + 4 \<le> message_max_size"
  shows "ReadUInt32 (snd (WriteUInt32 msg offset v)) offset = v"
proof -
  have "4 \<le> length msg + (offset + 4 - length msg) - offset"
    and "offset \<le> length msg + (offset + 4 - length msg)" by simp_all
  then show ?thesis using assms
    by (simp add: WriteUInt32_fits ReadUInt32_def Readable_def wire)
qed

end
