(* ===== verification/Payload.thy ===== *)
theory Payload
  imports FrameCodec
begin

text \<open>
  The payload writer and reader of \<^verbatim>\<open>can-lite/core/CanPayload.cpp\<close>.  Both are sticky: after
  the first field that does not fit they are invalid, write nothing more and read zeros.
  The writer's fluent calls return the writer, here the changed record; a read returns the
  value with the changed reader.  \<open>field\<close> and \<open>write_fields\<close> / \<open>read_fields\<close> are the
  specification: a payload is the concatenation of its fields' big-endian images.
\<close>

section \<open>The writer\<close>

record payload_writer =
  pw_message :: bytes
  pw_valid :: bool

definition CanPayloadWriter :: payload_writer where
  "CanPayloadWriter = \<lparr>pw_message = [], pw_valid = True\<rparr>"

definition Reserve :: "nat \<Rightarrow> payload_writer \<Rightarrow> bool \<times> payload_writer" where
  "Reserve n w =
     (if \<not> pw_valid w then (False, w)
      else if length (pw_message w) + n > message_max_size then (False, w\<lparr>pw_valid := False\<rparr>)
      else (True, w))"

definition WriteUInt8P :: "u8 \<Rightarrow> payload_writer \<Rightarrow> payload_writer" where
  "WriteUInt8P v w =
     (case Reserve 1 w of
        (True, w) \<Rightarrow> w\<lparr>pw_message := pw_message w @ [v]\<rparr>
      | (False, w) \<Rightarrow> w)"

definition WriteInt16P :: "int \<Rightarrow> payload_writer \<Rightarrow> payload_writer" where
  "WriteInt16P v w =
     (case Reserve 2 w of
        (True, w) \<Rightarrow> w\<lparr>pw_message := snd (WriteInt16 (pw_message w) (length (pw_message w)) v)\<rparr>
      | (False, w) \<Rightarrow> w)"

definition WriteUInt16P :: "u16 \<Rightarrow> payload_writer \<Rightarrow> payload_writer" where
  "WriteUInt16P v w =
     (case Reserve 2 w of
        (True, w) \<Rightarrow> w\<lparr>pw_message := snd (WriteUInt16 (pw_message w) (length (pw_message w)) v)\<rparr>
      | (False, w) \<Rightarrow> w)"

definition WriteInt32P :: "int \<Rightarrow> payload_writer \<Rightarrow> payload_writer" where
  "WriteInt32P v w =
     (case Reserve 4 w of
        (True, w) \<Rightarrow> w\<lparr>pw_message := snd (WriteInt32 (pw_message w) (length (pw_message w)) v)\<rparr>
      | (False, w) \<Rightarrow> w)"

definition WriteUInt32P :: "u32 \<Rightarrow> payload_writer \<Rightarrow> payload_writer" where
  "WriteUInt32P v w =
     (case Reserve 4 w of
        (True, w) \<Rightarrow> w\<lparr>pw_message := snd (WriteUInt32 (pw_message w) (length (pw_message w)) v)\<rparr>
      | (False, w) \<Rightarrow> w)"

fun push_all :: "bytes \<Rightarrow> bytes \<Rightarrow> bytes" where
  "push_all msg [] = msg"
| "push_all msg (b # bs) = push_all (msg @ [b]) bs"

definition WriteBytesP :: "bytes \<Rightarrow> payload_writer \<Rightarrow> payload_writer" where
  "WriteBytesP bs w =
     (case Reserve (length bs) w of
        (True, w) \<Rightarrow> w\<lparr>pw_message := push_all (pw_message w) bs\<rparr>
      | (False, w) \<Rightarrow> w)"

definition RemainingP :: "payload_writer \<Rightarrow> nat" where
  "RemainingP w = (if pw_valid w then message_max_size - length (pw_message w) else 0)"

section \<open>The reader\<close>

record payload_reader =
  pr_message :: bytes
  pr_offset :: nat
  pr_valid :: bool

definition CanPayloadReader :: "bytes \<Rightarrow> payload_reader" where
  "CanPayloadReader msg = \<lparr>pr_message = msg, pr_offset = 0, pr_valid = True\<rparr>"

definition Take :: "nat \<Rightarrow> payload_reader \<Rightarrow> nat option \<times> payload_reader" where
  "Take n r =
     (if \<not> pr_valid r then (None, r)
      else if pr_offset r + n > length (pr_message r) then (None, r\<lparr>pr_valid := False\<rparr>)
      else (Some (pr_offset r), r\<lparr>pr_offset := pr_offset r + n\<rparr>))"

definition ReadUInt8P :: "payload_reader \<Rightarrow> u8 \<times> payload_reader" where
  "ReadUInt8P r = (case Take 1 r of (None, r) \<Rightarrow> (0, r) | (Some start, r) \<Rightarrow> (pr_message r ! start, r))"

definition ReadInt16P :: "payload_reader \<Rightarrow> int \<times> payload_reader" where
  "ReadInt16P r = (case Take 2 r of (None, r) \<Rightarrow> (0, r) | (Some start, r) \<Rightarrow> (ReadInt16 (pr_message r) start, r))"

definition ReadUInt16P :: "payload_reader \<Rightarrow> u16 \<times> payload_reader" where
  "ReadUInt16P r = (case Take 2 r of (None, r) \<Rightarrow> (0, r) | (Some start, r) \<Rightarrow> (ReadUInt16 (pr_message r) start, r))"

definition ReadInt32P :: "payload_reader \<Rightarrow> int \<times> payload_reader" where
  "ReadInt32P r = (case Take 4 r of (None, r) \<Rightarrow> (0, r) | (Some start, r) \<Rightarrow> (ReadInt32 (pr_message r) start, r))"

definition ReadUInt32P :: "payload_reader \<Rightarrow> u32 \<times> payload_reader" where
  "ReadUInt32P r = (case Take 4 r of (None, r) \<Rightarrow> (0, r) | (Some start, r) \<Rightarrow> (ReadUInt32 (pr_message r) start, r))"

definition SkipP :: "nat \<Rightarrow> payload_reader \<Rightarrow> payload_reader" where
  "SkipP n r = snd (Take n r)"

definition ReadRemainingP :: "payload_reader \<Rightarrow> bytes \<times> payload_reader" where
  "ReadRemainingP r =
     (if \<not> pr_valid r then ([], r)
      else (drop (pr_offset r) (pr_message r), r\<lparr>pr_offset := length (pr_message r)\<rparr>))"

definition AvailableP :: "payload_reader \<Rightarrow> nat" where
  "AvailableP r = (if pr_valid r then length (pr_message r) - pr_offset r else 0)"

section \<open>Fields: the specification of a payload\<close>

datatype field = FU8 u8 | FU16 u16 | FS16 int | FU32 u32 | FS32 int

datatype field_type = TU8 | TU16 | TS16 | TU32 | TS32

fun type_of_field :: "field \<Rightarrow> field_type" where
  "type_of_field (FU8 _) = TU8"
| "type_of_field (FU16 _) = TU16"
| "type_of_field (FS16 _) = TS16"
| "type_of_field (FU32 _) = TU32"
| "type_of_field (FS32 _) = TS32"

fun field_bytes :: "field \<Rightarrow> bytes" where
  "field_bytes (FU8 v) = [v]"
| "field_bytes (FU16 v) = be16 v"
| "field_bytes (FS16 v) = be16 (word_of_int v)"
| "field_bytes (FU32 v) = be32 v"
| "field_bytes (FS32 v) = be32 (word_of_int v)"

fun in_range :: "field \<Rightarrow> bool" where
  "in_range (FS16 v) = (- (2 ^ 15) \<le> v \<and> v < 2 ^ 15)"
| "in_range (FS32 v) = (- (2 ^ 31) \<le> v \<and> v < 2 ^ 31)"
| "in_range f = True"

fun write_field :: "field \<Rightarrow> payload_writer \<Rightarrow> payload_writer" where
  "write_field (FU8 v) w = WriteUInt8P v w"
| "write_field (FU16 v) w = WriteUInt16P v w"
| "write_field (FS16 v) w = WriteInt16P v w"
| "write_field (FU32 v) w = WriteUInt32P v w"
| "write_field (FS32 v) w = WriteInt32P v w"

fun read_field :: "field_type \<Rightarrow> payload_reader \<Rightarrow> field \<times> payload_reader" where
  "read_field TU8 r = (case ReadUInt8P r of (v, r) \<Rightarrow> (FU8 v, r))"
| "read_field TU16 r = (case ReadUInt16P r of (v, r) \<Rightarrow> (FU16 v, r))"
| "read_field TS16 r = (case ReadInt16P r of (v, r) \<Rightarrow> (FS16 v, r))"
| "read_field TU32 r = (case ReadUInt32P r of (v, r) \<Rightarrow> (FU32 v, r))"
| "read_field TS32 r = (case ReadInt32P r of (v, r) \<Rightarrow> (FS32 v, r))"

fun write_fields :: "field list \<Rightarrow> payload_writer \<Rightarrow> payload_writer" where
  "write_fields [] w = w"
| "write_fields (f # fs) w = write_fields fs (write_field f w)"

fun read_fields :: "field_type list \<Rightarrow> payload_reader \<Rightarrow> field list \<times> payload_reader" where
  "read_fields [] r = ([], r)"
| "read_fields (f # fs) r =
     (case read_field f r of (v, r) \<Rightarrow> (case read_fields fs r of (vs, r) \<Rightarrow> (v # vs, r)))"

definition payload_bytes :: "field list \<Rightarrow> bytes" where
  "payload_bytes fs = concat (map field_bytes fs)"

lemma push_all_eq [simp]: "push_all msg bs = msg @ bs"
  by (induction msg bs rule: push_all.induct) auto

section \<open>What a write does\<close>

lemmas writer_defs = WriteUInt8P_def WriteUInt16P_def WriteInt16P_def WriteUInt32P_def
  WriteInt32P_def WriteBytesP_def

lemma Reserve_fits:
  "pw_valid w \<Longrightarrow> length (pw_message w) + n \<le> message_max_size \<Longrightarrow> Reserve n w = (True, w)"
  by (auto simp: Reserve_def)

lemma Reserve_refuses:
  "\<not> (pw_valid w \<and> length (pw_message w) + n \<le> message_max_size) \<Longrightarrow>
     Reserve n w = (False, w\<lparr>pw_valid := False\<rparr>)"
  by (auto simp: Reserve_def)

lemma write_field_fits:
  assumes "pw_valid w" and "length (pw_message w) + length (field_bytes f) \<le> message_max_size"
  shows "write_field f w = w\<lparr>pw_message := pw_message w @ field_bytes f\<rparr>"
  using assms
  by (cases f) (simp_all add: writer_defs Reserve_fits WriteUInt16_append WriteUInt32_append
      WriteInt16_def WriteInt32_def)

lemma write_field_refused:
  assumes "\<not> (pw_valid w \<and> length (pw_message w) + length (field_bytes f) \<le> message_max_size)"
  shows "write_field f w = w\<lparr>pw_valid := False\<rparr>"
  using assms by (cases f) (simp_all add: writer_defs Reserve_refuses)

lemma WriteBytesP_fits:
  assumes "pw_valid w" and "length (pw_message w) + length bs \<le> message_max_size"
  shows "WriteBytesP bs w = w\<lparr>pw_message := pw_message w @ bs\<rparr>"
  using assms by (simp add: WriteBytesP_def Reserve_fits)

lemma WriteBytesP_refused:
  assumes "\<not> (pw_valid w \<and> length (pw_message w) + length bs \<le> message_max_size)"
  shows "WriteBytesP bs w = w\<lparr>pw_valid := False\<rparr>"
  using assms by (simp add: WriteBytesP_def Reserve_refuses)

lemma write_fields_invalid:
  "\<not> pw_valid w \<Longrightarrow> write_fields fs w = w"
  by (induction fs arbitrary: w) (simp_all add: write_field_refused)

lemma write_fields_fits:
  assumes "pw_valid w" and "length (pw_message w) + length (payload_bytes fs) \<le> message_max_size"
  shows "write_fields fs w = w\<lparr>pw_message := pw_message w @ payload_bytes fs\<rparr>"
  using assms
  by (induction fs arbitrary: w) (simp_all add: payload_bytes_def write_field_fits)

lemma write_fields_valid:
  "pw_valid (write_fields fs w) \<Longrightarrow>
     pw_valid w \<and> length (pw_message w) + length (payload_bytes fs) \<le> message_max_size
       \<or> fs = [] \<and> pw_valid w"
proof (induction fs arbitrary: w)
  case Nil
  then show ?case by simp
next
  case (Cons f fs)
  show ?case
  proof (cases "pw_valid w \<and> length (pw_message w) + length (field_bytes f) \<le> message_max_size")
    case True
    then have "write_field f w = w\<lparr>pw_message := pw_message w @ field_bytes f\<rparr>"
      by (simp add: write_field_fits)
    with Cons.IH [of "write_field f w"] Cons.prems True show ?thesis
      by (auto simp: payload_bytes_def)
  next
    case False
    with Cons.prems show ?thesis by (simp add: write_field_refused write_fields_invalid)
  qed
qed

lemma write_fields_well_sized:
  assumes "well_sized (pw_message w)"
  shows "well_sized (pw_message (write_fields fs w))"
  using assms
proof (induction fs arbitrary: w)
  case Nil
  then show ?case by simp
next
  case (Cons f fs)
  have "well_sized (pw_message (write_field f w))"
    using Cons.prems write_field_fits [of w f] write_field_refused [of w f]
    by (cases "pw_valid w \<and> length (pw_message w) + length (field_bytes f) \<le> message_max_size")
       (auto simp: well_sized_def)
  with Cons.IH show ?case by simp
qed

section \<open>What a read does\<close>

lemmas reader_defs = ReadUInt8P_def ReadUInt16P_def ReadInt16P_def ReadUInt32P_def ReadInt32P_def

lemma read_field_at:
  assumes "pr_valid r" and "pr_message r = xs @ field_bytes f @ ys"
    and "pr_offset r = length xs" and "in_range f"
  shows "read_field (type_of_field f) r = (f, r\<lparr>pr_offset := pr_offset r + length (field_bytes f)\<rparr>)"
proof -
  have "(xs @ v # ys) ! length xs = v" for v by simp
  then show ?thesis using assms
    by (cases f)
       (simp_all add: reader_defs Take_def ReadInt16_def ReadInt32_def ReadUInt16_at ReadUInt32_at
         sint_of_int16 sint_of_int32)
qed

lemma read_fields_at:
  assumes "pr_valid r" and "pr_message r = xs @ payload_bytes fs @ ys"
    and "pr_offset r = length xs" and "\<forall>f \<in> set fs. in_range f"
  shows "read_fields (map type_of_field fs) r = (fs, r\<lparr>pr_offset := pr_offset r + length (payload_bytes fs)\<rparr>)"
  using assms
proof (induction fs arbitrary: r xs)
  case Nil
  then show ?case by (simp add: payload_bytes_def)
next
  case (Cons f fs)
  have pb: "payload_bytes (f # fs) = field_bytes f @ payload_bytes fs"
    by (simp add: payload_bytes_def)
  have "read_field (type_of_field f) r = (f, r\<lparr>pr_offset := pr_offset r + length (field_bytes f)\<rparr>)"
    using Cons.prems by (intro read_field_at [of r xs f "payload_bytes fs @ ys"]) (auto simp: pb)
  moreover have "read_fields (map type_of_field fs) (r\<lparr>pr_offset := pr_offset r + length (field_bytes f)\<rparr>)
    = (fs, r\<lparr>pr_offset := pr_offset r + length (field_bytes f) + length (payload_bytes fs)\<rparr>)"
    using Cons.prems by (subst Cons.IH [of _ "xs @ field_bytes f"]) (auto simp: pb)
  ultimately show ?case by (simp add: pb add.assoc)
qed

definition reader_ok :: "payload_reader \<Rightarrow> bool" where
  "reader_ok r \<longleftrightarrow> pr_offset r \<le> length (pr_message r)"

lemma Take_ok: "reader_ok r \<Longrightarrow> reader_ok (snd (Take n r))"
  by (auto simp: reader_ok_def Take_def)

lemma Take_Some: "fst (Take n r) = Some start \<Longrightarrow> start + n \<le> length (pr_message r)"
  by (auto simp: Take_def split: if_splits)

lemma read_field_short:
  assumes "pr_valid r" and "length (pr_message r) < pr_offset r + length (field_bytes f)"
  shows "\<not> pr_valid (snd (read_field (type_of_field f) r))"
  using assms by (cases f) (auto simp: reader_defs Take_def)

section \<open>The interface of a payload: write, then read\<close>

definition encode_payload :: "field list \<Rightarrow> field_type list \<times> bytes" where
  "encode_payload fs = (map type_of_field fs, pw_message (write_fields fs CanPayloadWriter))"

fun decode_payload :: "field_type list \<times> bytes \<Rightarrow> field list \<times> bool \<times> nat" where
  "decode_payload (types, msg) =
     (case read_fields types (CanPayloadReader msg) of (vs, r) \<Rightarrow> (vs, pr_valid r, AvailableP r))"

definition fits_frame :: "field list \<Rightarrow> bool" where
  "fits_frame fs \<longleftrightarrow> length (payload_bytes fs) \<le> message_max_size \<and> (\<forall>f \<in> set fs. in_range f)"

lemma encode_payload_eq:
  "fits_frame fs \<Longrightarrow> encode_payload fs = (map type_of_field fs, payload_bytes fs)"
  by (simp add: encode_payload_def fits_frame_def write_fields_fits CanPayloadWriter_def)

lemma decode_encode_payload:
  assumes "fits_frame fs"
  shows "decode_payload (encode_payload fs) = (fs, True, 0)"
proof -
  have "read_fields (map type_of_field fs) (CanPayloadReader (payload_bytes fs))
    = (fs, (CanPayloadReader (payload_bytes fs))\<lparr>pr_offset := length (payload_bytes fs)\<rparr>)"
    using assms by (subst read_fields_at [of _ "[]" fs "[]"])
      (auto simp: CanPayloadReader_def fits_frame_def)
  then show ?thesis using assms
    by (simp add: encode_payload_eq AvailableP_def CanPayloadReader_def)
qed

interpretation payload: wire_codec encode_payload decode_payload "\<lambda>fs. (fs, True, 0)" fits_frame
  by unfold_locales (rule decode_encode_payload)

section \<open>Properties\<close>

text \<open>Typed fields that fit a frame are read back exactly as they were written, with both
  cursors valid and nothing left over.\<close>

theorem payload_round_trip:
  assumes "length (payload_bytes fs) \<le> 8" and "\<forall>f \<in> set fs. in_range f"
  shows "decode_payload (encode_payload fs) = (fs, True, 0)"
  using assms by (intro payload.decode_encode) (simp add: fits_frame_def canMaxFramePayloadSize_def)

theorem payload_round_trip_witness:
  "decode_payload (encode_payload [FU8 7, FS16 (- 300), FU32 70000])
     = ([FU8 7, FS16 (- 300), FU32 70000], True, 0)"
  by (rule payload_round_trip) (simp_all add: payload_bytes_def)

lemma write_fields_prefix:
  "\<exists>k. pw_message (write_fields fs w) = pw_message w @ payload_bytes (take k fs)"
proof (induction fs arbitrary: w)
  case Nil
  then show ?case by (simp add: payload_bytes_def)
next
  case (Cons f fs)
  show ?case
  proof (cases "pw_valid w \<and> length (pw_message w) + length (field_bytes f) \<le> message_max_size")
    case True
    from Cons.IH [of "write_field f w"] obtain k where
      "pw_message (write_fields fs (write_field f w)) =
         pw_message (write_field f w) @ payload_bytes (take k fs)" by blast
    with True have "pw_message (write_fields (f # fs) w) =
        pw_message w @ payload_bytes (take (Suc k) (f # fs))"
      by (simp add: write_field_fits payload_bytes_def)
    then show ?thesis by blast
  next
    case False
    then have "pw_message (write_fields (f # fs) w) = pw_message w @ payload_bytes (take 0 (f # fs))"
      by (simp add: write_field_refused write_fields_invalid payload_bytes_def)
    then show ?thesis by blast
  qed
qed

text \<open>A payload writer never exceeds eight bytes and never writes part of a field: its
  message is the encoding of a prefix of the fields, and it is valid exactly when all of them
  fit, the message then holding all of them.\<close>

theorem payload_writer_whole_fields:
  "(let w = write_fields fs CanPayloadWriter in
     length (pw_message w) \<le> 8 \<and>
     (\<exists>k. pw_message w = payload_bytes (take k fs)) \<and>
     pw_valid w = (length (payload_bytes fs) \<le> 8) \<and>
     (if pw_valid w then pw_message w = payload_bytes fs else True))"
proof -
  let ?w = "write_fields fs CanPayloadWriter"
  have "length (pw_message ?w) \<le> 8"
    using write_fields_well_sized [of CanPayloadWriter fs]
    by (simp add: well_sized_def CanPayloadWriter_def canMaxFramePayloadSize_def)
  moreover have "\<exists>k. pw_message ?w = payload_bytes (take k fs)"
    using write_fields_prefix [of fs CanPayloadWriter] by (simp add: CanPayloadWriter_def)
  moreover have "pw_valid ?w \<longleftrightarrow> length (payload_bytes fs) \<le> 8"
    using write_fields_valid [of fs CanPayloadWriter] write_fields_fits [of CanPayloadWriter fs]
    by (auto simp: CanPayloadWriter_def payload_bytes_def canMaxFramePayloadSize_def)
  moreover have "length (payload_bytes fs) \<le> 8 \<Longrightarrow> pw_message ?w = payload_bytes fs"
    using write_fields_fits [of CanPayloadWriter fs]
    by (simp add: CanPayloadWriter_def canMaxFramePayloadSize_def)
  ultimately show ?thesis by (simp add: Let_def)
qed

fun type_width :: "field_type \<Rightarrow> nat" where
  "type_width TU8 = 1" | "type_width TU16 = 2" | "type_width TS16 = 2"
| "type_width TU32 = 4" | "type_width TS32 = 4"

lemma read_field_Take:
  "snd (read_field ty r) = snd (Take (type_width ty) r)"
  by (cases ty) (auto simp: reader_defs split: option.splits prod.splits)

lemma read_fields_state:
  "snd (read_fields types r) = fold (\<lambda>ty. \<lambda>r. snd (Take (type_width ty) r)) types r"
  by (induction types arbitrary: r) (simp_all add: read_field_Take [symmetric] case_prod_beta)

lemma take_all_valid:
  "reader_ok r \<Longrightarrow> pr_valid (fold (\<lambda>ty. \<lambda>r. snd (Take (type_width ty) r)) types r) \<longleftrightarrow>
     pr_valid r \<and> pr_offset r + sum_list (map type_width types) \<le> length (pr_message r)"
proof (induction types arbitrary: r)
  case Nil
  then show ?case by (simp add: reader_ok_def)
next
  case (Cons ty types)
  then show ?case using Take_ok [of r "type_width ty"] by (auto simp: Take_def)
qed

text \<open>A payload reader never reads past its message, and it is valid after reading a list
  of typed fields exactly when the message is long enough for all of them; once a read falls
  short it stays invalid and reports nothing available.\<close>

theorem payload_reader_valid_iff_long_enough:
  "(case read_fields types (CanPayloadReader msg) of (vs, r) \<Rightarrow>
     pr_valid r = (sum_list (map type_width types) \<le> length msg) \<and>
     pr_offset r \<le> length msg \<and>
     AvailableP r = (if pr_valid r then length msg - sum_list (map type_width types) else 0))"
proof -
  let ?step = "\<lambda>ty. \<lambda>r. snd (Take (type_width ty) r)"
  have ok: "reader_ok (CanPayloadReader msg)"
    by (simp add: reader_ok_def CanPayloadReader_def)
  have keep: "reader_ok (fold ?step types r)" if "reader_ok r" for r
    using that by (induction types arbitrary: r) (auto intro: Take_ok)
  have msg: "pr_message (fold ?step types r) = pr_message r" for r
    by (induction types arbitrary: r) (auto simp: Take_def)
  have off: "pr_valid (fold ?step types r) \<Longrightarrow>
      pr_offset (fold ?step types r) = pr_offset r + sum_list (map type_width types)
      \<and> pr_valid r" for r
  proof (induction types arbitrary: r)
    case Nil
    then show ?case by simp
  next
    case (Cons ty types)
    from Cons.IH [of "?step ty r"] Cons.prems show ?case
      by (auto simp: Take_def split: if_splits)
  qed
  show ?thesis
    using take_all_valid [OF ok, of types] keep [OF ok] msg [of "CanPayloadReader msg"]
      off [of "CanPayloadReader msg"] read_fields_state [of types "CanPayloadReader msg"]
    by (auto simp: reader_ok_def AvailableP_def CanPayloadReader_def split: prod.splits)
qed

end
