(* ===== verification/IsoTpCodec.thy ===== *)
theory IsoTpCodec
  imports CanPrelude
begin

text \<open>
  The ISO 15765-2 frames of \<^verbatim>\<open>can-lite/transport/iso-tp\<close>: the types and limits of
  \<^verbatim>\<open>IsoTpTypes.hpp\<close> and the stateless codec \<^verbatim>\<open>IsoTpFrameCodec.cpp\<close>.  An encoder of the code
  fills an output message that it clears first; here it returns the message, and \<open>None\<close> where
  the code returns \<^verbatim>\<open>false\<close>.
\<close>

section \<open>Types and limits\<close>

datatype FrameType = singleFrame | firstFrame | consecutiveFrame | flowControl | unknownFrame

datatype FlowStatus = continueToSend | wait | fsOverflow

fun FlowStatus_code :: "FlowStatus \<Rightarrow> u8" where
  "FlowStatus_code continueToSend = 0"
| "FlowStatus_code wait = 1"
| "FlowStatus_code fsOverflow = 2"

datatype SenderState = senderIdle | sendingSf | waitingForFc | sendingCf

datatype ReceiverState = receiverIdle | receivingCf

datatype AbortReason =
  nBsTimeoutReason | nCrTimeoutReason | overflowReason | unexpectedFrame
  | waitLimitExceeded | sendFailed | nAsTimeoutReason

definition nAsTimeout :: time where "nAsTimeout = milliseconds 1000"
definition nBsTimeout :: time where "nBsTimeout = milliseconds 1000"
definition nCrTimeout :: time where "nCrTimeout = milliseconds 1000"
definition nWftMax :: u8 where "nWftMax = 16"
definition sfMaxPayloadBytes :: nat where "sfMaxPayloadBytes = 7"
definition ffFirstDataOffset :: nat where "ffFirstDataOffset = 2"
definition ffFirstDataBytes :: nat where "ffFirstDataBytes = 6"
definition ffMaxPduLength :: nat where "ffMaxPduLength = 4095"
definition cfMaxDataBytes :: nat where "cfMaxDataBytes = 7"
definition snMask :: u8 where "snMask = 0x0F"

lemmas iso_constants = nAsTimeout_def nBsTimeout_def nCrTimeout_def nWftMax_def
  sfMaxPayloadBytes_def ffFirstDataOffset_def ffFirstDataBytes_def ffMaxPduLength_def
  cfMaxDataBytes_def snMask_def

section \<open>The codec\<close>

definition DecodeFrameType :: "bytes \<Rightarrow> FrameType" where
  "DecodeFrameType frame =
     (if frame = [] then unknownFrame
      else let nibble = drop_bit 4 (hd frame) AND 0x0F in
        if nibble = 0 then singleFrame
        else if nibble = 1 then firstFrame
        else if nibble = 2 then consecutiveFrame
        else if nibble = 3 then flowControl
        else unknownFrame)"

definition EncodeSingleFrame :: "bytes \<Rightarrow> bytes option" where
  "EncodeSingleFrame pdu =
     (if length pdu = 0 \<or> length pdu > sfMaxPayloadBytes then None
      else Some ((0x00 OR (of_nat (length pdu) AND 0x0F)) # pdu))"

definition DecodeSingleFrameLength :: "bytes \<Rightarrow> u8" where
  "DecodeSingleFrameLength frame = (if frame = [] then 0 else hd frame AND 0x0F)"

definition EncodeFirstFrame :: "bytes \<Rightarrow> bytes option" where
  "EncodeFirstFrame pdu =
     (if length pdu \<le> sfMaxPayloadBytes \<or> length pdu > ffMaxPduLength then None
      else let len = of_nat (length pdu) :: u16 in
        Some ((0x10 OR ucast (drop_bit 8 len AND 0x0F)) # ucast (len AND 0xFF)
          # take ffFirstDataBytes pdu))"

definition DecodeFirstFrameTotalLength :: "bytes \<Rightarrow> u16" where
  "DecodeFirstFrameTotalLength frame =
     (if length frame < 2 then 0
      else push_bit 8 (ucast (frame ! 0 AND 0x0F)) OR ucast (frame ! 1))"

text \<open>The loop of the encoder: copy at most \<open>room\<close> bytes and count them.\<close>

fun copy_bytes :: "nat \<Rightarrow> bytes \<Rightarrow> u8 \<times> bytes" where
  "copy_bytes 0 remaining = (0, [])"
| "copy_bytes (Suc room) [] = (0, [])"
| "copy_bytes (Suc room) (b # remaining) =
     (case copy_bytes room remaining of (written, out) \<Rightarrow> (written + 1, b # out))"

definition EncodeConsecutiveFrame :: "u8 \<Rightarrow> bytes \<Rightarrow> u8 \<times> bytes" where
  "EncodeConsecutiveFrame sn remaining =
     (case copy_bytes cfMaxDataBytes remaining of
        (written, out) \<Rightarrow> (written, (0x20 OR (sn AND snMask)) # out))"

definition DecodeConsecutiveFrameSn :: "bytes \<Rightarrow> u8" where
  "DecodeConsecutiveFrameSn frame = (if frame = [] then 0 else hd frame AND snMask)"

definition EncodeFlowControl :: "FlowStatus \<Rightarrow> u8 \<Rightarrow> u8 \<Rightarrow> bytes" where
  "EncodeFlowControl fs blockSize stMin =
     [0x30 OR (FlowStatus_code fs AND 0x0F), blockSize, stMin]"

definition DecodeFlowControl :: "bytes \<Rightarrow> (FlowStatus \<times> u8 \<times> u8) option" where
  "DecodeFlowControl frame =
     (if length frame < 3 then None
      else let nibble = frame ! 0 AND 0x0F in
        if nibble = 0 then Some (continueToSend, frame ! 1, frame ! 2)
        else if nibble = 1 then Some (wait, frame ! 1, frame ! 2)
        else if nibble = 2 then Some (fsOverflow, frame ! 1, frame ! 2)
        else None)"

definition StMinToDuration :: "u8 \<Rightarrow> time" where
  "StMinToDuration stMin =
     (if stMin \<le> 0x7F then milliseconds (unat stMin)
      else if stMin \<ge> 0xF1 \<and> stMin \<le> 0xF9 then microseconds ((unat stMin - 0xF0) * 100)
      else milliseconds 0x7F)"

section \<open>Nibbles\<close>

lemma copy_bytes_eq:
  "copy_bytes room remaining = (of_nat (min room (length remaining)), take room remaining)"
  by (induction room remaining rule: copy_bytes.induct) (auto simp: add.commute)

lemma high_nibble:
  fixes x :: u8
  shows "drop_bit 4 (0x10 OR (x AND 0x0F)) AND 0x0F = 1"
    and "drop_bit 4 (0x20 OR (x AND 0x0F)) AND 0x0F = 2"
    and "drop_bit 4 (0x30 OR (x AND 0x0F)) AND 0x0F = 3"
    and "drop_bit 4 (0x00 OR (x AND 0x0F)) AND 0x0F = 0"
  unfolding wire
  by (rule bit_word_eqI; auto simp: bit_simps bit_numeral_rec bit_1_iff dest: bit_bounds)+

lemma low_nibble:
  fixes x :: u8
  shows "(0x10 OR (x AND 0x0F)) AND 0x0F = x AND 0x0F"
    and "(0x20 OR (x AND 0x0F)) AND 0x0F = x AND 0x0F"
    and "(0x30 OR (x AND 0x0F)) AND 0x0F = x AND 0x0F"
    and "(0x00 OR (x AND 0x0F)) AND 0x0F = x AND 0x0F"
  unfolding wire
  by (rule bit_word_eqI; auto simp: bit_simps bit_numeral_rec bit_1_iff dest: bit_bounds)+

lemma ucast_nibble: "(ucast ((x :: u16) AND 0x0F) :: u8) = ucast x AND 0x0F"
  unfolding wire by (rule bit_word_eqI) (auto simp: bit_simps)

lemma join_length:
  "push_bit 8 (ucast ((ucast (drop_bit 8 len) :: u8) AND 0x0F)) OR ucast (ucast (len AND 0xFF) :: u8)
     = take_bit 12 (len :: u16)"
  unfolding wire
  by (rule bit_word_eqI) (auto simp: bit_simps dest: bit_bounds)

lemma nibble_of_small: "unat (x :: u8) < 16 \<Longrightarrow> x AND 0x0F = x"
  unfolding wire by (rule take_bit_small) simp

lemma unat_of_nat_small:
  "n < 256 \<Longrightarrow> unat (of_nat n :: u8) = n" "n < 65536 \<Longrightarrow> unat (of_nat n :: u16) = n"
  by (simp_all add: unsigned_of_nat take_bit_nat_eq_self)

section \<open>Decoding what was encoded\<close>

lemma EncodeSingleFrame_Some:
  assumes "0 < length pdu" and "length pdu \<le> 7"
  shows "EncodeSingleFrame pdu = Some (of_nat (length pdu) # pdu)"
proof -
  have "(of_nat (length pdu) :: u8) AND 0x0F = of_nat (length pdu)"
    using assms by (intro nibble_of_small) (simp add: unat_of_nat_small)
  then show ?thesis using assms by (simp add: EncodeSingleFrame_def sfMaxPayloadBytes_def)
qed

lemma single_frame_decodes:
  assumes "EncodeSingleFrame pdu = Some frame"
  shows "DecodeFrameType frame = singleFrame"
    and "unat (DecodeSingleFrameLength frame) = length pdu"
    and "tl frame = pdu" and "length frame = Suc (length pdu)" and "length pdu \<le> 7"
    and "length pdu > 0"
proof -
  have len: "0 < length pdu" "length pdu \<le> 7"
    using assms by (auto simp: EncodeSingleFrame_def sfMaxPayloadBytes_def split: if_splits)
  have frame: "frame = (0x00 OR (of_nat (length pdu) AND 0x0F)) # pdu"
    using assms by (auto simp: EncodeSingleFrame_def split: if_splits)
  show "DecodeFrameType frame = singleFrame"
    by (simp only: frame DecodeFrameType_def list.sel high_nibble Let_def) simp
  have "(of_nat (length pdu) :: u8) AND 0x0F = of_nat (length pdu)"
    using len by (intro nibble_of_small) (simp add: unat_of_nat_small)
  then show "unat (DecodeSingleFrameLength frame) = length pdu"
    using len by (simp add: frame DecodeSingleFrameLength_def unat_of_nat_small)
  show "tl frame = pdu" "length frame = Suc (length pdu)" "length pdu \<le> 7" "length pdu > 0"
    using len by (simp_all add: frame)
qed

lemma first_frame_decodes:
  assumes "EncodeFirstFrame pdu = Some frame"
  shows "DecodeFrameType frame = firstFrame"
    and "unat (DecodeFirstFrameTotalLength frame) = length pdu"
    and "drop 2 frame = take 6 pdu" and "length frame = 8"
    and "7 < length pdu" and "length pdu \<le> 4095"
proof -
  let ?len = "of_nat (length pdu) :: u16"
  have len: "7 < length pdu" "length pdu \<le> 4095"
    using assms
    by (auto simp: EncodeFirstFrame_def sfMaxPayloadBytes_def ffMaxPduLength_def split: if_splits)
  have frame: "frame = (0x10 OR (ucast (drop_bit 8 ?len) AND 0x0F)) # ucast (?len AND 0xFF)
      # take 6 pdu"
    using assms by (auto simp: EncodeFirstFrame_def ffFirstDataBytes_def Let_def ucast_nibble
        split: if_splits)
  show "DecodeFrameType frame = firstFrame"
    by (simp only: frame DecodeFrameType_def list.sel high_nibble Let_def) simp
  have "DecodeFirstFrameTotalLength frame =
      push_bit 8 (ucast ((0x10 OR ((ucast (drop_bit 8 ?len) :: u8) AND 0x0F)) AND 0x0F))
      OR ucast (ucast (?len AND 0xFF) :: u8)"
    by (simp only: frame DecodeFirstFrameTotalLength_def) simp
  also have "\<dots> = take_bit 12 ?len"
    by (simp only: low_nibble and.assoc) (simp only: join_length and.idem)
  also have "\<dots> = ?len"
    using len by (intro take_bit_small) (simp add: unat_of_nat_small)
  finally show "unat (DecodeFirstFrameTotalLength frame) = length pdu"
    using len by (simp add: unat_of_nat_small)
  show "drop 2 frame = take 6 pdu" "length frame = 8" "7 < length pdu" "length pdu \<le> 4095"
    using len by (simp_all add: frame)
qed

lemma consecutive_frame_decodes:
  assumes "EncodeConsecutiveFrame sn remaining = (written, frame)"
  shows "DecodeFrameType frame = consecutiveFrame"
    and "DecodeConsecutiveFrameSn frame = sn AND 0x0F"
    and "tl frame = take 7 remaining" and "unat written = min 7 (length remaining)"
    and "length frame = Suc (min 7 (length remaining))"
proof -
  have frame: "frame = (0x20 OR (sn AND 0x0F)) # take 7 remaining"
    and written: "written = of_nat (min 7 (length remaining))"
    using assms
    by (simp_all add: EncodeConsecutiveFrame_def copy_bytes_eq cfMaxDataBytes_def snMask_def)
  show "DecodeFrameType frame = consecutiveFrame"
    by (simp only: frame DecodeFrameType_def list.sel high_nibble Let_def) simp
  show "DecodeConsecutiveFrameSn frame = sn AND 0x0F"
    by (simp only: frame DecodeConsecutiveFrameSn_def list.sel low_nibble snMask_def) simp
  show "tl frame = take 7 remaining" "length frame = Suc (min 7 (length remaining))"
    by (simp_all add: frame min.commute)
  show "unat written = min 7 (length remaining)"
    by (simp add: written unat_of_nat_small min_def)
qed

lemma flow_control_decodes:
  "DecodeFrameType (EncodeFlowControl fs bs st) = flowControl"
  "DecodeFlowControl (EncodeFlowControl fs bs st) = Some (fs, bs, st)"
proof -
  show "DecodeFrameType (EncodeFlowControl fs bs st) = flowControl"
    by (simp only: EncodeFlowControl_def DecodeFrameType_def list.sel high_nibble Let_def) simp
  show "DecodeFlowControl (EncodeFlowControl fs bs st) = Some (fs, bs, st)"
    by (cases fs) (simp_all add: DecodeFlowControl_def EncodeFlowControl_def Let_def)
qed

interpretation flow_control_codec: wire_codec
  "\<lambda>(fs, bs, st). EncodeFlowControl fs bs st" DecodeFlowControl Some "\<lambda>_. True"
  by unfold_locales (auto simp: flow_control_decodes)

section \<open>Properties\<close>

text \<open>C18: Every ISO-TP frame that the codec encodes fits in eight bytes, is recognised as its own
  type, and gives its contents back: a single frame its length and data, a first frame the total
  length and the first six bytes, a consecutive frame its sequence number modulo sixteen and up
  to seven bytes, a flow control its status, block size and separation time.\<close>

theorem iso_tp_frames_round_trip:
  "(case EncodeSingleFrame pdu of None \<Rightarrow> pdu = [] \<or> 7 < length pdu
    | Some f \<Rightarrow> length f \<le> 8 \<and> DecodeFrameType f = singleFrame \<and>
        unat (DecodeSingleFrameLength f) = length pdu \<and> tl f = pdu) \<and>
   (case EncodeFirstFrame pdu of None \<Rightarrow> length pdu \<le> 7 \<or> 4095 < length pdu
    | Some f \<Rightarrow> length f = 8 \<and> DecodeFrameType f = firstFrame \<and>
        unat (DecodeFirstFrameTotalLength f) = length pdu \<and> drop 2 f = take 6 pdu) \<and>
   (case EncodeConsecutiveFrame sn pdu of (written, f) \<Rightarrow>
        length f \<le> 8 \<and> DecodeFrameType f = consecutiveFrame \<and>
        DecodeConsecutiveFrameSn f = sn AND 0x0F \<and> unat written = min 7 (length pdu) \<and>
        tl f = take 7 pdu) \<and>
   DecodeFlowControl (EncodeFlowControl fs bs st) = Some (fs, bs, st) \<and>
   DecodeFrameType (EncodeFlowControl fs bs st) = flowControl"
proof (intro conjI)
  show "case EncodeSingleFrame pdu of None \<Rightarrow> pdu = [] \<or> 7 < length pdu
    | Some f \<Rightarrow> length f \<le> 8 \<and> DecodeFrameType f = singleFrame \<and>
        unat (DecodeSingleFrameLength f) = length pdu \<and> tl f = pdu"
  proof (cases "EncodeSingleFrame pdu")
    case None
    then show ?thesis
      by (auto simp: EncodeSingleFrame_def sfMaxPayloadBytes_def split: if_splits)
  next
    case (Some f)
    then show ?thesis using single_frame_decodes [OF Some] by simp
  qed
  show "case EncodeFirstFrame pdu of None \<Rightarrow> length pdu \<le> 7 \<or> 4095 < length pdu
    | Some f \<Rightarrow> length f = 8 \<and> DecodeFrameType f = firstFrame \<and>
        unat (DecodeFirstFrameTotalLength f) = length pdu \<and> drop 2 f = take 6 pdu"
  proof (cases "EncodeFirstFrame pdu")
    case None
    then show ?thesis
      by (auto simp: EncodeFirstFrame_def sfMaxPayloadBytes_def ffMaxPduLength_def Let_def
          split: if_splits)
  next
    case (Some f)
    then show ?thesis using first_frame_decodes [OF Some] by simp
  qed
  show "case EncodeConsecutiveFrame sn pdu of (written, f) \<Rightarrow>
        length f \<le> 8 \<and> DecodeFrameType f = consecutiveFrame \<and>
        DecodeConsecutiveFrameSn f = sn AND 0x0F \<and> unat written = min 7 (length pdu) \<and>
        tl f = take 7 pdu"
    using consecutive_frame_decodes [of sn pdu] by (auto split: prod.splits)
qed (rule flow_control_decodes)+

text \<open>The separation time of a flow control byte is at most 127 milliseconds; the bytes 0 to
  0x7F are milliseconds, 0xF1 to 0xF9 are hundreds of microseconds, and a reserved value counts as
  the longest time.\<close>

theorem separation_time_bounds:
  "StMinToDuration b \<le> milliseconds 127 \<and>
   (StMinToDuration b = 0) = (b = 0) \<and>
   StMinToDuration b =
     (if b \<le> 0x7F then 1000 * unat b
      else if 0xF1 \<le> b \<and> b \<le> 0xF9 then 100 * (unat b - 240) else 127000)"
  by (auto simp: StMinToDuration_def milliseconds_def microseconds_def word_le_nat_alt
      unat_eq_zero word_less_nat_alt)

end
