(* ===== verification/IsoTpReceiver.thy ===== *)
theory IsoTpReceiver
  imports IsoTpCodec
begin

text \<open>
  The receiving half of an ISO-TP channel, \<^verbatim>\<open>IsoTpReceiver.cpp\<close>.

  The functions that the owner configures (send a flow control, deliver a PDU, report an abort)
  are effects, in the order of the calls.  The completion callback of a flow control is the value
  \<open>FcSent\<close> with what its lambda captures; \<open>FcSendDone\<close> is the lambda's body.  The
  assembly buffer is a list with a capacity.
\<close>

section \<open>State\<close>

record receiver =
  rcv_state :: ReceiverState
  rcv_expectedTotalLength :: u16
  rcv_expectedSn :: u8
  rcv_reception :: u8
  rcv_blockSize :: u8
  rcv_separationTime :: u8
  rcv_framesInBlock :: u8
  rcv_buffer :: bytes
  rcv_maxSize :: nat
  rcv_nCrTimer :: timer

datatype receiver_callback = FcSent FlowStatus u8

datatype receiver_effect =
    ReceiverTransmit bytes receiver_callback
  | PduReady bytes
  | ReceiverAborted AbortReason

definition IsoTpReceiver :: "nat \<Rightarrow> receiver" where
  "IsoTpReceiver maxSize =
     \<lparr>rcv_state = receiverIdle, rcv_expectedTotalLength = 0, rcv_expectedSn = 1,
      rcv_reception = 0, rcv_blockSize = 0, rcv_separationTime = 0, rcv_framesInBlock = 0,
      rcv_buffer = [], rcv_maxSize = maxSize, rcv_nCrTimer = None\<rparr>"

definition SetFlowControlParameters :: "u8 \<Rightarrow> u8 \<Rightarrow> receiver \<Rightarrow> receiver" where
  "SetFlowControlParameters newBlockSize newSeparationTime r =
     r\<lparr>rcv_blockSize := newBlockSize, rcv_separationTime := newSeparationTime\<rparr>"

definition IsIdleR :: "receiver \<Rightarrow> bool" where
  "IsIdleR r \<longleftrightarrow> rcv_state r = receiverIdle"

section \<open>Operations\<close>

definition ClearR :: "receiver \<Rightarrow> receiver" where
  "ClearR r = r\<lparr>rcv_nCrTimer := None, rcv_buffer := [], rcv_state := receiverIdle,
     rcv_reception := rcv_reception r + 1\<rparr>"

definition ResetR :: "receiver \<Rightarrow> receiver" where
  "ResetR r = ClearR r"

definition AbortR :: "AbortReason \<Rightarrow> receiver \<Rightarrow> receiver \<times> receiver_effect list" where
  "AbortR reason r = (ClearR r, [ReceiverAborted reason])"

definition SendFlowControl :: "FlowStatus \<Rightarrow> receiver \<Rightarrow> receiver_effect list" where
  "SendFlowControl status r =
     [ReceiverTransmit (EncodeFlowControl status (rcv_blockSize r) (rcv_separationTime r))
        (FcSent status (rcv_reception r))]"

text \<open>The lambda that runs when a flow control was sent or failed.\<close>

fun FcSendDone :: "receiver_callback \<Rightarrow> bool \<Rightarrow> receiver \<Rightarrow> receiver \<times> receiver_effect list" where
  "FcSendDone (FcSent status current) success r =
     (if \<not> success \<and> status = continueToSend \<and> current = rcv_reception r \<and>
         rcv_state r = receivingCf
      then AbortR sendFailed r else (r, []))"

definition EndSupersededReception :: "receiver \<Rightarrow> receiver \<times> receiver_effect list" where
  "EndSupersededReception r =
     (if rcv_state r \<noteq> receiverIdle then AbortR unexpectedFrame r else (r, []))"

definition HandleSingleFrame :: "bytes \<Rightarrow> receiver \<Rightarrow> receiver \<times> receiver_effect list" where
  "HandleSingleFrame frame r =
     (let len = DecodeSingleFrameLength frame in
      if len = 0 \<or> len > of_nat sfMaxPayloadBytes \<or> len > of_nat (length frame - 1)
      then (r, [])
      else (case EndSupersededReception r of
        (r1, superseded) \<Rightarrow>
          if unat len > rcv_maxSize r1
          then (case AbortR overflowReason r1 of (r2, aborted) \<Rightarrow> (r2, superseded @ aborted))
          else (r1\<lparr>rcv_buffer := []\<rparr>, superseded @ [PduReady (take (unat len) (drop 1 frame))])))"

definition HandleFirstFrame :: "time \<Rightarrow> bytes \<Rightarrow> receiver \<Rightarrow> receiver \<times> receiver_effect list" where
  "HandleFirstFrame now frame r =
     (if length frame < 8 then (r, [])
      else let len = DecodeFirstFrameTotalLength frame in
      if unat len \<le> sfMaxPayloadBytes then (r, [])
      else (case EndSupersededReception r of
        (r1, superseded) \<Rightarrow>
          if unat len > rcv_maxSize r1
          then (case AbortR overflowReason r1 of
            (r2, aborted) \<Rightarrow> (r2, superseded @ SendFlowControl fsOverflow r1 @ aborted))
          else (let r2 = r1\<lparr>rcv_expectedTotalLength := len, rcv_expectedSn := 1,
                  rcv_framesInBlock := 0, rcv_reception := rcv_reception r1 + 1,
                  rcv_buffer := drop ffFirstDataOffset frame, rcv_state := receivingCf,
                  rcv_nCrTimer := Some (now + nCrTimeout)\<rparr>
                in (r2, superseded @ SendFlowControl continueToSend r2))))"

definition HasConsecutiveFrameLength :: "bytes \<Rightarrow> receiver \<Rightarrow> bool" where
  "HasConsecutiveFrameLength frame r \<longleftrightarrow>
     (let remaining = unat (rcv_expectedTotalLength r) - length (rcv_buffer r)
      in length frame \<ge> 1 + min remaining cfMaxDataBytes)"

definition ContinueBlock :: "receiver \<Rightarrow> receiver \<times> receiver_effect list" where
  "ContinueBlock r =
     (if rcv_blockSize r = 0 then (r, [])
      else let r1 = r\<lparr>rcv_framesInBlock := rcv_framesInBlock r + 1\<rparr> in
      if rcv_framesInBlock r1 \<noteq> rcv_blockSize r1 then (r1, [])
      else let r2 = r1\<lparr>rcv_framesInBlock := 0\<rparr> in (r2, SendFlowControl continueToSend r2))"

text \<open>The loop that appends a consecutive frame's data up to the expected length.\<close>

fun append_up_to :: "nat \<Rightarrow> bytes \<Rightarrow> bytes \<Rightarrow> bytes" where
  "append_up_to expected buffer [] = buffer"
| "append_up_to expected buffer (b # bs) =
     (if length buffer \<ge> expected then buffer else append_up_to expected (buffer @ [b]) bs)"

definition HandleConsecutiveFrame ::
    "time \<Rightarrow> bytes \<Rightarrow> receiver \<Rightarrow> receiver \<times> receiver_effect list" where
  "HandleConsecutiveFrame now frame r =
     (if rcv_state r \<noteq> receivingCf \<or> \<not> HasConsecutiveFrameLength frame r then (r, [])
      else if DecodeConsecutiveFrameSn frame \<noteq> rcv_expectedSn r then AbortR unexpectedFrame r
      else let expected = unat (rcv_expectedTotalLength r);
        r1 = r\<lparr>rcv_expectedSn := (rcv_expectedSn r + 1) AND 0x0F,
          rcv_nCrTimer := Some (now + nCrTimeout),
          rcv_buffer := append_up_to expected (rcv_buffer r) (tl frame)\<rparr>
      in if length (rcv_buffer r1) \<ge> expected
         then (r1\<lparr>rcv_nCrTimer := None, rcv_state := receiverIdle, rcv_buffer := []\<rparr>,
               [PduReady (rcv_buffer r1)])
         else ContinueBlock r1)"

definition ProcessFrameR :: "time \<Rightarrow> bytes \<Rightarrow> receiver \<Rightarrow> receiver \<times> receiver_effect list" where
  "ProcessFrameR now frame r =
     (case DecodeFrameType frame of
        singleFrame \<Rightarrow> HandleSingleFrame frame r
      | firstFrame \<Rightarrow> HandleFirstFrame now frame r
      | consecutiveFrame \<Rightarrow> HandleConsecutiveFrame now frame r
      | flowControl \<Rightarrow> (r, [])
      | unknownFrame \<Rightarrow> (r, []))"

definition NCrTimeout :: "receiver \<Rightarrow> receiver \<times> receiver_effect list" where
  "NCrTimeout r = AbortR nCrTimeoutReason (r\<lparr>rcv_nCrTimer := None\<rparr>)"

section \<open>The receiver as a machine\<close>

datatype receiver_event =
  RcvFrame time bytes | RcvFcDone receiver_callback bool | RcvTimeout | RcvReset

definition rcv_step :: "receiver_event \<Rightarrow> receiver \<Rightarrow> receiver \<times> receiver_effect list" where
  "rcv_step e r =
     (case e of
        RcvFrame now frame \<Rightarrow> ProcessFrameR now frame r
      | RcvFcDone cb success \<Rightarrow> FcSendDone cb success r
      | RcvTimeout \<Rightarrow> NCrTimeout r
      | RcvReset \<Rightarrow> (ResetR r, []))"

definition rcv_enabled :: "receiver_event \<Rightarrow> receiver \<Rightarrow> bool" where
  "rcv_enabled e r =
     (case e of
        RcvFrame now frame \<Rightarrow> length frame \<le> 8
      | RcvTimeout \<Rightarrow> rcv_nCrTimer r \<noteq> None
      | _ \<Rightarrow> True)"

text \<open>Idle means an empty buffer and no timer; receiving means a timer, and a buffer that is
  shorter than the expected length, which fits the capacity.\<close>

definition rcv_inv :: "receiver \<Rightarrow> bool" where
  "rcv_inv r \<longleftrightarrow>
     (case rcv_state r of
        receiverIdle \<Rightarrow> rcv_buffer r = [] \<and> rcv_nCrTimer r = None
      | receivingCf \<Rightarrow> rcv_nCrTimer r \<noteq> None \<and> 6 \<le> length (rcv_buffer r) \<and>
          length (rcv_buffer r) < unat (rcv_expectedTotalLength r) \<and>
          unat (rcv_expectedTotalLength r) \<le> rcv_maxSize r \<and>
          unat (rcv_expectedTotalLength r) \<le> 4095 \<and> unat (rcv_expectedSn r) < 16)"

lemma append_up_to_eq: "append_up_to n buffer bs = buffer @ take (n - length buffer) bs"
  by (induction n buffer bs rule: append_up_to.induct)
    (auto simp: Suc_diff_Suc not_le take_Cons' diff_diff_left)

lemma nibble_less: "unat ((x :: u8) AND 0x0F) < 16"
  unfolding wire using unat_take_bit_less [of 4 x] by simp

lemma AbortR_inv: "rcv_inv (fst (AbortR reason r))"
  by (simp add: AbortR_def ClearR_def rcv_inv_def)

lemma EndSupersededReception_idle:
  "rcv_inv r \<Longrightarrow> EndSupersededReception r = (r1, e) \<Longrightarrow>
     rcv_inv r1 \<and> rcv_state r1 = receiverIdle \<and> rcv_maxSize r1 = rcv_maxSize r \<and>
     rcv_blockSize r1 = rcv_blockSize r \<and> rcv_separationTime r1 = rcv_separationTime r"
  by (auto simp: EndSupersededReception_def AbortR_def ClearR_def rcv_inv_def split: if_splits)

lemma HandleSingleFrame_inv:
  assumes "rcv_inv r"
  shows "rcv_inv (fst (HandleSingleFrame frame r))"
proof -
  obtain r1 e where r1: "EndSupersededReception r = (r1, e)"
    by (cases "EndSupersededReception r") auto
  note idle = EndSupersededReception_idle [OF assms r1]
  then have "rcv_inv (r1\<lparr>rcv_buffer := []\<rparr>)" by (auto simp: rcv_inv_def)
  then show ?thesis
    using assms r1 AbortR_inv [of overflowReason r1]
    by (cases "AbortR overflowReason r1") (auto simp: HandleSingleFrame_def Let_def)
qed

lemma DecodeFirstFrameTotalLength_bound: "unat (DecodeFirstFrameTotalLength frame) \<le> 4095"
proof -
  have "push_bit 8 (ucast ((a :: u8) AND 0x0F)) OR ucast (b :: u8) =
      take_bit 12 (push_bit 8 (ucast a) OR ucast b :: u16)" for a b
    unfolding wire by (rule bit_word_eqI) (auto simp: bit_simps dest: bit_bounds)
  then have "DecodeFirstFrameTotalLength frame = 0 \<or>
      (\<exists>x. DecodeFirstFrameTotalLength frame = take_bit 12 x)"
    unfolding DecodeFirstFrameTotalLength_def by (simp only:) metis
  then show ?thesis
  proof
    assume "\<exists>x. DecodeFirstFrameTotalLength frame = take_bit 12 x"
    then obtain x where "DecodeFirstFrameTotalLength frame = take_bit 12 x" by blast
    with unat_take_bit_less [of 12 x] show ?thesis by simp
  qed simp
qed

lemma HandleFirstFrame_inv:
  assumes "rcv_inv r" and "length frame \<le> 8"
  shows "rcv_inv (fst (HandleFirstFrame now frame r))"
proof (cases "length frame < 8 \<or> unat (DecodeFirstFrameTotalLength frame) \<le> sfMaxPayloadBytes")
  case True
  with assms show ?thesis by (auto simp: HandleFirstFrame_def Let_def)
next
  case False
  obtain r1 e where r1: "EndSupersededReception r = (r1, e)"
    by (cases "EndSupersededReception r") auto
  note idle = EndSupersededReception_idle [OF assms(1) r1]
  show ?thesis
  proof (cases "unat (DecodeFirstFrameTotalLength frame) > rcv_maxSize r1")
    case True
    with False r1 AbortR_inv [of overflowReason r1] show ?thesis
      by (cases "AbortR overflowReason r1") (auto simp: HandleFirstFrame_def Let_def)
  next
    case fits: False
    with False r1 assms(2) DecodeFirstFrameTotalLength_bound [of frame] show ?thesis
      by (simp add: HandleFirstFrame_def Let_def rcv_inv_def sfMaxPayloadBytes_def
          ffFirstDataOffset_def)
  qed
qed

lemma ContinueBlock_inv: "rcv_inv r \<Longrightarrow> rcv_inv (fst (ContinueBlock r))"
  by (simp add: ContinueBlock_def Let_def rcv_inv_def split: ReceiverState.splits)

lemma HandleConsecutiveFrame_inv:
  assumes "rcv_inv r"
  shows "rcv_inv (fst (HandleConsecutiveFrame now frame r))"
proof -
  let ?r1 = "r\<lparr>rcv_expectedSn := (rcv_expectedSn r + 1) AND 0x0F,
    rcv_nCrTimer := Some (now + nCrTimeout),
    rcv_buffer := append_up_to (unat (rcv_expectedTotalLength r)) (rcv_buffer r) (tl frame)\<rparr>"
  have "rcv_inv (fst (ContinueBlock ?r1))"
    if "rcv_state r = receivingCf" "length (rcv_buffer ?r1) < unat (rcv_expectedTotalLength r)"
    using that assms
    by (intro ContinueBlock_inv) (auto simp: rcv_inv_def append_up_to_eq nibble_less)
  moreover have "rcv_inv (r\<lparr>rcv_expectedSn := n, rcv_nCrTimer := None,
      rcv_state := receiverIdle, rcv_buffer := []\<rparr>)" for n
    by (simp add: rcv_inv_def)
  ultimately show ?thesis
    using assms AbortR_inv [of unexpectedFrame r]
    by (simp add: HandleConsecutiveFrame_def Let_def not_le)
qed

lemma rcv_step_inv:
  assumes "rcv_inv r" and "rcv_enabled e r"
  shows "rcv_inv (fst (rcv_step e r))"
proof (cases e)
  case (RcvFrame now frame)
  with assms show ?thesis
    by (cases "DecodeFrameType frame")
      (simp_all add: rcv_step_def ProcessFrameR_def HandleSingleFrame_inv HandleFirstFrame_inv
        HandleConsecutiveFrame_inv rcv_enabled_def)
next
  case (RcvFcDone cb success)
  with assms show ?thesis by (cases cb) (simp add: rcv_step_def AbortR_inv)
next
  case RcvTimeout
  then show ?thesis by (simp add: rcv_step_def NCrTimeout_def AbortR_inv)
next
  case RcvReset
  then show ?thesis by (simp add: rcv_step_def ResetR_def ClearR_def rcv_inv_def)
qed

definition delivers_at_most :: "nat \<Rightarrow> receiver_effect \<Rightarrow> bool" where
  "delivers_at_most m e \<longleftrightarrow> (case e of PduReady pdu \<Rightarrow> 1 \<le> length pdu \<and> length pdu \<le> m | _ \<Rightarrow> True)"

lemma ContinueBlock_fields:
  "rcv_maxSize (fst (ContinueBlock r)) = rcv_maxSize r"
  "list_all (delivers_at_most m) (snd (ContinueBlock r))"
  by (simp_all add: ContinueBlock_def Let_def SendFlowControl_def delivers_at_most_def)

lemma AbortR_fields:
  "rcv_maxSize (fst (AbortR reason r)) = rcv_maxSize r"
  "list_all (delivers_at_most m) (snd (AbortR reason r))"
  by (simp_all add: AbortR_def ClearR_def delivers_at_most_def)

lemma EndSupersededReception_fields:
  "rcv_maxSize (fst (EndSupersededReception r)) = rcv_maxSize r"
  "list_all (delivers_at_most m) (snd (EndSupersededReception r))"
  by (simp_all add: EndSupersededReception_def AbortR_fields)

lemma HandleSingleFrame_out:
  assumes "length frame \<le> 8"
  shows "rcv_maxSize (fst (HandleSingleFrame frame r)) = rcv_maxSize r \<and>
    list_all (delivers_at_most (rcv_maxSize r)) (snd (HandleSingleFrame frame r))"
proof -
  obtain r1 e where r1: "EndSupersededReception r = (r1, e)"
    by (cases "EndSupersededReception r") auto
  have max: "rcv_maxSize r1 = rcv_maxSize r"
    and e: "list_all (delivers_at_most (rcv_maxSize r)) e"
    using EndSupersededReception_fields(1) [of r] EndSupersededReception_fields(2) [where r = r] r1
    by (metis fst_conv, metis snd_conv)
  let ?len = "DecodeSingleFrameLength frame"
  show ?thesis
  proof (cases "?len = 0 \<or> ?len > of_nat sfMaxPayloadBytes \<or> ?len > of_nat (length frame - 1)")
    case True
    then show ?thesis by (auto simp: HandleSingleFrame_def Let_def)
  next
    case False
    then have "0 < unat ?len" and "unat ?len \<le> length frame - 1"
      using assms by (auto simp: word_le_nat_alt unsigned_of_nat take_bit_nat_eq_self not_less unat_gt_0)
    then have "delivers_at_most (rcv_maxSize r) (PduReady (take (unat ?len) (drop 1 frame)))"
      if "unat ?len \<le> rcv_maxSize r"
      using that by (auto simp: delivers_at_most_def)
    then show ?thesis
      using False r1 max e AbortR_fields [where reason = overflowReason and r = r1]
      by (cases "AbortR overflowReason r1") (auto simp: HandleSingleFrame_def Let_def)
  qed
qed

lemma HandleFirstFrame_out:
  "rcv_maxSize (fst (HandleFirstFrame now frame r)) = rcv_maxSize r \<and>
    list_all (delivers_at_most (rcv_maxSize r)) (snd (HandleFirstFrame now frame r))"
proof -
  obtain r1 e where r1: "EndSupersededReception r = (r1, e)"
    by (cases "EndSupersededReception r") auto
  have max: "rcv_maxSize r1 = rcv_maxSize r"
    and e: "list_all (delivers_at_most (rcv_maxSize r)) e"
    using EndSupersededReception_fields(1) [of r] EndSupersededReception_fields(2) [where r = r] r1
    by (metis fst_conv, metis snd_conv)
  show ?thesis
    using r1 max e AbortR_fields [where reason = overflowReason and r = r1]
    by (cases "AbortR overflowReason r1")
      (auto simp: HandleFirstFrame_def Let_def SendFlowControl_def delivers_at_most_def)
qed

lemma HandleConsecutiveFrame_out:
  assumes "rcv_inv r"
  shows "rcv_maxSize (fst (HandleConsecutiveFrame now frame r)) = rcv_maxSize r \<and>
    list_all (delivers_at_most (rcv_maxSize r)) (snd (HandleConsecutiveFrame now frame r))"
proof (cases "rcv_state r = receivingCf")
  case True
  with assms have "length (rcv_buffer r) < unat (rcv_expectedTotalLength r)"
    and "unat (rcv_expectedTotalLength r) \<le> rcv_maxSize r" by (auto simp: rcv_inv_def)
  then show ?thesis
    by (auto simp: HandleConsecutiveFrame_def Let_def AbortR_fields ContinueBlock_fields
        append_up_to_eq delivers_at_most_def)
qed (simp add: HandleConsecutiveFrame_def)

lemma rcv_step_out:
  assumes "rcv_inv r" and "rcv_enabled e r"
  shows "rcv_maxSize (fst (rcv_step e r)) = rcv_maxSize r \<and>
    list_all (delivers_at_most (rcv_maxSize r)) (snd (rcv_step e r))"
proof (cases e)
  case (RcvFrame now frame)
  with assms show ?thesis
    by (cases "DecodeFrameType frame")
      (simp_all add: rcv_step_def ProcessFrameR_def HandleSingleFrame_out HandleFirstFrame_out
        HandleConsecutiveFrame_out rcv_enabled_def)
next
  case (RcvFcDone cb success)
  then show ?thesis by (cases cb) (simp add: rcv_step_def AbortR_fields)
next
  case RcvTimeout
  then show ?thesis by (simp add: rcv_step_def NCrTimeout_def AbortR_fields)
next
  case RcvReset
  then show ?thesis by (simp add: rcv_step_def ResetR_def ClearR_def)
qed

interpretation rcv: io_machine rcv_step rcv_enabled "\<lambda>r. rcv_inv r \<and> rcv_maxSize r = m" for m
  by unfold_locales (simp add: rcv_step_inv rcv_step_out)

section \<open>Properties\<close>

lemma IsoTpReceiver_inv: "rcv_inv (IsoTpReceiver m) \<and> rcv_maxSize (IsoTpReceiver m) = m"
  by (simp add: IsoTpReceiver_def rcv_inv_def)

text \<open>C14: Whatever frames arrive, in whatever order and with whatever contents, and whatever happens
  to its flow controls and its timer, a receiver never holds more bytes than its buffer takes, it
  delivers only PDUs of one byte up to that size, and while it waits for a consecutive frame its
  timer runs, so no reception is pending for ever.\<close>

theorem receiver_bounded_and_live:
  assumes "admissible rcv_enabled rcv_step es (IsoTpReceiver maxSize)"
  shows "(case run_io rcv_step es (IsoTpReceiver maxSize) of (r, effects) \<Rightarrow>
    length (rcv_buffer r) \<le> maxSize \<and>
    (IsIdleR r \<or> rcv_nCrTimer r \<noteq> None) \<and>
    list_all (delivers_at_most maxSize) effects)"
proof -
  have "list_all (delivers_at_most maxSize) (snd (run_io rcv_step es (IsoTpReceiver maxSize)))"
    by (rule rcv.run_outputs [of _ _, OF _ IsoTpReceiver_inv assms]) (use rcv_step_out in blast)
  moreover have "rcv_inv (fst (run_io rcv_step es (IsoTpReceiver maxSize))) \<and>
      rcv_maxSize (fst (run_io rcv_step es (IsoTpReceiver maxSize))) = maxSize"
    by (rule rcv.run_inv [OF IsoTpReceiver_inv assms])
  ultimately show ?thesis
    by (auto simp: rcv_inv_def IsIdleR_def split: prod.splits ReceiverState.splits)
qed

theorem receiver_bounded_and_live_witness:
  "list_all (delivers_at_most 20) (snd (run_io rcv_step
     [RcvFrame 0 [0x10, 8, 1, 2, 3, 4, 5, 6], RcvFrame 5 [0x21, 7, 8]] (IsoTpReceiver 20)))"
proof -
  have "admissible rcv_enabled rcv_step
      [RcvFrame 0 [0x10, 8, 1, 2, 3, 4, 5, 6], RcvFrame 5 [0x21, 7, 8]] (IsoTpReceiver 20)"
    by (simp add: rcv_enabled_def)
  from receiver_bounded_and_live [OF this] show ?thesis by (simp add: case_prod_beta)
qed

end
