(* ===== verification/IsoTpSender.thy ===== *)
theory IsoTpSender
  imports IsoTpCodec
begin

text \<open>
  The sending half of an ISO-TP channel, \<^verbatim>\<open>IsoTpSender.cpp\<close>.

  Sending a frame, completing and aborting are effects.  The completion callbacks that the code
  passes along with a frame are lambdas that capture the number of the transfer: the three kinds
  are the constructors of \<open>sender_callback\<close>, and \<open>FrameSendDone\<close> is their bodies.  In every
  operation the send is the last thing that happens, so a refusal that runs the callback inside
  the send is the same as one that runs it afterwards.  \<open>None\<close> as the result of \<open>SendS\<close>
  is a failed \<^verbatim>\<open>really_assert\<close>.
\<close>

section \<open>State\<close>

record 'd sender =
  snd_state :: SenderState
  snd_bytesSent :: u16
  snd_sequenceNumber :: u8
  snd_blockSize :: u8
  snd_blocksRemaining :: u8
  snd_stMinByte :: u8
  snd_waitCount :: u8
  snd_transfer :: u8
  snd_onDone :: "'d option"
  snd_pdu :: bytes
  snd_maxSize :: nat
  snd_nAsTimer :: timer
  snd_nBsTimer :: timer
  snd_stMinTimer :: timer

datatype sender_callback = SfSent u8 | AwaitFcSent u8 | CfSent bool u8

datatype 'd sender_effect =
    SenderTransmit bytes sender_callback
  | SenderDone 'd
  | SenderAborted AbortReason

definition IsoTpSender :: "nat \<Rightarrow> 'd sender" where
  "IsoTpSender maxSize =
     \<lparr>snd_state = senderIdle, snd_bytesSent = 0, snd_sequenceNumber = 1, snd_blockSize = 0,
      snd_blocksRemaining = 0, snd_stMinByte = 0, snd_waitCount = 0, snd_transfer = 0,
      snd_onDone = None, snd_pdu = [], snd_maxSize = maxSize, snd_nAsTimer = None,
      snd_nBsTimer = None, snd_stMinTimer = None\<rparr>"

definition IsIdleS :: "'d sender \<Rightarrow> bool" where
  "IsIdleS s \<longleftrightarrow> snd_state s = senderIdle"

section \<open>Operations\<close>

definition StartNBsTimer :: "time \<Rightarrow> 'd sender \<Rightarrow> 'd sender" where
  "StartNBsTimer now s = s\<lparr>snd_nBsTimer := Some (now + nBsTimeout)\<rparr>"

definition StartNAsTimer :: "time \<Rightarrow> 'd sender \<Rightarrow> 'd sender" where
  "StartNAsTimer now s = s\<lparr>snd_nAsTimer := Some (now + nAsTimeout)\<rparr>"

definition ClearS :: "'d sender \<Rightarrow> 'd sender" where
  "ClearS s = s\<lparr>snd_nAsTimer := None, snd_nBsTimer := None, snd_stMinTimer := None,
     snd_state := senderIdle, snd_transfer := snd_transfer s + 1\<rparr>"

definition ResetS :: "'d sender \<Rightarrow> 'd sender" where
  "ResetS s = ClearS s"

definition AbortS :: "AbortReason \<Rightarrow> 'd sender \<Rightarrow> 'd sender \<times> 'd sender_effect list" where
  "AbortS reason s = (ClearS s, [SenderAborted reason])"

definition Complete :: "'d sender \<Rightarrow> 'd sender \<times> 'd sender_effect list" where
  "Complete s =
     (s\<lparr>snd_state := senderIdle, snd_transfer := snd_transfer s + 1\<rparr>,
      case snd_onDone s of None \<Rightarrow> [] | Some d \<Rightarrow> [SenderDone d])"

definition SendFirstOrSingleFrame ::
    "time \<Rightarrow> 'd sender \<Rightarrow> ('d sender \<times> 'd sender_effect list) option" where
  "SendFirstOrSingleFrame now s =
     (if length (snd_pdu s) \<le> sfMaxPayloadBytes
      then (case EncodeSingleFrame (snd_pdu s) of
        None \<Rightarrow> None
      | Some frame \<Rightarrow>
          Some (StartNAsTimer now (s\<lparr>snd_state := sendingSf\<rparr>),
                [SenderTransmit frame (SfSent (snd_transfer s))]))
      else (case EncodeFirstFrame (snd_pdu s) of
        None \<Rightarrow> None
      | Some frame \<Rightarrow>
          Some (StartNBsTimer now (s\<lparr>snd_bytesSent := of_nat ffFirstDataBytes,
                  snd_state := waitingForFc\<rparr>),
                [SenderTransmit frame (AwaitFcSent (snd_transfer s))])))"

definition SendNextConsecutiveFrame :: "time \<Rightarrow> 'd sender \<Rightarrow> 'd sender \<times> 'd sender_effect list" where
  "SendNextConsecutiveFrame now s =
     (case EncodeConsecutiveFrame (snd_sequenceNumber s AND snMask)
             (drop (unat (snd_bytesSent s)) (snd_pdu s)) of
        (written, frame) \<Rightarrow>
          let s1 = s\<lparr>snd_sequenceNumber := (snd_sequenceNumber s + 1) AND 0x0F,
                snd_bytesSent := snd_bytesSent s + ucast written\<rparr>;
              allSent = (snd_bytesSent s1 \<ge> of_nat (length (snd_pdu s1)));
              inBlock = (\<not> allSent \<and> snd_blockSize s1 \<noteq> 0);
              s2 = (if inBlock \<and> snd_blocksRemaining s1 > 0
                    then s1\<lparr>snd_blocksRemaining := snd_blocksRemaining s1 - 1\<rparr> else s1)
          in if inBlock \<and> snd_blocksRemaining s2 = 0
             then (StartNBsTimer now (s2\<lparr>snd_state := waitingForFc\<rparr>),
                   [SenderTransmit frame (AwaitFcSent (snd_transfer s))])
             else (StartNAsTimer now s2,
                   [SenderTransmit frame (CfSent allSent (snd_transfer s))]))"

definition ScheduleNextCf :: "time \<Rightarrow> 'd sender \<Rightarrow> 'd sender \<times> 'd sender_effect list" where
  "ScheduleNextCf now s =
     (let delay = StMinToDuration (snd_stMinByte s) in
      if delay > 0 then (s\<lparr>snd_stMinTimer := Some (now + delay)\<rparr>, [])
      else SendNextConsecutiveFrame now s)"

definition SendS ::
    "time \<Rightarrow> bytes \<Rightarrow> 'd \<Rightarrow> 'd sender \<Rightarrow> (bool \<times> 'd sender \<times> 'd sender_effect list) option" where
  "SendS now pdu onDone s =
     (if pdu = [] then Some (False, s, [])
      else if length pdu > ffMaxPduLength then Some (False, s, [])
      else if snd_state s \<noteq> senderIdle then Some (False, s, [])
      else if length pdu > snd_maxSize s then Some (False, s, [])
      else (case SendFirstOrSingleFrame now
              (s\<lparr>snd_pdu := pdu, snd_onDone := Some onDone, snd_transfer := snd_transfer s + 1,
                 snd_bytesSent := 0, snd_sequenceNumber := 1, snd_blockSize := 0,
                 snd_blocksRemaining := 0, snd_stMinByte := 0, snd_waitCount := 0\<rparr>) of
              None \<Rightarrow> None
            | Some (s', effects) \<Rightarrow> Some (True, s', effects)))"

definition ProcessFlowControl :: "time \<Rightarrow> bytes \<Rightarrow> 'd sender \<Rightarrow> 'd sender \<times> 'd sender_effect list" where
  "ProcessFlowControl now frame s =
     (if snd_state s \<noteq> waitingForFc then (s, [])
      else (case DecodeFlowControl frame of
        None \<Rightarrow> AbortS unexpectedFrame s
      | Some (fsOverflow, _, _) \<Rightarrow> AbortS overflowReason s
      | Some (wait, _, _) \<Rightarrow>
          (let s1 = s\<lparr>snd_waitCount := snd_waitCount s + 1\<rparr>
           in if snd_waitCount s1 > nWftMax then AbortS waitLimitExceeded s1
              else (StartNBsTimer now s1, []))
      | Some (continueToSend, bs, stMin) \<Rightarrow>
          ScheduleNextCf now
            (s\<lparr>snd_waitCount := 0, snd_nBsTimer := None, snd_blockSize := bs,
               snd_blocksRemaining := bs, snd_stMinByte := stMin, snd_state := sendingCf\<rparr>)))"

text \<open>The completion lambdas.\<close>

fun FrameSendDone ::
    "time \<Rightarrow> sender_callback \<Rightarrow> bool \<Rightarrow> 'd sender \<Rightarrow> 'd sender \<times> 'd sender_effect list" where
  "FrameSendDone now (SfSent current) success s =
     (if current \<noteq> snd_transfer s then (s, [])
      else let s1 = s\<lparr>snd_nAsTimer := None\<rparr> in
        if \<not> success then AbortS sendFailed s1 else Complete s1)"
| "FrameSendDone now (AwaitFcSent current) success s =
     (if \<not> success \<and> current = snd_transfer s then AbortS sendFailed s else (s, []))"
| "FrameSendDone now (CfSent allSent current) success s =
     (if current \<noteq> snd_transfer s then (s, [])
      else let s1 = s\<lparr>snd_nAsTimer := None\<rparr> in
        if \<not> success then AbortS sendFailed s1
        else if allSent then Complete s1
        else if snd_state s1 = sendingCf then ScheduleNextCf now s1
        else (s1, []))"

text \<open>The timers: each disarms itself before its action runs.\<close>

definition NAsTimeout :: "'d sender \<Rightarrow> 'd sender \<times> 'd sender_effect list" where
  "NAsTimeout s = AbortS nAsTimeoutReason (s\<lparr>snd_nAsTimer := None\<rparr>)"

definition NBsTimeout :: "'d sender \<Rightarrow> 'd sender \<times> 'd sender_effect list" where
  "NBsTimeout s = AbortS nBsTimeoutReason (s\<lparr>snd_nBsTimer := None\<rparr>)"

definition StMinExpired :: "time \<Rightarrow> 'd sender \<Rightarrow> 'd sender \<times> 'd sender_effect list" where
  "StMinExpired now s = SendNextConsecutiveFrame now (s\<lparr>snd_stMinTimer := None\<rparr>)"

section \<open>The sender as a machine\<close>

datatype 'd sender_event =
    SndSend time bytes 'd
  | SndFlowControl time bytes
  | SndFrameDone time sender_callback bool
  | SndNAs
  | SndNBs
  | SndStMin time

definition snd_step :: "'d sender_event \<Rightarrow> 'd sender \<Rightarrow> 'd sender \<times> 'd sender_effect list" where
  "snd_step e s =
     (case e of
        SndSend now pdu d \<Rightarrow> (case SendS now pdu d s of None \<Rightarrow> (s, []) | Some (_, r) \<Rightarrow> r)
      | SndFlowControl now frame \<Rightarrow> ProcessFlowControl now frame s
      | SndFrameDone now cb success \<Rightarrow> FrameSendDone now cb success s
      | SndNAs \<Rightarrow> NAsTimeout s
      | SndNBs \<Rightarrow> NBsTimeout s
      | SndStMin now \<Rightarrow> StMinExpired now s)"

text \<open>A callback may run if it belongs to an earlier transfer, or if the frame it was sent with is
  the one the sender waits for.\<close>

fun awaited :: "sender_callback \<Rightarrow> 'd sender \<Rightarrow> bool" where
  "awaited (SfSent n) s = (n \<noteq> snd_transfer s \<or> snd_state s = sendingSf)"
| "awaited (AwaitFcSent n) s = (n \<noteq> snd_transfer s \<or> snd_state s \<in> {waitingForFc, sendingCf})"
| "awaited (CfSent allSent n) s =
     (n \<noteq> snd_transfer s \<or> snd_state s = sendingCf \<and> snd_nAsTimer s \<noteq> None \<and>
        allSent = (unat (snd_bytesSent s) = length (snd_pdu s)))"

definition snd_enabled :: "'d sender_event \<Rightarrow> 'd sender \<Rightarrow> bool" where
  "snd_enabled e s =
     (case e of
        SndFrameDone _ cb _ \<Rightarrow> awaited cb s
      | SndNAs \<Rightarrow> snd_nAsTimer s \<noteq> None
      | SndNBs \<Rightarrow> snd_nBsTimer s \<noteq> None
      | SndStMin _ \<Rightarrow> snd_stMinTimer s \<noteq> None
      | _ \<Rightarrow> True)"

text \<open>Exactly the timer that the state calls for is running: N\_As while a frame is with the
  driver, N\_Bs while a flow control is awaited, STmin between two consecutive frames.\<close>

definition snd_inv :: "'d sender \<Rightarrow> bool" where
  "snd_inv s \<longleftrightarrow>
     (case snd_state s of
        senderIdle \<Rightarrow> snd_nAsTimer s = None \<and> snd_nBsTimer s = None \<and> snd_stMinTimer s = None
      | sendingSf \<Rightarrow> snd_nAsTimer s \<noteq> None \<and> snd_nBsTimer s = None \<and> snd_stMinTimer s = None
      | waitingForFc \<Rightarrow> snd_nAsTimer s = None \<and> snd_nBsTimer s \<noteq> None \<and> snd_stMinTimer s = None
          \<and> unat (snd_bytesSent s) < length (snd_pdu s)
      | sendingCf \<Rightarrow> snd_nBsTimer s = None \<and> (snd_nAsTimer s = None) = (snd_stMinTimer s \<noteq> None)
          \<and> (snd_stMinTimer s \<noteq> None \<longrightarrow> unat (snd_bytesSent s) < length (snd_pdu s))) \<and>
     (snd_state s \<noteq> senderIdle \<longrightarrow> snd_onDone s \<noteq> None \<and> length (snd_pdu s) \<le> 4095 \<and>
        unat (snd_bytesSent s) \<le> length (snd_pdu s) \<and> snd_waitCount s \<le> nWftMax)"

section \<open>Sending a consecutive frame\<close>

text \<open>The arithmetic of one consecutive frame, free of wrap-around for a PDU of at most 4095 bytes.\<close>

definition after_cf :: "'d sender \<Rightarrow> 'd sender" where
  "after_cf s = s\<lparr>snd_sequenceNumber := (snd_sequenceNumber s + 1) AND 0x0F,
     snd_bytesSent := of_nat (min (unat (snd_bytesSent s) + 7) (length (snd_pdu s)))\<rparr>"

definition cf_frame :: "'d sender \<Rightarrow> bytes" where
  "cf_frame s = snd (EncodeConsecutiveFrame (snd_sequenceNumber s AND snMask)
     (drop (unat (snd_bytesSent s)) (snd_pdu s)))"

lemma SendNextConsecutiveFrame_eq:
  assumes "length (snd_pdu s) \<le> 4095" and "unat (snd_bytesSent s) \<le> length (snd_pdu s)"
  shows "SendNextConsecutiveFrame now s =
    (let s1 = after_cf s; left = (unat (snd_bytesSent s) + 7 < length (snd_pdu s)) in
     if left \<and> snd_blockSize s \<noteq> 0 \<and> snd_blocksRemaining s \<le> 1
     then (StartNBsTimer now (s1\<lparr>snd_blocksRemaining := 0, snd_state := waitingForFc\<rparr>),
           [SenderTransmit (cf_frame s) (AwaitFcSent (snd_transfer s))])
     else (StartNAsTimer now
             (if left \<and> snd_blockSize s \<noteq> 0
              then s1\<lparr>snd_blocksRemaining := snd_blocksRemaining s - 1\<rparr> else s1),
           [SenderTransmit (cf_frame s) (CfSent (\<not> left) (snd_transfer s))]))"
proof -
  let ?k = "unat (snd_bytesSent s)" and ?L = "length (snd_pdu s)"
  obtain written frame where enc: "EncodeConsecutiveFrame (snd_sequenceNumber s AND snMask)
      (drop ?k (snd_pdu s)) = (written, frame)"
    by (metis surj_pair)
  have w: "unat written = min 7 (?L - ?k)"
    using consecutive_frame_decodes(4) [OF enc] by simp
  have "unat (snd_bytesSent s + ucast written) = min (?k + 7) ?L"
    using assms w by (simp add: unat_word_ariths unsigned_ucast_eq take_bit_nat_eq_self)
  then have bytes: "snd_bytesSent s + ucast written = of_nat (min (?k + 7) ?L)"
    using assms(1) by (simp add: word_unat_eq_iff unat_of_nat_small min.strict_coboundedI2)
  have all: "(of_nat (min (?k + 7) ?L) :: u16) \<ge> of_nat ?L \<longleftrightarrow> \<not> ?k + 7 < ?L"
    using assms by (auto simp: word_le_nat_alt unat_of_nat_small min_def)
  have one: "snd_blocksRemaining s \<le> 1 \<longleftrightarrow> snd_blocksRemaining s = 0 \<or> snd_blocksRemaining s = 1"
    by (auto simp: word_le_nat_alt word_unat_eq_iff le_Suc_eq)
  have frame: "cf_frame s = frame" by (simp add: cf_frame_def enc)
  show ?thesis
    using enc bytes all one frame
    by (auto simp: SendNextConsecutiveFrame_def after_cf_def Let_def word_gt_0) (cases s; simp)
qed

lemma unat_after_cf:
  "length (snd_pdu s) \<le> 4095 \<Longrightarrow>
     unat (snd_bytesSent (after_cf s)) = min (unat (snd_bytesSent s) + 7) (length (snd_pdu s))"
  by (simp add: after_cf_def unat_of_nat_small min_def)

lemma after_cf_fields [simp]:
  "snd_state (after_cf s) = snd_state s" "snd_blockSize (after_cf s) = snd_blockSize s"
  "snd_blocksRemaining (after_cf s) = snd_blocksRemaining s" "snd_stMinByte (after_cf s) = snd_stMinByte s"
  "snd_waitCount (after_cf s) = snd_waitCount s" "snd_transfer (after_cf s) = snd_transfer s"
  "snd_onDone (after_cf s) = snd_onDone s" "snd_pdu (after_cf s) = snd_pdu s"
  "snd_maxSize (after_cf s) = snd_maxSize s" "snd_nAsTimer (after_cf s) = snd_nAsTimer s"
  "snd_nBsTimer (after_cf s) = snd_nBsTimer s" "snd_stMinTimer (after_cf s) = snd_stMinTimer s"
  by (simp_all add: after_cf_def)

section \<open>The invariant\<close>

lemma IsoTpSender_inv: "snd_inv (IsoTpSender m)"
  by (simp add: snd_inv_def IsoTpSender_def)

lemma AbortS_inv: "snd_inv (fst (AbortS reason s))"
  by (simp add: AbortS_def ClearS_def snd_inv_def)

lemma Complete_inv:
  "snd_nAsTimer s = None \<Longrightarrow> snd_nBsTimer s = None \<Longrightarrow> snd_stMinTimer s = None \<Longrightarrow>
     snd_inv (fst (Complete s))"
  by (simp add: Complete_def snd_inv_def)

text \<open>A sender about to send a consecutive frame: in the state for it, no timer running.\<close>

definition cf_ready :: "'d sender \<Rightarrow> bool" where
  "cf_ready s \<longleftrightarrow> snd_state s = sendingCf \<and> snd_nAsTimer s = None \<and> snd_nBsTimer s = None \<and>
     snd_stMinTimer s = None \<and> snd_onDone s \<noteq> None \<and> length (snd_pdu s) \<le> 4095 \<and>
     unat (snd_bytesSent s) < length (snd_pdu s) \<and> snd_waitCount s \<le> nWftMax"

lemma SendNextConsecutiveFrame_inv:
  assumes "cf_ready s"
  shows "snd_inv (fst (SendNextConsecutiveFrame now s))"
proof -
  have "length (snd_pdu s) \<le> 4095" and "unat (snd_bytesSent s) \<le> length (snd_pdu s)"
    using assms by (simp_all add: cf_ready_def)
  note eq = SendNextConsecutiveFrame_eq [OF this, of now]
  show ?thesis
    using assms unfolding eq
    by (auto simp: cf_ready_def snd_inv_def Let_def StartNBsTimer_def StartNAsTimer_def
        unat_after_cf)
qed

lemma ScheduleNextCf_inv:
  assumes "cf_ready s"
  shows "snd_inv (fst (ScheduleNextCf now s))"
  using assms SendNextConsecutiveFrame_inv [OF assms]
  by (auto simp: ScheduleNextCf_def Let_def) (auto simp: cf_ready_def snd_inv_def)

lemma SendS_inv:
  assumes "snd_inv s" and "SendS now pdu d s = Some (ok, s', e)"
  shows "snd_inv s'"
proof (cases ok)
  case True
  then have "snd_state s = senderIdle" "0 < length pdu" "length pdu \<le> 4095"
    using assms(2) by (auto simp: SendS_def ffMaxPduLength_def split: if_splits)
  with True assms show ?thesis
    by (auto simp: SendS_def SendFirstOrSingleFrame_def StartNAsTimer_def StartNBsTimer_def
        snd_inv_def iso_constants split: option.splits if_splits)
next
  case False
  with assms show ?thesis by (auto simp: SendS_def split: if_splits option.splits)
qed

lemma ProcessFlowControl_inv:
  assumes "snd_inv s"
  shows "snd_inv (fst (ProcessFlowControl now frame s))"
proof (cases "snd_state s = waitingForFc")
  case waiting: True
  show ?thesis
  proof (cases "DecodeFlowControl frame")
    case None
    with waiting show ?thesis by (simp add: ProcessFlowControl_def AbortS_inv)
  next
    case (Some r)
    obtain fs bs st where r: "r = (fs, bs, st)" by (cases r) auto
    show ?thesis
    proof (cases fs)
      case continueToSend
      have "cf_ready (s\<lparr>snd_waitCount := 0, snd_nBsTimer := None, snd_blockSize := bs,
          snd_blocksRemaining := bs, snd_stMinByte := st, snd_state := sendingCf\<rparr>)"
        using assms waiting by (auto simp: snd_inv_def cf_ready_def)
      from ScheduleNextCf_inv [OF this] Some r continueToSend waiting show ?thesis
        by (simp add: ProcessFlowControl_def)
    next
      case wait
      have "snd_inv (fst (StartNBsTimer now (s\<lparr>snd_waitCount := snd_waitCount s + 1\<rparr>), []))"
        if "\<not> snd_waitCount s + 1 > nWftMax"
        using that assms waiting by (auto simp: snd_inv_def StartNBsTimer_def)
      with Some r wait waiting show ?thesis
        by (simp add: ProcessFlowControl_def AbortS_inv Let_def)
    next
      case fsOverflow
      with Some r waiting show ?thesis by (simp add: ProcessFlowControl_def AbortS_inv)
    qed
  qed
qed (use assms in \<open>simp add: ProcessFlowControl_def\<close>)

lemma FrameSendDone_inv:
  assumes "snd_inv s" and "awaited cb s"
  shows "snd_inv (fst (FrameSendDone now cb success s))"
proof (cases cb)
  case (SfSent n)
  with assms show ?thesis
    by (auto simp: Let_def AbortS_inv intro!: Complete_inv) (auto simp: snd_inv_def)
next
  case (AwaitFcSent n)
  with assms show ?thesis by (auto simp: AbortS_inv)
next
  case (CfSent allSent n)
  show ?thesis
  proof (cases "n = snd_transfer s")
    case True
    with CfSent assms have st: "snd_state s = sendingCf" "snd_nAsTimer s \<noteq> None"
      and all: "allSent = (unat (snd_bytesSent s) = length (snd_pdu s))" by auto
    then have "snd_inv (fst (Complete (s\<lparr>snd_nAsTimer := None\<rparr>)))"
      using assms(1) by (intro Complete_inv) (auto simp: snd_inv_def)
    moreover have "cf_ready (s\<lparr>snd_nAsTimer := None\<rparr>)" if "\<not> allSent"
      using that st all assms(1) by (auto simp: snd_inv_def cf_ready_def)
    ultimately show ?thesis
      using CfSent True st by (auto simp: Let_def AbortS_inv ScheduleNextCf_inv)
  qed (use CfSent assms in simp)
qed

lemma snd_step_inv:
  assumes "snd_inv s" and "snd_enabled e s"
  shows "snd_inv (fst (snd_step e s))"
proof (cases e)
  case (SndSend now pdu d)
  with assms SendS_inv [OF assms(1), of now pdu d] show ?thesis
    by (auto simp: snd_step_def split: option.splits)
next
  case (SndFlowControl now frame)
  with assms show ?thesis by (simp add: snd_step_def ProcessFlowControl_inv)
next
  case (SndFrameDone now cb success)
  with assms show ?thesis by (simp add: snd_step_def snd_enabled_def FrameSendDone_inv)
next
  case (SndStMin now)
  with assms have "snd_stMinTimer s \<noteq> None" by (simp add: snd_enabled_def)
  with assms(1) have "cf_ready (s\<lparr>snd_stMinTimer := None\<rparr>)"
    by (cases "snd_state s") (auto simp: snd_inv_def cf_ready_def)
  from SendNextConsecutiveFrame_inv [OF this] SndStMin show ?thesis
    by (simp add: snd_step_def StMinExpired_def)
qed (simp_all add: snd_step_def NAsTimeout_def NBsTimeout_def AbortS_inv)

section \<open>One outcome per transfer\<close>

fun outcomes :: "'d sender_effect list \<Rightarrow> nat" where
  "outcomes [] = 0"
| "outcomes (SenderTransmit _ _ # es) = outcomes es"
| "outcomes (_ # es) = Suc (outcomes es)"

lemma outcomes_append [simp]: "outcomes (xs @ ys) = outcomes xs + outcomes ys"
  by (induction xs rule: outcomes.induct) auto

definition in_progress :: "'d sender \<Rightarrow> nat" where
  "in_progress s = (if snd_state s = senderIdle then 0 else 1)"

definition snd_accepted :: "'d sender_event \<Rightarrow> 'd sender \<Rightarrow> nat" where
  "snd_accepted e s =
     (case e of
        SndSend now pdu d \<Rightarrow> (case SendS now pdu d s of Some (True, _) \<Rightarrow> 1 | _ \<Rightarrow> 0)
      | _ \<Rightarrow> 0)"

lemma AbortS_outcome [simp]:
  "in_progress (fst (AbortS r s)) = 0" "outcomes (snd (AbortS r s)) = 1"
  by (simp_all add: AbortS_def ClearS_def in_progress_def)

lemma Complete_outcome [simp]:
  "in_progress (fst (Complete s)) = 0"
  "snd_onDone s \<noteq> None \<Longrightarrow> outcomes (snd (Complete s)) = 1"
  by (auto simp: Complete_def in_progress_def)

lemma in_progress_1: "snd_state s \<noteq> senderIdle \<Longrightarrow> in_progress s = 1"
  by (simp add: in_progress_def)

lemma SendNextConsecutiveFrame_outcome:
  assumes "cf_ready s"
  shows "in_progress (fst (SendNextConsecutiveFrame now s)) = 1 \<and>
    outcomes (snd (SendNextConsecutiveFrame now s)) = 0"
proof -
  have "length (snd_pdu s) \<le> 4095" and "unat (snd_bytesSent s) \<le> length (snd_pdu s)"
    using assms by (simp_all add: cf_ready_def)
  note eq = SendNextConsecutiveFrame_eq [OF this, of now]
  show ?thesis
    using assms unfolding eq
    by (simp add: cf_ready_def Let_def StartNBsTimer_def StartNAsTimer_def in_progress_def)
qed

lemma ScheduleNextCf_outcome:
  assumes "cf_ready s"
  shows "in_progress (fst (ScheduleNextCf now s)) + outcomes (snd (ScheduleNextCf now s)) = 1"
  using SendNextConsecutiveFrame_outcome [OF assms, of now] assms
  by (auto simp: ScheduleNextCf_def Let_def in_progress_def cf_ready_def)

lemma SendS_total: "SendS now pdu d s \<noteq> None"
  by (auto simp: SendS_def SendFirstOrSingleFrame_def EncodeSingleFrame_def EncodeFirstFrame_def
      iso_constants Let_def)

lemma SendS_outcome:
  assumes "SendS now pdu d s = Some (ok, s', e)"
  shows "in_progress s' + outcomes e = in_progress s + (if ok then 1 else 0)"
  using assms
  by (auto simp: SendS_def SendFirstOrSingleFrame_def StartNAsTimer_def StartNBsTimer_def
      in_progress_def split: if_splits option.splits)

lemma ProcessFlowControl_outcome:
  assumes "snd_inv s"
  shows "in_progress (fst (ProcessFlowControl now frame s)) +
    outcomes (snd (ProcessFlowControl now frame s)) = in_progress s"
proof (cases "snd_state s = waitingForFc")
  case waiting: True
  show ?thesis
  proof (cases "DecodeFlowControl frame")
    case None
    with waiting show ?thesis by (simp add: ProcessFlowControl_def in_progress_1)
  next
    case (Some r)
    obtain fs bs st where r: "r = (fs, bs, st)" by (cases r) auto
    let ?s = "s\<lparr>snd_waitCount := 0, snd_nBsTimer := None, snd_blockSize := bs,
      snd_blocksRemaining := bs, snd_stMinByte := st, snd_state := sendingCf\<rparr>"
    have "cf_ready ?s" using assms waiting by (auto simp: snd_inv_def cf_ready_def)
    from ScheduleNextCf_outcome [OF this, of now] Some r waiting show ?thesis
      by (cases fs) (auto simp: ProcessFlowControl_def in_progress_1 StartNBsTimer_def Let_def)
  qed
qed (simp add: ProcessFlowControl_def)

lemma FrameSendDone_outcome:
  assumes "snd_inv s" and "awaited cb s"
  shows "in_progress (fst (FrameSendDone now cb success s)) +
    outcomes (snd (FrameSendDone now cb success s)) = in_progress s"
proof -
  let ?s = "s\<lparr>snd_nAsTimer := None\<rparr>"
  show ?thesis
  proof (cases cb)
    case (SfSent n)
    with assms show ?thesis by (auto simp: Let_def snd_inv_def in_progress_1)
  next
    case (AwaitFcSent n)
    with assms show ?thesis by (auto simp: in_progress_1)
  next
    case (CfSent allSent n)
    show ?thesis
    proof (cases "n = snd_transfer s")
      case True
      with CfSent assms have st: "snd_state s = sendingCf" "snd_onDone s \<noteq> None"
        and all: "allSent = (unat (snd_bytesSent s) = length (snd_pdu s))"
        by (auto simp: snd_inv_def)
      have "cf_ready ?s" if "\<not> allSent"
        using that st all assms CfSent True by (auto simp: snd_inv_def cf_ready_def)
      then have "in_progress (fst (ScheduleNextCf now ?s)) + outcomes (snd (ScheduleNextCf now ?s))
          = 1" if "\<not> allSent"
        using that by (simp add: ScheduleNextCf_outcome)
      with CfSent True st show ?thesis
        by (auto simp: Let_def in_progress_1)
    qed (use CfSent in simp)
  qed
qed

lemma snd_step_conserves:
  assumes "snd_inv s" and "snd_enabled e s"
  shows "in_progress (fst (snd_step e s)) + outcomes (snd (snd_step e s))
    = in_progress s + snd_accepted e s"
proof (cases e)
  case (SndSend now pdu d)
  obtain ok s' es where r: "SendS now pdu d s = Some (ok, s', es)"
    using SendS_total [of now pdu d s] by auto
  from SendS_outcome [OF r] r SndSend show ?thesis
    by (cases ok) (auto simp: snd_step_def snd_accepted_def)
next
  case (SndFlowControl now frame)
  with assms show ?thesis by (simp add: snd_step_def snd_accepted_def ProcessFlowControl_outcome)
next
  case (SndFrameDone now cb success)
  with assms show ?thesis
    by (simp add: snd_step_def snd_accepted_def snd_enabled_def FrameSendDone_outcome)
next
  case SndNAs
  with assms have "snd_state s \<noteq> senderIdle" by (auto simp: snd_enabled_def snd_inv_def)
  with SndNAs show ?thesis
    by (simp add: snd_step_def snd_accepted_def NAsTimeout_def in_progress_1)
next
  case SndNBs
  with assms have "snd_state s \<noteq> senderIdle" by (auto simp: snd_enabled_def snd_inv_def)
  with SndNBs show ?thesis
    by (simp add: snd_step_def snd_accepted_def NBsTimeout_def in_progress_1)
next
  case (SndStMin now)
  with assms have armed: "snd_stMinTimer s \<noteq> None" by (simp add: snd_enabled_def)
  with assms(1) have "cf_ready (s\<lparr>snd_stMinTimer := None\<rparr>)"
    by (cases "snd_state s") (auto simp: snd_inv_def cf_ready_def)
  from SendNextConsecutiveFrame_outcome [OF this, of now] SndStMin armed assms(1) show ?thesis
    by (auto simp: snd_step_def snd_accepted_def StMinExpired_def in_progress_def snd_inv_def)
qed

interpretation snd: conserving_machine snd_step snd_enabled snd_inv in_progress snd_accepted outcomes
  by unfold_locales (auto simp: snd_step_inv snd_step_conserves)

section \<open>Properties\<close>

definition sample_transfer :: "nat sender_event list" where
  "sample_transfer = [SndSend 0 [1, 2, 3, 4, 5, 6, 7, 8, 9] 42, SndFlowControl 10 [0x30, 0, 0]]"

lemma sample_transfer_admissible:
  "admissible snd_enabled snd_step sample_transfer (IsoTpSender 100)"
  by (simp add: sample_transfer_def snd_enabled_def)



text \<open>A sender is never stuck: in every reachable state that is not idle one of its timers runs,
  so the transfer will go on or be aborted; when idle no timer runs; and it never tolerates more
  than sixteen consecutive wait frames.\<close>

theorem sender_never_stuck:
  assumes "admissible snd_enabled snd_step es (IsoTpSender maxSize)"
  shows "(let s = fst (run_io snd_step es (IsoTpSender maxSize)) in
    IsIdleS s = (snd_nAsTimer s = None \<and> snd_nBsTimer s = None \<and> snd_stMinTimer s = None) \<and>
    (IsIdleS s \<or> snd_waitCount s \<le> 16))"
proof -
  have "IsIdleS s = (snd_nAsTimer s = None \<and> snd_nBsTimer s = None \<and> snd_stMinTimer s = None) \<and>
      (IsIdleS s \<or> snd_waitCount s \<le> 16)" if "snd_inv s" for s :: "'a sender"
    using that by (cases "snd_state s") (auto simp: snd_inv_def IsIdleS_def nWftMax_def)
  with snd.run_inv [OF IsoTpSender_inv assms] show ?thesis unfolding Let_def by blast
qed

theorem sender_never_stuck_witness:
  "(let s = fst (run_io snd_step sample_transfer (IsoTpSender 100 :: nat sender)) in
    IsIdleS s = (snd_nAsTimer s = None \<and> snd_nBsTimer s = None \<and> snd_stMinTimer s = None))"
  using sender_never_stuck [OF sample_transfer_admissible] by (simp add: Let_def)

text \<open>\<open>Send\<close> accepts a PDU exactly when it has 1 to 4095 bytes, fits the buffer and the sender
  is idle; it never fails its assertion; a PDU of at most seven bytes leaves as one single frame,
  a longer one as a first frame; a refusal changes nothing.\<close>

theorem send_accepts:
  "\<exists>s' effects. SendS now pdu d s =
     Some (0 < length pdu \<and> length pdu \<le> 4095 \<and> length pdu \<le> snd_maxSize s \<and> IsIdleS s,
           s', effects) \<and>
     (if 0 < length pdu \<and> length pdu \<le> 4095 \<and> length pdu \<le> snd_maxSize s \<and> IsIdleS s
      then snd_pdu s' = pdu \<and>
        (if length pdu \<le> 7
         then snd_state s' = sendingSf \<and>
           effects = [SenderTransmit (of_nat (length pdu) # pdu) (SfSent (snd_transfer s + 1))]
         else snd_state s' = waitingForFc \<and>
           (\<exists>frame. EncodeFirstFrame pdu = Some frame \<and>
              effects = [SenderTransmit frame (AwaitFcSent (snd_transfer s + 1))]))
      else s' = s \<and> effects = [])"
proof (cases "0 < length pdu \<and> length pdu \<le> 4095 \<and> length pdu \<le> snd_maxSize s \<and> IsIdleS s")
  case True
  show ?thesis
  proof (cases "length pdu \<le> 7")
    case short: True
    from True short show ?thesis
      by (auto simp: SendS_def SendFirstOrSingleFrame_def EncodeSingleFrame_Some IsIdleS_def
          StartNAsTimer_def iso_constants)
  next
    case False
    with True obtain frame where "EncodeFirstFrame pdu = Some frame"
      by (auto simp: EncodeFirstFrame_def iso_constants Let_def)
    with True False show ?thesis
      by (auto simp: SendS_def SendFirstOrSingleFrame_def IsIdleS_def StartNBsTimer_def iso_constants)
  qed
next
  case False
  then have "SendS now pdu d s = Some (False, s, [])"
    by (auto simp: SendS_def IsIdleS_def iso_constants)
  with False show ?thesis by auto
qed

fun wait_frames :: "nat \<Rightarrow> time \<Rightarrow> 'd sender \<Rightarrow> 'd sender \<times> 'd sender_effect list" where
  "wait_frames 0 now s = (s, [])"
| "wait_frames (Suc n) now s =
     (case wait_frames n now s of (s', es) \<Rightarrow>
        (case ProcessFlowControl now (EncodeFlowControl wait 0 0) s' of
           (s'', es') \<Rightarrow> (s'', es @ es')))"

lemma wait_frames_tolerated:
  assumes "snd_state s = waitingForFc" and "snd_waitCount s = 0" and "n \<le> 16"
  shows "snd (wait_frames n now s) = [] \<and> snd_state (fst (wait_frames n now s)) = waitingForFc \<and>
    unat (snd_waitCount (fst (wait_frames n now s))) = n"
  using assms(3)
proof (induction n)
  case 0
  with assms show ?case by simp
next
  case (Suc n)
  obtain s' es where r: "wait_frames n now s = (s', es)" by (cases "wait_frames n now s") auto
  with Suc have s': "es = []" "snd_state s' = waitingForFc" "unat (snd_waitCount s') = n" by auto
  have "unat (snd_waitCount s' + 1) = Suc n"
    using s' Suc.prems by (simp add: unat_word_ariths)
  then show ?case
    using r s' Suc.prems
    by (simp add: ProcessFlowControl_def flow_control_decodes Let_def word_less_nat_alt
        nWftMax_def StartNBsTimer_def)
qed

text \<open>After a first frame or a completed block a sender tolerates exactly sixteen consecutive wait
  frames, restarting N\_Bs at each; the seventeenth ends the transfer with \<open>waitLimitExceeded\<close>.\<close>

theorem wait_limit:
  assumes "snd_state s = waitingForFc" and "snd_waitCount s = 0"
  shows "snd (wait_frames 16 now s) = [] \<and> snd_state (fst (wait_frames 16 now s)) = waitingForFc \<and>
    snd_state (fst (wait_frames 17 now s)) = senderIdle \<and>
    snd (wait_frames 17 now s) = [SenderAborted waitLimitExceeded]"
proof -
  obtain s' es where r: "wait_frames 16 now s = (s', es)" by (cases "wait_frames 16 now s") auto
  with wait_frames_tolerated [OF assms, of 16 now]
  have s': "es = []" "snd_state s' = waitingForFc" "unat (snd_waitCount s') = 16" by auto
  then have "snd_waitCount s' = 16" by (simp add: word_unat_eq_iff)
  moreover have "wait_frames 17 now s = (case wait_frames 16 now s of (s', es) \<Rightarrow>
      (case ProcessFlowControl now (EncodeFlowControl wait 0 0) s' of (s'', es') \<Rightarrow> (s'', es @ es')))"
    using wait_frames.simps(2) [of 16] by simp
  ultimately show ?thesis
    using r s'
    by (simp add: ProcessFlowControl_def flow_control_decodes Let_def nWftMax_def AbortS_def
        ClearS_def)
qed

theorem wait_limit_witness:
  "snd (wait_frames 17 0 ((IsoTpSender 20 :: nat sender)\<lparr>snd_state := waitingForFc\<rparr>))
     = [SenderAborted waitLimitExceeded]"
  using wait_limit [of "(IsoTpSender 20 :: nat sender)\<lparr>snd_state := waitingForFc\<rparr>" 0]
  by (simp add: IsoTpSender_def del: wait_frames.simps)

end
