(* ===== verification/IsoTpLink.thy ===== *)
theory IsoTpLink
  imports IsoTpReceiver IsoTpSender
begin

text \<open>
  A sender and a receiver joined by a bus: what the two halves of the protocol achieve together.

  The bus keeps the frames of each direction in order and loses none; in every other respect it is
  free: frames may be delayed and several may be under way, the completion of a frame may be
  reported before or after the frame arrives, and a separation timer may fire late.  Every such
  behaviour is a run of \<open>link_step\<close>.  The timeouts N\_As, N\_Bs and N\_Cr do not expire: they
  watch for a bus that loses frames.
\<close>

section \<open>The joined system\<close>

record link =
  lk_sender :: "unit sender"
  lk_receiver :: receiver
  lk_fwd :: "bytes list"
  lk_back :: "bytes list"
  lk_sent :: "sender_callback list"
  lk_fcSent :: "receiver_callback list"
  lk_delivered :: "bytes list"
  lk_done :: nat
  lk_aborted :: bool

fun sender_out :: "unit sender_effect \<Rightarrow> link \<Rightarrow> link" where
  "sender_out (SenderTransmit f cb) x = x\<lparr>lk_fwd := lk_fwd x @ [f], lk_sent := lk_sent x @ [cb]\<rparr>"
| "sender_out (SenderDone _) x = x\<lparr>lk_done := Suc (lk_done x)\<rparr>"
| "sender_out (SenderAborted _) x = x\<lparr>lk_aborted := True\<rparr>"

fun receiver_out :: "receiver_effect \<Rightarrow> link \<Rightarrow> link" where
  "receiver_out (ReceiverTransmit f cb) x =
     x\<lparr>lk_back := lk_back x @ [f], lk_fcSent := lk_fcSent x @ [cb]\<rparr>"
| "receiver_out (PduReady pdu) x = x\<lparr>lk_delivered := lk_delivered x @ [pdu]\<rparr>"
| "receiver_out (ReceiverAborted _) x = x\<lparr>lk_aborted := True\<rparr>"

definition sender_does :: "unit sender \<times> unit sender_effect list \<Rightarrow> link \<Rightarrow> link" where
  "sender_does r x = fold sender_out (snd r) (x\<lparr>lk_sender := fst r\<rparr>)"

definition receiver_does :: "receiver \<times> receiver_effect list \<Rightarrow> link \<Rightarrow> link" where
  "receiver_does r x = fold receiver_out (snd r) (x\<lparr>lk_receiver := fst r\<rparr>)"

inductive link_step :: "link \<Rightarrow> link \<Rightarrow> bool" where
  frame_arrives: "lk_fwd x = f # rest \<Longrightarrow>
    link_step x (receiver_does (ProcessFrameR now f (lk_receiver x)) (x\<lparr>lk_fwd := rest\<rparr>))"
| flow_control_arrives: "lk_back x = f # rest \<Longrightarrow>
    link_step x (sender_does (ProcessFlowControl now f (lk_sender x)) (x\<lparr>lk_back := rest\<rparr>))"
| frame_sent: "lk_sent x = cb # rest \<Longrightarrow>
    link_step x (sender_does (FrameSendDone now cb True (lk_sender x)) (x\<lparr>lk_sent := rest\<rparr>))"
| flow_control_sent: "lk_fcSent x = cb # rest \<Longrightarrow>
    link_step x (receiver_does (FcSendDone cb True (lk_receiver x)) (x\<lparr>lk_fcSent := rest\<rparr>))"
| separation_over: "snd_stMinTimer (lk_sender x) \<noteq> None \<Longrightarrow>
    link_step x (sender_does (StMinExpired now (lk_sender x)) x)"

inductive_cases link_stepE: "link_step x y"

definition link_start :: "time \<Rightarrow> bytes \<Rightarrow> unit sender \<Rightarrow> receiver \<Rightarrow> link option" where
  "link_start now pdu s r =
     (case SendS now pdu () s of
        Some (True, result) \<Rightarrow>
          Some (sender_does result
            \<lparr>lk_sender = s, lk_receiver = r, lk_fwd = [], lk_back = [], lk_sent = [],
             lk_fcSent = [], lk_delivered = [], lk_done = 0, lk_aborted = False\<rparr>)
      | _ \<Rightarrow> None)"

section \<open>Where a transfer is\<close>

text \<open>The consecutive frame number \<open>j\<close>, counted from 0, of a PDU.\<close>

definition cf_of :: "bytes \<Rightarrow> nat \<Rightarrow> bytes" where
  "cf_of pdu j = snd (EncodeConsecutiveFrame (of_nat (Suc j) AND 0x0F) (drop (6 + 7 * j) pdu))"

definition cts :: "u8 \<Rightarrow> u8 \<Rightarrow> bytes" where
  "cts b st = EncodeFlowControl continueToSend b st"

text \<open>The flow controls a receiver has emitted when it has got \<open>r\<close> consecutive frames.\<close>

definition emitted :: "nat \<Rightarrow> nat \<Rightarrow> nat" where
  "emitted b r = (if b = 0 then 1 else Suc (r div b))"

text \<open>The sender has sent \<open>i\<close> consecutive frames and consumed \<open>c\<close> flow controls.\<close>

definition sender_at :: "bytes \<Rightarrow> u8 \<Rightarrow> u8 \<Rightarrow> u8 \<Rightarrow> nat \<Rightarrow> nat \<Rightarrow> unit sender \<Rightarrow> bool" where
  "sender_at pdu b st tr i c s \<longleftrightarrow>
     snd_pdu s = pdu \<and> unat (snd_bytesSent s) = min (6 + 7 * i) (length pdu) \<and>
     (snd_state s \<noteq> senderIdle \<longrightarrow> snd_transfer s = tr \<and> snd_onDone s = Some () \<and>
        snd_sequenceNumber s = of_nat (Suc i) AND 0x0F) \<and>
     (case snd_state s of
        waitingForFc \<Rightarrow> i = unat b * c \<and> (b = 0 \<longrightarrow> c = 0) \<and> 6 + 7 * i < length pdu \<and>
          snd_nAsTimer s = None \<and> snd_stMinTimer s = None
      | sendingCf \<Rightarrow> 1 \<le> c \<and> (b = 0 \<longrightarrow> c = 1) \<and> snd_blockSize s = b \<and> snd_stMinByte s = st \<and>
          (b \<noteq> 0 \<longrightarrow> i \<le> unat b * c \<and> unat b * (c - 1) \<le> i \<and>
             (6 + 7 * i < length pdu \<longrightarrow> unat (snd_blocksRemaining s) = unat b * c - i \<and> i < unat b * c)) \<and>
          (snd_nAsTimer s = None) = (snd_stMinTimer s \<noteq> None) \<and>
          (snd_stMinTimer s \<noteq> None \<longrightarrow> 6 + 7 * i < length pdu)
      | senderIdle \<Rightarrow> length pdu \<le> 6 + 7 * i \<and> 1 \<le> c \<and> (b = 0 \<longrightarrow> c = 1) \<and>
          (b \<noteq> 0 \<longrightarrow> i \<le> unat b * c \<and> unat b * (c - 1) \<le> i) \<and> snd_nAsTimer s = None \<and> snd_stMinTimer s = None
      | sendingSf \<Rightarrow> False)"

text \<open>The receiver has the first frame and \<open>r\<close> consecutive frames.\<close>

definition receiver_at :: "bytes \<Rightarrow> u8 \<Rightarrow> u8 \<Rightarrow> nat \<Rightarrow> receiver \<Rightarrow> bool" where
  "receiver_at pdu b st r v \<longleftrightarrow> rcv_blockSize v = b \<and> rcv_separationTime v = st \<and>
     (if 6 + 7 * r < length pdu
      then rcv_state v = receivingCf \<and> unat (rcv_expectedTotalLength v) = length pdu \<and>
        rcv_buffer v = take (6 + 7 * r) pdu \<and> rcv_expectedSn v = of_nat (Suc r) AND 0x0F \<and>
        (b \<noteq> 0 \<longrightarrow> unat (rcv_framesInBlock v) = r mod unat b)
      else rcv_state v = receiverIdle)"

definition awaiting :: "u8 \<Rightarrow> sender_callback list \<Rightarrow> bool" where
  "awaiting tr cbs \<longleftrightarrow> (\<exists>a. cbs = replicate a (AwaitFcSent tr))"

definition segmented :: "bytes \<Rightarrow> u8 \<Rightarrow> u8 \<Rightarrow> u8 \<Rightarrow> nat \<Rightarrow> nat \<Rightarrow> nat \<Rightarrow> link \<Rightarrow> bool" where
  "segmented pdu b st tr i r c x \<longleftrightarrow>
     7 < length pdu \<and> length pdu \<le> 4095 \<and> r \<le> i \<and> 7 * i < length pdu + 1 \<and>
     sender_at pdu b st tr i c (lk_sender x) \<and> receiver_at pdu b st r (lk_receiver x) \<and>
     lk_fwd x = map (cf_of pdu) [r..<i] \<and>
     (if 6 + 7 * r < length pdu
      then c \<le> emitted (unat b) r \<and> lk_back x = replicate (emitted (unat b) r - c) (cts b st) \<and>
        lk_delivered x = []
      else lk_back x = [] \<and> lk_delivered x = [pdu]) \<and>
     (if snd_nAsTimer (lk_sender x) = None then awaiting tr (lk_sent x)
      else \<exists>cbs. awaiting tr cbs \<and>
        lk_sent x = cbs @ [CfSent (length pdu \<le> 6 + 7 * i) tr]) \<and>
     (snd_state (lk_sender x) = senderIdle \<longrightarrow> lk_sent x = []) \<and>
     lk_done x = (if snd_state (lk_sender x) = senderIdle then 1 else 0) \<and> \<not> lk_aborted x"

definition announced :: "bytes \<Rightarrow> u8 \<Rightarrow> u8 \<Rightarrow> u8 \<Rightarrow> link \<Rightarrow> bool" where
  "announced pdu b st tr x \<longleftrightarrow>
     7 < length pdu \<and> length pdu \<le> 4095 \<and> length pdu \<le> rcv_maxSize (lk_receiver x) \<and>
     snd_state (lk_sender x) = waitingForFc \<and> sender_at pdu b st tr 0 0 (lk_sender x) \<and>
     rcv_state (lk_receiver x) = receiverIdle \<and> rcv_blockSize (lk_receiver x) = b \<and>
     rcv_separationTime (lk_receiver x) = st \<and>
     (\<exists>frame. EncodeFirstFrame pdu = Some frame \<and> lk_fwd x = [frame]) \<and>
     lk_back x = [] \<and> lk_fcSent x = [] \<and> lk_delivered x = [] \<and> awaiting tr (lk_sent x) \<and>
     lk_done x = 0 \<and> \<not> lk_aborted x"

definition single :: "bytes \<Rightarrow> u8 \<Rightarrow> link \<Rightarrow> bool" where
  "single pdu tr x \<longleftrightarrow>
     0 < length pdu \<and> length pdu \<le> 7 \<and> length pdu \<le> rcv_maxSize (lk_receiver x) \<and>
     rcv_state (lk_receiver x) = receiverIdle \<and> snd_stMinTimer (lk_sender x) = None \<and>
     lk_back x = [] \<and> lk_fcSent x = [] \<and> \<not> lk_aborted x \<and>
     (lk_fwd x = [of_nat (length pdu) # pdu] \<and> lk_delivered x = []
      \<or> lk_fwd x = [] \<and> lk_delivered x = [pdu]) \<and>
     (snd_state (lk_sender x) = sendingSf \<and> snd_transfer (lk_sender x) = tr \<and>
        snd_onDone (lk_sender x) = Some () \<and> lk_sent x = [SfSent tr] \<and> lk_done x = 0
      \<or> snd_state (lk_sender x) = senderIdle \<and> lk_sent x = [] \<and> lk_done x = 1)"

section \<open>One step of each side\<close>

lemma nibble_Suc: "((of_nat n AND 0x0F) + 1) AND 0x0F = (of_nat (Suc n) AND 0x0F :: u8)"
proof -
  have t: "unat (take_bit 4 x) = unat x mod 16" for x :: u8
    using take_bit_eq_mod [of 4 "unat x"] by (simp add: unsigned_take_bit_eq)
  have p: "unat (x + 1) = (unat x + 1) mod 256" for x :: u8
    by (simp add: unat_word_ariths)
  have o: "unat (of_nat k :: u8) = k mod 256" for k
    by (simp add: unsigned_of_nat take_bit_eq_mod)
  have m: "k mod 256 mod 16 = k mod 16" for k :: nat by (rule mod_mod_cancel) simp
  have "((n mod 256 mod 16 + 1) mod 256) mod 16 = Suc n mod 256 mod 16"
    unfolding m by (simp add: mod_simps)
  then have "unat (take_bit 4 (take_bit 4 (of_nat n) + 1 :: u8)) = unat (take_bit 4 (of_nat (Suc n) :: u8))"
    by (simp only: t p o)
  then show ?thesis unfolding wire by (simp only: word_unat_eq_iff)
qed

lemma nibble_idem: "((x :: u8) AND 0x0F) AND 0x0F = x AND 0x0F"
  by (simp only: and.assoc and.idem)

lemma cf_of_decodes:
  "DecodeFrameType (cf_of pdu j) = consecutiveFrame"
  "DecodeConsecutiveFrameSn (cf_of pdu j) = of_nat (Suc j) AND 0x0F"
  "tl (cf_of pdu j) = take 7 (drop (6 + 7 * j) pdu)"
  "length (cf_of pdu j) = Suc (min 7 (length pdu - (6 + 7 * j)))"
proof -
  obtain w f where f: "EncodeConsecutiveFrame (of_nat (Suc j) AND 0x0F) (drop (6 + 7 * j) pdu) = (w, f)"
    by (metis surj_pair)
  have cf: "cf_of pdu j = f" by (simp only: cf_of_def f snd_conv)
  note dec = consecutive_frame_decodes [OF f]
  show "DecodeFrameType (cf_of pdu j) = consecutiveFrame" by (simp only: cf dec)
  show "DecodeConsecutiveFrameSn (cf_of pdu j) = of_nat (Suc j) AND 0x0F"
    by (simp only: cf dec nibble_idem)
  show "tl (cf_of pdu j) = take 7 (drop (6 + 7 * j) pdu)" by (simp only: cf dec)
  show "length (cf_of pdu j) = Suc (min 7 (length pdu - (6 + 7 * j)))"
    by (simp only: cf dec length_drop)
qed

lemma take_append_drop: "take m xs @ take n (drop m xs) = take (m + n) xs"
  by (simp add: take_add)

lemma receiver_cf:
  assumes at: "receiver_at pdu b st r v" and more: "6 + 7 * r < length pdu"
    and small: "length pdu \<le> 4095"
  shows "\<exists>v' e. ProcessFrameR now (cf_of pdu r) v = (v', e) \<and> receiver_at pdu b st (Suc r) v' \<and>
    e = (if length pdu \<le> 6 + 7 * Suc r then [PduReady pdu]
         else if b \<noteq> 0 \<and> Suc r mod unat b = 0
         then [ReceiverTransmit (cts b st) (FcSent continueToSend (rcv_reception v))] else [])"
proof -
  have st: "rcv_state v = receivingCf" "unat (rcv_expectedTotalLength v) = length pdu"
      "rcv_buffer v = take (6 + 7 * r) pdu" "rcv_expectedSn v = of_nat (Suc r) AND 0x0F"
      "b \<noteq> 0 \<Longrightarrow> unat (rcv_framesInBlock v) = r mod unat b"
      "rcv_blockSize v = b" "rcv_separationTime v = st"
    using at more by (auto simp: receiver_at_def)
  have blen: "length (take (6 + 7 * r) pdu) = 6 + 7 * r" using more by simp
  have has: "HasConsecutiveFrameLength (cf_of pdu r) v"
    using st(2,3) blen by (simp add: HasConsecutiveFrameLength_def cf_of_decodes cfMaxDataBytes_def Let_def min.commute)
  have data: "append_up_to (length pdu) (take (6 + 7 * r) pdu) (tl (cf_of pdu r))
      = take (6 + 7 * Suc r) pdu"
  proof -
    have "take (length pdu - (6 + 7 * r)) (take 7 (drop (6 + 7 * r) pdu)) = take 7 (drop (6 + 7 * r) pdu)"
      by (rule take_all) simp
    then show ?thesis
      using blen take_append_drop [of "6 + 7 * r" pdu 7]
      by (simp add: append_up_to_eq cf_of_decodes add.commute)
  qed
  let ?v1 = "v\<lparr>rcv_expectedSn := of_nat (Suc (Suc r)) AND 0x0F, rcv_nCrTimer := Some (now + nCrTimeout),
    rcv_buffer := take (6 + 7 * Suc r) pdu\<rparr>"
  have step: "ProcessFrameR now (cf_of pdu r) v =
      (if length pdu \<le> length (take (6 + 7 * Suc r) pdu)
       then (?v1\<lparr>rcv_nCrTimer := None, rcv_state := receiverIdle, rcv_buffer := []\<rparr>,
             [PduReady (take (6 + 7 * Suc r) pdu)])
       else ContinueBlock ?v1)"
    using st has data nibble_Suc [of "Suc r"]
    by (simp add: ProcessFrameR_def cf_of_decodes(1,2) HandleConsecutiveFrame_def Let_def)
  show ?thesis
  proof (cases "length pdu \<le> 6 + 7 * Suc r")
    case True
    then show ?thesis using st by (simp add: step receiver_at_def)
  next
    case False
    have step': "ProcessFrameR now (cf_of pdu r) v = ContinueBlock ?v1"
      using False by (simp add: step)
    show ?thesis
    proof (cases "b = 0")
      case True
      then show ?thesis
        using False st unfolding step' by (simp add: ContinueBlock_def receiver_at_def)
    next
      case b: False
      have pos: "0 < unat b" using b by (simp add: unat_gt_0)
      have "r mod unat b < unat b" using pos by simp
      moreover have "unat b < 256" by (rule unat_u8_less)
      ultimately have inc: "unat (rcv_framesInBlock v + 1) = Suc (r mod unat b)"
        using st(5) [OF b] by (simp add: unat_word_ariths)
      have "rcv_framesInBlock v + 1 = b \<longleftrightarrow> Suc r mod unat b = 0"
        using inc pos by (auto simp: word_unat_eq_iff mod_Suc)
      moreover have "Suc r mod unat b \<noteq> 0 \<Longrightarrow> Suc (r mod unat b) = Suc r mod unat b"
        by (auto simp: mod_Suc split: if_splits)
      ultimately show ?thesis
        using False st b inc unfolding step'
        by (auto simp: ContinueBlock_def receiver_at_def Let_def SendFlowControl_def cts_def)
    qed
  qed
qed

lemma receiver_ff:
  assumes ff: "EncodeFirstFrame pdu = Some frame" and "rcv_state v = receiverIdle"
    and "length pdu \<le> rcv_maxSize v" and "rcv_blockSize v = b" and "rcv_separationTime v = st"
  shows "\<exists>v'. ProcessFrameR now frame v =
      (v', [ReceiverTransmit (cts b st) (FcSent continueToSend (rcv_reception v'))]) \<and>
    receiver_at pdu b st 0 v'"
  using assms first_frame_decodes [OF ff]
  by (simp add: ProcessFrameR_def HandleFirstFrame_def EndSupersededReception_def Let_def
      sfMaxPayloadBytes_def ffFirstDataOffset_def receiver_at_def SendFlowControl_def cts_def)

lemma receiver_sf:
  assumes "0 < length pdu" and "length pdu \<le> 7" and "rcv_state v = receiverIdle"
    and "length pdu \<le> rcv_maxSize v"
  shows "\<exists>v'. ProcessFrameR now (of_nat (length pdu) # pdu) v = (v', [PduReady pdu]) \<and>
    rcv_state v' = receiverIdle \<and> rcv_maxSize v' = rcv_maxSize v"
proof -
  have enc: "EncodeSingleFrame pdu = Some (of_nat (length pdu) # pdu)"
    using assms by (simp add: EncodeSingleFrame_Some)
  note dec = single_frame_decodes [OF enc]
  let ?len = "DecodeSingleFrameLength (of_nat (length pdu) # pdu)"
  have "?len \<noteq> 0" "\<not> ?len > of_nat sfMaxPayloadBytes" "\<not> ?len > of_nat (length pdu)"
    using dec(2,5,6) by (auto simp: word_less_nat_alt unat_of_nat_small sfMaxPayloadBytes_def)
  with assms dec show ?thesis
    by (simp add: ProcessFrameR_def HandleSingleFrame_def EndSupersededReception_def Let_def)
qed

text \<open>A sender that is about to send consecutive frame \<open>i\<close>.\<close>

definition cf_due :: "bytes \<Rightarrow> u8 \<Rightarrow> u8 \<Rightarrow> u8 \<Rightarrow> nat \<Rightarrow> nat \<Rightarrow> unit sender \<Rightarrow> bool" where
  "cf_due pdu b st tr i c s \<longleftrightarrow>
     snd_pdu s = pdu \<and> unat (snd_bytesSent s) = 6 + 7 * i \<and> 6 + 7 * i < length pdu \<and>
     length pdu \<le> 4095 \<and> snd_transfer s = tr \<and> snd_onDone s = Some () \<and>
     snd_sequenceNumber s = of_nat (Suc i) AND 0x0F \<and> snd_state s = sendingCf \<and>
     1 \<le> c \<and> (b = 0 \<longrightarrow> c = 1) \<and> snd_blockSize s = b \<and> snd_stMinByte s = st \<and>
     (b \<noteq> 0 \<longrightarrow> unat b * (c - 1) \<le> i \<and> i < unat b * c \<and>
        unat (snd_blocksRemaining s) = unat b * c - i) \<and>
     snd_nAsTimer s = None \<and> snd_stMinTimer s = None"

definition sent_cf :: "bytes \<Rightarrow> u8 \<Rightarrow> u8 \<Rightarrow> u8 \<Rightarrow> nat \<Rightarrow> nat \<Rightarrow> unit sender \<times> unit sender_effect list \<Rightarrow> bool" where
  "sent_cf pdu b st tr i c result \<longleftrightarrow>
     (case result of (s', e) \<Rightarrow>
        sender_at pdu b st tr (Suc i) c s' \<and> snd_state s' \<noteq> senderIdle \<and>
        snd_stMinTimer s' = None \<and>
        e = [SenderTransmit (cf_of pdu i)
               (if snd_nAsTimer s' = None then AwaitFcSent tr
                else CfSent (length pdu \<le> 6 + 7 * Suc i) tr)])"

lemma sender_cf:
  assumes "cf_due pdu b st tr i c s"
  shows "sent_cf pdu b st tr i c (SendNextConsecutiveFrame now s)"
proof -
  have facts: "snd_pdu s = pdu" "unat (snd_bytesSent s) = 6 + 7 * i" "6 + 7 * i < length pdu"
      "length pdu \<le> 4095" "snd_transfer s = tr" "snd_onDone s = Some ()"
      "snd_sequenceNumber s = of_nat (Suc i) AND 0x0F" "snd_state s = sendingCf" "1 \<le> c"
      "b = 0 \<longrightarrow> c = 1" "snd_blockSize s = b" "snd_stMinByte s = st"
      "snd_nAsTimer s = None" "snd_stMinTimer s = None"
    using assms by (simp_all add: cf_due_def)
  have block: "unat b * (c - 1) \<le> i" "i < unat b * c" "unat (snd_blocksRemaining s) = unat b * c - i"
    if "b \<noteq> 0" using that assms by (simp_all add: cf_due_def)
  have seq: "snd_sequenceNumber (after_cf s) = of_nat (Suc (Suc i)) AND 0x0F"
    by (simp only: after_cf_def facts nibble_Suc) simp
  have bytes: "unat (snd_bytesSent (after_cf s)) = min (6 + 7 * Suc i) (length pdu)"
    using facts by (simp add: unat_after_cf)
  have frame: "cf_frame s = cf_of pdu i"
    by (simp only: cf_frame_def cf_of_def facts snMask_def nibble_idem)
  have one: "snd_blocksRemaining s \<le> 1 \<longleftrightarrow> Suc i = unat b * c" if "b \<noteq> 0"
    using block [OF that] by (auto simp: word_le_nat_alt)
  have rem: "unat (snd_blocksRemaining s - 1) = unat b * c - Suc i" if "b \<noteq> 0"
  proof -
    have "unat (snd_blocksRemaining s) \<noteq> 0" using block [OF that] by simp
    then have "snd_blocksRemaining s \<noteq> 0" by auto
    then show ?thesis using block [OF that] by (simp add: unat_minus_one)
  qed
  have small: "length (snd_pdu s) \<le> 4095" "unat (snd_bytesSent s) \<le> length (snd_pdu s)"
    using facts by simp_all
  show ?thesis
  proof (cases "b = 0")
    case True
    then show ?thesis
      using facts seq bytes frame
      by (auto simp: SendNextConsecutiveFrame_eq [OF small] sent_cf_def Let_def sender_at_def
          StartNAsTimer_def)
  next
    case False
    then show ?thesis
      using facts seq bytes frame block [OF False] one [OF False] rem [OF False]
      by (auto simp: SendNextConsecutiveFrame_eq [OF small] sent_cf_def Let_def sender_at_def
          StartNAsTimer_def StartNBsTimer_def)
  qed
qed

text \<open>Scheduling either sends at once or arms the separation timer.\<close>

definition scheduled :: "bytes \<Rightarrow> u8 \<Rightarrow> u8 \<Rightarrow> u8 \<Rightarrow> nat \<Rightarrow> nat \<Rightarrow> unit sender \<times> unit sender_effect list \<Rightarrow> bool" where
  "scheduled pdu b st tr i c result \<longleftrightarrow> sent_cf pdu b st tr i c result \<or>
     (case result of (s', e) \<Rightarrow> e = [] \<and> sender_at pdu b st tr i c s' \<and>
        snd_state s' = sendingCf \<and> snd_nAsTimer s' = None \<and> 6 + 7 * i < length pdu)"

lemma sender_schedules:
  assumes "cf_due pdu b st tr i c s"
  shows "scheduled pdu b st tr i c (ScheduleNextCf now s)"
proof (cases "StMinToDuration (snd_stMinByte s) > 0")
  case True
  then show ?thesis
    using assms
    by (auto simp: scheduled_def ScheduleNextCf_def Let_def sender_at_def cf_due_def)
next
  case False
  then show ?thesis
    using sender_cf [OF assms, of now] by (simp add: scheduled_def ScheduleNextCf_def)
qed

lemma sender_gets_cts:
  assumes "sender_at pdu b st tr i c s" and "snd_state s = waitingForFc"
    and "length pdu \<le> 4095" and "b = 0 \<longrightarrow> c = 0"
  shows "scheduled pdu b st tr i (Suc c) (ProcessFlowControl now (cts b st) s)"
proof -
  have "cf_due pdu b st tr i (Suc c) (s\<lparr>snd_waitCount := 0, snd_nBsTimer := None,
      snd_blockSize := b, snd_blocksRemaining := b, snd_stMinByte := st, snd_state := sendingCf\<rparr>)"
    using assms by (auto simp: sender_at_def cf_due_def unat_gt_0)
  from sender_schedules [OF this, of now] assms(2) show ?thesis
    by (simp add: ProcessFlowControl_def cts_def flow_control_decodes)
qed

lemma sender_separation_over:
  assumes "sender_at pdu b st tr i c s" and "snd_stMinTimer s \<noteq> None" and "length pdu \<le> 4095"
  shows "sent_cf pdu b st tr i c (StMinExpired now s)"
proof -
  have "cf_due pdu b st tr i c (s\<lparr>snd_stMinTimer := None\<rparr>)"
    using assms by (cases "snd_state s") (auto simp: sender_at_def cf_due_def)
  from sender_cf [OF this] show ?thesis by (simp add: StMinExpired_def)
qed

lemma sender_frame_sent:
  assumes "sender_at pdu b st tr i c s" and "snd_nAsTimer s \<noteq> None" and "length pdu \<le> 4095"
    and "snd_state s \<noteq> senderIdle"
  shows "(if length pdu \<le> 6 + 7 * i
    then \<exists>s'. FrameSendDone now (CfSent (length pdu \<le> 6 + 7 * i) tr) True s = (s', [SenderDone ()]) \<and>
      sender_at pdu b st tr i c s' \<and> snd_state s' = senderIdle
    else scheduled pdu b st tr i c (FrameSendDone now (CfSent (length pdu \<le> 6 + 7 * i) tr) True s))"
proof -
  have st: "snd_state s = sendingCf" "snd_transfer s = tr" "snd_onDone s = Some ()"
      "snd_stMinTimer s = None"
    using assms by (cases "snd_state s"; auto simp: sender_at_def)+
  show ?thesis
  proof (cases "length pdu \<le> 6 + 7 * i")
    case True
    then show ?thesis
      using assms st by (auto simp: Complete_def Let_def sender_at_def)
  next
    case False
    then have "cf_due pdu b st tr i c (s\<lparr>snd_nAsTimer := None\<rparr>)"
      using assms st by (auto simp: sender_at_def cf_due_def)
    from sender_schedules [OF this, of now] False st show ?thesis by simp
  qed
qed

section \<open>Every step keeps the transfer on its way\<close>

definition receiver_side :: "bytes \<Rightarrow> u8 \<Rightarrow> u8 \<Rightarrow> nat \<Rightarrow> nat \<Rightarrow> nat \<Rightarrow> link \<Rightarrow> bool" where
  "receiver_side pdu b st i r c x \<longleftrightarrow>
     7 < length pdu \<and> length pdu \<le> 4095 \<and> r \<le> i \<and> 7 * i \<le> length pdu \<and>
     receiver_at pdu b st r (lk_receiver x) \<and> lk_fwd x = map (cf_of pdu) [r..<i] \<and>
     (if 6 + 7 * r < length pdu
      then c \<le> emitted (unat b) r \<and> lk_back x = replicate (emitted (unat b) r - c) (cts b st) \<and>
        lk_delivered x = []
      else lk_back x = [] \<and> lk_delivered x = [pdu]) \<and> \<not> lk_aborted x"

definition sender_side :: "bytes \<Rightarrow> u8 \<Rightarrow> u8 \<Rightarrow> u8 \<Rightarrow> nat \<Rightarrow> nat \<Rightarrow> link \<Rightarrow> bool" where
  "sender_side pdu b st tr i c x \<longleftrightarrow> sender_at pdu b st tr i c (lk_sender x) \<and>
     (if snd_nAsTimer (lk_sender x) = None then awaiting tr (lk_sent x)
      else \<exists>cbs. awaiting tr cbs \<and>
        lk_sent x = cbs @ [CfSent (length pdu \<le> 6 + 7 * i) tr]) \<and>
     (snd_state (lk_sender x) = senderIdle \<longrightarrow> lk_sent x = []) \<and>
     lk_done x = (if snd_state (lk_sender x) = senderIdle then 1 else 0)"

lemma segmented_sides:
  "segmented pdu b st tr i r c x \<longleftrightarrow>
     receiver_side pdu b st i r c x \<and> sender_side pdu b st tr i c x"
  unfolding segmented_def receiver_side_def sender_side_def by (auto simp: less_Suc_eq_le)

lemma sender_side_updates [simp]:
  "sender_side pdu b st tr i c (x\<lparr>lk_receiver := v\<rparr>) = sender_side pdu b st tr i c x"
  "sender_side pdu b st tr i c (x\<lparr>lk_fwd := fs\<rparr>) = sender_side pdu b st tr i c x"
  "sender_side pdu b st tr i c (x\<lparr>lk_back := fs\<rparr>) = sender_side pdu b st tr i c x"
  "sender_side pdu b st tr i c (x\<lparr>lk_fcSent := cbs\<rparr>) = sender_side pdu b st tr i c x"
  "sender_side pdu b st tr i c (x\<lparr>lk_delivered := ps\<rparr>) = sender_side pdu b st tr i c x"
  by (simp_all add: sender_side_def)

lemma receiver_side_updates [simp]:
  "receiver_side pdu b st i r c (x\<lparr>lk_sender := s\<rparr>) = receiver_side pdu b st i r c x"
  "receiver_side pdu b st i r c (x\<lparr>lk_sent := cbs'\<rparr>) = receiver_side pdu b st i r c x"
  "receiver_side pdu b st i r c (x\<lparr>lk_fcSent := cbs\<rparr>) = receiver_side pdu b st i r c x"
  "receiver_side pdu b st i r c (x\<lparr>lk_done := n\<rparr>) = receiver_side pdu b st i r c x"
  by (simp_all add: receiver_side_def)

lemma awaiting_snoc: "awaiting tr cbs \<Longrightarrow> awaiting tr (cbs @ [AwaitFcSent tr])"
  unfolding awaiting_def by (metis replicate_append_same replicate_Suc)

lemma awaiting_Cons: "awaiting tr (cb # rest) \<Longrightarrow> cb = AwaitFcSent tr \<and> awaiting tr rest"
  unfolding awaiting_def by (auto simp: Cons_replicate_eq)

lemma segmented_scheduled:
  assumes r: "receiver_side pdu b st i r c x" and s: "scheduled pdu b st tr i c result"
    and cbs: "awaiting tr (lk_sent x)" and d: "lk_done x = 0" and more: "6 + 7 * i < length pdu"
  shows "\<exists>i'. segmented pdu b st tr i' r c (sender_does result x)"
proof (cases "sent_cf pdu b st tr i c result")
  case True
  obtain s' e where res: "result = (s', e)" by (cases result) auto
  let ?cb = "if snd_nAsTimer s' = None then AwaitFcSent tr
    else CfSent (length pdu \<le> 6 + 7 * Suc i) tr"
  have s': "sender_at pdu b st tr (Suc i) c s'" "snd_state s' \<noteq> senderIdle"
      "e = [SenderTransmit (cf_of pdu i) ?cb]"
    using True res by (simp_all add: sent_cf_def)
  let ?y = "sender_does result x"
  have y: "?y = x\<lparr>lk_sender := s', lk_fwd := lk_fwd x @ [cf_of pdu i], lk_sent := lk_sent x @ [?cb]\<rparr>"
    by (simp add: sender_does_def res s'(3))
  have "receiver_side pdu b st (Suc i) r c ?y"
    using r more unfolding y by (simp add: receiver_side_def)
  moreover have "sender_side pdu b st tr (Suc i) c ?y"
    using s'(1,2) cbs d awaiting_snoc [OF cbs] unfolding y by (auto simp: sender_side_def)
  ultimately show ?thesis by (auto simp: segmented_sides)
next
  case False
  obtain s' e where res: "result = (s', e)" by (cases result) auto
  then have s': "e = []" "sender_at pdu b st tr i c s'" "snd_state s' = sendingCf"
      "snd_nAsTimer s' = None"
    using s False by (simp_all add: scheduled_def)
  have "segmented pdu b st tr i r c (sender_does result x)"
    using r cbs d s' by (simp add: segmented_sides receiver_side_def sender_side_def sender_does_def res)
  then show ?thesis by blast
qed

text \<open>A sender that is not waiting has consumed all flow controls there are.\<close>

lemma not_waiting_consumed:
  assumes "sender_at pdu b st tr i c s" and "snd_state s \<noteq> waitingForFc"
    and "r \<le> i" and "6 + 7 * r < length pdu"
  shows "emitted (unat b) r \<le> c"
proof (cases "b = 0")
  case True
  then show ?thesis using assms by (cases "snd_state s") (auto simp: sender_at_def emitted_def)
next
  case False
  have "r < unat b * c"
    using assms False
    by (cases "snd_state s"; cases "6 + 7 * i < length pdu") (auto simp: sender_at_def)
  then have "r div unat b < c" by (simp add: less_mult_imp_div_less mult.commute)
  with False show ?thesis by (simp add: emitted_def)
qed

lemma emitted_Suc:
  "emitted b (Suc r) = emitted b r + (if b \<noteq> 0 \<and> Suc r mod b = 0 then 1 else 0)"
  by (auto simp: emitted_def div_Suc)

lemma segmented_frame_arrives:
  assumes x: "segmented pdu b st tr i r c x" and f: "lk_fwd x = f # rest"
  shows "segmented pdu b st tr i (Suc r) c
    (receiver_does (ProcessFrameR now f (lk_receiver x)) (x\<lparr>lk_fwd := rest\<rparr>))"
proof -
  note sides = x [unfolded segmented_sides]
  have fwd: "f # rest = map (cf_of pdu) [r..<i]"
    using sides f by (simp add: receiver_side_def)
  then have "r < i" by (cases "r < i") auto
  with fwd have head: "f = cf_of pdu r" "rest = map (cf_of pdu) [Suc r..<i]"
    by (simp_all add: upt_conv_Cons)
  have len: "6 + 7 * r < length pdu" "length pdu \<le> 4095"
    using sides \<open>r < i\<close> by (auto simp: receiver_side_def)
  obtain v' e where step: "ProcessFrameR now f (lk_receiver x) = (v', e)"
    and at: "receiver_at pdu b st (Suc r) v'"
    and e: "e = (if length pdu \<le> 6 + 7 * Suc r then [PduReady pdu]
         else if b \<noteq> 0 \<and> Suc r mod unat b = 0
         then [ReceiverTransmit (cts b st) (FcSent continueToSend (rcv_reception (lk_receiver x)))]
         else [])"
    using receiver_cf [of pdu b st r "lk_receiver x" now] sides len head
    by (auto simp: receiver_side_def)
  have y: "receiver_does (ProcessFrameR now f (lk_receiver x)) (x\<lparr>lk_fwd := rest\<rparr>)
      = fold receiver_out e (x\<lparr>lk_fwd := rest, lk_receiver := v'\<rparr>)"
    by (simp add: receiver_does_def step)
  have base: "c \<le> emitted (unat b) r" "lk_back x = replicate (emitted (unat b) r - c) (cts b st)"
      "lk_delivered x = []"
    using sides len by (simp_all add: receiver_side_def)
  have "segmented pdu b st tr i (Suc r) c
      (fold receiver_out e (x\<lparr>lk_fwd := rest, lk_receiver := v'\<rparr>))"
  proof (cases "length pdu \<le> 6 + 7 * Suc r")
    case True
    have "i = Suc r" using True sides \<open>r < i\<close> by (auto simp: receiver_side_def)
    then have "snd_state (lk_sender x) \<noteq> waitingForFc"
      using True sides by (auto simp: sender_side_def sender_at_def)
    from not_waiting_consumed [OF _ this _ len(1), of b st tr i c] sides \<open>r < i\<close> base
    have "lk_back x = []" by (simp add: sender_side_def)
    with True e sides at head base \<open>r < i\<close> show ?thesis
      by (simp add: segmented_sides receiver_side_def)
  next
    case False
    have emitted: "emitted (unat b) (Suc r) = emitted (unat b) r +
        (if b \<noteq> 0 \<and> Suc r mod unat b = 0 then 1 else 0)"
      by (simp add: emitted_Suc)
    show ?thesis
    proof (cases "b \<noteq> 0 \<and> Suc r mod unat b = 0")
      case True
      then have "emitted (unat b) (Suc r) - c = Suc (emitted (unat b) r - c)"
        using base(1) emitted by simp
      then have "lk_back x @ [cts b st] = replicate (emitted (unat b) (Suc r) - c) (cts b st)"
        using base(2) by (simp add: replicate_append_same)
      with False True e sides at head base emitted \<open>r < i\<close> show ?thesis
        by (simp add: segmented_sides receiver_side_def)
    next
      case none: False
      then have "emitted (unat b) (Suc r) = emitted (unat b) r" using emitted by simp
      with False none e sides at head base \<open>r < i\<close> show ?thesis
        by (simp add: segmented_sides receiver_side_def)
    qed
  qed
  then show ?thesis by (simp only: y)
qed

lemma segmented_flow_control_arrives:
  assumes x: "segmented pdu b st tr i r c x" and f: "lk_back x = f # rest"
  shows "\<exists>i'. segmented pdu b st tr i' r (Suc c)
    (sender_does (ProcessFlowControl now f (lk_sender x)) (x\<lparr>lk_back := rest\<rparr>))"
proof -
  note sides = x [unfolded segmented_sides]
  have len: "6 + 7 * r < length pdu" "r \<le> i" "length pdu \<le> 4095"
    and base: "c \<le> emitted (unat b) r" "lk_back x = replicate (emitted (unat b) r - c) (cts b st)"
    using sides f by (auto simp: receiver_side_def split: if_splits)
  have "f # rest = replicate (emitted (unat b) r - c) (cts b st)" using base(2) f by simp
  then have fc: "f = cts b st" and less: "c < emitted (unat b) r"
    and rest: "rest = replicate (emitted (unat b) r - Suc c) (cts b st)"
    by (auto simp: Cons_replicate_eq)
  have at: "sender_at pdu b st tr i c (lk_sender x)" using sides by (simp add: sender_side_def)
  have waiting: "snd_state (lk_sender x) = waitingForFc"
    using not_waiting_consumed [OF at _ len(2,1)] less by fastforce
  have more: "6 + 7 * i < length pdu" "snd_nAsTimer (lk_sender x) = None" "b = 0 \<longrightarrow> c = 0"
    using at waiting by (auto simp: sender_at_def)
  let ?x = "x\<lparr>lk_back := rest\<rparr>"
  have "receiver_side pdu b st i r (Suc c) ?x"
    using sides len less rest by (simp add: receiver_side_def)
  moreover have "scheduled pdu b st tr i (Suc c) (ProcessFlowControl now f (lk_sender x))"
    unfolding fc by (rule sender_gets_cts [OF at waiting len(3) more(3)])
  moreover have "awaiting tr (lk_sent ?x)" "lk_done ?x = 0"
    using sides more waiting by (simp_all add: sender_side_def)
  ultimately show ?thesis by (rule segmented_scheduled [OF _ _ _ _ more(1)])
qed

lemma sender_does_nothing [simp]: "sender_does (s, []) x = x\<lparr>lk_sender := s\<rparr>"
  by (simp add: sender_does_def)

lemma segmented_frame_sent:
  assumes x: "segmented pdu b st tr i r c x" and cb: "lk_sent x = cb # rest"
  shows "\<exists>i'. segmented pdu b st tr i' r c
    (sender_does (FrameSendDone now cb True (lk_sender x)) (x\<lparr>lk_sent := rest\<rparr>))"
proof -
  note sides = x [unfolded segmented_sides]
  have at: "sender_at pdu b st tr i c (lk_sender x)" and active: "snd_state (lk_sender x) \<noteq> senderIdle"
    and small: "length pdu \<le> 4095" and undone: "lk_done x = 0"
    using sides cb by (auto simp: sender_side_def receiver_side_def)
  have rcv: "receiver_side pdu b st i r c (x\<lparr>lk_sent := rest\<rparr>)" using sides by simp
  show ?thesis
  proof (cases "snd_nAsTimer (lk_sender x) = None")
    case True
    then have "cb = AwaitFcSent tr" "awaiting tr rest"
      using sides cb awaiting_Cons [of tr cb rest] by (auto simp: sender_side_def)
    then have "segmented pdu b st tr i r c
        (sender_does (FrameSendDone now cb True (lk_sender x)) (x\<lparr>lk_sent := rest\<rparr>))"
      using sides True active rcv by (simp add: segmented_sides sender_side_def)
    then show ?thesis by blast
  next
    case armed: False
    then obtain cbs where cbs: "awaiting tr cbs"
      "cb # rest = cbs @ [CfSent (length pdu \<le> 6 + 7 * i) tr]"
      using sides cb by (auto simp: sender_side_def)
    show ?thesis
    proof (cases cbs)
      case (Cons a cbs')
      then have "cb = AwaitFcSent tr" "awaiting tr cbs'"
          "rest = cbs' @ [CfSent (length pdu \<le> 6 + 7 * i) tr]"
        using cbs awaiting_Cons [of tr a cbs'] by auto
      then have "segmented pdu b st tr i r c
          (sender_does (FrameSendDone now cb True (lk_sender x)) (x\<lparr>lk_sent := rest\<rparr>))"
        using sides armed active rcv by (auto simp: segmented_sides sender_side_def)
      then show ?thesis by blast
    next
      case Nil
      then have cb': "cb = CfSent (length pdu \<le> 6 + 7 * i) tr" and rest: "rest = []"
        using cbs by auto
      note step = sender_frame_sent [OF at armed small active, of now]
      show ?thesis
      proof (cases "length pdu \<le> 6 + 7 * i")
        case True
        then obtain s' where s': "FrameSendDone now cb True (lk_sender x) = (s', [SenderDone ()])"
          "sender_at pdu b st tr i c s'" "snd_state s' = senderIdle"
          using step cb' by auto
        have "snd_nAsTimer s' = None" using s' by (simp add: sender_at_def)
        then have "segmented pdu b st tr i r c
            (sender_does (FrameSendDone now cb True (lk_sender x)) (x\<lparr>lk_sent := rest\<rparr>))"
          using s' rest rcv undone
          by (simp add: segmented_sides sender_side_def sender_does_def awaiting_def)
        then show ?thesis by blast
      next
        case False
        then have "scheduled pdu b st tr i c (FrameSendDone now cb True (lk_sender x))"
          using step cb' by simp
        moreover have "awaiting tr (lk_sent (x\<lparr>lk_sent := rest\<rparr>))" by (simp add: rest awaiting_def)
        moreover have "lk_done (x\<lparr>lk_sent := rest\<rparr>) = 0" using undone by simp
        ultimately show ?thesis
          using False by (intro segmented_scheduled [OF rcv]) auto
      qed
    qed
  qed
qed

lemma segmented_separation_over:
  assumes x: "segmented pdu b st tr i r c x" and timer: "snd_stMinTimer (lk_sender x) \<noteq> None"
  shows "\<exists>i'. segmented pdu b st tr i' r c (sender_does (StMinExpired now (lk_sender x)) x)"
proof -
  note sides = x [unfolded segmented_sides]
  have at: "sender_at pdu b st tr i c (lk_sender x)" and small: "length pdu \<le> 4095"
    using sides by (simp_all add: sender_side_def receiver_side_def)
  have st: "snd_state (lk_sender x) = sendingCf" "snd_nAsTimer (lk_sender x) = None"
      "6 + 7 * i < length pdu"
    using at timer by (cases "snd_state (lk_sender x)"; auto simp: sender_at_def)+
  have "scheduled pdu b st tr i c (StMinExpired now (lk_sender x))"
    using sender_separation_over [OF at timer small] by (simp add: scheduled_def)
  moreover have "awaiting tr (lk_sent x)" "lk_done x = 0"
    using sides st by (simp_all add: sender_side_def)
  ultimately show ?thesis using sides st(3) by (blast intro: segmented_scheduled)
qed

lemma FcSendDone_sent [simp]: "FcSendDone cb True v = (v, [])"
  by (cases cb) simp

lemma segmented_step:
  assumes "link_step x y" and "segmented pdu b st tr i r c x"
  shows "\<exists>i' r' c'. segmented pdu b st tr i' r' c' y"
  using assms(1)
proof (cases rule: link_step.cases)
  case (frame_arrives f rest now)
  then show ?thesis using segmented_frame_arrives [OF assms(2)] by blast
next
  case (flow_control_arrives f rest now)
  then show ?thesis using segmented_flow_control_arrives [OF assms(2)] by blast
next
  case (frame_sent cb rest now)
  then show ?thesis using segmented_frame_sent [OF assms(2)] by blast
next
  case (flow_control_sent cb rest)
  then have "segmented pdu b st tr i r c y"
    using assms(2) by (simp add: segmented_sides receiver_does_def receiver_side_def)
  then show ?thesis by blast
next
  case (separation_over now)
  then show ?thesis using segmented_separation_over [OF assms(2)] by blast
qed

lemma announced_step:
  assumes "link_step x y" and x: "announced pdu b st tr x"
  shows "announced pdu b st tr y \<or> segmented pdu b st tr 0 0 0 y"
  using assms(1)
proof (cases rule: link_step.cases)
  case (frame_arrives f rest now)
  then have ff: "EncodeFirstFrame pdu = Some f" and rest: "rest = []"
    using x by (auto simp: announced_def)
  obtain v' where v': "ProcessFrameR now f (lk_receiver x) =
      (v', [ReceiverTransmit (cts b st) (FcSent continueToSend (rcv_reception v'))])"
    "receiver_at pdu b st 0 v'"
    using receiver_ff [OF ff, of "lk_receiver x" b st now] x by (auto simp: announced_def)
  have "snd_nAsTimer (lk_sender x) = None" "snd_state (lk_sender x) = waitingForFc"
    using x by (auto simp: announced_def sender_at_def)
  then have "segmented pdu b st tr 0 0 0 y"
    using frame_arrives x v' rest
    by (simp add: announced_def segmented_def receiver_does_def emitted_def)
  then show ?thesis ..
next
  case (flow_control_arrives f rest now)
  with x show ?thesis by (simp add: announced_def)
next
  case (frame_sent cb rest now)
  with x have "cb = AwaitFcSent tr" "awaiting tr rest"
    using awaiting_Cons [of tr cb rest] by (auto simp: announced_def)
  with frame_sent x have "announced pdu b st tr y" by (simp add: announced_def)
  then show ?thesis ..
next
  case (flow_control_sent cb rest)
  with x show ?thesis by (simp add: announced_def)
next
  case (separation_over now)
  with x show ?thesis by (auto simp: announced_def sender_at_def)
qed

lemma single_step:
  assumes "link_step x y" and x: "single pdu tr x"
  shows "single pdu tr y"
  using assms(1)
proof (cases rule: link_step.cases)
  case (frame_arrives f rest now)
  with x have f: "f = of_nat (length pdu) # pdu" "rest = []" "lk_delivered x = []"
    by (auto simp: single_def)
  obtain v' where "ProcessFrameR now f (lk_receiver x) = (v', [PduReady pdu])"
    "rcv_state v' = receiverIdle" "rcv_maxSize v' = rcv_maxSize (lk_receiver x)"
    using receiver_sf [of pdu "lk_receiver x" now] x f by (auto simp: single_def)
  with frame_arrives f x show ?thesis by (simp add: single_def receiver_does_def)
next
  case (flow_control_arrives f rest now)
  with x show ?thesis by (simp add: single_def)
next
  case (frame_sent cb rest now)
  with x have "cb = SfSent tr" "rest = []" "snd_transfer (lk_sender x) = tr"
      "snd_onDone (lk_sender x) = Some ()"
    by (auto simp: single_def)
  with frame_sent x show ?thesis by (auto simp: single_def sender_does_def Complete_def Let_def)
next
  case (flow_control_sent cb rest)
  with x show ?thesis by (simp add: single_def)
next
  case (separation_over now)
  with x show ?thesis by (simp add: single_def)
qed

section \<open>Safety and progress\<close>

definition on_its_way :: "bytes \<Rightarrow> link \<Rightarrow> bool" where
  "on_its_way pdu x \<longleftrightarrow>
     (\<exists>tr. single pdu tr x) \<or> (\<exists>b st tr. announced pdu b st tr x) \<or>
     (\<exists>b st tr i r c. segmented pdu b st tr i r c x)"

lemma on_its_way_step: "link_step x y \<Longrightarrow> on_its_way pdu x \<Longrightarrow> on_its_way pdu y"
  unfolding on_its_way_def using single_step announced_step segmented_step by metis

lemma on_its_way_reachable:
  assumes "link_step\<^sup>*\<^sup>* x y" and "on_its_way pdu x"
  shows "on_its_way pdu y"
  using assms by (induction rule: rtranclp_induct) (auto intro: on_its_way_step)

lemma on_its_way_safe:
  "on_its_way pdu x \<Longrightarrow> \<not> lk_aborted x \<and> lk_delivered x \<in> {[], [pdu]} \<and> lk_done x \<le> 1"
  unfolding on_its_way_def
  by (auto simp: single_def announced_def segmented_def split: if_splits)

definition complete :: "bytes \<Rightarrow> link \<Rightarrow> bool" where
  "complete pdu x \<longleftrightarrow> lk_delivered x = [pdu] \<and> lk_done x = 1 \<and> \<not> lk_aborted x \<and>
     IsIdleS (lk_sender x) \<and> IsIdleR (lk_receiver x)"

lemma stuck_empty:
  assumes "\<nexists>y. link_step x y"
  shows "lk_fwd x = []" "lk_back x = []" "lk_sent x = []" "snd_stMinTimer (lk_sender x) = None"
  using assms link_step.intros by (metis neq_Nil_conv)+

lemma segmented_stuck:
  assumes x: "segmented pdu b st tr i r c x" and stuck: "\<nexists>y. link_step x y"
  shows "complete pdu x"
proof -
  note empty = stuck_empty [OF stuck] and sides = x [unfolded segmented_sides]
  have at: "sender_at pdu b st tr i c (lk_sender x)" and "r \<le> i" "\<not> r < i"
    using sides empty by (auto simp: sender_side_def receiver_side_def)
  then have r: "r = i" by simp
  have nAs: "snd_nAsTimer (lk_sender x) = None"
    using sides empty by (auto simp: sender_side_def split: if_splits)
  have "snd_state (lk_sender x) \<noteq> waitingForFc"
  proof
    assume w: "snd_state (lk_sender x) = waitingForFc"
    then have i: "i = unat b * c" "6 + 7 * i < length pdu" "b = 0 \<Longrightarrow> c = 0"
      using at by (auto simp: sender_at_def)
    have "emitted (unat b) r \<le> c"
      using sides empty r i by (simp add: receiver_side_def)
    moreover have "emitted (unat b) r = Suc c"
      using i r by (cases "unat b = 0") (auto simp: emitted_def word_unat_eq_iff)
    ultimately show False by simp
  qed
  then have idle: "snd_state (lk_sender x) = senderIdle" "length pdu \<le> 6 + 7 * i"
    using at nAs empty by (cases "snd_state (lk_sender x)"; auto simp: sender_at_def)+
  then show ?thesis
    using sides r
    by (simp add: complete_def receiver_side_def sender_side_def IsIdleS_def IsIdleR_def receiver_at_def)
qed

lemma on_its_way_stuck:
  assumes "on_its_way pdu x" and stuck: "\<nexists>y. link_step x y"
  shows "complete pdu x"
proof -
  have "complete pdu x" if "single pdu tr x" for tr
    using that stuck_empty [OF stuck] by (auto simp: single_def complete_def IsIdleS_def IsIdleR_def)
  moreover have False if "announced pdu b st tr x" for b st tr
    using that stuck_empty [OF stuck] by (auto simp: announced_def)
  ultimately show ?thesis
    using assms segmented_stuck unfolding on_its_way_def by blast
qed

lemma link_start_on_its_way:
  assumes "link_start now pdu s v = Some x" and "snd_inv s" and "rcv_state v = receiverIdle"
    and "length pdu \<le> rcv_maxSize v"
  shows "on_its_way pdu x"
proof -
  obtain s' e where send: "SendS now pdu () s = Some (True, s', e)"
    and x: "x = sender_does (s', e) \<lparr>lk_sender = s, lk_receiver = v, lk_fwd = [], lk_back = [],
      lk_sent = [], lk_fcSent = [], lk_delivered = [], lk_done = 0, lk_aborted = False\<rparr>"
    using assms(1) by (auto simp: link_start_def split: option.splits prod.splits bool.splits)
  have pdu: "0 < length pdu" "length pdu \<le> 4095" "snd_state s = senderIdle"
    using send by (auto simp: SendS_def ffMaxPduLength_def split: if_splits)
  have timers: "snd_nAsTimer s = None" "snd_stMinTimer s = None"
    using assms(2) pdu by (simp_all add: snd_inv_def)
  show ?thesis
  proof (cases "length pdu \<le> 7")
    case True
    then have "single pdu (snd_transfer s + 1) x"
      using send pdu timers assms(3,4) unfolding x
      by (auto simp: SendS_def SendFirstOrSingleFrame_def EncodeSingleFrame_Some sfMaxPayloadBytes_def
          single_def sender_does_def StartNAsTimer_def split: if_splits)
    then show ?thesis by (auto simp: on_its_way_def)
  next
    case False
    obtain frame where frame: "EncodeFirstFrame pdu = Some frame"
      using False pdu by (auto simp: EncodeFirstFrame_def iso_constants Let_def)
    have one: "(1 :: u8) AND 0x0F = 1" by simp
    have "announced pdu (rcv_blockSize v) (rcv_separationTime v) (snd_transfer s + 1) x"
      using send pdu timers assms(3,4) False frame one unfolding x
      by (auto simp: SendS_def SendFirstOrSingleFrame_def sfMaxPayloadBytes_def ffFirstDataBytes_def
          announced_def sender_does_def StartNBsTimer_def sender_at_def awaiting_def
          split: if_splits intro: exI [of _ "1 :: nat"])
    then show ?thesis by (auto simp: on_its_way_def)
  qed
qed

section \<open>Termination\<close>

definition cfs_left :: "unit sender \<Rightarrow> nat" where
  "cfs_left s =
     (if snd_state s \<in> {waitingForFc, sendingCf}
      then (length (snd_pdu s) - unat (snd_bytesSent s) + 6) div 7 else 0)"

definition sender_work :: "unit sender \<Rightarrow> nat" where
  "sender_work s = 6 * cfs_left s + (if snd_stMinTimer s = None then 0 else 1)"

definition link_work :: "link \<Rightarrow> nat" where
  "link_work x = sender_work (lk_sender x) + 4 * length (lk_fwd x) + 2 * length (lk_back x) +
     2 * length (lk_sent x) + length (lk_fcSent x)"

lemma cfs_left_step:
  assumes "6 + 7 * i < n"
  shows "(n - min (6 + 7 * i) n + 6) div 7 = Suc ((n - min (6 + 7 * Suc i) n + 6) div 7)"
  using assms by (cases "6 + 7 * Suc i \<le> n") (auto simp: min_def)

lemma scheduled_work:
  assumes res: "scheduled pdu b st tr i c result" and more: "6 + 7 * i < length pdu"
  shows "link_work (sender_does result x) \<le>
    6 * ((length pdu - (6 + 7 * i) + 6) div 7) + 1 + 4 * length (lk_fwd x) +
    2 * length (lk_back x) + 2 * length (lk_sent x) + length (lk_fcSent x)"
    and "sent_cf pdu b st tr i c result \<Longrightarrow> link_work (sender_does result x) \<le>
    6 * ((length pdu - (6 + 7 * i) + 6) div 7) + 4 * length (lk_fwd x) +
    2 * length (lk_back x) + 2 * length (lk_sent x) + length (lk_fcSent x)"
proof -
  obtain s' e where r: "result = (s', e)" by (cases result) auto
  show sent: "link_work (sender_does result x) \<le>
    6 * ((length pdu - (6 + 7 * i) + 6) div 7) + 4 * length (lk_fwd x) +
    2 * length (lk_back x) + 2 * length (lk_sent x) + length (lk_fcSent x)"
    if "sent_cf pdu b st tr i c result"
  proof -
    have s': "snd_pdu s' = pdu" "unat (snd_bytesSent s') = min (6 + 7 * Suc i) (length pdu)"
        "snd_stMinTimer s' = None"
      and e: "\<exists>cb. e = [SenderTransmit (cf_of pdu i) cb]"
      using that r by (auto simp: sent_cf_def sender_at_def)
    have "cfs_left s' \<le> (length pdu - min (6 + 7 * Suc i) (length pdu) + 6) div 7"
      using s' by (simp add: cfs_left_def)
    then show ?thesis
      using e r s' cfs_left_step [OF more] more
      by (auto simp: link_work_def sender_work_def sender_does_def)
  qed
  have "link_work (sender_does result x) \<le>
    6 * ((length pdu - (6 + 7 * i) + 6) div 7) + 1 + 4 * length (lk_fwd x) +
    2 * length (lk_back x) + 2 * length (lk_sent x) + length (lk_fcSent x)"
    if "\<not> sent_cf pdu b st tr i c result"
  proof -
    have s': "snd_pdu s' = pdu" "unat (snd_bytesSent s') = 6 + 7 * i" "e = []"
      using that res r more by (auto simp: scheduled_def sender_at_def)
    then show ?thesis
      using r by (simp add: link_work_def sender_work_def cfs_left_def sender_does_def)
  qed
  with sent show "link_work (sender_does result x) \<le>
    6 * ((length pdu - (6 + 7 * i) + 6) div 7) + 1 + 4 * length (lk_fwd x) +
    2 * length (lk_back x) + 2 * length (lk_sent x) + length (lk_fcSent x)"
    by (cases "sent_cf pdu b st tr i c result") simp_all
qed

lemma segmented_work:
  assumes step: "link_step x y" and x: "segmented pdu b st tr i r c x"
  shows "link_work y < link_work x"
  using step
proof (cases rule: link_step.cases)
  case (frame_arrives f rest now)
  note sides = x [unfolded segmented_sides]
  have fwd: "f # rest = map (cf_of pdu) [r..<i]"
    using sides frame_arrives by (simp add: receiver_side_def)
  then have "r < i" by (cases "r < i") auto
  with fwd have f: "f = cf_of pdu r" by (simp add: upt_conv_Cons)
  have "6 + 7 * r < length pdu" "length pdu \<le> 4095"
    using sides \<open>r < i\<close> by (auto simp: receiver_side_def)
  with receiver_cf [of pdu b st r "lk_receiver x" now] sides f
  obtain v' e where v': "ProcessFrameR now f (lk_receiver x) = (v', e)"
    and e: "e = (if length pdu \<le> 6 + 7 * Suc r then [PduReady pdu]
         else if b \<noteq> 0 \<and> Suc r mod unat b = 0
         then [ReceiverTransmit (cts b st) (FcSent continueToSend (rcv_reception (lk_receiver x)))]
         else [])"
    by (auto simp: receiver_side_def)
  have y: "y = fold receiver_out e (x\<lparr>lk_fwd := rest, lk_receiver := v'\<rparr>)"
    using frame_arrives v' by (simp add: receiver_does_def)
  show ?thesis
    using frame_arrives(2) unfolding y e by (simp add: link_work_def)
next
  case (flow_control_arrives f rest now)
  note sides = x [unfolded segmented_sides]
  have len: "6 + 7 * r < length pdu" "r \<le> i" "length pdu \<le> 4095"
    and base: "lk_back x = replicate (emitted (unat b) r - c) (cts b st)"
    using sides flow_control_arrives by (auto simp: receiver_side_def split: if_splits)
  have "f # rest = replicate (emitted (unat b) r - c) (cts b st)"
    using base flow_control_arrives by simp
  then have fc: "f = cts b st" and less: "c < emitted (unat b) r"
    by (auto simp: Cons_replicate_eq)
  have at: "sender_at pdu b st tr i c (lk_sender x)" using sides by (simp add: sender_side_def)
  have waiting: "snd_state (lk_sender x) = waitingForFc"
    using not_waiting_consumed [OF at _ len(2,1)] less by fastforce
  have more: "6 + 7 * i < length pdu" "b = 0 \<longrightarrow> c = 0"
    using at waiting by (auto simp: sender_at_def)
  have work: "sender_work (lk_sender x) = 6 * ((length pdu - (6 + 7 * i) + 6) div 7)"
    using at waiting more by (simp add: sender_work_def cfs_left_def sender_at_def)
  have "scheduled pdu b st tr i (Suc c) (ProcessFlowControl now f (lk_sender x))"
    unfolding fc by (rule sender_gets_cts [OF at waiting len(3) more(2)])
  from scheduled_work(1) [OF this more(1), of "x\<lparr>lk_back := rest\<rparr>"] show ?thesis
    using flow_control_arrives work by (simp add: link_work_def [of x])
next
  case (frame_sent cb rest now)
  note sides = x [unfolded segmented_sides]
  have at: "sender_at pdu b st tr i c (lk_sender x)" and active: "snd_state (lk_sender x) \<noteq> senderIdle"
    and small: "length pdu \<le> 4095"
    using sides frame_sent by (auto simp: sender_side_def receiver_side_def)
  have await: "link_work y < link_work x" if "cb = AwaitFcSent tr"
    using that frame_sent by (simp add: link_work_def)
  show ?thesis
  proof (cases "snd_nAsTimer (lk_sender x) = None \<or> cb = AwaitFcSent tr")
    case True
    then show ?thesis
      using sides frame_sent awaiting_Cons [of tr cb rest] await by (auto simp: sender_side_def)
  next
    case False
    then obtain cbs where cbs: "awaiting tr cbs"
      "cb # rest = cbs @ [CfSent (length pdu \<le> 6 + 7 * i) tr]"
      using sides frame_sent by (auto simp: sender_side_def)
    then have cb: "cb = CfSent (length pdu \<le> 6 + 7 * i) tr"
      using False awaiting_Cons by (cases cbs) auto
    have armed: "snd_nAsTimer (lk_sender x) \<noteq> None" using False by simp
    have st: "snd_state (lk_sender x) = sendingCf" "snd_stMinTimer (lk_sender x) = None"
      using at armed by (cases "snd_state (lk_sender x)"; auto simp: sender_at_def)+
    note done_step = sender_frame_sent [OF at armed small active, of now]
    show ?thesis
    proof (cases "length pdu \<le> 6 + 7 * i")
      case True
      then obtain s' where s': "FrameSendDone now cb True (lk_sender x) = (s', [SenderDone ()])"
          "sender_at pdu b st tr i c s'" "snd_state s' = senderIdle"
        using done_step cb by auto
      then have "sender_work s' = 0" by (simp add: sender_work_def cfs_left_def sender_at_def)
      then show ?thesis
        using frame_sent s' by (simp add: link_work_def sender_does_def)
    next
      case False
      then have more: "6 + 7 * i < length pdu" by simp
      have work: "sender_work (lk_sender x) = 6 * ((length pdu - (6 + 7 * i) + 6) div 7)"
        using at st more by (simp add: sender_work_def cfs_left_def sender_at_def)
      have "scheduled pdu b st tr i c (FrameSendDone now cb True (lk_sender x))"
        using done_step cb False by simp
      from scheduled_work(1) [OF this more, of "x\<lparr>lk_sent := rest\<rparr>"] show ?thesis
        using frame_sent work by (simp add: link_work_def [of x])
    qed
  qed
next
  case (flow_control_sent cb rest)
  then show ?thesis by (simp add: link_work_def receiver_does_def)
next
  case (separation_over now)
  note sides = x [unfolded segmented_sides]
  have at: "sender_at pdu b st tr i c (lk_sender x)" and small: "length pdu \<le> 4095"
    using sides by (simp_all add: sender_side_def receiver_side_def)
  have st: "snd_state (lk_sender x) = sendingCf" "6 + 7 * i < length pdu"
    using at separation_over by (cases "snd_state (lk_sender x)"; auto simp: sender_at_def)+
  have sent: "sent_cf pdu b st tr i c (StMinExpired now (lk_sender x))"
    by (rule sender_separation_over [OF at separation_over(2) small])
  have work: "sender_work (lk_sender x) = 6 * ((length pdu - (6 + 7 * i) + 6) div 7) + 1"
    using at st separation_over by (simp add: sender_work_def cfs_left_def sender_at_def)
  show ?thesis
    using scheduled_work(2) [OF _ st(2) sent, of x] sent separation_over work
    by (simp add: link_work_def [of x] scheduled_def)
qed

lemma announced_work:
  assumes "link_step x y" and x: "announced pdu b st tr x"
  shows "link_work y < link_work x"
  using assms(1)
proof (cases rule: link_step.cases)
  case (frame_arrives f rest now)
  then have ff: "EncodeFirstFrame pdu = Some f" using x by (auto simp: announced_def)
  obtain v' where v': "ProcessFrameR now f (lk_receiver x) =
      (v', [ReceiverTransmit (cts b st) (FcSent continueToSend (rcv_reception v'))])"
    using receiver_ff [OF ff, of "lk_receiver x" b st now] x by (auto simp: announced_def)
  then show ?thesis using frame_arrives by (simp add: link_work_def receiver_does_def)
next
  case (frame_sent cb rest now)
  with x have "cb = AwaitFcSent tr"
    using awaiting_Cons [of tr cb rest] by (auto simp: announced_def)
  with frame_sent show ?thesis by (simp add: link_work_def)
qed (use x in \<open>auto simp: announced_def sender_at_def\<close>)

lemma single_work:
  assumes "link_step x y" and x: "single pdu tr x"
  shows "link_work y < link_work x"
  using assms(1)
proof (cases rule: link_step.cases)
  case (frame_arrives f rest now)
  with x have f: "f = of_nat (length pdu) # pdu" by (auto simp: single_def)
  obtain v' where "ProcessFrameR now f (lk_receiver x) = (v', [PduReady pdu])"
    using receiver_sf [of pdu "lk_receiver x" now] x f by (auto simp: single_def)
  with frame_arrives show ?thesis by (simp add: link_work_def receiver_does_def)
next
  case (frame_sent cb rest now)
  with x have "cb = SfSent tr" "snd_transfer (lk_sender x) = tr"
      "snd_onDone (lk_sender x) = Some ()" "snd_state (lk_sender x) = sendingSf"
      "snd_stMinTimer (lk_sender x) = None"
    by (auto simp: single_def)
  with frame_sent show ?thesis
    by (simp add: link_work_def sender_does_def Complete_def Let_def sender_work_def cfs_left_def)
qed (use x in \<open>auto simp: single_def\<close>)

lemma on_its_way_work: "link_step x y \<Longrightarrow> on_its_way pdu x \<Longrightarrow> link_work y < link_work x"
  unfolding on_its_way_def using single_work announced_work segmented_work by metis

lemma no_infinite_descent:
  fixes run :: "nat \<Rightarrow> 'x" and work :: "'x \<Rightarrow> nat"
  assumes "\<And>n. work (run (Suc n)) < work (run n)"
  shows False
proof -
  have "work (run n) + n \<le> work (run 0)" for n
  proof (induction n)
    case (Suc n)
    then show ?case using assms [of n] by linarith
  qed simp
  from this [of "Suc (work (run 0))"] show False by simp
qed

section \<open>Properties\<close>

text \<open>C11: Over a bus that loses no frame, a PDU that the sender accepted and that fits the receiver's
  buffer is never aborted on either side, however frames, completions and separation times
  interleave and whatever block size and separation time the receiver asks for; nothing but the
  PDU that was sent is ever delivered, at most once, and the sender completes at most once.\<close>

theorem transfer_safe:
  assumes "link_start now pdu s v = Some x0" and "snd_inv s" and "IsIdleR v"
    and "length pdu \<le> rcv_maxSize v" and "link_step\<^sup>*\<^sup>* x0 x"
  shows "\<not> lk_aborted x \<and> lk_delivered x \<in> {[], [pdu]} \<and> lk_done x \<le> 1"
  using on_its_way_safe [OF on_its_way_reachable [OF assms(5)
      link_start_on_its_way [OF assms(1,2) _ assms(4)]]] assms(3)
  by (simp add: IsIdleR_def)

definition sample_pdu :: bytes where
  "sample_pdu = [1, 2, 3, 4, 5, 6, 7, 8, 9, 10, 11, 12, 13, 14, 15, 16, 17, 18, 19, 20]"

definition sample_receiver :: receiver where
  "sample_receiver = SetFlowControlParameters 2 5 (IsoTpReceiver 64)"

lemma sample_link: "\<exists>x. link_start 0 sample_pdu (IsoTpSender 64) sample_receiver = Some x"
  by (simp add: link_start_def SendS_def SendFirstOrSingleFrame_def EncodeFirstFrame_def
      IsoTpSender_def sample_pdu_def iso_constants Let_def)

lemma sample_receiver_facts:
  "IsIdleR sample_receiver" "length sample_pdu \<le> rcv_maxSize sample_receiver"
  by (simp_all add: sample_receiver_def SetFlowControlParameters_def IsoTpReceiver_def IsIdleR_def
      sample_pdu_def)

theorem transfer_safe_witness:
  "\<exists>x. link_start 0 sample_pdu (IsoTpSender 64) sample_receiver = Some x \<and> \<not> lk_aborted x"
proof -
  obtain x where x: "link_start 0 sample_pdu (IsoTpSender 64) sample_receiver = Some x"
    using sample_link by blast
  from transfer_safe [OF x IsoTpSender_inv sample_receiver_facts rtranclp.rtrancl_refl] x
  show ?thesis by blast
qed

text \<open>C12: Such a transfer always comes to its end: it has no infinite run, and wherever it can go no
  further the PDU was delivered, the sender reported completion, and both sides are idle again.\<close>

theorem transfer_completes:
  assumes "link_start now pdu s v = Some x0" and "snd_inv s" and "IsIdleR v"
    and "length pdu \<le> rcv_maxSize v"
  shows "(\<nexists>run. run 0 = x0 \<and> (\<forall>n. link_step (run n) (run (Suc n)))) \<and>
    (\<forall>x. link_step\<^sup>*\<^sup>* x0 x \<longrightarrow> (\<nexists>y. link_step x y) \<longrightarrow>
       lk_delivered x = [pdu] \<and> lk_done x = 1 \<and> \<not> lk_aborted x \<and>
       IsIdleS (lk_sender x) \<and> IsIdleR (lk_receiver x))"
proof (intro conjI)
  have x0: "on_its_way pdu x0"
    using link_start_on_its_way [OF assms(1,2) _ assms(4)] assms(3) by (simp add: IsIdleR_def)
  show "\<nexists>run. run 0 = x0 \<and> (\<forall>n. link_step (run n) (run (Suc n)))"
  proof
    assume "\<exists>run. run 0 = x0 \<and> (\<forall>n. link_step (run n) (run (Suc n)))"
    then obtain run where run: "run 0 = x0" "\<And>n. link_step (run n) (run (Suc n))" by blast
    have "on_its_way pdu (run n)" for n
      by (induction n) (use run x0 in \<open>auto intro: on_its_way_step\<close>)
    then have "link_work (run (Suc n)) < link_work (run n)" for n
      using run on_its_way_work by blast
    then show False by (rule no_infinite_descent)
  qed
  show "\<forall>x. link_step\<^sup>*\<^sup>* x0 x \<longrightarrow> (\<nexists>y. link_step x y) \<longrightarrow>
       lk_delivered x = [pdu] \<and> lk_done x = 1 \<and> \<not> lk_aborted x \<and>
       IsIdleS (lk_sender x) \<and> IsIdleR (lk_receiver x)"
    using on_its_way_stuck [OF on_its_way_reachable [OF _ x0]] by (simp add: complete_def)
qed

theorem transfer_completes_witness:
  "\<exists>x0. link_start 0 sample_pdu (IsoTpSender 64) sample_receiver = Some x0 \<and>
     (\<nexists>run. run 0 = x0 \<and> (\<forall>n. link_step (run n) (run (Suc n))))"
proof -
  obtain x where x: "link_start 0 sample_pdu (IsoTpSender 64) sample_receiver = Some x"
    using sample_link by blast
  from transfer_completes [OF x IsoTpSender_inv sample_receiver_facts] x show ?thesis by blast
qed

end
