(* ===== verification/FrameTransport.thy ===== *)
theory FrameTransport
  imports ProtocolDefs "HOL-Library.Multiset"
begin

text \<open>
  The prioritised send queue of \<^verbatim>\<open>can-lite/core/CanFrameTransport.cpp\<close>.

  A frame's completion callback (\<^verbatim>\<open>infra::Function<void(bool)>\<close>) is a value of the type
  parameter \<open>'cb\<close>; the owner of the transport chooses the type and interprets it.  What the
  code does to its surroundings is a list of effects in the order of the calls:
  handing a frame to the driver (\<^verbatim>\<open>can.SendData\<close>), calling the send notification, running a
  completion.  In every operation these calls are the last accesses to the transport's state,
  or they are followed by calls that do not read it, so running them after the operation
  is what the code does.  The driver reports a completion by a later event, never from inside
  \<^verbatim>\<open>SendData\<close>, as the hardware layer requires.
\<close>

section \<open>State\<close>

definition queueDepth :: nat where "queueDepth = 8"
definition emergencyReserve :: nat where "emergencyReserve = 2"
definition emergencyRetryLimit :: u8 where "emergencyRetryLimit = 2"

lemmas transport_constants = queueDepth_def emergencyReserve_def emergencyRetryLimit_def

record transport_counters =
  emergencyDrops :: u32
  emergencyRetries :: u32
  evictions :: u32
  ordinaryDrops :: u32
  sendFailures :: u32

record 'cb pending_frame =
  pf_id :: can_id
  pf_data :: bytes
  pf_onDone :: 'cb
  pf_priority :: u8

record 'cb transport =
  tx_nodeId :: u16
  tx_current :: "'cb pending_frame option"
  tx_currentRetries :: u8
  tx_counters :: transport_counters
  tx_notifies :: bool
  tx_sendQueue :: "'cb pending_frame list"

datatype 'cb tx_effect = Transmitted can_id bytes | SendNotified | Completed 'cb bool

definition PriorityOf :: "can_id \<Rightarrow> u8" where
  "PriorityOf canId =
     (case canId of
        Id11 _ \<Rightarrow> CanPriority_code command
      | Id29 rawId \<Rightarrow> ExtractCanPriority rawId)"

definition PendingFrame :: "can_id \<Rightarrow> bytes \<Rightarrow> 'cb \<Rightarrow> 'cb pending_frame" where
  "PendingFrame canId data onDone =
     \<lparr>pf_id = canId, pf_data = data, pf_onDone = onDone, pf_priority = PriorityOf canId\<rparr>"

definition IsEmergency :: "'cb pending_frame \<Rightarrow> bool" where
  "IsEmergency frame \<longleftrightarrow> pf_priority frame = CanPriority_code emergency"

definition CanFrameTransport :: "u16 \<Rightarrow> bool \<Rightarrow> 'cb transport" where
  "CanFrameTransport nodeId notifies =
     \<lparr>tx_nodeId = nodeId, tx_current = None, tx_currentRetries = 0,
      tx_counters = \<lparr>emergencyDrops = 0, emergencyRetries = 0, evictions = 0,
                     ordinaryDrops = 0, sendFailures = 0\<rparr>,
      tx_notifies = notifies, tx_sendQueue = []\<rparr>"

definition SetNodeId :: "u16 \<Rightarrow> 'cb transport \<Rightarrow> 'cb transport" where
  "SetNodeId newNodeId t = t\<lparr>tx_nodeId := newNodeId\<rparr>"

section \<open>The queue\<close>

fun find_index :: "('a \<Rightarrow> bool) \<Rightarrow> 'a list \<Rightarrow> nat" where
  "find_index P [] = 0"
| "find_index P (x # xs) = (if P x then 0 else Suc (find_index P xs))"

text \<open>\<^verbatim>\<open>std::rotate(begin + first, begin + middle, end)\<close>.\<close>

definition std_rotate :: "nat \<Rightarrow> nat \<Rightarrow> 'a list \<Rightarrow> 'a list" where
  "std_rotate first middle xs =
     take first xs @ drop middle xs @ take (middle - first) (drop first xs)"

definition Insert :: "'cb pending_frame \<Rightarrow> 'cb pending_frame list \<Rightarrow> 'cb pending_frame list" where
  "Insert frame queue =
     (let index = find_index (\<lambda>queued. pf_priority queued > pf_priority frame) queue;
          pushed = queue @ [frame]
      in std_rotate index (length pushed - 1) pushed)"

definition OrdinaryCount :: "'cb transport \<Rightarrow> nat" where
  "OrdinaryCount t = length (filter (\<lambda>queued. \<not> IsEmergency queued) (tx_sendQueue t))"

definition queue_full :: "'cb transport \<Rightarrow> bool" where
  "queue_full t \<longleftrightarrow> length (tx_sendQueue t) = queueDepth"

definition DisplaceNewestLeastUrgent ::
    "'cb pending_frame \<Rightarrow> 'cb transport \<Rightarrow> 'cb transport \<times> 'cb tx_effect list" where
  "DisplaceNewestLeastUrgent frame t =
     (let evicted = pf_onDone (last (tx_sendQueue t));
          popped = butlast (tx_sendQueue t);
          counters = (tx_counters t)\<lparr>evictions := evictions (tx_counters t) + 1\<rparr>
      in (t\<lparr>tx_counters := counters, tx_sendQueue := Insert frame popped\<rparr>,
          [Completed evicted False]))"

definition EnqueueOrdinary ::
    "'cb pending_frame \<Rightarrow> 'cb transport \<Rightarrow> bool \<times> 'cb transport \<times> 'cb tx_effect list" where
  "EnqueueOrdinary frame t =
     (if \<not> queue_full t \<and> OrdinaryCount t < queueDepth - emergencyReserve
      then (True, t\<lparr>tx_sendQueue := Insert frame (tx_sendQueue t)\<rparr>, [])
      else if IsEmergency (last (tx_sendQueue t))
              \<or> pf_priority (last (tx_sendQueue t)) \<le> pf_priority frame
      then (False, t\<lparr>tx_counters :=
              (tx_counters t)\<lparr>ordinaryDrops := ordinaryDrops (tx_counters t) + 1\<rparr>\<rparr>, [])
      else (True, DisplaceNewestLeastUrgent frame t))"

definition EnqueueEmergency ::
    "'cb pending_frame \<Rightarrow> 'cb transport \<Rightarrow> bool \<times> 'cb transport \<times> 'cb tx_effect list" where
  "EnqueueEmergency frame t =
     (if \<not> queue_full t
      then (True, t\<lparr>tx_sendQueue := Insert frame (tx_sendQueue t)\<rparr>, [])
      else if IsEmergency (last (tx_sendQueue t))
      then (False, t\<lparr>tx_counters :=
              (tx_counters t)\<lparr>emergencyDrops := emergencyDrops (tx_counters t) + 1\<rparr>\<rparr>, [])
      else (True, DisplaceNewestLeastUrgent frame t))"

definition NotifySend :: "'cb transport \<Rightarrow> 'cb tx_effect list" where
  "NotifySend t = (if tx_notifies t then [SendNotified] else [])"

definition Enqueue ::
    "'cb pending_frame \<Rightarrow> 'cb transport \<Rightarrow> bool \<times> 'cb transport \<times> 'cb tx_effect list" where
  "Enqueue frame t =
     (case (if IsEmergency frame then EnqueueEmergency frame t else EnqueueOrdinary frame t) of
        (False, t', effects) \<Rightarrow> (False, t', effects)
      | (True, t', effects) \<Rightarrow> (True, t', effects @ NotifySend t'))"

section \<open>Sending and completing\<close>

text \<open>\<^verbatim>\<open>Transmit\<close> hands the current frame to the driver.\<close>

definition Transmit :: "'cb pending_frame \<Rightarrow> 'cb tx_effect list" where
  "Transmit frame = [Transmitted (pf_id frame) (pf_data frame)]"

definition SendRawFrame ::
    "can_id \<Rightarrow> bytes \<Rightarrow> 'cb \<Rightarrow> 'cb transport \<Rightarrow> bool \<times> 'cb transport \<times> 'cb tx_effect list" where
  "SendRawFrame canId data onDone t =
     (let frame = PendingFrame canId data onDone in
      if tx_current t \<noteq> None then Enqueue frame t
      else (let t' = t\<lparr>tx_current := Some frame, tx_currentRetries := 0\<rparr>
            in (True, t', Transmit frame @ NotifySend t')))"

definition SendFrameTo ::
    "u16 \<Rightarrow> CanPriority \<Rightarrow> u8 \<Rightarrow> u8 \<Rightarrow> bytes \<Rightarrow> 'cb \<Rightarrow> 'cb transport
       \<Rightarrow> bool \<times> 'cb transport \<times> 'cb tx_effect list" where
  "SendFrameTo targetNodeId priority category messageType data onDone t =
     SendRawFrame (Id29 (MakeCanId priority category messageType targetNodeId)) data onDone t"

definition SendFrame ::
    "CanPriority \<Rightarrow> u8 \<Rightarrow> u8 \<Rightarrow> bytes \<Rightarrow> 'cb \<Rightarrow> 'cb transport
       \<Rightarrow> bool \<times> 'cb transport \<times> 'cb tx_effect list" where
  "SendFrame priority category messageType data onDone t =
     SendFrameTo (tx_nodeId t) priority category messageType data onDone t"

definition RetryCurrent ::
    "bool \<Rightarrow> 'cb pending_frame \<Rightarrow> 'cb transport \<Rightarrow> bool \<times> 'cb transport \<times> 'cb tx_effect list" where
  "RetryCurrent success frame t =
     (if success then (False, t, [])
      else if \<not> IsEmergency frame
      then (False, t\<lparr>tx_counters :=
              (tx_counters t)\<lparr>sendFailures := sendFailures (tx_counters t) + 1\<rparr>\<rparr>, [])
      else if tx_currentRetries t = emergencyRetryLimit
      then (False, t\<lparr>tx_counters :=
              (tx_counters t)\<lparr>emergencyDrops := emergencyDrops (tx_counters t) + 1\<rparr>\<rparr>, [])
      else (True, t\<lparr>tx_currentRetries := tx_currentRetries t + 1,
              tx_counters :=
                (tx_counters t)\<lparr>emergencyRetries := emergencyRetries (tx_counters t) + 1\<rparr>\<rparr>,
            Transmit frame))"

definition SendNextQueued :: "'cb transport \<Rightarrow> 'cb transport \<times> 'cb tx_effect list" where
  "SendNextQueued t =
     (case tx_sendQueue t of
        [] \<Rightarrow> (t\<lparr>tx_current := None\<rparr>, [])
      | front # rest \<Rightarrow>
          (t\<lparr>tx_current := Some front, tx_sendQueue := rest, tx_currentRetries := 0\<rparr>,
           Transmit front))"

text \<open>
  The completion handler dereferences the current frame.  With no frame in transmission that
  is undefined behaviour, the value \<open>None\<close> here.
\<close>

definition OnSendComplete ::
    "bool \<Rightarrow> 'cb transport \<Rightarrow> ('cb transport \<times> 'cb tx_effect list) option" where
  "OnSendComplete success t =
     (case tx_current t of
        None \<Rightarrow> None
      | Some frame \<Rightarrow>
          (case RetryCurrent success frame t of
             (True, t', effects) \<Rightarrow> Some (t', effects)
           | (False, t', effects) \<Rightarrow>
               (case SendNextQueued t' of
                  (t'', next) \<Rightarrow>
                    Some (t'', effects @ next @ [Completed (pf_onDone frame) success]))))"

section \<open>The queue as a stable priority queue\<close>

lemma Insert_eq:
  "Insert frame queue =
     takeWhile (\<lambda>q. \<not> pf_priority q > pf_priority frame) queue @ frame #
     dropWhile (\<lambda>q. \<not> pf_priority q > pf_priority frame) queue"
proof -
  define P where "P = (\<lambda>q :: 'a pending_frame. pf_priority q > pf_priority frame)"
  have "find_index P queue = length (takeWhile (\<lambda>q. \<not> P q) queue)"
    by (induction queue) auto
  moreover have "length (takeWhile (\<lambda>q. \<not> P q) queue) \<le> length queue"
    by (rule length_takeWhile_le)
  ultimately have "Insert frame queue =
      takeWhile (\<lambda>q. \<not> P q) queue @ frame # dropWhile (\<lambda>q. \<not> P q) queue"
    by (simp add: Insert_def std_rotate_def P_def [symmetric] takeWhile_eq_take [symmetric]
        dropWhile_eq_drop [symmetric])
  then show ?thesis by (simp add: P_def)
qed

lemma set_Insert [simp]: "set (Insert frame queue) = insert frame (set queue)"
  using takeWhile_dropWhile_id [of "\<lambda>q. \<not> pf_priority q > pf_priority frame" queue]
  unfolding Insert_eq by (metis Un_insert_right list.simps(15) set_append)

lemma mset_Insert [simp]: "mset (Insert frame queue) = add_mset frame (mset queue)"
proof -
  let ?P = "\<lambda>q. \<not> pf_priority q > pf_priority frame"
  have "mset queue = mset (takeWhile ?P queue) + mset (dropWhile ?P queue)"
    by (metis mset_append takeWhile_dropWhile_id)
  then show ?thesis by (simp add: Insert_eq)
qed

lemma length_Insert [simp]: "length (Insert frame queue) = Suc (length queue)"
  by (metis mset_Insert size_add_mset size_mset)

lemma filter_Insert_length:
  "length (filter P (Insert frame queue)) = length (filter P queue) + (if P frame then 1 else 0)"
proof -
  have "length (filter P xs) = size (filter_mset P (mset xs))" for xs :: "'a pending_frame list"
    by (metis mset_filter size_mset)
  then show ?thesis by simp
qed

definition priority_sorted :: "'cb pending_frame list \<Rightarrow> bool" where
  "priority_sorted queue \<longleftrightarrow> sorted (map pf_priority queue)"

lemma priority_sorted_Insert:
  assumes "priority_sorted queue"
  shows "priority_sorted (Insert frame queue)"
  using assms unfolding priority_sorted_def Insert_eq
proof (induction queue)
  case Nil
  then show ?case by simp
next
  case (Cons q queue)
  then show ?case by (auto simp: not_less dest: set_takeWhileD set_dropWhileD)
qed

text \<open>
  The frames of one priority form a lane; inserting appends to the frame's own lane and
  leaves every other lane as it was.
\<close>

definition lane :: "u8 \<Rightarrow> 'cb pending_frame list \<Rightarrow> 'cb pending_frame list" where
  "lane p queue = filter (\<lambda>f. pf_priority f = p) queue"

lemma lane_Insert:
  assumes "priority_sorted queue"
  shows "lane p (Insert frame queue) =
    (if pf_priority frame = p then lane p queue @ [frame] else lane p queue)"
  using assms unfolding Insert_eq
proof (induction queue)
  case Nil
  then show ?case by (simp add: lane_def)
next
  case (Cons q queue)
  have less: "\<forall>x \<in> set queue. pf_priority q \<le> pf_priority x"
    using Cons.prems by (simp add: priority_sorted_def)
  show ?case
  proof (cases "pf_priority q > pf_priority frame")
    case True
    then have "lane (pf_priority frame) (q # queue) = []"
      using less by (force simp: lane_def filter_empty_conv)
    with True show ?thesis by (auto simp: lane_def)
  next
    case False
    have "priority_sorted queue" using Cons.prems by (simp add: priority_sorted_def)
    from Cons.IH [OF this] False show ?thesis
      by (cases "pf_priority frame = p") (simp_all add: lane_def)
  qed
qed

locale lane_queue =
  fixes ins :: "'f \<Rightarrow> 'q \<Rightarrow> 'q"
    and pop :: "'q \<Rightarrow> ('f \<times> 'q) option"
    and lane_of :: "'k::linorder \<Rightarrow> 'q \<Rightarrow> 'f list"
    and key :: "'f \<Rightarrow> 'k"
    and wf :: "'q \<Rightarrow> bool"
  assumes ins_wf: "wf q \<Longrightarrow> wf (ins f q)"
    and ins_lane: "wf q \<Longrightarrow> lane_of k (ins f q) = (if key f = k then lane_of k q @ [f] else lane_of k q)"
    and pop_wf: "wf q \<Longrightarrow> pop q = Some (f, q') \<Longrightarrow> wf q'"
    and pop_lane: "wf q \<Longrightarrow> pop q = Some (f, q') \<Longrightarrow>
      lane_of k q = (if key f = k then f # lane_of k q' else lane_of k q')"
    and pop_least: "wf q \<Longrightarrow> pop q = Some (f, q') \<Longrightarrow> g \<in> set (lane_of k q) \<Longrightarrow> key f \<le> key g"
    and pop_empty: "wf q \<Longrightarrow> pop q = None \<Longrightarrow> lane_of k q = []"
    and lane_key: "wf q \<Longrightarrow> g \<in> set (lane_of k q) \<Longrightarrow> key g = k"
begin

fun drain :: "nat \<Rightarrow> 'q \<Rightarrow> 'f list" where
  "drain 0 q = []"
| "drain (Suc n) q = (case pop q of None \<Rightarrow> [] | Some (f, q') \<Rightarrow> f # drain n q')"

lemma ins_all_wf: "wf q \<Longrightarrow> wf (fold ins fs q)"
  by (induction fs arbitrary: q) (auto intro: ins_wf)

lemma ins_all_lane:
  "wf q \<Longrightarrow> lane_of k (fold ins fs q) = lane_of k q @ filter (\<lambda>f. key f = k) fs"
  by (induction fs arbitrary: q) (auto simp: ins_wf ins_lane)

lemma drain_prefix:
  "wf q \<Longrightarrow> \<exists>rest. lane_of k q = filter (\<lambda>f. key f = k) (drain n q) @ rest"
proof (induction n arbitrary: q)
  case 0
  then show ?case by simp
next
  case (Suc n)
  show ?case
  proof (cases "pop q")
    case None
    with Suc.prems show ?thesis by simp
  next
    case (Some p)
    then obtain f q' where p: "pop q = Some (f, q')" by (cases p) auto
    with Suc.prems have "wf q'" by (rule_tac pop_wf)
    from Suc.IH [OF this] obtain rest
      where "lane_of k q' = filter (\<lambda>f. key f = k) (drain n q') @ rest" by blast
    with p pop_lane [OF Suc.prems p, of k] show ?thesis by auto
  qed
qed

lemma drain_sorted: "wf q \<Longrightarrow> sorted (map key (drain n q))"
proof (induction n arbitrary: q)
  case 0
  then show ?case by simp
next
  case (Suc n)
  show ?case
  proof (cases "pop q")
    case None
    then show ?thesis by simp
  next
    case (Some p)
    then obtain f q' where p: "pop q = Some (f, q')" by (cases p) auto
    with Suc.prems have wf': "wf q'" by (rule_tac pop_wf)
    have "key f \<le> key g" if "g \<in> set (drain n q')" for g
    proof -
      obtain rest where "lane_of (key g) q' = filter (\<lambda>f. key f = key g) (drain n q') @ rest"
        using drain_prefix [OF wf'] by blast
      then have "g \<in> set (lane_of (key g) q')" using that by simp
      then have "g \<in> set (lane_of (key g) q)"
        using pop_lane [OF Suc.prems p, of "key g"] by (auto split: if_splits)
      then show ?thesis by (rule pop_least [OF Suc.prems p])
    qed
    with p Suc.IH [OF wf'] show ?thesis by auto
  qed
qed

end

definition pop_front :: "'cb pending_frame list \<Rightarrow> ('cb pending_frame \<times> 'cb pending_frame list) option" where
  "pop_front queue = (case queue of [] \<Rightarrow> None | f # rest \<Rightarrow> Some (f, rest))"

interpretation send_queue: lane_queue Insert pop_front lane pf_priority priority_sorted
proof (unfold_locales, goal_cases)
  case 1
  then show ?case by (rule priority_sorted_Insert)
next
  case 2
  then show ?case by (rule lane_Insert)
next
  case 3
  then show ?case by (auto simp: pop_front_def priority_sorted_def split: list.splits)
next
  case 4
  then show ?case by (auto simp: pop_front_def lane_def split: list.splits)
next
  case 5
  then show ?case by (auto simp: pop_front_def lane_def priority_sorted_def split: list.splits)
next
  case 6
  then show ?case by (auto simp: pop_front_def lane_def split: list.splits)
next
  case 7
  then show ?case by (auto simp: lane_def)
qed

section \<open>The transport as a machine\<close>

text \<open>
  The calls of the application and the driver's completion.  The driver completes a frame
  only while one is in transmission.
\<close>

datatype 'cb tx_event =
    TxSend CanPriority u8 u8 u16 bytes 'cb
  | TxSendRaw can_id bytes 'cb
  | TxComplete bool
  | TxSetNodeId u16

definition tx_accepts :: "'cb tx_event \<Rightarrow> 'cb transport \<Rightarrow> bool" where
  "tx_accepts e t =
     (case e of
        TxSend p c m n d cb \<Rightarrow> fst (SendFrameTo n p c m d cb t)
      | TxSendRaw i d cb \<Rightarrow> fst (SendRawFrame i d cb t)
      | _ \<Rightarrow> True)"

definition tx_step :: "'cb tx_event \<Rightarrow> 'cb transport \<Rightarrow> 'cb transport \<times> 'cb tx_effect list" where
  "tx_step e t =
     (case e of
        TxSend p c m n d cb \<Rightarrow> snd (SendFrameTo n p c m d cb t)
      | TxSendRaw i d cb \<Rightarrow> snd (SendRawFrame i d cb t)
      | TxComplete success \<Rightarrow> (case OnSendComplete success t of None \<Rightarrow> (t, []) | Some r \<Rightarrow> r)
      | TxSetNodeId n \<Rightarrow> (SetNodeId n t, []))"

definition tx_enabled :: "'cb tx_event \<Rightarrow> 'cb transport \<Rightarrow> bool" where
  "tx_enabled e t = (case e of TxComplete _ \<Rightarrow> tx_current t \<noteq> None | _ \<Rightarrow> True)"

definition frame_ok :: "'cb pending_frame \<Rightarrow> bool" where
  "frame_ok f \<longleftrightarrow> pf_priority f = PriorityOf (pf_id f)"

definition tx_inv :: "'cb transport \<Rightarrow> bool" where
  "tx_inv t \<longleftrightarrow>
     length (tx_sendQueue t) \<le> queueDepth \<and>
     OrdinaryCount t \<le> queueDepth - emergencyReserve \<and>
     priority_sorted (tx_sendQueue t) \<and>
     list_all frame_ok (tx_sendQueue t) \<and>
     pred_option frame_ok (tx_current t) \<and>
     (tx_current t = None \<longrightarrow> tx_sendQueue t = []) \<and>
     tx_currentRetries t \<le> emergencyRetryLimit"

lemma tx_inv_initial: "tx_inv (CanFrameTransport nodeId notifies)"
  by (simp add: tx_inv_def CanFrameTransport_def OrdinaryCount_def priority_sorted_def
      emergencyRetryLimit_def)

lemma frame_ok_PendingFrame [simp]: "frame_ok (PendingFrame i d cb)"
  by (simp add: frame_ok_def PendingFrame_def)

text \<open>\<open>back()\<close> is only reached on a queue that has a frame.\<close>

lemma back_exists:
  assumes "queue_full t \<or> queueDepth - emergencyReserve \<le> OrdinaryCount t"
  shows "tx_sendQueue t \<noteq> []"
  using assms by (auto simp: queue_full_def OrdinaryCount_def transport_constants)

lemma priority_sorted_butlast: "priority_sorted q \<Longrightarrow> priority_sorted (butlast q)"
  by (cases q rule: rev_cases) (auto simp: priority_sorted_def sorted_append)

lemma count_butlast:
  "q \<noteq> [] \<Longrightarrow> length (filter P q) = length (filter P (butlast q)) + (if P (last q) then 1 else 0)"
  by (induction q rule: rev_induct) auto

lemma DisplaceNewestLeastUrgent_inv:
  assumes inv: "tx_inv t" and "tx_sendQueue t \<noteq> []" and "frame_ok frame"
    and "tx_current t \<noteq> None" and last: "\<not> IsEmergency (last (tx_sendQueue t))"
  shows "tx_inv (fst (DisplaceNewestLeastUrgent frame t))"
proof -
  have "list_all frame_ok (butlast (tx_sendQueue t))"
    using inv by (auto simp: tx_inv_def list_all_iff dest: in_set_butlastD)
  moreover have "length (filter (\<lambda>q. \<not> IsEmergency q) (tx_sendQueue t))
      = Suc (length (filter (\<lambda>q. \<not> IsEmergency q) (butlast (tx_sendQueue t))))"
    using count_butlast [OF assms(2), of "\<lambda>q. \<not> IsEmergency q"] last by simp
  moreover have "Suc (length (butlast (tx_sendQueue t))) = length (tx_sendQueue t)"
    using assms(2) by simp
  ultimately show ?thesis
    using assms
    by (auto simp: DisplaceNewestLeastUrgent_def tx_inv_def OrdinaryCount_def
        filter_Insert_length priority_sorted_Insert priority_sorted_butlast list_all_iff Let_def)
qed

lemma Insert_inv:
  assumes "tx_inv t" and "\<not> queue_full t" and "frame_ok frame" and "tx_current t \<noteq> None"
    and "IsEmergency frame \<or> OrdinaryCount t < queueDepth - emergencyReserve"
  shows "tx_inv (t\<lparr>tx_sendQueue := Insert frame (tx_sendQueue t)\<rparr>)"
  using assms
  by (auto simp: tx_inv_def OrdinaryCount_def filter_Insert_length priority_sorted_Insert
      list_all_iff queue_full_def)

lemma tx_inv_counters [simp]: "tx_inv (t\<lparr>tx_counters := c\<rparr>) = tx_inv t"
  by (simp add: tx_inv_def OrdinaryCount_def)

lemma tx_inv_nodeId [simp]: "tx_inv (SetNodeId n t) = tx_inv t"
  by (simp add: tx_inv_def OrdinaryCount_def SetNodeId_def)

lemma EnqueueOrdinary_inv:
  assumes "tx_inv t" and "frame_ok frame" and "tx_current t \<noteq> None"
  shows "tx_inv (fst (snd (EnqueueOrdinary frame t)))"
proof (cases "\<not> queue_full t \<and> OrdinaryCount t < queueDepth - emergencyReserve")
  case True
  with assms show ?thesis by (simp add: EnqueueOrdinary_def Insert_inv)
next
  case False
  then have "tx_sendQueue t \<noteq> []" using back_exists [of t] by fastforce
  with False assms show ?thesis
    by (auto simp: EnqueueOrdinary_def intro: DisplaceNewestLeastUrgent_inv)
qed

lemma EnqueueEmergency_inv:
  assumes "tx_inv t" and "frame_ok frame" and "tx_current t \<noteq> None" and "IsEmergency frame"
  shows "tx_inv (fst (snd (EnqueueEmergency frame t)))"
  using assms by (auto simp: EnqueueEmergency_def Insert_inv back_exists
      intro: DisplaceNewestLeastUrgent_inv)

lemma Enqueue_state: "fst (snd (Enqueue frame t)) =
    fst (snd (if IsEmergency frame then EnqueueEmergency frame t else EnqueueOrdinary frame t))"
  by (auto simp: Enqueue_def split: prod.splits bool.splits)

lemma SendRawFrame_inv:
  assumes "tx_inv t"
  shows "tx_inv (fst (snd (SendRawFrame i d cb t)))"
proof (cases "tx_current t = None")
  case True
  with assms show ?thesis
    by (simp add: SendRawFrame_def tx_inv_def OrdinaryCount_def Let_def emergencyRetryLimit_def
        priority_sorted_def)
next
  case False
  with assms show ?thesis
    by (simp add: SendRawFrame_def Enqueue_state EnqueueOrdinary_inv EnqueueEmergency_inv)
qed

lemma SendNextQueued_inv:
  assumes "tx_inv t" and "tx_current t \<noteq> None"
  shows "tx_inv (fst (SendNextQueued t))"
  using assms
  by (auto simp: SendNextQueued_def tx_inv_def OrdinaryCount_def priority_sorted_def
      emergencyRetryLimit_def split: list.splits if_splits)

lemma RetryCurrent_inv:
  assumes "tx_inv t"
  shows "tx_inv (fst (snd (RetryCurrent success frame t)))"
    and "tx_current (fst (snd (RetryCurrent success frame t))) = tx_current t"
    and "tx_sendQueue (fst (snd (RetryCurrent success frame t))) = tx_sendQueue t"
proof -
  have "x + 1 \<le> 2" if "x \<le> 2" "x \<noteq> 2" for x :: u8
    using that by (metis inc_le order_le_less)
  then have "tx_currentRetries t \<noteq> emergencyRetryLimit \<Longrightarrow>
      tx_currentRetries t + 1 \<le> emergencyRetryLimit"
    using assms by (simp add: tx_inv_def emergencyRetryLimit_def)
  then show "tx_inv (fst (snd (RetryCurrent success frame t)))"
    using assms by (simp add: RetryCurrent_def tx_inv_def OrdinaryCount_def)
qed (simp_all add: RetryCurrent_def)

lemma OnSendComplete_inv:
  assumes "tx_inv t" and "OnSendComplete success t = Some (t', effects)"
  shows "tx_inv t'"
proof -
  obtain frame where frame: "tx_current t = Some frame"
    using assms(2) by (auto simp: OnSendComplete_def split: option.splits)
  obtain retried t1 e1 where r: "RetryCurrent success frame t = (retried, t1, e1)"
    by (cases "RetryCurrent success frame t") auto
  have "tx_inv t1" and "tx_current t1 \<noteq> None"
    using RetryCurrent_inv [OF assms(1), of success frame] r frame by auto
  with assms(2) frame r SendNextQueued_inv [of t1] show ?thesis
    by (auto simp: OnSendComplete_def split: bool.splits prod.splits)
qed

lemma tx_step_inv:
  assumes "tx_inv t"
  shows "tx_inv (fst (tx_step e t))"
proof (cases e)
  case (TxComplete success)
  then show ?thesis
    using assms OnSendComplete_inv [OF assms, of success]
    by (cases "OnSendComplete success t") (auto simp: tx_step_def)
qed (use assms in \<open>simp_all add: tx_step_def SendFrameTo_def SendRawFrame_inv\<close>)

text \<open>
  The callbacks a transport holds, and the completions among its effects.  A callback that
  is accepted is held until it is run, once.
\<close>

definition tx_pending :: "'cb transport \<Rightarrow> 'cb multiset" where
  "tx_pending t = mset (map pf_onDone (tx_sendQueue t)) +
     (case tx_current t of None \<Rightarrow> {#} | Some f \<Rightarrow> {#pf_onDone f#})"

fun completions :: "'cb tx_effect list \<Rightarrow> 'cb multiset" where
  "completions [] = {#}"
| "completions (Completed cb _ # es) = add_mset cb (completions es)"
| "completions (_ # es) = completions es"

definition tx_brought :: "'cb tx_event \<Rightarrow> 'cb transport \<Rightarrow> 'cb multiset" where
  "tx_brought e t =
     (if tx_accepts e t
      then (case e of TxSend p c m n d cb \<Rightarrow> {#cb#} | TxSendRaw i d cb \<Rightarrow> {#cb#} | _ \<Rightarrow> {#})
      else {#})"

lemma completions_append [simp]: "completions (xs @ ys) = completions xs + completions ys"
  by (induction xs rule: completions.induct) auto

lemma completions_simps [simp]:
  "completions (Transmit f) = {#}" "completions (NotifySend t) = {#}"
  by (auto simp: Transmit_def NotifySend_def)

lemma mset_map_Insert [simp]:
  "mset (map g (Insert frame q)) = add_mset (g frame) (mset (map g q))"
  by (simp only: mset_map mset_Insert image_mset_add_mset)

lemma mset_map_butlast:
  "q \<noteq> [] \<Longrightarrow> add_mset (g (last q)) (mset (map g (butlast q))) = mset (map g q)"
  by (cases q rule: rev_cases) auto

lemma DisplaceNewestLeastUrgent_conserves:
  assumes "tx_sendQueue t \<noteq> []" and "DisplaceNewestLeastUrgent frame t = (t', effects)"
  shows "tx_pending t' + completions effects = add_mset (pf_onDone frame) (tx_pending t)"
  using assms(2) mset_map_butlast [OF assms(1), of pf_onDone]
  by (auto simp: DisplaceNewestLeastUrgent_def Let_def tx_pending_def simp del: mset_map)

lemma Enqueue_conserves:
  assumes "Enqueue frame t = (accepted, t', effects)"
  shows "tx_pending t' + completions effects =
    tx_pending t + (if accepted then {#pf_onDone frame#} else {#})"
proof -
  obtain a u e where r: "(if IsEmergency frame then EnqueueEmergency frame t
      else EnqueueOrdinary frame t) = (a, u, e)" by (metis prod_cases3)
  have "tx_pending u + completions e = tx_pending t + (if a then {#pf_onDone frame#} else {#})"
  proof (cases "tx_sendQueue t = []")
    case True
    then have "\<not> queue_full t" and "OrdinaryCount t < queueDepth - emergencyReserve"
      using back_exists [of t] by (auto simp flip: not_less)
    with r True show ?thesis
      by (auto simp: EnqueueEmergency_def EnqueueOrdinary_def tx_pending_def
          simp del: mset_map split: if_splits)
  next
    case False
    with r show ?thesis
      by (auto simp: EnqueueEmergency_def EnqueueOrdinary_def tx_pending_def
          simp del: mset_map split: if_splits
          dest!: DisplaceNewestLeastUrgent_conserves [OF False])
  qed
  with assms r show ?thesis
    by (auto simp: Enqueue_def split: bool.splits)
qed

lemma SendRawFrame_conserves:
  assumes "tx_inv t" and "SendRawFrame i d cb t = (accepted, t', effects)"
  shows "tx_pending t' + completions effects =
    tx_pending t + (if accepted then {#cb#} else {#})"
proof (cases "tx_current t = None")
  case True
  with assms show ?thesis
    by (auto simp: SendRawFrame_def Let_def tx_inv_def tx_pending_def PendingFrame_def)
next
  case False
  with assms have "Enqueue (PendingFrame i d cb) t = (accepted, t', effects)"
    by (simp add: SendRawFrame_def)
  from Enqueue_conserves [OF this] show ?thesis by (simp add: PendingFrame_def)
qed

lemma OnSendComplete_conserves:
  assumes "OnSendComplete success t = Some (t', effects)"
  shows "tx_pending t' + completions effects = tx_pending t"
  using assms
  by (auto simp: OnSendComplete_def RetryCurrent_def SendNextQueued_def tx_pending_def
      split: option.splits list.splits if_splits)

lemma tx_step_conserves:
  assumes "tx_inv t" and "tx_enabled e t"
  shows "tx_pending (fst (tx_step e t)) + completions (snd (tx_step e t))
    = tx_pending t + tx_brought e t"
proof (cases e)
  case (TxSend p c m n d cb)
  with SendRawFrame_conserves [OF assms(1)] show ?thesis
    by (cases "SendRawFrame (Id29 (MakeCanId p c m n)) d cb t")
      (auto simp: tx_step_def tx_brought_def tx_accepts_def SendFrameTo_def)
next
  case (TxSendRaw i d cb)
  with SendRawFrame_conserves [OF assms(1)] show ?thesis
    by (cases "SendRawFrame i d cb t") (auto simp: tx_step_def tx_brought_def tx_accepts_def)
next
  case (TxComplete success)
  with assms(2) obtain t' effects where "OnSendComplete success t = Some (t', effects)"
    by (cases "OnSendComplete success t")
      (auto simp: tx_enabled_def OnSendComplete_def split: option.splits bool.splits prod.splits)
  with OnSendComplete_conserves [OF this] TxComplete show ?thesis
    by (simp add: tx_step_def tx_brought_def)
next
  case (TxSetNodeId n)
  then show ?thesis
    by (simp add: tx_step_def tx_brought_def SetNodeId_def tx_pending_def)
qed

interpretation tx: conserving_machine tx_step tx_enabled tx_inv tx_pending tx_brought completions
  by unfold_locales (auto simp: tx_step_inv tx_step_conserves)

section \<open>Properties\<close>

text \<open>C2: Whatever is sent and however the driver completes its frames, the queue never holds
  more than eight frames, at most six of them ordinary (so two places are always left for
  emergencies), it is sorted by priority, it is empty while nothing is in transmission, and an
  emergency frame has been retried at most twice.\<close>

theorem transport_queue_invariant:
  assumes "admissible tx_enabled tx_step es (CanFrameTransport nodeId notifies)"
  shows "(let t = fst (run_io tx_step es (CanFrameTransport nodeId notifies)) in
    length (tx_sendQueue t) \<le> 8 \<and> OrdinaryCount t \<le> 6 \<and>
    sorted (map pf_priority (tx_sendQueue t)) \<and>
    (tx_sendQueue t \<noteq> [] \<longrightarrow> tx_current t \<noteq> None) \<and>
    tx_currentRetries t \<le> 2)"
  using tx.run_inv [OF tx_inv_initial assms]
  by (auto simp: Let_def tx_inv_def transport_constants priority_sorted_def)

definition sample_events :: "nat tx_event list" where
  "sample_events =
     [TxSend telemetry 2 1 7 [1] 10, TxSend command 2 1 7 [2] 11, TxSendRaw (Id11 5) [3] 12,
      TxSend emergency 3 0 7 [4] 13, TxComplete True, TxComplete False, TxComplete True]"

lemmas transport_eval = sample_events_def tx_step_def tx_enabled_def CanFrameTransport_def
  SendFrameTo_def SendRawFrame_def PendingFrame_def PriorityOf_def Let_def Enqueue_def
  EnqueueEmergency_def EnqueueOrdinary_def IsEmergency_def queue_full_def transport_constants
  OrdinaryCount_def Insert_def std_rotate_def NotifySend_def Transmit_def OnSendComplete_def
  RetryCurrent_def SendNextQueued_def

lemma sample_events_admissible:
  "admissible tx_enabled tx_step sample_events (CanFrameTransport 7 True)"
  by (simp add: transport_eval)

theorem transport_queue_invariant_witness:
  "length (tx_sendQueue (fst (run_io tx_step sample_events (CanFrameTransport 7 True)))) \<le> 8"
  using transport_queue_invariant [OF sample_events_admissible] by (simp add: Let_def)

text \<open>C1: Every completion callback of an accepted send is run exactly once: at any moment the
  callbacks still held (of the frame in transmission and of the queued frames) together with
  those already run are exactly those of the accepted sends.  A refused send's callback is
  never run.\<close>

theorem transport_completes_once:
  assumes "admissible tx_enabled tx_step es (CanFrameTransport nodeId notifies)"
  shows "(case run_io tx_step es (CanFrameTransport nodeId notifies) of (t, effects) \<Rightarrow>
    tx_pending t + completions effects =
      total_over tx_brought tx_step es (CanFrameTransport nodeId notifies))"
proof -
  have "tx_pending (CanFrameTransport nodeId notifies) = {#}"
    by (simp add: tx_pending_def CanFrameTransport_def)
  then show ?thesis
    using tx.run_conserves [OF tx_inv_initial assms] by (simp add: case_prod_beta)
qed

theorem transport_completes_once_witness:
  "(case run_io tx_step sample_events (CanFrameTransport 7 True) of (t, effects) \<Rightarrow>
    tx_pending t + completions effects =
      total_over tx_brought tx_step sample_events (CanFrameTransport 7 True))"
  by (rule transport_completes_once [OF sample_events_admissible])

fun transmitted :: "'cb tx_effect list \<Rightarrow> (can_id \<times> bytes) list" where
  "transmitted [] = []"
| "transmitted (Transmitted i d # es) = (i, d) # transmitted es"
| "transmitted (_ # es) = transmitted es"

lemma transmitted_append [simp]: "transmitted (xs @ ys) = transmitted xs @ transmitted ys"
  by (induction xs rule: transmitted.induct) auto

lemma drain_transmits:
  assumes "tx_current t \<noteq> None"
  shows "transmitted (snd (run_io tx_step (replicate (length (tx_sendQueue t)) (TxComplete True)) t))
    = map (\<lambda>f. (pf_id f, pf_data f)) (tx_sendQueue t)"
  using assms
proof (induction "tx_sendQueue t" arbitrary: t)
  case Nil
  then show ?case by (simp flip: Nil)
next
  case (Cons f q)
  obtain c where c: "tx_current t = Some c" using Cons.prems by auto
  obtain t' e where s: "tx_step (TxComplete True) t = (t', e)"
    by (cases "tx_step (TxComplete True) t") auto
  then have t': "tx_sendQueue t' = q" "tx_current t' \<noteq> None"
      and e: "transmitted e = [(pf_id f, pf_data f)]"
    using c Cons.hyps(2)
    by (auto simp: tx_step_def OnSendComplete_def RetryCurrent_def SendNextQueued_def
        Transmit_def split: list.splits)
  from Cons.hyps(1) [of t'] t' e s show ?case
    by (simp add: case_prod_beta flip: Cons.hyps(2))
qed

text \<open>C13: While a frame is in transmission, the frames queued by any sequence of insertions
  \<open>fs\<close> leave in order of urgency, and the frames of one priority leave in the order in which
  they were queued.\<close>

theorem queue_is_stable_priority_queue:
  assumes "tx_current t \<noteq> None" and "tx_sendQueue t = fold Insert fs []"
  shows "\<exists>sent. transmitted (snd (run_io tx_step
           (replicate (length (tx_sendQueue t)) (TxComplete True)) t))
         = map (\<lambda>f. (pf_id f, pf_data f)) sent \<and>
       mset sent = mset fs \<and> sorted (map pf_priority sent) \<and>
       (\<forall>p. filter (\<lambda>f. pf_priority f = p) sent = filter (\<lambda>f. pf_priority f = p) fs)"
proof (intro exI conjI)
  have wf: "priority_sorted ([] :: 'a pending_frame list)" by (simp add: priority_sorted_def)
  show "transmitted (snd (run_io tx_step
           (replicate (length (tx_sendQueue t)) (TxComplete True)) t))
         = map (\<lambda>f. (pf_id f, pf_data f)) (tx_sendQueue t)"
    by (rule drain_transmits [OF assms(1)])
  have "mset (fold Insert gs q) = mset gs + mset q" for gs q :: "'a pending_frame list"
    by (induction gs arbitrary: q) auto
  then show "mset (tx_sendQueue t) = mset fs" using assms(2) by simp
  show "sorted (map pf_priority (tx_sendQueue t))"
    using send_queue.ins_all_wf [OF wf, of fs] assms(2) by (simp add: priority_sorted_def)
  show "\<forall>p. filter (\<lambda>f. pf_priority f = p) (tx_sendQueue t) = filter (\<lambda>f. pf_priority f = p) fs"
    using send_queue.ins_all_lane [OF wf, of _ fs] assms(2) by (simp add: lane_def)
qed

definition sample_frames :: "nat pending_frame list" where
  "sample_frames = [PendingFrame (Id11 1) [1] 1, PendingFrame (Id29 0) [2] 2,
     PendingFrame (Id11 3) [3] 3]"

theorem queue_is_stable_priority_queue_witness:
  "\<exists>sent. mset sent = mset sample_frames \<and> sorted (map pf_priority sent)"
  using queue_is_stable_priority_queue
    [of "(CanFrameTransport 1 True)\<lparr>tx_current := Some (PendingFrame (Id11 9) [] 9),
           tx_sendQueue := fold Insert sample_frames []\<rparr>" sample_frames]
  by (auto simp: CanFrameTransport_def)

text \<open>What a displacement does to a sorted queue: the victim is the newest frame of the least
  urgent priority, and it is less urgent than the frame that takes its place.\<close>

lemma last_least_urgent:
  assumes "priority_sorted q" and "f \<in> set q"
  shows "pf_priority f \<le> pf_priority (last q)"
  using assms
  by (cases q rule: rev_cases) (auto simp: priority_sorted_def sorted_append)

lemma not_emergency_less:
  "IsEmergency f \<Longrightarrow> \<not> IsEmergency g \<Longrightarrow> pf_priority f < pf_priority g"
  by (simp add: IsEmergency_def word_gt_0)

lemma all_emergency_iff_last:
  assumes "priority_sorted q" and "q \<noteq> []"
  shows "IsEmergency (last q) \<longleftrightarrow> (\<forall>f \<in> set q. IsEmergency f)"
  using assms last_least_urgent [OF assms(1)] by (force simp: IsEmergency_def)

text \<open>A send displaces a queued frame only when that frame is strictly less urgent than the
  new one and no queued frame is less urgent than it; it is never an emergency, its callback is
  told of the failure, and it is the only frame that leaves the queue.\<close>

theorem displacement_victim:
  assumes "tx_inv t" and "SendRawFrame i d cb t = (accepted, t', effects)"
    and "completions effects \<noteq> {#}"
  shows "\<exists>victim rest. tx_sendQueue t = rest @ [victim] \<and>
    tx_sendQueue t' = Insert (PendingFrame i d cb) rest \<and>
    \<not> IsEmergency victim \<and> PriorityOf i < pf_priority victim \<and>
    (\<forall>f \<in> set (tx_sendQueue t). pf_priority f \<le> pf_priority victim) \<and>
    accepted \<and> effects = Completed (pf_onDone victim) False # NotifySend t'"
proof -
  have cur: "tx_current t \<noteq> None"
    using assms(2,3) by (cases "tx_current t") (auto simp: SendRawFrame_def Let_def)
  let ?f = "PendingFrame i d cb"
  have enq: "Enqueue ?f t = (accepted, t', effects)"
    using assms(2) cur by (simp add: SendRawFrame_def)
  have acc: accepted and full: "tx_sendQueue t \<noteq> []"
    and victim: "\<not> IsEmergency (last (tx_sendQueue t))"
      "pf_priority ?f < pf_priority (last (tx_sendQueue t))"
    and disp: "(t', effects) = (case DisplaceNewestLeastUrgent ?f t of (u, e) \<Rightarrow> (u, e @ NotifySend u))"
    using enq assms(3) back_exists [of t] not_emergency_less [of ?f "last (tx_sendQueue t)"]
    by (auto simp: Enqueue_def EnqueueEmergency_def EnqueueOrdinary_def not_le
        split: if_splits bool.splits prod.splits)
  have "priority_sorted (tx_sendQueue t)" using assms(1) by (simp add: tx_inv_def)
  note least = last_least_urgent [OF this]
  show ?thesis
  proof (intro exI conjI)
    show "tx_sendQueue t = butlast (tx_sendQueue t) @ [last (tx_sendQueue t)]"
      using full by simp
    show "PriorityOf i < pf_priority (last (tx_sendQueue t))"
      using victim(2) by (simp add: PendingFrame_def)
  qed (use disp victim acc least in \<open>auto simp: DisplaceNewestLeastUrgent_def Let_def\<close>)
qed

text \<open>An emergency frame is refused only when a frame is in transmission and the queue holds
  eight emergencies; a refusal leaves queue and transmission alone and is counted.\<close>

theorem emergency_refused_iff_queue_all_emergencies:
  assumes "tx_inv t" and "PriorityOf i = CanPriority_code emergency"
    and "SendRawFrame i d cb t = (accepted, t', effects)"
  shows "(\<not> accepted) = (tx_current t \<noteq> None \<and> length (tx_sendQueue t) = 8 \<and>
           (\<forall>f \<in> set (tx_sendQueue t). IsEmergency f)) \<and>
         (accepted \<or> (tx_sendQueue t' = tx_sendQueue t \<and> tx_current t' = tx_current t \<and>
           effects = [] \<and>
           emergencyDrops (tx_counters t') = emergencyDrops (tx_counters t) + 1))"
proof (rule conjI)
  have em: "IsEmergency (PendingFrame i d cb)"
    using assms(2) by (simp add: IsEmergency_def PendingFrame_def)
  have sorted: "priority_sorted (tx_sendQueue t)" using assms(1) by (simp add: tx_inv_def)
  have last: "queue_full t \<Longrightarrow> IsEmergency (last (tx_sendQueue t)) =
      (\<forall>f \<in> set (tx_sendQueue t). IsEmergency f)"
    using back_exists [of t] all_emergency_iff_last [OF sorted] by blast
  show "(\<not> accepted) = (tx_current t \<noteq> None \<and> length (tx_sendQueue t) = 8 \<and>
           (\<forall>f \<in> set (tx_sendQueue t). IsEmergency f))"
    using assms(3) em last
    by (auto simp: SendRawFrame_def Let_def Enqueue_def EnqueueEmergency_def queue_full_def
        queueDepth_def split: if_splits bool.splits prod.splits)
next
  have em: "IsEmergency (PendingFrame i d cb)"
    using assms(2) by (simp add: IsEmergency_def PendingFrame_def)
  show "accepted \<or> (tx_sendQueue t' = tx_sendQueue t \<and> tx_current t' = tx_current t \<and>
           effects = [] \<and>
           emergencyDrops (tx_counters t') = emergencyDrops (tx_counters t) + 1)"
    using assms(3) em
    by (auto simp: SendRawFrame_def Let_def Enqueue_def EnqueueEmergency_def
        split: if_splits bool.splits prod.splits)
qed

definition full_transport :: "nat transport" where
  "full_transport = (CanFrameTransport 1 False)
     \<lparr>tx_current := Some (PendingFrame (Id11 9) [] 9),
      tx_sendQueue := map (\<lambda>i. PendingFrame (Id29 (if i < 2 then 0 else 0x0C000000)) [] i) [0..<8]\<rparr>"

lemma full_transport_inv: "tx_inv full_transport"
  by (simp add: full_transport_def tx_inv_def priority_sorted_def frame_ok_def upt_rec
      transport_eval ExtractCanPriority_def canIdPriorityShift_def)

lemma full_transport_displaces:
  "SendRawFrame (Id29 0) [] 50 full_transport =
     (True, full_transport
        \<lparr>tx_counters := (tx_counters full_transport)\<lparr>evictions := 1\<rparr>,
         tx_sendQueue := Insert (PendingFrame (Id29 0) [] 50)
           (butlast (tx_sendQueue full_transport))\<rparr>,
      [Completed 7 False])"
  by (simp add: full_transport_def transport_eval DisplaceNewestLeastUrgent_def upt_rec
      ExtractCanPriority_def canIdPriorityShift_def)

theorem displacement_victim_witness:
  "\<exists>victim rest. tx_sendQueue full_transport = rest @ [victim] \<and> \<not> IsEmergency victim \<and>
     pf_onDone victim = 7"
  using displacement_victim [OF full_transport_inv full_transport_displaces] by auto

theorem emergency_refused_iff_queue_all_emergencies_witness:
  "\<not> (length (tx_sendQueue full_transport) = 8 \<and>
      (\<forall>f \<in> set (tx_sendQueue full_transport). IsEmergency f))"
  using emergency_refused_iff_queue_all_emergencies
    [OF full_transport_inv _ full_transport_displaces]
  by (simp add: PriorityOf_def ExtractCanPriority_def canIdPriorityShift_def full_transport_def)

text \<open>A frame that fails is retried only if it is an emergency, at once and with nothing
  completed, at most twice; the third failure drops it, runs its callback with \<open>False\<close> and
  starts the next queued frame.  Any other failed frame is dropped at its first failure.\<close>

theorem failed_frame_retries:
  assumes "tx_current t = Some f"
  shows "OnSendComplete False t =
    (if IsEmergency f \<and> tx_currentRetries t \<noteq> 2
     then Some (t\<lparr>tx_currentRetries := tx_currentRetries t + 1,
                  tx_counters := (tx_counters t)
                    \<lparr>emergencyRetries := emergencyRetries (tx_counters t) + 1\<rparr>\<rparr>,
                [Transmitted (pf_id f) (pf_data f)])
     else (let counted = t\<lparr>tx_counters :=
                 if IsEmergency f
                 then (tx_counters t)\<lparr>emergencyDrops := emergencyDrops (tx_counters t) + 1\<rparr>
                 else (tx_counters t)\<lparr>sendFailures := sendFailures (tx_counters t) + 1\<rparr>\<rparr>
           in case tx_sendQueue t of
                [] \<Rightarrow> Some (counted\<lparr>tx_current := None\<rparr>, [Completed (pf_onDone f) False])
              | g # q \<Rightarrow> Some (counted\<lparr>tx_current := Some g, tx_sendQueue := q,
                                      tx_currentRetries := 0\<rparr>,
                   [Transmitted (pf_id g) (pf_data g), Completed (pf_onDone f) False])))"
  using assms
  by (auto simp: OnSendComplete_def RetryCurrent_def SendNextQueued_def Transmit_def
      emergencyRetryLimit_def Let_def split: list.splits)

theorem failed_frame_retries_witness:
  "OnSendComplete False (full_transport\<lparr>tx_sendQueue := []\<rparr>) =
     Some (full_transport\<lparr>tx_sendQueue := [], tx_current := None,
       tx_counters := (tx_counters full_transport)\<lparr>sendFailures := 1\<rparr>\<rparr>, [Completed 9 False])"
  using failed_frame_retries
    [of "full_transport\<lparr>tx_sendQueue := []\<rparr>" "PendingFrame (Id11 9) [] 9"]
  by (simp add: full_transport_def transport_eval)

end
