(* ===== verification/IsoTpTransport.thy ===== *)
theory IsoTpTransport
  imports IsoTpReceiver IsoTpSender FrameTransport
begin

text \<open>
  Channels and the ISO-TP transport: \<^verbatim>\<open>IsoTpChannelImpl.cpp\<close> and
  \<^verbatim>\<open>IsoTpTransportImpl.cpp\<close>.

  A channel joins a sender and a receiver under a pair of identifiers.  The transport owns a fixed
  table of channels and sends their frames through the \<^verbatim>\<open>CanFrameTransport\<close> of the node, which
  it shares with the protocol object; the callbacks of the others are values of type \<open>'o\<close>.

  A frame that the frame transport refuses, and a queued frame that it displaces, have their
  callback run with \<open>False\<close> at once.  Such a callback never sends, it aborts or does nothing, so
  the layers below follow the code's nesting without recursion: \<open>run_failed\<close>, then
  \<open>raw_send\<close>, then \<open>run_channel_effect\<close>.
\<close>

section \<open>Channels\<close>

datatype channel_callback = SenderCb sender_callback | ReceiverCb receiver_callback

datatype 'd channel_effect =
    ChTransmit u32 bytes channel_callback
  | ChPdu u32 bytes
  | ChAbort u32 AbortReason
  | ChDone 'd

record 'd channel =
  ch_rxId :: u32
  ch_txId :: u32
  ch_occupied :: bool
  ch_receptionEnabled :: bool
  ch_sender :: "'d sender"
  ch_receiver :: receiver

definition IsoTpChannelImpl :: "nat \<Rightarrow> 'd channel" where
  "IsoTpChannelImpl maxPduSize =
     \<lparr>ch_rxId = 0, ch_txId = 0, ch_occupied = False, ch_receptionEnabled = False,
      ch_sender = IsoTpSender maxPduSize, ch_receiver = IsoTpReceiver maxPduSize\<rparr>"

definition Configure :: "u32 \<Rightarrow> u32 \<Rightarrow> 'd channel \<Rightarrow> 'd channel" where
  "Configure newRxId newTxId ch =
     ch\<lparr>ch_rxId := newRxId, ch_txId := newTxId, ch_occupied := True, ch_receptionEnabled := False\<rparr>"

definition EnableReception :: "'d channel \<Rightarrow> 'd channel" where
  "EnableReception ch = ch\<lparr>ch_receptionEnabled := True\<rparr>"

definition SetFlowControlParametersC :: "u8 \<Rightarrow> u8 \<Rightarrow> 'd channel \<Rightarrow> 'd channel" where
  "SetFlowControlParametersC blockSize separationTime ch =
     ch\<lparr>ch_receiver := SetFlowControlParameters blockSize separationTime (ch_receiver ch)\<rparr>"

definition Release :: "'d channel \<Rightarrow> 'd channel" where
  "Release ch = ch\<lparr>ch_sender := ResetS (ch_sender ch), ch_receiver := ResetR (ch_receiver ch),
     ch_occupied := False, ch_receptionEnabled := False\<rparr>"

text \<open>The functions that \<^verbatim>\<open>Configure\<close> gives to the two halves: transmit under the channel's
  transmit identifier, report aborts under the identifier of the data.\<close>

fun of_sender :: "'d channel \<Rightarrow> 'd sender_effect \<Rightarrow> 'd channel_effect" where
  "of_sender ch (SenderTransmit f cb) = ChTransmit (ch_txId ch) f (SenderCb cb)"
| "of_sender ch (SenderDone d) = ChDone d"
| "of_sender ch (SenderAborted reason) = ChAbort (ch_txId ch) reason"

fun of_receiver :: "'d channel \<Rightarrow> receiver_effect \<Rightarrow> 'd channel_effect" where
  "of_receiver ch (ReceiverTransmit f cb) = ChTransmit (ch_txId ch) f (ReceiverCb cb)"
| "of_receiver ch (PduReady pdu) = ChPdu (ch_rxId ch) pdu"
| "of_receiver ch (ReceiverAborted reason) = ChAbort (ch_rxId ch) reason"

definition with_sender ::
    "'d channel \<Rightarrow> 'd sender \<times> 'd sender_effect list \<Rightarrow> 'd channel \<times> 'd channel_effect list" where
  "with_sender ch r = (ch\<lparr>ch_sender := fst r\<rparr>, map (of_sender ch) (snd r))"

definition with_receiver ::
    "'d channel \<Rightarrow> receiver \<times> receiver_effect list \<Rightarrow> 'd channel \<times> 'd channel_effect list" where
  "with_receiver ch r = (ch\<lparr>ch_receiver := fst r\<rparr>, map (of_receiver ch) (snd r))"

definition ProcessFrameC ::
    "time \<Rightarrow> u32 \<Rightarrow> bytes \<Rightarrow> 'd channel \<Rightarrow> bool \<times> 'd channel \<times> 'd channel_effect list" where
  "ProcessFrameC now canId frame ch =
     (if canId \<noteq> ch_rxId ch then (False, ch, [])
      else if DecodeFrameType frame = flowControl
      then (True, with_sender ch (ProcessFlowControl now frame (ch_sender ch)))
      else if \<not> ch_receptionEnabled ch then (False, ch, [])
      else (True, with_receiver ch (ProcessFrameR now frame (ch_receiver ch))))"

text \<open>A failed assertion of the sender would be \<open>None\<close>; \<open>SendS_total\<close> shows there is none.\<close>

definition SendPduC ::
    "time \<Rightarrow> bytes \<Rightarrow> 'd \<Rightarrow> 'd channel \<Rightarrow> (bool \<times> 'd channel \<times> 'd channel_effect list) option" where
  "SendPduC now pdu onDone ch =
     (case SendS now pdu onDone (ch_sender ch) of
        None \<Rightarrow> None
      | Some (accepted, result) \<Rightarrow> Some (accepted, with_sender ch result))"

fun channel_callback_done ::
    "time \<Rightarrow> channel_callback \<Rightarrow> bool \<Rightarrow> 'd channel \<Rightarrow> 'd channel \<times> 'd channel_effect list" where
  "channel_callback_done now (SenderCb cb) success ch =
     with_sender ch (FrameSendDone now cb success (ch_sender ch))"
| "channel_callback_done now (ReceiverCb cb) success ch =
     with_receiver ch (FcSendDone cb success (ch_receiver ch))"

section \<open>The transport\<close>

datatype 'o bus_callback = IsoCb nat channel_callback | OtherCb 'o

datatype ('d, 'o) iso_output =
    IsoFrame can_id bytes
  | IsoSendNotified
  | IsoPduReceived u32 bytes
  | IsoAborted u32 AbortReason
  | IsoSendDone 'd
  | OtherSendDone 'o bool

record iso_config =
  icfg_blockSize :: u8
  icfg_separationTime :: u8

record ('d, 'o) iso_transport =
  iso_channels :: "'d channel list"
  iso_transport :: "'o bus_callback transport"
  iso_config :: iso_config
  iso_onPduReceived :: bool
  iso_onAbort :: bool
  iso_log :: "('d, 'o) iso_output list"

definition IsoTpTransportImpl ::
    "nat \<Rightarrow> nat \<Rightarrow> 'o bus_callback transport \<Rightarrow> iso_config \<Rightarrow> ('d, 'o) iso_transport" where
  "IsoTpTransportImpl maxPduSize maxChannels transport config =
     \<lparr>iso_channels = replicate maxChannels (IsoTpChannelImpl maxPduSize),
      iso_transport = transport, iso_config = config, iso_onPduReceived = False,
      iso_onAbort = False, iso_log = []\<rparr>"

definition emit_iso :: "('d, 'o) iso_output \<Rightarrow> ('d, 'o) iso_transport \<Rightarrow> ('d, 'o) iso_transport" where
  "emit_iso out t = t\<lparr>iso_log := iso_log t @ [out]\<rparr>"

definition set_channel :: "nat \<Rightarrow> 'd channel \<Rightarrow> ('d, 'o) iso_transport \<Rightarrow> ('d, 'o) iso_transport" where
  "set_channel i ch t = t\<lparr>iso_channels := (iso_channels t)[i := ch]\<rparr>"

definition SetOnPduReceived :: "bool \<Rightarrow> ('d, 'o) iso_transport \<Rightarrow> ('d, 'o) iso_transport" where
  "SetOnPduReceived callback t = t\<lparr>iso_onPduReceived := callback\<rparr>"

definition SetOnAbort :: "bool \<Rightarrow> ('d, 'o) iso_transport \<Rightarrow> ('d, 'o) iso_transport" where
  "SetOnAbort callback t = t\<lparr>iso_onAbort := callback\<rparr>"

definition OnPduReady :: "u32 \<Rightarrow> bytes \<Rightarrow> ('d, 'o) iso_transport \<Rightarrow> ('d, 'o) iso_transport" where
  "OnPduReady dataId pdu t =
     (if iso_onPduReceived t then emit_iso (IsoPduReceived dataId pdu) t else t)"

definition OnAbort :: "u32 \<Rightarrow> AbortReason \<Rightarrow> ('d, 'o) iso_transport \<Rightarrow> ('d, 'o) iso_transport" where
  "OnAbort dataId reason t = (if iso_onAbort t then emit_iso (IsoAborted dataId reason) t else t)"

text \<open>What a channel reports; a transmission is handled by the callers.\<close>

fun notify :: "'d channel_effect \<Rightarrow> ('d, 'o) iso_transport \<Rightarrow> ('d, 'o) iso_transport" where
  "notify (ChTransmit canId f cb) t = t"
| "notify (ChPdu dataId pdu) t = OnPduReady dataId pdu t"
| "notify (ChAbort dataId reason) t = OnAbort dataId reason t"
| "notify (ChDone d) t = emit_iso (IsoSendDone d) t"

definition run_failed ::
    "time \<Rightarrow> nat \<Rightarrow> channel_callback \<Rightarrow> ('d, 'o) iso_transport \<Rightarrow> ('d, 'o) iso_transport" where
  "run_failed now i cb t =
     (case channel_callback_done now cb False (iso_channels t ! i) of
        (ch, effects) \<Rightarrow> fold notify effects (set_channel i ch t))"

fun send_effect :: "time \<Rightarrow> 'o bus_callback tx_effect \<Rightarrow> ('d, 'o) iso_transport \<Rightarrow> ('d, 'o) iso_transport" where
  "send_effect now (Transmitted canId f) t = emit_iso (IsoFrame canId f) t"
| "send_effect now SendNotified t = emit_iso IsoSendNotified t"
| "send_effect now (Completed (IsoCb i cb) success) t = (if success then t else run_failed now i cb t)"
| "send_effect now (Completed (OtherCb other) success) t = emit_iso (OtherSendDone other success) t"

definition OnRawSend ::
    "time \<Rightarrow> u32 \<Rightarrow> bytes \<Rightarrow> 'o bus_callback \<Rightarrow> ('d, 'o) iso_transport \<Rightarrow> bool \<times> ('d, 'o) iso_transport" where
  "OnRawSend now canId frame onDone t =
     (case SendRawFrame (Id29 canId) frame onDone (iso_transport t) of
        (accepted, tx, effects) \<Rightarrow>
          (accepted, fold (send_effect now) effects (t\<lparr>iso_transport := tx\<rparr>)))"

text \<open>\<^verbatim>\<open>IsoTpChannelImpl::Transmit\<close>.\<close>

definition raw_send ::
    "time \<Rightarrow> nat \<Rightarrow> u32 \<Rightarrow> bytes \<Rightarrow> channel_callback \<Rightarrow> ('d, 'o) iso_transport \<Rightarrow> ('d, 'o) iso_transport" where
  "raw_send now i canId frame cb t =
     (case OnRawSend now canId frame (IsoCb i cb) t of
        (accepted, t') \<Rightarrow> if accepted then t' else run_failed now i cb t')"

fun run_channel_effect ::
    "time \<Rightarrow> nat \<Rightarrow> 'd channel_effect \<Rightarrow> ('d, 'o) iso_transport \<Rightarrow> ('d, 'o) iso_transport" where
  "run_channel_effect now i (ChTransmit canId f cb) t = raw_send now i canId f cb t"
| "run_channel_effect now i e t = notify e t"

definition channel_does ::
    "time \<Rightarrow> nat \<Rightarrow> 'd channel \<times> 'd channel_effect list \<Rightarrow> ('d, 'o) iso_transport
       \<Rightarrow> ('d, 'o) iso_transport" where
  "channel_does now i r t = fold (run_channel_effect now i) (snd r) (set_channel i (fst r) t)"

section \<open>The channel table\<close>

definition FindChannel :: "u32 \<Rightarrow> ('d, 'o) iso_transport \<Rightarrow> nat option" where
  "FindChannel canId t =
     find_first (\<lambda>ch. ch_occupied ch \<and> (ch_rxId ch = canId \<or> ch_txId ch = canId)) (iso_channels t)"

definition FindConnection :: "u32 \<Rightarrow> u32 \<Rightarrow> ('d, 'o) iso_transport \<Rightarrow> nat option" where
  "FindConnection rxId txId t =
     (case FindChannel rxId t of
        None \<Rightarrow> None
      | Some i \<Rightarrow> if ch_rxId (iso_channels t ! i) = rxId \<and> ch_txId (iso_channels t ! i) = txId
                 then Some i else None)"

definition AllocateFreeChannel :: "('d, 'o) iso_transport \<Rightarrow> nat option" where
  "AllocateFreeChannel t = find_first (\<lambda>ch. \<not> ch_occupied ch) (iso_channels t)"

definition OpenConnection ::
    "u32 \<Rightarrow> u32 \<Rightarrow> ('d, 'o) iso_transport \<Rightarrow> nat option \<times> ('d, 'o) iso_transport" where
  "OpenConnection rxId txId t =
     (if rxId = txId \<or> FindChannel rxId t \<noteq> None \<or> FindChannel txId t \<noteq> None then (None, t)
      else (case AllocateFreeChannel t of
        None \<Rightarrow> (None, t)
      | Some i \<Rightarrow>
          (Some i, set_channel i
             (SetFlowControlParametersC (icfg_blockSize (iso_config t))
               (icfg_separationTime (iso_config t))
               (Configure rxId txId (iso_channels t ! i))) t)))"

definition RegisterReceiveChannel ::
    "u32 \<Rightarrow> u32 \<Rightarrow> ('d, 'o) iso_transport \<Rightarrow> bool \<times> ('d, 'o) iso_transport" where
  "RegisterReceiveChannel dataId fcId t =
     (case FindConnection dataId fcId t of
        Some i \<Rightarrow>
          if ch_receptionEnabled (iso_channels t ! i) then (False, t)
          else (True, set_channel i (EnableReception (iso_channels t ! i)) t)
      | None \<Rightarrow>
          (case OpenConnection dataId fcId t of
             (None, t') \<Rightarrow> (False, t')
           | (Some i, t') \<Rightarrow> (True, set_channel i (EnableReception (iso_channels t' ! i)) t')))"

definition ReleaseChannel :: "u32 \<Rightarrow> ('d, 'o) iso_transport \<Rightarrow> ('d, 'o) iso_transport" where
  "ReleaseChannel dataId t =
     (case FindChannel dataId t of
        None \<Rightarrow> t
      | Some i \<Rightarrow> set_channel i (Release (iso_channels t ! i)) t)"

text \<open>Sending on the channel with index \<open>i\<close>.\<close>

definition send_on ::
    "time \<Rightarrow> nat \<Rightarrow> bytes \<Rightarrow> 'd \<Rightarrow> ('d, 'o) iso_transport \<Rightarrow> bool \<times> ('d, 'o) iso_transport" where
  "send_on now i pdu onDone t =
     (case SendPduC now pdu onDone (iso_channels t ! i) of
        None \<Rightarrow> (False, t)
      | Some (accepted, result) \<Rightarrow> (accepted, channel_does now i result t))"

definition SendPdu ::
    "time \<Rightarrow> u32 \<Rightarrow> u32 \<Rightarrow> bytes \<Rightarrow> 'd \<Rightarrow> ('d, 'o) iso_transport \<Rightarrow> bool \<times> ('d, 'o) iso_transport" where
  "SendPdu now dataId fcId pdu onDone t =
     (case FindConnection fcId dataId t of
        Some i \<Rightarrow> send_on now i pdu onDone t
      | None \<Rightarrow>
          (case OpenConnection fcId dataId t of
             (None, t') \<Rightarrow> (False, t')
           | (Some i, t') \<Rightarrow>
               (case send_on now i pdu onDone t' of
                  (True, t'') \<Rightarrow> (True, t'')
                | (False, t'') \<Rightarrow>
                    (False, set_channel i (Release (iso_channels t'' ! i)) t''))))"

fun process_from ::
    "time \<Rightarrow> u32 \<Rightarrow> bytes \<Rightarrow> nat list \<Rightarrow> ('d, 'o) iso_transport \<Rightarrow> bool \<times> ('d, 'o) iso_transport" where
  "process_from now canId frame [] t = (False, t)"
| "process_from now canId frame (i # is) t =
     (if ch_occupied (iso_channels t ! i)
      then (case ProcessFrameC now canId frame (iso_channels t ! i) of
              (True, result) \<Rightarrow> (True, channel_does now i result t)
            | (False, _) \<Rightarrow> process_from now canId frame is t)
      else process_from now canId frame is t)"

definition ProcessFrameT ::
    "time \<Rightarrow> u32 \<Rightarrow> bytes \<Rightarrow> ('d, 'o) iso_transport \<Rightarrow> bool \<times> ('d, 'o) iso_transport" where
  "ProcessFrameT now canId frame t =
     process_from now canId frame [0..<length (iso_channels t)] t"

section \<open>Completions and timers\<close>

fun completion_effect ::
    "time \<Rightarrow> 'o bus_callback tx_effect \<Rightarrow> ('d, 'o) iso_transport \<Rightarrow> ('d, 'o) iso_transport" where
  "completion_effect now (Transmitted canId f) t = emit_iso (IsoFrame canId f) t"
| "completion_effect now SendNotified t = emit_iso IsoSendNotified t"
| "completion_effect now (Completed (IsoCb i cb) success) t =
     channel_does now i (channel_callback_done now cb success (iso_channels t ! i)) t"
| "completion_effect now (Completed (OtherCb other) success) t = emit_iso (OtherSendDone other success) t"

definition OnSendCompleteT ::
    "time \<Rightarrow> bool \<Rightarrow> ('d, 'o) iso_transport \<Rightarrow> ('d, 'o) iso_transport" where
  "OnSendCompleteT now success t =
     (case OnSendComplete success (iso_transport t) of
        None \<Rightarrow> t
      | Some (tx, effects) \<Rightarrow> fold (completion_effect now) effects (t\<lparr>iso_transport := tx\<rparr>))"

datatype channel_timer = TimerNAs | TimerNBs | TimerStMin | TimerNCr

definition channel_timer_fires ::
    "time \<Rightarrow> channel_timer \<Rightarrow> 'd channel \<Rightarrow> 'd channel \<times> 'd channel_effect list" where
  "channel_timer_fires now timer ch =
     (case timer of
        TimerNAs \<Rightarrow> with_sender ch (NAsTimeout (ch_sender ch))
      | TimerNBs \<Rightarrow> with_sender ch (NBsTimeout (ch_sender ch))
      | TimerStMin \<Rightarrow> with_sender ch (StMinExpired now (ch_sender ch))
      | TimerNCr \<Rightarrow> with_receiver ch (NCrTimeout (ch_receiver ch)))"

section \<open>What traffic leaves alone\<close>

text \<open>The part of a channel that the table is about.\<close>

definition ch_key :: "'d channel \<Rightarrow> u32 \<times> u32 \<times> bool \<times> bool" where
  "ch_key ch = (ch_rxId ch, ch_txId ch, ch_occupied ch, ch_receptionEnabled ch)"

definition keys :: "('d, 'o) iso_transport \<Rightarrow> (u32 \<times> u32 \<times> bool \<times> bool) list" where
  "keys t = map ch_key (iso_channels t)"

lemma keys_emit [simp]: "keys (emit_iso out t) = keys t"
  by (simp add: keys_def emit_iso_def)

lemma keys_reports [simp]:
  "keys (OnPduReady dataId pdu t) = keys t" "keys (OnAbort dataId reason t) = keys t"
  by (simp_all add: OnPduReady_def OnAbort_def)

lemma keys_notify [simp]: "keys (notify e t) = keys t"
  by (cases e) simp_all

lemma keys_fold: "(\<And>e t. keys (f e t) = keys t) \<Longrightarrow> keys (fold f es t) = keys t"
  by (induction es arbitrary: t) auto

lemma keys_set_channel:
  assumes "ch_key ch = ch_key (iso_channels t ! i)"
  shows "keys (set_channel i ch t) = keys t"
proof (cases "i < length (iso_channels t)")
  case True
  then have "map ch_key ((iso_channels t)[i := ch]) = (map ch_key (iso_channels t))[i := map ch_key (iso_channels t) ! i]"
    using assms by (simp add: map_update)
  then show ?thesis by (simp add: keys_def set_channel_def)
qed (simp add: keys_def set_channel_def list_update_beyond)

lemma ch_key_with [simp]:
  "ch_key (fst (with_sender ch r)) = ch_key ch" "ch_key (fst (with_receiver ch v)) = ch_key ch"
  by (simp_all add: with_sender_def with_receiver_def ch_key_def)

lemma ch_key_callback [simp]: "ch_key (fst (channel_callback_done now cb ok ch)) = ch_key ch"
  by (cases cb) simp_all

lemma ch_key_timer [simp]: "ch_key (fst (channel_timer_fires now timer ch)) = ch_key ch"
  by (cases timer) (simp_all add: channel_timer_fires_def)

lemma keys_run_failed [simp]: "keys (run_failed now i cb t) = keys t"
proof -
  obtain ch e where "channel_callback_done now cb False (iso_channels t ! i) = (ch, e)"
    by (rule prod.exhaust)
  moreover from this have "ch_key ch = ch_key (iso_channels t ! i)"
    by (metis ch_key_callback fst_conv)
  ultimately show ?thesis
    by (simp add: run_failed_def keys_fold keys_set_channel)
qed

lemma keys_send_effect [simp]: "keys (send_effect now e t) = keys t"
proof (cases e)
  case (Completed cb ok)
  then show ?thesis by (cases cb) simp_all
qed simp_all

lemma keys_OnRawSend: "OnRawSend now canId f cb t = (ok, t') \<Longrightarrow> keys t' = keys t"
proof -
  have "keys (t\<lparr>iso_transport := tx\<rparr>) = keys t" for tx by (simp add: keys_def)
  then show "OnRawSend now canId f cb t = (ok, t') \<Longrightarrow> keys t' = keys t"
    by (auto simp: OnRawSend_def keys_fold split: prod.splits)
qed

lemma keys_raw_send [simp]: "keys (raw_send now i canId f cb t) = keys t"
  by (auto simp: raw_send_def split: prod.splits dest: keys_OnRawSend)

lemma keys_channel_effect [simp]: "keys (run_channel_effect now i e t) = keys t"
  by (cases e) simp_all

lemma keys_channel_does:
  "ch_key (fst r) = ch_key (iso_channels t ! i) \<Longrightarrow> keys (channel_does now i r t) = keys t"
  by (simp add: channel_does_def keys_fold keys_set_channel)

lemma keys_completion_effect [simp]: "keys (completion_effect now e t) = keys t"
proof (cases e)
  case (Completed cb ok)
  then show ?thesis by (cases cb) (simp_all add: keys_channel_does)
qed simp_all

lemma keys_OnSendCompleteT [simp]: "keys (OnSendCompleteT now ok t) = keys t"
proof -
  have "keys (t\<lparr>iso_transport := tx\<rparr>) = keys t" for tx by (simp add: keys_def)
  then show ?thesis
    by (simp add: OnSendCompleteT_def keys_fold split: option.splits prod.splits)
qed

lemma SendPduC_key: "SendPduC now pdu d ch = Some (ok, r) \<Longrightarrow> ch_key (fst r) = ch_key ch"
  by (auto simp: SendPduC_def split: option.splits)

lemma keys_send_on: "send_on now i pdu d t = (ok, t') \<Longrightarrow> keys t' = keys t"
  by (auto simp: send_on_def split: option.splits dest: SendPduC_key intro: keys_channel_does)

lemma ProcessFrameC_key: "ProcessFrameC now canId f ch = (ok, r) \<Longrightarrow> ch_key (fst r) = ch_key ch"
  by (auto simp: ProcessFrameC_def split: if_splits)

lemma keys_process_from: "process_from now canId f is t = (ok, t') \<Longrightarrow> keys t' = keys t"
  by (induction "is" arbitrary: t)
    (auto split: if_splits prod.splits bool.splits dest: ProcessFrameC_key intro: keys_channel_does)

section \<open>The table invariant\<close>

definition key_ids :: "u32 \<times> u32 \<times> bool \<times> bool \<Rightarrow> u32 set" where
  "key_ids k = (case k of (rx, tx, occupied, enabled) \<Rightarrow> if occupied then {rx, tx} else {})"

definition key_ok :: "u32 \<times> u32 \<times> bool \<times> bool \<Rightarrow> bool" where
  "key_ok k = (case k of (rx, tx, occupied, enabled) \<Rightarrow>
     (occupied \<longrightarrow> rx \<noteq> tx) \<and> (enabled \<longrightarrow> occupied))"

definition table_ok :: "(u32 \<times> u32 \<times> bool \<times> bool) list \<Rightarrow> bool" where
  "table_ok ks \<longleftrightarrow> list_all key_ok ks \<and>
     (\<forall>i j. i < length ks \<longrightarrow> j < length ks \<longrightarrow> i \<noteq> j \<longrightarrow> key_ids (ks ! i) \<inter> key_ids (ks ! j) = {})"

lemma table_ok_update:
  assumes "table_ok ks" and "i < length ks" and "key_ok k"
    and "\<And>j. j < length ks \<Longrightarrow> j \<noteq> i \<Longrightarrow> key_ids k \<inter> key_ids (ks ! j) = {}"
  shows "table_ok (ks[i := k])"
  using assms unfolding table_ok_def
  by (auto simp: list_all_length nth_list_update)

lemma FindChannel_None:
  assumes "FindChannel canId t = None" and "j < length (keys t)"
  shows "canId \<notin> key_ids (keys t ! j)"
proof -
  have "\<forall>ch \<in> set (iso_channels t). \<not> (ch_occupied ch \<and> (ch_rxId ch = canId \<or> ch_txId ch = canId))"
    using assms(1) unfolding FindChannel_def find_first_None .
  then have "\<not> (ch_occupied (iso_channels t ! j) \<and>
      (ch_rxId (iso_channels t ! j) = canId \<or> ch_txId (iso_channels t ! j) = canId))"
    using assms(2) by (simp add: keys_def)
  then show ?thesis using assms(2) by (auto simp: keys_def key_ids_def ch_key_def)
qed

lemma OpenConnection_Some:
  assumes "OpenConnection rx tx t = (Some i, t')"
  shows "i < length (keys t) \<and> rx \<noteq> tx \<and> \<not> ch_occupied (iso_channels t ! i) \<and>
    keys t' = (keys t)[i := (rx, tx, True, False)] \<and>
    (\<forall>j < length (keys t). rx \<notin> key_ids (keys t ! j) \<and> tx \<notin> key_ids (keys t ! j)) \<and>
    iso_channels t' = (iso_channels t)[i := iso_channels t' ! i]"
proof -
  have none: "rx \<noteq> tx" "FindChannel rx t = None" "FindChannel tx t = None"
    and free: "AllocateFreeChannel t = Some i"
    and t': "t' = set_channel i (SetFlowControlParametersC (icfg_blockSize (iso_config t))
               (icfg_separationTime (iso_config t)) (Configure rx tx (iso_channels t ! i))) t"
    using assms by (auto simp: OpenConnection_def split: if_splits option.splits)
  have i: "i < length (iso_channels t)" "\<not> ch_occupied (iso_channels t ! i)"
    using find_first_Some [OF free [unfolded AllocateFreeChannel_def]] by auto
  have "keys t' = (keys t)[i := (rx, tx, True, False)]"
    by (simp add: t' keys_def set_channel_def map_update ch_key_def SetFlowControlParametersC_def
        Configure_def)
  moreover have "iso_channels t' = (iso_channels t)[i := iso_channels t' ! i]"
    using i by (simp add: t' set_channel_def)
  ultimately show ?thesis
    using i none FindChannel_None [of rx t] FindChannel_None [of tx t] by (simp add: keys_def)
qed

lemma OpenConnection_None: "OpenConnection rx tx t = (None, t') \<Longrightarrow> t' = t"
  by (auto simp: OpenConnection_def split: if_splits option.splits)

lemma open_table_ok:
  assumes "table_ok (keys t)" and "OpenConnection rx tx t = (Some i, t')"
  shows "table_ok ((keys t)[i := (rx, tx, True, enabled)])"
  using OpenConnection_Some [OF assms(2)]
  by (intro table_ok_update [OF assms(1)]) (auto simp: key_ok_def key_ids_def split: prod.splits)

lemma keys_set: "i < length (iso_channels t) \<Longrightarrow> keys (set_channel i ch t) = (keys t)[i := ch_key ch]"
  by (simp add: keys_def set_channel_def map_update)

lemma keys_nth: "i < length (iso_channels t) \<Longrightarrow> keys t ! i = ch_key (iso_channels t ! i)"
  by (simp add: keys_def)

lemma keys_length: "length (keys t) = length (iso_channels t)"
  by (simp add: keys_def)

lemma release_table_ok:
  assumes "table_ok (keys t)" and "i < length (iso_channels t)"
  shows "table_ok (keys (set_channel i (Release (iso_channels t ! i)) t))"
  unfolding keys_set [OF assms(2)] using assms
  by (intro table_ok_update) (auto simp: keys_length key_ok_def key_ids_def ch_key_def Release_def)

lemma FindConnection_Some:
  assumes "FindConnection rx tx t = Some i"
  shows "i < length (iso_channels t) \<and> ch_occupied (iso_channels t ! i) \<and>
    ch_rxId (iso_channels t ! i) = rx \<and> ch_txId (iso_channels t ! i) = tx"
  using assms by (auto simp: FindConnection_def FindChannel_def split: option.splits if_splits
      dest: find_first_Some)

lemma RegisterReceiveChannel_table:
  assumes "table_ok (keys t)" and "RegisterReceiveChannel dataId fcId t = (ok, t')"
  shows "table_ok (keys t')"
proof (cases "FindConnection dataId fcId t")
  case (Some i)
  note found = FindConnection_Some [OF Some]
  define k where "k = ch_key (EnableReception (iso_channels t ! i))"
  have key: "key_ids k = key_ids (keys t ! i)" "key_ok k"
    using assms(1) found
    by (auto simp: k_def keys_nth keys_length table_ok_def list_all_length key_ok_def key_ids_def
        ch_key_def EnableReception_def)
  have "table_ok ((keys t)[i := k])"
    using assms(1) found key(2)
    by (intro table_ok_update) (auto simp: keys_length key(1) table_ok_def)
  then have "table_ok (keys (set_channel i (EnableReception (iso_channels t ! i)) t))"
    using found by (simp add: keys_set k_def)
  then show ?thesis
    using assms Some by (auto simp: RegisterReceiveChannel_def split: if_splits)
next
  case None
  obtain opened t1 where opened: "OpenConnection dataId fcId t = (opened, t1)"
    by (rule prod.exhaust)
  show ?thesis
  proof (cases opened)
    case None
    then show ?thesis
      using assms \<open>FindConnection dataId fcId t = None\<close> opened OpenConnection_None
      by (auto simp: RegisterReceiveChannel_def)
  next
    case (Some i)
    note o = OpenConnection_Some [OF opened [unfolded Some]]
    have len: "i < length (iso_channels t1)"
      using o by (metis keys_length length_list_update)
    have "ch_key (iso_channels t1 ! i) = (dataId, fcId, True, False)"
      using o len keys_nth [OF len] by (simp add: keys_length)
    then have "keys (set_channel i (EnableReception (iso_channels t1 ! i)) t1) =
        (keys t)[i := (dataId, fcId, True, True)]"
      using o by (simp add: keys_set [OF len] ch_key_def EnableReception_def)
    then have "table_ok (keys (set_channel i (EnableReception (iso_channels t1 ! i)) t1))"
      using open_table_ok [OF assms(1) opened [unfolded Some]] by simp
    then show ?thesis
      using assms \<open>FindConnection dataId fcId t = None\<close> opened Some
      by (auto simp: RegisterReceiveChannel_def)
  qed
qed

lemma SendPdu_table:
  assumes ok: "table_ok (keys t)" and send: "SendPdu now dataId fcId pdu d t = (sent, t')"
  shows "table_ok (keys t')"
proof (cases "FindConnection fcId dataId t")
  case (Some i)
  then show ?thesis using assms by (auto simp: SendPdu_def dest: keys_send_on)
next
  case None
  obtain opened t1 where opened: "OpenConnection fcId dataId t = (opened, t1)"
    by (rule prod.exhaust)
  show ?thesis
  proof (cases opened)
    case None
    then show ?thesis
      using assms \<open>FindConnection fcId dataId t = None\<close> opened OpenConnection_None
      by (auto simp: SendPdu_def)
  next
    case (Some i)
    note o = OpenConnection_Some [OF opened [unfolded Some]]
    obtain sent2 t2 where t2: "send_on now i pdu d t1 = (sent2, t2)" by (rule prod.exhaust)
    have keys2: "keys t2 = (keys t)[i := (fcId, dataId, True, False)]"
      using keys_send_on [OF t2] o by simp
    then have ok2: "table_ok (keys t2)" using open_table_ok [OF ok opened [unfolded Some]] by simp
    have "i < length (iso_channels t2)"
      using o keys2 by (metis keys_length length_list_update)
    from release_table_ok [OF ok2 this] show ?thesis
      using send \<open>FindConnection fcId dataId t = None\<close> opened Some t2 ok2
      by (auto simp: SendPdu_def split: bool.splits)
  qed
qed


section \<open>The transport as a machine\<close>

datatype ('d, 'o) iso_event =
    IsoRegister u32 u32
  | IsoRelease u32
  | IsoSend time u32 u32 bytes 'd
  | IsoFrameIn time u32 bytes
  | IsoRawSend time u32 bytes 'o
  | IsoComplete time bool
  | IsoTimer time nat channel_timer
  | IsoOnPdu bool
  | IsoOnAbort bool

fun iso_apply :: "('d, 'o) iso_event \<Rightarrow> ('d, 'o) iso_transport \<Rightarrow> ('d, 'o) iso_transport" where
  "iso_apply (IsoRegister dataId fcId) t = snd (RegisterReceiveChannel dataId fcId t)"
| "iso_apply (IsoRelease dataId) t = ReleaseChannel dataId t"
| "iso_apply (IsoSend now dataId fcId pdu d) t = snd (SendPdu now dataId fcId pdu d t)"
| "iso_apply (IsoFrameIn now canId frame) t = snd (ProcessFrameT now canId frame t)"
| "iso_apply (IsoRawSend now canId frame other) t = snd (OnRawSend now canId frame (OtherCb other) t)"
| "iso_apply (IsoComplete now success) t = OnSendCompleteT now success t"
| "iso_apply (IsoTimer now i timer) t =
     channel_does now i (channel_timer_fires now timer (iso_channels t ! i)) t"
| "iso_apply (IsoOnPdu callback) t = SetOnPduReceived callback t"
| "iso_apply (IsoOnAbort callback) t = SetOnAbort callback t"

definition timer_armed :: "channel_timer \<Rightarrow> 'd channel \<Rightarrow> bool" where
  "timer_armed timer ch =
     (case timer of
        TimerNAs \<Rightarrow> snd_nAsTimer (ch_sender ch) \<noteq> None
      | TimerNBs \<Rightarrow> snd_nBsTimer (ch_sender ch) \<noteq> None
      | TimerStMin \<Rightarrow> snd_stMinTimer (ch_sender ch) \<noteq> None
      | TimerNCr \<Rightarrow> rcv_nCrTimer (ch_receiver ch) \<noteq> None)"

definition iso_enabled :: "('d, 'o) iso_event \<Rightarrow> ('d, 'o) iso_transport \<Rightarrow> bool" where
  "iso_enabled e t =
     (case e of
        IsoComplete now success \<Rightarrow> tx_current (iso_transport t) \<noteq> None
      | IsoTimer now i timer \<Rightarrow> i < length (iso_channels t) \<and> timer_armed timer (iso_channels t ! i)
      | _ \<Rightarrow> True)"

definition iso_step ::
    "('d, 'o) iso_event \<Rightarrow> ('d, 'o) iso_transport \<Rightarrow> ('d, 'o) iso_transport \<times> ('d, 'o) iso_output list" where
  "iso_step e t = (let t' = iso_apply e t in (t', drop (length (iso_log t)) (iso_log t')))"

text \<open>The table keeps its size \<open>n\<close> and its invariant.\<close>

definition iso_inv :: "nat \<Rightarrow> ('d, 'o) iso_transport \<Rightarrow> bool" where
  "iso_inv n t \<longleftrightarrow> length (keys t) = n \<and> table_ok (keys t)"

lemma RegisterReceiveChannel_length:
  "RegisterReceiveChannel dataId fcId t = (ok, t') \<Longrightarrow> length (keys t') = length (keys t)"
  by (auto simp: RegisterReceiveChannel_def OpenConnection_def keys_def set_channel_def
      split: option.splits if_splits prod.splits)

lemma OpenConnection_length:
  "OpenConnection rx tx t = (r, t') \<Longrightarrow> length (keys t') = length (keys t)"
  by (auto simp: OpenConnection_def keys_def set_channel_def split: option.splits if_splits)

lemma set_channel_length [simp]: "length (keys (set_channel i ch t)) = length (keys t)"
  by (simp add: keys_def set_channel_def)

lemma SendPdu_length:
  assumes "SendPdu now dataId fcId pdu d t = (ok, t')"
  shows "length (keys t') = length (keys t)"
  using assms
  by (auto simp: SendPdu_def split: option.splits prod.splits bool.splits
      dest!: keys_send_on OpenConnection_length)

lemma SendPdu_inv: "iso_inv n t \<Longrightarrow> iso_inv n (snd (SendPdu now dataId fcId pdu d t))"
  by (cases "SendPdu now dataId fcId pdu d t")
    (auto simp: iso_inv_def dest: SendPdu_length intro: SendPdu_table)

lemma RegisterReceiveChannel_inv:
  "iso_inv n t \<Longrightarrow> iso_inv n (snd (RegisterReceiveChannel dataId fcId t))"
  by (cases "RegisterReceiveChannel dataId fcId t")
    (auto simp: iso_inv_def dest: RegisterReceiveChannel_length intro: RegisterReceiveChannel_table)

lemma ReleaseChannel_inv: "iso_inv n t \<Longrightarrow> iso_inv n (ReleaseChannel dataId t)"
  by (auto simp: iso_inv_def ReleaseChannel_def FindChannel_def split: option.splits
      intro: release_table_ok dest: find_first_Some)

lemma iso_inv_keys: "keys t' = keys t \<Longrightarrow> iso_inv n t \<Longrightarrow> iso_inv n t'"
  by (simp add: iso_inv_def)

lemma iso_apply_inv: "iso_inv n t \<Longrightarrow> iso_inv n (iso_apply e t)"
proof (cases e)
  case (IsoFrameIn now canId frame)
  assume inv: "iso_inv n t"
  obtain ok t' where r: "ProcessFrameT now canId frame t = (ok, t')" by (rule prod.exhaust)
  from keys_process_from [OF r [unfolded ProcessFrameT_def]] r inv IsoFrameIn show ?thesis
    by (simp add: iso_inv_def)
next
  case (IsoRawSend now canId frame other)
  assume inv: "iso_inv n t"
  obtain ok t' where r: "OnRawSend now canId frame (OtherCb other) t = (ok, t')" by (rule prod.exhaust)
  from keys_OnRawSend [OF r] r inv IsoRawSend show ?thesis by (simp add: iso_inv_def)
next
  case (IsoTimer now i timer)
  then show "iso_inv n t \<Longrightarrow> iso_inv n (iso_apply e t)"
    by (auto intro!: iso_inv_keys [OF keys_channel_does])
qed (simp_all add: SendPdu_inv RegisterReceiveChannel_inv ReleaseChannel_inv,
    simp_all add: iso_inv_def keys_def SetOnPduReceived_def SetOnAbort_def
      keys_OnSendCompleteT [unfolded keys_def])

interpretation isot: io_machine iso_step iso_enabled "iso_inv n" for n
  by unfold_locales (simp add: iso_step_def Let_def iso_apply_inv)

lemma iso_inv_initial: "iso_inv n (IsoTpTransportImpl maxPduSize n transport config)"
  by (simp add: iso_inv_def keys_def IsoTpTransportImpl_def table_ok_def list_all_iff
      IsoTpChannelImpl_def ch_key_def key_ok_def key_ids_def)


section \<open>Connections\<close>

text \<open>What the table means to its users: the set of open connections, as pairs of the identifier
  listened to and the identifier sent under.\<close>

definition connections :: "('d, 'o) iso_transport \<Rightarrow> (u32 \<times> u32) set" where
  "connections t = {(rx, tx). \<exists>enabled. (rx, tx, True, enabled) \<in> set (keys t)}"

definition in_use :: "u32 \<Rightarrow> ('d, 'o) iso_transport \<Rightarrow> bool" where
  "in_use canId t \<longleftrightarrow> list_ex (\<lambda>k. canId \<in> key_ids k) (keys t)"

definition has_free :: "('d, 'o) iso_transport \<Rightarrow> bool" where
  "has_free t \<longleftrightarrow> list_ex (\<lambda>ch. \<not> ch_occupied ch) (iso_channels t)"

lemma FindChannel_in_use: "(FindChannel canId t = None) \<longleftrightarrow> \<not> in_use canId t"
  by (auto simp: FindChannel_def find_first_None in_use_def list_ex_iff keys_def key_ids_def
      ch_key_def split: if_splits)

lemma AllocateFreeChannel_has_free: "(AllocateFreeChannel t = None) \<longleftrightarrow> \<not> has_free t"
  by (simp add: AllocateFreeChannel_def find_first_None has_free_def list_ex_iff)

lemma OpenConnection_iff:
  "(\<exists>i t'. OpenConnection rx tx t = (Some i, t')) \<longleftrightarrow>
     rx \<noteq> tx \<and> \<not> in_use rx t \<and> \<not> in_use tx t \<and> has_free t"
proof (cases "rx = tx \<or> FindChannel rx t \<noteq> None \<or> FindChannel tx t \<noteq> None")
  case True
  then show ?thesis using FindChannel_in_use [of rx t] FindChannel_in_use [of tx t]
    by (auto simp: OpenConnection_def)
next
  case False
  then show ?thesis
    using FindChannel_in_use [of rx t] FindChannel_in_use [of tx t] AllocateFreeChannel_has_free [of t]
    by (cases "AllocateFreeChannel t") (auto simp: OpenConnection_def)
qed

text \<open>At most one channel carries an identifier.\<close>

lemma channel_unique:
  assumes "table_ok (keys t)" and "i < length (keys t)" and "j < length (keys t)"
    and "x \<in> key_ids (keys t ! i)" and "x \<in> key_ids (keys t ! j)"
  shows "i = j"
  using assms unfolding table_ok_def by (metis IntI empty_iff)

lemma FindConnection_iff:
  assumes "table_ok (keys t)"
  shows "FindConnection rx tx t = Some i \<longleftrightarrow>
    i < length (keys t) \<and> (\<exists>enabled. keys t ! i = (rx, tx, True, enabled))"
proof
  assume "FindConnection rx tx t = Some i"
  then show "i < length (keys t) \<and> (\<exists>enabled. keys t ! i = (rx, tx, True, enabled))"
    using FindConnection_Some by (fastforce simp: keys_length keys_nth ch_key_def)
next
  assume i: "i < length (keys t) \<and> (\<exists>enabled. keys t ! i = (rx, tx, True, enabled))"
  then have mem: "rx \<in> key_ids (keys t ! i)" by (auto simp: key_ids_def)
  then have "in_use rx t" using i by (auto simp: in_use_def list_ex_length)
  then obtain j where j: "FindChannel rx t = Some j" using FindChannel_in_use by fastforce
  then have "j < length (keys t)" "rx \<in> key_ids (keys t ! j)"
    by (auto simp: FindChannel_def keys_length keys_nth key_ids_def ch_key_def dest!: find_first_Some)
  then have "j = i" using channel_unique [OF assms] i mem by blast
  then show "FindConnection rx tx t = Some i"
    using i j by (auto simp: FindConnection_def keys_length keys_nth ch_key_def)
qed

lemma FindConnection_None_iff:
  assumes "table_ok (keys t)"
  shows "FindConnection rx tx t = None \<longleftrightarrow> (rx, tx) \<notin> connections t"
proof -
  have "(\<exists>i. FindConnection rx tx t = Some i) \<longleftrightarrow> (rx, tx) \<in> connections t"
    unfolding FindConnection_iff [OF assms] connections_def by (auto simp: in_set_conv_nth)
  then show ?thesis by (metis option.distinct(1) not_None_eq)
qed

lemma connections_open:
  assumes "table_ok (keys t)" and "keys t' = (keys t)[i := (rx, tx, True, enabled)]"
    and "i < length (keys t)" and "\<not> ch_occupied (iso_channels t ! i)"
  shows "connections t' = insert (rx, tx) (connections t)"
proof -
  have "\<not> fst (snd (snd (keys t ! i)))"
    using assms(3,4) by (simp add: keys_length keys_nth ch_key_def)
  then show ?thesis
    using assms(3) unfolding connections_def assms(2)
    by (auto simp: in_set_conv_nth nth_list_update split: if_splits) (metis fst_conv snd_conv)+
qed


lemma connections_keys: "keys t' = keys t \<Longrightarrow> connections t' = connections t"
  by (simp add: connections_def)

lemma in_connections:
  "(a, b) \<in> connections t \<longleftrightarrow> (\<exists>j < length (keys t). \<exists>e. keys t ! j = (a, b, True, e))"
  by (auto simp: connections_def in_set_conv_nth)

lemma connections_same:
  assumes "keys t ! i = (rx, tx, True, e)" and "i < length (keys t)"
    and "keys t' = (keys t)[i := (rx, tx, True, e')]"
  shows "connections t' = connections t"
proof -
  have "(\<exists>e. (keys t)[i := (rx, tx, True, e')] ! j = (a, b, True, e)) \<longleftrightarrow>
      (\<exists>e. keys t ! j = (a, b, True, e))" for a b j
    using assms(1,2) by (cases "j = i") auto
  then have "(a, b) \<in> connections t' \<longleftrightarrow> (a, b) \<in> connections t" for a b
    by (simp add: in_connections assms(3))
  then show ?thesis by auto
qed

lemma connections_release:
  assumes "table_ok (keys t)" and "i < length (keys t)" and "canId \<in> key_ids (keys t ! i)"
    and "keys t' = (keys t)[i := (rx, tx, False, False)]"
  shows "connections t' = {c \<in> connections t. fst c \<noteq> canId \<and> snd c \<noteq> canId}"
proof -
  have kept: "j \<noteq> i \<longleftrightarrow> a \<noteq> canId \<and> b \<noteq> canId"
    if "j < length (keys t)" and k: "keys t ! j = (a, b, True, e)" for j a b e
  proof -
    have "j \<noteq> i \<longleftrightarrow> canId \<notin> key_ids (keys t ! j)"
      using channel_unique [OF assms(1) that(1) assms(2) _ assms(3)] assms(3) by blast
    then show ?thesis by (auto simp: k key_ids_def)
  qed
  have "(a, b) \<in> connections t' \<longleftrightarrow> (a, b) \<in> connections t \<and> a \<noteq> canId \<and> b \<noteq> canId" for a b
  proof -
    have "(a, b) \<in> connections t' \<longleftrightarrow>
        (\<exists>j < length (keys t). j \<noteq> i \<and> (\<exists>e. keys t ! j = (a, b, True, e)))"
      unfolding in_connections assms(4)
      by (rule ex_cong1) (use assms(2) in \<open>simp add: nth_list_update\<close>)
    also have "\<dots> \<longleftrightarrow> (\<exists>j < length (keys t). (\<exists>e. keys t ! j = (a, b, True, e))) \<and>
        a \<noteq> canId \<and> b \<noteq> canId"
      using kept by blast
    finally show ?thesis by (simp add: in_connections)
  qed
  then show ?thesis by auto
qed

lemma register_existing:
  assumes "table_ok (keys t)" and "FindConnection dataId fcId t = Some i"
    and "RegisterReceiveChannel dataId fcId t = (ok, t')"
  shows "connections t' = connections t \<and>
    (if ok then (dataId, fcId, True, False) \<in> set (keys t) \<and> (dataId, fcId, True, True) \<in> set (keys t')
     else t' = t \<and> (dataId, fcId, True, True) \<in> set (keys t))"
proof -
  obtain e where i: "i < length (keys t)" and k: "keys t ! i = (dataId, fcId, True, e)"
    using assms(2) FindConnection_iff [OF assms(1)] by blast
  then have en: "ch_receptionEnabled (iso_channels t ! i) = e"
    by (simp add: keys_length keys_nth ch_key_def)
  show ?thesis
  proof (cases e)
    case True
    then show ?thesis
      using assms(2,3) en i k by (auto simp: RegisterReceiveChannel_def in_set_conv_nth)
  next
    case False
    then have t': "t' = set_channel i (EnableReception (iso_channels t ! i)) t" "ok"
      using assms(2,3) en by (auto simp: RegisterReceiveChannel_def)
    have "keys t' = (keys t)[i := (dataId, fcId, True, True)]"
      using i k by (simp add: t' keys_length keys_set keys_nth ch_key_def EnableReception_def)
    with connections_same [OF k i this] show ?thesis
      using i k False t'(2) by (auto simp: in_set_conv_nth intro!: exI [of _ i])
  qed
qed

lemma register_new:
  assumes "table_ok (keys t)" and "FindConnection dataId fcId t = None"
    and "RegisterReceiveChannel dataId fcId t = (ok, t')"
  shows "(if ok then connections t' = insert (dataId, fcId) (connections t) \<and>
            (dataId, fcId, True, True) \<in> set (keys t')
          else t' = t) \<and>
    ok = (dataId \<noteq> fcId \<and> \<not> in_use dataId t \<and> \<not> in_use fcId t \<and> has_free t)"
proof -
  obtain opened t1 where o: "OpenConnection dataId fcId t = (opened, t1)" by (rule prod.exhaust)
  show ?thesis
  proof (cases opened)
    case None
    then have "\<not> (dataId \<noteq> fcId \<and> \<not> in_use dataId t \<and> \<not> in_use fcId t \<and> has_free t)"
      using o OpenConnection_iff [of dataId fcId t] by auto
    with None o assms(2,3) show ?thesis
      using OpenConnection_None [of dataId fcId t t1] by (auto simp: RegisterReceiveChannel_def)
  next
    case (Some i)
    note op = OpenConnection_Some [OF o [unfolded Some]]
    have len: "i < length (iso_channels t1)" using op by (metis keys_length length_list_update)
    have t': "t' = set_channel i (EnableReception (iso_channels t1 ! i)) t1" "ok"
      using assms(2,3) o Some by (auto simp: RegisterReceiveChannel_def)
    have "ch_key (iso_channels t1 ! i) = (dataId, fcId, True, False)"
      using op len keys_nth [OF len] by (simp add: keys_length)
    then have k: "keys t' = (keys t)[i := (dataId, fcId, True, True)]"
      using op len by (simp add: t' keys_set ch_key_def EnableReception_def)
    have "dataId \<noteq> fcId \<and> \<not> in_use dataId t \<and> \<not> in_use fcId t \<and> has_free t"
      using o Some OpenConnection_iff [of dataId fcId t] by auto
    with connections_open [OF assms(1) k] op k t'(2) show ?thesis
      by (auto simp: in_set_conv_nth intro!: exI [of _ i])
  qed
qed


section \<open>Sending, receiving and releasing\<close>

definition accepts_pdu :: "bytes \<Rightarrow> 'd channel \<Rightarrow> bool" where
  "accepts_pdu pdu ch \<longleftrightarrow> 0 < length pdu \<and> length pdu \<le> 4095 \<and>
     length pdu \<le> snd_maxSize (ch_sender ch) \<and> IsIdleS (ch_sender ch)"

lemma SendPduC_accepts:
  "\<exists>r. SendPduC now pdu d ch = Some (accepts_pdu pdu ch, r) \<and> ch_key (fst r) = ch_key ch"
proof -
  obtain ok r where s: "SendS now pdu d (ch_sender ch) = Some (ok, r)"
    using SendS_total by fastforce
  have "ok = accepts_pdu pdu ch"
    using s by (auto simp: SendS_def accepts_pdu_def ffMaxPduLength_def IsIdleS_def
        split: if_splits option.splits)
  with s show ?thesis by (simp add: SendPduC_def)
qed

lemma send_on_accepts:
  "send_on now i pdu d t = (ok, t') \<Longrightarrow> ok = accepts_pdu pdu (iso_channels t ! i) \<and> keys t' = keys t"
  using SendPduC_accepts [of now pdu d "iso_channels t ! i"]
  by (auto simp: send_on_def keys_channel_does)

lemma OpenConnection_channel:
  assumes "OpenConnection rx tx t = (Some i, t')"
  shows "AllocateFreeChannel t = Some i \<and> ch_sender (iso_channels t' ! i) = ch_sender (iso_channels t ! i)"
proof -
  have f: "AllocateFreeChannel t = Some i"
    using assms by (auto simp: OpenConnection_def split: if_splits option.splits)
  moreover have "i < length (iso_channels t)"
    using find_first_Some [OF f [unfolded AllocateFreeChannel_def]] by simp
  ultimately show ?thesis
    using assms by (auto simp: OpenConnection_def set_channel_def SetFlowControlParametersC_def
        Configure_def split: if_splits option.splits)
qed

lemma connections_unoccupied:
  assumes "\<not> ch_occupied (iso_channels t ! i)" and "i < length (keys t)"
    and "keys t' = (keys t)[i := (rx, tx, False, e')]"
  shows "connections t' = connections t"
proof -
  have "(\<exists>e. (keys t)[i := (rx, tx, False, e')] ! j = (a, b, True, e)) \<longleftrightarrow>
      (\<exists>e. keys t ! j = (a, b, True, e))" for a b j
    using assms(1,2) by (cases "j = i") (auto simp: keys_length keys_nth ch_key_def)
  then have "(a, b) \<in> connections t' \<longleftrightarrow> (a, b) \<in> connections t" for a b
    by (simp add: in_connections assms(3))
  then show ?thesis by auto
qed

text \<open>The channel a PDU goes to: the connection of the pair, or a free one when it can be opened.\<close>

definition send_target :: "u32 \<Rightarrow> u32 \<Rightarrow> ('d, 'o) iso_transport \<Rightarrow> nat option" where
  "send_target dataId fcId t =
     (case FindConnection fcId dataId t of
        Some i \<Rightarrow> Some i
      | None \<Rightarrow> if fcId \<noteq> dataId \<and> \<not> in_use fcId t \<and> \<not> in_use dataId t then AllocateFreeChannel t
                else None)"

lemma send_new:
  assumes ok: "table_ok (keys t)" and none: "FindConnection fcId dataId t = None"
    and send: "SendPdu now dataId fcId pdu d t = (sent, t')"
  shows "connections t' = (if sent then insert (fcId, dataId) (connections t) else connections t) \<and>
    sent = (\<exists>i. send_target dataId fcId t = Some i \<and> accepts_pdu pdu (iso_channels t ! i))"
proof -
  obtain opened t1 where o: "OpenConnection fcId dataId t = (opened, t1)" by (rule prod.exhaust)
  show ?thesis
  proof (cases opened)
    case None
    then have "send_target dataId fcId t = None"
      using o none OpenConnection_iff [of fcId dataId t] AllocateFreeChannel_has_free [of t]
      by (auto simp: send_target_def)
    with None o none send show ?thesis
      using OpenConnection_None [of fcId dataId t t1] by (auto simp: SendPdu_def)
  next
    case (Some i)
    note o = o [unfolded Some]
    note op = OpenConnection_Some [OF o] and chan = OpenConnection_channel [OF o]
    obtain acc t2 where t2: "send_on now i pdu d t1 = (acc, t2)" by (rule prod.exhaust)
    note acc = send_on_accepts [OF t2]
    have k2: "keys t2 = (keys t)[i := (fcId, dataId, True, False)]" using acc op by simp
    have len: "i < length (iso_channels t2)" using op k2 by (metis keys_length length_list_update)
    have target: "send_target dataId fcId t = Some i"
      using none chan op o OpenConnection_iff [of fcId dataId t] by (auto simp: send_target_def)
    have sent: "sent = acc" "t' = (if acc then t2 else set_channel i (Release (iso_channels t2 ! i)) t2)"
      using send none o t2 by (auto simp: SendPdu_def split: bool.splits)
    have "acc = accepts_pdu pdu (iso_channels t ! i)"
      using acc chan by (simp add: accepts_pdu_def)
    moreover have "connections t' = connections t" if "\<not> acc"
    proof (rule connections_unoccupied)
      show "keys t' = (keys t)[i := (ch_rxId (iso_channels t2 ! i), ch_txId (iso_channels t2 ! i), False, False)]"
        using that len k2 by (simp add: sent keys_set ch_key_def Release_def)
    qed (use op in auto)
    ultimately show ?thesis
      using target sent connections_open [OF ok k2] op by auto
  qed
qed

text \<open>What \<open>SendPdu\<close> does to the channel table: it accepts exactly when the connection of the
  pair exists, or can be opened on a free channel with both identifiers unused, and that channel's
  sender accepts the PDU; an accepted send leaves the connection open, a refused one leaves the
  open connections as they were, so it never leaks a channel.\<close>

theorem send_pdu_outcome:
  assumes "table_ok (keys t)" and "SendPdu now dataId fcId pdu d t = (sent, t')"
  shows "connections t' = (if sent then insert (fcId, dataId) (connections t) else connections t) \<and>
    sent = (\<exists>i. send_target dataId fcId t = Some i \<and> accepts_pdu pdu (iso_channels t ! i))"
proof (cases "FindConnection fcId dataId t")
  case None
  from send_new [OF assms(1) None assms(2)] show ?thesis .
next
  case (Some i)
  then have "(fcId, dataId) \<in> connections t"
    using FindConnection_None_iff [OF assms(1), of fcId dataId] by auto
  then have "insert (fcId, dataId) (connections t) = connections t" by (rule insert_absorb)
  moreover have "send_on now i pdu d t = (sent, t')" using assms(2) Some by (simp add: SendPdu_def)
  from send_on_accepts [OF this] have acc: "sent = accepts_pdu pdu (iso_channels t ! i)"
    and "keys t' = keys t" by (rule conjunct1, rule conjunct2)
  then have "connections t' = connections t" by (simp only: connections_def)
  moreover have "send_target dataId fcId t = Some i" using Some by (simp add: send_target_def)
  ultimately show ?thesis using acc by (cases sent) simp_all
qed


text \<open>A transport of two channels over an idle frame transport.\<close>

definition sample_iso :: "(nat, nat) iso_transport" where
  "sample_iso = IsoTpTransportImpl 100 2 (CanFrameTransport 1 True) \<lparr>icfg_blockSize = 0, icfg_separationTime = 0\<rparr>"

lemma sample_iso_ok: "table_ok (keys sample_iso)"
  using iso_inv_initial unfolding iso_inv_def sample_iso_def by blast

theorem send_pdu_outcome_witness:
  "fst (SendPdu 0 10 11 [5] 7 sample_iso) \<and>
   connections (snd (SendPdu 0 10 11 [5] 7 sample_iso)) = insert (11, 10) (connections sample_iso)"
proof -
  obtain sent t' where r: "SendPdu 0 10 11 [5] 7 sample_iso = (sent, t')" by (rule prod.exhaust)
  have "send_target 10 11 sample_iso = Some 0 \<and> accepts_pdu [5] (iso_channels sample_iso ! 0)"
    by (simp add: send_target_def FindConnection_def FindChannel_def AllocateFreeChannel_def
        in_use_def keys_def key_ids_def ch_key_def accepts_pdu_def IsIdleS_def IsoTpSender_def
        sample_iso_def IsoTpTransportImpl_def IsoTpChannelImpl_def numeral_2_eq_2)
  with send_pdu_outcome [OF sample_iso_ok r] r show ?thesis by auto
qed

text \<open>Registering a receive channel succeeds exactly when the connection exists without
  reception, or is new with two different unused identifiers and a free channel left; then the
  connection is open with reception enabled and the others are as before; a refusal, a second
  registration included, changes nothing.\<close>

theorem register_receive_outcome:
  assumes "table_ok (keys t)" and "RegisterReceiveChannel dataId fcId t = (ok, t')"
  shows "(if ok then connections t' = insert (dataId, fcId) (connections t) \<and>
            (dataId, fcId, True, True) \<in> set (keys t')
          else t' = t) \<and>
    (if (dataId, fcId) \<in> connections t then ok = ((dataId, fcId, True, True) \<notin> set (keys t))
     else ok = (dataId \<noteq> fcId \<and> \<not> in_use dataId t \<and> \<not> in_use fcId t \<and> has_free t))"
proof (cases "FindConnection dataId fcId t")
  case None
  with register_new [OF assms(1) None assms(2)] FindConnection_None_iff [OF assms(1), of dataId fcId]
  show ?thesis by auto
next
  case (Some i)
  have "(dataId, fcId) \<in> connections t"
    using Some FindConnection_None_iff [OF assms(1), of dataId fcId] by auto
  moreover have "\<not> ((dataId, fcId, True, False) \<in> set (keys t) \<and> (dataId, fcId, True, True) \<in> set (keys t))"
  proof
    assume "(dataId, fcId, True, False) \<in> set (keys t) \<and> (dataId, fcId, True, True) \<in> set (keys t)"
    then obtain a b where "a < length (keys t)" "b < length (keys t)"
      "keys t ! a = (dataId, fcId, True, False)" "keys t ! b = (dataId, fcId, True, True)"
      by (auto simp: in_set_conv_nth)
    then show False using channel_unique [OF assms(1), of a b dataId] by (auto simp: key_ids_def)
  qed
  ultimately show ?thesis using register_existing [OF assms(1) Some assms(2)] by (auto simp: insert_absorb)
qed

text \<open>\<open>ReleaseChannel\<close> closes exactly the connection that uses the identifier, if any, and leaves
  every other; afterwards the identifier is unused and a channel is free if one was closed.\<close>

theorem release_closes_one:
  assumes "table_ok (keys t)"
  shows "connections (ReleaseChannel canId t) = {c \<in> connections t. fst c \<noteq> canId \<and> snd c \<noteq> canId} \<and>
    \<not> in_use canId (ReleaseChannel canId t) \<and>
    has_free (ReleaseChannel canId t) = (has_free t \<or> in_use canId t)"
proof (cases "FindChannel canId t")
  case None
  then have free: "\<not> in_use canId t" using FindChannel_in_use by blast
  have "a \<noteq> canId \<and> b \<noteq> canId" if c: "(a, b) \<in> connections t" for a b
  proof -
    obtain j e where "j < length (keys t)" "keys t ! j = (a, b, True, e)"
      using c by (auto simp: in_connections)
    then show ?thesis using free by (auto simp: in_use_def list_ex_length key_ids_def)
  qed
  then have "{c \<in> connections t. fst c \<noteq> canId \<and> snd c \<noteq> canId} = connections t" by fastforce
  with None free show ?thesis by (simp add: ReleaseChannel_def)
next
  case (Some i)
  then have i: "i < length (keys t)" "canId \<in> key_ids (keys t ! i)"
    by (auto simp: FindChannel_def keys_length keys_nth key_ids_def ch_key_def dest!: find_first_Some)
  let ?t = "ReleaseChannel canId t"
  have t': "?t = set_channel i (Release (iso_channels t ! i)) t"
    using Some by (simp add: ReleaseChannel_def)
  have k: "keys ?t = (keys t)[i := (ch_rxId (iso_channels t ! i), ch_txId (iso_channels t ! i), False, False)]"
    using i by (simp add: t' keys_length keys_set ch_key_def Release_def)
  have "canId \<notin> key_ids (keys ?t ! j)" if "j < length (keys t)" for j
    using that channel_unique [OF assms i(1) that i(2)] i(1)
    by (cases "j = i") (auto simp: k key_ids_def)
  then have "\<not> in_use canId ?t" by (simp add: in_use_def list_ex_length k)
  moreover have "in_use canId t" using i by (auto simp: in_use_def list_ex_length)
  moreover have "has_free ?t"
    unfolding has_free_def list_ex_length
    by (rule exI [of _ i]) (use i in \<open>simp add: t' set_channel_def keys_length Release_def\<close>)
  ultimately show ?thesis using connections_release [OF assms i k] by simp
qed

section \<open>Routing\<close>

definition listens :: "u32 \<Rightarrow> 'd channel \<Rightarrow> bool" where
  "listens canId ch \<longleftrightarrow> ch_occupied ch \<and> ch_rxId ch = canId"

lemma process_from_deaf:
  "\<forall>i \<in> set xs. \<not> listens canId (iso_channels t ! i) \<Longrightarrow>
    process_from now canId frame (xs @ ys) t = process_from now canId frame ys t"
  by (induction xs) (auto simp: listens_def ProcessFrameC_def split: prod.splits bool.splits)

lemma process_from_listener:
  assumes "i < n" and "listens canId (iso_channels t ! i)"
    and "\<And>j. j < n \<Longrightarrow> j \<noteq> i \<Longrightarrow> \<not> listens canId (iso_channels t ! j)"
  shows "process_from now canId frame [0..<n] t =
    (if DecodeFrameType frame = flowControl \<or> ch_receptionEnabled (iso_channels t ! i)
     then (True, channel_does now i (snd (ProcessFrameC now canId frame (iso_channels t ! i))) t)
     else (False, t))"
proof -
  have "[0..<n] = [0..<i] @ [i..<n]" using upt_add_eq_append [of 0 i "n - i"] assms(1) by simp
  then have split: "[0..<n] = [0..<i] @ i # [Suc i..<n]" using assms(1) by (metis upt_conv_Cons)
  have before: "process_from now canId frame [0..<n] t = process_from now canId frame (i # [Suc i..<n]) t"
    unfolding split by (rule process_from_deaf) (use assms in auto)
  have after: "process_from now canId frame [Suc i..<n] t = (False, t)"
    using process_from_deaf [of "[Suc i..<n]" canId t now frame "[]"] assms(3) by auto
  show ?thesis
    unfolding before using assms(2) after by (simp add: ProcessFrameC_def listens_def)
qed

text \<open>C17: Frames are routed by the identifier: at most one open channel listens to it, that channel
  alone processes the frame (a flow control always, anything else when reception is enabled), and
  a frame for no channel or for one without reception is reported unhandled and changes nothing.\<close>

theorem frame_routed_to_its_channel:
  assumes "table_ok (keys t)"
  shows "ProcessFrameT now canId frame t =
    (case find_first (listens canId) (iso_channels t) of
       None \<Rightarrow> (False, t)
     | Some i \<Rightarrow>
         if DecodeFrameType frame = flowControl \<or> ch_receptionEnabled (iso_channels t ! i)
         then (True, channel_does now i (snd (ProcessFrameC now canId frame (iso_channels t ! i))) t)
         else (False, t))"
proof (cases "find_first (listens canId) (iso_channels t)")
  case None
  then have "\<forall>i \<in> set [0..<length (iso_channels t)]. \<not> listens canId (iso_channels t ! i)"
    by (simp add: find_first_None)
  from process_from_deaf [OF this, of now frame "[]"] None show ?thesis by (simp add: ProcessFrameT_def)
next
  case (Some i)
  note found = find_first_Some [OF Some]
  have "\<not> listens canId (iso_channels t ! j)" if j: "j < length (iso_channels t)" "j \<noteq> i" for j
  proof
    assume "listens canId (iso_channels t ! j)"
    then have "canId \<in> key_ids (keys t ! j)" "canId \<in> key_ids (keys t ! i)"
      using found j by (auto simp: listens_def keys_nth key_ids_def ch_key_def)
    then show False using channel_unique [OF assms, of j i canId] found j by (simp add: keys_length)
  qed
  with process_from_listener [of i _ canId t] found Some show ?thesis by (simp add: ProcessFrameT_def)
qed

theorem frame_routed_to_its_channel_witness:
  "ProcessFrameT 0 9 [0x01, 0xAA] sample_iso = (False, sample_iso)"
  using frame_routed_to_its_channel [OF sample_iso_ok, of 0 9 "[0x01, 0xAA]"]
  by (simp add: sample_iso_def IsoTpTransportImpl_def IsoTpChannelImpl_def numeral_2_eq_2 listens_def)

text \<open>C16: In every state that a transport of \<open>n\<close> channels reaches, through any sequence of
  registrations, releases, sends, received frames, completions and timers, the table has \<open>n\<close>
  channels, no identifier belongs to two open channels, the two identifiers of an open channel
  differ, and reception is enabled only on open channels.\<close>

theorem channel_table_invariant:
  assumes "admissible iso_enabled iso_step es (IsoTpTransportImpl maxPduSize n transport config)"
  shows "(let chs = iso_channels (fst (run_io iso_step es (IsoTpTransportImpl maxPduSize n transport config))) in
    length chs = n \<and>
    (\<forall>i < n. (ch_receptionEnabled (chs ! i) \<longrightarrow> ch_occupied (chs ! i)) \<and>
      (ch_occupied (chs ! i) \<longrightarrow> ch_rxId (chs ! i) \<noteq> ch_txId (chs ! i) \<and>
        (\<forall>j < n. j \<noteq> i \<longrightarrow> ch_occupied (chs ! j) \<longrightarrow>
          {ch_rxId (chs ! i), ch_txId (chs ! i)} \<inter> {ch_rxId (chs ! j), ch_txId (chs ! j)} = {}))))"
proof -
  let ?t = "fst (run_io iso_step es (IsoTpTransportImpl maxPduSize n transport config))"
  have inv: "iso_inv n ?t" by (rule isot.run_inv [OF iso_inv_initial assms])
  then have len: "length (iso_channels ?t) = n" by (simp add: iso_inv_def keys_length)
  have ok: "table_ok (keys ?t)" using inv by (simp add: iso_inv_def)
  have one: "key_ok (keys ?t ! i)" if "i < n" for i
    using ok that len by (simp add: table_ok_def list_all_length keys_length)
  have two: "key_ids (keys ?t ! i) \<inter> key_ids (keys ?t ! j) = {}" if "i < n" "j < n" "j \<noteq> i" for i j
    using ok that len unfolding table_ok_def keys_length by simp
  have "ch_rxId (iso_channels ?t ! i) \<noteq> ch_txId (iso_channels ?t ! i)"
    if "i < n" "ch_occupied (iso_channels ?t ! i)" for i
    using one [OF that(1)] that len by (simp add: keys_nth key_ok_def ch_key_def)
  moreover have "ch_occupied (iso_channels ?t ! i)"
    if "i < n" "ch_receptionEnabled (iso_channels ?t ! i)" for i
    using one [OF that(1)] that len by (simp add: keys_nth key_ok_def ch_key_def)
  moreover have "{ch_rxId (iso_channels ?t ! i), ch_txId (iso_channels ?t ! i)} \<inter>
      {ch_rxId (iso_channels ?t ! j), ch_txId (iso_channels ?t ! j)} = {}"
    if "i < n" "j < n" "j \<noteq> i" "ch_occupied (iso_channels ?t ! i)" "ch_occupied (iso_channels ?t ! j)" for i j
    using two [OF that(1-3)] that len by (simp add: keys_nth key_ids_def ch_key_def)
  ultimately show ?thesis unfolding Let_def using len by blast
qed

theorem channel_table_invariant_witness:
  "length (iso_channels (fst (run_io iso_step
     [IsoRegister 1 2, IsoSend 0 5 6 [1, 2] (7 :: nat), IsoRelease 2]
     (IsoTpTransportImpl 100 2 (CanFrameTransport 1 True :: nat bus_callback transport)
        \<lparr>icfg_blockSize = 0, icfg_separationTime = 0\<rparr>)))) = 2"
proof -
  let ?es = "[IsoRegister 1 2, IsoSend 0 5 6 [1, 2] (7 :: nat), IsoRelease 2 :: (nat, nat) iso_event]"
  have "admissible iso_enabled iso_step ?es (IsoTpTransportImpl 100 2 (CanFrameTransport 1 True)
      \<lparr>icfg_blockSize = 0, icfg_separationTime = 0\<rparr>)"
    by (simp add: iso_enabled_def)
  from channel_table_invariant [OF this] show ?thesis by (simp only: Let_def)
qed

end
