(* ===== verification/Category.thy ===== *)
theory Category
  imports Payload FrameTransport
begin

text \<open>
  Categories and their message types: \<^verbatim>\<open>CanCategory.cpp\<close>, \<^verbatim>\<open>CanMessageHandler.hpp\<close> and the
  system category of a server.

  A handler is code of the application that runs inside the dispatch of a frame.  It may call
  the protocol object it belongs to (send a frame and see whether it was accepted, acknowledge a
  command), change the application's state of type \<open>'app\<close>, and it returns whether it accepts the
  message.  This is the datatype \<open>program\<close>: the calls a handler makes, in order, each with the
  continuation for its result.  The type \<open>'c\<close> of the calls is what the protocol object offers: a
  server and a client offer different ones.  The protocol objects run a program on their state.
\<close>

section \<open>Handlers\<close>

datatype ('c, 'app) program =
    Return bool 'app
  | Call 'c "bool \<Rightarrow> ('c, 'app) program"

text \<open>The calls of a server's handlers; the last two are those of its own system category.  The
  completion callback of a send is a value of type \<open>'a\<close> that the application knows, or \<open>None\<close> for
  the empty lambda.  The calls without a result answer \<open>True\<close>.\<close>

datatype 'a server_call =
    Send CanPriority u8 u8 bytes "'a option"
  | Ack u8 u8 CanAckStatus
  | Heartbeat
  | CategoryList

type_synonym ('c, 'app) handler = "bytes \<Rightarrow> 'app \<Rightarrow> ('c, 'app) program"

record ('c, 'app) message_type =
  mt_id :: u8
  mt_onFrame :: "('c, 'app) handler"
  mt_onPdu :: "('c, 'app) handler option"

definition CanMessageHandler ::
    "u8 \<Rightarrow> ('c, 'app) handler \<Rightarrow> ('c, 'app) message_type" where
  "CanMessageHandler typeId onFrame = \<lparr>mt_id = typeId, mt_onFrame = onFrame, mt_onPdu = None\<rparr>"

definition CanMessagePduHandler ::
    "u8 \<Rightarrow> ('c, 'app) handler \<Rightarrow> ('c, 'app) handler \<Rightarrow> ('c, 'app) message_type" where
  "CanMessagePduHandler typeId onFrame onPdu =
     \<lparr>mt_id = typeId, mt_onFrame = onFrame, mt_onPdu = Some onPdu\<rparr>"

definition Handle :: "('c, 'app) message_type \<Rightarrow> ('c, 'app) handler" where
  "Handle h data app = mt_onFrame h data app"

definition HandlePdu :: "('c, 'app) message_type \<Rightarrow> ('c, 'app) handler" where
  "HandlePdu h pdu app =
     (case mt_onPdu h of
        None \<Rightarrow> Return False app
      | Some onPdu \<Rightarrow> onPdu pdu app)"

section \<open>Categories\<close>

datatype CanDispatchResult = handled | rejected | unknownMessageType

text \<open>\<open>cat_handle\<close> stands for the address of the object, which \<^verbatim>\<open>UnregisterCategory\<close> compares.\<close>

record ('c, 'app) category =
  cat_handle :: nat
  cat_id :: u8
  cat_sequence :: bool
  cat_acknowledger :: bool
  cat_messageTypes :: "('c, 'app) message_type list"

definition CanCategoryServer :: "nat \<Rightarrow> u8 \<Rightarrow> ('c, 'app) category" where
  "CanCategoryServer address categoryId =
     \<lparr>cat_handle = address, cat_id = categoryId, cat_sequence = True,
      cat_acknowledger = False, cat_messageTypes = []\<rparr>"

definition RequiresSequenceValidation :: "('c, 'app) category \<Rightarrow> bool" where
  "RequiresSequenceValidation c = cat_sequence c"

definition SetAcknowledger :: "('c, 'app) category \<Rightarrow> ('c, 'app) category" where
  "SetAcknowledger c = c\<lparr>cat_acknowledger := True\<rparr>"

definition ClearAcknowledger :: "('c, 'app) category \<Rightarrow> ('c, 'app) category" where
  "ClearAcknowledger c = c\<lparr>cat_acknowledger := False\<rparr>"

text \<open>\<^verbatim>\<open>really_assert\<close> stops the program: the value \<open>None\<close>.\<close>

definition AddMessageType ::
    "('c, 'app) message_type \<Rightarrow> ('c, 'app) category \<Rightarrow> ('c, 'app) category option" where
  "AddMessageType messageType c =
     (if list_all (\<lambda>existing. mt_id existing \<noteq> mt_id messageType) (cat_messageTypes c)
      then Some (c\<lparr>cat_messageTypes := cat_messageTypes c @ [messageType]\<rparr>)
      else None)"

fun AddMessageTypes ::
    "('c, 'app) message_type list \<Rightarrow> ('c, 'app) category \<Rightarrow> ('c, 'app) category option" where
  "AddMessageTypes [] c = Some c"
| "AddMessageTypes (m # ms) c =
     (case AddMessageType m c of None \<Rightarrow> None | Some c' \<Rightarrow> AddMessageTypes ms c')"

text \<open>The handler that a message reaches, \<open>None\<close> when its type is unknown.\<close>

definition HandleMessage ::
    "u8 \<Rightarrow> bytes \<Rightarrow> ('c, 'app) category \<Rightarrow> 'app \<Rightarrow> ('c, 'app) program option" where
  "HandleMessage messageType data c app =
     (case find (\<lambda>h. mt_id h = messageType) (cat_messageTypes c) of
        Some h \<Rightarrow> Some (Handle h data app)
      | None \<Rightarrow> None)"

definition HandlePduMessage ::
    "u8 \<Rightarrow> bytes \<Rightarrow> ('c, 'app) category \<Rightarrow> 'app \<Rightarrow> ('c, 'app) program option" where
  "HandlePduMessage messageType pdu c app =
     (case find (\<lambda>h. mt_id h = messageType) (cat_messageTypes c) of
        Some h \<Rightarrow> Some (HandlePdu h pdu app)
      | None \<Rightarrow> None)"

text \<open>The calls a program makes, its result and the state it leaves, when the protocol object
  answers each call by \<open>answer\<close>.\<close>

primrec run_calls :: "('c \<Rightarrow> bool) \<Rightarrow> ('c, 'app) program \<Rightarrow> 'c list \<times> bool \<times> 'app" where
  "run_calls answer (Return accepted app) = ([], accepted, app)"
| "run_calls answer (Call c k) =
     (case run_calls answer (k (answer c)) of (calls, result) \<Rightarrow> (c # calls, result))"

text \<open>An observer of a category gets a function \<^verbatim>\<open>onResult\<close> with each request.  The calls of it that
  it makes at once, in order:\<close>

fun each_result :: "('r \<Rightarrow> 's \<Rightarrow> ('s \<Rightarrow> 'p) \<Rightarrow> 'p) \<Rightarrow> 'r list \<Rightarrow> 's \<Rightarrow> ('s \<Rightarrow> 'p) \<Rightarrow> 'p" where
  "each_result onResult [] s k = k s"
| "each_result onResult (r # rs) s k = onResult r s (\<lambda>s'. each_result onResult rs s' k)"

section \<open>What a server category sends\<close>

definition SendCommandAckC ::
    "('a server_call, 'app) category \<Rightarrow> u8 \<Rightarrow> CanAckStatus \<Rightarrow> ('a server_call, 'app) program \<Rightarrow> ('a server_call, 'app) program" where
  "SendCommandAckC c messageType status k =
     (if cat_acknowledger c then Call (Ack (cat_id c) messageType status) (\<lambda>_. k) else k)"

definition SendResponse ::
    "('a server_call, 'app) category \<Rightarrow> u8 \<Rightarrow> bytes \<Rightarrow> (bool \<Rightarrow> ('a server_call, 'app) program) \<Rightarrow> ('a server_call, 'app) program" where
  "SendResponse c messageType data k = Call (Send response (cat_id c) messageType data None) k"

definition SendResponsePayload ::
    "('a server_call, 'app) category \<Rightarrow> u8 \<Rightarrow> payload_writer \<Rightarrow> (bool \<Rightarrow> ('a server_call, 'app) program)
       \<Rightarrow> ('a server_call, 'app) program" where
  "SendResponsePayload c messageType payload k =
     (if pw_valid payload then SendResponse c messageType (pw_message payload) k else k False)"

definition SendTelemetry ::
    "('a server_call, 'app) category \<Rightarrow> u8 \<Rightarrow> bytes \<Rightarrow> (bool \<Rightarrow> ('a server_call, 'app) program) \<Rightarrow> ('a server_call, 'app) program" where
  "SendTelemetry c messageType data k = Call (Send telemetry (cat_id c) messageType data None) k"

definition SendTelemetryPayload ::
    "('a server_call, 'app) category \<Rightarrow> u8 \<Rightarrow> payload_writer \<Rightarrow> (bool \<Rightarrow> ('a server_call, 'app) program)
       \<Rightarrow> ('a server_call, 'app) program" where
  "SendTelemetryPayload c messageType payload k =
     (if pw_valid payload then SendTelemetry c messageType (pw_message payload) k else k False)"

definition SendEmergency ::
    "('a server_call, 'app) category \<Rightarrow> u8 \<Rightarrow> bytes \<Rightarrow> (bool \<Rightarrow> ('a server_call, 'app) program) \<Rightarrow> ('a server_call, 'app) program" where
  "SendEmergency c messageType data k = Call (Send emergency (cat_id c) messageType data None) k"

definition SendEmergencyPayload ::
    "('a server_call, 'app) category \<Rightarrow> u8 \<Rightarrow> payload_writer \<Rightarrow> (bool \<Rightarrow> ('a server_call, 'app) program)
       \<Rightarrow> ('a server_call, 'app) program" where
  "SendEmergencyPayload c messageType payload k =
     (if pw_valid payload then SendEmergency c messageType (pw_message payload) k else k False)"

definition SendCategoryError ::
    "('a server_call, 'app) category \<Rightarrow> u8 \<Rightarrow> u8 \<Rightarrow> (bool \<Rightarrow> ('a server_call, 'app) program) \<Rightarrow> ('a server_call, 'app) program" where
  "SendCategoryError c originatingCommandId categoryErrorCode k =
     (let payload = WriteUInt8P categoryErrorCode (WriteUInt8P originatingCommandId CanPayloadWriter)
      in SendResponsePayload c canCategoryErrorResponseMessageTypeId payload k)"

section \<open>The system category of a server\<close>

text \<open>
  Its single observer is the server itself: a heartbeat is ignored, a status request makes the
  server send a heartbeat, a category list request makes it send the list.
\<close>

definition HandleHeartbeat :: "('a server_call, 'app) handler" where
  "HandleHeartbeat data app = Return True app"

definition HandleStatusRequest :: "('a server_call, 'app) handler" where
  "HandleStatusRequest data app = Call Heartbeat (\<lambda>_. Return True app)"

definition HandleCategoryListRequest :: "('a server_call, 'app) handler" where
  "HandleCategoryListRequest data app = Call CategoryList (\<lambda>_. Return True app)"

definition systemHandle :: nat where "systemHandle = 0"

definition CanSystemCategoryServer :: "('a server_call, 'app) category option" where
  "CanSystemCategoryServer =
     AddMessageTypes
       [CanMessageHandler canHeartbeatMessageTypeId HandleHeartbeat,
        CanMessageHandler canStatusRequestMessageTypeId HandleStatusRequest,
        CanMessageHandler canCategoryListRequestMessageTypeId HandleCategoryListRequest]
       ((CanCategoryServer systemHandle canSystemCategoryId)\<lparr>cat_sequence := False\<rparr>)"

section \<open>Dispatch\<close>

definition message_types_distinct :: "('c, 'app) category \<Rightarrow> bool" where
  "message_types_distinct c \<longleftrightarrow> distinct (map mt_id (cat_messageTypes c))"

lemma AddMessageType_eq:
  "AddMessageType m c =
     (if mt_id m \<in> mt_id ` set (cat_messageTypes c) then None
      else Some (c\<lparr>cat_messageTypes := cat_messageTypes c @ [m]\<rparr>))"
proof -
  have "list_all (\<lambda>existing. mt_id existing \<noteq> mt_id m) (cat_messageTypes c) \<longleftrightarrow>
      mt_id m \<notin> mt_id ` set (cat_messageTypes c)"
    unfolding list_all_iff image_iff by metis
  then show ?thesis by (simp add: AddMessageType_def)
qed

lemma AddMessageTypes_distinct:
  "AddMessageTypes ms c = Some c' \<Longrightarrow> message_types_distinct c \<Longrightarrow> message_types_distinct c'"
  by (induction ms arbitrary: c)
    (auto simp: AddMessageType_eq message_types_distinct_def split: option.splits if_splits)

lemma AddMessageTypes_eq:
  "AddMessageTypes ms c = Some c' \<Longrightarrow> c' = c\<lparr>cat_messageTypes := cat_messageTypes c @ ms\<rparr>"
proof (induction ms arbitrary: c)
  case Nil
  then show ?case by simp
next
  case (Cons m ms)
  then show ?case
    using Cons.IH [of "c\<lparr>cat_messageTypes := cat_messageTypes c @ [m]\<rparr>"]
    by (auto simp: AddMessageType_eq split: if_splits)
qed

lemma AddMessageTypes_succeeds:
  "distinct (map mt_id (cat_messageTypes c @ ms)) \<Longrightarrow> AddMessageTypes ms c \<noteq> None"
proof (induction ms arbitrary: c)
  case Nil
  then show ?case by simp
next
  case (Cons m ms)
  then have "AddMessageType m c = Some (c\<lparr>cat_messageTypes := cat_messageTypes c @ [m]\<rparr>)"
    by (auto simp: AddMessageType_eq)
  with Cons.IH [of "c\<lparr>cat_messageTypes := cat_messageTypes c @ [m]\<rparr>"] Cons.prems
  show ?case by auto
qed

lemma find_distinct:
  assumes "distinct (map f xs)" and "x \<in> set xs"
  shows "find (\<lambda>y. f y = f x) xs = Some x"
  using assms by (induction xs) auto

lemma HandleMessage_registered:
  assumes "message_types_distinct c" and "h \<in> set (cat_messageTypes c)"
  shows "HandleMessage (mt_id h) data c app = Some (Handle h data app)"
    and "HandlePduMessage (mt_id h) data c app = Some (HandlePdu h data app)"
  using assms find_distinct [of mt_id "cat_messageTypes c" h]
  by (simp_all add: HandleMessage_def HandlePduMessage_def message_types_distinct_def)

lemma HandleMessage_unknown:
  assumes "m \<notin> mt_id ` set (cat_messageTypes c)"
  shows "HandleMessage m data c app = None" and "HandlePduMessage m data c app = None"
proof -
  have "find (\<lambda>h. mt_id h = m) (cat_messageTypes c) = None"
    using assms by (auto simp: find_None_iff)
  then show "HandleMessage m data c app = None" and "HandlePduMessage m data c app = None"
    by (simp_all add: HandleMessage_def HandlePduMessage_def)
qed

definition system_category :: "('a server_call, 'app) category" where
  "system_category =
     \<lparr>cat_handle = systemHandle, cat_id = canSystemCategoryId, cat_sequence = False,
      cat_acknowledger = False,
      cat_messageTypes =
        [CanMessageHandler canHeartbeatMessageTypeId HandleHeartbeat,
         CanMessageHandler canStatusRequestMessageTypeId HandleStatusRequest,
         CanMessageHandler canCategoryListRequestMessageTypeId HandleCategoryListRequest]\<rparr>"

lemma CanSystemCategoryServer_eq: "CanSystemCategoryServer = Some system_category"
  by (simp add: CanSystemCategoryServer_def AddMessageType_def CanCategoryServer_def
      system_category_def CanMessageHandler_def can_constants)

text \<open>A category built by adding message types dispatches each message to the handler that was
  added under its type and to no other; a type that was not added is unknown; adding a type a
  second time stops the program.\<close>

theorem category_dispatch:
  assumes "AddMessageTypes ms (CanCategoryServer address categoryId) = Some c"
  shows "distinct (map mt_id ms) \<and>
    (\<forall>h. h \<in> set ms \<longrightarrow>
       HandleMessage (mt_id h) data c app = Some (Handle h data app) \<and>
       HandlePduMessage (mt_id h) data c app = Some (HandlePdu h data app)) \<and>
    (\<forall>m. m \<notin> mt_id ` set ms \<longrightarrow>
       HandleMessage m data c app = None \<and> HandlePduMessage m data c app = None) \<and>
    (\<forall>h. h \<in> set ms \<longrightarrow> AddMessageType h c = None)"
proof -
  have types: "cat_messageTypes c = ms"
    using AddMessageTypes_eq [OF assms] by (simp add: CanCategoryServer_def)
  have dist: "message_types_distinct c"
    using AddMessageTypes_distinct [OF assms]
    by (simp add: message_types_distinct_def CanCategoryServer_def)
  have "AddMessageType h c = None" if "h \<in> set ms" for h
    using that types by (auto simp: AddMessageType_eq)
  then show ?thesis
    using dist types HandleMessage_registered [OF dist] HandleMessage_unknown [of _ c]
    by (simp add: message_types_distinct_def)
qed

end
