(* ===== verification/IsoTpInterface.thy ===== *)
theory IsoTpInterface
  imports ProtocolDefs
begin

text \<open>
  The interface \<^verbatim>\<open>IsoTpTransport\<close> as the protocol objects use it.  An attached transport is an
  object: a state and its method \<^verbatim>\<open>ProcessFrame\<close>, which may send frames and deliver PDUs to the
  protocol object before it returns whether it consumed the frame.
\<close>

datatype ('a, 'iso) iso_program =
    IsoReturn bool 'iso
  | IsoSend can_id bytes "'a option" "bool \<Rightarrow> ('a, 'iso) iso_program"
  | IsoPdu u32 bytes "('a, 'iso) iso_program"

type_synonym ('a, 'iso) iso_object = "'iso \<times> (u32 \<Rightarrow> bytes \<Rightarrow> 'iso \<Rightarrow> ('a, 'iso) iso_program)"

end
