(* ===== verification/ProtocolServer.thy ===== *)
theory ProtocolServer
  imports Category IsoTpInterface
begin

text \<open>
  The protocol server, \<^verbatim>\<open>can-lite/server/CanProtocolServer.cpp\<close>.

  The state is the object's members.  \<open>srv_now\<close> is the clock of the timer service, a running
  single-shot timer is its deadline.  \<open>srv_log\<close> collects what the server does to the outside, in
  order: frames handed to the driver, the notifications of its observers, the completions it
  reports to the application.  The application's state \<open>srv_app\<close> is what the message handlers
  read and write.

  An ISO-TP transport is attached as an object of the interface \<^verbatim>\<open>IsoTpTransport\<close>.
\<close>

section \<open>State\<close>

datatype 'a callback = NoCallback | HeartbeatDone | AppCallback 'a

fun app_callback :: "'a option \<Rightarrow> 'a callback" where
  "app_callback None = NoCallback"
| "app_callback (Some a) = AppCallback a"

record server_config =
  cfg_nodeId :: u16
  cfg_maxMessagesPerSecond :: u16
  cfg_heartbeatInterval :: time
  cfg_clientTimeout :: time
  cfg_maxEmergencyMessagesPerSecond :: u16

record server_counters =
  cnt_rateLimited :: u32
  cnt_emergencyRateLimited :: u32
  cnt_invalidFrames :: u32
  cnt_emergencyAdmitted :: u32

datatype 'a server_output =
  FrameOut can_id bytes | ClientOnline | ClientOffline | AppDone 'a bool

record ('a, 'app, 'iso) server =
  srv_config :: server_config
  srv_transport :: "'a callback transport"
  srv_heartbeatTimer :: timer
  srv_rateResetTimer :: time
  srv_livenessTimer :: timer
  srv_messageCount :: u16
  srv_emergencyCount :: u16
  srv_counters :: server_counters
  srv_lastSequence :: u8
  srv_sequenceInitialized :: bool
  srv_clientOnline :: bool
  srv_heartbeatPending :: bool
  srv_categories :: "('a server_call, 'app) category list"
  srv_isoTp :: "('a, 'iso) iso_object option"
  srv_app :: 'app
  srv_now :: time
  srv_log :: "'a server_output list"

definition rateResetPeriod :: time where "rateResetPeriod = milliseconds 1000"

definition emit :: "'a server_output \<Rightarrow> ('a, 'app, 'iso) server \<Rightarrow> ('a, 'app, 'iso) server" where
  "emit out s = s\<lparr>srv_log := srv_log s @ [out]\<rparr>"

section \<open>Sending\<close>

definition ResetHeartbeatTimer :: "('a, 'app, 'iso) server \<Rightarrow> ('a, 'app, 'iso) server" where
  "ResetHeartbeatTimer s =
     s\<lparr>srv_heartbeatTimer := Some (srv_now s + cfg_heartbeatInterval (srv_config s))\<rparr>"

fun run_callback :: "'a callback \<Rightarrow> bool \<Rightarrow> ('a, 'app, 'iso) server \<Rightarrow> ('a, 'app, 'iso) server" where
  "run_callback NoCallback success s = s"
| "run_callback HeartbeatDone success s = s\<lparr>srv_heartbeatPending := False\<rparr>"
| "run_callback (AppCallback a) success s = emit (AppDone a success) s"

fun apply_effect ::
    "'a callback tx_effect \<Rightarrow> ('a, 'app, 'iso) server \<Rightarrow> ('a, 'app, 'iso) server" where
  "apply_effect (Transmitted i d) s = emit (FrameOut i d) s"
| "apply_effect SendNotified s = ResetHeartbeatTimer s"
| "apply_effect (Completed cb success) s = run_callback cb success s"

definition apply_effects ::
    "'a callback tx_effect list \<Rightarrow> ('a, 'app, 'iso) server \<Rightarrow> ('a, 'app, 'iso) server" where
  "apply_effects effects s = fold apply_effect effects s"

definition TransportSendRaw ::
    "can_id \<Rightarrow> bytes \<Rightarrow> 'a callback \<Rightarrow> ('a, 'app, 'iso) server
       \<Rightarrow> bool \<times> ('a, 'app, 'iso) server" where
  "TransportSendRaw canId data onDone s =
     (case SendRawFrame canId data onDone (srv_transport s) of
        (accepted, t, effects) \<Rightarrow> (accepted, apply_effects effects (s\<lparr>srv_transport := t\<rparr>)))"

definition TransportSend ::
    "CanPriority \<Rightarrow> u8 \<Rightarrow> u8 \<Rightarrow> bytes \<Rightarrow> 'a callback \<Rightarrow> ('a, 'app, 'iso) server
       \<Rightarrow> bool \<times> ('a, 'app, 'iso) server" where
  "TransportSend priority category messageType data onDone s =
     (case SendFrame priority category messageType data onDone (srv_transport s) of
        (accepted, t, effects) \<Rightarrow> (accepted, apply_effects effects (s\<lparr>srv_transport := t\<rparr>)))"

definition SendCommandAckWith ::
    "u8 \<Rightarrow> u8 \<Rightarrow> CanAckStatus \<Rightarrow> u8 \<Rightarrow> ('a, 'app, 'iso) server \<Rightarrow> ('a, 'app, 'iso) server" where
  "SendCommandAckWith category commandType status expectedSequence s =
     (let payload = WriteUInt8P expectedSequence (WriteUInt8P (CanAckStatus_code status)
            (WriteUInt8P commandType (WriteUInt8P category CanPayloadWriter)))
      in snd (TransportSend response canSystemCategoryId canCommandAckMessageTypeId
                (pw_message payload) NoCallback s))"

definition SendCommandAck ::
    "u8 \<Rightarrow> u8 \<Rightarrow> CanAckStatus \<Rightarrow> ('a, 'app, 'iso) server \<Rightarrow> ('a, 'app, 'iso) server" where
  "SendCommandAck category commandType status s = SendCommandAckWith category commandType status 0 s"

definition SendHeartbeat :: "('a, 'app, 'iso) server \<Rightarrow> ('a, 'app, 'iso) server" where
  "SendHeartbeat s0 =
     (let s = ResetHeartbeatTimer s0 in
      if srv_heartbeatPending s then s
      else (let payload = WriteUInt8P canProtocolVersion CanPayloadWriter in
            case TransportSend heartbeat canSystemCategoryId canHeartbeatMessageTypeId
                   (pw_message payload) HeartbeatDone (s\<lparr>srv_heartbeatPending := True\<rparr>) of
              (True, s') \<Rightarrow> s'
            | (False, s') \<Rightarrow> s'\<lparr>srv_heartbeatPending := False\<rparr>))"

definition SendCategoryList :: "('a, 'app, 'iso) server \<Rightarrow> ('a, 'app, 'iso) server" where
  "SendCategoryList s =
     (let payload = fold (\<lambda>category. WriteUInt8P (cat_id category)) (srv_categories s) CanPayloadWriter
      in snd (TransportSend response canSystemCategoryId canCategoryListResponseMessageTypeId
                (pw_message payload) NoCallback s))"

section \<open>Running a handler\<close>

fun run_call :: "'a server_call \<Rightarrow> ('a, 'app, 'iso) server \<Rightarrow> bool \<times> ('a, 'app, 'iso) server" where
  "run_call (Send priority category messageType data onDone) s =
     TransportSend priority category messageType data (app_callback onDone) s"
| "run_call (Ack category messageType status) s = (True, SendCommandAck category messageType status s)"
| "run_call Heartbeat s = (True, SendHeartbeat s)"
| "run_call CategoryList s = (True, SendCategoryList s)"

primrec run_program ::
    "('a server_call, 'app) program \<Rightarrow> ('a, 'app, 'iso) server \<Rightarrow> bool \<times> ('a, 'app, 'iso) server" where
  "run_program (Return accepted app) s = (accepted, s\<lparr>srv_app := app\<rparr>)"
| "run_program (Call c k) s = (case run_call c s of (result, s') \<Rightarrow> run_program (k result) s')"

definition run_dispatch ::
    "('a server_call, 'app) program option \<Rightarrow> ('a, 'app, 'iso) server
       \<Rightarrow> CanDispatchResult \<times> ('a, 'app, 'iso) server" where
  "run_dispatch dispatched s =
     (case dispatched of
        None \<Rightarrow> (unknownMessageType, s)
      | Some p \<Rightarrow>
          (case run_program p s of
             (accepted, s') \<Rightarrow> (if accepted then handled else rejected, s')))"

section \<open>Admission\<close>

definition IsEmergencyId :: "u32 \<Rightarrow> bool" where
  "IsEmergencyId rawId \<longleftrightarrow> ExtractCanPriority rawId = CanPriority_code emergency"

definition ConsumeBudget :: "u16 \<Rightarrow> u16 \<Rightarrow> u32 \<Rightarrow> bool \<times> u16 \<times> u32" where
  "ConsumeBudget used limit refusals =
     (if used \<ge> limit then (False, used, refusals + 1) else (True, used + 1, refusals))"

definition CheckAndIncrementRate ::
    "u32 \<Rightarrow> ('a, 'app, 'iso) server \<Rightarrow> bool \<times> ('a, 'app, 'iso) server" where
  "CheckAndIncrementRate rawId s =
     (if IsEmergencyId rawId
      then (case ConsumeBudget (srv_emergencyCount s)
                   (cfg_maxEmergencyMessagesPerSecond (srv_config s))
                   (cnt_emergencyRateLimited (srv_counters s)) of
              (ok, used, refusals) \<Rightarrow>
                (ok, s\<lparr>srv_emergencyCount := used,
                       srv_counters := (srv_counters s)\<lparr>cnt_emergencyRateLimited := refusals\<rparr>\<rparr>))
      else (case ConsumeBudget (srv_messageCount s)
                   (cfg_maxMessagesPerSecond (srv_config s))
                   (cnt_rateLimited (srv_counters s)) of
              (ok, used, refusals) \<Rightarrow>
                (ok, s\<lparr>srv_messageCount := used,
                       srv_counters := (srv_counters s)\<lparr>cnt_rateLimited := refusals\<rparr>\<rparr>)))"

definition ResetRateCounter :: "('a, 'app, 'iso) server \<Rightarrow> ('a, 'app, 'iso) server" where
  "ResetRateCounter s = s\<lparr>srv_messageCount := 0, srv_emergencyCount := 0\<rparr>"

definition IsAddressedToThisNode :: "('a, 'app, 'iso) server \<Rightarrow> u32 \<Rightarrow> bool" where
  "IsAddressedToThisNode s rawId \<longleftrightarrow>
     (let nodeId = ExtractCanNodeId rawId
      in nodeId = cfg_nodeId (srv_config s) \<or> nodeId = canBroadcastNodeId)"

definition FindCategory :: "u8 \<Rightarrow> ('a, 'app, 'iso) server \<Rightarrow> ('a server_call, 'app) category option" where
  "FindCategory categoryId s = find (\<lambda>category. cat_id category = categoryId) (srv_categories s)"

definition ExpectedSequence :: "('a, 'app, 'iso) server \<Rightarrow> u8" where
  "ExpectedSequence s = srv_lastSequence s + 1"

definition IsExpectedSequence :: "u8 \<Rightarrow> ('a, 'app, 'iso) server \<Rightarrow> bool" where
  "IsExpectedSequence sequenceNumber s \<longleftrightarrow>
     \<not> srv_sequenceInitialized s \<or> sequenceNumber = ExpectedSequence s"

definition count_invalid :: "('a, 'app, 'iso) server \<Rightarrow> ('a, 'app, 'iso) server" where
  "count_invalid s = s\<lparr>srv_counters :=
     (srv_counters s)\<lparr>cnt_invalidFrames := cnt_invalidFrames (srv_counters s) + 1\<rparr>\<rparr>"

definition RejectCommand ::
    "u32 \<Rightarrow> CanAckStatus \<Rightarrow> u8 \<Rightarrow> ('a, 'app, 'iso) server \<Rightarrow> ('a, 'app, 'iso) server" where
  "RejectCommand rawId status expectedSequence s =
     SendCommandAckWith (ExtractCanCategory rawId) (ExtractCanMessageType rawId) status
       expectedSequence (count_invalid s)"

definition AdmitCommand ::
    "u32 \<Rightarrow> bytes \<Rightarrow> ('a, 'app, 'iso) server
       \<Rightarrow> ('a server_call, 'app) category option \<times> ('a, 'app, 'iso) server" where
  "AdmitCommand rawId payload s =
     (case (if IsCommandMessageType (ExtractCanMessageType rawId)
            then FindCategory (ExtractCanCategory rawId) s else None) of
        None \<Rightarrow> (None, count_invalid s)
      | Some category \<Rightarrow>
          if \<not> RequiresSequenceValidation category then (Some category, s)
          else if payload = [] then (None, RejectCommand rawId invalidPayload 0 s)
          else if \<not> IsEmergencyId rawId \<and> \<not> IsExpectedSequence (hd payload) s
          then (None, RejectCommand rawId sequenceError (ExpectedSequence s) s)
          else (Some category, s))"

section \<open>Conclusion\<close>

type_synonym sequence_checkpoint = "u8 \<times> bool"

definition CommitSequence ::
    "('a server_call, 'app) category \<Rightarrow> bytes \<Rightarrow> ('a, 'app, 'iso) server
       \<Rightarrow> sequence_checkpoint \<times> ('a, 'app, 'iso) server" where
  "CommitSequence category payload s =
     ((srv_lastSequence s, srv_sequenceInitialized s),
      if RequiresSequenceValidation category
      then s\<lparr>srv_lastSequence := hd payload, srv_sequenceInitialized := True\<rparr> else s)"

definition RestoreSequence ::
    "sequence_checkpoint \<Rightarrow> ('a, 'app, 'iso) server \<Rightarrow> ('a, 'app, 'iso) server" where
  "RestoreSequence checkpoint s =
     s\<lparr>srv_lastSequence := fst checkpoint, srv_sequenceInitialized := snd checkpoint\<rparr>"

definition MarkClientAlive :: "('a, 'app, 'iso) server \<Rightarrow> ('a, 'app, 'iso) server" where
  "MarkClientAlive s0 =
     (let s = s0\<lparr>srv_livenessTimer := Some (srv_now s0 + cfg_clientTimeout (srv_config s0))\<rparr>
      in if srv_clientOnline s then s
         else emit ClientOnline (s\<lparr>srv_clientOnline := True\<rparr>))"

definition HandleClientTimeout :: "('a, 'app, 'iso) server \<Rightarrow> ('a, 'app, 'iso) server" where
  "HandleClientTimeout s =
     (if \<not> srv_clientOnline s then s
      else emit ClientOffline (s\<lparr>srv_clientOnline := False\<rparr>))"

definition AcceptCommand :: "u32 \<Rightarrow> ('a, 'app, 'iso) server \<Rightarrow> ('a, 'app, 'iso) server" where
  "AcceptCommand rawId s =
     MarkClientAlive
       (if IsEmergencyId rawId
        then s\<lparr>srv_counters := (srv_counters s)
                 \<lparr>cnt_emergencyAdmitted := cnt_emergencyAdmitted (srv_counters s) + 1\<rparr>\<rparr>
        else s)"

definition Conclude ::
    "u32 \<Rightarrow> sequence_checkpoint \<Rightarrow> CanDispatchResult \<Rightarrow> ('a, 'app, 'iso) server
       \<Rightarrow> ('a, 'app, 'iso) server" where
  "Conclude rawId checkpoint result s =
     (case result of
        handled \<Rightarrow> AcceptCommand rawId s
      | rejected \<Rightarrow> RejectCommand rawId invalidPayload 0 (RestoreSequence checkpoint s)
      | unknownMessageType \<Rightarrow>
          RejectCommand rawId unknownCommand 0 (RestoreSequence checkpoint s))"

section \<open>Reception\<close>

definition DispatchPdu ::
    "u32 \<Rightarrow> bytes \<Rightarrow> ('a, 'app, 'iso) server \<Rightarrow> ('a, 'app, 'iso) server" where
  "DispatchPdu rawId pdu s =
     (if \<not> IsAddressedToThisNode s rawId then s
      else case AdmitCommand rawId pdu s of
        (None, s1) \<Rightarrow> s1
      | (Some category, s1) \<Rightarrow>
          (case CommitSequence category pdu s1 of
             (checkpoint, s2) \<Rightarrow>
               (case run_dispatch (HandlePduMessage (ExtractCanMessageType rawId) pdu category
                        (srv_app s2)) s2 of
                  (result, s3) \<Rightarrow> Conclude rawId checkpoint result s3)))"

primrec run_iso ::
    "('a, 'iso) iso_program \<Rightarrow> ('a, 'app, 'iso) server \<Rightarrow> bool \<times> ('a, 'app, 'iso) server" where
  "run_iso (IsoReturn consumed isoState) s =
     (consumed, s\<lparr>srv_isoTp := map_option (\<lambda>(_, method). (isoState, method)) (srv_isoTp s)\<rparr>)"
| "run_iso (IsoSend canId data onDone k) s =
     (case TransportSendRaw canId data (app_callback onDone) s of
        (sent, s') \<Rightarrow> run_iso (k sent) s')"
| "run_iso (IsoPdu rawId pdu k) s = run_iso k (DispatchPdu rawId pdu s)"

definition ProcessFrameIso ::
    "u32 \<Rightarrow> bytes \<Rightarrow> ('a, 'app, 'iso) server \<Rightarrow> bool \<times> ('a, 'app, 'iso) server" where
  "ProcessFrameIso rawId data s =
     (case srv_isoTp s of
        None \<Rightarrow> (False, s)
      | Some (isoState, method) \<Rightarrow> run_iso (method rawId data isoState) s)"

definition ProcessReceivedMessage ::
    "can_id \<Rightarrow> bytes \<Rightarrow> ('a, 'app, 'iso) server \<Rightarrow> ('a, 'app, 'iso) server" where
  "ProcessReceivedMessage canId data s =
     (case canId of
        Id11 _ \<Rightarrow> s
      | Id29 rawId \<Rightarrow>
          if \<not> IsAddressedToThisNode s rawId then s
          else case CheckAndIncrementRate rawId s of
            (False, s1) \<Rightarrow> s1
          | (True, s1) \<Rightarrow>
              (case ProcessFrameIso rawId data s1 of
                 (True, s2) \<Rightarrow> s2
               | (False, s2) \<Rightarrow>
                   (case AdmitCommand rawId data s2 of
                      (None, s3) \<Rightarrow> s3
                    | (Some category, s3) \<Rightarrow>
                        (case CommitSequence category data s3 of
                           (checkpoint, s4) \<Rightarrow>
                             (case run_dispatch (HandleMessage (ExtractCanMessageType rawId) data
                                      category (srv_app s4)) s4 of
                                (result, s5) \<Rightarrow> Conclude rawId checkpoint result s5)))))"

section \<open>Construction and registration\<close>

definition CanProtocolServer ::
    "server_config \<Rightarrow> 'app \<Rightarrow> time \<Rightarrow> ('a, 'app, 'iso) server option" where
  "CanProtocolServer config app now =
     (case CanSystemCategoryServer of
        None \<Rightarrow> None
      | Some systemCategory \<Rightarrow>
          if cfg_nodeId config = canBroadcastNodeId then None
          else Some (ResetHeartbeatTimer
            \<lparr>srv_config = config, srv_transport = CanFrameTransport (cfg_nodeId config) True,
             srv_heartbeatTimer = None, srv_rateResetTimer = now + rateResetPeriod,
             srv_livenessTimer = None, srv_messageCount = 0, srv_emergencyCount = 0,
             srv_counters = \<lparr>cnt_rateLimited = 0, cnt_emergencyRateLimited = 0,
               cnt_invalidFrames = 0, cnt_emergencyAdmitted = 0\<rparr>,
             srv_lastSequence = 0, srv_sequenceInitialized = False, srv_clientOnline = False,
             srv_heartbeatPending = False,
             srv_categories = [SetAcknowledger systemCategory], srv_isoTp = None,
             srv_app = app, srv_now = now, srv_log = []\<rparr>))"

definition RegisterCategory ::
    "('a server_call, 'app) category \<Rightarrow> ('a, 'app, 'iso) server \<Rightarrow> bool \<times> ('a, 'app, 'iso) server" where
  "RegisterCategory category s =
     (if length (srv_categories s) \<ge> canMaxRegisteredCategories then (False, s)
      else if list_ex (\<lambda>existing. cat_id existing = cat_id category) (srv_categories s)
      then (False, s)
      else (True, s\<lparr>srv_categories := srv_categories s @ [SetAcknowledger category]\<rparr>))"

text \<open>The category that leaves the list is returned with its acknowledger cleared; \<open>None\<close> is the
  result \<^verbatim>\<open>false\<close>.\<close>

definition UnregisterCategory ::
    "nat \<Rightarrow> ('a, 'app, 'iso) server \<Rightarrow> ('a server_call, 'app) category option \<times> ('a, 'app, 'iso) server" where
  "UnregisterCategory address s =
     (if address = systemHandle then (None, s)
      else case find (\<lambda>existing. cat_handle existing = address) (srv_categories s) of
        Some existing \<Rightarrow>
          (Some (ClearAcknowledger existing),
           s\<lparr>srv_categories := filter (\<lambda>c. cat_handle c \<noteq> address) (srv_categories s)\<rparr>)
      | None \<Rightarrow> (None, s))"

definition AttachIsoTpTransport ::
    "('a, 'iso) iso_object \<Rightarrow> ('a, 'app, 'iso) server \<Rightarrow> ('a, 'app, 'iso) server" where
  "AttachIsoTpTransport isoTp s = s\<lparr>srv_isoTp := Some isoTp\<rparr>"

definition DetachIsoTpTransport :: "('a, 'app, 'iso) server \<Rightarrow> ('a, 'app, 'iso) server" where
  "DetachIsoTpTransport s = (if srv_isoTp s = None then s else s\<lparr>srv_isoTp := None\<rparr>)"

section \<open>Events\<close>

datatype ('a, 'app, 'iso) server_event =
    SrvReceive can_id bytes
  | SrvSendComplete bool
  | SrvTick time
  | SrvHeartbeatTimer
  | SrvRateReset
  | SrvLivenessTimer
  | SrvRegister "('a server_call, 'app) category"
  | SrvUnregister nat
  | SrvAttach "('a, 'iso) iso_object"
  | SrvDetach
  | SrvSend CanPriority u8 u8 bytes "'a option"
  | SrvAck u8 u8 CanAckStatus
  | SrvIso "'iso \<Rightarrow> ('a, 'iso) iso_program"
  | SrvApp 'app

definition ServerSendComplete :: "bool \<Rightarrow> ('a, 'app, 'iso) server \<Rightarrow> ('a, 'app, 'iso) server" where
  "ServerSendComplete success s =
     (case OnSendComplete success (srv_transport s) of
        None \<Rightarrow> s
      | Some (t, effects) \<Rightarrow> apply_effects effects (s\<lparr>srv_transport := t\<rparr>))"

fun srv_apply ::
    "('a, 'app, 'iso) server_event \<Rightarrow> ('a, 'app, 'iso) server \<Rightarrow> ('a, 'app, 'iso) server" where
  "srv_apply (SrvReceive canId data) s = ProcessReceivedMessage canId data s"
| "srv_apply (SrvSendComplete success) s = ServerSendComplete success s"
| "srv_apply (SrvTick d) s = s\<lparr>srv_now := srv_now s + d\<rparr>"
| "srv_apply SrvHeartbeatTimer s = SendHeartbeat (s\<lparr>srv_heartbeatTimer := None\<rparr>)"
| "srv_apply SrvRateReset s =
     ResetRateCounter (s\<lparr>srv_rateResetTimer := srv_rateResetTimer s + rateResetPeriod\<rparr>)"
| "srv_apply SrvLivenessTimer s = HandleClientTimeout (s\<lparr>srv_livenessTimer := None\<rparr>)"
| "srv_apply (SrvRegister category) s = snd (RegisterCategory category s)"
| "srv_apply (SrvUnregister address) s = snd (UnregisterCategory address s)"
| "srv_apply (SrvAttach isoTp) s = AttachIsoTpTransport isoTp s"
| "srv_apply SrvDetach s = DetachIsoTpTransport s"
| "srv_apply (SrvSend p c m d cb) s = snd (TransportSend p c m d (app_callback cb) s)"
| "srv_apply (SrvAck c m status) s = SendCommandAck c m status s"
| "srv_apply (SrvIso f) s =
     (case srv_isoTp s of None \<Rightarrow> s | Some (isoState, _) \<Rightarrow> snd (run_iso (f isoState) s))"
| "srv_apply (SrvApp app) s = s\<lparr>srv_app := app\<rparr>"

definition srv_enabled :: "('a, 'app, 'iso) server_event \<Rightarrow> ('a, 'app, 'iso) server \<Rightarrow> bool" where
  "srv_enabled e s =
     (case e of
        SrvSendComplete _ \<Rightarrow> tx_current (srv_transport s) \<noteq> None
      | SrvHeartbeatTimer \<Rightarrow> (case srv_heartbeatTimer s of None \<Rightarrow> False | Some d \<Rightarrow> d \<le> srv_now s)
      | SrvRateReset \<Rightarrow> srv_rateResetTimer s \<le> srv_now s
      | SrvLivenessTimer \<Rightarrow> (case srv_livenessTimer s of None \<Rightarrow> False | Some d \<Rightarrow> d \<le> srv_now s)
      | SrvRegister category \<Rightarrow>
          cat_handle category \<notin> cat_handle ` set (srv_categories s)
      | _ \<Rightarrow> True)"

definition srv_step ::
    "('a, 'app, 'iso) server_event \<Rightarrow> ('a, 'app, 'iso) server
       \<Rightarrow> ('a, 'app, 'iso) server \<times> 'a server_output list" where
  "srv_step e s = (let s' = srv_apply e s in (s', drop (length (srv_log s)) (srv_log s')))"

end
