(* ===== verification/ServerLaws.thy ===== *)
theory ServerLaws
  imports ProtocolServer
begin

text \<open>
  The invariant of the protocol server and its properties.

  Most operations only talk to the bus: they change the transport, the heartbeat timer and flag and
  the log, and nothing else.  This is the relation \<open>calm\<close>; \<open>srv_core\<close> is the part of the
  state it leaves alone.
\<close>

section \<open>What talking to the bus leaves alone\<close>

definition srv_core :: "('a, 'app, 'iso) server \<Rightarrow> ('a, 'app, 'iso) server" where
  "srv_core s = s\<lparr>srv_transport := CanFrameTransport 0 False, srv_heartbeatTimer := None,
     srv_heartbeatPending := False, srv_log := []\<rparr>"

lemma srv_core_fields:
  assumes "srv_core s' = srv_core s"
  shows "srv_config s' = srv_config s" "srv_rateResetTimer s' = srv_rateResetTimer s"
    "srv_livenessTimer s' = srv_livenessTimer s" "srv_messageCount s' = srv_messageCount s"
    "srv_emergencyCount s' = srv_emergencyCount s" "srv_counters s' = srv_counters s"
    "srv_lastSequence s' = srv_lastSequence s"
    "srv_sequenceInitialized s' = srv_sequenceInitialized s"
    "srv_clientOnline s' = srv_clientOnline s" "srv_categories s' = srv_categories s"
    "srv_isoTp s' = srv_isoTp s" "srv_app s' = srv_app s" "srv_now s' = srv_now s"
  using assms by (cases s; cases s'; simp add: srv_core_def)+

definition bus_output :: "'a server_output \<Rightarrow> bool" where
  "bus_output out = (case out of ClientOnline \<Rightarrow> False | ClientOffline \<Rightarrow> False | _ \<Rightarrow> True)"

text \<open>The invariant of the part that \<open>calm\<close> operations change.  The flag says whether the
  server's own heartbeat is among the frames the transport holds, and the heartbeat timer always
  runs, for at most one interval.\<close>

definition link_inv :: "('a, 'app, 'iso) server \<Rightarrow> bool" where
  "link_inv s \<longleftrightarrow> tx_inv (srv_transport s) \<and> tx_notifies (srv_transport s) \<and>
     tx_nodeId (srv_transport s) = cfg_nodeId (srv_config s) \<and>
     count (tx_pending (srv_transport s)) HeartbeatDone = of_bool (srv_heartbeatPending s) \<and>
     (\<exists>d. srv_heartbeatTimer s = Some d \<and>
        d \<le> srv_now s + cfg_heartbeatInterval (srv_config s))"

definition calm :: "('a, 'app, 'iso) server \<Rightarrow> ('a, 'app, 'iso) server \<Rightarrow> bool" where
  "calm s s' \<longleftrightarrow> srv_core s' = srv_core s \<and>
     (\<exists>out. srv_log s' = srv_log s @ out \<and> list_all bus_output out) \<and>
     (link_inv s \<longrightarrow> link_inv s')"

lemma calm_refl [simp, intro]: "calm s s"
  by (simp add: calm_def)

lemma calm_trans [trans]:
  assumes "calm s s'" and "calm s' s''"
  shows "calm s s''"
proof -
  obtain out out' where "srv_log s' = srv_log s @ out" "list_all bus_output out"
    and "srv_log s'' = srv_log s' @ out'" "list_all bus_output out'"
    using assms unfolding calm_def by blast
  then have "srv_log s'' = srv_log s @ (out @ out') \<and> list_all bus_output (out @ out')" by simp
  then show ?thesis using assms unfolding calm_def by metis
qed

section \<open>Effects of the transport\<close>

lemma apply_effect_core [simp]: "srv_core (apply_effect e s) = srv_core s"
proof (cases e)
  case (Completed cb ok)
  then show ?thesis by (cases cb) (simp_all add: srv_core_def emit_def)
qed (simp_all add: srv_core_def emit_def ResetHeartbeatTimer_def)

lemma apply_effects_core [simp]: "srv_core (apply_effects es s) = srv_core s"
  unfolding apply_effects_def by (induction es arbitrary: s) auto

lemma apply_effect_transport [simp]: "srv_transport (apply_effect e s) = srv_transport s"
proof (cases e)
  case (Completed cb ok)
  then show ?thesis by (cases cb) (simp_all add: emit_def)
qed (simp_all add: emit_def ResetHeartbeatTimer_def)

lemma apply_effects_transport [simp]: "srv_transport (apply_effects es s) = srv_transport s"
  unfolding apply_effects_def by (induction es arbitrary: s) auto

lemma apply_effect_log:
  "\<exists>out. srv_log (apply_effect e s) = srv_log s @ out \<and> list_all bus_output out"
proof (cases e)
  case (Completed cb ok)
  then show ?thesis by (cases cb) (simp_all add: emit_def bus_output_def)
qed (simp_all add: emit_def ResetHeartbeatTimer_def bus_output_def)

lemma apply_effects_log:
  "\<exists>out. srv_log (apply_effects es s) = srv_log s @ out \<and> list_all bus_output out"
proof (induction es arbitrary: s)
  case Nil
  then show ?case by (simp add: apply_effects_def)
next
  case (Cons e es)
  obtain out1 where "srv_log (apply_effect e s) = srv_log s @ out1" "list_all bus_output out1"
    using apply_effect_log by blast
  moreover obtain out2 where "srv_log (apply_effects es (apply_effect e s))
      = srv_log (apply_effect e s) @ out2" "list_all bus_output out2"
    using Cons.IH by blast
  ultimately have "srv_log (apply_effects (e # es) s) = srv_log s @ (out1 @ out2) \<and>
      list_all bus_output (out1 @ out2)"
    by (simp add: apply_effects_def)
  then show ?case by blast
qed

lemma apply_effects_pending:
  "srv_heartbeatPending (apply_effects es s) =
     (srv_heartbeatPending s \<and> count (completions es) HeartbeatDone = 0)"
proof (induction es arbitrary: s)
  case Nil
  then show ?case by (simp add: apply_effects_def)
next
  case (Cons e es)
  show ?case
  proof (cases e)
    case (Completed cb ok)
    with Cons show ?thesis by (cases cb) (simp_all add: apply_effects_def emit_def)
  qed (use Cons in \<open>simp_all add: apply_effects_def emit_def ResetHeartbeatTimer_def\<close>)
qed

definition timer_ok :: "('a, 'app, 'iso) server \<Rightarrow> bool" where
  "timer_ok s \<longleftrightarrow> (\<exists>d. srv_heartbeatTimer s = Some d \<and>
     d \<le> srv_now s + cfg_heartbeatInterval (srv_config s))"

lemma apply_effect_timer: "timer_ok s \<Longrightarrow> timer_ok (apply_effect e s)"
proof (cases e)
  case (Completed cb ok)
  then show "timer_ok s \<Longrightarrow> ?thesis" by (cases cb) (simp_all add: timer_ok_def emit_def)
qed (simp_all add: timer_ok_def emit_def ResetHeartbeatTimer_def)

lemma apply_effects_timer: "timer_ok s \<Longrightarrow> timer_ok (apply_effects es s)"
  unfolding apply_effects_def by (induction es arbitrary: s) (auto intro: apply_effect_timer)

section \<open>Sends are calm\<close>

lemma SendRawFrame_node:
  assumes "SendRawFrame i d cb t = (ok, t', e)"
  shows "tx_nodeId t' = tx_nodeId t" "tx_notifies t' = tx_notifies t"
  using assms
  by (auto simp: SendRawFrame_def Enqueue_def EnqueueEmergency_def EnqueueOrdinary_def
      DisplaceNewestLeastUrgent_def Let_def split: if_splits bool.splits prod.splits)

lemma OnSendComplete_node:
  assumes "OnSendComplete ok t = Some (t', e)"
  shows "tx_nodeId t' = tx_nodeId t" "tx_notifies t' = tx_notifies t"
  using assms
  by (auto simp: OnSendComplete_def RetryCurrent_def SendNextQueued_def
      split: option.splits list.splits if_splits)

text \<open>The common step: a new transport that conserves the callbacks, then its effects.\<close>

lemma split_of_bool: "(a :: nat) + b = of_bool P \<Longrightarrow> a = of_bool (P \<and> b = 0)"
  by (cases P; cases b) auto

lemma link_inv_effects:
  assumes inv: "link_inv s" and tx: "tx_inv t"
    and node: "tx_nodeId t = tx_nodeId (srv_transport s)" "tx_notifies t = tx_notifies (srv_transport s)"
    and pending: "tx_pending t + completions effects = tx_pending (srv_transport s) + m"
    and none: "count m HeartbeatDone = 0"
  shows "link_inv (apply_effects effects (s\<lparr>srv_transport := t\<rparr>))"
proof -
  let ?s = "s\<lparr>srv_transport := t\<rparr>" and ?s' = "apply_effects effects (s\<lparr>srv_transport := t\<rparr>)"
  have "count (tx_pending t) HeartbeatDone + count (completions effects) HeartbeatDone =
      of_bool (srv_heartbeatPending s)"
    using arg_cong [OF pending, of "\<lambda>m. count m HeartbeatDone"] inv none by (simp add: link_inv_def)
  moreover have "timer_ok ?s'"
    using inv by (intro apply_effects_timer) (simp add: timer_ok_def link_inv_def)
  moreover have "srv_config ?s' = srv_config s" "srv_now ?s' = srv_now s"
    using srv_core_fields [of ?s' ?s] by simp_all
  ultimately show ?thesis
    using inv tx node split_of_bool
    by (simp add: link_inv_def apply_effects_pending timer_ok_def)
qed

lemma calm_effects:
  assumes "link_inv s \<Longrightarrow> link_inv (apply_effects effects (s\<lparr>srv_transport := t\<rparr>))"
  shows "calm s (apply_effects effects (s\<lparr>srv_transport := t\<rparr>))"
proof -
  have "srv_core (s\<lparr>srv_transport := t\<rparr>) = srv_core s" by (simp add: srv_core_def)
  then show ?thesis
    using assms apply_effects_log [of effects "s\<lparr>srv_transport := t\<rparr>"] by (simp add: calm_def)
qed

lemma TransportSendRaw_calm:
  assumes "TransportSendRaw i d cb s = (ok, s')" and "cb \<noteq> HeartbeatDone"
  shows "calm s s'"
proof -
  obtain t e where r: "SendRawFrame i d cb (srv_transport s) = (ok, t, e)"
    and s': "s' = apply_effects e (s\<lparr>srv_transport := t\<rparr>)"
    using assms(1) by (auto simp: TransportSendRaw_def split: prod.splits)
  have "link_inv (apply_effects e (s\<lparr>srv_transport := t\<rparr>))" if inv: "link_inv s"
  proof -
    have tx: "tx_inv (srv_transport s)" using inv by (simp add: link_inv_def)
    show ?thesis
      using SendRawFrame_inv [OF tx, of i d cb] SendRawFrame_node [OF r] assms(2) r
      by (intro link_inv_effects [OF inv _ _ _ SendRawFrame_conserves [OF tx r]]) auto
  qed
  then show ?thesis unfolding s' by (rule calm_effects)
qed

lemma TransportSend_raw:
  "TransportSend p c m d cb s =
     TransportSendRaw (Id29 (MakeCanId p c m (tx_nodeId (srv_transport s)))) d cb s"
  by (simp add: TransportSend_def TransportSendRaw_def SendFrame_def SendFrameTo_def)

lemma TransportSend_calm:
  "TransportSend p c m d cb s = (ok, s') \<Longrightarrow> cb \<noteq> HeartbeatDone \<Longrightarrow> calm s s'"
  unfolding TransportSend_raw by (rule TransportSendRaw_calm)

lemma SendCommandAckWith_calm: "calm s (SendCommandAckWith c m status expected s)"
  unfolding SendCommandAckWith_def Let_def
  by (rule TransportSend_calm [OF surjective_pairing]) simp

lemma SendCommandAck_calm: "calm s (SendCommandAck c m status s)"
  unfolding SendCommandAck_def by (rule SendCommandAckWith_calm)

lemma SendCategoryList_calm: "calm s (SendCategoryList s)"
  unfolding SendCategoryList_def Let_def
  by (rule TransportSend_calm [OF surjective_pairing]) simp

lemma ResetHeartbeatTimer_calm: "calm s (ResetHeartbeatTimer s)"
  by (simp add: calm_def ResetHeartbeatTimer_def srv_core_def link_inv_def)

lemma SendHeartbeat_calm: "calm s (SendHeartbeat s)"
proof -
  define r where "r = ResetHeartbeatTimer s"
  define p where "p = r\<lparr>srv_heartbeatPending := True\<rparr>"
  let ?i = "Id29 (MakeCanId heartbeat canSystemCategoryId canHeartbeatMessageTypeId
    (tx_nodeId (srv_transport p)))"
  let ?d = "pw_message (WriteUInt8P canProtocolVersion CanPayloadWriter)"
  obtain ok t e where send: "SendRawFrame ?i ?d HeartbeatDone (srv_transport p) = (ok, t, e)"
    by (metis prod_cases3)
  let ?s' = "apply_effects e (p\<lparr>srv_transport := t\<rparr>)"
  have "srv_core ?s' = srv_core (p\<lparr>srv_transport := t\<rparr>)" by (rule apply_effects_core)
  then have core: "srv_core ?s' = srv_core r" by (simp add: srv_core_def p_def)
  show ?thesis
  proof (cases "srv_heartbeatPending r")
    case True
    then have "SendHeartbeat s = r" by (simp add: SendHeartbeat_def r_def)
    then show ?thesis using ResetHeartbeatTimer_calm by (simp add: r_def)
  next
    case False
    then have hb: "SendHeartbeat s = (if ok then ?s' else ?s'\<lparr>srv_heartbeatPending := False\<rparr>)"
      using send unfolding SendHeartbeat_def Let_def r_def [symmetric] p_def [symmetric]
        TransportSend_raw TransportSendRaw_def by simp
    have "calm r (SendHeartbeat s)"
    proof -
      have "link_inv (SendHeartbeat s)" if inv: "link_inv r"
      proof -
        have tx: "tx_inv (srv_transport r)" using inv by (simp add: link_inv_def)
        have "tx_pending t + completions e =
            tx_pending (srv_transport r) + (if ok then {#HeartbeatDone#} else {#})"
          using SendRawFrame_conserves [of "srv_transport p"] tx send by (simp add: p_def)
        from arg_cong [OF this, of "\<lambda>m. count m HeartbeatDone"]
        have count: "count (tx_pending t) HeartbeatDone + count (completions e) HeartbeatDone =
            of_bool ok"
          using inv False by (auto simp: link_inv_def)
        have "timer_ok ?s'"
          using inv by (intro apply_effects_timer) (simp add: timer_ok_def link_inv_def p_def)
        moreover have "tx_inv t" "tx_nodeId t = tx_nodeId (srv_transport r)"
            "tx_notifies t = tx_notifies (srv_transport r)"
          using SendRawFrame_inv [of "srv_transport p" ?i ?d HeartbeatDone] tx send
            SendRawFrame_node [OF send]
          by (auto simp: p_def)
        moreover have "srv_config ?s' = srv_config r" "srv_now ?s' = srv_now r"
          using srv_core_fields [OF core] by simp_all
        ultimately show ?thesis
          using inv split_of_bool [OF count] count unfolding hb
          by (cases ok) (simp_all add: link_inv_def apply_effects_pending timer_ok_def p_def)
      qed
      moreover have "srv_core (SendHeartbeat s) = srv_core r"
        unfolding hb using core by (auto simp: srv_core_def)
      moreover have "\<exists>out. srv_log (SendHeartbeat s) = srv_log r @ out \<and> list_all bus_output out"
        unfolding hb using apply_effects_log [of e "p\<lparr>srv_transport := t\<rparr>"] by (simp add: p_def)
      ultimately show ?thesis by (simp add: calm_def)
    qed
    with ResetHeartbeatTimer_calm show ?thesis unfolding r_def by (rule calm_trans)
  qed
qed

text \<open>A handler changes the application's state and is calm otherwise.\<close>

lemma srv_core_app: "srv_core (s\<lparr>srv_app := a\<rparr>) = (srv_core s)\<lparr>srv_app := a\<rparr>"
  by (simp add: srv_core_def)

lemma link_inv_app [simp]: "link_inv (s\<lparr>srv_app := a\<rparr>) = link_inv s"
  by (simp add: link_inv_def)

lemma calm_app: "calm s s' \<Longrightarrow> calm (s\<lparr>srv_app := a\<rparr>) (s'\<lparr>srv_app := a\<rparr>)"
  by (simp add: calm_def srv_core_app)

lemma run_call_calm: "run_call c s = (r, s') \<Longrightarrow> calm s s'"
proof (cases c)
  case (Send p cat m d cb)
  moreover have "app_callback cb \<noteq> HeartbeatDone" by (cases cb) simp_all
  ultimately show "run_call c s = (r, s') \<Longrightarrow> calm s s'" by (auto intro: TransportSend_calm)
qed (use SendCommandAck_calm SendHeartbeat_calm SendCategoryList_calm in auto)

lemma run_program_calm:
  "run_program p s = (ok, s') \<Longrightarrow> \<exists>app. calm (s\<lparr>srv_app := app\<rparr>) s'"
proof (induction p arbitrary: s)
  case (Return b app)
  then show ?case by auto
next
  case (Call c k)
  obtain r s1 where s1: "run_call c s = (r, s1)" by (rule prod.exhaust)
  with Call.prems have "run_program (k r) s1 = (ok, s')" by simp
  from Call.IH [OF _ this] obtain app where "calm (s1\<lparr>srv_app := app\<rparr>) s'" by blast
  then show ?case using run_call_calm [OF s1] by (blast intro: calm_trans calm_app)
qed

lemma calm_same_app: "calm (s\<lparr>srv_app := srv_app s\<rparr>) s"
  by simp

lemma run_dispatch_calm:
  "run_dispatch d s = (r, s') \<Longrightarrow> \<exists>app. calm (s\<lparr>srv_app := app\<rparr>) s'"
  unfolding run_dispatch_def
  by (cases d)
    (auto split: prod.splits dest: run_program_calm intro: exI [of _ "srv_app s"])

section \<open>The invariant\<close>

text \<open>The observers' view: \<open>Some b\<close> when the notifications so far alternate, starting with
  \<open>Online\<close>, and \<open>b\<close> says whether the last one was \<open>Online\<close>.\<close>

fun presence_step :: "bool option \<Rightarrow> 'a server_output \<Rightarrow> bool option" where
  "presence_step (Some online) ClientOnline = (if online then None else Some True)"
| "presence_step (Some online) ClientOffline = (if online then Some False else None)"
| "presence_step st _ = st"

definition presence :: "'a server_output list \<Rightarrow> bool option" where
  "presence out = foldl presence_step (Some False) out"

lemma presence_bus [simp]: "list_all bus_output out \<Longrightarrow> presence (xs @ out) = presence xs"
proof (induction out rule: rev_induct)
  case (snoc x out)
  then show ?case
    by (cases x; cases "foldl presence_step (Some False) (xs @ out)")
      (simp_all add: presence_def bus_output_def)
qed simp

definition categories_ok :: "('a server_call, 'app) category list \<Rightarrow> bool" where
  "categories_ok cs \<longleftrightarrow>
     length cs \<le> canMaxRegisteredCategories \<and> distinct (map cat_id cs) \<and>
     distinct (map cat_handle cs) \<and> list_all cat_acknowledger cs \<and>
     (\<exists>rest. cs = SetAcknowledger system_category # rest)"

definition core_inv :: "('a, 'app, 'iso) server \<Rightarrow> bool" where
  "core_inv s \<longleftrightarrow> cfg_nodeId (srv_config s) \<noteq> canBroadcastNodeId \<and>
     categories_ok (srv_categories s) \<and>
     (srv_clientOnline s \<longrightarrow> (\<exists>d. srv_livenessTimer s = Some d \<and>
        d \<le> srv_now s + cfg_clientTimeout (srv_config s)))"

definition srv_inv :: "('a, 'app, 'iso) server \<Rightarrow> bool" where
  "srv_inv s \<longleftrightarrow> link_inv s \<and> core_inv s \<and> presence (srv_log s) = Some (srv_clientOnline s)"

lemma core_inv_core: "srv_core s' = srv_core s \<Longrightarrow> core_inv s' = core_inv s"
  using srv_core_fields [of s' s] by (simp add: core_inv_def)

lemma srv_inv_calm: "calm s s' \<Longrightarrow> srv_inv s \<Longrightarrow> srv_inv s'"
  using core_inv_core [of s' s] srv_core_fields(9) [of s' s]
  by (auto simp: calm_def srv_inv_def)

lemma srv_inv_updates [simp]:
  "srv_inv (s\<lparr>srv_counters := c\<rparr>) = srv_inv s"
  "srv_inv (s\<lparr>srv_lastSequence := n\<rparr>) = srv_inv s"
  "srv_inv (s\<lparr>srv_sequenceInitialized := b\<rparr>) = srv_inv s"
  "srv_inv (s\<lparr>srv_messageCount := k\<rparr>) = srv_inv s"
  "srv_inv (s\<lparr>srv_emergencyCount := k\<rparr>) = srv_inv s"
  "srv_inv (s\<lparr>srv_rateResetTimer := r\<rparr>) = srv_inv s"
  "srv_inv (s\<lparr>srv_isoTp := i\<rparr>) = srv_inv s"
  "srv_inv (s\<lparr>srv_app := a\<rparr>) = srv_inv s"
  by (simp_all add: srv_inv_def link_inv_def core_inv_def)

lemma TransportSendRaw_inv:
  "srv_inv s \<Longrightarrow> TransportSendRaw i d (app_callback cb) s = (ok, s') \<Longrightarrow> srv_inv s'"
  by (rule srv_inv_calm [OF TransportSendRaw_calm]) (auto, cases cb, auto)

lemma count_invalid_inv [simp]: "srv_inv (count_invalid s) = srv_inv s"
  by (simp add: count_invalid_def)

lemma RejectCommand_inv: "srv_inv s \<Longrightarrow> srv_inv (RejectCommand i status n s)"
  unfolding RejectCommand_def by (rule srv_inv_calm [OF SendCommandAckWith_calm]) simp

lemma AdmitCommand_inv: "srv_inv s \<Longrightarrow> AdmitCommand i d s = (c, s') \<Longrightarrow> srv_inv s'"
  unfolding AdmitCommand_def
  by (auto split: option.splits if_splits intro: RejectCommand_inv)

lemma CommitSequence_inv: "srv_inv s \<Longrightarrow> CommitSequence c d s = (p, s') \<Longrightarrow> srv_inv s'"
  by (auto simp: CommitSequence_def)

lemma run_dispatch_inv: "srv_inv s \<Longrightarrow> run_dispatch d s = (r, s') \<Longrightarrow> srv_inv s'"
  using run_dispatch_calm [of d s r s'] by (auto dest: srv_inv_calm)

lemma MarkClientAlive_inv: "srv_inv s \<Longrightarrow> srv_inv (MarkClientAlive s)"
  by (auto simp: MarkClientAlive_def Let_def emit_def srv_inv_def link_inv_def core_inv_def
      presence_def)

lemma HandleClientTimeout_inv:
  "srv_inv s \<Longrightarrow> srv_inv (HandleClientTimeout (s\<lparr>srv_livenessTimer := None\<rparr>))"
  by (auto simp: HandleClientTimeout_def emit_def srv_inv_def link_inv_def core_inv_def
      presence_def)

lemma Conclude_inv: "srv_inv s \<Longrightarrow> srv_inv (Conclude i p r s)"
  by (cases r) (simp_all add: Conclude_def AcceptCommand_def RestoreSequence_def
      MarkClientAlive_inv RejectCommand_inv)

lemma execute_inv:
  assumes "srv_inv s" and "AdmitCommand i d s = (Some c, s1)"
    and "CommitSequence c d s1 = (p, s2)" and "run_dispatch D s2 = (r, s3)"
  shows "srv_inv (Conclude i p r s3)"
  by (rule Conclude_inv [OF run_dispatch_inv [OF CommitSequence_inv [OF
        AdmitCommand_inv [OF assms(1,2)] assms(3)] assms(4)]])

lemma DispatchPdu_inv:
  assumes "srv_inv s"
  shows "srv_inv (DispatchPdu i pdu s)"
proof -
  obtain c s1 where s1: "AdmitCommand i pdu s = (c, s1)"
    by (cases "AdmitCommand i pdu s") auto
  show ?thesis
  proof (cases c)
    case None
    then show ?thesis
      using s1 AdmitCommand_inv [OF assms s1] assms by (simp add: DispatchPdu_def)
  next
    case (Some category)
    obtain p s2 where s2: "CommitSequence category pdu s1 = (p, s2)"
      by (cases "CommitSequence category pdu s1") auto
    obtain r s3 where s3: "run_dispatch (HandlePduMessage (ExtractCanMessageType i) pdu category
        (srv_app s2)) s2 = (r, s3)"
      by (rule prod.exhaust)
    have "srv_inv (Conclude i p r s3)"
      using execute_inv [OF assms _ s2 s3, of i] s1 Some by simp
    then show ?thesis
      using s1 Some s2 s3 assms by (simp add: DispatchPdu_def)
  qed
qed

lemma run_iso_inv: "srv_inv s \<Longrightarrow> run_iso p s = (b, s') \<Longrightarrow> srv_inv s'"
proof (induction p arbitrary: s)
  case (IsoSend i d cb k)
  obtain sent s1 where "TransportSendRaw i d (app_callback cb) s = (sent, s1)"
    by (cases "TransportSendRaw i d (app_callback cb) s") auto
  with IsoSend TransportSendRaw_inv [OF IsoSend.prems(1) this] show ?case by auto
next
  case (IsoPdu i pdu k)
  then show ?case using DispatchPdu_inv [of s i pdu] by auto
qed auto

lemma ProcessFrameIso_inv: "srv_inv s \<Longrightarrow> ProcessFrameIso i d s = (b, s') \<Longrightarrow> srv_inv s'"
  by (auto simp: ProcessFrameIso_def split: option.splits intro: run_iso_inv)

lemma CheckAndIncrementRate_inv:
  "srv_inv s \<Longrightarrow> CheckAndIncrementRate i s = (b, s') \<Longrightarrow> srv_inv s'"
  by (auto simp: CheckAndIncrementRate_def split: prod.splits if_splits)

lemma ProcessReceivedMessage_inv:
  assumes "srv_inv s"
  shows "srv_inv (ProcessReceivedMessage i d s)"
proof (cases i)
  case (Id29 rawId)
  obtain ok s1 where s1: "CheckAndIncrementRate rawId s = (ok, s1)"
    by (cases "CheckAndIncrementRate rawId s") auto
  obtain eaten s2 where s2: "ProcessFrameIso rawId d s1 = (eaten, s2)"
    by (cases "ProcessFrameIso rawId d s1") auto
  obtain c s3 where s3: "AdmitCommand rawId d s2 = (c, s3)"
    by (cases "AdmitCommand rawId d s2") auto
  have inv1: "srv_inv s1" by (rule CheckAndIncrementRate_inv [OF assms s1])
  have inv2: "srv_inv s2" by (rule ProcessFrameIso_inv [OF inv1 s2])
  have inv3: "srv_inv s3" by (rule AdmitCommand_inv [OF inv2 s3])
  show ?thesis
  proof (cases c)
    case None
    then show ?thesis
      using Id29 s1 s2 s3 inv1 inv2 inv3 assms
      by (cases ok; cases eaten) (simp_all add: ProcessReceivedMessage_def)
  next
    case (Some category)
    obtain p s4 where s4: "CommitSequence category d s3 = (p, s4)"
      by (cases "CommitSequence category d s3") auto
    obtain r s5 where s5: "run_dispatch (HandleMessage (ExtractCanMessageType rawId) d category
        (srv_app s4)) s4 = (r, s5)"
      by (rule prod.exhaust)
    from execute_inv [OF inv2 _ s4 s5, of rawId] Some s3
    have "srv_inv (Conclude rawId p r s5)" by simp
    then show ?thesis
      using Id29 s1 s2 s3 s4 s5 Some inv1 inv2 assms
      by (cases ok; cases eaten) (simp_all add: ProcessReceivedMessage_def)
  qed
qed (use assms in \<open>simp add: ProcessReceivedMessage_def\<close>)

lemma ServerSendComplete_inv:
  assumes "srv_inv s"
  shows "srv_inv (ServerSendComplete success s)"
proof (cases "OnSendComplete success (srv_transport s)")
  case (Some r)
  then obtain t e where r: "OnSendComplete success (srv_transport s) = Some (t, e)"
    by (cases r) auto
  have "link_inv (apply_effects e (s\<lparr>srv_transport := t\<rparr>))" if inv: "link_inv s"
    using OnSendComplete_inv [OF _ r] OnSendComplete_conserves [OF r] OnSendComplete_node [OF r] inv
    by (intro link_inv_effects [OF inv, of _ _ "{#}"]) (auto simp: link_inv_def)
  from srv_inv_calm [OF calm_effects [OF this] assms] r show ?thesis
    by (simp add: ServerSendComplete_def)
qed (use assms in \<open>simp add: ServerSendComplete_def\<close>)

lemma srv_inv_categories:
  "srv_inv s \<Longrightarrow> categories_ok cs \<Longrightarrow> srv_inv (s\<lparr>srv_categories := cs\<rparr>)"
  by (simp add: srv_inv_def link_inv_def core_inv_def)

lemma RegisterCategory_inv:
  assumes "srv_inv s" and "cat_handle c \<notin> cat_handle ` set (srv_categories s)"
  shows "srv_inv (snd (RegisterCategory c s))"
proof -
  have "cat_id c \<notin> cat_id ` set (srv_categories s)"
    if "\<not> list_ex (\<lambda>e. cat_id e = cat_id c) (srv_categories s)"
    using that by (auto simp: list_ex_iff image_iff)
  moreover have "categories_ok (srv_categories s)" using assms by (simp add: srv_inv_def core_inv_def)
  ultimately have "categories_ok (srv_categories s @ [SetAcknowledger c])"
    if "\<not> list_ex (\<lambda>e. cat_id e = cat_id c) (srv_categories s)"
      "length (srv_categories s) < canMaxRegisteredCategories"
    using that assms(2) by (auto simp: categories_ok_def SetAcknowledger_def)
  then show ?thesis
    using assms(1) by (auto simp: RegisterCategory_def intro: srv_inv_categories)
qed

lemma categories_ok_filter:
  assumes ok: "categories_ok cs" and other: "address \<noteq> systemHandle"
  shows "categories_ok (filter (\<lambda>c. cat_handle c \<noteq> address) cs)"
proof -
  let ?f = "filter (\<lambda>c. cat_handle c \<noteq> address)"
  have "length (?f cs) \<le> canMaxRegisteredCategories"
    using ok length_filter_le [of _ cs] by (meson categories_ok_def order.trans)
  moreover have "distinct (map cat_id (?f cs))" "distinct (map cat_handle (?f cs))"
    using ok by (simp_all add: categories_ok_def distinct_map_filter)
  moreover have "list_all cat_acknowledger (?f cs)"
    using ok by (simp add: categories_ok_def list_all_iff)
  moreover have "\<exists>rest. ?f cs = SetAcknowledger system_category # rest"
    using ok other by (auto simp: categories_ok_def SetAcknowledger_def system_category_def)
  ultimately show ?thesis by (simp add: categories_ok_def)
qed

lemma UnregisterCategory_inv:
  assumes "srv_inv s"
  shows "srv_inv (snd (UnregisterCategory address s))"
proof -
  have "categories_ok (srv_categories s)" using assms by (simp add: srv_inv_def core_inv_def)
  then show ?thesis
    using assms
    by (auto simp: UnregisterCategory_def split: option.splits
        intro!: srv_inv_categories categories_ok_filter)
qed

lemma SendHeartbeat_timer:
  "SendHeartbeat (s\<lparr>srv_heartbeatTimer := t\<rparr>) = SendHeartbeat s"
  by (simp add: SendHeartbeat_def ResetHeartbeatTimer_def Let_def)

theorem srv_apply_inv:
  assumes "srv_inv s" and "srv_enabled e s"
  shows "srv_inv (srv_apply e s)"
proof (cases e)
  case (SrvTick d)
  with assms show ?thesis
    by (fastforce simp: srv_inv_def link_inv_def core_inv_def)
next
  case SrvHeartbeatTimer
  with assms show ?thesis by (simp add: SendHeartbeat_timer srv_inv_calm [OF SendHeartbeat_calm])
next
  case (SrvSend p c m d cb)
  have "app_callback cb \<noteq> HeartbeatDone" by (cases cb) auto
  from srv_inv_calm [OF TransportSend_calm [OF surjective_pairing this] assms(1)] SrvSend
  show ?thesis by simp
next
  case (SrvIso f)
  with assms show ?thesis
    by (auto split: option.splits intro: run_iso_inv [OF _ surjective_pairing])
next
  case (SrvAck c m status)
  with assms show ?thesis by (simp add: srv_inv_calm [OF SendCommandAck_calm])
qed (use assms in \<open>simp_all add: ProcessReceivedMessage_inv ServerSendComplete_inv ResetRateCounter_def
  HandleClientTimeout_inv RegisterCategory_inv srv_enabled_def UnregisterCategory_inv
  AttachIsoTpTransport_def DetachIsoTpTransport_def\<close>)

interpretation srv: io_machine srv_step srv_enabled srv_inv
  by unfold_locales (simp add: srv_step_def Let_def srv_apply_inv)

lemma CanProtocolServer_inv:
  "CanProtocolServer config app now = Some s \<Longrightarrow> srv_inv s"
  by (auto simp: CanProtocolServer_def CanSystemCategoryServer_eq ResetHeartbeatTimer_def
      srv_inv_def link_inv_def core_inv_def tx_inv_initial tx_pending_def presence_def
      categories_ok_def canMaxRegisteredCategories_def CanFrameTransport_def SetAcknowledger_def
      split: if_splits)
    (simp_all add: tx_inv_def OrdinaryCount_def priority_sorted_def emergencyRetryLimit_def)

section \<open>Properties\<close>

definition sample_config :: server_config where
  "sample_config = \<lparr>cfg_nodeId = 5, cfg_maxMessagesPerSecond = 500, cfg_heartbeatInterval = 1000000,
     cfg_clientTimeout = 3000000, cfg_maxEmergencyMessagesPerSecond = 20\<rparr>"

definition sample_category :: "(nat server_call, nat) category" where
  "sample_category = \<lparr>cat_handle = 9, cat_id = 2, cat_sequence = True, cat_acknowledger = True,
     cat_messageTypes = [CanMessageHandler 1 (\<lambda>data app. Return (length data = 2) (app + 1))]\<rparr>"

definition sample_server :: "(nat, nat, nat) server" where
  "sample_server =
     \<lparr>srv_config = sample_config, srv_transport = CanFrameTransport 5 True,
      srv_heartbeatTimer = Some 1000000, srv_rateResetTimer = 1000000, srv_livenessTimer = None,
      srv_messageCount = 0, srv_emergencyCount = 0,
      srv_counters = \<lparr>cnt_rateLimited = 0, cnt_emergencyRateLimited = 0,
        cnt_invalidFrames = 0, cnt_emergencyAdmitted = 0\<rparr>,
      srv_lastSequence = 7, srv_sequenceInitialized = True, srv_clientOnline = False,
      srv_heartbeatPending = False,
      srv_categories = [SetAcknowledger system_category, sample_category], srv_isoTp = None,
      srv_app = 0, srv_now = 0, srv_log = []\<rparr>"

lemma sample_server_inv: "srv_inv sample_server"
  by (simp add: srv_inv_def link_inv_def core_inv_def sample_server_def sample_config_def
      CanFrameTransport_def tx_pending_def presence_def categories_ok_def canMaxRegisteredCategories_def
      SetAcknowledger_def system_category_def sample_category_def systemHandle_def can_constants
      tx_inv_def OrdinaryCount_def priority_sorted_def transport_constants)

lemma sample_start:
  "\<exists>s. CanProtocolServer sample_config (0 :: nat) 0 = Some (s :: (nat, nat, nat) server)"
  by (simp add: CanProtocolServer_def CanSystemCategoryServer_eq sample_config_def
      canBroadcastNodeId_def)

text \<open>In every state a server can reach, its own heartbeat is at most once among the frames it
  has yet to complete, exactly when \<open>heartbeatPending\<close> is set, and the timer of the next heartbeat
  always runs, for at most one interval: a server that sends nothing else is never silent for
  longer.\<close>

theorem heartbeat_scheduled_and_single:
  assumes "CanProtocolServer config app now = Some s0"
    and "admissible srv_enabled srv_step es s0"
  shows "(let s = fst (run_io srv_step es s0) in
    count (tx_pending (srv_transport s)) HeartbeatDone = (if srv_heartbeatPending s then 1 else 0) \<and>
    (\<exists>d. srv_heartbeatTimer s = Some d \<and> d \<le> srv_now s + cfg_heartbeatInterval (srv_config s)))"
  using srv.run_inv [OF CanProtocolServer_inv [OF assms(1)] assms(2)]
  by (auto simp: srv_inv_def link_inv_def Let_def)

theorem heartbeat_scheduled_and_single_witness:
  "\<exists>s :: (nat, nat, nat) server.
     CanProtocolServer sample_config (0 :: nat) 0 = Some s \<and>
     count (tx_pending (srv_transport (fst (run_io srv_step [SrvTick 5, SrvDetach] s)))) HeartbeatDone
       \<le> 1"
proof -
  obtain s :: "(nat, nat, nat) server"
    where s: "CanProtocolServer sample_config (0 :: nat) 0 = Some s"
    using sample_start by blast
  have "admissible srv_enabled srv_step [SrvTick 5, SrvDetach] s" by (simp add: srv_enabled_def)
  from heartbeat_scheduled_and_single [OF s this] s show ?thesis
    by (auto simp: Let_def split: if_splits)
qed

text \<open>The observers of a server are told \<open>Online\<close> and \<open>Offline\<close> alternately, beginning with
  \<open>Online\<close>, the last notification agrees with \<open>clientOnline\<close>, and while a client is online the
  liveness timer runs, for at most one client timeout.\<close>

theorem client_presence_alternates:
  assumes "CanProtocolServer config app now = Some s0"
    and "admissible srv_enabled srv_step es s0"
  shows "(let s = fst (run_io srv_step es s0) in
    presence (srv_log s) = Some (srv_clientOnline s) \<and>
    (\<not> srv_clientOnline s \<or> (\<exists>d. srv_livenessTimer s = Some d \<and>
       d \<le> srv_now s + cfg_clientTimeout (srv_config s))))"
  using srv.run_inv [OF CanProtocolServer_inv [OF assms(1)] assms(2)]
  by (auto simp: srv_inv_def core_inv_def Let_def)

theorem client_presence_alternates_witness:
  "\<exists>s :: (nat, nat, nat) server.
     CanProtocolServer sample_config (0 :: nat) 0 = Some s \<and>
     presence (srv_log (fst (run_io srv_step [SrvTick 5] s))) \<noteq> None"
proof -
  obtain s :: "(nat, nat, nat) server"
    where s: "CanProtocolServer sample_config (0 :: nat) 0 = Some s"
    using sample_start by blast
  have "admissible srv_enabled srv_step [SrvTick 5] s" by (simp add: srv_enabled_def)
  from client_presence_alternates [OF s this] s show ?thesis by (auto simp: Let_def)
qed

lemma WriteUInt8P_all:
  assumes "pw_valid w" and "length (pw_message w) + length cs \<le> message_max_size"
  shows "fold (\<lambda>c. WriteUInt8P (f c)) cs w = w\<lparr>pw_message := pw_message w @ map f cs\<rparr>"
  using assms by (induction cs arbitrary: w) (simp_all add: WriteUInt8P_def Reserve_fits)

text \<open>In every state a server can reach its categories have distinct ids, at most eight of
  them, and the answer to a category list request is one response frame with exactly their ids,
  never truncated.\<close>

theorem category_list_complete:
  assumes "CanProtocolServer config app now = Some s0"
    and "admissible srv_enabled srv_step es s0"
  shows "(let s = fst (run_io srv_step es s0) in
    distinct (map cat_id (srv_categories s)) \<and> length (srv_categories s) \<le> 8 \<and>
    SendCategoryList s =
      snd (TransportSend response canSystemCategoryId canCategoryListResponseMessageTypeId
             (map cat_id (srv_categories s)) NoCallback s))"
proof -
  let ?s = "fst (run_io srv_step es s0)"
  have ok: "categories_ok (srv_categories ?s)"
    using srv.run_inv [OF CanProtocolServer_inv [OF assms(1)] assms(2)]
    by (simp add: srv_inv_def core_inv_def)
  then have "fold (\<lambda>c. WriteUInt8P (cat_id c)) (srv_categories ?s) CanPayloadWriter =
      CanPayloadWriter\<lparr>pw_message := map cat_id (srv_categories ?s)\<rparr>"
    using WriteUInt8P_all [of CanPayloadWriter "srv_categories ?s" cat_id]
    by (simp add: categories_ok_def CanPayloadWriter_def can_constants)
  with ok show ?thesis
    by (simp add: Let_def SendCategoryList_def categories_ok_def canMaxRegisteredCategories_def)
qed

text \<open>A frame with a standard identifier, or one addressed to another node, changes nothing at
  all.\<close>

theorem foreign_frames_ignored:
  assumes "case canId of Id11 _ \<Rightarrow> True
    | Id29 rawId \<Rightarrow> ExtractCanNodeId rawId \<notin> {cfg_nodeId (srv_config s), 0}"
  shows "ProcessReceivedMessage canId data s = s"
  using assms
  by (auto simp: ProcessReceivedMessage_def IsAddressedToThisNode_def Let_def
      canBroadcastNodeId_def split: can_id.splits)

lemma IsEmergencyId_Make [simp]: "IsEmergencyId (MakeCanId p c m n) = (p = emergency)"
  by (simp add: IsEmergencyId_def del: CanPriority_code.simps)

text \<open>Of the frames addressed to the server in one period, at most the configured number of
  ordinary ones and of emergency ones pass the rate gate.  The two budgets are separate, and a
  frame over its budget has no effect but on the refusal counter: no handler runs, nothing is
  sent, sequence state and liveness stay.\<close>

theorem rate_gate:
  assumes "IsAddressedToThisNode s rawId"
  shows "(if IsEmergencyId rawId
    then (if srv_emergencyCount s < cfg_maxEmergencyMessagesPerSecond (srv_config s)
       then CheckAndIncrementRate rawId s =
         (True, s\<lparr>srv_emergencyCount := srv_emergencyCount s + 1\<rparr>)
       else ProcessReceivedMessage (Id29 rawId) data s =
         s\<lparr>srv_counters := (srv_counters s)\<lparr>cnt_emergencyRateLimited :=
              cnt_emergencyRateLimited (srv_counters s) + 1\<rparr>\<rparr>)
    else (if srv_messageCount s < cfg_maxMessagesPerSecond (srv_config s)
       then CheckAndIncrementRate rawId s =
         (True, s\<lparr>srv_messageCount := srv_messageCount s + 1\<rparr>)
       else ProcessReceivedMessage (Id29 rawId) data s =
         s\<lparr>srv_counters := (srv_counters s)\<lparr>cnt_rateLimited :=
              cnt_rateLimited (srv_counters s) + 1\<rparr>\<rparr>))"
  using assms
  by (auto simp: ProcessReceivedMessage_def CheckAndIncrementRate_def ConsumeBudget_def
      not_less [symmetric])

theorem rate_gate_witness:
  "ProcessReceivedMessage (Id29 (MakeCanId command 2 1 5)) [8] (sample_server\<lparr>srv_messageCount := 500\<rparr>)
   = sample_server\<lparr>srv_messageCount := 500,
       srv_counters := (srv_counters sample_server)\<lparr>cnt_rateLimited := 1\<rparr>\<rparr>"
  using rate_gate [of "sample_server\<lparr>srv_messageCount := 500\<rparr>" "MakeCanId command 2 1 5" "[8]"]
  by (simp add: IsAddressedToThisNode_def sample_server_def sample_config_def Let_def)

text \<open>What dispatching an admitted command does, once the gates are passed.\<close>

definition admissible_frame :: "('a, 'app, 'iso) server \<Rightarrow> u32 \<Rightarrow> bool" where
  "admissible_frame s rawId \<longleftrightarrow> IsAddressedToThisNode s rawId \<and> srv_isoTp s = None \<and>
     (if IsEmergencyId rawId
      then srv_emergencyCount s < cfg_maxEmergencyMessagesPerSecond (srv_config s)
      else srv_messageCount s < cfg_maxMessagesPerSecond (srv_config s))"

definition budgeted :: "u32 \<Rightarrow> ('a, 'app, 'iso) server \<Rightarrow> ('a, 'app, 'iso) server" where
  "budgeted rawId s =
     (if IsEmergencyId rawId then s\<lparr>srv_emergencyCount := srv_emergencyCount s + 1\<rparr>
      else s\<lparr>srv_messageCount := srv_messageCount s + 1\<rparr>)"

lemma CheckAndIncrementRate_admits:
  "admissible_frame s rawId \<Longrightarrow> CheckAndIncrementRate rawId s = (True, budgeted rawId s)"
  by (cases "IsEmergencyId rawId")
    (simp_all add: admissible_frame_def budgeted_def CheckAndIncrementRate_def ConsumeBudget_def
      flip: not_less)

lemma budgeted_fields [simp]:
  "srv_config (budgeted i s) = srv_config s" "srv_transport (budgeted i s) = srv_transport s"
  "srv_livenessTimer (budgeted i s) = srv_livenessTimer s"
  "srv_counters (budgeted i s) = srv_counters s"
  "srv_lastSequence (budgeted i s) = srv_lastSequence s"
  "srv_sequenceInitialized (budgeted i s) = srv_sequenceInitialized s"
  "srv_clientOnline (budgeted i s) = srv_clientOnline s"
  "srv_categories (budgeted i s) = srv_categories s" "srv_isoTp (budgeted i s) = srv_isoTp s"
  "srv_app (budgeted i s) = srv_app s" "srv_now (budgeted i s) = srv_now s"
  "srv_log (budgeted i s) = srv_log s"
  "FindCategory c (budgeted i s) = FindCategory c s"
  "ExpectedSequence (budgeted i s) = ExpectedSequence s"
  "IsExpectedSequence n (budgeted i s) = IsExpectedSequence n s"
  by (simp_all add: budgeted_def FindCategory_def ExpectedSequence_def IsExpectedSequence_def)

lemma ProcessReceivedMessage_admitted:
  assumes "admissible_frame s rawId"
  shows "ProcessReceivedMessage (Id29 rawId) data s =
    (case AdmitCommand rawId data (budgeted rawId s) of
       (None, s3) \<Rightarrow> s3
     | (Some category, s3) \<Rightarrow>
         (case CommitSequence category data s3 of
            (checkpoint, s4) \<Rightarrow>
              (case run_dispatch (HandleMessage (ExtractCanMessageType rawId) data
                       category (srv_app s4)) s4 of
                 (result, s5) \<Rightarrow> Conclude rawId checkpoint result s5)))"
  using assms
  by (simp add: ProcessReceivedMessage_def CheckAndIncrementRate_admits ProcessFrameIso_def)
    (simp add: admissible_frame_def)

lemma SendCommandAckWith_payload:
  "SendCommandAckWith c m status n s =
     snd (TransportSend response canSystemCategoryId canCommandAckMessageTypeId
            [c, m, CanAckStatus_code status, n] NoCallback s)"
  by (simp add: SendCommandAckWith_def WriteUInt8P_def Reserve_def CanPayloadWriter_def
      canMaxFramePayloadSize_def Let_def)

lemma SendCommandAckWith_core: "srv_core (SendCommandAckWith c m status n s) = srv_core s"
  using SendCommandAckWith_calm unfolding calm_def by blast

lemma RejectCommand_core:
  "srv_core (RejectCommand rawId status n s) = srv_core (count_invalid s)"
  unfolding RejectCommand_def by (rule SendCommandAckWith_core)

lemma unexpected_command:
  assumes "admissible_frame s rawId" and "IsCommandMessageType (ExtractCanMessageType rawId)"
    and "FindCategory (ExtractCanCategory rawId) s = Some category" and "cat_sequence category"
    and "\<not> IsEmergencyId rawId" and "srv_sequenceInitialized s" and "n \<noteq> srv_lastSequence s + 1"
  shows "ProcessReceivedMessage (Id29 rawId) (n # rest) s =
    RejectCommand rawId sequenceError (ExpectedSequence s) (budgeted rawId s)"
proof -
  have "AdmitCommand rawId (n # rest) (budgeted rawId s) =
      (None, RejectCommand rawId sequenceError (ExpectedSequence s) (budgeted rawId s))"
    using assms(2-) by (simp add: AdmitCommand_def RequiresSequenceValidation_def
        IsExpectedSequence_def ExpectedSequence_def)
  then show ?thesis by (simp add: ProcessReceivedMessage_admitted [OF assms(1)])
qed

text \<open>C4: A command of a category with sequence validation that is not an emergency and does not
  carry the expected sequence number reaches no handler: the application, the sequence state and
  the client's liveness are as before, the frame counts as invalid, and the answer is an
  acknowledgement \<open>sequenceError\<close> that carries the expected number.\<close>

theorem unexpected_sequence_rejected:
  assumes "admissible_frame s rawId" and "IsCommandMessageType (ExtractCanMessageType rawId)"
    and "FindCategory (ExtractCanCategory rawId) s = Some category" and "cat_sequence category"
    and "\<not> IsEmergencyId rawId" and "srv_sequenceInitialized s" and "n \<noteq> srv_lastSequence s + 1"
  shows "(let s' = ProcessReceivedMessage (Id29 rawId) (n # rest) s in
    srv_app s' = srv_app s \<and> srv_lastSequence s' = srv_lastSequence s \<and>
    srv_sequenceInitialized s' \<and> srv_clientOnline s' = srv_clientOnline s \<and>
    srv_livenessTimer s' = srv_livenessTimer s \<and>
    cnt_invalidFrames (srv_counters s') = cnt_invalidFrames (srv_counters s) + 1 \<and>
    snd (TransportSend response 0 2
      [ExtractCanCategory rawId, ExtractCanMessageType rawId, 4, srv_lastSequence s + 1] NoCallback
      (count_invalid (budgeted rawId s))) = s')"
proof -
  let ?s' = "RejectCommand rawId sequenceError (ExpectedSequence s) (budgeted rawId s)"
  have "ProcessReceivedMessage (Id29 rawId) (n # rest) s = ?s'" by (rule unexpected_command [OF assms])
  moreover have "srv_core ?s' = srv_core (count_invalid (budgeted rawId s))"
    by (rule RejectCommand_core)
  ultimately show ?thesis
    using assms(6) srv_core_fields [of ?s' "count_invalid (budgeted rawId s)"]
    by (simp add: Let_def count_invalid_def RejectCommand_def SendCommandAckWith_payload
        ExpectedSequence_def canSystemCategoryId_def canCommandAckMessageTypeId_def)
qed

lemma sample_fields [simp]:
  "srv_app sample_server = 0" "srv_lastSequence sample_server = 7"
  "srv_sequenceInitialized sample_server" "cat_sequence sample_category"
  "\<not> srv_clientOnline sample_server"
  by (simp_all add: sample_server_def sample_category_def)

lemma sample_frame_admissible:
  "unat n < 4096 \<Longrightarrow> n = 5 \<Longrightarrow> admissible_frame sample_server (MakeCanId command 2 1 n)"
  by (simp add: admissible_frame_def IsAddressedToThisNode_def sample_server_def
      sample_config_def Let_def)

lemma sample_find: "FindCategory 2 sample_server = Some sample_category"
  by (simp add: FindCategory_def sample_server_def sample_category_def SetAcknowledger_def
      system_category_def canSystemCategoryId_def)

theorem unexpected_sequence_rejected_witness:
  "srv_app (ProcessReceivedMessage (Id29 (MakeCanId command 2 1 5)) [7, 1] sample_server) = 0"
  using unexpected_sequence_rejected [of sample_server "MakeCanId command 2 1 5" sample_category 7 "[1]"]
    sample_frame_admissible [of 5] sample_find
  by (simp add: IsCommandMessageType_def canLastCommandMessageTypeId_def Let_def)

lemma Conclude_handled:
  "Conclude rawId p handled s = MarkClientAlive
     (if IsEmergencyId rawId
      then s\<lparr>srv_counters := (srv_counters s)\<lparr>cnt_emergencyAdmitted :=
               cnt_emergencyAdmitted (srv_counters s) + 1\<rparr>\<rparr> else s)"
  by (simp add: Conclude_def AcceptCommand_def)

text \<open>C3: A command of a category with sequence validation that carries the expected number, or
  is an emergency, reaches its handler.  If the handler accepts it, its number becomes the last
  one and the client is alive and its timeout restarted; if it is refused or its type is unknown,
  sequence state and liveness are as before the command, so the client may use the same number
  again, and the answer is one acknowledgement \<open>invalidPayload\<close> or \<open>unknownCommand\<close>.\<close>

theorem command_outcome:
  assumes "admissible_frame s rawId" and "IsCommandMessageType (ExtractCanMessageType rawId)"
    and "FindCategory (ExtractCanCategory rawId) s = Some category" and "cat_sequence category"
    and "IsEmergencyId rawId \<or> IsExpectedSequence n s"
    and "run_dispatch (HandleMessage (ExtractCanMessageType rawId) (n # rest) category (srv_app s))
           ((budgeted rawId s)\<lparr>srv_lastSequence := n, srv_sequenceInitialized := True\<rparr>)
         = (result, s1)"
  shows "(let s' = ProcessReceivedMessage (Id29 rawId) (n # rest) s in
    srv_app s' = srv_app s1 \<and>
    (if result = handled
     then srv_lastSequence s' = n \<and> srv_sequenceInitialized s' \<and> srv_clientOnline s' \<and>
       srv_livenessTimer s' = Some (srv_now s + cfg_clientTimeout (srv_config s))
     else srv_lastSequence s' = srv_lastSequence s \<and>
       srv_sequenceInitialized s' = srv_sequenceInitialized s \<and>
       srv_clientOnline s' = srv_clientOnline s \<and> srv_livenessTimer s' = srv_livenessTimer s \<and>
       snd (TransportSend response 0 2
         [ExtractCanCategory rawId, ExtractCanMessageType rawId,
          if result = rejected then 2 else 1, 0] NoCallback
         (count_invalid (RestoreSequence (srv_lastSequence s, srv_sequenceInitialized s) s1))) = s'))"
proof -
  let ?p = "(srv_lastSequence s, srv_sequenceInitialized s)"
  have admit: "AdmitCommand rawId (n # rest) (budgeted rawId s) = (Some category, budgeted rawId s)"
    using assms(2-5) by (auto simp: AdmitCommand_def RequiresSequenceValidation_def)
  have s': "ProcessReceivedMessage (Id29 rawId) (n # rest) s = Conclude rawId ?p result s1"
    using assms(4,6) by (simp add: ProcessReceivedMessage_admitted [OF assms(1)] admit
        CommitSequence_def RequiresSequenceValidation_def)
  obtain app where "calm ((budgeted rawId s)\<lparr>srv_lastSequence := n, srv_sequenceInitialized := True,
      srv_app := app\<rparr>) s1"
    using run_dispatch_calm [OF assms(6)] by auto
  then have "srv_core s1 = srv_core ((budgeted rawId s)
      \<lparr>srv_lastSequence := n, srv_sequenceInitialized := True, srv_app := app\<rparr>)"
    by (simp add: calm_def)
  note s1 = srv_core_fields [OF this, simplified]
  show ?thesis
  proof (cases "result = handled")
    case True
    then show ?thesis
      using s' s1 by (auto simp: Let_def Conclude_handled MarkClientAlive_def emit_def)
  next
    case False
    let ?r = "count_invalid (RestoreSequence ?p s1)"
    have reject: "Conclude rawId ?p result s1 = SendCommandAckWith (ExtractCanCategory rawId)
        (ExtractCanMessageType rawId) (if result = rejected then invalidPayload else unknownCommand)
        0 ?r"
      using False by (cases result) (simp_all add: Conclude_def RejectCommand_def)
    have "srv_core (Conclude rawId ?p result s1) = srv_core ?r"
      unfolding reject by (rule SendCommandAckWith_core)
    from srv_core_fields [OF this] show ?thesis
      using False s' s1 reject
      by (simp add: Let_def count_invalid_def RestoreSequence_def SendCommandAckWith_payload
          canSystemCategoryId_def canCommandAckMessageTypeId_def)
  qed
qed

theorem command_outcome_witness:
  "srv_lastSequence (ProcessReceivedMessage (Id29 (MakeCanId command 2 1 5)) [8, 1] sample_server) = 8
   \<and> srv_lastSequence (ProcessReceivedMessage (Id29 (MakeCanId command 2 1 5)) [8] sample_server) = 7"
  using command_outcome [of sample_server "MakeCanId command 2 1 5" sample_category 8 "[1]", OF _ _ _ _ _
      surjective_pairing]
    command_outcome [of sample_server "MakeCanId command 2 1 5" sample_category 8 "[]", OF _ _ _ _ _
      surjective_pairing]
    sample_frame_admissible [of 5] sample_find
  by (simp add: IsCommandMessageType_def canLastCommandMessageTypeId_def Let_def
      IsExpectedSequence_def ExpectedSequence_def HandleMessage_def Handle_def
      CanMessageHandler_def run_dispatch_def sample_category_def)

end
