(* ===== verification/CategoryClient.thy ===== *)
theory CategoryClient
  imports Category
begin

text \<open>
  The client side of a category: \<^verbatim>\<open>CanCategoryClient\<close> in \<^verbatim>\<open>CanCategory.cpp\<close>, and the system
  category of a client.  A category of a client sends commands, with a sequence number of the
  client's source or without one.
\<close>

section \<open>Calls\<close>

text \<open>A command with its sequence number and one without: target, priority, category, message type
  and payload.  What \<^verbatim>\<open>SendCommand\<close> does is the client's \<open>CategorySendCommand\<close>.\<close>

datatype client_call =
    ClientCommand u16 CanPriority u8 u8 bytes
  | ClientSend u16 CanPriority u8 u8 bytes

definition CanCategoryClient :: "nat \<Rightarrow> u8 \<Rightarrow> (client_call, 'app) category" where
  "CanCategoryClient address categoryId =
     \<lparr>cat_handle = address, cat_id = categoryId, cat_sequence = False,
      cat_acknowledger = False, cat_messageTypes = []\<rparr>"

definition SendCommand ::
    "(client_call, 'app) category \<Rightarrow> u16 \<Rightarrow> u8 \<Rightarrow> bytes \<Rightarrow> CanPriority
       \<Rightarrow> (bool \<Rightarrow> (client_call, 'app) program) \<Rightarrow> (client_call, 'app) program" where
  "SendCommand c targetNodeId messageType payload priority k =
     Call (ClientCommand targetNodeId priority (cat_id c) messageType payload) k"

definition SendCommandEmpty ::
    "(client_call, 'app) category \<Rightarrow> u16 \<Rightarrow> u8 \<Rightarrow> CanPriority
       \<Rightarrow> (bool \<Rightarrow> (client_call, 'app) program) \<Rightarrow> (client_call, 'app) program" where
  "SendCommandEmpty c targetNodeId messageType priority k =
     SendCommand c targetNodeId messageType [] priority k"

definition SendCommandPayload ::
    "(client_call, 'app) category \<Rightarrow> u16 \<Rightarrow> u8 \<Rightarrow> payload_writer \<Rightarrow> CanPriority
       \<Rightarrow> (bool \<Rightarrow> (client_call, 'app) program) \<Rightarrow> (client_call, 'app) program" where
  "SendCommandPayload c targetNodeId messageType payload priority k =
     (if pw_valid payload then SendCommand c targetNodeId messageType (pw_message payload) priority k
      else k False)"

definition SendCommandWithoutSequence ::
    "(client_call, 'app) category \<Rightarrow> u16 \<Rightarrow> u8 \<Rightarrow> bytes \<Rightarrow> CanPriority
       \<Rightarrow> (bool \<Rightarrow> (client_call, 'app) program) \<Rightarrow> (client_call, 'app) program" where
  "SendCommandWithoutSequence c targetNodeId messageType payload priority k =
     Call (ClientSend targetNodeId priority (cat_id c) messageType payload) k"

definition SendCommandWithoutSequenceEmpty ::
    "(client_call, 'app) category \<Rightarrow> u16 \<Rightarrow> u8 \<Rightarrow> CanPriority
       \<Rightarrow> (bool \<Rightarrow> (client_call, 'app) program) \<Rightarrow> (client_call, 'app) program" where
  "SendCommandWithoutSequenceEmpty c targetNodeId messageType priority k =
     SendCommandWithoutSequence c targetNodeId messageType [] priority k"

definition SendCommandWithoutSequencePayload ::
    "(client_call, 'app) category \<Rightarrow> u16 \<Rightarrow> u8 \<Rightarrow> payload_writer \<Rightarrow> CanPriority
       \<Rightarrow> (bool \<Rightarrow> (client_call, 'app) program) \<Rightarrow> (client_call, 'app) program" where
  "SendCommandWithoutSequencePayload c targetNodeId messageType payload priority k =
     (if pw_valid payload
      then SendCommandWithoutSequence c targetNodeId messageType (pw_message payload) priority k
      else k False)"

section \<open>The system category of a client\<close>

definition HandleCommandAck :: "(client_call, 'app) handler" where
  "HandleCommandAck data app = Return True app"

definition HandleCategoryListResponse :: "(client_call, 'app) handler" where
  "HandleCategoryListResponse data app = Return True app"

definition CanSystemCategoryClient :: "(client_call, 'app) category option" where
  "CanSystemCategoryClient =
     AddMessageTypes
       [CanMessageHandler canCommandAckMessageTypeId HandleCommandAck,
        CanMessageHandler canCategoryListResponseMessageTypeId HandleCategoryListResponse]
       (CanCategoryClient systemHandle canSystemCategoryId)"

text \<open>The call that \<^verbatim>\<open>RequestCategoryList\<close> makes; the priority is the default argument.\<close>

definition RequestCategoryList ::
    "(client_call, 'app) category \<Rightarrow> u16 \<Rightarrow> (bool \<Rightarrow> (client_call, 'app) program)
       \<Rightarrow> (client_call, 'app) program" where
  "RequestCategoryList c nodeId k =
     SendCommandWithoutSequenceEmpty c nodeId canCategoryListRequestMessageTypeId command k"

end
