(* ===== verification/SequenceTable.thy ===== *)
theory SequenceTable
  imports CanPrelude
begin

text \<open>
  The sequence numbers of a client, the part of \<^verbatim>\<open>CanProtocolClient.cpp\<close> that implements the
  interface \<^verbatim>\<open>CanSequenceSource\<close>: a table of eight slots, one per server, each with the counter
  of the next number and the command that awaits its acknowledgement.

  A running acknowledgement timer is its deadline and the node that its callback captured.
\<close>

section \<open>State\<close>

record sequence_record =
  sr_nodeId :: u16
  sr_counter :: u8
  sr_occupied :: bool
  sr_awaitingAck :: bool
  sr_awaitingCategory :: u8
  sr_awaitingMessageType :: u8

record per_server_state =
  ss_record :: sequence_record
  ss_ackTimer :: "(time \<times> u16) option"

text \<open>The pointer to the reserved slot is its index.  The deadline of a stopped timer is \<open>None\<close>: it is
  stored but never used, as only the timer of a slot that awaits an acknowledgement is restarted.\<close>

record reservation =
  rs_state :: nat
  rs_sequence :: u8
  rs_previous :: sequence_record
  rs_previousAckDeadline :: "time option"
  rs_previousEvictIndex :: nat

record sequence_table =
  sq_states :: "per_server_state list"
  sq_evictIndex :: nat
  sq_lastReservation :: "reservation option"

definition maxServers :: nat where "maxServers = 8"

definition empty_record :: sequence_record where
  "empty_record = \<lparr>sr_nodeId = 0, sr_counter = 0, sr_occupied = False, sr_awaitingAck = False,
     sr_awaitingCategory = 0, sr_awaitingMessageType = 0\<rparr>"

definition initial_sequences :: sequence_table where
  "initial_sequences =
     \<lparr>sq_states = replicate maxServers \<lparr>ss_record = empty_record, ss_ackTimer = None\<rparr>,
      sq_evictIndex = 0, sq_lastReservation = None\<rparr>"

section \<open>Operations\<close>

definition serves :: "u16 \<Rightarrow> per_server_state \<Rightarrow> bool" where
  "serves nodeId st \<longleftrightarrow> sr_occupied (ss_record st) \<and> sr_nodeId (ss_record st) = nodeId"

definition ClaimSequenceSlot :: "u16 \<Rightarrow> sequence_table \<Rightarrow> nat \<times> sequence_table" where
  "ClaimSequenceSlot nodeId q =
     (case find_first (serves nodeId) (sq_states q) of
        Some i \<Rightarrow> (i, q)
      | None \<Rightarrow>
          (case find_first (\<lambda>st. \<not> sr_occupied (ss_record st)) (sq_states q) of
             Some i \<Rightarrow> (i, q)
           | None \<Rightarrow>
               (sq_evictIndex q,
                q\<lparr>sq_evictIndex := (sq_evictIndex q + 1) mod length (sq_states q)\<rparr>)))"

definition AwaitAck :: "time \<Rightarrow> per_server_state \<Rightarrow> per_server_state" where
  "AwaitAck deadline st = st\<lparr>ss_ackTimer := Some (deadline, sr_nodeId (ss_record st))\<rparr>"

text \<open>\<open>deadline\<close> is the time of the call plus \<^verbatim>\<open>commandAckTimeout\<close>.\<close>

definition ReserveSequence ::
    "time \<Rightarrow> u16 \<Rightarrow> u8 \<Rightarrow> u8 \<Rightarrow> sequence_table \<Rightarrow> u8 \<times> sequence_table" where
  "ReserveSequence deadline nodeId category messageType q =
     (case ClaimSequenceSlot nodeId q of
        (i, q1) \<Rightarrow>
          let state = sq_states q1 ! i;
            claimed =
              (if \<not> sr_occupied (ss_record state) \<or> sr_nodeId (ss_record state) \<noteq> nodeId
               then empty_record\<lparr>sr_nodeId := nodeId, sr_occupied := True\<rparr>
               else ss_record state);
            reserved = claimed\<lparr>sr_counter := sr_counter claimed + 1, sr_awaitingAck := True,
              sr_awaitingCategory := category, sr_awaitingMessageType := messageType\<rparr>
          in (sr_counter claimed,
              q1\<lparr>sq_states := (sq_states q1)
                  [i := AwaitAck deadline (state\<lparr>ss_record := reserved\<rparr>)],
                sq_lastReservation := Some
                  \<lparr>rs_state = i, rs_sequence = sr_counter claimed, rs_previous = ss_record state,
                   rs_previousAckDeadline = map_option fst (ss_ackTimer state),
                   rs_previousEvictIndex = sq_evictIndex q\<rparr>\<rparr>))"

text \<open>A failed assertion is \<open>None\<close>.\<close>

definition CancelReservation :: "u16 \<Rightarrow> u8 \<Rightarrow> sequence_table \<Rightarrow> sequence_table option" where
  "CancelReservation nodeId sequence q =
     (case sq_lastReservation q of
        None \<Rightarrow> None
      | Some r \<Rightarrow>
          let state = sq_states q ! rs_state r in
          if sr_nodeId (ss_record state) \<noteq> nodeId \<or> rs_sequence r \<noteq> sequence then None
          else
            let restored = state\<lparr>ss_record := rs_previous r\<rparr>;
              timed =
                (if sr_awaitingAck (ss_record restored)
                 then (case rs_previousAckDeadline r of
                         None \<Rightarrow> restored | Some deadline \<Rightarrow> AwaitAck deadline restored)
                 else restored\<lparr>ss_ackTimer := None\<rparr>)
            in Some (q\<lparr>sq_states := (sq_states q)[rs_state r := timed],
                       sq_evictIndex := rs_previousEvictIndex r,
                       sq_lastReservation := None\<rparr>))"

definition ReturnSequence :: "u16 \<Rightarrow> u8 \<Rightarrow> sequence_table \<Rightarrow> sequence_table" where
  "ReturnSequence nodeId sequence q =
     q\<lparr>sq_states := update_first
         (\<lambda>st. serves nodeId st \<and> sr_counter (ss_record st) = sequence + 1)
         (\<lambda>st. st\<lparr>ss_record := (ss_record st)\<lparr>sr_counter := sequence\<rparr>\<rparr>) (sq_states q)\<rparr>"

definition ResyncSequence :: "u16 \<Rightarrow> u8 \<Rightarrow> sequence_table \<Rightarrow> sequence_table" where
  "ResyncSequence nodeId expectedSequence q =
     q\<lparr>sq_states := update_first (serves nodeId)
         (\<lambda>st. st\<lparr>ss_record := (ss_record st)\<lparr>sr_counter := expectedSequence\<rparr>\<rparr>) (sq_states q)\<rparr>"

definition ClearAwaitingAck :: "u16 \<Rightarrow> u8 \<Rightarrow> u8 \<Rightarrow> sequence_table \<Rightarrow> sequence_table" where
  "ClearAwaitingAck nodeId category messageType q =
     q\<lparr>sq_states := update_first
         (\<lambda>st. serves nodeId st \<and> sr_awaitingAck (ss_record st) \<and>
            sr_awaitingCategory (ss_record st) = category \<and>
            sr_awaitingMessageType (ss_record st) = messageType)
         (\<lambda>st. st\<lparr>ss_record := (ss_record st)\<lparr>sr_awaitingAck := False\<rparr>, ss_ackTimer := None\<rparr>)
         (sq_states q)\<rparr>"

text \<open>The command that the observers are told about, if any.\<close>

definition HandleCommandAckTimeout ::
    "u16 \<Rightarrow> sequence_table \<Rightarrow> (u16 \<times> u8 \<times> u8) option \<times> sequence_table" where
  "HandleCommandAckTimeout nodeId q =
     (case find_first (\<lambda>st. serves nodeId st \<and> sr_awaitingAck (ss_record st)) (sq_states q) of
        None \<Rightarrow> (None, q)
      | Some i \<Rightarrow>
          let state = sq_states q ! i in
          (Some (nodeId, sr_awaitingCategory (ss_record state), sr_awaitingMessageType (ss_record state)),
           q\<lparr>sq_states := (sq_states q)
               [i := state\<lparr>ss_record := (ss_record state)\<lparr>sr_awaitingAck := False\<rparr>\<rparr>]\<rparr>))"

text \<open>The timer of slot \<open>i\<close> expires: it stops and runs its callback for the node it captured.\<close>

definition AckTimerExpired :: "nat \<Rightarrow> sequence_table \<Rightarrow> (u16 \<times> u8 \<times> u8) option \<times> sequence_table" where
  "AckTimerExpired i q =
     (case ss_ackTimer (sq_states q ! i) of
        None \<Rightarrow> (None, q)
      | Some (deadline, nodeId) \<Rightarrow>
          HandleCommandAckTimeout nodeId
            (q\<lparr>sq_states := (sq_states q)[i := (sq_states q ! i)\<lparr>ss_ackTimer := None\<rparr>]\<rparr>))"


section \<open>The invariant\<close>

text \<open>A slot awaits an acknowledgement exactly while its timer runs, for its own node.  No two slots
  serve the same node, also after the last reservation is cancelled.\<close>

definition slot_ok :: "per_server_state \<Rightarrow> bool" where
  "slot_ok st \<longleftrightarrow>
     (case ss_ackTimer st of
        None \<Rightarrow> \<not> sr_awaitingAck (ss_record st)
      | Some (deadline, nodeId) \<Rightarrow>
          sr_awaitingAck (ss_record st) \<and> sr_occupied (ss_record st) \<and> nodeId = sr_nodeId (ss_record st))"

definition node_of :: "sequence_record \<Rightarrow> u16 option" where
  "node_of r = (if sr_occupied r then Some (sr_nodeId r) else None)"

definition nodes :: "sequence_table \<Rightarrow> u16 option list" where
  "nodes q = map (\<lambda>st. node_of (ss_record st)) (sq_states q)"

definition nodes_distinct :: "u16 option list \<Rightarrow> bool" where
  "nodes_distinct ns \<longleftrightarrow>
     (\<forall>i j. i < length ns \<longrightarrow> j < length ns \<longrightarrow> ns ! i = ns ! j \<longrightarrow> ns ! i \<noteq> None \<longrightarrow> i = j)"

definition reservation_ok :: "reservation \<Rightarrow> u16 option list \<Rightarrow> bool" where
  "reservation_ok r ns \<longleftrightarrow>
     rs_state r < maxServers \<and> rs_previousEvictIndex r < maxServers \<and>
     (sr_awaitingAck (rs_previous r) \<longrightarrow>
        sr_occupied (rs_previous r) \<and> rs_previousAckDeadline r \<noteq> None) \<and>
     nodes_distinct (ns[rs_state r := node_of (rs_previous r)])"

definition seq_inv :: "sequence_table \<Rightarrow> bool" where
  "seq_inv q \<longleftrightarrow>
     length (nodes q) = maxServers \<and> sq_evictIndex q < maxServers \<and>
     list_all slot_ok (sq_states q) \<and> nodes_distinct (nodes q) \<and>
     (case sq_lastReservation q of None \<Rightarrow> True | Some r \<Rightarrow> reservation_ok r (nodes q))"

lemma serves_node_of: "serves n st \<longleftrightarrow> node_of (ss_record st) = Some n"
  by (simp add: serves_def node_of_def)

lemma nodes_length [simp]: "length (nodes q) = length (sq_states q)"
  by (simp add: nodes_def)

lemma nodes_nth: "i < length (sq_states q) \<Longrightarrow> nodes q ! i = node_of (ss_record (sq_states q ! i))"
  by (simp add: nodes_def)

lemma nodes_distinctD:
  "nodes_distinct ns \<Longrightarrow> i < length ns \<Longrightarrow> j < length ns \<Longrightarrow> ns ! i = Some n \<Longrightarrow> ns ! j = Some n \<Longrightarrow> i = j"
  unfolding nodes_distinct_def by simp

lemma slot_unique:
  assumes "seq_inv q" and "i < maxServers" and "j < maxServers"
    and "serves n (sq_states q ! i)" and "serves n (sq_states q ! j)"
  shows "i = j"
proof -
  have "nodes_distinct (nodes q)" "length (sq_states q) = maxServers"
    using assms(1) by (simp_all add: seq_inv_def)
  then show ?thesis
    using assms(2-5) nodes_distinctD [of "nodes q" i j n] by (simp add: nodes_nth serves_node_of)
qed

lemma list_all_update: "list_all P xs \<Longrightarrow> P x \<Longrightarrow> list_all P (xs[i := x])"
  using set_update_subset_insert [of xs i x] by (auto simp: list_all_iff)

lemma find_first_unique:
  assumes "i < length xs" and "P (xs ! i)" and "\<And>j. j < length xs \<Longrightarrow> P (xs ! j) \<Longrightarrow> j = i"
  shows "find_first P xs = Some i"
proof (cases "find_first P xs")
  case None
  then show ?thesis using assms(1,2) by (simp add: find_first_None)
next
  case (Some k)
  then show ?thesis using find_first_Some [OF Some] assms(3) by auto
qed

lemma initial_sequences_inv: "seq_inv initial_sequences"
  by (simp add: seq_inv_def initial_sequences_def nodes_def nodes_distinct_def node_of_def
      empty_record_def slot_ok_def maxServers_def list_all_iff)

text \<open>Operations that keep the nodes keep the invariant.\<close>

lemma seq_inv_states:
  assumes "seq_inv q" and "map (\<lambda>st. node_of (ss_record st)) sts = nodes q" and "list_all slot_ok sts"
  shows "seq_inv (q\<lparr>sq_states := sts\<rparr>)"
proof -
  have "nodes (q\<lparr>sq_states := sts\<rparr>) = nodes q" using assms(2) by (simp add: nodes_def)
  moreover from this have "length sts = length (sq_states q)" by (metis assms(2) length_map nodes_length)
  ultimately show ?thesis
    using assms(1,3) by (cases "sq_lastReservation q") (simp_all add: seq_inv_def)
qed

lemma slots_update_first:
  assumes "seq_inv q" and "\<And>st. P st \<Longrightarrow> slot_ok st \<Longrightarrow> slot_ok (f st)"
    and "\<And>st. node_of (ss_record (f st)) = node_of (ss_record st)"
  shows "seq_inv (q\<lparr>sq_states := update_first P f (sq_states q)\<rparr>)"
proof (rule seq_inv_states [OF assms(1)])
  show "map (\<lambda>st. node_of (ss_record st)) (update_first P f (sq_states q)) = nodes q"
    by (simp add: nodes_def map_update_first assms(3))
  have "list_all slot_ok (sq_states q)" using assms(1) by (simp add: seq_inv_def)
  then show "list_all slot_ok (update_first P f (sq_states q))"
    using set_update_first [of P f "sq_states q"] assms(2) by (fastforce simp: list_all_iff)
qed

lemma ReturnSequence_inv: "seq_inv q \<Longrightarrow> seq_inv (ReturnSequence nodeId sequence q)"
  unfolding ReturnSequence_def
  by (rule slots_update_first) (auto simp: slot_ok_def node_of_def split: option.splits)

lemma ResyncSequence_inv: "seq_inv q \<Longrightarrow> seq_inv (ResyncSequence nodeId sequence q)"
  unfolding ResyncSequence_def
  by (rule slots_update_first) (auto simp: slot_ok_def node_of_def split: option.splits)

lemma ClearAwaitingAck_inv: "seq_inv q \<Longrightarrow> seq_inv (ClearAwaitingAck nodeId category messageType q)"
  unfolding ClearAwaitingAck_def
  by (rule slots_update_first) (auto simp: slot_ok_def node_of_def)

text \<open>The timer that expires belongs to the slot that awaits.\<close>

lemma AckTimerExpired_eq:
  assumes inv: "seq_inv q" and i: "i < maxServers" and timer: "ss_ackTimer (sq_states q ! i) = Some (d, n)"
  shows "AckTimerExpired i q =
    (let st = sq_states q ! i in
     (Some (sr_nodeId (ss_record st), sr_awaitingCategory (ss_record st),
        sr_awaitingMessageType (ss_record st)),
      q\<lparr>sq_states := (sq_states q)
          [i := st\<lparr>ss_ackTimer := None, ss_record := (ss_record st)\<lparr>sr_awaitingAck := False\<rparr>\<rparr>]\<rparr>))"
proof -
  let ?st = "sq_states q ! i"
  let ?sts = "(sq_states q)[i := ?st\<lparr>ss_ackTimer := None\<rparr>]"
  let ?P = "\<lambda>st. serves n st \<and> sr_awaitingAck (ss_record st)"
  have len: "length (sq_states q) = maxServers" using inv by (simp add: seq_inv_def)
  then have "slot_ok ?st" using inv i by (simp add: seq_inv_def list_all_length)
  with timer have st: "n = sr_nodeId (ss_record ?st)" "sr_awaitingAck (ss_record ?st)"
    "sr_occupied (ss_record ?st)"
    by (simp_all add: slot_ok_def)
  have "find_first ?P ?sts = Some i"
  proof (rule find_first_unique)
    show "i < length ?sts" "?P (?sts ! i)" using i len st by (simp_all add: serves_def)
  next
    fix j assume j: "j < length ?sts" "?P (?sts ! j)"
    show "j = i"
    proof (rule ccontr)
      assume "j \<noteq> i"
      with j have "serves n (sq_states q ! j)" by simp
      moreover have "serves n ?st" using st by (simp add: serves_def)
      ultimately show False using slot_unique [OF inv _ i] j(1) len \<open>j \<noteq> i\<close> by simp
    qed
  qed
  then show ?thesis
    using timer st i len by (simp add: AckTimerExpired_def HandleCommandAckTimeout_def Let_def)
qed

lemma AckTimerExpired_inv:
  assumes "seq_inv q" and "i < maxServers" and "ss_ackTimer (sq_states q ! i) = Some (d, n)"
  shows "seq_inv (snd (AckTimerExpired i q))"
  unfolding AckTimerExpired_eq [OF assms] Let_def snd_conv
proof (rule seq_inv_states [OF assms(1)])
  have len: "length (sq_states q) = maxServers" using assms(1) by (simp add: seq_inv_def)
  let ?st = "(sq_states q ! i)\<lparr>ss_ackTimer := None,
    ss_record := (ss_record (sq_states q ! i))\<lparr>sr_awaitingAck := False\<rparr>\<rparr>"
  have "node_of (ss_record ?st) = nodes q ! i"
    using assms(2) len by (simp add: nodes_nth node_of_def)
  then show "map (\<lambda>st. node_of (ss_record st)) ((sq_states q)[i := ?st]) = nodes q"
    by (metis (no_types, lifting) list_update_id map_update nodes_def)
  have "list_all slot_ok (sq_states q)" using assms(1) by (simp add: seq_inv_def)
  then show "list_all slot_ok ((sq_states q)[i := ?st])"
    by (rule list_all_update) (simp add: slot_ok_def)
qed


section \<open>Reservations\<close>

lemma nodes_distinct_update:
  assumes "nodes_distinct ns" and "\<And>j n. j < length ns \<Longrightarrow> j \<noteq> i \<Longrightarrow> v = Some n \<Longrightarrow> ns ! j \<noteq> Some n"
  shows "nodes_distinct (ns[i := v])"
  unfolding nodes_distinct_def
proof (intro allI impI)
  fix a b
  assume ab: "a < length (ns[i := v])" "b < length (ns[i := v])" "ns[i := v] ! a = ns[i := v] ! b"
    and "ns[i := v] ! a \<noteq> None"
  then obtain n where n: "ns[i := v] ! a = Some n" "ns[i := v] ! b = Some n" by auto
  have other: False if "c < length ns" "c \<noteq> i" "ns ! c = Some n" "v = Some n" for c
    using assms(2) [OF that(1,2,4)] that(3) by simp
  show "a = b"
  proof (cases "a = i \<or> b = i")
    case True
    then show ?thesis using ab(1,2) n other [of a] other [of b] by (cases "a = i"; cases "b = i") auto
  next
    case False
    then show ?thesis using ab(1,2) n nodes_distinctD [OF assms(1)] by simp
  qed
qed

lemma ClaimSequenceSlot_claims:
  assumes inv: "seq_inv q" and claim: "ClaimSequenceSlot n q = (i, q1)"
  shows "i < maxServers" and "sq_states q1 = sq_states q" and "sq_evictIndex q1 < maxServers"
    and "sq_lastReservation q1 = sq_lastReservation q"
    and "\<And>j. j < maxServers \<Longrightarrow> j \<noteq> i \<Longrightarrow> \<not> serves n (sq_states q ! j)"
proof -
  have len: "length (sq_states q) = maxServers" and ev: "sq_evictIndex q < maxServers"
    using inv by (simp_all add: seq_inv_def)
  have none: "\<not> serves n (sq_states q ! j)" if "find_first (serves n) (sq_states q) = None" "j < maxServers" for j
    using that len by (simp add: find_first_None)
  show "i < maxServers"
    using claim ev len by (auto simp: ClaimSequenceSlot_def split: option.splits dest: find_first_Some)
  show "sq_states q1 = sq_states q" "sq_lastReservation q1 = sq_lastReservation q"
    using claim by (auto simp: ClaimSequenceSlot_def split: option.splits)
  show "sq_evictIndex q1 < maxServers"
    using claim ev len by (auto simp: ClaimSequenceSlot_def split: option.splits)
  fix j assume j: "j < maxServers" "j \<noteq> i"
  show "\<not> serves n (sq_states q ! j)"
  proof (cases "find_first (serves n) (sq_states q)")
    case None
    then show ?thesis using none j by blast
  next
    case (Some k)
    then have "k = i" using claim by (simp add: ClaimSequenceSlot_def)
    then have "serves n (sq_states q ! i)" "i < maxServers"
      using find_first_Some [OF Some] len by auto
    then show ?thesis using slot_unique [OF inv j(1)] j by blast
  qed
qed

text \<open>The next number for a node: the counter of its slot, zero for a node without one.\<close>

definition next_sequence :: "u16 \<Rightarrow> sequence_table \<Rightarrow> u8" where
  "next_sequence n q =
     (case find_first (serves n) (sq_states q) of
        None \<Rightarrow> 0 | Some i \<Rightarrow> sr_counter (ss_record (sq_states q ! i)))"

lemma next_sequence_slot:
  assumes "seq_inv q" and "i < maxServers" and "serves n (sq_states q ! i)"
  shows "next_sequence n q = sr_counter (ss_record (sq_states q ! i))"
proof -
  have len: "length (sq_states q) = maxServers" using assms(1) by (simp add: seq_inv_def)
  have "find_first (serves n) (sq_states q) = Some i"
    by (rule find_first_unique) (use assms len slot_unique [OF assms(1)] in auto)
  then show ?thesis by (simp add: next_sequence_def)
qed

lemma next_sequence_none:
  assumes "seq_inv q" and "\<And>j. j < maxServers \<Longrightarrow> \<not> serves n (sq_states q ! j)"
  shows "next_sequence n q = 0"
proof -
  have "length (sq_states q) = maxServers" using assms(1) by (simp add: seq_inv_def)
  then have "find_first (serves n) (sq_states q) = None"
    using assms(2) unfolding find_first_None by (metis in_set_conv_nth)
  then show ?thesis by (simp add: next_sequence_def)
qed

text \<open>What a reservation does, slot by slot.\<close>

definition reserved_record :: "u16 \<Rightarrow> u8 \<Rightarrow> u8 \<Rightarrow> u8 \<Rightarrow> sequence_record" where
  "reserved_record n c m count = \<lparr>sr_nodeId = n, sr_counter = count + 1, sr_occupied = True,
     sr_awaitingAck = True, sr_awaitingCategory = c, sr_awaitingMessageType = m\<rparr>"

lemma slot_update:
  "sr_occupied r \<Longrightarrow> sr_nodeId r = n \<Longrightarrow>
    st\<lparr>ss_record := r\<lparr>sr_counter := k + 1, sr_awaitingAck := True, sr_awaitingCategory := c,
        sr_awaitingMessageType := m\<rparr>, ss_ackTimer := t\<rparr>
      = \<lparr>ss_record = reserved_record n c m k, ss_ackTimer = t\<rparr>"
  by (cases st; cases r) (simp add: reserved_record_def)

lemma ReserveSequence_slot:
  assumes inv: "seq_inv q" and claim: "ClaimSequenceSlot n q = (i, q1)"
  shows "ReserveSequence d n c m q =
    (next_sequence n q,
     q1\<lparr>sq_states := (sq_states q)
          [i := \<lparr>ss_record = reserved_record n c m (next_sequence n q),
                 ss_ackTimer = Some (d, n)\<rparr>],
       sq_lastReservation := Some
         \<lparr>rs_state = i, rs_sequence = next_sequence n q, rs_previous = ss_record (sq_states q ! i),
          rs_previousAckDeadline = map_option fst (ss_ackTimer (sq_states q ! i)),
          rs_previousEvictIndex = sq_evictIndex q\<rparr>\<rparr>)"
proof (cases "serves n (sq_states q ! i)")
  case True
  then show ?thesis
    using next_sequence_slot [OF inv ClaimSequenceSlot_claims(1) [OF assms] True]
      ClaimSequenceSlot_claims(2) [OF assms] claim
    by (simp add: ReserveSequence_def Let_def AwaitAck_def slot_update serves_def)
next
  case False
  then have "\<not> serves n (sq_states q ! j)" if "j < maxServers" for j
    using ClaimSequenceSlot_claims(5) [OF assms that] by blast
  then have "next_sequence n q = 0" by (rule next_sequence_none [OF inv])
  then show ?thesis
    using False ClaimSequenceSlot_claims(2) [OF assms] claim
    by (auto simp: ReserveSequence_def Let_def AwaitAck_def slot_update serves_def empty_record_def)
qed


lemma nodes_update:
  "nodes (q\<lparr>sq_states := (sq_states q)[i := st]\<rparr>) = (nodes q)[i := node_of (ss_record st)]"
  by (simp add: nodes_def map_update)

lemma ReserveSequence_inv:
  assumes inv: "seq_inv q"
  shows "seq_inv (snd (ReserveSequence d n c m q))"
proof -
  obtain i q1 where claim: "ClaimSequenceSlot n q = (i, q1)" by (rule prod.exhaust)
  note cl = ClaimSequenceSlot_claims [OF inv claim]
  have len: "length (sq_states q) = maxServers" and slots: "list_all slot_ok (sq_states q)"
    and dist: "nodes_distinct (nodes q)" and ev: "sq_evictIndex q < maxServers"
    using inv by (simp_all add: seq_inv_def)
  let ?q = "snd (ReserveSequence d n c m q)" and ?st = "sq_states q ! i"
  have nodes: "nodes ?q = (nodes q)[i := Some n]"
    by (simp add: ReserveSequence_slot [OF inv claim] nodes_def map_update reserved_record_def node_of_def)
  have dist': "nodes_distinct ((nodes q)[i := Some n])"
  proof (rule nodes_distinct_update [OF dist])
    fix j k assume "j < length (nodes q)" "j \<noteq> i" "Some n = Some k"
    then show "nodes q ! j \<noteq> Some k" using cl(5) [of j] len by (auto simp: nodes_nth serves_node_of)
  qed
  have ok: "slot_ok ?st" using slots cl(1) len by (simp add: list_all_length)
  have "(nodes q)[i := node_of (ss_record ?st)] = nodes q"
    using cl(1) len by (metis list_update_id nodes_nth)
  then have "reservation_ok \<lparr>rs_state = i, rs_sequence = next_sequence n q, rs_previous = ss_record ?st,
      rs_previousAckDeadline = map_option fst (ss_ackTimer ?st),
      rs_previousEvictIndex = sq_evictIndex q\<rparr> (nodes ?q)"
    using ok cl(1) ev dist by (auto simp: reservation_ok_def slot_ok_def nodes split: option.splits)
  moreover have "list_all slot_ok (sq_states ?q)"
    by (simp add: ReserveSequence_slot [OF inv claim])
      (rule list_all_update [OF slots], simp add: slot_ok_def reserved_record_def)
  ultimately show ?thesis
    using dist' nodes len cl(3) by (simp add: seq_inv_def ReserveSequence_slot [OF inv claim])
qed

lemma CancelReservation_inv:
  assumes inv: "seq_inv q" and cancel: "CancelReservation n k q = Some q'"
  shows "seq_inv q'"
proof -
  obtain r where r: "sq_lastReservation q = Some r"
    using cancel by (auto simp: CancelReservation_def split: option.splits)
  with inv have ok: "reservation_ok r (nodes q)" and len: "length (sq_states q) = maxServers"
    and slots: "list_all slot_ok (sq_states q)"
    by (simp_all add: seq_inv_def)
  obtain st where st: "q' = q\<lparr>sq_states := (sq_states q)[rs_state r := st],
      sq_evictIndex := rs_previousEvictIndex r, sq_lastReservation := None\<rparr>"
    "ss_record st = rs_previous r" "slot_ok st"
  proof (cases "sr_awaitingAck (rs_previous r)")
    case True
    then obtain d where "rs_previousAckDeadline r = Some d" "sr_occupied (rs_previous r)"
      using ok by (auto simp: reservation_ok_def)
    with True show ?thesis
      using cancel r by (intro that) (auto simp: CancelReservation_def Let_def AwaitAck_def slot_ok_def
          split: if_splits)
  next
    case False
    then show ?thesis
      using cancel r by (intro that) (auto simp: CancelReservation_def Let_def slot_ok_def split: if_splits)
  qed
  then have "nodes q' = (nodes q)[rs_state r := node_of (rs_previous r)]"
    by (simp add: nodes_def map_update)
  then show ?thesis
    using ok len list_all_update [OF slots st(3)] by (simp add: seq_inv_def st(1) reservation_ok_def)
qed

text \<open>A reservation that is cancelled at once never happened.\<close>

lemma CancelReservation_undoes:
  assumes inv: "seq_inv q" and reserve: "ReserveSequence d n c m q = (k, q')"
  shows "CancelReservation n k q' = Some (q\<lparr>sq_lastReservation := None\<rparr>)"
proof -
  obtain i q1 where claim: "ClaimSequenceSlot n q = (i, q1)" by (rule prod.exhaust)
  note cl = ClaimSequenceSlot_claims [OF inv claim]
  have len: "length (sq_states q) = maxServers" and "list_all slot_ok (sq_states q)"
    using inv by (simp_all add: seq_inv_def)
  then have "slot_ok (sq_states q ! i)" using cl(1) by (simp add: list_all_length)
  moreover obtain r t where st: "sq_states q ! i = \<lparr>ss_record = r, ss_ackTimer = t\<rparr>"
    by (cases "sq_states q ! i") auto
  moreover have "(sq_states q)[i := \<lparr>ss_record = r, ss_ackTimer = t\<rparr>] = sq_states q"
    using st by (metis list_update_id)
  moreover have "sq_states q1 = sq_states q" using cl(2) .
  ultimately show ?thesis
    using reserve cl(1) len unfolding ReserveSequence_slot [OF inv claim]
    by (cases t; cases q; cases q1)
      (auto simp: CancelReservation_def Let_def AwaitAck_def slot_ok_def reserved_record_def)
qed


section \<open>The interface of a sequence source\<close>

text \<open>
  What \<^verbatim>\<open>CanCategoryClient::SendCommand\<close> relies on: a reservation yields the next number of its
  node and advances that node only; cancelling it at once takes it back.
\<close>

locale sequence_source =
  fixes reserve :: "'n \<Rightarrow> 'r \<Rightarrow> 's \<Rightarrow> u8 \<times> 's"
    and cancel :: "'n \<Rightarrow> u8 \<Rightarrow> 's \<Rightarrow> 's option"
    and upcoming :: "'n \<Rightarrow> 's \<Rightarrow> u8"
    and known :: "'n \<Rightarrow> bool"
    and inv :: "'s \<Rightarrow> bool"
  assumes reserve_inv: "inv s \<Longrightarrow> known n \<Longrightarrow> inv (snd (reserve n r s))"
    and reserve_number: "inv s \<Longrightarrow> known n \<Longrightarrow> fst (reserve n r s) = upcoming n s"
    and reserve_upcoming: "inv s \<Longrightarrow> known n \<Longrightarrow> known m \<Longrightarrow>
      upcoming m (snd (reserve n r s)) = (if m = n then upcoming m s + 1 else upcoming m s)"
    and cancel_undoes: "inv s \<Longrightarrow> known n \<Longrightarrow>
      \<exists>s'. cancel n (fst (reserve n r s)) (snd (reserve n r s)) = Some s' \<and> inv s' \<and>
        (\<forall>m. upcoming m s' = upcoming m s)"

text \<open>A client that sends commands: each reserves a number and, when the transport refuses the frame,
  cancels the reservation.  The result is the numbers that were used, with their nodes.\<close>

fun attempts ::
    "('n \<Rightarrow> 'r \<Rightarrow> 's \<Rightarrow> u8 \<times> 's) \<Rightarrow> ('n \<Rightarrow> u8 \<Rightarrow> 's \<Rightarrow> 's option) \<Rightarrow> ('n \<times> 'r \<times> bool) list \<Rightarrow> 's
       \<Rightarrow> ('n \<times> u8) list \<times> 's" where
  "attempts reserve cancel [] s = ([], s)"
| "attempts reserve cancel ((n, r, accepted) # as) s =
     (case reserve n r s of
        (k, s1) \<Rightarrow>
          if accepted then (case attempts reserve cancel as s1 of (ks, s2) \<Rightarrow> ((n, k) # ks, s2))
          else (case cancel n k s1 of None \<Rightarrow> ([], s1) | Some s2 \<Rightarrow> attempts reserve cancel as s2))"

context sequence_source
begin

lemma attempts_consecutive:
  assumes "inv s" and "list_all (\<lambda>a. known (fst a)) as" and "known m"
  shows "map snd (filter (\<lambda>p. fst p = m) (fst (attempts reserve cancel as s))) =
    map (\<lambda>k. upcoming m s + of_nat k) [0..<length (filter (\<lambda>a. fst a = m \<and> snd (snd a)) as)]"
  using assms(1,2)
proof (induction as arbitrary: s)
  case Nil
  then show ?case by simp
next
  case (Cons a as)
  obtain n r accepted where a: "a = (n, r, accepted)" by (cases a) auto
  have n: "known n" and rest: "list_all (\<lambda>a. known (fst a)) as" using Cons.prems(2) a by auto
  let ?s = "snd (reserve n r s)"
  have split: "reserve n r s = (upcoming n s, ?s)"
    using reserve_number [OF Cons.prems(1) n] by (metis prod.collapse)
  show ?case
  proof (cases accepted)
    case True
    have IH: "map snd (filter (\<lambda>p. fst p = m) (fst (attempts reserve cancel as ?s))) =
        map (\<lambda>k. upcoming m ?s + of_nat k) [0..<length (filter (\<lambda>a. fst a = m \<and> snd (snd a)) as)]"
      by (rule Cons.IH [OF reserve_inv [OF Cons.prems(1) n] rest])
    have upc: "upcoming m ?s = (if m = n then upcoming m s + 1 else upcoming m s)"
      by (rule reserve_upcoming [OF Cons.prems(1) n assms(3)])
    have fst: "fst (attempts reserve cancel (a # as) s) = (n, upcoming n s) # fst (attempts reserve cancel as ?s)"
      unfolding a by (subst attempts.simps, subst split) (simp add: True case_prod_beta)
    show ?thesis
    proof (cases "n = m")
      case True
      then show ?thesis
        using IH \<open>accepted\<close> upc unfolding fst
        by (simp add: a upt_conv_Cons map_Suc_upt [symmetric] comp_def ac_simps del: upt_Suc)
    next
      case False
      then show ?thesis using IH unfolding fst by (simp add: a upc)
    qed
  next
    case False
    obtain s' where s': "cancel n (upcoming n s) ?s = Some s'" "inv s'" "\<forall>m. upcoming m s' = upcoming m s"
      using cancel_undoes [OF Cons.prems(1) n, of r] reserve_number [OF Cons.prems(1) n, of r] by auto
    have "fst (attempts reserve cancel (a # as) s) = fst (attempts reserve cancel as s')"
      unfolding a by (subst attempts.simps, subst split) (simp add: False s')
    then show ?thesis using Cons.IH [OF s'(2) rest] False s'(3) by (simp add: a)
  qed
qed

end


section \<open>The table as a sequence source\<close>

text \<open>A client that talks to the servers in \<open>N\<close> only, at most as many as there are slots.\<close>

definition seq_within :: "u16 set \<Rightarrow> sequence_table \<Rightarrow> bool" where
  "seq_within N q \<longleftrightarrow> seq_inv q \<and> (\<forall>n. Some n \<in> set (nodes q) \<longrightarrow> n \<in> N)"

lemma free_slot:
  assumes "seq_within N q" and "finite N" and "card N \<le> maxServers" and "n \<in> N"
    and "find_first (serves n) (sq_states q) = None"
  shows "find_first (\<lambda>st. \<not> sr_occupied (ss_record st)) (sq_states q) \<noteq> None"
proof
  assume "find_first (\<lambda>st. \<not> sr_occupied (ss_record st)) (sq_states q) = None"
  then have full: "\<forall>v \<in> set (nodes q). v \<noteq> None"
    by (auto simp: find_first_None nodes_def node_of_def)
  have len: "length (nodes q) = maxServers" and dist: "nodes_distinct (nodes q)"
    using assms(1) by (simp_all add: seq_within_def seq_inv_def)
  have "distinct (nodes q)"
    unfolding distinct_conv_nth using dist full by (auto simp: nodes_distinct_def all_set_conv_all_nth)
  moreover have "set (nodes q) \<subseteq> Some ` (N - {n})"
  proof
    fix v assume v: "v \<in> set (nodes q)"
    then obtain k where k: "v = Some k" using full by auto
    have "k \<noteq> n" using v assms(5) by (auto simp: k find_first_None nodes_def serves_node_of)
    then show "v \<in> Some ` (N - {n})" using v assms(1) k by (auto simp: seq_within_def)
  qed
  ultimately have "maxServers \<le> card (N - {n})"
    using len distinct_card [of "nodes q"] card_mono [of "Some ` (N - {n})" "set (nodes q)"] assms(2)
    by (metis card_image finite_Diff finite_imageI inj_Some)
  then show False using assms(2-4) by (simp add: maxServers_def)
qed

lemma next_sequence_cong:
  assumes "sq_states q' = (sq_states q)[i := st']"
    and "\<not> serves m (sq_states q ! i)" and "\<not> serves m st'"
  shows "next_sequence m q' = next_sequence m q"
proof -
  have "(case find_first (serves m) (xs[i := st']) of None \<Rightarrow> 0
        | Some j \<Rightarrow> sr_counter (ss_record (xs[i := st'] ! j))) =
      (case find_first (serves m) xs of None \<Rightarrow> 0 | Some j \<Rightarrow> sr_counter (ss_record (xs ! j)))"
    if "i < length xs \<Longrightarrow> \<not> serves m (xs ! i)" for xs
    using that
  proof (induction xs arbitrary: i)
    case Nil
    then show ?case by simp
  next
    case (Cons x xs)
    show ?case
    proof (cases i)
      case 0
      then show ?thesis using Cons.prems assms(3) by (auto split: option.splits)
    next
      case (Suc k)
      then show ?thesis using Cons.IH [of k] Cons.prems by (auto split: option.splits)
    qed
  qed
  from this [of "sq_states q"] assms(2) show ?thesis unfolding next_sequence_def assms(1) by blast
qed

lemma ReserveSequence_next:
  assumes within: "seq_within N q" "finite N" "card N \<le> maxServers" "n \<in> N"
  shows "next_sequence m (snd (ReserveSequence d n c t q)) =
    (if m = n then next_sequence m q + 1 else next_sequence m q)"
proof -
  have inv: "seq_inv q" using within(1) by (simp add: seq_within_def)
  obtain i q1 where claim: "ClaimSequenceSlot n q = (i, q1)" by (rule prod.exhaust)
  note cl = ClaimSequenceSlot_claims [OF inv claim] and r = ReserveSequence_slot [OF inv claim]
  let ?q = "snd (ReserveSequence d n c t q)"
  have len: "length (sq_states q) = maxServers" using inv by (simp add: seq_inv_def)
  have st: "sq_states ?q = (sq_states q)[i := \<lparr>ss_record = reserved_record n c t (next_sequence n q),
      ss_ackTimer = Some (d, n)\<rparr>]"
    by (simp add: r)
  show ?thesis
  proof (cases "m = n")
    case True
    have "serves n (sq_states ?q ! i)" using cl(1) len by (simp add: st serves_def reserved_record_def)
    from next_sequence_slot [OF ReserveSequence_inv [OF inv] cl(1) this] show ?thesis
      using True cl(1) len by (simp add: st reserved_record_def)
  next
    case False
    have "\<not> serves m (sq_states q ! i)"
    proof (cases "find_first (serves n) (sq_states q)")
      case None
      then obtain k where "find_first (\<lambda>st. \<not> sr_occupied (ss_record st)) (sq_states q) = Some k"
        using free_slot [OF within] by blast
      then show ?thesis
        using claim None find_first_Some by (fastforce simp: ClaimSequenceSlot_def serves_def)
    next
      case (Some k)
      then show ?thesis
        using claim False find_first_Some [OF Some] by (auto simp: ClaimSequenceSlot_def serves_def)
    qed
    then show ?thesis
      using False next_sequence_cong [OF st] by (simp add: serves_def reserved_record_def)
  qed
qed


lemma seq_within_reserve:
  assumes "seq_within N q" and "n \<in> N"
  shows "seq_within N (snd (ReserveSequence d n c t q))"
proof -
  have inv: "seq_inv q" using assms(1) by (simp add: seq_within_def)
  obtain i q1 where claim: "ClaimSequenceSlot n q = (i, q1)" by (rule prod.exhaust)
  have "nodes (snd (ReserveSequence d n c t q)) = (nodes q)[i := Some n]"
    by (simp add: ReserveSequence_slot [OF inv claim] nodes_def map_update reserved_record_def node_of_def)
  then have "set (nodes (snd (ReserveSequence d n c t q))) \<subseteq> insert (Some n) (set (nodes q))"
    using set_update_subset_insert [of "nodes q" i "Some n"] by simp
  then show ?thesis using assms ReserveSequence_inv [OF inv] unfolding seq_within_def by blast
qed

text \<open>A request is the category, the message type and the deadline of its acknowledgement.\<close>

definition reserve_request :: "u16 \<Rightarrow> u8 \<times> u8 \<times> time \<Rightarrow> sequence_table \<Rightarrow> u8 \<times> sequence_table" where
  "reserve_request n r q = (case r of (category, messageType, deadline) \<Rightarrow>
     ReserveSequence deadline n category messageType q)"

interpretation sequences: sequence_source reserve_request CancelReservation next_sequence
  "\<lambda>n. n \<in> N \<and> finite N \<and> card N \<le> maxServers" "seq_within N" for N
proof unfold_locales
  fix s n m and r :: "u8 \<times> u8 \<times> time"
  assume within: "seq_within N s" and n: "n \<in> N \<and> finite N \<and> card N \<le> maxServers"
  obtain c t d where r: "r = (c, t, d)" by (cases r)
  show "seq_within N (snd (reserve_request n r s))"
    using seq_within_reserve [OF within] n by (simp add: r reserve_request_def)
  have inv: "seq_inv s" using within by (simp add: seq_within_def)
  obtain i q1 where claim: "ClaimSequenceSlot n s = (i, q1)" by (rule prod.exhaust)
  show number: "fst (reserve_request n r s) = next_sequence n s"
    by (simp add: r reserve_request_def ReserveSequence_slot [OF inv claim])
  show "next_sequence m (snd (reserve_request n r s)) =
      (if m = n then next_sequence m s + 1 else next_sequence m s)"
    using ReserveSequence_next [OF within] n by (simp add: r reserve_request_def)
  have "CancelReservation n (fst (reserve_request n r s)) (snd (reserve_request n r s)) =
      Some (s\<lparr>sq_lastReservation := None\<rparr>)"
    using CancelReservation_undoes [OF inv surjective_pairing] by (simp add: r reserve_request_def)
  moreover have "seq_within N (s\<lparr>sq_lastReservation := None\<rparr>)"
    using within by (simp add: seq_within_def seq_inv_def nodes_def)
  moreover have "next_sequence k (s\<lparr>sq_lastReservation := None\<rparr>) = next_sequence k s" for k
    by (simp add: next_sequence_def cong: option.case_cong)
  ultimately show "\<exists>s'. CancelReservation n (fst (reserve_request n r s)) (snd (reserve_request n r s)) = Some s' \<and>
      seq_within N s' \<and> (\<forall>m. next_sequence m s' = next_sequence m s)"
    by blast
qed

section \<open>Properties\<close>



end
