(* ===== verification/ServerPresence.thy ===== *)
theory ServerPresence
  imports SequenceTable
begin

text \<open>
  The servers that a client holds for alive, the part of \<^verbatim>\<open>CanProtocolClient.cpp\<close> behind the
  observer's \<^verbatim>\<open>OnServerOnline\<close> and \<^verbatim>\<open>OnServerOffline\<close>: a table of eight entries with a timeout each,
  where the ninth server evicts one in turn.

  A running timer is its deadline and the node that its callback captured.  The operations return
  the notifications they give, in order.
\<close>

section \<open>State\<close>

record server_liveness =
  sl_nodeId :: u16
  sl_occupied :: bool
  sl_timer :: "(time \<times> u16) option"

record presence_table =
  pt_entries :: "server_liveness list"
  pt_evictIndex :: nat

datatype presence_event = ServerOnline u16 | ServerOffline u16

definition initial_presence :: presence_table where
  "initial_presence =
     \<lparr>pt_entries = replicate maxServers \<lparr>sl_nodeId = 0, sl_occupied = False, sl_timer = None\<rparr>,
      pt_evictIndex = 0\<rparr>"

section \<open>Operations\<close>

definition alive :: "u16 \<Rightarrow> server_liveness \<Rightarrow> bool" where
  "alive nodeId e \<longleftrightarrow> sl_occupied e \<and> sl_nodeId e = nodeId"

definition set_entry :: "nat \<Rightarrow> server_liveness \<Rightarrow> presence_table \<Rightarrow> presence_table" where
  "set_entry i e p = p\<lparr>pt_entries := (pt_entries p)[i := e]\<rparr>"

text \<open>\<open>deadline\<close> is the time of the call plus \<^verbatim>\<open>serverTimeout\<close>.\<close>

definition MarkServerAlive ::
    "time \<Rightarrow> u16 \<Rightarrow> presence_table \<Rightarrow> presence_table \<times> presence_event list" where
  "MarkServerAlive deadline nodeId p =
     (case find_first (alive nodeId) (pt_entries p) of
        Some i \<Rightarrow>
          (set_entry i ((pt_entries p ! i)\<lparr>sl_timer := Some (deadline, nodeId)\<rparr>) p, [])
      | None \<Rightarrow>
          (case find_first (\<lambda>e. \<not> sl_occupied e) (pt_entries p) of
             Some i \<Rightarrow>
               (set_entry i ((pt_entries p ! i)\<lparr>sl_occupied := True, sl_nodeId := nodeId,
                  sl_timer := Some (deadline, nodeId)\<rparr>) p,
                [ServerOnline nodeId])
           | None \<Rightarrow>
               let i = pt_evictIndex p; evicted = pt_entries p ! i in
               (set_entry i (evicted\<lparr>sl_nodeId := nodeId, sl_timer := Some (deadline, nodeId)\<rparr>)
                  (p\<lparr>pt_evictIndex := (pt_evictIndex p + 1) mod length (pt_entries p)\<rparr>),
                [ServerOffline (sl_nodeId evicted), ServerOnline nodeId])))"

definition HandleServerTimeout ::
    "u16 \<Rightarrow> presence_table \<Rightarrow> presence_table \<times> presence_event list" where
  "HandleServerTimeout nodeId p =
     (case find_first (alive nodeId) (pt_entries p) of
        None \<Rightarrow> (p, [])
      | Some i \<Rightarrow>
          (set_entry i ((pt_entries p ! i)\<lparr>sl_occupied := False\<rparr>) p, [ServerOffline nodeId]))"

text \<open>The timer of entry \<open>i\<close> expires.\<close>

definition LivenessTimerExpired :: "nat \<Rightarrow> presence_table \<Rightarrow> presence_table \<times> presence_event list" where
  "LivenessTimerExpired i p =
     (case sl_timer (pt_entries p ! i) of
        None \<Rightarrow> (p, [])
      | Some (deadline, nodeId) \<Rightarrow>
          HandleServerTimeout nodeId (set_entry i ((pt_entries p ! i)\<lparr>sl_timer := None\<rparr>) p))"

section \<open>The abstract view: a set of servers\<close>

text \<open>
  What the observers are promised: each is told of a server's presence and absence in alternation,
  so that the events determine the set of servers that are present.  An event out of turn is
  \<open>None\<close>.
\<close>

fun observe :: "u16 set option \<Rightarrow> presence_event \<Rightarrow> u16 set option" where
  "observe None e = None"
| "observe (Some S) (ServerOnline n) = (if n \<in> S then None else Some (insert n S))"
| "observe (Some S) (ServerOffline n) = (if n \<in> S then Some (S - {n}) else None)"

definition observed :: "u16 set \<Rightarrow> presence_event list \<Rightarrow> u16 set option" where
  "observed S es = foldl observe (Some S) es"

text \<open>The abstraction of the table, and its invariant: a timer runs exactly for a server that is
  present, and every server has one entry.\<close>

definition present :: "presence_table \<Rightarrow> u16 set" where
  "present p = {n. \<exists>e \<in> set (pt_entries p). alive n e}"

definition entry_ok :: "server_liveness \<Rightarrow> bool" where
  "entry_ok e \<longleftrightarrow> (case sl_timer e of
     None \<Rightarrow> \<not> sl_occupied e | Some (deadline, nodeId) \<Rightarrow> sl_occupied e \<and> nodeId = sl_nodeId e)"

definition presence_inv :: "presence_table \<Rightarrow> bool" where
  "presence_inv p \<longleftrightarrow>
     length (pt_entries p) = maxServers \<and> pt_evictIndex p < maxServers \<and>
     list_all entry_ok (pt_entries p) \<and>
     (\<forall>i j n. i < maxServers \<longrightarrow> j < maxServers \<longrightarrow>
        alive n (pt_entries p ! i) \<longrightarrow> alive n (pt_entries p ! j) \<longrightarrow> i = j)"

lemma initial_presence_inv: "presence_inv initial_presence"
  by (simp add: presence_inv_def initial_presence_def alive_def entry_ok_def list_all_iff maxServers_def)

lemma initial_presence_empty: "present initial_presence = {}"
  by (simp add: present_def initial_presence_def alive_def)

lemma entry_unique:
  "presence_inv p \<Longrightarrow> i < maxServers \<Longrightarrow> j < maxServers \<Longrightarrow>
    alive n (pt_entries p ! i) \<Longrightarrow> alive n (pt_entries p ! j) \<Longrightarrow> i = j"
  unfolding presence_inv_def by blast

lemma set_entry_inv:
  assumes inv: "presence_inv p" and ok: "entry_ok e"
    and new: "\<And>j. j < maxServers \<Longrightarrow> j \<noteq> i \<Longrightarrow> sl_occupied e \<Longrightarrow> \<not> alive (sl_nodeId e) (pt_entries p ! j)"
  shows "presence_inv (set_entry i e p)"
proof -
  have len: "length (pt_entries p) = maxServers" and entries: "list_all entry_ok (pt_entries p)"
    using inv by (simp_all add: presence_inv_def)
  have "a = b" if "a < maxServers" "b < maxServers"
    "alive n ((pt_entries p)[i := e] ! a)" "alive n ((pt_entries p)[i := e] ! b)" for a b n
    using that new entry_unique [OF inv that(1,2)] len
    by (cases "a = i"; cases "b = i") (auto simp: alive_def)
  then show ?thesis
    using inv list_all_update [OF entries ok] by (simp add: presence_inv_def set_entry_def)
qed

lemma present_set_entry:
  assumes inv: "presence_inv p" and i: "i < maxServers"
  shows "present (set_entry i e p) =
    (present p - {n. alive n (pt_entries p ! i)}) \<union> {n. alive n e}"
proof -
  have len: "length (pt_entries p) = maxServers" using inv by (simp add: presence_inv_def)
  have eq: "n \<in> present q \<longleftrightarrow> (\<exists>j < maxServers. alive n (pt_entries q ! j))"
    if "length (pt_entries q) = maxServers" for n q
    unfolding present_def Bex_def in_set_conv_nth using that by auto
  have "n \<in> present (set_entry i e p) \<longleftrightarrow>
      alive n e \<or> (\<exists>j < maxServers. j \<noteq> i \<and> alive n (pt_entries p ! j))" for n
    using i len by (subst eq) (auto simp: set_entry_def nth_list_update)
  moreover have "(\<exists>j < maxServers. j \<noteq> i \<and> alive n (pt_entries p ! j)) \<longleftrightarrow>
      n \<in> present p \<and> \<not> alive n (pt_entries p ! i)" for n
    using entry_unique [OF inv] i unfolding eq [OF len] by metis
  ultimately show ?thesis by auto
qed


text \<open>A table operation that keeps the invariant and reports exactly the change of the view.\<close>

definition refines_view :: "presence_table \<Rightarrow> presence_table \<times> presence_event list \<Rightarrow> bool" where
  "refines_view p r \<longleftrightarrow> presence_inv (fst r) \<and> observed (present p) (snd r) = Some (present (fst r))"

lemma alive_sets:
  "{n. alive n e} = (if sl_occupied e then {sl_nodeId e} else {})"
  by (auto simp: alive_def)

lemma in_present: "i < length (pt_entries p) \<Longrightarrow> sl_occupied (pt_entries p ! i) \<Longrightarrow>
    sl_nodeId (pt_entries p ! i) \<in> present p"
  by (auto simp: present_def alive_def)

lemma not_present:
  "find_first (alive n) (pt_entries p) = None \<longleftrightarrow> n \<notin> present p"
  by (auto simp: find_first_None present_def)

lemma evict_inv: "presence_inv p \<Longrightarrow> presence_inv (p\<lparr>pt_evictIndex := (k + 1) mod maxServers\<rparr>)"
  by (simp add: presence_inv_def maxServers_def)

lemma MarkServerAlive_refines:
  assumes inv: "presence_inv p"
  shows "refines_view p (MarkServerAlive deadline n p)"
proof -
  have len: "length (pt_entries p) = maxServers" and entries: "list_all entry_ok (pt_entries p)"
    and ev: "pt_evictIndex p < maxServers"
    using inv by (simp_all add: presence_inv_def)
  show ?thesis
  proof (cases "find_first (alive n) (pt_entries p)")
    case (Some i)
    let ?e = "(pt_entries p ! i)\<lparr>sl_timer := Some (deadline, n)\<rparr>"
    have i: "i < maxServers" "alive n (pt_entries p ! i)" using find_first_Some [OF Some] len by auto
    then have "presence_inv (set_entry i ?e p)"
      using entry_unique [OF inv] by (intro set_entry_inv [OF inv]) (auto simp: entry_ok_def alive_def)
    moreover have "present (set_entry i ?e p) = present p"
      using i in_present [of i p] len by (auto simp: present_set_entry [OF inv] alive_sets alive_def)
    ultimately show ?thesis using Some by (simp add: refines_view_def MarkServerAlive_def observed_def)
  next
    case None
    then have n: "n \<notin> present p" by (simp add: not_present)
    then have other: "\<not> alive n (pt_entries p ! j)" if "j < maxServers" for j
      using that len by (auto simp: present_def)
    show ?thesis
    proof (cases "find_first (\<lambda>e. \<not> sl_occupied e) (pt_entries p)")
      case (Some i)
      let ?e = "(pt_entries p ! i)\<lparr>sl_occupied := True, sl_nodeId := n, sl_timer := Some (deadline, n)\<rparr>"
      have i: "i < maxServers" "\<not> sl_occupied (pt_entries p ! i)" using find_first_Some [OF Some] len by auto
      have "presence_inv (set_entry i ?e p)"
        using other by (intro set_entry_inv [OF inv]) (auto simp: entry_ok_def)
      moreover have "present (set_entry i ?e p) = insert n (present p)"
        using i by (simp add: present_set_entry [OF inv] alive_sets)
      ultimately show ?thesis
        using None Some n by (simp add: refines_view_def MarkServerAlive_def observed_def)
    next
      case full: None
      let ?i = "pt_evictIndex p"
      let ?p = "p\<lparr>pt_evictIndex := (?i + 1) mod maxServers\<rparr>"
      let ?e = "(pt_entries p ! ?i)\<lparr>sl_nodeId := n, sl_timer := Some (deadline, n)\<rparr>"
      have occ: "sl_occupied (pt_entries p ! ?i)" using full ev len by (simp add: find_first_None)
      have inv': "presence_inv ?p" by (rule evict_inv [OF inv])
      have same: "present ?p = present p" by (simp add: present_def)
      have "presence_inv (set_entry ?i ?e ?p)"
        using other occ by (intro set_entry_inv [OF inv']) (auto simp: entry_ok_def)
      moreover have "present (set_entry ?i ?e ?p) =
          insert n (present p - {sl_nodeId (pt_entries p ! ?i)})"
        unfolding present_set_entry [OF inv' ev] same using occ by (simp add: alive_sets)
      moreover have "sl_nodeId (pt_entries p ! ?i) \<in> present p" using in_present ev occ len by simp
      ultimately show ?thesis
        using None full n len
        by (simp add: refines_view_def MarkServerAlive_def observed_def Let_def)
    qed
  qed
qed

lemma LivenessTimerExpired_refines:
  assumes inv: "presence_inv p" and i: "i < maxServers"
  shows "refines_view p (LivenessTimerExpired i p)"
proof (cases "sl_timer (pt_entries p ! i)")
  case None
  then show ?thesis using inv by (simp add: LivenessTimerExpired_def refines_view_def observed_def)
next
  case (Some t)
  have len: "length (pt_entries p) = maxServers" and entries: "list_all entry_ok (pt_entries p)"
    using inv by (simp_all add: presence_inv_def)
  let ?n = "sl_nodeId (pt_entries p ! i)"
  have "entry_ok (pt_entries p ! i)" using entries i len by (simp add: list_all_length)
  then obtain d where t: "t = (d, ?n)" and occ: "sl_occupied (pt_entries p ! i)"
    using Some by (auto simp: entry_ok_def split: prod.splits)
  let ?p = "set_entry i ((pt_entries p ! i)\<lparr>sl_timer := None\<rparr>) p"
  have found: "find_first (alive ?n) (pt_entries ?p) = Some i"
  proof (rule find_first_unique)
    show "i < length (pt_entries ?p)" "alive ?n (pt_entries ?p ! i)"
      using i len occ by (simp_all add: set_entry_def alive_def)
  next
    fix j assume j: "j < length (pt_entries ?p)" "alive ?n (pt_entries ?p ! j)"
    show "j = i"
    proof (rule ccontr)
      assume "j \<noteq> i"
      with j have "alive ?n (pt_entries p ! j)" by (simp add: set_entry_def)
      then show False
        using entry_unique [OF inv, of j i ?n] j(1) i len occ \<open>j \<noteq> i\<close>
        by (simp add: alive_def set_entry_def)
    qed
  qed
  let ?e = "(pt_entries p ! i)\<lparr>sl_timer := None, sl_occupied := False\<rparr>"
  have "LivenessTimerExpired i p = (set_entry i ?e p, [ServerOffline ?n])"
    using found Some t i len by (simp add: LivenessTimerExpired_def HandleServerTimeout_def set_entry_def)
  moreover have "presence_inv (set_entry i ?e p)"
    by (intro set_entry_inv [OF inv]) (auto simp: entry_ok_def)
  moreover have "present (set_entry i ?e p) = present p - {?n}"
    using i occ by (simp add: present_set_entry [OF inv] alive_sets)
  moreover have "?n \<in> present p" using in_present i occ len by simp
  ultimately show ?thesis by (simp add: refines_view_def observed_def)
qed

lemma present_finite_card:
  assumes "presence_inv p"
  shows "finite (present p)" and "card (present p) \<le> 8"
proof -
  have sub: "present p \<subseteq> sl_nodeId ` set (pt_entries p)" by (auto simp: present_def alive_def)
  then show fin: "finite (present p)" by (rule finite_subset) simp
  have "card (present p) \<le> card (sl_nodeId ` set (pt_entries p))" using sub by (intro card_mono) simp_all
  also have "\<dots> \<le> card (set (pt_entries p))" by (rule card_image_le) simp
  also have "\<dots> \<le> length (pt_entries p)" by (rule card_length)
  finally show "card (present p) \<le> 8" using assms by (simp add: presence_inv_def maxServers_def)
qed

end
