(* ===== verification/ProtocolClient.thy ===== *)
theory ProtocolClient
  imports CategoryClient ServerPresence IsoTpInterface
begin

text \<open>
  The protocol client, \<^verbatim>\<open>can-lite/client/CanProtocolClient.cpp\<close>, over its tables of sequence numbers
  (\<open>SequenceTable\<close>) and of servers (\<open>ServerPresence\<close>).

  As for the server, \<open>cli_now\<close> is the clock of the timer service, a running timer is its deadline,
  and \<open>cli_log\<close> collects what the client does to the outside in order.  A completion function given
  to \<^verbatim>\<open>DiscoverCategories\<close> is a value of type \<open>'d\<close>.  \<open>None\<close> is a stopped program: a failed
  \<^verbatim>\<open>really_assert\<close> or the call of an empty function; \<open>ClientLaws\<close> shows that neither
  happens.
\<close>

section \<open>State\<close>

datatype 'a client_callback = ClientNoCallback | ReturnCallback u16 u8 | ClientAppCallback 'a

record client_config =
  ccfg_serverTimeout :: time
  ccfg_heartbeatInterval :: time
  ccfg_commandAckTimeout :: time
  ccfg_discoveryTimeout :: time

datatype ('a, 'd) client_output =
    ClientFrame can_id bytes
  | Presence presence_event
  | CommandAckTimeout u16 u8 u8
  | Discovered 'd "bytes option"
  | ClientAppDone 'a bool

record ('a, 'd, 'app, 'iso) client =
  cli_config :: client_config
  cli_transport :: "'a client_callback transport"
  cli_heartbeatTimer :: timer
  cli_categories :: "(client_call, 'app) category list"
  cli_discoveryNode :: "u16 option"
  cli_discoveryDone :: "'d option"
  cli_discoveryTimer :: timer
  cli_sequences :: sequence_table
  cli_presence :: presence_table
  cli_isoTp :: "('a, 'iso) iso_object option"
  cli_app :: 'app
  cli_now :: time
  cli_log :: "('a, 'd) client_output list"

definition client_emit ::
    "('a, 'd) client_output list \<Rightarrow> ('a, 'd, 'app, 'iso) client \<Rightarrow> ('a, 'd, 'app, 'iso) client" where
  "client_emit out s = s\<lparr>cli_log := cli_log s @ out\<rparr>"

section \<open>Sending\<close>

definition ResetHeartbeatTimerC :: "('a, 'd, 'app, 'iso) client \<Rightarrow> ('a, 'd, 'app, 'iso) client" where
  "ResetHeartbeatTimerC s =
     s\<lparr>cli_heartbeatTimer := Some (cli_now s + ccfg_heartbeatInterval (cli_config s))\<rparr>"

fun client_callback_done ::
    "'a client_callback \<Rightarrow> bool \<Rightarrow> ('a, 'd, 'app, 'iso) client \<Rightarrow> ('a, 'd, 'app, 'iso) client" where
  "client_callback_done ClientNoCallback sent s = s"
| "client_callback_done (ReturnCallback targetNodeId sequence) sent s =
     (if sent then s
      else s\<lparr>cli_sequences := ReturnSequence targetNodeId sequence (cli_sequences s)\<rparr>)"
| "client_callback_done (ClientAppCallback a) sent s = client_emit [ClientAppDone a sent] s"

fun client_effect ::
    "'a client_callback tx_effect \<Rightarrow> ('a, 'd, 'app, 'iso) client \<Rightarrow> ('a, 'd, 'app, 'iso) client" where
  "client_effect (Transmitted i d) s = client_emit [ClientFrame i d] s"
| "client_effect SendNotified s = ResetHeartbeatTimerC s"
| "client_effect (Completed cb success) s = client_callback_done cb success s"

definition client_effects ::
    "'a client_callback tx_effect list \<Rightarrow> ('a, 'd, 'app, 'iso) client \<Rightarrow> ('a, 'd, 'app, 'iso) client" where
  "client_effects effects s = fold client_effect effects s"

definition ClientSendRaw ::
    "can_id \<Rightarrow> bytes \<Rightarrow> 'a client_callback \<Rightarrow> ('a, 'd, 'app, 'iso) client
       \<Rightarrow> bool \<times> ('a, 'd, 'app, 'iso) client" where
  "ClientSendRaw canId data onDone s =
     (case SendRawFrame canId data onDone (cli_transport s) of
        (accepted, t, effects) \<Rightarrow> (accepted, client_effects effects (s\<lparr>cli_transport := t\<rparr>)))"

definition ClientSendTo ::
    "u16 \<Rightarrow> CanPriority \<Rightarrow> u8 \<Rightarrow> u8 \<Rightarrow> bytes \<Rightarrow> 'a client_callback \<Rightarrow> ('a, 'd, 'app, 'iso) client
       \<Rightarrow> bool \<times> ('a, 'd, 'app, 'iso) client" where
  "ClientSendTo targetNodeId priority category messageType data onDone s =
     (case SendFrameTo targetNodeId priority category messageType data onDone (cli_transport s) of
        (accepted, t, effects) \<Rightarrow> (accepted, client_effects effects (s\<lparr>cli_transport := t\<rparr>)))"

definition SendHeartbeatC :: "('a, 'd, 'app, 'iso) client \<Rightarrow> ('a, 'd, 'app, 'iso) client" where
  "SendHeartbeatC s =
     (let payload = WriteUInt8P canProtocolVersion CanPayloadWriter
      in ResetHeartbeatTimerC
           (snd (ClientSendTo canBroadcastNodeId heartbeat canSystemCategoryId
                   canHeartbeatMessageTypeId (pw_message payload) ClientNoCallback s)))"

section \<open>Commands\<close>

text \<open>\<^verbatim>\<open>CanCategoryClient::SendCommand\<close>, with the client as its sequence source.\<close>

definition CategorySendCommand ::
    "u16 \<Rightarrow> CanPriority \<Rightarrow> u8 \<Rightarrow> u8 \<Rightarrow> bytes \<Rightarrow> ('a, 'd, 'app, 'iso) client
       \<Rightarrow> (bool \<times> ('a, 'd, 'app, 'iso) client) option" where
  "CategorySendCommand targetNodeId priority category messageType payload s =
     (case ReserveSequence (cli_now s + ccfg_commandAckTimeout (cli_config s)) targetNodeId
             category messageType (cli_sequences s) of
        (sequence, q) \<Rightarrow>
          let s1 = s\<lparr>cli_sequences := q\<rparr>;
            data = WriteBytesP payload (WriteUInt8P sequence CanPayloadWriter)
          in case (if pw_valid data
                   then ClientSendTo targetNodeId priority category messageType (pw_message data)
                          (ReturnCallback targetNodeId sequence) s1
                   else (False, s1)) of
               (True, s2) \<Rightarrow> Some (True, s2)
             | (False, s2) \<Rightarrow>
                 (case CancelReservation targetNodeId sequence (cli_sequences s2) of
                    None \<Rightarrow> None
                  | Some q' \<Rightarrow> Some (False, s2\<lparr>cli_sequences := q'\<rparr>)))"

fun run_client_call ::
    "client_call \<Rightarrow> ('a, 'd, 'app, 'iso) client \<Rightarrow> (bool \<times> ('a, 'd, 'app, 'iso) client) option" where
  "run_client_call (ClientCommand target priority category messageType payload) s =
     CategorySendCommand target priority category messageType payload s"
| "run_client_call (ClientSend target priority category messageType payload) s =
     Some (ClientSendTo target priority category messageType payload ClientNoCallback s)"

primrec run_client_program ::
    "(client_call, 'app) program \<Rightarrow> ('a, 'd, 'app, 'iso) client
       \<Rightarrow> (bool \<times> ('a, 'd, 'app, 'iso) client) option" where
  "run_client_program (Return accepted app) s = Some (accepted, s\<lparr>cli_app := app\<rparr>)"
| "run_client_program (Call c k) s =
     (case run_client_call c s of
        None \<Rightarrow> None
      | Some (result, s') \<Rightarrow> run_client_program (k result) s')"

section \<open>Discovery\<close>

definition CompleteDiscovery ::
    "bytes option \<Rightarrow> ('a, 'd, 'app, 'iso) client \<Rightarrow> ('a, 'd, 'app, 'iso) client option" where
  "CompleteDiscovery categoryIds s =
     (case cli_discoveryDone s of
        None \<Rightarrow> None
      | Some onDone \<Rightarrow>
          Some (client_emit [Discovered onDone categoryIds]
            (s\<lparr>cli_discoveryTimer := None, cli_discoveryDone := None, cli_discoveryNode := None\<rparr>)))"

definition HandleCategoryListFrame ::
    "u16 \<Rightarrow> u8 \<Rightarrow> u8 \<Rightarrow> bytes \<Rightarrow> ('a, 'd, 'app, 'iso) client \<Rightarrow> ('a, 'd, 'app, 'iso) client option" where
  "HandleCategoryListFrame sourceNodeId categoryId messageType payload s =
     (if categoryId \<noteq> canSystemCategoryId \<or> messageType \<noteq> canCategoryListResponseMessageTypeId then Some s
      else if cli_discoveryNode s = Some sourceNodeId then CompleteDiscovery (Some payload) s
      else Some s)"

definition DiscoverCategories ::
    "u16 \<Rightarrow> 'd \<Rightarrow> ('a, 'd, 'app, 'iso) client \<Rightarrow> (bool \<times> ('a, 'd, 'app, 'iso) client) option" where
  "DiscoverCategories nodeId onDone s =
     (case CanSystemCategoryClient of
        None \<Rightarrow> None
      | Some systemCategory \<Rightarrow>
          if cli_discoveryNode s \<noteq> None \<or> nodeId = canBroadcastNodeId then Some (False, s)
          else
            let s1 = s\<lparr>cli_discoveryNode := Some nodeId, cli_discoveryDone := Some onDone,
              cli_discoveryTimer := Some (cli_now s + ccfg_discoveryTimeout (cli_config s))\<rparr>
            in case run_client_program
                     (RequestCategoryList systemCategory nodeId (\<lambda>sent. Return sent (cli_app s1))) s1 of
                 None \<Rightarrow> None
               | Some (True, s2) \<Rightarrow> Some (True, s2)
               | Some (False, s2) \<Rightarrow>
                   Some (False, s2\<lparr>cli_discoveryTimer := None, cli_discoveryNode := None,
                     cli_discoveryDone := None\<rparr>))"

section \<open>Reception\<close>

definition HandleCommandAckFrame ::
    "u16 \<Rightarrow> u8 \<Rightarrow> u8 \<Rightarrow> bytes \<Rightarrow> ('a, 'd, 'app, 'iso) client \<Rightarrow> ('a, 'd, 'app, 'iso) client" where
  "HandleCommandAckFrame sourceNodeId categoryId messageType payload s =
     (if categoryId \<noteq> canSystemCategoryId \<or> messageType \<noteq> canCommandAckMessageTypeId then s
      else if length payload < canCommandAckSize \<or> sourceNodeId = 0 then s
      else
        let q = ClearAwaitingAck sourceNodeId (payload ! 0) (payload ! 1) (cli_sequences s)
        in s\<lparr>cli_sequences :=
               if payload ! 2 = CanAckStatus_code sequenceError
               then ResyncSequence sourceNodeId (payload ! 3) q else q\<rparr>)"

definition MarkAlive :: "u16 \<Rightarrow> ('a, 'd, 'app, 'iso) client \<Rightarrow> ('a, 'd, 'app, 'iso) client" where
  "MarkAlive nodeId s =
     (case MarkServerAlive (cli_now s + ccfg_serverTimeout (cli_config s)) nodeId (cli_presence s) of
        (p, events) \<Rightarrow> client_emit (map Presence events) (s\<lparr>cli_presence := p\<rparr>))"

text \<open>The steps that frames and PDUs share; \<open>dispatch\<close> runs the handler of a category.  The result of
  the handler is discarded.\<close>

definition HandleReceived ::
    "((client_call, 'app) category \<Rightarrow> u8 \<Rightarrow> 'app \<Rightarrow> (client_call, 'app) program option)
       \<Rightarrow> u32 \<Rightarrow> bytes \<Rightarrow> ('a, 'd, 'app, 'iso) client \<Rightarrow> ('a, 'd, 'app, 'iso) client option" where
  "HandleReceived dispatch rawId payload s =
     (let sourceNodeId = ExtractCanNodeId rawId; categoryId = ExtractCanCategory rawId;
        messageType = ExtractCanMessageType rawId;
        s1 = (if sourceNodeId \<noteq> 0 then MarkAlive sourceNodeId s else s);
        s2 = HandleCommandAckFrame sourceNodeId categoryId messageType payload s1
      in case HandleCategoryListFrame sourceNodeId categoryId messageType payload s2 of
           None \<Rightarrow> None
         | Some s3 \<Rightarrow>
             (case find (\<lambda>category. cat_id category = categoryId) (cli_categories s3) of
                None \<Rightarrow> Some s3
              | Some category \<Rightarrow>
                  (case dispatch category messageType (cli_app s3) of
                     None \<Rightarrow> Some s3
                   | Some p \<Rightarrow> map_option snd (run_client_program p s3))))"

definition ClientDispatchPdu ::
    "u32 \<Rightarrow> bytes \<Rightarrow> ('a, 'd, 'app, 'iso) client \<Rightarrow> ('a, 'd, 'app, 'iso) client option" where
  "ClientDispatchPdu rawId pdu s =
     HandleReceived (\<lambda>category messageType. HandlePduMessage messageType pdu category) rawId pdu s"

primrec client_run_iso ::
    "('a, 'iso) iso_program \<Rightarrow> ('a, 'd, 'app, 'iso) client
       \<Rightarrow> (bool \<times> ('a, 'd, 'app, 'iso) client) option" where
  "client_run_iso (IsoReturn consumed isoState) s =
     Some (consumed, s\<lparr>cli_isoTp := map_option (\<lambda>(_, method). (isoState, method)) (cli_isoTp s)\<rparr>)"
| "client_run_iso (IsoSend canId data onDone k) s =
     (case ClientSendRaw canId data
             (case onDone of None \<Rightarrow> ClientNoCallback | Some a \<Rightarrow> ClientAppCallback a) s of
        (sent, s') \<Rightarrow> client_run_iso (k sent) s')"
| "client_run_iso (IsoPdu rawId pdu k) s =
     (case ClientDispatchPdu rawId pdu s of None \<Rightarrow> None | Some s' \<Rightarrow> client_run_iso k s')"

definition ClientProcessFrameIso ::
    "u32 \<Rightarrow> bytes \<Rightarrow> ('a, 'd, 'app, 'iso) client \<Rightarrow> (bool \<times> ('a, 'd, 'app, 'iso) client) option" where
  "ClientProcessFrameIso rawId data s =
     (case cli_isoTp s of
        None \<Rightarrow> Some (False, s)
      | Some (isoState, method) \<Rightarrow> client_run_iso (method rawId data isoState) s)"

definition ClientProcessReceivedMessage ::
    "can_id \<Rightarrow> bytes \<Rightarrow> ('a, 'd, 'app, 'iso) client \<Rightarrow> ('a, 'd, 'app, 'iso) client option" where
  "ClientProcessReceivedMessage canId data s =
     (case canId of
        Id11 _ \<Rightarrow> Some s
      | Id29 rawId \<Rightarrow>
          (case ClientProcessFrameIso rawId data s of
             None \<Rightarrow> None
           | Some (True, s1) \<Rightarrow> Some s1
           | Some (False, s1) \<Rightarrow>
               HandleReceived (\<lambda>category messageType. HandleMessage messageType data category)
                 rawId data s1))"

section \<open>Construction and registration\<close>

definition CanProtocolClient ::
    "client_config \<Rightarrow> 'app \<Rightarrow> time \<Rightarrow> ('a, 'd, 'app, 'iso) client option" where
  "CanProtocolClient config app now =
     (case CanSystemCategoryClient of
        None \<Rightarrow> None
      | Some systemCategory \<Rightarrow>
          Some (ResetHeartbeatTimerC
            \<lparr>cli_config = config, cli_transport = CanFrameTransport canBroadcastNodeId True,
             cli_heartbeatTimer = None, cli_categories = [systemCategory],
             cli_discoveryNode = None, cli_discoveryDone = None, cli_discoveryTimer = None,
             cli_sequences = initial_sequences, cli_presence = initial_presence,
             cli_isoTp = None, cli_app = app, cli_now = now, cli_log = []\<rparr>))"

definition ClientRegisterCategory ::
    "(client_call, 'app) category \<Rightarrow> ('a, 'd, 'app, 'iso) client \<Rightarrow> bool \<times> ('a, 'd, 'app, 'iso) client" where
  "ClientRegisterCategory category s =
     (if length (cli_categories s) \<ge> canMaxRegisteredCategories then (False, s)
      else if list_ex (\<lambda>existing. cat_id existing = cat_id category) (cli_categories s) then (False, s)
      else (True, s\<lparr>cli_categories := cli_categories s @ [category]\<rparr>))"

definition ClientUnregisterCategory ::
    "nat \<Rightarrow> ('a, 'd, 'app, 'iso) client \<Rightarrow> ('a, 'd, 'app, 'iso) client" where
  "ClientUnregisterCategory address s =
     s\<lparr>cli_categories := filter (\<lambda>c. cat_handle c \<noteq> address) (cli_categories s)\<rparr>"

definition ClientAttachIsoTpTransport ::
    "('a, 'iso) iso_object \<Rightarrow> ('a, 'd, 'app, 'iso) client \<Rightarrow> ('a, 'd, 'app, 'iso) client" where
  "ClientAttachIsoTpTransport isoTp s = s\<lparr>cli_isoTp := Some isoTp\<rparr>"

definition ClientDetachIsoTpTransport ::
    "('a, 'd, 'app, 'iso) client \<Rightarrow> ('a, 'd, 'app, 'iso) client" where
  "ClientDetachIsoTpTransport s = (if cli_isoTp s = None then s else s\<lparr>cli_isoTp := None\<rparr>)"

section \<open>Events\<close>

datatype ('a, 'd, 'app, 'iso) client_event =
    CliReceive can_id bytes
  | CliSendComplete bool
  | CliTick time
  | CliHeartbeatTimer
  | CliDiscoveryTimer
  | CliAckTimer nat
  | CliLivenessTimer nat
  | CliRegister "(client_call, 'app) category"
  | CliUnregister nat
  | CliAttach "('a, 'iso) iso_object"
  | CliDetach
  | CliDiscover u16 'd
  | CliProgram "(client_call, 'app) program"
  | CliSendRaw can_id bytes 'a
  | CliIso "'iso \<Rightarrow> ('a, 'iso) iso_program"

definition ClientSendComplete ::
    "bool \<Rightarrow> ('a, 'd, 'app, 'iso) client \<Rightarrow> ('a, 'd, 'app, 'iso) client" where
  "ClientSendComplete success s =
     (case OnSendComplete success (cli_transport s) of
        None \<Rightarrow> s
      | Some (t, effects) \<Rightarrow> client_effects effects (s\<lparr>cli_transport := t\<rparr>))"

definition ClientAckTimeout :: "nat \<Rightarrow> ('a, 'd, 'app, 'iso) client \<Rightarrow> ('a, 'd, 'app, 'iso) client" where
  "ClientAckTimeout i s =
     (case AckTimerExpired i (cli_sequences s) of
        (None, q) \<Rightarrow> s\<lparr>cli_sequences := q\<rparr>
      | (Some (nodeId, category, messageType), q) \<Rightarrow>
          client_emit [CommandAckTimeout nodeId category messageType] (s\<lparr>cli_sequences := q\<rparr>))"

definition ClientServerTimeout :: "nat \<Rightarrow> ('a, 'd, 'app, 'iso) client \<Rightarrow> ('a, 'd, 'app, 'iso) client" where
  "ClientServerTimeout i s =
     (case LivenessTimerExpired i (cli_presence s) of
        (p, events) \<Rightarrow> client_emit (map Presence events) (s\<lparr>cli_presence := p\<rparr>))"

fun cli_apply ::
    "('a, 'd, 'app, 'iso) client_event \<Rightarrow> ('a, 'd, 'app, 'iso) client
       \<Rightarrow> ('a, 'd, 'app, 'iso) client option" where
  "cli_apply (CliReceive canId data) s = ClientProcessReceivedMessage canId data s"
| "cli_apply (CliSendComplete success) s = Some (ClientSendComplete success s)"
| "cli_apply (CliTick d) s = Some (s\<lparr>cli_now := cli_now s + d\<rparr>)"
| "cli_apply CliHeartbeatTimer s = Some (SendHeartbeatC (s\<lparr>cli_heartbeatTimer := None\<rparr>))"
| "cli_apply CliDiscoveryTimer s = CompleteDiscovery None (s\<lparr>cli_discoveryTimer := None\<rparr>)"
| "cli_apply (CliAckTimer i) s = Some (ClientAckTimeout i s)"
| "cli_apply (CliLivenessTimer i) s = Some (ClientServerTimeout i s)"
| "cli_apply (CliRegister category) s = Some (snd (ClientRegisterCategory category s))"
| "cli_apply (CliUnregister address) s = Some (ClientUnregisterCategory address s)"
| "cli_apply (CliAttach isoTp) s = Some (ClientAttachIsoTpTransport isoTp s)"
| "cli_apply CliDetach s = Some (ClientDetachIsoTpTransport s)"
| "cli_apply (CliDiscover nodeId onDone) s = map_option snd (DiscoverCategories nodeId onDone s)"
| "cli_apply (CliProgram p) s = map_option snd (run_client_program p s)"
| "cli_apply (CliSendRaw canId data a) s = Some (snd (ClientSendRaw canId data (ClientAppCallback a) s))"
| "cli_apply (CliIso f) s =
     (case cli_isoTp s of
        None \<Rightarrow> Some s
      | Some (isoState, _) \<Rightarrow> map_option snd (client_run_iso (f isoState) s))"

definition cli_enabled ::
    "('a, 'd, 'app, 'iso) client_event \<Rightarrow> ('a, 'd, 'app, 'iso) client \<Rightarrow> bool" where
  "cli_enabled e s =
     (case e of
        CliSendComplete _ \<Rightarrow> tx_current (cli_transport s) \<noteq> None
      | CliHeartbeatTimer \<Rightarrow> (case cli_heartbeatTimer s of None \<Rightarrow> False | Some d \<Rightarrow> d \<le> cli_now s)
      | CliDiscoveryTimer \<Rightarrow> (case cli_discoveryTimer s of None \<Rightarrow> False | Some d \<Rightarrow> d \<le> cli_now s)
      | CliAckTimer i \<Rightarrow> i < maxServers \<and>
          (case ss_ackTimer (sq_states (cli_sequences s) ! i) of
             None \<Rightarrow> False | Some (d, _) \<Rightarrow> d \<le> cli_now s)
      | CliLivenessTimer i \<Rightarrow> i < maxServers \<and>
          (case sl_timer (pt_entries (cli_presence s) ! i) of
             None \<Rightarrow> False | Some (d, _) \<Rightarrow> d \<le> cli_now s)
      | CliUnregister address \<Rightarrow> address \<in> cat_handle ` set (cli_categories s)
      | CliRegister category \<Rightarrow> cat_handle category \<notin> cat_handle ` set (cli_categories s)
      | _ \<Rightarrow> True)"

text \<open>A stopped program stays where it is.\<close>

definition cli_step ::
    "('a, 'd, 'app, 'iso) client_event \<Rightarrow> ('a, 'd, 'app, 'iso) client
       \<Rightarrow> ('a, 'd, 'app, 'iso) client \<times> ('a, 'd) client_output list" where
  "cli_step e s =
     (case cli_apply e s of
        None \<Rightarrow> (s, [])
      | Some s' \<Rightarrow> (s', drop (length (cli_log s)) (cli_log s')))"

end
