(* ===== verification/ClientLaws.thy ===== *)
theory ClientLaws
  imports ProtocolClient
begin

text \<open>
  The invariant of the protocol client and its properties.  As for the server, most operations only
  talk to the bus: the relation \<open>quiet\<close>; \<open>cli_core\<close> is the part of the state it leaves alone.
\<close>

section \<open>What talking to the bus leaves alone\<close>

definition cli_core :: "('a, 'd, 'app, 'iso) client \<Rightarrow> ('a, 'd, 'app, 'iso) client" where
  "cli_core s = s\<lparr>cli_transport := CanFrameTransport 0 False, cli_heartbeatTimer := None,
     cli_sequences := initial_sequences, cli_log := []\<rparr>"

lemma cli_core_fields:
  assumes "cli_core s' = cli_core s"
  shows "cli_config s' = cli_config s" "cli_categories s' = cli_categories s"
    "cli_discoveryNode s' = cli_discoveryNode s" "cli_discoveryDone s' = cli_discoveryDone s"
    "cli_discoveryTimer s' = cli_discoveryTimer s" "cli_presence s' = cli_presence s"
    "cli_isoTp s' = cli_isoTp s" "cli_app s' = cli_app s" "cli_now s' = cli_now s"
  using assms by (cases s; cases s'; simp add: cli_core_def)+

definition bus_out :: "('a, 'd) client_output \<Rightarrow> bool" where
  "bus_out out = (case out of ClientFrame i d \<Rightarrow> True | ClientAppDone a ok \<Rightarrow> True | _ \<Rightarrow> False)"

definition heartbeat_ok :: "('a, 'd, 'app, 'iso) client \<Rightarrow> bool" where
  "heartbeat_ok s \<longleftrightarrow> (\<exists>d. cli_heartbeatTimer s = Some d \<and>
     d \<le> cli_now s + ccfg_heartbeatInterval (cli_config s))"

definition bus_inv :: "('a, 'd, 'app, 'iso) client \<Rightarrow> bool" where
  "bus_inv s \<longleftrightarrow> tx_inv (cli_transport s) \<and> seq_inv (cli_sequences s) \<and> heartbeat_ok s"

definition quiet :: "('a, 'd, 'app, 'iso) client \<Rightarrow> ('a, 'd, 'app, 'iso) client \<Rightarrow> bool" where
  "quiet s s' \<longleftrightarrow> cli_core s' = cli_core s \<and>
     (\<exists>out. cli_log s' = cli_log s @ out \<and> list_all bus_out out) \<and> bus_inv s'"

lemma quiet_refl: "bus_inv s \<Longrightarrow> quiet s s"
  by (simp add: quiet_def)

lemma quiet_bus: "quiet s s' \<Longrightarrow> bus_inv s'"
  by (simp add: quiet_def)

lemma quiet_trans [trans]:
  assumes "quiet s s'" and "quiet s' s''"
  shows "quiet s s''"
proof -
  obtain out out' where "cli_log s' = cli_log s @ out" "list_all bus_out out"
    and "cli_log s'' = cli_log s' @ out'" "list_all bus_out out'"
    using assms unfolding quiet_def by blast
  then have "cli_log s'' = cli_log s @ (out @ out') \<and> list_all bus_out (out @ out')" by simp
  then show ?thesis using assms unfolding quiet_def by metis
qed

text \<open>A single effect, then a list of them, on any transport.\<close>

lemma client_effect_core: "cli_core (client_effect e s) = cli_core s"
proof (cases e)
  case (Completed cb ok)
  then show ?thesis by (cases cb) (simp_all add: cli_core_def client_emit_def)
qed (simp_all add: cli_core_def client_emit_def ResetHeartbeatTimerC_def)

lemma client_effect_log:
  "\<exists>out. cli_log (client_effect e s) = cli_log s @ out \<and> list_all bus_out out"
proof (cases e)
  case (Completed cb ok)
  then show ?thesis by (cases cb) (simp_all add: client_emit_def bus_out_def)
qed (simp_all add: client_emit_def ResetHeartbeatTimerC_def bus_out_def)

lemma client_effect_bus: "bus_inv s \<Longrightarrow> bus_inv (client_effect e s)"
proof (cases e)
  case (Completed cb ok)
  then show "bus_inv s \<Longrightarrow> bus_inv (client_effect e s)"
    by (cases cb) (simp_all add: bus_inv_def heartbeat_ok_def client_emit_def ReturnSequence_inv)
qed (simp_all add: bus_inv_def heartbeat_ok_def client_emit_def ResetHeartbeatTimerC_def)

lemma client_effects_quiet: "bus_inv s \<Longrightarrow> quiet s (client_effects es s)"
proof (induction es arbitrary: s)
  case Nil
  then show ?case by (simp add: client_effects_def quiet_refl)
next
  case (Cons e es)
  have "quiet s (client_effect e s)"
    using client_effect_core client_effect_log client_effect_bus [OF Cons.prems] by (auto simp: quiet_def)
  also have "quiet (client_effect e s) (client_effects es (client_effect e s))"
    by (rule Cons.IH [OF client_effect_bus [OF Cons.prems]])
  finally show ?case by (simp add: client_effects_def)
qed

lemma quiet_transport:
  assumes "bus_inv s" and "tx_inv t" and "quiet (s\<lparr>cli_transport := t\<rparr>) s'"
  shows "quiet s s'"
  using assms(3) by (simp add: quiet_def cli_core_def)

lemma bus_inv_transport: "bus_inv s \<Longrightarrow> tx_inv t \<Longrightarrow> bus_inv (s\<lparr>cli_transport := t\<rparr>)"
  by (simp add: bus_inv_def heartbeat_ok_def)

section \<open>Sends\<close>

lemma SendRawFrame_refused: "SendRawFrame i d cb t = (False, t', e) \<Longrightarrow> e = []"
  by (auto simp: SendRawFrame_def Enqueue_def EnqueueEmergency_def EnqueueOrdinary_def Let_def
      split: if_splits bool.splits prod.splits)

lemma ClientSendRaw_quiet:
  assumes inv: "bus_inv s" and send: "ClientSendRaw i d cb s = (ok, s')"
  shows "quiet s s' \<and> (ok \<or> cli_sequences s' = cli_sequences s)"
proof -
  obtain t e where r: "SendRawFrame i d cb (cli_transport s) = (ok, t, e)"
    and s': "s' = client_effects e (s\<lparr>cli_transport := t\<rparr>)"
    using send by (auto simp: ClientSendRaw_def split: prod.splits)
  have "tx_inv (cli_transport s)" using inv by (simp add: bus_inv_def)
  from SendRawFrame_inv [OF this, of i d cb] r have tx: "tx_inv t" by simp
  have "quiet s s'"
    unfolding s' by (rule quiet_transport [OF inv tx client_effects_quiet [OF bus_inv_transport [OF inv tx]]])
  moreover have "cli_sequences s' = cli_sequences s" if "\<not> ok"
    using SendRawFrame_refused [of i d cb "cli_transport s" t e] r that by (simp add: s' client_effects_def)
  ultimately show ?thesis by blast
qed

lemma ClientSendTo_raw:
  "ClientSendTo target p c m d cb s = ClientSendRaw (Id29 (MakeCanId p c m target)) d cb s"
  by (simp add: ClientSendTo_def ClientSendRaw_def SendFrameTo_def)

lemma SendHeartbeatC_quiet:
  assumes "bus_inv s"
  shows "quiet s (SendHeartbeatC s)"
proof -
  obtain ok s' where s': "ClientSendTo canBroadcastNodeId heartbeat canSystemCategoryId
      canHeartbeatMessageTypeId (pw_message (WriteUInt8P canProtocolVersion CanPayloadWriter))
      ClientNoCallback s = (ok, s')"
    by (rule prod.exhaust)
  have "quiet s s'" using ClientSendRaw_quiet [OF assms s' [unfolded ClientSendTo_raw]] by blast
  moreover from this have "quiet s' (ResetHeartbeatTimerC s')"
    by (simp add: quiet_def ResetHeartbeatTimerC_def cli_core_def bus_inv_def heartbeat_ok_def)
  ultimately show ?thesis by (simp add: SendHeartbeatC_def Let_def s') (rule quiet_trans)
qed

lemma quiet_sequences:
  "seq_inv q \<Longrightarrow> bus_inv s \<Longrightarrow> quiet s (s\<lparr>cli_sequences := q\<rparr>)"
  by (simp add: quiet_def cli_core_def bus_inv_def heartbeat_ok_def)

text \<open>The assertion of \<open>CancelReservation\<close> holds whenever a command is refused.\<close>

lemma CategorySendCommand_quiet:
  assumes inv: "bus_inv s"
  shows "\<exists>ok s'. CategorySendCommand target p c m payload s = Some (ok, s') \<and> quiet s s'"
proof -
  let ?deadline = "cli_now s + ccfg_commandAckTimeout (cli_config s)"
  have seq: "seq_inv (cli_sequences s)" using inv by (simp add: bus_inv_def)
  obtain n q where r: "ReserveSequence ?deadline target c m (cli_sequences s) = (n, q)"
    by (rule prod.exhaust)
  let ?s1 = "s\<lparr>cli_sequences := q\<rparr>"
  let ?data = "WriteBytesP payload (WriteUInt8P n CanPayloadWriter)"
  have q1: "quiet s ?s1" using ReserveSequence_inv [OF seq, of ?deadline target c m] r inv
    by (intro quiet_sequences) simp_all
  have undo: "CancelReservation target n q = Some ((cli_sequences s)\<lparr>sq_lastReservation := None\<rparr>)"
    by (rule CancelReservation_undoes [OF seq r])
  obtain ok s2 where send: "(if pw_valid ?data then ClientSendTo target p c m (pw_message ?data)
      (ReturnCallback target n) ?s1 else (False, ?s1)) = (ok, s2)"
    by (rule prod.exhaust)
  have s2: "quiet ?s1 s2 \<and> (ok \<or> cli_sequences s2 = q)"
  proof (cases "pw_valid ?data")
    case True
    then have "ClientSendRaw (Id29 (MakeCanId p c m target)) (pw_message ?data) (ReturnCallback target n) ?s1
        = (ok, s2)"
      using send by (simp add: ClientSendTo_raw)
    from ClientSendRaw_quiet [OF quiet_bus [OF q1] this] show ?thesis by simp
  next
    case False
    then show ?thesis using send quiet_refl [OF quiet_bus [OF q1]] by auto
  qed
  show ?thesis
  proof (cases ok)
    case True
    then show ?thesis
      using r send s2 quiet_trans [OF q1]
      by (intro exI [of _ True] exI [of _ s2]) (simp add: CategorySendCommand_def Let_def)
  next
    case False
    let ?s3 = "s2\<lparr>cli_sequences := (cli_sequences s)\<lparr>sq_lastReservation := None\<rparr>\<rparr>"
    have "seq_inv ((cli_sequences s)\<lparr>sq_lastReservation := None\<rparr>)"
      using seq by (simp add: seq_inv_def nodes_def)
    then have "quiet s2 ?s3" using s2 by (intro quiet_sequences) (auto intro: quiet_bus)
    then have "quiet s ?s3" using s2 q1 by (blast intro: quiet_trans)
    then show ?thesis
      using False r send s2 undo
      by (intro exI [of _ False] exI [of _ ?s3]) (simp add: CategorySendCommand_def Let_def)
  qed
qed


lemma run_client_call_quiet:
  assumes "bus_inv s"
  shows "\<exists>ok s'. run_client_call c s = Some (ok, s') \<and> quiet s s'"
proof (cases c)
  case (ClientCommand target p cat m payload)
  then show ?thesis using CategorySendCommand_quiet [OF assms] by simp
next
  case (ClientSend target p cat m payload)
  obtain ok s' where "ClientSendTo target p cat m payload ClientNoCallback s = (ok, s')"
    by (rule prod.exhaust)
  with ClientSendRaw_quiet [OF assms this [unfolded ClientSendTo_raw]] ClientSend show ?thesis by auto
qed

text \<open>A handler changes the application's state and is quiet otherwise.\<close>

definition quiet_app :: "('a, 'd, 'app, 'iso) client \<Rightarrow> ('a, 'd, 'app, 'iso) client \<Rightarrow> bool" where
  "quiet_app s s' \<longleftrightarrow> (\<exists>app. quiet (s\<lparr>cli_app := app\<rparr>) s')"

lemma quiet_change_app: "quiet s s' \<Longrightarrow> quiet (s\<lparr>cli_app := app\<rparr>) (s'\<lparr>cli_app := app\<rparr>)"
proof -
  assume q: "quiet s s'"
  then have "cli_core s' = cli_core s" by (simp add: quiet_def)
  then have "cli_core (s'\<lparr>cli_app := app\<rparr>) = cli_core (s\<lparr>cli_app := app\<rparr>)"
    by (cases s; cases s') (simp add: cli_core_def)
  then show ?thesis using q by (simp add: quiet_def bus_inv_def heartbeat_ok_def)
qed

lemma run_client_program_quiet:
  assumes "bus_inv s"
  shows "\<exists>ok s'. run_client_program p s = Some (ok, s') \<and> quiet_app s s'"
  using assms
proof (induction p arbitrary: s)
  case (Return b app)
  have "quiet (s\<lparr>cli_app := app\<rparr>) (s\<lparr>cli_app := app\<rparr>)"
    using Return by (intro quiet_refl) (simp add: bus_inv_def heartbeat_ok_def)
  then show ?case by (auto simp: quiet_app_def)
next
  case (Call c k)
  obtain r s1 where s1: "run_client_call c s = Some (r, s1)" "quiet s s1"
    using run_client_call_quiet [OF Call.prems] by blast
  obtain ok s' where s': "run_client_program (k r) s1 = Some (ok, s')" "quiet_app s1 s'"
    using Call.IH [OF _ quiet_bus [OF s1(2)]] by blast
  obtain app where "quiet (s1\<lparr>cli_app := app\<rparr>) s'" using s'(2) by (auto simp: quiet_app_def)
  then have "quiet_app s s'"
    using quiet_trans [OF quiet_change_app [OF s1(2)]] by (auto simp: quiet_app_def)
  with s1(1) s'(1) show ?case by simp
qed

section \<open>The invariant\<close>

text \<open>What the observers were told of the servers, and the discoveries that were answered.\<close>

fun presence_events :: "('a, 'd) client_output list \<Rightarrow> presence_event list" where
  "presence_events [] = []"
| "presence_events (Presence e # out) = e # presence_events out"
| "presence_events (_ # out) = presence_events out"

fun answered :: "('a, 'd) client_output list \<Rightarrow> 'd multiset" where
  "answered [] = {#}"
| "answered (Discovered d ids # out) = add_mset d (answered out)"
| "answered (_ # out) = answered out"

definition pending_discovery :: "('a, 'd, 'app, 'iso) client \<Rightarrow> 'd multiset" where
  "pending_discovery s = (case cli_discoveryDone s of None \<Rightarrow> {#} | Some d \<Rightarrow> {#d#})"

lemma presence_events_append [simp]:
  "presence_events (xs @ ys) = presence_events xs @ presence_events ys"
  by (induction xs rule: presence_events.induct) auto

lemma presence_events_map [simp]: "presence_events (map Presence es) = es"
  by (induction es) auto

lemma answered_append [simp]: "answered (xs @ ys) = answered xs + answered ys"
  by (induction xs rule: answered.induct) auto

lemma answered_presence [simp]: "answered (map Presence es) = {#}"
  by (induction es) auto

lemma bus_out_events [simp]:
  "list_all bus_out out \<Longrightarrow> presence_events out = [] \<and> answered out = {#}"
proof (induction out)
  case (Cons x out)
  then show ?case by (cases x) (simp_all add: bus_out_def)
qed simp

definition discovery_ok :: "('a, 'd, 'app, 'iso) client \<Rightarrow> bool" where
  "discovery_ok s \<longleftrightarrow>
     (cli_discoveryNode s = None \<longleftrightarrow> cli_discoveryDone s = None) \<and>
     (cli_discoveryTimer s = None \<longleftrightarrow> cli_discoveryDone s = None)"

definition presence_ok :: "('a, 'd, 'app, 'iso) client \<Rightarrow> bool" where
  "presence_ok s \<longleftrightarrow> presence_inv (cli_presence s) \<and>
     observed {} (presence_events (cli_log s)) = Some (present (cli_presence s))"

definition cli_inv :: "('a, 'd, 'app, 'iso) client \<Rightarrow> bool" where
  "cli_inv s \<longleftrightarrow> bus_inv s \<and> discovery_ok s \<and> presence_ok s"

text \<open>A run of the client: it succeeds, keeps the invariant, extends the log, and brings in the
  discoveries \<open>m\<close>, each of which is then pending or answered.\<close>

definition brings ::
    "'d multiset \<Rightarrow> ('a, 'd, 'app, 'iso) client \<Rightarrow> ('a, 'd, 'app, 'iso) client option \<Rightarrow> bool" where
  "brings m s r \<longleftrightarrow> (\<exists>s' out. r = Some s' \<and> cli_inv s' \<and> cli_log s' = cli_log s @ out \<and>
     pending_discovery s' + answered out = pending_discovery s + m)"

lemma brings_trans:
  assumes "brings {#} s (Some s1)" and "brings m s1 r"
  shows "brings m s r"
proof -
  obtain out1 where 1: "cli_log s1 = cli_log s @ out1"
    "pending_discovery s1 + answered out1 = pending_discovery s"
    using assms(1) by (auto simp: brings_def)
  obtain s' out2 where 2: "r = Some s'" "cli_inv s'" "cli_log s' = cli_log s1 @ out2"
    "pending_discovery s' + answered out2 = pending_discovery s1 + m"
    using assms(2) by (auto simp: brings_def)
  have "pending_discovery s' + answered (out1 @ out2) = pending_discovery s + m"
    using 1(2) 2(4) by (metis add.assoc add.commute answered_append)
  then show ?thesis using 1(1) 2 unfolding brings_def by (metis append.assoc)
qed

lemma brings_inv: "brings m s (Some s') \<Longrightarrow> cli_inv s'"
  by (simp add: brings_def)

lemma quiet_brings:
  assumes "cli_inv s" and "quiet s s'"
  shows "brings {#} s (Some s')"
proof -
  obtain out where out: "cli_log s' = cli_log s @ out" "list_all bus_out out"
    using assms(2) by (auto simp: quiet_def)
  have "cli_core s' = cli_core s" using assms(2) by (simp add: quiet_def)
  note f = cli_core_fields [OF this]
  have "cli_inv s'"
    using assms out by (simp add: cli_inv_def quiet_bus discovery_ok_def presence_ok_def f)
  moreover have "pending_discovery s' = pending_discovery s" by (simp add: pending_discovery_def f)
  ultimately show ?thesis using out by (auto simp: brings_def)
qed

lemma cli_inv_app [simp]: "cli_inv (s\<lparr>cli_app := app\<rparr>) = cli_inv s"
  by (simp add: cli_inv_def bus_inv_def heartbeat_ok_def discovery_ok_def presence_ok_def)

lemma quiet_app_brings:
  assumes "cli_inv s" and "quiet_app s s'"
  shows "brings {#} s (Some s')"
proof -
  obtain app where "quiet (s\<lparr>cli_app := app\<rparr>) s'" using assms(2) by (auto simp: quiet_app_def)
  from quiet_brings [OF _ this] assms(1) show ?thesis
    by (simp add: brings_def pending_discovery_def)
qed

lemma run_client_program_brings:
  assumes "cli_inv s"
  shows "brings {#} s (map_option snd (run_client_program p s))"
proof -
  have "bus_inv s" using assms by (simp add: cli_inv_def)
  from run_client_program_quiet [OF this] obtain ok s'
    where "run_client_program p s = Some (ok, s')" "quiet_app s s'" by blast
  with quiet_app_brings [OF assms] show ?thesis by simp
qed


section \<open>Reception\<close>

lemma presence_brings:
  assumes inv: "cli_inv s" and r: "refines_view (cli_presence s) (p, events)"
  shows "brings {#} s (Some (client_emit (map Presence events) (s\<lparr>cli_presence := p\<rparr>)))"
proof -
  have "observed {} (presence_events (cli_log s) @ events) = Some (present p)"
    using inv r by (simp add: cli_inv_def presence_ok_def refines_view_def observed_def)
  then show ?thesis
    using inv r by (simp add: brings_def cli_inv_def bus_inv_def heartbeat_ok_def discovery_ok_def
        presence_ok_def client_emit_def refines_view_def pending_discovery_def)
qed

lemma MarkAlive_brings:
  assumes "cli_inv s"
  shows "brings {#} s (Some (MarkAlive n s))"
proof -
  obtain p events where r: "MarkServerAlive (cli_now s + ccfg_serverTimeout (cli_config s)) n
      (cli_presence s) = (p, events)"
    by (rule prod.exhaust)
  have "presence_inv (cli_presence s)" using assms by (simp add: cli_inv_def presence_ok_def)
  from MarkServerAlive_refines [OF this] r have "refines_view (cli_presence s) (p, events)" by metis
  from presence_brings [OF assms this] show ?thesis by (simp add: MarkAlive_def r)
qed

lemma sequences_brings:
  assumes "cli_inv s" and "seq_inv q"
  shows "brings {#} s (Some (s\<lparr>cli_sequences := q\<rparr>))"
  using assms by (intro quiet_brings) (simp_all add: quiet_sequences cli_inv_def)

lemma HandleCommandAckFrame_brings:
  assumes "cli_inv s"
  shows "brings {#} s (Some (HandleCommandAckFrame n c m payload s))"
proof -
  have seq: "seq_inv (cli_sequences s)" using assms by (simp add: cli_inv_def bus_inv_def)
  have "quiet s s" using assms by (simp add: quiet_refl cli_inv_def)
  then have "brings {#} s (Some s)" by (rule quiet_brings [OF assms])
  then show ?thesis
    using seq ClearAwaitingAck_inv ResyncSequence_inv sequences_brings [OF assms]
    by (simp add: HandleCommandAckFrame_def Let_def)
qed

lemma CompleteDiscovery_brings:
  assumes "cli_inv s" and "cli_discoveryDone s \<noteq> None"
  shows "brings {#} s (CompleteDiscovery ids s)"
  using assms by (auto simp: CompleteDiscovery_def brings_def cli_inv_def bus_inv_def heartbeat_ok_def
      discovery_ok_def presence_ok_def client_emit_def pending_discovery_def)

lemma HandleCategoryListFrame_brings:
  assumes "cli_inv s"
  shows "brings {#} s (HandleCategoryListFrame n c m payload s)"
proof -
  have "quiet s s" using assms by (simp add: quiet_refl cli_inv_def)
  then have "brings {#} s (Some s)" by (rule quiet_brings [OF assms])
  moreover have "cli_discoveryDone s \<noteq> None" if "cli_discoveryNode s = Some n"
    using that assms by (auto simp: cli_inv_def discovery_ok_def)
  ultimately show ?thesis
    using CompleteDiscovery_brings [OF assms] by (simp add: HandleCategoryListFrame_def)
qed

lemma brings_some: "brings m s r \<Longrightarrow> \<exists>s'. r = Some s' \<and> brings m s (Some s')"
  by (auto simp: brings_def)

lemma HandleReceived_brings:
  assumes inv: "cli_inv s"
  shows "brings {#} s (HandleReceived dispatch rawId payload s)"
proof -
  let ?n = "ExtractCanNodeId rawId" and ?c = "ExtractCanCategory rawId"
    and ?m = "ExtractCanMessageType rawId"
  define s1 where "s1 = (if ?n \<noteq> 0 then MarkAlive ?n s else s)"
  define s2 where "s2 = HandleCommandAckFrame ?n ?c ?m payload s1"
  have "brings {#} s (Some s)" using inv by (intro quiet_brings quiet_refl) (simp_all add: cli_inv_def)
  then have s1: "brings {#} s (Some s1)" using MarkAlive_brings [OF inv] by (simp add: s1_def)
  have s2: "brings {#} s1 (Some s2)"
    unfolding s2_def by (rule HandleCommandAckFrame_brings [OF brings_inv [OF s1]])
  obtain s3 where s3: "HandleCategoryListFrame ?n ?c ?m payload s2 = Some s3" "brings {#} s2 (Some s3)"
    using brings_some [OF HandleCategoryListFrame_brings [OF brings_inv [OF s2], of ?n ?c ?m payload]]
    by blast
  let ?r = "case find (\<lambda>category. cat_id category = ?c) (cli_categories s3) of
      None \<Rightarrow> Some s3
    | Some category \<Rightarrow> (case dispatch category ?m (cli_app s3) of
        None \<Rightarrow> Some s3 | Some p \<Rightarrow> map_option snd (run_client_program p s3))"
  have "brings {#} s3 (Some s3)"
    using brings_inv [OF s3(2)] by (intro quiet_brings quiet_refl) (simp_all add: cli_inv_def)
  then have "brings {#} s3 ?r"
    using run_client_program_brings [OF brings_inv [OF s3(2)]] by (simp split: option.split)
  moreover have "HandleReceived dispatch rawId payload s = ?r"
    by (simp add: HandleReceived_def Let_def s1_def [symmetric] s2_def [symmetric] s3(1))
  ultimately show ?thesis
    using brings_trans [OF s1 brings_trans [OF s2 brings_trans [OF s3(2)]]] by simp
qed

lemma iso_state_brings:
  "cli_inv s \<Longrightarrow> brings {#} s (Some (s\<lparr>cli_isoTp := i\<rparr>))"
  by (simp add: brings_def cli_inv_def bus_inv_def heartbeat_ok_def discovery_ok_def presence_ok_def
      pending_discovery_def)

lemma client_run_iso_brings:
  "cli_inv s \<Longrightarrow> brings {#} s (map_option snd (client_run_iso p s))"
proof (induction p arbitrary: s)
  case (IsoReturn consumed isoState)
  then show ?case by (simp add: iso_state_brings)
next
  case (IsoSend i d cb k)
  let ?cb = "case cb of None \<Rightarrow> ClientNoCallback | Some a \<Rightarrow> ClientAppCallback a"
  obtain ok s1 where s1: "ClientSendRaw i d ?cb s = (ok, s1)" by (rule prod.exhaust)
  have "bus_inv s" using IsoSend.prems by (simp add: cli_inv_def)
  then have "quiet s s1" using ClientSendRaw_quiet [OF _ s1] by blast
  then have b: "brings {#} s (Some s1)" by (rule quiet_brings [OF IsoSend.prems])
  have "brings {#} s1 (map_option snd (client_run_iso (k ok) s1))"
    by (rule IsoSend.IH [OF _ brings_inv [OF b]]) simp
  from brings_trans [OF b this] show ?case by (simp add: s1)
next
  case (IsoPdu i pdu k)
  obtain s1 where s1: "ClientDispatchPdu i pdu s = Some s1" "brings {#} s (Some s1)"
    using HandleReceived_brings [OF IsoPdu.prems] unfolding ClientDispatchPdu_def
    by (metis brings_some)
  from brings_trans [OF s1(2) IsoPdu.IH [OF brings_inv [OF s1(2)]]] s1(1) show ?case by simp
qed

lemma ClientProcessReceivedMessage_brings:
  assumes inv: "cli_inv s"
  shows "brings {#} s (ClientProcessReceivedMessage canId data s)"
proof (cases canId)
  case (Id11 x)
  then show ?thesis
    using inv by (auto simp: ClientProcessReceivedMessage_def cli_inv_def intro!: quiet_brings quiet_refl)
next
  case (Id29 rawId)
  have iso: "brings {#} s (map_option snd (ClientProcessFrameIso rawId data s))"
    using inv client_run_iso_brings [OF inv]
    by (auto simp: ClientProcessFrameIso_def cli_inv_def intro!: quiet_brings quiet_refl split: option.split)
  then obtain consumed s1 where s1: "ClientProcessFrameIso rawId data s = Some (consumed, s1)"
    "brings {#} s (Some s1)"
    using brings_some [OF iso] by auto
  then show ?thesis
    using Id29 brings_trans [OF s1(2) HandleReceived_brings [OF brings_inv [OF s1(2)]]]
    by (cases consumed) (simp_all add: ClientProcessReceivedMessage_def)
qed


section \<open>Events\<close>

definition system_client :: "(client_call, 'app) category" where
  "system_client = (CanCategoryClient systemHandle canSystemCategoryId)\<lparr>cat_messageTypes :=
     [CanMessageHandler canCommandAckMessageTypeId HandleCommandAck,
      CanMessageHandler canCategoryListResponseMessageTypeId HandleCategoryListResponse]\<rparr>"

lemma CanSystemCategoryClient_eq: "CanSystemCategoryClient = Some system_client"
  by (simp add: CanSystemCategoryClient_def AddMessageType_def CanCategoryClient_def
      CanMessageHandler_def can_constants system_client_def)

lemma DiscoverCategories_brings:
  assumes inv: "cli_inv s"
  shows "\<exists>ok s'. DiscoverCategories n d s = Some (ok, s') \<and>
    brings (if ok then {#d#} else {#}) s (Some s')"
proof -
  show ?thesis
  proof (cases "cli_discoveryNode s \<noteq> None \<or> n = canBroadcastNodeId")
    case True
    have "brings {#} s (Some s)" using inv by (intro quiet_brings quiet_refl) (simp_all add: cli_inv_def)
    with True show ?thesis
      by (intro exI [of _ False] exI [of _ s]) (simp add: DiscoverCategories_def CanSystemCategoryClient_eq)
  next
    case False
    then have idle: "cli_discoveryNode s = None" "cli_discoveryDone s = None" "cli_discoveryTimer s = None"
      using inv by (simp_all add: cli_inv_def discovery_ok_def)
    let ?s1 = "s\<lparr>cli_discoveryNode := Some n, cli_discoveryDone := Some d,
      cli_discoveryTimer := Some (cli_now s + ccfg_discoveryTimeout (cli_config s))\<rparr>"
    let ?p = "RequestCategoryList system_client n (\<lambda>sent. Return sent (cli_app ?s1))"
    have inv1: "cli_inv ?s1"
      using inv by (simp add: cli_inv_def bus_inv_def heartbeat_ok_def discovery_ok_def presence_ok_def)
    obtain ok s2 where s2: "run_client_program ?p ?s1 = Some (ok, s2)"
      and b: "brings {#} ?s1 (Some s2)"
      using brings_some [OF run_client_program_brings [OF inv1, of ?p]] by auto
    have q: "quiet_app ?s1 s2"
      using run_client_program_quiet [of ?s1 ?p] inv1 s2 by (auto simp: cli_inv_def)
    obtain out where out: "cli_log s2 = cli_log s @ out" "cli_inv s2"
      "pending_discovery s2 + answered out = {#d#}"
      using b by (auto simp: brings_def pending_discovery_def)
    have r: "DiscoverCategories n d s = (if ok then Some (True, s2)
        else Some (False, s2\<lparr>cli_discoveryTimer := None, cli_discoveryNode := None,
          cli_discoveryDone := None\<rparr>))"
      using False s2 by (simp add: DiscoverCategories_def CanSystemCategoryClient_eq Let_def split: bool.split)
    show ?thesis
    proof (cases ok)
      case True
      then show ?thesis using r out idle by (auto simp: brings_def pending_discovery_def)
    next
      case refused: False
      let ?s3 = "s2\<lparr>cli_discoveryTimer := None, cli_discoveryNode := None, cli_discoveryDone := None\<rparr>"
      have "cli_inv ?s3"
        using out(2) by (simp add: cli_inv_def bus_inv_def heartbeat_ok_def discovery_ok_def presence_ok_def)
      moreover have "answered out = {#}"
      proof -
        obtain out' where "cli_log s2 = cli_log s @ out'" "list_all bus_out out'"
          using q by (auto simp: quiet_app_def quiet_def)
        then show ?thesis using out(1) by simp
      qed
      ultimately have "brings {#} s (Some ?s3)"
        using out(1) idle by (auto simp: brings_def pending_discovery_def)
      then show ?thesis using r refused by (intro exI [of _ False] exI [of _ ?s3]) simp
    qed
  qed
qed

lemma ClientSendComplete_brings:
  assumes inv: "cli_inv s"
  shows "brings {#} s (Some (ClientSendComplete ok s))"
proof (cases "OnSendComplete ok (cli_transport s)")
  case None
  then show ?thesis
    using inv by (auto simp: ClientSendComplete_def cli_inv_def intro!: quiet_brings quiet_refl)
next
  case (Some r)
  obtain t e where r: "r = (t, e)" by (cases r)
  have bus: "bus_inv s" using inv by (simp add: cli_inv_def)
  then have "tx_inv t" using OnSendComplete_inv Some r by (auto simp: bus_inv_def)
  then have "quiet s (client_effects e (s\<lparr>cli_transport := t\<rparr>))"
    using quiet_transport [OF bus _ client_effects_quiet [OF bus_inv_transport [OF bus]]] by blast
  from quiet_brings [OF inv this] show ?thesis by (simp add: ClientSendComplete_def Some r)
qed

lemma ClientAckTimeout_brings:
  assumes inv: "cli_inv s" and i: "i < maxServers"
    and timer: "ss_ackTimer (sq_states (cli_sequences s) ! i) = Some (d, n)"
  shows "brings {#} s (Some (ClientAckTimeout i s))"
proof -
  have seq: "seq_inv (cli_sequences s)" using inv by (simp add: cli_inv_def bus_inv_def)
  obtain r q where r: "AckTimerExpired i (cli_sequences s) = (r, q)" by (rule prod.exhaust)
  have "seq_inv q" using AckTimerExpired_inv [OF seq i timer] r by simp
  then have "cli_inv (s\<lparr>cli_sequences := q\<rparr>)" by (rule brings_inv [OF sequences_brings [OF inv]])
  then show ?thesis
    using r by (cases r) (auto simp: ClientAckTimeout_def brings_def client_emit_def cli_inv_def
        bus_inv_def heartbeat_ok_def discovery_ok_def presence_ok_def pending_discovery_def)
qed

lemma ClientServerTimeout_brings:
  assumes inv: "cli_inv s" and i: "i < maxServers"
  shows "brings {#} s (Some (ClientServerTimeout i s))"
proof -
  obtain p events where r: "LivenessTimerExpired i (cli_presence s) = (p, events)" by (rule prod.exhaust)
  have "presence_inv (cli_presence s)" using inv by (simp add: cli_inv_def presence_ok_def)
  from LivenessTimerExpired_refines [OF this i] r
  have "refines_view (cli_presence s) (p, events)" by metis
  from presence_brings [OF inv this] show ?thesis by (simp add: ClientServerTimeout_def r)
qed


text \<open>The heartbeat's own timer has stopped when its callback runs; it makes no difference.\<close>

lemma client_effects_timer:
  "\<exists>t'. client_effects es (s\<lparr>cli_heartbeatTimer := t\<rparr>) =
    (client_effects es s)\<lparr>cli_heartbeatTimer := t'\<rparr>"
proof (induction es arbitrary: s t)
  case Nil
  then show ?case by (auto simp: client_effects_def)
next
  case (Cons e es)
  have "\<exists>t'. client_effect e (s\<lparr>cli_heartbeatTimer := t\<rparr>) = (client_effect e s)\<lparr>cli_heartbeatTimer := t'\<rparr>"
  proof (cases e)
    case (Completed cb ok)
    then show ?thesis by (intro exI [of _ t]) (cases cb, simp_all add: client_emit_def)
  next
    case SendNotified
    then show ?thesis
      by (intro exI [of _ "Some (cli_now s + ccfg_heartbeatInterval (cli_config s))"])
        (simp add: ResetHeartbeatTimerC_def)
  next
    case (Transmitted i d)
    then show ?thesis by (intro exI [of _ t]) (simp add: client_emit_def)
  qed
  then obtain t' where t': "client_effect e (s\<lparr>cli_heartbeatTimer := t\<rparr>) =
      (client_effect e s)\<lparr>cli_heartbeatTimer := t'\<rparr>" by blast
  show ?case using Cons.IH [of t' "client_effect e s"] by (simp add: client_effects_def t')
qed

lemma SendHeartbeatC_timer: "SendHeartbeatC (s\<lparr>cli_heartbeatTimer := t\<rparr>) = SendHeartbeatC s"
proof -
  let ?d = "pw_message (WriteUInt8P canProtocolVersion CanPayloadWriter)"
  let ?i = "Id29 (MakeCanId heartbeat canSystemCategoryId canHeartbeatMessageTypeId canBroadcastNodeId)"
  obtain ok tx e where r: "SendRawFrame ?i ?d ClientNoCallback (cli_transport s) = (ok, tx, e)"
    by (metis prod_cases3)
  have swap: "s\<lparr>cli_heartbeatTimer := t, cli_transport := tx\<rparr> = s\<lparr>cli_transport := tx, cli_heartbeatTimer := t\<rparr>"
    by simp
  obtain t' where "client_effects e (s\<lparr>cli_heartbeatTimer := t, cli_transport := tx\<rparr>) =
      (client_effects e (s\<lparr>cli_transport := tx\<rparr>))\<lparr>cli_heartbeatTimer := t'\<rparr>"
    using client_effects_timer [of e t "s\<lparr>cli_transport := tx\<rparr>"] unfolding swap by blast
  then show ?thesis
    by (simp add: SendHeartbeatC_def Let_def ClientSendTo_raw ClientSendRaw_def r ResetHeartbeatTimerC_def)
qed

text \<open>The discovery that an event brings in.\<close>

definition cli_brought :: "('a, 'd, 'app, 'iso) client_event \<Rightarrow> ('a, 'd, 'app, 'iso) client \<Rightarrow> 'd multiset" where
  "cli_brought e s =
     (case e of
        CliDiscover n d \<Rightarrow>
          (case DiscoverCategories n d s of Some (True, _) \<Rightarrow> {#d#} | _ \<Rightarrow> {#})
      | _ \<Rightarrow> {#})"

lemma cli_apply_brings:
  assumes inv: "cli_inv s" and en: "cli_enabled e s"
  shows "brings (cli_brought e s) s (cli_apply e s)"
proof -
  have bus: "bus_inv s" using inv by (simp add: cli_inv_def)
  have same: "brings {#} s (Some s)" by (rule quiet_brings [OF inv quiet_refl [OF bus]])
  show ?thesis
  proof (cases e)
    case (CliReceive canId data)
    then show ?thesis using ClientProcessReceivedMessage_brings [OF inv] by (simp add: cli_brought_def)
  next
    case (CliSendComplete ok)
    then show ?thesis using ClientSendComplete_brings [OF inv] by (simp add: cli_brought_def)
  next
    case (CliTick d)
    have "heartbeat_ok (s\<lparr>cli_now := cli_now s + d\<rparr>)"
      using bus by (auto simp: bus_inv_def heartbeat_ok_def)
    then show ?thesis
      using CliTick inv by (simp add: cli_brought_def brings_def cli_inv_def bus_inv_def discovery_ok_def
          presence_ok_def pending_discovery_def)
  next
    case CliHeartbeatTimer
    then show ?thesis
      using quiet_brings [OF inv SendHeartbeatC_quiet [OF bus]]
      by (simp add: cli_brought_def SendHeartbeatC_timer)
  next
    case CliDiscoveryTimer
    then have "cli_discoveryDone s \<noteq> None"
      using en inv by (auto simp: cli_enabled_def cli_inv_def discovery_ok_def split: option.splits)
    then obtain d where d: "cli_discoveryDone s = Some d" by auto
    from CompleteDiscovery_brings [OF inv, of None] d CliDiscoveryTimer show ?thesis
      by (simp add: cli_brought_def CompleteDiscovery_def)
  next
    case (CliAckTimer i)
    then obtain d n where "i < maxServers" "ss_ackTimer (sq_states (cli_sequences s) ! i) = Some (d, n)"
      using en by (auto simp: cli_enabled_def split: option.splits)
    then show ?thesis using CliAckTimer ClientAckTimeout_brings [OF inv] by (simp add: cli_brought_def)
  next
    case (CliLivenessTimer i)
    then show ?thesis
      using en ClientServerTimeout_brings [OF inv] by (simp add: cli_brought_def cli_enabled_def)
  next
    case (CliDiscover n d)
    obtain ok s' where "DiscoverCategories n d s = Some (ok, s')"
      "brings (if ok then {#d#} else {#}) s (Some s')"
      using DiscoverCategories_brings [OF inv] by blast
    then show ?thesis using CliDiscover by (cases ok) (simp_all add: cli_brought_def)
  next
    case (CliProgram p)
    then show ?thesis using run_client_program_brings [OF inv] by (simp add: cli_brought_def)
  next
    case (CliSendRaw i d a)
    obtain ok s' where raw: "ClientSendRaw i d (ClientAppCallback a) s = (ok, s')" by (rule prod.exhaust)
    then have "quiet s s'" using ClientSendRaw_quiet [OF bus] by blast
    then show ?thesis using CliSendRaw raw quiet_brings [OF inv] by (simp add: cli_brought_def)
  next
    case (CliIso f)
    then show ?thesis
      using same client_run_iso_brings [OF inv] by (simp add: cli_brought_def split: option.split)
  qed (use inv in \<open>auto simp: cli_brought_def brings_def cli_inv_def bus_inv_def heartbeat_ok_def
      discovery_ok_def presence_ok_def pending_discovery_def ClientRegisterCategory_def
      ClientUnregisterCategory_def ClientAttachIsoTpTransport_def ClientDetachIsoTpTransport_def\<close>)
qed


lemma cli_step_some:
  assumes "cli_inv s" and "cli_enabled e s"
  shows "\<exists>s' out. cli_apply e s = Some s' \<and> cli_step e s = (s', out) \<and> cli_log s' = cli_log s @ out \<and>
    cli_inv s' \<and> pending_discovery s' + answered out = pending_discovery s + cli_brought e s"
  using cli_apply_brings [OF assms] by (auto simp: brings_def cli_step_def)

interpretation cli: conserving_machine cli_step cli_enabled cli_inv pending_discovery cli_brought answered
proof unfold_locales
  fix s e
  assume "cli_inv s" "cli_enabled e s"
  from cli_step_some [OF this]
  show "cli_inv (fst (cli_step e s))"
    and "pending_discovery (fst (cli_step e s)) + answered (snd (cli_step e s)) =
      pending_discovery s + cli_brought e s"
    by auto
qed simp_all

lemma CanProtocolClient_inv: "CanProtocolClient config app now = Some s \<Longrightarrow> cli_inv s"
  by (auto simp: CanProtocolClient_def CanSystemCategoryClient_eq ResetHeartbeatTimerC_def cli_inv_def
      bus_inv_def heartbeat_ok_def initial_sequences_inv discovery_ok_def presence_ok_def
      initial_presence_inv initial_presence_empty observed_def CanFrameTransport_def)
    (simp add: tx_inv_def OrdinaryCount_def priority_sorted_def emergencyRetryLimit_def)

section \<open>Properties\<close>

definition sample_client_config :: client_config where
  "sample_client_config = \<lparr>ccfg_serverTimeout = 3000, ccfg_heartbeatInterval = 1000,
     ccfg_commandAckTimeout = 1000, ccfg_discoveryTimeout = 1000\<rparr>"

definition sample_client :: "(nat, nat, nat, nat) client" where
  "sample_client = the (CanProtocolClient sample_client_config 0 0)"

lemma sample_client_start: "CanProtocolClient sample_client_config 0 0 = Some sample_client"
  by (simp add: sample_client_def CanProtocolClient_def CanSystemCategoryClient_eq)

definition sample_client_events :: "(nat, nat, nat, nat) client_event list" where
  "sample_client_events = [CliDiscover 5 7, CliTick 10, CliDetach]"

lemma sample_client_admissible: "admissible cli_enabled cli_step sample_client_events s"
  by (simp add: sample_client_events_def cli_enabled_def)

text \<open>C7: A client never stops: in every state it can reach, every event that can happen is handled
  without a failed assertion and without calling an empty function, in particular the reservation
  that a refused command cancels is always the last one made.\<close>

theorem client_never_stops:
  assumes "CanProtocolClient config app now = Some s0"
    and "admissible cli_enabled cli_step es s0"
    and "cli_enabled e (fst (run_io cli_step es s0))"
  shows "cli_apply e (fst (run_io cli_step es s0)) \<noteq> None"
proof -
  have "cli_inv (fst (run_io cli_step es s0))"
    by (rule cli.run_inv [OF CanProtocolClient_inv [OF assms(1)] assms(2)])
  from cli_step_some [OF this assms(3)] show ?thesis by auto
qed

theorem client_never_stops_witness:
  "cli_apply (CliProgram (Call (ClientCommand 5 command 2 1 [1, 2, 3, 4, 5, 6, 7, 8]) (\<lambda>sent. Return sent 1)))
     (fst (run_io cli_step sample_client_events sample_client)) \<noteq> None"
  by (rule client_never_stops [OF sample_client_start sample_client_admissible]) (simp add: cli_enabled_def)

text \<open>C8: The observers of a client are told \<open>OnServerOnline\<close> and \<open>OnServerOffline\<close> for each server in
  alternation, beginning with \<open>OnServerOnline\<close>; what they were told last is the table: at most eight
  servers, each with its timeout running, and a server that is not in the table has none.\<close>

theorem server_presence_alternates:
  assumes "CanProtocolClient config app now = Some s0"
    and "admissible cli_enabled cli_step es s0"
  shows "(let s = fst (run_io cli_step es s0) in
    observed {} (presence_events (cli_log s)) = Some (present (cli_presence s)) \<and>
    card (present (cli_presence s)) \<le> 8 \<and>
    present (cli_presence s) =
      {n. \<exists>e d. e \<in> set (pt_entries (cli_presence s)) \<and> sl_timer e = Some (d, n)})"
proof -
  let ?s = "fst (run_io cli_step es s0)" and ?p = "cli_presence (fst (run_io cli_step es s0))"
  have "cli_inv ?s" by (rule cli.run_inv [OF CanProtocolClient_inv [OF assms(1)] assms(2)])
  then have inv: "presence_inv ?p" and view: "observed {} (presence_events (cli_log ?s)) = Some (present ?p)"
    by (simp_all add: cli_inv_def presence_ok_def)
  have ok: "entry_ok e" if "e \<in> set (pt_entries ?p)" for e
    using inv that by (auto simp: presence_inv_def list_all_iff)
  have "alive n e \<longleftrightarrow> (\<exists>d. sl_timer e = Some (d, n))" if "e \<in> set (pt_entries ?p)" for n e
    using ok [OF that] by (auto simp: entry_ok_def alive_def split: option.splits)
  then have "present ?p = {n. \<exists>e d. e \<in> set (pt_entries ?p) \<and> sl_timer e = Some (d, n)}"
    by (auto simp: present_def)
  then show ?thesis using view present_finite_card(2) [OF inv] unfolding Let_def by blast
qed

theorem server_presence_alternates_witness:
  "card (present (cli_presence (fst (run_io cli_step sample_client_events sample_client)))) \<le> 8"
  using server_presence_alternates [OF sample_client_start sample_client_admissible] unfolding Let_def by blast

text \<open>C9: A discovery that \<open>DiscoverCategories\<close> accepts is answered exactly once, with the list of the
  server or with nothing after the timeout: along every run the accepted ones are those answered and
  at most one that is pending, and the timeout runs exactly while one is.\<close>

theorem discovery_answered_once:
  assumes "CanProtocolClient config app now = Some s0"
    and "admissible cli_enabled cli_step es s0"
  shows "(let s = fst (run_io cli_step es s0); out = snd (run_io cli_step es s0) in
    answered out + pending_discovery s = total_over cli_brought cli_step es s0 \<and>
    size (pending_discovery s) \<le> 1 \<and>
    (pending_discovery s = {#}) = (cli_discoveryTimer s = None) \<and>
    (pending_discovery s = {#}) = (cli_discoveryNode s = None))"
proof -
  let ?s = "fst (run_io cli_step es s0)" and ?out = "snd (run_io cli_step es s0)"
  note inv0 = CanProtocolClient_inv [OF assms(1)]
  have "pending_discovery s0 = {#}"
    using assms(1) by (auto simp: CanProtocolClient_def CanSystemCategoryClient_eq
        ResetHeartbeatTimerC_def pending_discovery_def)
  then have "pending_discovery ?s + answered ?out = total_over cli_brought cli_step es s0"
    using cli.run_conserves [OF inv0 assms(2)] by simp
  then have "answered ?out + pending_discovery ?s = total_over cli_brought cli_step es s0"
    by (simp add: add.commute)
  moreover have "discovery_ok ?s" using cli.run_inv [OF inv0 assms(2)] by (simp add: cli_inv_def)
  moreover have "size (pending_discovery ?s) \<le> 1" by (simp add: pending_discovery_def split: option.split)
  ultimately show ?thesis
    unfolding Let_def discovery_ok_def by (cases "cli_discoveryDone ?s") (simp_all add: pending_discovery_def)
qed

theorem discovery_answered_once_witness:
  "size (pending_discovery (fst (run_io cli_step sample_client_events sample_client))) \<le> 1"
  using discovery_answered_once [OF sample_client_start sample_client_admissible] unfolding Let_def by blast

text \<open>C10: In every state a client can reach, each server has at most one sequence slot, a slot awaits
  an acknowledgement exactly while its timer runs, and the timer reports that slot's own server and
  command.\<close>

theorem acknowledgements_tracked:
  assumes "CanProtocolClient config app now = Some s0"
    and "admissible cli_enabled cli_step es s0" and "i < 8"
  shows "(let q = cli_sequences (fst (run_io cli_step es s0)); st = sq_states q ! i in
    length (sq_states q) = 8 \<and>
    (\<forall>j n. j < 8 \<longrightarrow> serves n st \<longrightarrow> serves n (sq_states q ! j) \<longrightarrow> j = i) \<and>
    sr_awaitingAck (ss_record st) = (ss_ackTimer st \<noteq> None) \<and>
    (ss_ackTimer st \<noteq> None \<longrightarrow> fst (AckTimerExpired i q) =
       Some (sr_nodeId (ss_record st), sr_awaitingCategory (ss_record st),
         sr_awaitingMessageType (ss_record st))))"
proof -
  let ?q = "cli_sequences (fst (run_io cli_step es s0))" and ?st = "sq_states (cli_sequences (fst (run_io cli_step es s0))) ! i"
  have inv: "seq_inv ?q"
    using cli.run_inv [OF CanProtocolClient_inv [OF assms(1)] assms(2)] by (simp add: cli_inv_def bus_inv_def)
  have i: "i < maxServers" using assms(3) by (simp add: maxServers_def)
  have len: "length (sq_states ?q) = maxServers" using inv by (simp add: seq_inv_def)
  have ok: "slot_ok ?st" using inv i len by (simp add: seq_inv_def list_all_length)
  then have awaiting: "sr_awaitingAck (ss_record ?st) = (ss_ackTimer ?st \<noteq> None)"
    by (auto simp: slot_ok_def split: option.splits)
  have unique: "j = i" if "j < 8" "serves n ?st" "serves n (sq_states ?q ! j)" for j n
    using slot_unique [OF inv, of j i n] that i by (simp add: maxServers_def)
  have "fst (AckTimerExpired i ?q) = Some (sr_nodeId (ss_record ?st), sr_awaitingCategory (ss_record ?st),
      sr_awaitingMessageType (ss_record ?st))" if timer: "ss_ackTimer ?st \<noteq> None"
  proof -
    obtain d n where "ss_ackTimer ?st = Some (d, n)" using timer by auto
    from AckTimerExpired_eq [OF inv i this] show ?thesis by (simp add: Let_def)
  qed
  then show ?thesis unfolding Let_def using len awaiting unique by (auto simp: maxServers_def)
qed

theorem acknowledgements_tracked_witness:
  "length (sq_states (cli_sequences (fst (run_io cli_step sample_client_events sample_client)))) = 8"
  using acknowledgements_tracked [OF sample_client_start sample_client_admissible, of 0] by (simp add: Let_def)

end
