(* ===== verification/Session.thy ===== *)
theory Session
  imports ServerLaws ClientLaws
begin

text \<open>
  A client and a server together: after a command was lost, the acknowledgement that refuses the
  next one brings the two back in step.
\<close>

section \<open>The server's answer\<close>

lemma TransportSend_idle:
  assumes "tx_current (srv_transport s) = None"
  shows "\<exists>out. srv_log (snd (TransportSend p c m d cb s)) =
    srv_log s @ FrameOut (Id29 (MakeCanId p c m (tx_nodeId (srv_transport s)))) d # out"
proof -
  have "\<exists>t e. SendRawFrame (Id29 (MakeCanId p c m (tx_nodeId (srv_transport s)))) d cb (srv_transport s) =
      (True, t, Transmitted (Id29 (MakeCanId p c m (tx_nodeId (srv_transport s)))) d # e)"
    using assms by (simp add: SendRawFrame_def Transmit_def PendingFrame_def Let_def)
  then obtain t e where "SendRawFrame (Id29 (MakeCanId p c m (tx_nodeId (srv_transport s)))) d cb (srv_transport s) =
      (True, t, Transmitted (Id29 (MakeCanId p c m (tx_nodeId (srv_transport s)))) d # e)" by blast
  moreover obtain out where "srv_log (apply_effects e (emit (FrameOut (Id29 (MakeCanId p c m
      (tx_nodeId (srv_transport s)))) d) (s\<lparr>srv_transport := t\<rparr>))) =
      srv_log (emit (FrameOut (Id29 (MakeCanId p c m (tx_nodeId (srv_transport s)))) d) (s\<lparr>srv_transport := t\<rparr>)) @ out"
    using apply_effects_log by blast
  ultimately show ?thesis
    by (simp add: TransportSend_raw TransportSendRaw_def apply_effects_def emit_def)
qed

definition ack_frame :: "('a, 'app, 'iso) server \<Rightarrow> u32" where
  "ack_frame s = MakeCanId response canSystemCategoryId canCommandAckMessageTypeId
     (cfg_nodeId (srv_config s))"

lemma refusal_sent:
  assumes "link_inv s" and "tx_current (srv_transport s) = None"
  shows "\<exists>out. srv_log (RejectCommand rawId status n s) = srv_log s @
    FrameOut (Id29 (ack_frame s))
      [ExtractCanCategory rawId, ExtractCanMessageType rawId, CanAckStatus_code status, n] # out"
  using TransportSend_idle [of "count_invalid s"] assms
  by (simp add: RejectCommand_def SendCommandAckWith_payload count_invalid_def link_inv_def ack_frame_def)

section \<open>The client's reaction\<close>

lemma ClearAwaitingAck_serves:
  "map (\<lambda>st. serves n st) (sq_states (ClearAwaitingAck k c m q)) = map (\<lambda>st. serves n st) (sq_states q)"
  unfolding ClearAwaitingAck_def by (simp add: map_update_first serves_def)

lemma ResyncSequence_next:
  assumes inv: "seq_inv q" and slot: "True \<in> set (map (\<lambda>st. serves n st) (sq_states q))"
  shows "next_sequence n (ResyncSequence n v q) = v"
proof -
  have len: "length (sq_states q) = maxServers" using inv by (simp add: seq_inv_def)
  obtain i where i: "find_first (serves n) (sq_states q) = Some i"
    using slot find_first_None [of "serves n" "sq_states q"] by (cases "find_first (serves n) (sq_states q)") auto
  note found = find_first_Some [OF i]
  have st: "sq_states (ResyncSequence n v q) = (sq_states q)[i := (sq_states q ! i)
      \<lparr>ss_record := (ss_record (sq_states q ! i))\<lparr>sr_counter := v\<rparr>\<rparr>]"
    by (simp add: ResyncSequence_def update_first_find i)
  have "serves n (sq_states (ResyncSequence n v q) ! i)" using found by (simp add: st serves_def)
  from next_sequence_slot [OF ResyncSequence_inv [OF inv] _ this] show ?thesis
    using found len by (simp add: st)
qed

lemma ReserveSequence_number:
  assumes "seq_inv q"
  shows "fst (ReserveSequence d n c m q) = next_sequence n q"
proof -
  obtain i q1 where "ClaimSequenceSlot n q = (i, q1)" by (rule prod.exhaust)
  from ReserveSequence_slot [OF assms this] show ?thesis by simp
qed


lemma MarkAlive_fields [simp]:
  "cli_sequences (MarkAlive n c) = cli_sequences c" "cli_categories (MarkAlive n c) = cli_categories c"
  by (simp_all add: MarkAlive_def client_emit_def split: prod.split)

lemma system_client_ack:
  "HandleMessage canCommandAckMessageTypeId data system_client app = Some (Return True app)"
  by (simp add: HandleMessage_def system_client_def CanMessageHandler_def Handle_def HandleCommandAck_def)

definition uses_system_category :: "('a, 'd, 'app, 'iso) client \<Rightarrow> bool" where
  "uses_system_category c \<longleftrightarrow>
     find (\<lambda>category. cat_id category = canSystemCategoryId) (cli_categories c) = Some system_client"

lemma sequence_error_received:
  assumes inv: "cli_inv c" and "cli_isoTp c = None" and sys: "uses_system_category c"
    and n: "n \<noteq> 0" "unat n < 4096"
    and slot: "True \<in> set (map (\<lambda>st. serves n st) (sq_states (cli_sequences c)))"
  shows "\<exists>c'. ClientProcessReceivedMessage
      (Id29 (MakeCanId response canSystemCategoryId canCommandAckMessageTypeId n))
      [a, b, CanAckStatus_code sequenceError, v] c = Some c' \<and>
    seq_inv (cli_sequences c') \<and> next_sequence n (cli_sequences c') = v"
proof -
  let ?i = "MakeCanId response canSystemCategoryId canCommandAckMessageTypeId n"
  define data where "data = [a, b, CanAckStatus_code sequenceError, v]"
  have id: "ExtractCanNodeId ?i = n" "ExtractCanCategory ?i = canSystemCategoryId"
    "ExtractCanMessageType ?i = canCommandAckMessageTypeId"
    using n(2) by (simp_all add: can_constants)
  let ?q = "ResyncSequence n v (ClearAwaitingAck n a b (cli_sequences c))"
  let ?c2 = "(MarkAlive n c)\<lparr>cli_sequences := ?q\<rparr>"
  have ack: "HandleCommandAckFrame n canSystemCategoryId canCommandAckMessageTypeId data (MarkAlive n c) = ?c2"
    using n(1) by (simp add: HandleCommandAckFrame_def canCommandAckSize_def Let_def data_def)
  have list: "HandleCategoryListFrame n canSystemCategoryId canCommandAckMessageTypeId data ?c2 = Some ?c2"
    by (simp add: HandleCategoryListFrame_def can_constants)
  have "HandleReceived (\<lambda>category messageType. HandleMessage messageType data category) ?i data c =
      Some (?c2\<lparr>cli_app := cli_app ?c2\<rparr>)"
    using n(1) sys
    by (simp add: HandleReceived_def Let_def id ack list uses_system_category_def system_client_ack)
  then have "ClientProcessReceivedMessage (Id29 ?i) data c = Some (?c2\<lparr>cli_app := cli_app ?c2\<rparr>)"
    using assms(2) by (simp add: ClientProcessReceivedMessage_def ClientProcessFrameIso_def)
  moreover have seq: "seq_inv (ClearAwaitingAck n a b (cli_sequences c))"
    using inv ClearAwaitingAck_inv by (simp add: cli_inv_def bus_inv_def)
  moreover have "next_sequence n ?q = v"
    by (rule ResyncSequence_next [OF seq]) (use slot in \<open>simp only: ClearAwaitingAck_serves\<close>)
  ultimately show ?thesis using ResyncSequence_inv [OF seq] by (simp add: data_def)
qed

section \<open>Back in step\<close>

text \<open>C5: After commands were lost on the bus, a client and a server are back in step after one refused
  command: the server answers a command out of sequence with a frame that carries the number it
  expects, and a client that receives that frame gives its next command to that server, of whatever
  category and type, a number that the server accepts.\<close>

theorem client_server_resynchronise:
  assumes "srv_inv s" and "tx_current (srv_transport s) = None"
    and "admissible_frame s rawId" and "IsCommandMessageType (ExtractCanMessageType rawId)"
    and "FindCategory (ExtractCanCategory rawId) s = Some category" and "cat_sequence category"
    and "\<not> IsEmergencyId rawId" and "srv_sequenceInitialized s" and "k \<noteq> srv_lastSequence s + 1"
    and "cli_inv c" and "cli_isoTp c = None" and "uses_system_category c"
    and "cfg_nodeId (srv_config s) = n" and "n \<noteq> 0" and "unat n < 4096"
    and "True \<in> set (map (\<lambda>st. serves n st) (sq_states (cli_sequences c)))"
  shows "\<exists>ack data c'. FrameOut (Id29 ack) data \<in> set (snd (srv_step (SrvReceive (Id29 rawId) (k # rest)) s)) \<and>
    cli_apply (CliReceive (Id29 ack) data) c = Some c' \<and>
    (\<forall>deadline cat m. IsExpectedSequence (fst (ReserveSequence deadline n cat m (cli_sequences c')))
      (fst (srv_step (SrvReceive (Id29 rawId) (k # rest)) s)))"
proof -
  let ?b = "budgeted rawId s"
  let ?s' = "RejectCommand rawId sequenceError (ExpectedSequence s) ?b"
  let ?data = "[ExtractCanCategory rawId, ExtractCanMessageType rawId, CanAckStatus_code sequenceError,
    srv_lastSequence s + 1]"
  have step: "ProcessReceivedMessage (Id29 rawId) (k # rest) s = ?s'"
    by (rule unexpected_command [OF assms(3-9)])
  have link: "link_inv ?b"
    using assms(1) by (simp add: srv_inv_def link_inv_def budgeted_def)
  obtain out where "srv_log ?s' = srv_log s @ FrameOut (Id29 (ack_frame s)) ?data # out"
    using refusal_sent [OF link, of rawId sequenceError "ExpectedSequence s"] assms(2)
    by (auto simp: ack_frame_def ExpectedSequence_def)
  then have sent: "FrameOut (Id29 (ack_frame s)) ?data \<in> set (snd (srv_step (SrvReceive (Id29 rawId) (k # rest)) s))"
    by (simp add: srv_step_def step Let_def)
  obtain c' where c': "ClientProcessReceivedMessage (Id29 (ack_frame s)) ?data c = Some c'"
    "seq_inv (cli_sequences c')" "next_sequence n (cli_sequences c') = srv_lastSequence s + 1"
    using sequence_error_received [OF assms(10-12,14-16)] assms(13) by (metis ack_frame_def)
  have "srv_core ?s' = srv_core (count_invalid ?b)" by (rule RejectCommand_core)
  from srv_core_fields(7) [OF this]
  have "srv_lastSequence (fst (srv_step (SrvReceive (Id29 rawId) (k # rest)) s)) = srv_lastSequence s"
    by (simp add: srv_step_def step Let_def count_invalid_def)
  then have "IsExpectedSequence (fst (ReserveSequence deadline n cat m (cli_sequences c')))
      (fst (srv_step (SrvReceive (Id29 rawId) (k # rest)) s))" for deadline cat m
    using c'(3) by (simp add: ReserveSequence_number [OF c'(2)] IsExpectedSequence_def ExpectedSequence_def)
  then show ?thesis using sent c'(1) by auto
qed


text \<open>A client that sent one command to node 5.\<close>

definition sample_peer :: "(nat, nat, nat, nat) client" where
  "sample_peer = sample_client\<lparr>cli_sequences := snd (ReserveSequence 1000 5 2 1 initial_sequences)\<rparr>"

lemma sample_client_fields:
  "cli_isoTp sample_client = None" "cli_categories sample_client = [system_client]"
  by (simp_all add: sample_client_def CanProtocolClient_def CanSystemCategoryClient_eq ResetHeartbeatTimerC_def)

lemma sample_peer_inv: "cli_inv sample_peer"
  using brings_inv [OF sequences_brings [OF CanProtocolClient_inv [OF sample_client_start]]]
    ReserveSequence_inv [OF initial_sequences_inv] unfolding sample_peer_def by blast

lemma sample_peer_slot:
  "True \<in> set (map (\<lambda>st. serves 5 st) (sq_states (cli_sequences sample_peer)))"
  by (simp add: sample_peer_def ReserveSequence_def ClaimSequenceSlot_def initial_sequences_def
      empty_record_def serves_def maxServers_def numeral_eq_Suc AwaitAck_def Let_def)

theorem client_server_resynchronise_witness:
  "\<exists>ack data c'. FrameOut (Id29 ack) data \<in>
      set (snd (srv_step (SrvReceive (Id29 (MakeCanId command 2 1 5)) [9, 1]) sample_server)) \<and>
    cli_apply (CliReceive (Id29 ack) data) sample_peer = Some c'"
proof -
  have "tx_current (srv_transport sample_server) = None" "cfg_nodeId (srv_config sample_server) = 5"
    by (simp_all add: sample_server_def sample_config_def CanFrameTransport_def)
  moreover have "uses_system_category sample_peer" "cli_isoTp sample_peer = None"
    by (simp_all add: sample_peer_def uses_system_category_def sample_client_fields
        system_client_def CanCategoryClient_def)
  ultimately show ?thesis
    using client_server_resynchronise [of sample_server "MakeCanId command 2 1 5" sample_category 9
        sample_peer 5 "[1]", OF sample_server_inv _ _ _ _ _ _ _ _ sample_peer_inv _ _ _ _ _ sample_peer_slot]
      sample_frame_admissible [of 5] sample_find
    by (auto simp: IsCommandMessageType_def canLastCommandMessageTypeId_def IsEmergencyId_def)
qed

end
