(* ===== verification/FirmwareUpgrade.thy ===== *)
theory FirmwareUpgrade
  imports CategoryClient
begin

text \<open>
  The firmware upgrade category, \<^verbatim>\<open>can-lite/categories/firmware_upgrade\<close>: the server's handlers,
  which pass each request to the single observer and send a response and an acknowledgement for
  each result, the session timer, and the client's commands and response handlers.

  The observers are code of the application, parameters of the model.  The server's observer gets
  a function \<^verbatim>\<open>onResult\<close> with each request, which it may call at once, later, more than once or
  never: here it returns the results of the calls it makes at once, and a later call is one of
  the operations \<open>Complete...\<close> on its own.  The client's observer may send commands when it is
  notified: it is a program.  \<open>fws_now\<close> is the clock of the timer service.
\<close>

section \<open>Definitions\<close>

definition firmwareUpgradeCategoryId :: u8 where "firmwareUpgradeCategoryId = 0x01"

definition fwuBeginUpgradeId :: u8 where "fwuBeginUpgradeId = 0x00"
definition fwuDataBlockId :: u8 where "fwuDataBlockId = 0x01"
definition fwuVerifyId :: u8 where "fwuVerifyId = 0x02"
definition fwuActivateId :: u8 where "fwuActivateId = 0x03"
definition fwuAbortId :: u8 where "fwuAbortId = 0x04"
definition fwuQueryProgressId :: u8 where "fwuQueryProgressId = 0x05"

definition fwuBeginResponseId :: u8 where "fwuBeginResponseId = 0x80"
definition fwuDataBlockAckId :: u8 where "fwuDataBlockAckId = 0x81"
definition fwuVerifyResponseId :: u8 where "fwuVerifyResponseId = 0x82"
definition fwuActivateResponseId :: u8 where "fwuActivateResponseId = 0x83"
definition fwuProgressResponseId :: u8 where "fwuProgressResponseId = 0x85"

lemmas fwu_ids = firmwareUpgradeCategoryId_def fwuBeginUpgradeId_def fwuDataBlockId_def
  fwuVerifyId_def fwuActivateId_def fwuAbortId_def fwuQueryProgressId_def fwuBeginResponseId_def
  fwuDataBlockAckId_def fwuVerifyResponseId_def fwuActivateResponseId_def fwuProgressResponseId_def

datatype FwuState = fwu_idle | fwu_receiving | fwu_verifying | fwu_complete | fwu_error

fun FwuState_code :: "FwuState \<Rightarrow> u8" where
  "FwuState_code fwu_idle = 0"
| "FwuState_code fwu_receiving = 1"
| "FwuState_code fwu_verifying = 2"
| "FwuState_code fwu_complete = 3"
| "FwuState_code fwu_error = 4"

datatype FwuError =
    fwu_ok | fwu_busy | fwu_invalidSize | fwu_sequenceError | fwu_writeError | fwu_crcMismatch
  | fwu_notReady | fwu_invalidState | fwu_sessionTimeout

fun FwuError_code :: "FwuError \<Rightarrow> u8" where
  "FwuError_code fwu_ok = 0"
| "FwuError_code fwu_busy = 1"
| "FwuError_code fwu_invalidSize = 2"
| "FwuError_code fwu_sequenceError = 3"
| "FwuError_code fwu_writeError = 4"
| "FwuError_code fwu_crcMismatch = 5"
| "FwuError_code fwu_notReady = 6"
| "FwuError_code fwu_invalidState = 7"
| "FwuError_code fwu_sessionTimeout = 8"

text \<open>The casts of the client, made only on values that \<open>IsFwuError\<close> and \<open>IsFwuState\<close> accept.\<close>

definition IsFwuError :: "u8 \<Rightarrow> bool" where
  "IsFwuError v \<longleftrightarrow> v \<le> FwuError_code fwu_sessionTimeout"

definition IsFwuState :: "u8 \<Rightarrow> bool" where
  "IsFwuState v \<longleftrightarrow> v \<le> FwuState_code fwu_error"

definition FwuError_cast :: "u8 \<Rightarrow> FwuError" where
  "FwuError_cast v =
     [fwu_ok, fwu_busy, fwu_invalidSize, fwu_sequenceError, fwu_writeError, fwu_crcMismatch,
      fwu_notReady, fwu_invalidState, fwu_sessionTimeout] ! unat v"

definition FwuState_cast :: "u8 \<Rightarrow> FwuState" where
  "FwuState_cast v = [fwu_idle, fwu_receiving, fwu_verifying, fwu_complete, fwu_error] ! unat v"

definition ToAckStatus :: "FwuError \<Rightarrow> CanAckStatus" where
  "ToAckStatus status = (if status = fwu_ok then ackSuccess else categoryError)"

section \<open>The server\<close>

record 'o fwu_observer =
  OnBeginUpgrade :: "u32 \<Rightarrow> 'o \<Rightarrow> (FwuError \<times> u16) list \<times> 'o"
  OnDataBlock :: "u16 \<Rightarrow> bytes \<Rightarrow> 'o \<Rightarrow> FwuError list \<times> 'o"
  OnVerify :: "u32 \<Rightarrow> 'o \<Rightarrow> FwuError list \<times> 'o"
  OnActivate :: "'o \<Rightarrow> FwuError list \<times> 'o"
  OnAbortUpgrade :: "'o \<Rightarrow> unit list \<times> 'o"
  OnQueryProgress :: "'o \<Rightarrow> (FwuState \<times> u16 \<times> u16) list \<times> 'o"
  OnSessionTimeout :: "'o \<Rightarrow> 'o"

record 'o fwu_server =
  fws_sessionTimeout :: time
  fws_sessionTimer :: timer
  fws_observer :: "'o fwu_observer option"
  fws_owner :: 'o
  fws_now :: time

definition StartSessionTimer :: "'o fwu_server \<Rightarrow> 'o fwu_server" where
  "StartSessionTimer s = s\<lparr>fws_sessionTimer := Some (fws_now s + fws_sessionTimeout s)\<rparr>"

definition StopSessionTimer :: "'o fwu_server \<Rightarrow> 'o fwu_server" where
  "StopSessionTimer s = s\<lparr>fws_sessionTimer := None\<rparr>"

text \<open>The timer is single shot: it no longer runs when its function is called.\<close>

definition HandleSessionTimeout :: "'o fwu_server \<Rightarrow> 'o fwu_server" where
  "HandleSessionTimeout s0 =
     (let s = s0\<lparr>fws_sessionTimer := None\<rparr> in
      case fws_observer s of
        None \<Rightarrow> s
      | Some observer \<Rightarrow> s\<lparr>fws_owner := OnSessionTimeout observer (fws_owner s)\<rparr>)"

text \<open>The functions that complete a request send, then go on with \<open>k\<close>.\<close>

type_synonym ('a, 'o) fwu_program = "('a server_call, 'o fwu_server) program"
type_synonym ('a, 'o) fwu_category = "('a server_call, 'o fwu_server) category"
type_synonym ('a, 'o) fwu_then = "'o fwu_server \<Rightarrow> ('a, 'o) fwu_program"

definition CompleteBeginUpgrade ::
    "('a, 'o) fwu_category \<Rightarrow> FwuError \<Rightarrow> u16 \<Rightarrow> 'o fwu_server \<Rightarrow> ('a, 'o) fwu_then \<Rightarrow> ('a, 'o) fwu_program" where
  "CompleteBeginUpgrade this status pageSize s k =
     (let s1 = (if status = fwu_ok then StartSessionTimer s else s);
        payload = WriteUInt16P pageSize (WriteUInt8P (FwuError_code status) CanPayloadWriter)
      in SendResponsePayload this fwuBeginResponseId payload
           (\<lambda>_. SendCommandAckC this fwuBeginUpgradeId (ToAckStatus status) (k s1)))"

definition CompleteDataBlock ::
    "('a, 'o) fwu_category \<Rightarrow> u16 \<Rightarrow> FwuError \<Rightarrow> 'o fwu_server \<Rightarrow> ('a, 'o) fwu_then \<Rightarrow> ('a, 'o) fwu_program" where
  "CompleteDataBlock this blockIndex status s k =
     (let s1 = (if status = fwu_ok then StartSessionTimer s else s);
        payload = WriteUInt16P blockIndex (WriteUInt8P (FwuError_code status) CanPayloadWriter)
      in SendResponsePayload this fwuDataBlockAckId payload
           (\<lambda>_. SendCommandAckC this fwuDataBlockId (ToAckStatus status) (k s1)))"

definition CompleteWithStatus ::
    "('a, 'o) fwu_category \<Rightarrow> u8 \<Rightarrow> u8 \<Rightarrow> FwuError \<Rightarrow> 'o fwu_server \<Rightarrow> ('a, 'o) fwu_then \<Rightarrow> ('a, 'o) fwu_program" where
  "CompleteWithStatus this commandId responseId status s k =
     (let payload = WriteUInt8P (FwuError_code status) CanPayloadWriter
      in SendResponsePayload this responseId payload
           (\<lambda>_. SendCommandAckC this commandId (ToAckStatus status) (k s)))"

definition CompleteVerify ::
    "('a, 'o) fwu_category \<Rightarrow> FwuError \<Rightarrow> 'o fwu_server \<Rightarrow> ('a, 'o) fwu_then \<Rightarrow> ('a, 'o) fwu_program" where
  "CompleteVerify this status s k = CompleteWithStatus this fwuVerifyId fwuVerifyResponseId status s k"

definition CompleteActivate ::
    "('a, 'o) fwu_category \<Rightarrow> FwuError \<Rightarrow> 'o fwu_server \<Rightarrow> ('a, 'o) fwu_then \<Rightarrow> ('a, 'o) fwu_program" where
  "CompleteActivate this status s k =
     CompleteWithStatus this fwuActivateId fwuActivateResponseId status s k"

definition CompleteAbort ::
    "('a, 'o) fwu_category \<Rightarrow> 'o fwu_server \<Rightarrow> ('a, 'o) fwu_then \<Rightarrow> ('a, 'o) fwu_program" where
  "CompleteAbort this s k = SendCommandAckC this fwuAbortId ackSuccess (k s)"

definition CompleteQueryProgress ::
    "('a, 'o) fwu_category \<Rightarrow> FwuState \<Rightarrow> u16 \<Rightarrow> u16 \<Rightarrow> 'o fwu_server \<Rightarrow> ('a, 'o) fwu_then \<Rightarrow> ('a, 'o) fwu_program" where
  "CompleteQueryProgress this state blocksReceived totalBlocks s k =
     (let payload = WriteUInt16P totalBlocks (WriteUInt16P blocksReceived
            (WriteUInt8P (FwuState_code state) CanPayloadWriter))
      in SendResponsePayload this fwuProgressResponseId payload
           (\<lambda>_. SendCommandAckC this fwuQueryProgressId ackSuccess (k s)))"

definition HandleBeginUpgrade ::
    "('a, 'o) fwu_category \<Rightarrow> ('a server_call, 'o fwu_server) handler" where
  "HandleBeginUpgrade this data s =
     (case ReadUInt32P (CanPayloadReader data) of
        (firmwareSize, reader) \<Rightarrow>
          if \<not> pr_valid reader then Return False s
          else case fws_observer s of
              None \<Rightarrow> CompleteBeginUpgrade this fwu_notReady 0 s (Return True)
            | Some observer \<Rightarrow>
                (case OnBeginUpgrade observer firmwareSize (fws_owner s) of
                   (results, owner) \<Rightarrow>
                     each_result (\<lambda>(status, pageSize). CompleteBeginUpgrade this status pageSize)
                       results (s\<lparr>fws_owner := owner\<rparr>) (Return True)))"

definition HandleDataBlock ::
    "('a, 'o) fwu_category \<Rightarrow> ('a server_call, 'o fwu_server) handler" where
  "HandleDataBlock this data s =
     (case ReadUInt16P (CanPayloadReader data) of
        (blockIndex, reader1) \<Rightarrow>
          case ReadRemainingP reader1 of
            (blockData, reader) \<Rightarrow>
              if \<not> pr_valid reader then Return False s
              else case fws_observer s of
                  None \<Rightarrow> CompleteDataBlock this blockIndex fwu_notReady s (Return True)
                | Some observer \<Rightarrow>
                    (case OnDataBlock observer blockIndex blockData (fws_owner s) of
                       (results, owner) \<Rightarrow>
                         each_result (CompleteDataBlock this blockIndex) results
                           (s\<lparr>fws_owner := owner\<rparr>) (Return True)))"

definition HandleVerify ::
    "('a, 'o) fwu_category \<Rightarrow> ('a server_call, 'o fwu_server) handler" where
  "HandleVerify this data s0 =
     (case ReadUInt32P (CanPayloadReader data) of
        (expectedCrc32, reader) \<Rightarrow>
          if \<not> pr_valid reader then Return False s0
          else
            let s = StopSessionTimer s0
            in case fws_observer s of
                 None \<Rightarrow> CompleteVerify this fwu_notReady s (Return True)
               | Some observer \<Rightarrow>
                   (case OnVerify observer expectedCrc32 (fws_owner s) of
                      (results, owner) \<Rightarrow>
                        each_result (CompleteVerify this) results (s\<lparr>fws_owner := owner\<rparr>) (Return True)))"

definition HandleActivate ::
    "('a, 'o) fwu_category \<Rightarrow> ('a server_call, 'o fwu_server) handler" where
  "HandleActivate this data s0 =
     (let s = StopSessionTimer s0
      in case fws_observer s of
           None \<Rightarrow> CompleteActivate this fwu_notReady s (Return True)
         | Some observer \<Rightarrow>
             (case OnActivate observer (fws_owner s) of
                (results, owner) \<Rightarrow>
                  each_result (CompleteActivate this) results (s\<lparr>fws_owner := owner\<rparr>) (Return True)))"

definition HandleAbort ::
    "('a, 'o) fwu_category \<Rightarrow> ('a server_call, 'o fwu_server) handler" where
  "HandleAbort this data s0 =
     (let s = StopSessionTimer s0
      in case fws_observer s of
           None \<Rightarrow> CompleteAbort this s (Return True)
         | Some observer \<Rightarrow>
             (case OnAbortUpgrade observer (fws_owner s) of
                (results, owner) \<Rightarrow>
                  each_result (\<lambda>_. CompleteAbort this) results (s\<lparr>fws_owner := owner\<rparr>) (Return True)))"

definition HandleQueryProgress ::
    "('a, 'o) fwu_category \<Rightarrow> ('a server_call, 'o fwu_server) handler" where
  "HandleQueryProgress this data s =
     (case fws_observer s of
        None \<Rightarrow> CompleteQueryProgress this fwu_idle 0 0 s (Return True)
      | Some observer \<Rightarrow>
          (case OnQueryProgress observer (fws_owner s) of
             (results, owner) \<Rightarrow>
               each_result (\<lambda>(state, blocksReceived, totalBlocks).
                   CompleteQueryProgress this state blocksReceived totalBlocks)
                 results (s\<lparr>fws_owner := owner\<rparr>) (Return True)))"

text \<open>A message reaches a handler through the server the category is registered with, which has set
  the category's acknowledger: \<open>registered\<close> is the object the handlers of the category refer to.\<close>

definition fwu_base :: "nat \<Rightarrow> ('a, 'o) fwu_category" where
  "fwu_base address = (CanCategoryServer address firmwareUpgradeCategoryId)\<lparr>cat_sequence := False\<rparr>"

definition FirmwareUpgradeCategoryServer :: "nat \<Rightarrow> ('a, 'o) fwu_category option" where
  "FirmwareUpgradeCategoryServer address =
     (let registered = SetAcknowledger (fwu_base address)
      in AddMessageTypes
           [CanMessageHandler fwuBeginUpgradeId (HandleBeginUpgrade registered),
            CanMessageHandler fwuDataBlockId (HandleDataBlock registered),
            CanMessageHandler fwuVerifyId (HandleVerify registered),
            CanMessageHandler fwuActivateId (HandleActivate registered),
            CanMessageHandler fwuAbortId (HandleAbort registered),
            CanMessageHandler fwuQueryProgressId (HandleQueryProgress registered)]
           (fwu_base address))"

section \<open>The client\<close>

record 'o fwu_client_observer =
  OnBeginResponse :: "FwuError \<Rightarrow> u16 \<Rightarrow> 'o \<Rightarrow> (client_call, 'o) program"
  OnDataBlockAck :: "FwuError \<Rightarrow> u16 \<Rightarrow> 'o \<Rightarrow> (client_call, 'o) program"
  OnVerifyResponse :: "FwuError \<Rightarrow> 'o \<Rightarrow> (client_call, 'o) program"
  OnActivateResponse :: "FwuError \<Rightarrow> 'o \<Rightarrow> (client_call, 'o) program"
  OnProgressResponse :: "FwuState \<Rightarrow> u16 \<Rightarrow> u16 \<Rightarrow> 'o \<Rightarrow> (client_call, 'o) program"

record 'o fwu_client =
  fwc_observer :: "'o fwu_client_observer option"
  fwc_owner :: 'o

type_synonym 'o fwu_client_category = "(client_call, 'o fwu_client) category"
type_synonym 'o fwu_client_program = "(client_call, 'o fwu_client) program"

definition SendBeginUpgrade ::
    "'o fwu_client_category \<Rightarrow> u16 \<Rightarrow> u32 \<Rightarrow> (bool \<Rightarrow> 'o fwu_client_program) \<Rightarrow> 'o fwu_client_program" where
  "SendBeginUpgrade this targetNodeId firmwareSize k =
     (let payload = WriteUInt32P firmwareSize CanPayloadWriter
      in SendCommandWithoutSequencePayload this targetNodeId fwuBeginUpgradeId payload command k)"

definition SendDataBlock ::
    "'o fwu_client_category \<Rightarrow> u16 \<Rightarrow> u16 \<Rightarrow> bytes \<Rightarrow> (bool \<Rightarrow> 'o fwu_client_program)
       \<Rightarrow> 'o fwu_client_program" where
  "SendDataBlock this targetNodeId blockIndex blockData k =
     (let payload = WriteBytesP blockData (WriteUInt16P blockIndex CanPayloadWriter)
      in SendCommandWithoutSequencePayload this targetNodeId fwuDataBlockId payload command k)"

definition SendVerify ::
    "'o fwu_client_category \<Rightarrow> u16 \<Rightarrow> u32 \<Rightarrow> (bool \<Rightarrow> 'o fwu_client_program) \<Rightarrow> 'o fwu_client_program" where
  "SendVerify this targetNodeId expectedCrc32 k =
     (let payload = WriteUInt32P expectedCrc32 CanPayloadWriter
      in SendCommandWithoutSequencePayload this targetNodeId fwuVerifyId payload command k)"

definition SendActivate ::
    "'o fwu_client_category \<Rightarrow> u16 \<Rightarrow> (bool \<Rightarrow> 'o fwu_client_program) \<Rightarrow> 'o fwu_client_program" where
  "SendActivate this targetNodeId k =
     SendCommandWithoutSequenceEmpty this targetNodeId fwuActivateId command k"

definition SendAbort ::
    "'o fwu_client_category \<Rightarrow> u16 \<Rightarrow> (bool \<Rightarrow> 'o fwu_client_program) \<Rightarrow> 'o fwu_client_program" where
  "SendAbort this targetNodeId k =
     SendCommandWithoutSequenceEmpty this targetNodeId fwuAbortId command k"

definition SendQueryProgress ::
    "'o fwu_client_category \<Rightarrow> u16 \<Rightarrow> (bool \<Rightarrow> 'o fwu_client_program) \<Rightarrow> 'o fwu_client_program" where
  "SendQueryProgress this targetNodeId k =
     SendCommandWithoutSequenceEmpty this targetNodeId fwuQueryProgressId command k"

text \<open>A handler notifies the observer, if there is one, and accepts the message.\<close>

primrec accepting :: "'o fwu_client \<Rightarrow> (client_call, 'o) program \<Rightarrow> 'o fwu_client_program" where
  "accepting s (Return accepted owner) = Return True (s\<lparr>fwc_owner := owner\<rparr>)"
| "accepting s (Call c k) = Call c (\<lambda>result. accepting s (k result))"

definition notify_fwu ::
    "('o fwu_client_observer \<Rightarrow> 'o \<Rightarrow> (client_call, 'o) program) \<Rightarrow> 'o fwu_client
       \<Rightarrow> 'o fwu_client_program" where
  "notify_fwu method s =
     (case fwc_observer s of
        None \<Rightarrow> Return True s
      | Some observer \<Rightarrow> accepting s (method observer (fwc_owner s)))"

definition HandleBeginResponse :: "(client_call, 'o fwu_client) handler" where
  "HandleBeginResponse data s =
     (case ReadUInt8P (CanPayloadReader data) of
        (status, reader1) \<Rightarrow>
          case ReadUInt16P reader1 of
            (pageSize, reader) \<Rightarrow>
              if \<not> pr_valid reader \<or> \<not> IsFwuError status then Return False s
              else notify_fwu (\<lambda>observer. OnBeginResponse observer (FwuError_cast status) pageSize) s)"

definition HandleDataBlockAck :: "(client_call, 'o fwu_client) handler" where
  "HandleDataBlockAck data s =
     (case ReadUInt8P (CanPayloadReader data) of
        (status, reader1) \<Rightarrow>
          case ReadUInt16P reader1 of
            (blockIndex, reader) \<Rightarrow>
              if \<not> pr_valid reader \<or> \<not> IsFwuError status then Return False s
              else notify_fwu (\<lambda>observer. OnDataBlockAck observer (FwuError_cast status) blockIndex) s)"

definition HandleVerifyResponse :: "(client_call, 'o fwu_client) handler" where
  "HandleVerifyResponse data s =
     (case ReadUInt8P (CanPayloadReader data) of
        (status, reader) \<Rightarrow>
          if \<not> pr_valid reader \<or> \<not> IsFwuError status then Return False s
          else notify_fwu (\<lambda>observer. OnVerifyResponse observer (FwuError_cast status)) s)"

definition HandleActivateResponse :: "(client_call, 'o fwu_client) handler" where
  "HandleActivateResponse data s =
     (case ReadUInt8P (CanPayloadReader data) of
        (status, reader) \<Rightarrow>
          if \<not> pr_valid reader \<or> \<not> IsFwuError status then Return False s
          else notify_fwu (\<lambda>observer. OnActivateResponse observer (FwuError_cast status)) s)"

definition HandleProgressResponse :: "(client_call, 'o fwu_client) handler" where
  "HandleProgressResponse data s =
     (case ReadUInt8P (CanPayloadReader data) of
        (state, reader1) \<Rightarrow>
          case ReadUInt16P reader1 of
            (blocksReceived, reader2) \<Rightarrow>
              case ReadUInt16P reader2 of
                (totalBlocks, reader) \<Rightarrow>
                  if \<not> pr_valid reader \<or> \<not> IsFwuState state then Return False s
                  else notify_fwu (\<lambda>observer. OnProgressResponse observer (FwuState_cast state)
                         blocksReceived totalBlocks) s)"

definition FirmwareUpgradeCategoryClient :: "nat \<Rightarrow> 'o fwu_client_category option" where
  "FirmwareUpgradeCategoryClient address =
     AddMessageTypes
       [CanMessageHandler fwuBeginResponseId HandleBeginResponse,
        CanMessageHandler fwuDataBlockAckId HandleDataBlockAck,
        CanMessageHandler fwuVerifyResponseId HandleVerifyResponse,
        CanMessageHandler fwuActivateResponseId HandleActivateResponse,
        CanMessageHandler fwuProgressResponseId HandleProgressResponse]
       (CanCategoryClient address firmwareUpgradeCategoryId)"

end
