(* ===== verification/FirmwareLaws.thy ===== *)
theory FirmwareLaws
  imports FirmwareUpgrade
begin

text \<open>
  What the firmware upgrade category does.  The specification is a protocol of requests and
  results: \<open>fwu_parse\<close> reads a request off a message, \<open>fwu_reply\<close> is the answer of a server to it,
  \<open>result_calls\<close> the frames of a result.  Server and client implement the two ends of it, and the
  ends agree on the wire.
\<close>

section \<open>The protocol\<close>

datatype fwu_request =
    BeginUpgradeRequest u32
  | DataBlockRequest u16 bytes
  | VerifyRequest u32
  | ActivateRequest
  | AbortRequest
  | QueryProgressRequest

datatype fwu_result =
    BeginResult FwuError u16
  | BlockResult u16 FwuError
  | VerifyResult FwuError
  | ActivateResult FwuError
  | AbortResult
  | ProgressResult FwuState u16 u16

fun request_id :: "fwu_request \<Rightarrow> u8" where
  "request_id (BeginUpgradeRequest _) = 0"
| "request_id (DataBlockRequest _ _) = 1"
| "request_id (VerifyRequest _) = 2"
| "request_id ActivateRequest = 3"
| "request_id AbortRequest = 4"
| "request_id QueryProgressRequest = 5"

fun request_payload :: "fwu_request \<Rightarrow> bytes" where
  "request_payload (BeginUpgradeRequest n) = field_bytes (FU32 n)"
| "request_payload (DataBlockRequest index block) = field_bytes (FU16 index) @ block"
| "request_payload (VerifyRequest crc) = field_bytes (FU32 crc)"
| "request_payload _ = []"

definition fwu_parse :: "u8 \<Rightarrow> bytes \<Rightarrow> fwu_request option" where
  "fwu_parse m data =
     (if m = 0 then if length data < 4 then None else Some (BeginUpgradeRequest (ReadUInt32 data 0))
      else if m = 1 then if length data < 2 then None else Some (DataBlockRequest (ReadUInt16 data 0) (drop 2 data))
      else if m = 2 then if length data < 4 then None else Some (VerifyRequest (ReadUInt32 data 0))
      else if m = 3 then Some ActivateRequest
      else if m = 4 then Some AbortRequest
      else if m = 5 then Some QueryProgressRequest
      else None)"

text \<open>A result is a response frame, but for the end of an abort, and then an acknowledgement.\<close>

fun result_calls :: "fwu_result \<Rightarrow> 'a server_call list" where
  "result_calls (BeginResult e page) =
     [Send response 1 0x80 (FwuError_code e # field_bytes (FU16 page)) None, Ack 1 0 (ToAckStatus e)]"
| "result_calls (BlockResult index e) =
     [Send response 1 0x81 (FwuError_code e # field_bytes (FU16 index)) None, Ack 1 1 (ToAckStatus e)]"
| "result_calls (VerifyResult e) =
     [Send response 1 0x82 [FwuError_code e] None, Ack 1 2 (ToAckStatus e)]"
| "result_calls (ActivateResult e) =
     [Send response 1 0x83 [FwuError_code e] None, Ack 1 3 (ToAckStatus e)]"
| "result_calls AbortResult = [Ack 1 4 ackSuccess]"
| "result_calls (ProgressResult st received blocks) =
     [Send response 1 0x85 (FwuState_code st # field_bytes (FU16 received) @ field_bytes (FU16 blocks)) None,
      Ack 1 5 ackSuccess]"

text \<open>The session: a successful begin or block restarts its timer, and a request to verify, to
  activate or to abort ends it.\<close>

fun restarts_session :: "fwu_result \<Rightarrow> bool" where
  "restarts_session (BeginResult e _) \<longleftrightarrow> e = fwu_ok"
| "restarts_session (BlockResult _ e) \<longleftrightarrow> e = fwu_ok"
| "restarts_session _ \<longleftrightarrow> False"

fun ends_session :: "fwu_request \<Rightarrow> bool" where
  "ends_session (VerifyRequest _) \<longleftrightarrow> True"
| "ends_session ActivateRequest \<longleftrightarrow> True"
| "ends_session AbortRequest \<longleftrightarrow> True"
| "ends_session _ \<longleftrightarrow> False"

fun not_ready :: "fwu_request \<Rightarrow> fwu_result" where
  "not_ready (BeginUpgradeRequest _) = BeginResult fwu_notReady 0"
| "not_ready (DataBlockRequest index _) = BlockResult index fwu_notReady"
| "not_ready (VerifyRequest _) = VerifyResult fwu_notReady"
| "not_ready ActivateRequest = ActivateResult fwu_notReady"
| "not_ready AbortRequest = AbortResult"
| "not_ready QueryProgressRequest = ProgressResult fwu_idle 0 0"

fun ask :: "'o fwu_observer \<Rightarrow> fwu_request \<Rightarrow> 'o \<Rightarrow> fwu_result list \<times> 'o" where
  "ask ob (BeginUpgradeRequest n) own = apfst (map (\<lambda>(e, page). BeginResult e page)) (OnBeginUpgrade ob n own)"
| "ask ob (DataBlockRequest index block) own = apfst (map (BlockResult index)) (OnDataBlock ob index block own)"
| "ask ob (VerifyRequest crc) own = apfst (map VerifyResult) (OnVerify ob crc own)"
| "ask ob ActivateRequest own = apfst (map ActivateResult) (OnActivate ob own)"
| "ask ob AbortRequest own = apfst (map (\<lambda>_. AbortResult)) (OnAbortUpgrade ob own)"
| "ask ob QueryProgressRequest own =
     apfst (map (\<lambda>(st, received, blocks). ProgressResult st received blocks)) (OnQueryProgress ob own)"

definition results_of :: "fwu_request \<Rightarrow> 'o fwu_server \<Rightarrow> fwu_result list \<times> 'o" where
  "results_of r s =
     (case fws_observer s of
        None \<Rightarrow> ([not_ready r], fws_owner s)
      | Some ob \<Rightarrow> ask ob r (fws_owner s))"

definition fwu_reply :: "fwu_request \<Rightarrow> 'o fwu_server \<Rightarrow> 'a server_call list \<times> 'o fwu_server" where
  "fwu_reply r s =
     (case results_of r s of
        (results, owner) \<Rightarrow>
          (concat (map result_calls results),
           s\<lparr>fws_owner := owner,
             fws_sessionTimer :=
               if list_ex restarts_session results then Some (fws_now s + fws_sessionTimeout s)
               else if ends_session r then None else fws_sessionTimer s\<rparr>))"

section \<open>The server implements it\<close>

lemmas complete_defs = CompleteBeginUpgrade_def CompleteDataBlock_def CompleteVerify_def
  CompleteActivate_def CompleteAbort_def CompleteQueryProgress_def CompleteWithStatus_def

lemma writer_steps:
  "length m < 8 \<Longrightarrow> WriteUInt8P b \<lparr>pw_message = m, pw_valid = True\<rparr> =
     \<lparr>pw_message = m @ [b], pw_valid = True\<rparr>"
  "length m < 7 \<Longrightarrow> WriteUInt16P v \<lparr>pw_message = m, pw_valid = True\<rparr> =
     \<lparr>pw_message = m @ be16 v, pw_valid = True\<rparr>"
  "length m < 5 \<Longrightarrow> WriteUInt32P w \<lparr>pw_message = m, pw_valid = True\<rparr> =
     \<lparr>pw_message = m @ be32 w, pw_valid = True\<rparr>"
  using write_field_fits [of "\<lparr>pw_message = m, pw_valid = True\<rparr>" "FU8 b"]
    write_field_fits [of "\<lparr>pw_message = m, pw_valid = True\<rparr>" "FU16 v"]
    write_field_fits [of "\<lparr>pw_message = m, pw_valid = True\<rparr>" "FU32 w"]
  by (simp_all add: canMaxFramePayloadSize_def)

lemmas writing = CanPayloadWriter_def writer_steps

definition registered :: "('a, 'o) fwu_category \<Rightarrow> bool" where
  "registered c \<longleftrightarrow> cat_acknowledger c \<and> cat_id c = firmwareUpgradeCategoryId"

text \<open>What a completion does: the calls of its result, then the rest in the state it leaves.\<close>

definition completes ::
    "('r \<Rightarrow> fwu_result) \<Rightarrow> ('r \<Rightarrow> 'o fwu_server \<Rightarrow> ('a, 'o) fwu_then \<Rightarrow> ('a, 'o) fwu_program) \<Rightarrow> bool" where
  "completes result onResult \<longleftrightarrow>
     (\<forall>answer r s k. run_calls answer (onResult r s k) =
        apfst ((@) (result_calls (result r)))
          (run_calls answer (k (if restarts_session (result r) then StartSessionTimer s else s))))"

lemma completions:
  assumes "registered this"
  shows "completes (\<lambda>(e, page). BeginResult e page) (\<lambda>(e, page). CompleteBeginUpgrade this e page)"
    and "completes (BlockResult index) (CompleteDataBlock this index)"
    and "completes VerifyResult (CompleteVerify this)"
    and "completes ActivateResult (CompleteActivate this)"
    and "completes (\<lambda>_. AbortResult) (\<lambda>_. CompleteAbort this)"
    and "completes (\<lambda>(st, received, blocks). ProgressResult st received blocks)
      (\<lambda>(st, received, blocks). CompleteQueryProgress this st received blocks)"
  using assms
  by (auto simp: completes_def complete_defs writing registered_def SendResponsePayload_def
      SendResponse_def SendCommandAckC_def Let_def fwu_ids split: prod.split)

lemma completes_each:
  assumes "completes result onResult"
  shows "run_calls answer (each_result onResult rs s (Return True)) =
    (concat (map result_calls (map result rs)), True,
     if list_ex restarts_session (map result rs) then StartSessionTimer s else s)"
proof (induction rs arbitrary: s)
  case Nil
  then show ?case by simp
next
  case (Cons r rs)
  then show ?case using assms by (auto simp: completes_def StartSessionTimer_def)
qed

text \<open>Every handler has this shape, in the state \<open>s\<close> that its start leaves.\<close>

lemma handler_answers:
  assumes "completes result onResult"
  shows "run_calls answer
      (case fws_observer s of
         None \<Rightarrow> onResult r0 s (Return True)
       | Some ob \<Rightarrow> (case f ob (fws_owner s) of
           (rs, own) \<Rightarrow> each_result onResult rs (s\<lparr>fws_owner := own\<rparr>) (Return True))) =
    (case (case fws_observer s of
             None \<Rightarrow> ([result r0], fws_owner s)
           | Some ob \<Rightarrow> apfst (map result) (f ob (fws_owner s))) of
       (results, own) \<Rightarrow> (concat (map result_calls results), True, s\<lparr>fws_owner := own,
          fws_sessionTimer := if list_ex restarts_session results then Some (fws_now s + fws_sessionTimeout s)
            else fws_sessionTimer s\<rparr>))"
  using assms
  by (auto simp: completes_each [OF assms] completes_def StartSessionTimer_def split: option.split prod.split)

lemma fresh_reader [simp]:
  "pr_valid (CanPayloadReader data)" "pr_message (CanPayloadReader data) = data"
  "pr_offset (CanPayloadReader data) = 0"
  by (simp_all add: CanPayloadReader_def)

lemma reader_starts:
  "ReadUInt32P (CanPayloadReader data) =
     (if length data < 4 then (0, (CanPayloadReader data)\<lparr>pr_valid := False\<rparr>)
      else (ReadUInt32 data 0, (CanPayloadReader data)\<lparr>pr_offset := 4\<rparr>))"
  "ReadUInt16P (CanPayloadReader data) =
     (if length data < 2 then (0, (CanPayloadReader data)\<lparr>pr_valid := False\<rparr>)
      else (ReadUInt16 data 0, (CanPayloadReader data)\<lparr>pr_offset := 2\<rparr>))"
  by (auto simp: reader_defs Take_def CanPayloadReader_def)

definition fwu_handlers :: "('a, 'o) fwu_category \<Rightarrow> ('a server_call, 'o fwu_server) message_type list" where
  "fwu_handlers this =
     [CanMessageHandler fwuBeginUpgradeId (HandleBeginUpgrade this),
      CanMessageHandler fwuDataBlockId (HandleDataBlock this),
      CanMessageHandler fwuVerifyId (HandleVerify this),
      CanMessageHandler fwuActivateId (HandleActivate this),
      CanMessageHandler fwuAbortId (HandleAbort this),
      CanMessageHandler fwuQueryProgressId (HandleQueryProgress this)]"

definition fwu_dispatch ::
    "u8 \<Rightarrow> bytes \<Rightarrow> ('a, 'o) fwu_category \<Rightarrow> 'o fwu_server \<Rightarrow> ('a, 'o) fwu_program option" where
  "fwu_dispatch m data this s =
     (if m = 0 then Some (HandleBeginUpgrade this data s)
      else if m = 1 then Some (HandleDataBlock this data s)
      else if m = 2 then Some (HandleVerify this data s)
      else if m = 3 then Some (HandleActivate this data s)
      else if m = 4 then Some (HandleAbort this data s)
      else if m = 5 then Some (HandleQueryProgress this data s)
      else None)"

lemma FirmwareUpgradeCategoryServer_eq:
  "FirmwareUpgradeCategoryServer address =
     Some ((fwu_base address)\<lparr>cat_messageTypes := fwu_handlers (SetAcknowledger (fwu_base address))\<rparr>)"
  by (simp add: FirmwareUpgradeCategoryServer_def fwu_handlers_def AddMessageType_def Let_def
      fwu_base_def CanCategoryServer_def CanMessageHandler_def fwu_ids)

lemma fwu_server_dispatch:
  assumes "FirmwareUpgradeCategoryServer address = Some c"
  shows "HandleMessage m data c s = fwu_dispatch m data (SetAcknowledger (fwu_base address)) s"
  using assms
  by (auto simp: FirmwareUpgradeCategoryServer_eq HandleMessage_def fwu_dispatch_def fwu_handlers_def
      CanMessageHandler_def Handle_def fwu_ids)

lemma fwu_base_registered: "registered (SetAcknowledger (fwu_base address))"
  by (simp add: registered_def SetAcknowledger_def fwu_base_def CanCategoryServer_def)

lemma StopSessionTimer_fields [simp]:
  "fws_observer (StopSessionTimer s) = fws_observer s" "fws_owner (StopSessionTimer s) = fws_owner s"
  by (simp_all add: StopSessionTimer_def)

lemmas handler_defs = HandleBeginUpgrade_def HandleDataBlock_def HandleVerify_def HandleActivate_def
  HandleAbort_def HandleQueryProgress_def

lemma parsed:
  "fwu_parse m data = Some r \<longleftrightarrow>
     m = 0 \<and> 4 \<le> length data \<and> r = BeginUpgradeRequest (ReadUInt32 data 0) \<or>
     m = 1 \<and> 2 \<le> length data \<and> r = DataBlockRequest (ReadUInt16 data 0) (drop 2 data) \<or>
     m = 2 \<and> 4 \<le> length data \<and> r = VerifyRequest (ReadUInt32 data 0) \<or>
     m = 3 \<and> r = ActivateRequest \<or> m = 4 \<and> r = AbortRequest \<or> m = 5 \<and> r = QueryProgressRequest"
  by (auto simp: fwu_parse_def)

lemma handler_serves:
  assumes reg: "registered this" and "fwu_dispatch m data this s = Some p" and "fwu_parse m data = Some r"
  shows "run_calls answer p = (case fwu_reply r s of (calls, s') \<Rightarrow> (calls, True, s'))"
proof -
  note answers = completions [OF reg, THEN handler_answers]
  note simps = fwu_dispatch_def fwu_reply_def results_of_def handler_defs reader_starts
    ReadRemainingP_def Let_def
  from assms(3) [unfolded parsed] show ?thesis
  proof (elim disjE conjE)
    assume "m = 0" "4 \<le> length data" "r = BeginUpgradeRequest (ReadUInt32 data 0)"
    then show ?thesis
      using assms(2) answers(1) [of answer "(fwu_notReady, 0)" s "\<lambda>ob. OnBeginUpgrade ob (ReadUInt32 data 0)"]
      by (auto simp: simps split: option.splits prod.splits)
  next
    assume "m = 1" "2 \<le> length data" "r = DataBlockRequest (ReadUInt16 data 0) (drop 2 data)"
    then show ?thesis
      using assms(2) answers(2) [of answer "ReadUInt16 data 0" fwu_notReady s "\<lambda>ob. OnDataBlock ob (ReadUInt16 data 0) (drop 2 data)"]
      by (auto simp: simps split: option.splits prod.splits)
  next
    assume "m = 2" "4 \<le> length data" "r = VerifyRequest (ReadUInt32 data 0)"
    then show ?thesis
      using assms(2) answers(3) [of answer fwu_notReady "StopSessionTimer s" "\<lambda>ob. OnVerify ob (ReadUInt32 data 0)"]
      by (auto simp: simps StopSessionTimer_def split: option.splits prod.splits)
  next
    assume "m = 3" "r = ActivateRequest"
    then show ?thesis
      using assms(2) answers(4) [of answer fwu_notReady "StopSessionTimer s" OnActivate]
      by (auto simp: simps StopSessionTimer_def split: option.splits prod.splits)
  next
    assume "m = 4" "r = AbortRequest"
    then show ?thesis
      using assms(2) answers(5) [of answer "StopSessionTimer s" OnAbortUpgrade]
      by (auto simp: simps StopSessionTimer_def split: option.splits prod.splits)
  next
    assume "m = 5" "r = QueryProgressRequest"
    then show ?thesis
      using assms(2) answers(6) [of answer "(fwu_idle, 0, 0)" s OnQueryProgress]
      by (auto simp: simps split: option.splits prod.splits)
  qed
qed

lemma handler_refuses:
  assumes "fwu_parse m data = None"
  shows "fwu_dispatch m data this s = (if m < 3 then Some (Return False s) else None)"
proof -
  have "(m < 3) = (m = 0 \<or> m = 1 \<or> m = 2)" by unat_arith
  then show ?thesis using assms
    by (auto simp: fwu_parse_def fwu_dispatch_def handler_defs reader_starts ReadRemainingP_def
        split: if_splits)
qed

section \<open>The client implements it\<close>

fun send_request ::
    "'o fwu_client_category \<Rightarrow> u16 \<Rightarrow> fwu_request \<Rightarrow> (bool \<Rightarrow> 'o fwu_client_program)
       \<Rightarrow> 'o fwu_client_program" where
  "send_request this node (BeginUpgradeRequest n) k = SendBeginUpgrade this node n k"
| "send_request this node (DataBlockRequest index block) k = SendDataBlock this node index block k"
| "send_request this node (VerifyRequest crc) k = SendVerify this node crc k"
| "send_request this node ActivateRequest k = SendActivate this node k"
| "send_request this node AbortRequest k = SendAbort this node k"
| "send_request this node QueryProgressRequest k = SendQueryProgress this node k"

fun told :: "fwu_result \<Rightarrow> 'o fwu_client_observer \<Rightarrow> 'o \<Rightarrow> (client_call, 'o) program" where
  "told (BeginResult e page) ob = OnBeginResponse ob e page"
| "told (BlockResult index e) ob = OnDataBlockAck ob e index"
| "told (VerifyResult e) ob = OnVerifyResponse ob e"
| "told (ActivateResult e) ob = OnActivateResponse ob e"
| "told AbortResult ob = Return True"
| "told (ProgressResult st received blocks) ob = OnProgressResponse ob st received blocks"

definition fits_request :: "fwu_request \<Rightarrow> bool" where
  "fits_request r \<longleftrightarrow> length (request_payload r) \<le> 8"

lemmas send_defs = SendBeginUpgrade_def SendDataBlock_def SendVerify_def SendActivate_def SendAbort_def
  SendQueryProgress_def SendCommandWithoutSequencePayload_def SendCommandWithoutSequenceEmpty_def
  SendCommandWithoutSequence_def

lemma request_sent:
  assumes "cat_id this = 1"
  shows "run_calls answer (send_request this node r (\<lambda>sent. Return sent s)) =
    (if fits_request r
     then ([ClientSend node command 1 (request_id r) (request_payload r)],
       answer (ClientSend node command 1 (request_id r) (request_payload r)), s)
     else ([], False, s))"
proof (cases r)
  case (DataBlockRequest index block)
  have "WriteBytesP block \<lparr>pw_message = be16 index, pw_valid = True\<rparr> =
      (if length block \<le> 6 then \<lparr>pw_message = be16 index @ block, pw_valid = True\<rparr>
       else \<lparr>pw_message = be16 index, pw_valid = False\<rparr>)"
    using WriteBytesP_fits [of "\<lparr>pw_message = be16 index, pw_valid = True\<rparr>" block]
      WriteBytesP_refused [of "\<lparr>pw_message = be16 index, pw_valid = True\<rparr>" block]
    by (simp add: canMaxFramePayloadSize_def)
  then show ?thesis using DataBlockRequest assms
    by (auto simp: send_defs writing fits_request_def fwu_ids)
qed (use assms in \<open>simp_all add: send_defs writing fits_request_def fwu_ids\<close>)

lemma request_parsed: "fwu_parse (request_id r) (request_payload r @ ys) =
    Some (case r of DataBlockRequest index block \<Rightarrow> DataBlockRequest index (block @ ys) | _ \<Rightarrow> r)"
  using ReadUInt32_at [of "[]" _ ys] ReadUInt16_at [of "[]" _ ys]
    ReadUInt16_at [of "[]" _ "_ @ ys"]
  by (cases r) (simp_all add: fwu_parse_def be16_def)

lemma casts [simp]:
  "FwuError_cast (FwuError_code e) = e" "IsFwuError (FwuError_code e)"
  "FwuState_cast (FwuState_code st) = st" "IsFwuState (FwuState_code st)"
  by (cases e; cases st; simp add: FwuError_cast_def IsFwuError_def FwuState_cast_def IsFwuState_def)+

lemma responses_read:
  "ReadUInt8P (CanPayloadReader (b # rest)) = (b, (CanPayloadReader (b # rest))\<lparr>pr_offset := 1\<rparr>)"
  "ReadUInt16P ((CanPayloadReader (b # be16 v @ rest))\<lparr>pr_offset := 1\<rparr>) =
     (v, (CanPayloadReader (b # be16 v @ rest))\<lparr>pr_offset := 3\<rparr>)"
  "ReadUInt16P ((CanPayloadReader (b # be16 v @ be16 w @ rest))\<lparr>pr_offset := 3\<rparr>) =
     (w, (CanPayloadReader (b # be16 v @ be16 w @ rest))\<lparr>pr_offset := 5\<rparr>)"
  using ReadUInt16_at [of "[b]" v rest] ReadUInt16_at [of "b # be16 v" w rest]
  by (simp_all add: reader_defs Take_def)

lemma FirmwareUpgradeCategoryClient_eq:
  "FirmwareUpgradeCategoryClient address =
     Some ((CanCategoryClient address firmwareUpgradeCategoryId)\<lparr>cat_messageTypes :=
       [CanMessageHandler fwuBeginResponseId HandleBeginResponse,
        CanMessageHandler fwuDataBlockAckId HandleDataBlockAck,
        CanMessageHandler fwuVerifyResponseId HandleVerifyResponse,
        CanMessageHandler fwuActivateResponseId HandleActivateResponse,
        CanMessageHandler fwuProgressResponseId HandleProgressResponse]\<rparr>)"
  by (simp add: FirmwareUpgradeCategoryClient_def AddMessageType_def CanCategoryClient_def
      CanMessageHandler_def fwu_ids)

lemma response_told:
  assumes "FirmwareUpgradeCategoryClient address = Some c"
    and "Send response 1 m payload None \<in> set (result_calls res :: 'a server_call list)"
  shows "HandleMessage m payload c s = Some (notify_fwu (told res) s)"
  using assms responses_read(2) [of _ _ "[]"] responses_read(3) [of _ _ _ "[]"]
  by (cases res) (auto simp: FirmwareUpgradeCategoryClient_eq HandleMessage_def CanMessageHandler_def
      Handle_def fwu_ids HandleBeginResponse_def HandleDataBlockAck_def HandleVerifyResponse_def
      HandleActivateResponse_def HandleProgressResponse_def responses_read [unfolded One_nat_def] notify_fwu_def
      split: option.split)

section \<open>Properties\<close>

text \<open>C19: The firmware upgrade server serves every message as the protocol says: a message that is no
  request is refused or unknown and changes nothing; a request is accepted, passed to the observer
  with its arguments (or answered as not ready without one), and each result sends its response and
  its acknowledgement in order; the session timer is restarted by a successful begin or block, and
  stopped by a request to verify, to activate or to abort.\<close>

theorem firmware_requests_served:
  fixes c :: "('a, 'o) fwu_category"
  assumes "FirmwareUpgradeCategoryServer address = Some c"
  shows "case fwu_parse m data of
      None \<Rightarrow> HandleMessage m data c s = (if m < 3 then Some (Return False s) else None)
    | Some r \<Rightarrow> \<exists>p. HandleMessage m data c s = Some p \<and>
        run_calls answer p = (case fwu_reply r s of (calls, s') \<Rightarrow> (calls, True, s'))"
proof (cases "fwu_parse m data")
  case None
  then show ?thesis by (simp add: fwu_server_dispatch [OF assms] handler_refuses)
next
  case (Some r)
  then obtain p where "fwu_dispatch m data (SetAcknowledger (fwu_base address) :: ('a, 'o) fwu_category) s = Some p"
    by (auto simp: parsed fwu_dispatch_def)
  with Some handler_serves [OF fwu_base_registered this Some, of answer] show ?thesis
    by (simp add: fwu_server_dispatch [OF assms])
qed

definition sample_observer :: "nat fwu_observer" where
  "sample_observer =
     \<lparr>OnBeginUpgrade = \<lambda>n own. ([(fwu_ok, 256)], own + 1), OnDataBlock = \<lambda>i d own. ([fwu_ok], own + length d),
      OnVerify = \<lambda>crc own. ([], own), OnActivate = \<lambda>own. ([fwu_invalidState], own),
      OnAbortUpgrade = \<lambda>own. ([()], own), OnQueryProgress = \<lambda>own. ([(fwu_receiving, 1, 2)], own),
      OnSessionTimeout = \<lambda>own. own\<rparr>"

definition sample_fwu :: "nat fwu_server" where
  "sample_fwu = \<lparr>fws_sessionTimeout = 30, fws_sessionTimer = None, fws_observer = Some sample_observer,
     fws_owner = 0, fws_now = 100\<rparr>"

theorem firmware_requests_served_witness:
  "\<exists>c p. FirmwareUpgradeCategoryServer 7 = Some c \<and> HandleMessage 1 [0, 3, 9, 8] c sample_fwu = Some p \<and>
     run_calls (\<lambda>_. True) p = ([Send response 1 0x81 [0, 0, 3] None, Ack 1 1 ackSuccess], True,
       sample_fwu\<lparr>fws_owner := 2, fws_sessionTimer := Some 130\<rparr>)"
proof -
  obtain c :: "('a, nat) fwu_category" where c: "FirmwareUpgradeCategoryServer 7 = Some c"
    by (simp add: FirmwareUpgradeCategoryServer_eq)
  have parse: "fwu_parse 1 [0, 3, 9, 8] = Some (DataBlockRequest 3 [9, 8])"
    by (simp add: fwu_parse_def ReadUInt16_def Readable_def)
  from firmware_requests_served [OF c, of 1 "[0, 3, 9, 8]" sample_fwu "\<lambda>_. True"] parse obtain p
    where p: "HandleMessage 1 [0, 3, 9, 8] c sample_fwu = Some p"
      "run_calls (\<lambda>_. True) p = (case fwu_reply (DataBlockRequest 3 [9, 8]) sample_fwu of (calls, s') \<Rightarrow> (calls, True, s'))" by auto
  have "fwu_reply (DataBlockRequest 3 [9, 8]) sample_fwu =
      ([Send response 1 0x81 [0, 0, 3] None :: 'a server_call, Ack 1 1 ackSuccess],
       sample_fwu\<lparr>fws_owner := 2, fws_sessionTimer := Some 130\<rparr>)"
    by (simp add: fwu_reply_def results_of_def sample_fwu_def sample_observer_def be16_def ToAckStatus_def)
  with c p show ?thesis by auto
qed

text \<open>C20: The two ends agree on the wire.  A request that the client sends goes out as one frame,
  which the server reads as that very request; a block of more than six bytes is not sent at all.
  The response that the server sends for a result is the client's notification of that very result,
  status and values included.\<close>

theorem firmware_wire_agreement:
  assumes "FirmwareUpgradeCategoryClient address = Some c"
  shows "(\<forall>r. run_calls answer (send_request c node r (\<lambda>sent. Return sent s)) =
      (if fits_request r
       then ([ClientSend node command 1 (request_id r) (request_payload r)],
         answer (ClientSend node command 1 (request_id r) (request_payload r)), s)
       else ([], False, s)) \<and>
      fwu_parse (request_id r) (request_payload r) = Some r) \<and>
    (\<forall>index block. fits_request (DataBlockRequest index block) = (length block \<le> 6)) \<and>
    (\<forall>res m payload. Send response 1 m payload None \<in> set (result_calls res :: 'a server_call list) \<longrightarrow>
      HandleMessage m payload c s = Some (notify_fwu (told res) s))"
proof -
  have "cat_id c = 1"
    using assms by (auto simp: FirmwareUpgradeCategoryClient_eq CanCategoryClient_def fwu_ids)
  moreover have "fwu_parse (request_id r) (request_payload r) = Some r" for r
    using request_parsed [of r "[]"] by (cases r) simp_all
  ultimately show ?thesis
    by (simp add: request_sent response_told [OF assms]) (simp add: fits_request_def)
qed

theorem firmware_wire_agreement_witness:
  "\<exists>c :: nat fwu_client_category. FirmwareUpgradeCategoryClient 3 = Some c \<and>
     fwu_parse (request_id (VerifyRequest 77)) (request_payload (VerifyRequest 77)) = Some (VerifyRequest 77) \<and>
     HandleMessage 0x82 [0] c \<lparr>fwc_observer = None, fwc_owner = 0\<rparr> = Some (Return True \<lparr>fwc_observer = None, fwc_owner = 0\<rparr>)"
proof -
  obtain c :: "nat fwu_client_category" where c: "FirmwareUpgradeCategoryClient 3 = Some c"
    by (simp add: FirmwareUpgradeCategoryClient_eq)
  let ?s = "\<lparr>fwc_observer = None, fwc_owner = 0 :: nat\<rparr>"
  have "Send response 1 0x82 [0] None \<in> set (result_calls (VerifyResult fwu_ok) :: nat server_call list)" by simp
  moreover have "notify_fwu (told (VerifyResult fwu_ok)) ?s = Return True ?s" by (simp add: notify_fwu_def)
  ultimately show ?thesis
    using c firmware_wire_agreement [OF c, of "\<lambda>_. True" 9 ?s] by metis
qed

end
