(* ===== verification/SlcanCodec.thy ===== *)
theory SlcanCodec
  imports ProtocolDefs
begin

text \<open>
  The text protocol of serial CAN adapters, \<^verbatim>\<open>can-lite/drivers/codec/SlcanCodec.cpp\<close>: commands to
  the adapter, and the decoder of the lines it sends.  A character is its byte.
\<close>

section \<open>Characters and constants\<close>

definition bell :: u8 where "bell = 0x07"
definition carriageReturn :: u8 where "carriageReturn = 0x0D"
definition standardIdDigits :: nat where "standardIdDigits = 3"
definition extendedIdDigits :: nat where "extendedIdDigits = 8"
definition standardIdMask :: u32 where "standardIdMask = 0x7ff"
definition extendedIdMask :: u32 where "extendedIdMask = 0x1fffffff"
definition slcanMaxCommandLength :: nat where "slcanMaxCommandLength = 32"
definition maxLineLength :: nat where "maxLineLength = 64"

definition ascii :: "char \<Rightarrow> u8" where "ascii c = of_char c"

definition bitrateCodes :: "(u32 \<times> u8) list" where
  "bitrateCodes =
     [(10000, ascii CHR ''0''), (20000, ascii CHR ''1''), (50000, ascii CHR ''2''),
      (100000, ascii CHR ''3''), (125000, ascii CHR ''4''), (250000, ascii CHR ''5''),
      (500000, ascii CHR ''6''), (800000, ascii CHR ''7''), (1000000, ascii CHR ''8'')]"

section \<open>Hexadecimal digits\<close>

definition HexDigit :: "u8 \<Rightarrow> u8 option" where
  "HexDigit character =
     (if ascii CHR ''0'' \<le> character \<and> character \<le> ascii CHR ''9'' then Some (character - ascii CHR ''0'')
      else if ascii CHR ''a'' \<le> character \<and> character \<le> ascii CHR ''f''
      then Some (character - ascii CHR ''a'' + 10)
      else if ascii CHR ''A'' \<le> character \<and> character \<le> ascii CHR ''F''
      then Some (character - ascii CHR ''A'' + 10)
      else None)"

fun parse_digits :: "bytes \<Rightarrow> nat \<Rightarrow> nat \<Rightarrow> u32 \<Rightarrow> u32 option" where
  "parse_digits text position 0 value = Some value"
| "parse_digits text position (Suc remaining) value =
     (case HexDigit (text ! position) of
        None \<Rightarrow> None
      | Some digit \<Rightarrow> parse_digits text (position + 1) remaining (push_bit 4 value OR ucast digit))"

definition ParseHex :: "bytes \<Rightarrow> nat \<Rightarrow> nat \<Rightarrow> u32 option" where
  "ParseHex text offset digits =
     (if length text < offset + digits then None else parse_digits text offset digits 0)"

definition hexDigits :: bytes where
  "hexDigits = map ascii ''0123456789ABCDEF''"

fun AppendHex :: "bytes \<Rightarrow> u32 \<Rightarrow> nat \<Rightarrow> bytes" where
  "AppendHex out value 0 = out"
| "AppendHex out value (Suc index) =
     AppendHex (out @ [hexDigits ! unat (drop_bit (4 * index) value AND 0xf)]) value index"

section \<open>Frames\<close>

record slcan_frame =
  sf_id :: u32
  sf_extended :: bool
  sf_remote :: bool
  sf_data :: bytes

definition IsFrameType :: "u8 \<Rightarrow> bool" where
  "IsFrameType type \<longleftrightarrow>
     type = ascii CHR ''t'' \<or> type = ascii CHR ''T'' \<or> type = ascii CHR ''r'' \<or> type = ascii CHR ''R''"

fun ParsePayload :: "bytes \<Rightarrow> nat \<Rightarrow> nat \<Rightarrow> bytes \<Rightarrow> bytes option" where
  "ParsePayload line offset 0 data = Some data"
| "ParsePayload line offset (Suc remaining) data =
     (case ParseHex line offset 2 of
        None \<Rightarrow> None
      | Some byte \<Rightarrow> ParsePayload line (offset + 2) remaining (data @ [ucast byte]))"

definition ParseFrame :: "bytes \<Rightarrow> slcan_frame option" where
  "ParseFrame line =
     (let type = hd line;
        extended = (type = ascii CHR ''T'' \<or> type = ascii CHR ''R'');
        remote = (type = ascii CHR ''r'' \<or> type = ascii CHR ''R'');
        idDigits = (if extended then extendedIdDigits else standardIdDigits);
        len = (if length line > 1 + idDigits then HexDigit (line ! (1 + idDigits)) else None)
      in case ParseHex line 1 idDigits of
           None \<Rightarrow> None
         | Some i \<Rightarrow>
             (case len of
                None \<Rightarrow> None
              | Some n \<Rightarrow>
                  if n > 8 \<or> i > (if extended then extendedIdMask else standardIdMask) then None
                  else if remote
                  then Some \<lparr>sf_id = i, sf_extended = extended, sf_remote = remote, sf_data = []\<rparr>
                  else (case ParsePayload line (2 + idDigits) (unat n) [] of
                          None \<Rightarrow> None
                        | Some data \<Rightarrow>
                            Some \<lparr>sf_id = i, sf_extended = extended, sf_remote = remote, sf_data = data\<rparr>)))"

section \<open>Commands\<close>

definition SlcanBitrateCode :: "u32 \<Rightarrow> u8 option" where
  "SlcanBitrateCode bitrate = map_of bitrateCodes bitrate"

definition SlcanOpenCommands :: "u8 \<Rightarrow> bytes" where
  "SlcanOpenCommands bitrateCode =
     [ascii CHR ''C'', carriageReturn, ascii CHR ''S''] @ [bitrateCode] @
     [carriageReturn, ascii CHR ''O'', carriageReturn]"

definition SlcanCloseCommand :: bytes where
  "SlcanCloseCommand = [ascii CHR ''C'', carriageReturn]"

fun append_bytes :: "bytes \<Rightarrow> bytes \<Rightarrow> bytes" where
  "append_bytes cmd [] = cmd"
| "append_bytes cmd (byte # data) = append_bytes (AppendHex cmd (ucast byte) 2) data"

definition EncodeSlcanFrame :: "u32 \<Rightarrow> bool \<Rightarrow> bytes \<Rightarrow> bytes" where
  "EncodeSlcanFrame i extended data =
     (let cmd = [if extended then ascii CHR ''T'' else ascii CHR ''t''];
        cmd = AppendHex cmd (i AND (if extended then extendedIdMask else standardIdMask))
          (if extended then extendedIdDigits else standardIdDigits);
        cmd = cmd @ [ascii CHR ''0'' + of_nat (length data)]
      in append_bytes cmd data @ [carriageReturn])"

section \<open>The decoder\<close>

datatype slcan_event = SlcanReceived slcan_frame | SlcanAcknowledged | SlcanError

record slcan_decoder =
  sd_line :: bytes
  sd_discarding :: bool

definition slcan_decoder_init :: slcan_decoder where
  "slcan_decoder_init = \<lparr>sd_line = [], sd_discarding = False\<rparr>"

definition ResetDecoder :: "slcan_decoder \<Rightarrow> slcan_decoder" where
  "ResetDecoder d = d\<lparr>sd_line := [], sd_discarding := False\<rparr>"

definition ParseLine :: "bytes \<Rightarrow> slcan_event option" where
  "ParseLine line =
     (if line = [] \<or> line = [ascii CHR ''z''] \<or> line = [ascii CHR ''Z''] then Some SlcanAcknowledged
      else if IsFrameType (hd line)
      then (case ParseFrame line of Some frame \<Rightarrow> Some (SlcanReceived frame) | None \<Rightarrow> None)
      else None)"

definition Feed :: "u8 \<Rightarrow> slcan_decoder \<Rightarrow> slcan_event option \<times> slcan_decoder" where
  "Feed byte d =
     (if byte = bell then (Some SlcanError, ResetDecoder d)
      else if byte \<noteq> carriageReturn
      then if length (sd_line d) = maxLineLength then (None, d\<lparr>sd_discarding := True\<rparr>)
        else (None, d\<lparr>sd_line := sd_line d @ [byte]\<rparr>)
      else (if sd_discarding d then None else ParseLine (sd_line d), ResetDecoder d))"

text \<open>A stream of bytes, one after the other.\<close>

fun feed_all :: "bytes \<Rightarrow> slcan_decoder \<Rightarrow> slcan_event list \<times> slcan_decoder" where
  "feed_all [] d = ([], d)"
| "feed_all (b # bs) d =
     (case Feed b d of
        (item, d1) \<Rightarrow>
          (case feed_all bs d1 of
             (items, d2) \<Rightarrow> ((case item of None \<Rightarrow> items | Some e \<Rightarrow> e # items), d2)))"

end
