(* ===== verification/SlcanAdapter.thy ===== *)
theory SlcanAdapter
  imports SlcanCodec
begin

text \<open>
  The adapter for serial CAN devices, \<^verbatim>\<open>can-lite/drivers/implementation/SlcanAdapter.cpp\<close>: the
  connection with its handshake, sending, and the reading of the serial port.

  The serial port is the interface \<^verbatim>\<open>SerialPort\<close>: the record \<open>serial_port\<close> of its operations on a
  state \<open>'p\<close> is a parameter.  \<open>sla_log\<close> collects what the observers and the receive callback are
  told and the completions of sends, in order; they do not call back into the adapter.  A running
  timer is its deadline, \<open>sla_scheduled\<close> counts the actions waiting in the event dispatcher, and a
  completion function is a value of type \<open>'a\<close>.
\<close>

section \<open>State\<close>

datatype SerialPortOpenResult = opened | notFound | accessDenied | inUse | openFailed

record 'p serial_port =
  sp_Open :: "string \<Rightarrow> 'p \<Rightarrow> SerialPortOpenResult \<times> 'p"
  sp_Close :: "'p \<Rightarrow> 'p"
  sp_Write :: "bytes \<Rightarrow> 'p \<Rightarrow> bool \<times> 'p"
  sp_Read :: "nat \<Rightarrow> 'p \<Rightarrow> bytes option \<times> 'p"

datatype LinkState = linkClosed | linkOpening | linkOpen

datatype 'a adapter_output =
    AdapterError string
  | ConnectionChanged bool
  | FrameLog bool u32 bytes
  | FrameReceived u32 bytes
  | SendCompleted 'a bool

record ('p, 'a) slcan_adapter =
  sla_port :: "'p serial_port"
  sla_portState :: 'p
  sla_decoder :: slcan_decoder
  sla_state :: LinkState
  sla_repliesReceived :: u8
  sla_handshakeTimer :: timer
  sla_receiving :: bool
  sla_pendingCompletion :: "'a option"
  sla_pendingSuccess :: bool
  sla_scheduled :: nat
  sla_now :: time
  sla_log :: "'a adapter_output list"

definition readChunkSize :: nat where "readChunkSize = 128"
definition maxReadChunks :: nat where "maxReadChunks = 16"
definition closeReply :: u8 where "closeReply = 1"
definition openCommandReplies :: u8 where "openCommandReplies = 3"
definition handshakeTimeout :: time where "handshakeTimeout = milliseconds 1000"

definition OpenFailure :: "SerialPortOpenResult \<Rightarrow> string" where
  "OpenFailure result =
     (case result of
        notFound \<Rightarrow> ''Serial port not found''
      | accessDenied \<Rightarrow>
          ''Access to the serial port was denied; on Linux, add the user to the dialout group''
      | inUse \<Rightarrow> ''The serial port is in use by another program''
      | _ \<Rightarrow> ''The serial port could not be opened'')"

definition SlcanAdapter :: "'p serial_port \<Rightarrow> 'p \<Rightarrow> time \<Rightarrow> ('p, 'a) slcan_adapter" where
  "SlcanAdapter port portState now =
     \<lparr>sla_port = port, sla_portState = portState, sla_decoder = slcan_decoder_init,
      sla_state = linkClosed, sla_repliesReceived = 0, sla_handshakeTimer = None,
      sla_receiving = False, sla_pendingCompletion = None, sla_pendingSuccess = False,
      sla_scheduled = 0, sla_now = now, sla_log = []\<rparr>"

definition sla_emit ::
    "'a adapter_output list \<Rightarrow> ('p, 'a) slcan_adapter \<Rightarrow> ('p, 'a) slcan_adapter" where
  "sla_emit out s = s\<lparr>sla_log := sla_log s @ out\<rparr>"

definition ReportErrorS :: "string \<Rightarrow> ('p, 'a) slcan_adapter \<Rightarrow> ('p, 'a) slcan_adapter" where
  "ReportErrorS message s = sla_emit [AdapterError message] s"

definition PortWrite :: "bytes \<Rightarrow> ('p, 'a) slcan_adapter \<Rightarrow> bool \<times> ('p, 'a) slcan_adapter" where
  "PortWrite data s =
     (case sp_Write (sla_port s) data (sla_portState s) of
        (written, p) \<Rightarrow> (written, s\<lparr>sla_portState := p\<rparr>))"

definition PortClose :: "('p, 'a) slcan_adapter \<Rightarrow> ('p, 'a) slcan_adapter" where
  "PortClose s = s\<lparr>sla_portState := sp_Close (sla_port s) (sla_portState s)\<rparr>"

section \<open>Connection\<close>

definition IsConnectedS :: "('p, 'a) slcan_adapter \<Rightarrow> bool" where
  "IsConnectedS s \<longleftrightarrow> sla_state s = linkOpen"

definition CloseS :: "string option \<Rightarrow> ('p, 'a) slcan_adapter \<Rightarrow> ('p, 'a) slcan_adapter" where
  "CloseS error s0 =
     (let s = (PortClose (s0\<lparr>sla_handshakeTimer := None\<rparr>))\<lparr>sla_state := linkClosed\<rparr>;
        s = (case error of None \<Rightarrow> s | Some message \<Rightarrow> ReportErrorS message s)
      in sla_emit [ConnectionChanged False] s)"

definition DisconnectS :: "('p, 'a) slcan_adapter \<Rightarrow> ('p, 'a) slcan_adapter" where
  "DisconnectS s =
     (if sla_state s = linkClosed then s
      else CloseS None (snd (PortWrite SlcanCloseCommand s)))"

definition ConnectS ::
    "string \<Rightarrow> u32 \<Rightarrow> ('p, 'a) slcan_adapter \<Rightarrow> bool \<times> ('p, 'a) slcan_adapter" where
  "ConnectS interfaceName bitrate s0 =
     (let s = (if IsConnectedS s0 then DisconnectS s0 else s0) in
      case SlcanBitrateCode bitrate of
        None \<Rightarrow>
          (False, ReportErrorS
             ''slcan supports 10, 20, 50, 100, 125, 250, 500 and 800 kbit/s and 1 Mbit/s'' s)
      | Some code \<Rightarrow>
          (case sp_Open (sla_port s) interfaceName (sla_portState s) of
             (result, p) \<Rightarrow>
               let s = s\<lparr>sla_portState := p\<rparr> in
               if result \<noteq> opened then (False, ReportErrorS (OpenFailure result) s)
               else case PortWrite (SlcanOpenCommands code) s of
                   (False, s) \<Rightarrow>
                     (False, ReportErrorS ''Failed to configure the slcan adapter'' (PortClose s))
                 | (True, s) \<Rightarrow>
                     (True, s\<lparr>sla_decoder := ResetDecoder (sla_decoder s), sla_state := linkOpening,
                        sla_repliesReceived := 0,
                        sla_handshakeTimer := Some (sla_now s + handshakeTimeout)\<rparr>)))"

definition FailHandshake :: "string \<Rightarrow> ('p, 'a) slcan_adapter \<Rightarrow> ('p, 'a) slcan_adapter" where
  "FailHandshake message s = CloseS (Some message) s"

definition CompleteHandshake :: "('p, 'a) slcan_adapter \<Rightarrow> ('p, 'a) slcan_adapter" where
  "CompleteHandshake s =
     sla_emit [ConnectionChanged True] (s\<lparr>sla_handshakeTimer := None, sla_state := linkOpen\<rparr>)"

definition HandshakeExpired :: "('p, 'a) slcan_adapter \<Rightarrow> ('p, 'a) slcan_adapter" where
  "HandshakeExpired s =
     FailHandshake ''The slcan adapter did not answer; check that the port belongs to an slcan device''
       (s\<lparr>sla_handshakeTimer := None\<rparr>)"

definition Lost :: "('p, 'a) slcan_adapter \<Rightarrow> ('p, 'a) slcan_adapter" where
  "Lost s = CloseS (Some ''The slcan adapter was disconnected'') s"

section \<open>Sending\<close>

definition ScheduleCompletion ::
    "'a \<Rightarrow> bool \<Rightarrow> ('p, 'a) slcan_adapter \<Rightarrow> ('p, 'a) slcan_adapter" where
  "ScheduleCompletion action result s =
     s\<lparr>sla_pendingCompletion := Some action, sla_pendingSuccess := result,
       sla_scheduled := sla_scheduled s + 1\<rparr>"

definition RunScheduled :: "('p, 'a) slcan_adapter \<Rightarrow> ('p, 'a) slcan_adapter" where
  "RunScheduled s0 =
     (let s = s0\<lparr>sla_scheduled := sla_scheduled s0 - 1\<rparr> in
      case sla_pendingCompletion s of
        None \<Rightarrow> s
      | Some action \<Rightarrow> sla_emit [SendCompleted action (sla_pendingSuccess s)] s)"

definition SendData ::
    "can_id \<Rightarrow> bytes \<Rightarrow> 'a \<Rightarrow> ('p, 'a) slcan_adapter \<Rightarrow> ('p, 'a) slcan_adapter" where
  "SendData canId data actionOnCompletion s0 =
     (case canId of
        Id11 _ \<Rightarrow> ScheduleCompletion actionOnCompletion False s0
      | Id29 rawId \<Rightarrow>
          if \<not> IsConnectedS s0 then ScheduleCompletion actionOnCompletion False s0
          else case PortWrite (EncodeSlcanFrame rawId True data) s0 of
              (True, s) \<Rightarrow>
                ScheduleCompletion actionOnCompletion True (sla_emit [FrameLog True rawId data] s)
            | (False, s) \<Rightarrow>
                ScheduleCompletion actionOnCompletion False
                  (ReportErrorS ''Failed to send CAN frame via slcan'' s))"

definition ReceiveData :: "('p, 'a) slcan_adapter \<Rightarrow> ('p, 'a) slcan_adapter" where
  "ReceiveData s = s\<lparr>sla_receiving := True\<rparr>"

section \<open>Receiving\<close>

definition Deliver :: "slcan_frame \<Rightarrow> ('p, 'a) slcan_adapter \<Rightarrow> ('p, 'a) slcan_adapter" where
  "Deliver frame s0 =
     (let s = sla_emit [FrameLog False (sf_id frame) (sf_data frame)] s0 in
      if sla_receiving s then sla_emit [FrameReceived (sf_id frame) (sf_data frame)] s else s)"

definition Handshake :: "slcan_event \<Rightarrow> ('p, 'a) slcan_adapter \<Rightarrow> ('p, 'a) slcan_adapter" where
  "Handshake item s0 =
     (case item of
        SlcanReceived _ \<Rightarrow> s0
      | _ \<Rightarrow>
          let s = s0\<lparr>sla_repliesReceived := sla_repliesReceived s0 + 1\<rparr> in
          if sla_repliesReceived s = closeReply then s
          else if item = SlcanError
          then FailHandshake ''The slcan adapter rejected the bitrate or the open command'' s
          else if sla_repliesReceived s = openCommandReplies then CompleteHandshake s
          else s)"

definition Dispatch :: "slcan_event \<Rightarrow> ('p, 'a) slcan_adapter \<Rightarrow> ('p, 'a) slcan_adapter" where
  "Dispatch item s =
     (if sla_state s = linkOpening then Handshake item s
      else case item of
          SlcanError \<Rightarrow> ReportErrorS ''The slcan adapter rejected a command'' s
        | SlcanReceived frame \<Rightarrow> if sf_extended frame \<and> \<not> sf_remote frame then Deliver frame s else s
        | SlcanAcknowledged \<Rightarrow> s)"

fun feed_received :: "bytes \<Rightarrow> ('p, 'a) slcan_adapter \<Rightarrow> ('p, 'a) slcan_adapter" where
  "feed_received [] s = s"
| "feed_received (byte # rest) s =
     (if sla_state s = linkClosed then s
      else case Feed byte (sla_decoder s) of
          (None, d) \<Rightarrow> feed_received rest (s\<lparr>sla_decoder := d\<rparr>)
        | (Some item, d) \<Rightarrow> feed_received rest (Dispatch item (s\<lparr>sla_decoder := d\<rparr>)))"

definition ReadAvailable :: "('p, 'a) slcan_adapter \<Rightarrow> bool \<times> ('p, 'a) slcan_adapter" where
  "ReadAvailable s0 =
     (case sp_Read (sla_port s0) readChunkSize (sla_portState s0) of
        (received, p) \<Rightarrow>
          let s = s0\<lparr>sla_portState := p\<rparr> in
          case received of
            None \<Rightarrow> (False, Lost s)
          | Some data \<Rightarrow> (length data = readChunkSize, feed_received data s))"

fun read_chunks :: "nat \<Rightarrow> ('p, 'a) slcan_adapter \<Rightarrow> ('p, 'a) slcan_adapter" where
  "read_chunks 0 s = s"
| "read_chunks (Suc chunks) s =
     (if sla_state s = linkClosed then s
      else case ReadAvailable s of
          (False, s') \<Rightarrow> s'
        | (True, s') \<Rightarrow> read_chunks chunks s')"

definition ProcessReadEvent :: "('p, 'a) slcan_adapter \<Rightarrow> ('p, 'a) slcan_adapter" where
  "ProcessReadEvent s = read_chunks maxReadChunks s"

section \<open>Events\<close>

datatype 'a adapter_event =
    AdapterConnect string u32
  | AdapterDisconnect
  | AdapterSend can_id bytes 'a
  | AdapterReceiveData
  | AdapterReadEvent
  | AdapterHandshakeTimer
  | AdapterRunScheduled
  | AdapterTick time

fun sla_apply :: "'a adapter_event \<Rightarrow> ('p, 'a) slcan_adapter \<Rightarrow> ('p, 'a) slcan_adapter" where
  "sla_apply (AdapterConnect name bitrate) s = snd (ConnectS name bitrate s)"
| "sla_apply AdapterDisconnect s = DisconnectS s"
| "sla_apply (AdapterSend canId data a) s = SendData canId data a s"
| "sla_apply AdapterReceiveData s = ReceiveData s"
| "sla_apply AdapterReadEvent s = ProcessReadEvent s"
| "sla_apply AdapterHandshakeTimer s = HandshakeExpired s"
| "sla_apply AdapterRunScheduled s = RunScheduled s"
| "sla_apply (AdapterTick d) s = s\<lparr>sla_now := sla_now s + d\<rparr>"

text \<open>A user that waits for the completion of a send before the next one, as the frame transport does:
  the adapter keeps one completion function.\<close>

definition sla_enabled :: "'a adapter_event \<Rightarrow> ('p, 'a) slcan_adapter \<Rightarrow> bool" where
  "sla_enabled e s =
     (case e of
        AdapterHandshakeTimer \<Rightarrow> (case sla_handshakeTimer s of None \<Rightarrow> False | Some d \<Rightarrow> d \<le> sla_now s)
      | AdapterRunScheduled \<Rightarrow> 0 < sla_scheduled s
      | AdapterSend _ _ _ \<Rightarrow> sla_scheduled s = 0
      | _ \<Rightarrow> True)"

definition sla_step ::
    "'a adapter_event \<Rightarrow> ('p, 'a) slcan_adapter \<Rightarrow> ('p, 'a) slcan_adapter \<times> 'a adapter_output list" where
  "sla_step e s = (let s' = sla_apply e s in (s', drop (length (sla_log s)) (sla_log s')))"

end
