(* ===== verification/SlcanLaws.thy ===== *)
theory SlcanLaws
  imports SlcanCodec
begin

text \<open>
  What the serial protocol guarantees.  A stream of encoded frames decodes to those frames, from
  any state of the decoder once a carriage return has ended what came before; whatever the adapter
  sends, the decoder keeps its line within its storage and yields only well-formed frames.
\<close>

section \<open>Hexadecimal numbers\<close>

definition hex_text :: "u32 \<Rightarrow> nat \<Rightarrow> bytes" where
  "hex_text value n = map (\<lambda>i. hexDigits ! unat (drop_bit (4 * i) value AND 0xf)) (rev [0..<n])"

lemma AppendHex_eq: "AppendHex out v n = out @ hex_text v n"
  by (induction out v n rule: AppendHex.induct) (simp_all add: hex_text_def)

lemma length_hex_text [simp]: "length (hex_text value n) = n"
  by (simp add: hex_text_def)

lemma all_hex_digits: "list_all (\<lambda>k. HexDigit (hexDigits ! k) = Some (of_nat k) \<and>
    hexDigits ! k \<noteq> bell \<and> hexDigits ! k \<noteq> carriageReturn) [0..<16]"
  by code_simp

lemma HexDigit_hexDigits:
  fixes v :: u32
  shows "HexDigit (hexDigits ! unat (v AND 0xf)) = Some (ucast (v AND 0xf))"
    and "hexDigits ! unat (v AND 0xf) \<noteq> bell" and "hexDigits ! unat (v AND 0xf) \<noteq> carriageReturn"
proof -
  have "v AND 0xf \<le> 0xf" by (rule word_and_le1)
  then have "unat (v AND 0xf) < 16" by (simp add: word_le_nat_alt)
  then have "unat (v AND 0xf) \<in> set [0..<16]" by simp
  with all_hex_digits have "HexDigit (hexDigits ! unat (v AND 0xf)) = Some (of_nat (unat (v AND 0xf))) \<and>
      hexDigits ! unat (v AND 0xf) \<noteq> bell \<and> hexDigits ! unat (v AND 0xf) \<noteq> carriageReturn"
    unfolding list_all_iff by blast
  then show "HexDigit (hexDigits ! unat (v AND 0xf)) = Some (ucast (v AND 0xf))"
    and "hexDigits ! unat (v AND 0xf) \<noteq> bell" and "hexDigits ! unat (v AND 0xf) \<noteq> carriageReturn"
    by simp_all
qed

lemma hex_text_Suc: "hex_text v (Suc n) = hexDigits ! unat (drop_bit (4 * n) v AND 0xf) # hex_text v n"
  by (simp add: hex_text_def)

lemma nibble_mask: "(0xf :: u32) = mask 4"
  by (simp add: mask_eq_exp_minus_1)

lemma digit_joins:
  fixes v acc :: u32
  shows "push_bit (4 * n) (push_bit 4 acc OR (drop_bit (4 * n) v AND 0xf)) OR take_bit (4 * n) v =
    push_bit (4 * n + 4) acc OR take_bit (4 * n + 4) v"
  unfolding nibble_mask by (rule bit_word_eqI) (auto simp: bit_simps add.commute [of 4])

lemma digit_widens:
  fixes v :: u32
  shows "ucast (ucast (v AND 0xf) :: u8) = v AND 0xf"
  unfolding nibble_mask by (rule bit_word_eqI) (auto simp: bit_simps)

lemma parse_hex_text:
  "parse_digits (xs @ hex_text v n @ ys) (length xs) n acc = Some (push_bit (4 * n) acc OR take_bit (4 * n) v)"
proof (induction n arbitrary: xs acc)
  case 0
  then show ?case by simp
next
  case (Suc n)
  let ?d = "hexDigits ! unat (drop_bit (4 * n) v AND 0xf)"
  have "parse_digits (xs @ hex_text v (Suc n) @ ys) (length xs) (Suc n) acc =
      parse_digits ((xs @ [?d]) @ hex_text v n @ ys) (length (xs @ [?d])) n
        (push_bit 4 acc OR (drop_bit (4 * n) v AND 0xf))"
    by (simp add: hex_text_Suc HexDigit_hexDigits digit_widens)
  also have "\<dots> = Some (push_bit (4 * Suc n) acc OR take_bit (4 * Suc n) v)"
    unfolding Suc.IH digit_joins by (simp add: add.commute)
  finally show ?case .
qed

lemma ParseHex_hex_text:
  assumes "k = length xs"
  shows "ParseHex (xs @ hex_text v n @ ys) k n = Some (take_bit (4 * n) v)"
  using parse_hex_text [of xs v n ys 0] assms by (simp add: ParseHex_def)

section \<open>Encoded frames\<close>

definition masked :: "bool \<Rightarrow> u32 \<Rightarrow> u32" where
  "masked extended i = i AND (if extended then extendedIdMask else standardIdMask)"

definition payload_text :: "bytes \<Rightarrow> bytes" where
  "payload_text data = concat (map (\<lambda>b. hex_text (ucast b) 2) data)"

definition frame_line :: "u32 \<Rightarrow> bool \<Rightarrow> bytes \<Rightarrow> bytes" where
  "frame_line i extended data =
     (if extended then ascii CHR ''T'' else ascii CHR ''t'') #
     hex_text (masked extended i) (if extended then 8 else 3) @
     (ascii CHR ''0'' + of_nat (length data)) # payload_text data"

lemma append_bytes_eq: "append_bytes cmd data = cmd @ payload_text data"
  by (induction cmd data rule: append_bytes.induct) (simp_all add: payload_text_def AppendHex_eq)

lemma EncodeSlcanFrame_eq: "EncodeSlcanFrame i extended data = frame_line i extended data @ [carriageReturn]"
  by (simp add: EncodeSlcanFrame_def frame_line_def masked_def AppendHex_eq append_bytes_eq Let_def
      standardIdDigits_def extendedIdDigits_def)

lemma length_payload_text [simp]: "length (payload_text data) = 2 * length data"
  by (induction data) (simp_all add: payload_text_def)

lemma ParsePayload_text:
  assumes "k = length xs"
  shows "ParsePayload (xs @ payload_text data @ ys) k (length data) acc = Some (acc @ data)"
  using assms
proof (induction data arbitrary: xs k acc)
  case Nil
  then show ?case by simp
next
  case (Cons b data)
  have split: "xs @ payload_text (b # data) @ ys = (xs @ hex_text (ucast b) 2) @ payload_text data @ ys"
    by (simp add: payload_text_def)
  have "ParseHex (xs @ payload_text (b # data) @ ys) k 2 = Some (take_bit 8 (ucast b))"
    using ParseHex_hex_text [of k xs "ucast b" 2 "payload_text data @ ys"] Cons.prems
    by (simp add: payload_text_def)
  moreover have "ucast (take_bit 8 (ucast b :: u32)) = b"
    by (rule bit_word_eqI) (auto simp: bit_simps)
  moreover have "ParsePayload (xs @ payload_text (b # data) @ ys) (k + 2) (length data) (acc @ [b]) =
      Some ((acc @ [b]) @ data)"
    unfolding split by (rule Cons.IH) (simp add: Cons.prems)
  ultimately show ?case by simp
qed

lemma count_digits: "list_all (\<lambda>k. HexDigit (ascii CHR ''0'' + of_nat k) = Some (of_nat k) \<and>
    ascii CHR ''0'' + of_nat k \<noteq> bell \<and> ascii CHR ''0'' + of_nat k \<noteq> carriageReturn) [0..<9]"
  by code_simp

lemma count_digit:
  assumes "n \<le> 8"
  shows "HexDigit (ascii CHR ''0'' + of_nat n) = Some (of_nat n)"
    and "ascii CHR ''0'' + of_nat n \<noteq> bell" and "ascii CHR ''0'' + of_nat n \<noteq> carriageReturn"
proof -
  have "n \<in> set [0..<9]" using assms by simp
  with count_digits show "HexDigit (ascii CHR ''0'' + of_nat n) = Some (of_nat n)"
    and "ascii CHR ''0'' + of_nat n \<noteq> bell" and "ascii CHR ''0'' + of_nat n \<noteq> carriageReturn"
    unfolding list_all_iff by blast+
qed

lemma ascii_values:
  "ascii CHR ''T'' = 0x54" "ascii CHR ''t'' = 0x74" "ascii CHR ''R'' = 0x52" "ascii CHR ''r'' = 0x72"
  "ascii CHR ''z'' = 0x7A" "ascii CHR ''Z'' = 0x5A"
  by (simp_all add: ascii_def)

lemma take_bit_masked: "take_bit (4 * (if extended then 8 else 3)) (masked extended i) = masked extended i"
proof -
  have masks: "standardIdMask = mask 11" "extendedIdMask = mask 29"
    by (simp_all add: mask_eq_exp_minus_1 standardIdMask_def extendedIdMask_def)
  show ?thesis unfolding masked_def masks
    by (cases extended) (auto intro!: bit_word_eqI simp: bit_simps)
qed

lemma masked_bound: "masked extended i \<le> (if extended then extendedIdMask else standardIdMask)"
  by (simp add: masked_def word_and_le1)

lemma ParseFrame_line:
  assumes "length data \<le> 8"
  shows "ParseFrame (frame_line i extended data) =
    Some \<lparr>sf_id = masked extended i, sf_extended = extended, sf_remote = False, sf_data = data\<rparr>"
proof -
  let ?t = "if extended then ascii CHR ''T'' else ascii CHR ''t''" and ?n = "if extended then 8 else 3 :: nat"
  let ?h = "hex_text (masked extended i) ?n" and ?c = "ascii CHR ''0'' + of_nat (length data)"
  have line: "frame_line i extended data = ?t # ?h @ ?c # payload_text data" by (simp add: frame_line_def)
  have "ParseHex (frame_line i extended data) 1 ?n = Some (masked extended i)"
    using ParseHex_hex_text [of 1 "[?t]" "masked extended i" ?n "?c # payload_text data"]
    unfolding line take_bit_masked by simp
  moreover have "frame_line i extended data ! (1 + ?n) = ?c"
    unfolding line by (simp add: nth_append)
  moreover have "ParsePayload (frame_line i extended data) (2 + ?n) (length data) [] = Some data"
    using ParsePayload_text [of "2 + ?n" "?t # ?h @ [?c]" data "[]" "[]"] unfolding line by simp
  moreover have "unat (of_nat (length data) :: u8) = length data" "\<not> (8 :: u8) < of_nat (length data)"
    using assms by (simp_all add: unat_of_nat word_less_nat_alt)
  ultimately show ?thesis
    using masked_bound [of extended i] count_digit(1) [OF assms]
    by (auto simp: ParseFrame_def line ascii_values standardIdDigits_def extendedIdDigits_def Let_def
        split: if_splits)
qed

section \<open>Streams\<close>

lemma feed_all_append:
  "feed_all (xs @ ys) d =
     (case feed_all xs d of (items, d1) \<Rightarrow> case feed_all ys d1 of (more_items, d2) \<Rightarrow> (items @ more_items, d2))"
  by (induction xs arbitrary: d) (auto split: prod.splits option.splits)

definition plain :: "bytes \<Rightarrow> bool" where
  "plain bs \<longleftrightarrow> bell \<notin> set bs \<and> carriageReturn \<notin> set bs"

lemma feed_plain:
  assumes "plain bs" and "length (sd_line d) + length bs \<le> maxLineLength"
  shows "feed_all bs d = ([], d\<lparr>sd_line := sd_line d @ bs\<rparr>)"
  using assms by (induction bs arbitrary: d) (auto simp: plain_def Feed_def)

lemma ResetDecoder_eq: "ResetDecoder d = slcan_decoder_init"
  by (simp add: ResetDecoder_def slcan_decoder_init_def)

lemma feed_line:
  assumes "plain bs" and "length bs \<le> maxLineLength"
  shows "feed_all (bs @ [carriageReturn]) slcan_decoder_init =
    ((case ParseLine bs of None \<Rightarrow> [] | Some e \<Rightarrow> [e]), slcan_decoder_init)"
proof -
  have "feed_all bs slcan_decoder_init = ([], slcan_decoder_init\<lparr>sd_line := bs\<rparr>)"
    using feed_plain [OF assms(1), of slcan_decoder_init] assms(2) by (simp add: slcan_decoder_init_def)
  then show ?thesis
    by (simp add: feed_all_append Feed_def ResetDecoder_eq bell_def carriageReturn_def)
      (simp add: slcan_decoder_init_def split: option.split)
qed

lemma feed_carriageReturn: "snd (feed_all (bs @ [carriageReturn]) d) = slcan_decoder_init"
  by (auto simp: feed_all_append Feed_def ResetDecoder_eq bell_def carriageReturn_def split: prod.splits)

lemma plain_append [simp]: "plain (xs @ ys) \<longleftrightarrow> plain xs \<and> plain ys"
  by (auto simp: plain_def)

lemma plain_hex: "plain (hex_text v n)"
  using HexDigit_hexDigits(2,3) [THEN not_sym] by (auto simp: plain_def hex_text_def)

lemma plain_payload: "plain (payload_text data)"
  using plain_hex by (induction data) (simp_all add: payload_text_def plain_def)

lemma plain_line: "length data \<le> 8 \<Longrightarrow> plain (frame_line i extended data)"
  using plain_hex plain_payload [of data] count_digit(2,3) [of "length data"]
  by (auto simp: frame_line_def plain_def ascii_values bell_def carriageReturn_def)

lemma ParseLine_frame:
  assumes "length data \<le> 8"
  shows "ParseLine (frame_line i extended data) = Some (SlcanReceived
    \<lparr>sf_id = masked extended i, sf_extended = extended, sf_remote = False, sf_data = data\<rparr>)"
proof -
  have "frame_line i extended data \<noteq> []" "hd (frame_line i extended data) = (if extended then 0x54 else 0x74)"
    by (simp_all add: frame_line_def ascii_values)
  then show ?thesis
    by (auto simp: ParseLine_def ParseFrame_line [OF assms] ascii_values IsFrameType_def)
qed

type_synonym sent_frame = "u32 \<times> bool \<times> bytes"

definition encode_stream :: "sent_frame list \<Rightarrow> bytes" where
  "encode_stream frames = concat (map (\<lambda>(i, extended, data). EncodeSlcanFrame i extended data) frames)"

definition decode_stream :: "bytes \<Rightarrow> slcan_event list \<times> slcan_decoder" where
  "decode_stream bs = feed_all bs slcan_decoder_init"

fun received :: "sent_frame \<Rightarrow> slcan_event" where
  "received (i, extended, data) = SlcanReceived
     \<lparr>sf_id = i AND (if extended then 0x1fffffff else 0x7ff), sf_extended = extended, sf_remote = False,
      sf_data = data\<rparr>"

lemma feed_frame:
  assumes "length data \<le> 8"
  shows "feed_all (EncodeSlcanFrame i extended data) slcan_decoder_init =
    ([received (i, extended, data)], slcan_decoder_init)"
proof -
  have "length (frame_line i extended data) \<le> maxLineLength"
    using assms by (simp add: frame_line_def maxLineLength_def)
  then show ?thesis
    using feed_line [OF plain_line [OF assms]] unfolding EncodeSlcanFrame_eq
    by (simp add: ParseLine_frame [OF assms] masked_def standardIdMask_def extendedIdMask_def)
qed

lemma decode_encode_stream:
  assumes "\<forall>(i, extended, data) \<in> set frames. length data \<le> 8"
  shows "decode_stream (encode_stream frames) = (map received frames, slcan_decoder_init)"
  using assms
proof (induction frames)
  case Nil
  then show ?case by (simp add: decode_stream_def encode_stream_def)
next
  case (Cons f frames)
  then show ?case by (cases f) (simp add: decode_stream_def encode_stream_def feed_all_append feed_frame)
qed

interpretation slcan: wire_codec encode_stream decode_stream "\<lambda>frames. (map received frames, slcan_decoder_init)"
    "\<lambda>frames. \<forall>(i, extended, data) \<in> set frames. length data \<le> 8"
  by unfold_locales (rule decode_encode_stream)

section \<open>What the decoder yields\<close>

definition frame_ok :: "slcan_frame \<Rightarrow> bool" where
  "frame_ok f \<longleftrightarrow> sf_id f \<le> (if sf_extended f then 0x1fffffff else 0x7ff) \<and>
     length (sf_data f) \<le> 8 \<and> (sf_remote f \<longrightarrow> sf_data f = [])"

lemma ParsePayload_length: "ParsePayload line k n acc = Some data \<Longrightarrow> length data = length acc + n"
  by (induction line k n acc rule: ParsePayload.induct) (auto split: option.splits)

lemma ParseFrame_ok: "ParseFrame line = Some f \<Longrightarrow> frame_ok f"
  by (auto simp: ParseFrame_def frame_ok_def Let_def standardIdMask_def extendedIdMask_def
      word_less_nat_alt word_le_nat_alt dest!: ParsePayload_length split: option.splits if_splits)

lemma ParseLine_ok: "ParseLine line = Some (SlcanReceived f) \<Longrightarrow> frame_ok f"
  by (auto simp: ParseLine_def ParseFrame_ok split: if_splits option.splits)

lemma feed_all_ok:
  assumes "length (sd_line d) \<le> maxLineLength" and "feed_all bs d = (items, d')"
  shows "length (sd_line d') \<le> maxLineLength \<and> (\<forall>f. SlcanReceived f \<in> set items \<longrightarrow> frame_ok f)"
  using assms
proof (induction bs arbitrary: d items)
  case Nil
  then show ?case by simp
next
  case (Cons b bs)
  obtain item d1 where feed: "Feed b d = (item, d1)" by (cases "Feed b d")
  obtain rest where rest: "feed_all bs d1 = (rest, d')"
    "items = (case item of None \<Rightarrow> rest | Some e \<Rightarrow> e # rest)"
    using Cons.prems(2) feed by (auto split: prod.splits option.splits)
  have "length (sd_line d1) \<le> maxLineLength" "\<And>f. item = Some (SlcanReceived f) \<Longrightarrow> frame_ok f"
    using feed Cons.prems(1) ParseLine_ok
    by (auto simp: Feed_def ResetDecoder_def split: if_splits)
  then show ?case using Cons.IH [OF _ rest(1)] rest(2) by (auto split: option.splits)
qed

section \<open>Properties\<close>

text \<open>C24: Frames encoded for the adapter and fed to the decoder come out as the same frames, in
  order, whatever the decoder was fed before, as long as a carriage return ended it: identifiers
  reduced to their eleven or twenty-nine bits, data unchanged, nothing left in the decoder.  An
  encoded frame fits the storage of a command.\<close>

theorem slcan_round_trip:
  assumes "\<forall>(i, extended, data) \<in> set frames. length data \<le> 8"
  shows "feed_all (junk @ [carriageReturn] @
      concat (map (\<lambda>(i, extended, data). EncodeSlcanFrame i extended data) frames)) d =
    (fst (feed_all (junk @ [carriageReturn]) d) @ map received frames, slcan_decoder_init) \<and>
    (\<forall>(i, extended, data) \<in> set frames. length (EncodeSlcanFrame i extended data) \<le> slcanMaxCommandLength)"
proof -
  let ?sent = "concat (map (\<lambda>(i, extended, data). EncodeSlcanFrame i extended data) frames)"
  have sent: "feed_all ?sent slcan_decoder_init = (map received frames, slcan_decoder_init)"
    using slcan.decode_encode [OF assms] unfolding decode_stream_def encode_stream_def .
  obtain items where junk: "feed_all (junk @ [carriageReturn]) d = (items, slcan_decoder_init)"
    using feed_carriageReturn [of junk d] by (metis prod.collapse)
  have "feed_all ((junk @ [carriageReturn]) @ ?sent) d = (items @ map received frames, slcan_decoder_init)"
    unfolding feed_all_append [of "junk @ [carriageReturn]"] junk by (simp add: sent)
  moreover have "length (EncodeSlcanFrame i extended data) \<le> slcanMaxCommandLength"
    if "length data \<le> 8" for i extended data
    using that by (simp add: EncodeSlcanFrame_eq frame_line_def slcanMaxCommandLength_def)
  ultimately show ?thesis using assms unfolding junk append_assoc fst_conv by blast
qed

theorem slcan_round_trip_witness:
  "feed_all ([0x74, 0x31] @ [carriageReturn] @
     concat (map (\<lambda>(i, extended, data). EncodeSlcanFrame i extended data)
       [(0x1ABCDEF0, True, [1, 0xFF]), (0xFFF, False, [])])) slcan_decoder_init =
   (fst (feed_all ([0x74, 0x31] @ [carriageReturn]) slcan_decoder_init) @
     map received [(0x1ABCDEF0, True, [1, 0xFF]), (0xFFF, False, [])], slcan_decoder_init)"
  by (rule conjunct1 [OF slcan_round_trip]) simp

text \<open>C25: Whatever bytes an adapter sends, the decoder's line stays within its storage, and every
  frame it yields is a CAN frame: an identifier of its kind's width, at most eight bytes of data,
  none for a remote frame.\<close>

theorem slcan_decoder_type_safe:
  assumes "feed_all bs slcan_decoder_init = (items, d)"
  shows "length (sd_line d) \<le> 64 \<and>
    (\<forall>f. SlcanReceived f \<in> set items \<longrightarrow>
       sf_id f \<le> (if sf_extended f then 0x1fffffff else 0x7ff) \<and>
       length (sf_data f) \<le> 8 \<and> (sf_remote f \<longrightarrow> sf_data f = []))"
  using feed_all_ok [OF _ assms] by (simp add: slcan_decoder_init_def maxLineLength_def frame_ok_def)

theorem slcan_decoder_type_safe_witness:
  "length (sd_line (snd (feed_all (replicate 70 0x54) slcan_decoder_init))) \<le> 64"
  using slcan_decoder_type_safe [of "replicate 70 0x54"
      "fst (feed_all (replicate 70 0x54) slcan_decoder_init)"
      "snd (feed_all (replicate 70 0x54) slcan_decoder_init)"] by (simp only: prod.collapse)

end
