(* ===== verification/SlcanLink.thy ===== *)
theory SlcanLink
  imports SlcanAdapter SlcanLaws "HOL-Library.Multiset"
begin

text \<open>
  What the serial adapter guarantees.  Its observers see a simple automaton: connected or not, with
  frames only while connected.  The handshake succeeds exactly when the second and third replies
  are acknowledgements, every send is completed once, and the frames that one adapter writes are the
  frames that another one delivers.
\<close>

section \<open>What the observers see\<close>

fun adapter_view :: "bool option \<Rightarrow> 'a adapter_output \<Rightarrow> bool option" where
  "adapter_view None out = None"
| "adapter_view (Some c) (ConnectionChanged b) = (if b \<and> c then None else Some b)"
| "adapter_view (Some c) (FrameLog _ _ _) = (if c then Some True else None)"
| "adapter_view (Some c) (FrameReceived _ _) = (if c then Some True else None)"
| "adapter_view (Some c) (AdapterError _) = Some c"
| "adapter_view (Some c) (SendCompleted _ _) = Some c"

definition seen :: "'a adapter_output list \<Rightarrow> bool option" where
  "seen out = foldl adapter_view (Some False) out"

lemma seen_append: "seen (xs @ ys) = foldl adapter_view (seen xs) ys"
  by (simp add: seen_def)

definition completions_in :: "'a adapter_output list \<Rightarrow> 'a multiset" where
  "completions_in out = mset (concat (map (\<lambda>e. case e of SendCompleted a _ \<Rightarrow> [a] | _ \<Rightarrow> []) out))"

lemma completions_in_simps [simp]:
  "completions_in [] = {#}" "completions_in (xs @ ys) = completions_in xs + completions_in ys"
  "completions_in [AdapterError m] = {#}" "completions_in [ConnectionChanged b] = {#}"
  "completions_in [FrameLog t i d] = {#}" "completions_in [FrameReceived i d] = {#}"
  "completions_in [SendCompleted a ok] = {#a#}"
  by (simp_all add: completions_in_def)

section \<open>The invariant\<close>

definition link_ok :: "('p, 'a) slcan_adapter \<Rightarrow> bool" where
  "link_ok s \<longleftrightarrow> seen (sla_log s) = Some (sla_state s = linkOpen) \<and>
     (sla_state s = linkOpening \<longleftrightarrow> sla_handshakeTimer s \<noteq> None) \<and>
     (sla_state s = linkOpening \<longrightarrow> sla_repliesReceived s < 3) \<and>
     length (sd_line (sla_decoder s)) \<le> maxLineLength"

definition sending_ok :: "('p, 'a) slcan_adapter \<Rightarrow> bool" where
  "sending_ok s \<longleftrightarrow> sla_scheduled s \<le> 1 \<and> (sla_scheduled s = 1 \<longrightarrow> sla_pendingCompletion s \<noteq> None)"

definition sla_inv :: "('p, 'a) slcan_adapter \<Rightarrow> bool" where
  "sla_inv s \<longleftrightarrow> link_ok s \<and> sending_ok s"

definition awaited :: "('p, 'a) slcan_adapter \<Rightarrow> 'a multiset" where
  "awaited s = (if sla_scheduled s = 0 then {#} else mset (case sla_pendingCompletion s of None \<Rightarrow> [] | Some a \<Rightarrow> [a]))"

text \<open>An operation that leaves sending alone: its outputs carry no completion.\<close>

definition silent :: "('p, 'a) slcan_adapter \<Rightarrow> ('p, 'a) slcan_adapter \<Rightarrow> bool" where
  "silent s s' \<longleftrightarrow> sla_scheduled s' = sla_scheduled s \<and> sla_pendingCompletion s' = sla_pendingCompletion s \<and>
     (\<exists>out. sla_log s' = sla_log s @ out \<and> completions_in out = {#})"

lemma silent_refl [intro, simp]: "silent s s"
  by (simp add: silent_def)

lemma silent_trans [trans]: "silent s s1 \<Longrightarrow> silent s1 s2 \<Longrightarrow> silent s s2"
  by (auto simp: silent_def)

lemma silent_updates [simp]:
  "silent (s\<lparr>sla_portState := p\<rparr>) s' = silent s s'" "silent (s\<lparr>sla_decoder := d\<rparr>) s' = silent s s'"
  "silent (s\<lparr>sla_handshakeTimer := t\<rparr>) s' = silent s s'" "silent (s\<lparr>sla_repliesReceived := n\<rparr>) s' = silent s s'"
  "silent s (s'\<lparr>sla_portState := p\<rparr>) = silent s s'" "silent s (s'\<lparr>sla_decoder := d\<rparr>) = silent s s'"
  "silent s (s'\<lparr>sla_handshakeTimer := t\<rparr>) = silent s s'" "silent s (s'\<lparr>sla_repliesReceived := n\<rparr>) = silent s s'"
  "silent s (s'\<lparr>sla_state := k\<rparr>) = silent s s'" "silent s (s'\<lparr>sla_receiving := r\<rparr>) = silent s s'"
  "silent s (s'\<lparr>sla_now := n'\<rparr>) = silent s s'"
  by (simp_all add: silent_def)

lemma silent_emit: "silent s s' \<Longrightarrow> completions_in out = {#} \<Longrightarrow> silent s (sla_emit out s')"
  by (auto simp: silent_def sla_emit_def)

lemma CloseS_silent: "silent s (CloseS e s)"
  by (auto simp: CloseS_def ReportErrorS_def PortClose_def Let_def intro!: silent_emit split: option.split)

lemma PortWrite_silent: "PortWrite d s = (ok, s') \<Longrightarrow> silent s s'"
  by (auto simp: PortWrite_def split: prod.splits)

lemma DisconnectS_silent: "silent s (DisconnectS s)"
  using silent_trans [OF PortWrite_silent [OF prod.collapse [symmetric]] CloseS_silent, of s]
  by (simp add: DisconnectS_def)

lemma ConnectS_silent: "silent s (snd (ConnectS name bitrate s))"
proof -
  let ?s = "if IsConnectedS s then DisconnectS s else s"
  have "silent s ?s" by (simp add: DisconnectS_silent)
  moreover have "silent ?s (snd (ConnectS name bitrate s))"
    using PortWrite_silent
    by (fastforce simp: ConnectS_def Let_def ReportErrorS_def PortClose_def intro!: silent_emit
        split: option.split prod.split bool.split)
  ultimately show ?thesis by (rule silent_trans)
qed

lemma Dispatch_silent: "silent s (Dispatch item s)"
  using silent_trans [OF _ CloseS_silent, of s "s\<lparr>sla_repliesReceived := sla_repliesReceived s + 1\<rparr>"]
  by (cases item) (auto simp: Dispatch_def Handshake_def FailHandshake_def CompleteHandshake_def
      ReportErrorS_def Deliver_def Let_def intro!: silent_emit)

lemma feed_received_silent: "silent s (feed_received bs s)"
proof (induction bs s rule: feed_received.induct)
  case (1 s)
  then show ?case by simp
next
  case (2 b bs s)
  then show ?case
    using silent_trans [OF Dispatch_silent [of "s\<lparr>sla_decoder := d\<rparr>" item for d item]]
    by (auto split: prod.split option.split)
qed

lemma Lost_silent: "silent s (Lost s)"
  by (simp add: Lost_def CloseS_silent)

lemma ReadAvailable_silent: "ReadAvailable s = (full, s') \<Longrightarrow> silent s s'"
  using Lost_silent [of "s\<lparr>sla_portState := p\<rparr>" for p] feed_received_silent [of "s\<lparr>sla_portState := p\<rparr>" for p]
  by (auto simp: ReadAvailable_def Let_def split: prod.splits option.splits)

lemma read_chunks_silent: "silent s (read_chunks n s)"
proof (induction n s rule: read_chunks.induct)
  case (1 s)
  then show ?case by simp
next
  case (2 n s)
  then show ?case
    by (auto dest: ReadAvailable_silent intro: silent_trans split: prod.split bool.split)
qed

section \<open>The link\<close>

lemma link_ok_updates [simp]:
  "link_ok (s\<lparr>sla_portState := p\<rparr>) = link_ok s" "link_ok (s\<lparr>sla_receiving := r\<rparr>) = link_ok s"
  "link_ok (s\<lparr>sla_now := n\<rparr>) = link_ok s" "link_ok (s\<lparr>sla_scheduled := k\<rparr>) = link_ok s"
  "link_ok (s\<lparr>sla_pendingCompletion := a\<rparr>) = link_ok s" "link_ok (s\<lparr>sla_pendingSuccess := b\<rparr>) = link_ok s"
  by (simp_all add: link_ok_def)

lemma link_ok_error: "link_ok s \<Longrightarrow> link_ok (ReportErrorS m s)"
  by (simp add: link_ok_def ReportErrorS_def sla_emit_def seen_append)

lemma link_ok_completed: "link_ok s \<Longrightarrow> link_ok (sla_emit [SendCompleted a ok] s)"
  by (simp add: link_ok_def sla_emit_def seen_append)

text \<open>Closing establishes the invariant whatever state the link was in.\<close>

lemma link_ok_close:
  assumes "seen (sla_log s) = Some c" and "length (sd_line (sla_decoder s)) \<le> maxLineLength"
  shows "link_ok (CloseS e s)"
  using assms by (cases e) (simp_all add: link_ok_def CloseS_def PortClose_def ReportErrorS_def sla_emit_def
      seen_append Let_def)

lemma PortWrite_ok: "PortWrite d s = (ok, s') \<Longrightarrow> link_ok s' = link_ok s"
  by (auto simp: PortWrite_def split: prod.splits)

lemma DisconnectS_ok:
  fixes s :: "('p, 'a) slcan_adapter"
  assumes "link_ok s"
  shows "link_ok (DisconnectS s)" and "sla_state (DisconnectS s) = linkClosed"
proof -
  have "link_ok (CloseS None (snd (PortWrite SlcanCloseCommand s)))"
    using assms by (intro link_ok_close [of _ "sla_state s = linkOpen"])
      (auto simp: PortWrite_def link_ok_def split: prod.split)
  moreover have "sla_state (CloseS None s') = linkClosed" for s' :: "('p, 'a) slcan_adapter"
    by (simp add: CloseS_def sla_emit_def Let_def)
  ultimately show "link_ok (DisconnectS s)" and "sla_state (DisconnectS s) = linkClosed"
    using assms by (simp_all add: DisconnectS_def)
qed

lemma ConnectS_ok:
  assumes "link_ok s"
  shows "link_ok (snd (ConnectS name bitrate s))"
proof -
  define s1 where "s1 = (if IsConnectedS s then DisconnectS s else s)"
  have s1: "link_ok s1" "sla_state s1 \<noteq> linkOpen"
    using DisconnectS_ok [OF assms] assms by (auto simp: s1_def IsConnectedS_def)
  show ?thesis
  proof (cases "SlcanBitrateCode bitrate")
    case None
    then show ?thesis using s1 by (simp add: ConnectS_def s1_def [symmetric] link_ok_error)
  next
    case (Some code)
    obtain result p where "open": "sp_Open (sla_port s1) name (sla_portState s1) = (result, p)" by force
    obtain ok s2 where wr: "PortWrite (SlcanOpenCommands code) (s1\<lparr>sla_portState := p\<rparr>) = (ok, s2)" by force
    then have s2: "link_ok s2" "sla_state s2 = sla_state s1"
      using s1 by (auto simp: PortWrite_def split: prod.splits)
    have "link_ok (s2\<lparr>sla_decoder := ResetDecoder (sla_decoder s2), sla_state := linkOpening,
        sla_repliesReceived := 0, sla_handshakeTimer := Some t\<rparr>)" for t
      using s2 s1(2) by (simp add: link_ok_def ResetDecoder_def)
    then show ?thesis using s1 s2(1) Some "open" wr
      by (auto simp: ConnectS_def s1_def [symmetric] Let_def PortClose_def intro!: link_ok_error split: bool.split)
  qed
qed

lemma below_3: "(r :: u8) < 3 \<longleftrightarrow> r = 0 \<or> r = 1 \<or> r = 2"
  by unat_arith

lemma Handshake_ok:
  assumes "link_ok s" and "sla_state s = linkOpening"
  shows "link_ok (Handshake item s)"
proof -
  let ?s = "s\<lparr>sla_repliesReceived := sla_repliesReceived s + 1\<rparr>"
  have "sla_repliesReceived s < 3" using assms by (simp add: link_ok_def)
  then have "sla_repliesReceived s + 1 = 1 \<or> sla_repliesReceived s + 1 = 2 \<or> sla_repliesReceived s + 1 = 3"
    unfolding below_3 by fastforce
  moreover have closed: "link_ok (CloseS e ?s)" for e
    using assms by (intro link_ok_close [of _ False]) (simp_all add: link_ok_def)
  moreover have completed: "link_ok (CompleteHandshake ?s)"
    using assms by (simp add: link_ok_def CompleteHandshake_def sla_emit_def seen_append)
  moreover have waiting: "sla_repliesReceived s + 1 < 3 \<Longrightarrow> link_ok ?s"
    using assms by (simp add: link_ok_def)
  ultimately have ready: "link_ok (if sla_repliesReceived ?s = closeReply then ?s
      else if item = SlcanError then FailHandshake m ?s
      else if sla_repliesReceived ?s = openCommandReplies then CompleteHandshake ?s else ?s)" for m
    unfolding FailHandshake_def closeReply_def openCommandReplies_def by (elim disjE) simp_all
  show ?thesis
  proof (cases item)
    case (SlcanReceived f)
    then show ?thesis using assms(1) by (simp add: Handshake_def)
  next
    case SlcanAcknowledged
    then show ?thesis using ready unfolding Handshake_def Let_def by (simp only: slcan_event.case)
  next
    case SlcanError
    then show ?thesis using ready unfolding Handshake_def Let_def by (simp only: slcan_event.case)
  qed
qed

lemma Dispatch_ok:
  assumes "link_ok s" and "sla_state s \<noteq> linkClosed"
  shows "link_ok (Dispatch item s)"
proof (cases "sla_state s = linkOpening")
  case True
  then show ?thesis using assms by (simp add: Dispatch_def Handshake_ok)
next
  case False
  then have "sla_state s = linkOpen" using assms(2) by (cases "sla_state s") auto
  then show ?thesis using assms(1) link_ok_error [OF assms(1)]
    by (cases item) (auto simp: Dispatch_def Deliver_def link_ok_def sla_emit_def seen_append Let_def)
qed

lemma Feed_bounded: "length (sd_line d) \<le> maxLineLength \<Longrightarrow> length (sd_line (snd (Feed b d))) \<le> maxLineLength"
  by (auto simp: Feed_def ResetDecoder_def)

lemma feed_received_ok: "link_ok s \<Longrightarrow> link_ok (feed_received bs s)"
proof (induction bs s rule: feed_received.induct)
  case (1 s)
  then show ?case by simp
next
  case (2 b bs s)
  have "link_ok (s\<lparr>sla_decoder := snd (Feed b (sla_decoder s))\<rparr>)"
    using 2(3) Feed_bounded by (simp add: link_ok_def)
  then show ?case using 2 Dispatch_ok [of "s\<lparr>sla_decoder := snd (Feed b (sla_decoder s))\<rparr>"]
    by (auto split: prod.split option.split)
qed

lemma Lost_ok: "link_ok s \<Longrightarrow> link_ok (Lost s)"
  unfolding Lost_def by (rule link_ok_close [of _ "sla_state s = linkOpen"]) (simp_all add: link_ok_def)

lemma ReadAvailable_ok: "link_ok s \<Longrightarrow> ReadAvailable s = (full, s') \<Longrightarrow> link_ok s'"
  by (auto simp: ReadAvailable_def Let_def intro: Lost_ok feed_received_ok split: prod.splits option.splits)

lemma read_chunks_ok: "link_ok s \<Longrightarrow> link_ok (read_chunks n s)"
  by (induction n s rule: read_chunks.induct) (auto dest: ReadAvailable_ok split: prod.split bool.split)

section \<open>Steps\<close>

definition sla_brought :: "'a adapter_event \<Rightarrow> ('p, 'a) slcan_adapter \<Rightarrow> 'a multiset" where
  "sla_brought e s = (case e of AdapterSend _ _ a \<Rightarrow> {#a#} | _ \<Rightarrow> {#})"

lemma PortWrite_log: "PortWrite d s = (ok, s') \<Longrightarrow> sla_log s' = sla_log s \<and> sla_scheduled s' = sla_scheduled s"
  by (auto simp: PortWrite_def split: prod.splits)

lemma SendData_queues:
  "sla_scheduled (SendData canId data a s) = sla_scheduled s + 1"
  "sla_pendingCompletion (SendData canId data a s) = Some a"
  "\<exists>out. sla_log (SendData canId data a s) = sla_log s @ out \<and> completions_in out = {#}"
  by (auto simp: SendData_def ScheduleCompletion_def ReportErrorS_def sla_emit_def dest: PortWrite_log
      split: can_id.split prod.split bool.split)

lemma SendData_ok:
  assumes "link_ok s"
  shows "link_ok (SendData canId data a s)"
proof -
  have "link_ok (sla_emit [FrameLog True i d] s')" if "link_ok s'" "sla_state s' = linkOpen" for s' :: "('a, 'b) slcan_adapter" and i d
    using that by (simp add: link_ok_def sla_emit_def seen_append)
  moreover have "link_ok s' \<and> sla_state s' = sla_state s" if "PortWrite d s = (ok, s')" for d ok s'
    using PortWrite_ok [OF that] assms that by (auto simp: PortWrite_def split: prod.splits)
  ultimately show ?thesis using assms
    by (auto simp: SendData_def ScheduleCompletion_def IsConnectedS_def intro: link_ok_error
        split: can_id.split prod.split bool.split)
qed

lemma sla_apply_ok:
  assumes "link_ok s" and "sla_enabled e s"
  shows "link_ok (sla_apply e s)"
proof (cases e)
  case (AdapterConnect name bitrate)
  then show ?thesis using assms(1) by (simp add: ConnectS_ok)
next
  case AdapterDisconnect
  then show ?thesis using assms(1) by (simp add: DisconnectS_ok)
next
  case (AdapterSend canId data a)
  then show ?thesis using assms(1) by (simp add: SendData_ok)
next
  case AdapterReceiveData
  then show ?thesis using assms(1) by (simp add: ReceiveData_def)
next
  case AdapterReadEvent
  then show ?thesis using assms(1) by (simp add: ProcessReadEvent_def read_chunks_ok)
next
  case AdapterHandshakeTimer
  have "link_ok (CloseS m (s\<lparr>sla_handshakeTimer := None\<rparr>))" for m
    using assms(1) by (intro link_ok_close [of _ "sla_state s = linkOpen"]) (simp_all add: link_ok_def)
  then show ?thesis using AdapterHandshakeTimer by (simp add: HandshakeExpired_def FailHandshake_def)
next
  case AdapterRunScheduled
  then show ?thesis using assms(1)
    by (auto simp: RunScheduled_def Let_def intro: link_ok_completed split: option.split)
next
  case (AdapterTick d)
  then show ?thesis using assms(1) by simp
qed

lemma sla_apply_silent:
  assumes "\<And>canId data a. e \<noteq> AdapterSend canId data a" and "e \<noteq> AdapterRunScheduled"
  shows "silent s (sla_apply e s)"
proof (cases e)
  case AdapterHandshakeTimer
  have "silent (s\<lparr>sla_handshakeTimer := None\<rparr>) (CloseS m (s\<lparr>sla_handshakeTimer := None\<rparr>))" for m
    by (rule CloseS_silent)
  then show ?thesis using AdapterHandshakeTimer by (simp add: HandshakeExpired_def FailHandshake_def)
qed (use assms in \<open>auto simp: ConnectS_silent DisconnectS_silent ReceiveData_def ProcessReadEvent_def
    read_chunks_silent\<close>)

text \<open>What a step does to the sends: it conserves them.\<close>

lemma sla_step_sends:
  assumes "sending_ok s" and "sla_enabled e s"
  shows "sending_ok (sla_apply e s)"
    and "awaited (sla_apply e s) + completions_in (snd (sla_step e s)) = awaited s + sla_brought e s"
proof -
  have "sending_ok (sla_apply e s) \<and>
    awaited (sla_apply e s) + completions_in (snd (sla_step e s)) = awaited s + sla_brought e s"
  proof (cases e)
    case (AdapterSend canId data a)
    obtain out where "sla_log (SendData canId data a s) = sla_log s @ out" "completions_in out = {#}"
      using SendData_queues(3) [of canId data a s] by blast
    then show ?thesis using AdapterSend assms SendData_queues(1,2) [of canId data a s]
      by (simp add: sending_ok_def awaited_def sla_step_def sla_brought_def sla_enabled_def Let_def)
  next
    case AdapterRunScheduled
    then have "sla_scheduled s = 1" using assms by (simp add: sending_ok_def sla_enabled_def)
    moreover from this obtain a where "sla_pendingCompletion s = Some a" using assms(1) by (auto simp: sending_ok_def)
    ultimately show ?thesis using AdapterRunScheduled
      by (simp add: sending_ok_def awaited_def sla_step_def sla_brought_def RunScheduled_def sla_emit_def Let_def)
  qed (use sla_apply_silent [of e s] assms(1) in
      \<open>auto simp: sending_ok_def silent_def awaited_def sla_step_def sla_brought_def Let_def\<close>)
  then show "sending_ok (sla_apply e s)"
    and "awaited (sla_apply e s) + completions_in (snd (sla_step e s)) = awaited s + sla_brought e s"
    by simp_all
qed

interpretation sla: conserving_machine sla_step sla_enabled sla_inv awaited sla_brought completions_in
proof
  fix s :: "('p, 'a) slcan_adapter" and e :: "'a adapter_event"
  assume "sla_inv s" "sla_enabled e s"
  then show "sla_inv (fst (sla_step e s))"
    and "awaited (fst (sla_step e s)) + completions_in (snd (sla_step e s)) = awaited s + sla_brought e s"
    using sla_apply_ok [of s e] sla_step_sends [of s e] by (simp_all add: sla_inv_def sla_step_def Let_def)
qed simp_all

lemma SlcanAdapter_inv: "sla_inv (SlcanAdapter port p now)"
  by (simp add: SlcanAdapter_def sla_inv_def link_ok_def sending_ok_def seen_def slcan_decoder_init_def)

lemma SlcanAdapter_idle: "awaited (SlcanAdapter port p now) = {#}"
  by (simp add: awaited_def SlcanAdapter_def)

section \<open>What a stream of bytes does\<close>

text \<open>The items of the stream, handled until the link closes.\<close>

fun handle_items :: "slcan_event list \<Rightarrow> ('p, 'a) slcan_adapter \<Rightarrow> ('p, 'a) slcan_adapter" where
  "handle_items [] s = s"
| "handle_items (item # items) s =
     (if sla_state s = linkClosed then s else handle_items items (Dispatch item s))"

lemma Dispatch_decoder: "Dispatch item (s\<lparr>sla_decoder := d\<rparr>) = (Dispatch item s)\<lparr>sla_decoder := d\<rparr>"
  by (cases item) (simp_all add: Dispatch_def Handshake_def FailHandshake_def CompleteHandshake_def CloseS_def
      PortClose_def ReportErrorS_def Deliver_def sla_emit_def Let_def)

lemma handle_items_decoder: "handle_items items (s\<lparr>sla_decoder := d\<rparr>) = (handle_items items s)\<lparr>sla_decoder := d\<rparr>"
  by (induction items arbitrary: s) (simp_all add: Dispatch_decoder)

lemma handle_items_closed: "sla_state s = linkClosed \<Longrightarrow> handle_items items s = s"
  by (cases items) simp_all

lemma feed_received_items:
  assumes "feed_all bs (sla_decoder s) = (items, d)"
  shows "\<exists>d'. feed_received bs s = (handle_items items s)\<lparr>sla_decoder := d'\<rparr> \<and>
    (sla_state (feed_received bs s) \<noteq> linkClosed \<longrightarrow> d' = d)"
  using assms
proof (induction bs arbitrary: s items)
  case Nil
  then show ?case by (intro exI [of _ "sla_decoder s"]) simp
next
  case (Cons b bs)
  show ?case
  proof (cases "sla_state s = linkClosed")
    case True
    then show ?thesis by (intro exI [of _ "sla_decoder s"]) (simp add: handle_items_closed)
  next
    case False
    obtain item d1 where feed: "Feed b (sla_decoder s) = (item, d1)" by (cases "Feed b (sla_decoder s)")
    obtain rest where rest: "feed_all bs d1 = (rest, d)"
      "items = (case item of None \<Rightarrow> rest | Some e \<Rightarrow> e # rest)"
      using Cons.prems feed by (auto split: prod.splits option.splits)
    show ?thesis
    proof (cases item)
      case None
      from Cons.IH [of "s\<lparr>sla_decoder := d1\<rparr>" rest] show ?thesis
        using rest feed False None by (auto simp: handle_items_decoder)
    next
      case (Some e)
      have "sla_decoder (Dispatch e (s\<lparr>sla_decoder := d1\<rparr>)) = d1" by (simp add: Dispatch_decoder)
      with Cons.IH [of "Dispatch e (s\<lparr>sla_decoder := d1\<rparr>)" rest] show ?thesis
        using rest feed False Some by (auto simp: handle_items_decoder Dispatch_decoder)
    qed
  qed
qed

section \<open>The handshake\<close>

definition is_reply :: "slcan_event \<Rightarrow> bool" where
  "is_reply item \<longleftrightarrow> (case item of SlcanReceived _ \<Rightarrow> False | _ \<Rightarrow> True)"

text \<open>The first reply answers the close command and may be a rejection; the second and the third
  answer the bitrate and the open command.\<close>

fun handshake_result :: "slcan_event list \<Rightarrow> LinkState" where
  "handshake_result (r1 # r2 # rs) =
     (if r2 = SlcanError then linkClosed
      else case rs of
          [] \<Rightarrow> linkOpening
        | r3 # _ \<Rightarrow> if r3 = SlcanError then linkClosed else linkOpen)"
| "handshake_result _ = linkOpening"

lemma Dispatch_open: "sla_state s = linkOpen \<Longrightarrow> sla_state (Dispatch item s) = linkOpen"
  by (cases item) (auto simp: Dispatch_def ReportErrorS_def Deliver_def sla_emit_def Let_def)

lemma handle_items_open: "sla_state s = linkOpen \<Longrightarrow> sla_state (handle_items items s) = linkOpen"
  by (induction items arbitrary: s) (simp_all add: Dispatch_open)

lemma Dispatch_frame: "sla_state s = linkOpening \<Longrightarrow> Dispatch (SlcanReceived f) s = s"
  by (simp add: Dispatch_def Handshake_def)

lemma Dispatch_reply:
  assumes "sla_state s = linkOpening" and "is_reply item"
  shows "sla_state (Dispatch item s) =
    (if sla_repliesReceived s = 0 then linkOpening else if item = SlcanError then linkClosed
     else if sla_repliesReceived s = 2 then linkOpen else linkOpening)"
    and "sla_state (Dispatch item s) = linkOpening \<Longrightarrow>
      sla_repliesReceived (Dispatch item s) = sla_repliesReceived s + 1"
proof -
  have one: "sla_repliesReceived s + 1 = 1 \<longleftrightarrow> sla_repliesReceived s = 0"
    and three: "sla_repliesReceived s + 1 = 3 \<longleftrightarrow> sla_repliesReceived s = 2"
    using add_right_cancel [of "sla_repliesReceived s" 1 0] add_right_cancel [of "sla_repliesReceived s" 1 2] by simp_all
  show "sla_state (Dispatch item s) =
    (if sla_repliesReceived s = 0 then linkOpening else if item = SlcanError then linkClosed
     else if sla_repliesReceived s = 2 then linkOpen else linkOpening)"
    using assms one three
    by (cases item) (auto simp: Dispatch_def Handshake_def is_reply_def FailHandshake_def CloseS_def CompleteHandshake_def
        ReportErrorS_def PortClose_def sla_emit_def closeReply_def openCommandReplies_def Let_def)
  show "sla_state (Dispatch item s) = linkOpening \<Longrightarrow>
      sla_repliesReceived (Dispatch item s) = sla_repliesReceived s + 1"
    using assms
    by (cases item) (auto simp: Dispatch_def Handshake_def is_reply_def FailHandshake_def CloseS_def CompleteHandshake_def
        ReportErrorS_def PortClose_def sla_emit_def Let_def split: if_splits)
qed

text \<open>How the remaining items decide, by the number of replies so far.\<close>

fun pending_result :: "nat \<Rightarrow> slcan_event list \<Rightarrow> LinkState" where
  "pending_result n [] = linkOpening"
| "pending_result n (item # items) =
     (if \<not> is_reply item then pending_result n items
      else if n = 0 then pending_result 1 items
      else if item = SlcanError then linkClosed
      else if n = 2 then linkOpen
      else pending_result (n + 1) items)"

lemma pending_result_handshake:
  "pending_result 2 items = (case filter is_reply items of [] \<Rightarrow> linkOpening
     | r3 # _ \<Rightarrow> if r3 = SlcanError then linkClosed else linkOpen)"
  "pending_result 1 items = (case filter is_reply items of [] \<Rightarrow> linkOpening
     | r2 # rs \<Rightarrow> if r2 = SlcanError then linkClosed
       else case rs of [] \<Rightarrow> linkOpening | r3 # _ \<Rightarrow> if r3 = SlcanError then linkClosed else linkOpen)"
  "pending_result 0 items = handshake_result (filter is_reply items)"
proof -
  show two: "pending_result 2 items = (case filter is_reply items of [] \<Rightarrow> linkOpening
     | r3 # _ \<Rightarrow> if r3 = SlcanError then linkClosed else linkOpen)" for items
    by (induction items) simp_all
  show one: "pending_result 1 items = (case filter is_reply items of [] \<Rightarrow> linkOpening
     | r2 # rs \<Rightarrow> if r2 = SlcanError then linkClosed
       else case rs of [] \<Rightarrow> linkOpening | r3 # _ \<Rightarrow> if r3 = SlcanError then linkClosed else linkOpen)" for items
    by (induction items) (simp_all add: two [unfolded numeral_2_eq_2] numeral_2_eq_2)
  show "pending_result 0 items = handshake_result (filter is_reply items)"
  proof (induction items)
    case Nil
    then show ?case by simp
  next
    case (Cons item items)
    then show ?case using one [of items] by (cases "filter is_reply items") (auto split: list.split)
  qed
qed

lemma handle_items_opening:
  assumes "sla_state s = linkOpening" and "sla_repliesReceived s = of_nat n" and "n < 3"
  shows "sla_state (handle_items items s) = pending_result n items"
  using assms
proof (induction items arbitrary: s n)
  case Nil
  then show ?case by simp
next
  case (Cons item items)
  show ?case
  proof (cases "is_reply item")
    case False
    then obtain f where "item = SlcanReceived f" by (cases item) (auto simp: is_reply_def)
    then show ?thesis using Cons False by (simp add: Dispatch_frame)
  next
    case True
    note reply = Dispatch_reply [OF Cons.prems(1) True]
    have n: "sla_repliesReceived s = 0 \<longleftrightarrow> n = 0" "sla_repliesReceived s = 2 \<longleftrightarrow> n = 2"
      using Cons.prems(2,3) by (auto simp: less_Suc_eq numeral_3_eq_3)
    show ?thesis
    proof (cases "sla_state (Dispatch item s) = linkOpening")
      case True
      then have "sla_state (handle_items items (Dispatch item s)) = pending_result (n + 1) items"
        using reply(2) Cons.prems reply(1) n
        by (intro Cons.IH) (auto split: if_splits)
      then show ?thesis using Cons.prems(1) reply(1) n True \<open>is_reply item\<close> by (auto split: if_splits)
    next
      case False
      then show ?thesis using Cons.prems(1) reply(1) n \<open>is_reply item\<close>
        by (auto simp: handle_items_closed handle_items_open split: if_splits)
    qed
  qed
qed

lemma ConnectS_starts:
  assumes "ConnectS name bitrate s = (True, s1)"
  shows "sla_state s1 = linkOpening" and "sla_repliesReceived s1 = 0"
    and "sla_decoder s1 = slcan_decoder_init"
  using assms
  by (auto simp: ConnectS_def Let_def ResetDecoder_eq split: option.splits prod.splits bool.splits if_splits)

section \<open>Frames on an open link\<close>

lemma handle_received:
  assumes "sla_state s = linkOpen" and "sla_receiving s"
  shows "handle_items (map (\<lambda>(i, data). received (i, True, data)) frames) s =
    s\<lparr>sla_log := sla_log s @ concat (map (\<lambda>(i, data).
      [FrameLog False (i AND 0x1fffffff) data, FrameReceived (i AND 0x1fffffff) data]) frames)\<rparr>"
  using assms
proof (induction frames arbitrary: s)
  case Nil
  then show ?case by simp
next
  case (Cons f frames)
  then show ?case by (cases f) (simp add: Dispatch_def Deliver_def sla_emit_def Let_def)
qed

section \<open>Properties\<close>

text \<open>C27: In every state an adapter can reach, its observers have been told a consistent story (they
  saw a connection exactly when the link is open, it was announced once per connection, and frames
  were logged and delivered only while connected), the handshake timer runs exactly during the
  handshake, and every send was completed once or is the one that waits.\<close>

theorem slcan_observers_consistent:
  fixes es :: "'a adapter_event list" and port :: "'p serial_port"
  assumes "admissible sla_enabled sla_step es (SlcanAdapter port p now)"
  shows "case run_io sla_step es (SlcanAdapter port p now) of
    (s, out) \<Rightarrow>
      seen (sla_log s) = Some (IsConnectedS s) \<and>
      (sla_state s = linkOpening) = (sla_handshakeTimer s \<noteq> None) \<and>
      completions_in out + awaited s = total_over sla_brought sla_step es (SlcanAdapter port p now) \<and>
      size (awaited s) \<le> 1"
proof -
  let ?s0 = "SlcanAdapter port p now :: ('p, 'a) slcan_adapter"
  obtain s out where run: "run_io sla_step es ?s0 = (s, out)" by force
  have "sla_inv s" using sla.run_inv [OF SlcanAdapter_inv assms] by (simp add: run)
  moreover have "awaited s + completions_in out = total_over sla_brought sla_step es ?s0"
    using sla.run_conserves [OF SlcanAdapter_inv assms] by (simp add: run SlcanAdapter_idle)
  moreover have "size (awaited s) \<le> 1" by (simp add: awaited_def split: option.split)
  ultimately show ?thesis
    by (simp add: run sla_inv_def link_ok_def IsConnectedS_def add.commute)
qed

definition sample_port :: "bytes serial_port" where
  "sample_port = \<lparr>sp_Open = \<lambda>name p. (opened, p), sp_Close = \<lambda>p. p, sp_Write = \<lambda>d p. (True, p),
     sp_Read = \<lambda>n p. (Some (take n p), drop n p)\<rparr>"

definition sample_adapter_events :: "nat adapter_event list" where
  "sample_adapter_events =
     [AdapterConnect ''/dev/ttyACM0'' 500000, AdapterReceiveData, AdapterSend (Id29 5) [1] 7, AdapterTick 10,
      AdapterRunScheduled, AdapterDisconnect]"

theorem slcan_observers_consistent_witness:
  "seen (sla_log (fst (run_io sla_step sample_adapter_events (SlcanAdapter sample_port [] 0)))) =
     Some (IsConnectedS (fst (run_io sla_step sample_adapter_events (SlcanAdapter sample_port [] 0))))"
proof -
  have "admissible sla_enabled sla_step sample_adapter_events (SlcanAdapter sample_port [] 0)"
    by (simp add: sample_adapter_events_def sla_enabled_def sla_step_def SlcanAdapter_def ConnectS_def
        sample_port_def PortWrite_def SendData_def ScheduleCompletion_def IsConnectedS_def ReceiveData_def
        SlcanBitrateCode_def bitrateCodes_def Let_def)
  from slcan_observers_consistent [OF this] show ?thesis by (auto split: prod.splits)
qed

text \<open>C26: After an accepted \<open>Connect\<close>, what the adapter answers decides the connection, however the
  bytes are split and whatever frames come between: the first reply, to the close command, does
  not matter; the link opens when the second and the third are acknowledgements, and closes at the
  first rejection among them.\<close>

theorem slcan_handshake_outcome:
  assumes "ConnectS name bitrate s = (True, s1)"
  shows "sla_state (feed_received bs s1) =
    handshake_result (filter is_reply (fst (feed_all bs slcan_decoder_init)))"
proof -
  note start = ConnectS_starts [OF assms]
  obtain items d where items: "feed_all bs (sla_decoder s1) = (items, d)" by force
  from feed_received_items [OF this] have "sla_state (feed_received bs s1) = sla_state (handle_items items s1)"
    by auto
  also have "\<dots> = pending_result 0 items"
    using handle_items_opening [OF start(1), of 0 items] start(2) by simp
  finally show ?thesis using items by (simp add: start(3) pending_result_handshake)
qed

theorem slcan_handshake_outcome_witness:
  "sla_state (feed_received [0x07, 0x0D, 0x0D] (snd (ConnectS ''COM3'' 250000 (SlcanAdapter sample_port [] 0 :: (bytes, nat) slcan_adapter)))) =
     handshake_result (filter is_reply (fst (feed_all [0x07, 0x0D, 0x0D] slcan_decoder_init)))"
proof (rule slcan_handshake_outcome [OF prod_eqI])
  show "fst (ConnectS ''COM3'' 250000 (SlcanAdapter sample_port [] 0 :: (bytes, nat) slcan_adapter)) =
      fst (True, snd (ConnectS ''COM3'' 250000 (SlcanAdapter sample_port [] 0 :: (bytes, nat) slcan_adapter)))"
    by (simp add: ConnectS_def SlcanAdapter_def sample_port_def PortWrite_def IsConnectedS_def
        SlcanBitrateCode_def bitrateCodes_def Let_def)
qed simp

text \<open>What one adapter writes, another delivers.  A send on an open link writes one encoded frame
  to its port, and a stream of such frames, read by an adapter whose link is open and whose decoder
  is between lines, is logged and delivered there frame by frame, in order, with the same
  twenty-nine bit identifiers and the same data, and nothing else happens.\<close>

theorem slcan_frames_delivered:
  assumes "sla_state r = linkOpen" and "sla_receiving r" and "sla_decoder r = slcan_decoder_init"
    and "\<forall>(i, data) \<in> set frames. length data \<le> 8"
  shows "feed_received (concat (map (\<lambda>(i, data). EncodeSlcanFrame i True data) frames)) r =
      r\<lparr>sla_log := sla_log r @ concat (map (\<lambda>(i, data).
        [FrameLog False (i AND 0x1fffffff) data, FrameReceived (i AND 0x1fffffff) data]) frames)\<rparr> \<and>
    (sla_state t = linkOpen \<longrightarrow>
      sp_Write (sla_port t) (EncodeSlcanFrame i True data) (sla_portState t) = (True, p) \<longrightarrow>
      sla_portState (SendData (Id29 i) data a t) = p \<and>
      sla_log (SendData (Id29 i) data a t) = sla_log t @ [FrameLog True i data])"
proof -
  let ?frames = "map (\<lambda>(i, data). (i, True, data)) frames"
  let ?bs = "concat (map (\<lambda>(i, data). EncodeSlcanFrame i True data) frames)"
  have "?bs = encode_stream ?frames"
    by (induction frames) (auto simp: encode_stream_def)
  moreover have "decode_stream (encode_stream ?frames) = (map received ?frames, slcan_decoder_init)"
    using assms(4) by (intro slcan.decode_encode) auto
  ultimately have items: "feed_all ?bs (sla_decoder r) =
      (map (\<lambda>(i, data). received (i, True, data)) frames, slcan_decoder_init)"
    by (simp add: decode_stream_def assms(3) comp_def case_prod_beta)
  let ?r = "handle_items (map (\<lambda>(i, data). received (i, True, data)) frames) r"
  have "sla_state ?r \<noteq> linkClosed" "sla_decoder ?r = slcan_decoder_init"
    unfolding handle_received [OF assms(1,2)] using assms(1,3) by simp_all
  with feed_received_items [OF items] have "feed_received ?bs r = ?r" by auto
  moreover have "sla_portState (SendData (Id29 i) data a t) = p \<and>
      sla_log (SendData (Id29 i) data a t) = sla_log t @ [FrameLog True i data]"
    if "sla_state t = linkOpen" "sp_Write (sla_port t) (EncodeSlcanFrame i True data) (sla_portState t) = (True, p)"
    using that by (simp add: SendData_def IsConnectedS_def PortWrite_def ScheduleCompletion_def sla_emit_def)
  ultimately show ?thesis unfolding handle_received [OF assms(1,2)] by blast
qed

theorem slcan_frames_delivered_witness:
  "feed_received (EncodeSlcanFrame 0x123 True [9, 8])
     ((SlcanAdapter sample_port [] 0 :: (bytes, nat) slcan_adapter)\<lparr>sla_state := linkOpen, sla_receiving := True\<rparr>) =
   (SlcanAdapter sample_port [] 0)\<lparr>sla_state := linkOpen, sla_receiving := True,
     sla_log := [FrameLog False (0x123 AND 0x1fffffff) [9, 8], FrameReceived (0x123 AND 0x1fffffff) [9, 8]]\<rparr>"
  using conjunct1 [OF slcan_frames_delivered [of "(SlcanAdapter sample_port [] 0)\<lparr>sla_state := linkOpen, sla_receiving := True\<rparr>"
      "[(0x123, [9, 8])]"]]
  by (simp add: SlcanAdapter_def del: feed_received.simps)

end
