(* ===== verification/MultiCanAdapter.thy ===== *)
theory MultiCanAdapter
  imports SlcanAdapter
begin

text \<open>
  The selection of an adapter by the name of its interface,
  \<^verbatim>\<open>can-lite/drivers/implementation/MultiCanAdapter.cpp\<close>.

  An adapter is the interface \<^verbatim>\<open>CanBusAdapter\<close>: the record \<open>can_bus_adapter\<close> of its operations on a
  state \<open>'w\<close>, each with what it tells its observer and its receive callback during the call.  The
  serial adapter is one of them (\<open>slcan_bus\<close>).  \<open>mul_active\<close> is the index of the backend whose adapter
  the pointer \<^verbatim>\<open>active\<close> points to.
\<close>

section \<open>The interface of an adapter\<close>

record ('w, 'a) can_bus_adapter =
  cba_Connect :: "string \<Rightarrow> u32 \<Rightarrow> 'w \<Rightarrow> bool \<times> 'a adapter_output list \<times> 'w"
  cba_Disconnect :: "'w \<Rightarrow> 'a adapter_output list \<times> 'w"
  cba_IsConnected :: "'w \<Rightarrow> bool"
  cba_SendData :: "can_id \<Rightarrow> bytes \<Rightarrow> 'a \<Rightarrow> 'w \<Rightarrow> 'a adapter_output list \<times> 'w"
  cba_ReceiveData :: "'w \<Rightarrow> 'w"
  cba_FileDescriptor :: "'w \<Rightarrow> int"
  cba_ProcessReadEvent :: "'w \<Rightarrow> 'a adapter_output list \<times> 'w"
  cba_Interfaces :: "'w \<Rightarrow> string list"
  cba_MissingDrivers :: "'w \<Rightarrow> string list"

record ('w, 'a) backend =
  be_adapter :: "('w, 'a) can_bus_adapter"
  be_prefix :: string
  be_alias :: string
  be_state :: 'w

record ('w, 'a) multi_adapter =
  mul_backends :: "('w, 'a) backend list"
  mul_active :: "nat option"
  mul_receiving :: bool
  mul_pendingCompletion :: "'a option"
  mul_pendingSuccess :: bool
  mul_scheduled :: nat
  mul_log :: "'a adapter_output list"

definition separator :: char where "separator = CHR '':''"
definition maxQuotedNameLength :: nat where "maxQuotedNameLength = 48"
definition maxInterfaceNameLength :: nat where "maxInterfaceNameLength = 64"

definition mul_emit :: "'a adapter_output list \<Rightarrow> ('w, 'a) multi_adapter \<Rightarrow> ('w, 'a) multi_adapter" where
  "mul_emit out m = m\<lparr>mul_log := mul_log m @ out\<rparr>"

definition MultiCanAdapter :: "('w, 'a) multi_adapter" where
  "MultiCanAdapter = \<lparr>mul_backends = [], mul_active = None, mul_receiving = False,
     mul_pendingCompletion = None, mul_pendingSuccess = False, mul_scheduled = 0, mul_log = []\<rparr>"

definition AddBackend ::
    "string \<Rightarrow> ('w, 'a) can_bus_adapter \<Rightarrow> 'w \<Rightarrow> string \<Rightarrow> ('w, 'a) multi_adapter \<Rightarrow> ('w, 'a) multi_adapter" where
  "AddBackend prefix adapter w alias m =
     m\<lparr>mul_backends := mul_backends m @
         [\<lparr>be_adapter = adapter, be_prefix = prefix, be_alias = alias, be_state = cba_ReceiveData adapter w\<rparr>]\<rparr>"

section \<open>What a backend tells\<close>

definition IsActive :: "nat \<Rightarrow> ('w, 'a) multi_adapter \<Rightarrow> bool" where
  "IsActive i m \<longleftrightarrow> mul_active m = Some i"

text \<open>The observer methods of backend \<open>i\<close>, and the receive callback that \<^verbatim>\<open>Add\<close> installs.  A completion
  goes straight to the user.\<close>

fun backend_told :: "nat \<Rightarrow> 'a adapter_output \<Rightarrow> ('w, 'a) multi_adapter \<Rightarrow> ('w, 'a) multi_adapter" where
  "backend_told i (FrameLog transmitted canId data) m =
     (if IsActive i m then mul_emit [FrameLog transmitted canId data] m else m)"
| "backend_told i (AdapterError message) m =
     (if IsActive i m then mul_emit [AdapterError message] m else m)"
| "backend_told i (ConnectionChanged connected) m =
     (if \<not> IsActive i m then m
      else mul_emit [ConnectionChanged connected]
        (if \<not> connected then m\<lparr>mul_active := None\<rparr> else m))"
| "backend_told i (FrameReceived canId data) m =
     (if IsActive i m \<and> mul_receiving m then mul_emit [FrameReceived canId data] m else m)"
| "backend_told i (SendCompleted a ok) m = mul_emit [SendCompleted a ok] m"

definition backend_result ::
    "nat \<Rightarrow> 'a adapter_output list \<times> 'w \<Rightarrow> ('w, 'a) multi_adapter \<Rightarrow> ('w, 'a) multi_adapter" where
  "backend_result i result m =
     (case result of
        (out, w) \<Rightarrow>
          fold (backend_told i) out
            (m\<lparr>mul_backends := (mul_backends m)[i := (mul_backends m ! i)\<lparr>be_state := w\<rparr>]\<rparr>))"

section \<open>Interface names\<close>

definition ChannelAfter :: "string \<Rightarrow> string \<Rightarrow> string option" where
  "ChannelAfter interfaceName label =
     (if label = [] \<or> length interfaceName \<le> length label \<or> interfaceName ! length label \<noteq> separator then None
      else if take (length label) interfaceName \<noteq> label then None
      else Some (drop (length label + 1) interfaceName))"

fun resolve_from ::
    "nat \<Rightarrow> ('w, 'a) backend list \<Rightarrow> nat option \<Rightarrow> string \<Rightarrow> (nat \<times> string) option" where
  "resolve_from i [] fallback interfaceName =
     (case fallback of
        None \<Rightarrow> None
      | Some j \<Rightarrow> if separator \<notin> set interfaceName then Some (j, interfaceName) else None)"
| "resolve_from i (backend # rest) fallback interfaceName =
     (case ChannelAfter interfaceName (be_prefix backend) of
        Some channel \<Rightarrow> Some (i, channel)
      | None \<Rightarrow>
          (case ChannelAfter interfaceName (be_alias backend) of
             Some channel \<Rightarrow> Some (i, channel)
           | None \<Rightarrow>
               resolve_from (i + 1) rest (if be_prefix backend = [] then Some i else fallback) interfaceName))"

definition Resolve :: "string \<Rightarrow> ('w, 'a) multi_adapter \<Rightarrow> (nat \<times> string) option" where
  "Resolve interfaceName m = resolve_from 0 (mul_backends m) None interfaceName"

definition backend_choice :: "('w, 'a) backend \<Rightarrow> string" where
  "backend_choice backend =
     (if be_prefix backend = [] then ''<interface>''
      else take maxQuotedNameLength (be_prefix backend) @ '':<channel>'')"

fun choices :: "bool \<Rightarrow> ('w, 'a) backend list \<Rightarrow> string" where
  "choices first [] = []"
| "choices first (backend # rest) =
     (if first then [] else '', '') @ backend_choice backend @ choices False rest"

definition ReportUnknownInterface :: "string \<Rightarrow> ('w, 'a) multi_adapter \<Rightarrow> ('w, 'a) multi_adapter" where
  "ReportUnknownInterface interfaceName m =
     (let errorText = ''Unknown interface '' @ [CHR 0x22] @ take maxQuotedNameLength interfaceName @
        [CHR 0x22] @ ''; use one of: '' @ choices True (mul_backends m)
      in mul_emit [AdapterError errorText] m)"

section \<open>Operations\<close>

definition MultiIsConnected :: "('w, 'a) multi_adapter \<Rightarrow> bool" where
  "MultiIsConnected m =
     (case mul_active m of
        None \<Rightarrow> False
      | Some i \<Rightarrow> cba_IsConnected (be_adapter (mul_backends m ! i)) (be_state (mul_backends m ! i)))"

definition MultiDisconnect :: "('w, 'a) multi_adapter \<Rightarrow> ('w, 'a) multi_adapter" where
  "MultiDisconnect m =
     (case mul_active m of
        None \<Rightarrow> m\<lparr>mul_active := None\<rparr>
      | Some i \<Rightarrow>
          (backend_result i (cba_Disconnect (be_adapter (mul_backends m ! i)) (be_state (mul_backends m ! i))) m)
            \<lparr>mul_active := None\<rparr>)"

definition MultiConnect ::
    "string \<Rightarrow> u32 \<Rightarrow> ('w, 'a) multi_adapter \<Rightarrow> bool \<times> ('w, 'a) multi_adapter" where
  "MultiConnect interfaceName bitrate m0 =
     (let m = (if MultiIsConnected m0 then MultiDisconnect m0 else m0) in
      case Resolve interfaceName m of
        None \<Rightarrow> (False, ReportUnknownInterface interfaceName m)
      | Some (i, channel) \<Rightarrow>
          (case cba_Connect (be_adapter (mul_backends m ! i)) channel bitrate (be_state (mul_backends m ! i)) of
             (ok, out, w) \<Rightarrow>
               let m = backend_result i (out, w) (m\<lparr>mul_active := Some i\<rparr>)
               in if \<not> ok then (False, m\<lparr>mul_active := None\<rparr>) else (True, m)))"

definition MultiScheduleCompletion ::
    "'a \<Rightarrow> bool \<Rightarrow> ('w, 'a) multi_adapter \<Rightarrow> ('w, 'a) multi_adapter" where
  "MultiScheduleCompletion action result m =
     m\<lparr>mul_pendingCompletion := Some action, mul_pendingSuccess := result,
       mul_scheduled := mul_scheduled m + 1\<rparr>"

definition MultiRunScheduled :: "('w, 'a) multi_adapter \<Rightarrow> ('w, 'a) multi_adapter" where
  "MultiRunScheduled m0 =
     (let m = m0\<lparr>mul_scheduled := mul_scheduled m0 - 1\<rparr> in
      case mul_pendingCompletion m of
        None \<Rightarrow> m
      | Some action \<Rightarrow> mul_emit [SendCompleted action (mul_pendingSuccess m)] m)"

definition MultiSendData ::
    "can_id \<Rightarrow> bytes \<Rightarrow> 'a \<Rightarrow> ('w, 'a) multi_adapter \<Rightarrow> ('w, 'a) multi_adapter" where
  "MultiSendData canId data actionOnCompletion m =
     (case mul_active m of
        None \<Rightarrow> MultiScheduleCompletion actionOnCompletion False m
      | Some i \<Rightarrow>
          backend_result i
            (cba_SendData (be_adapter (mul_backends m ! i)) canId data actionOnCompletion
               (be_state (mul_backends m ! i))) m)"

definition MultiReceiveData :: "('w, 'a) multi_adapter \<Rightarrow> ('w, 'a) multi_adapter" where
  "MultiReceiveData m = m\<lparr>mul_receiving := True\<rparr>"

definition MultiFileDescriptor :: "('w, 'a) multi_adapter \<Rightarrow> int" where
  "MultiFileDescriptor m =
     (case mul_active m of
        None \<Rightarrow> - 1
      | Some i \<Rightarrow> cba_FileDescriptor (be_adapter (mul_backends m ! i)) (be_state (mul_backends m ! i)))"

definition MultiProcessReadEvent :: "('w, 'a) multi_adapter \<Rightarrow> ('w, 'a) multi_adapter" where
  "MultiProcessReadEvent m =
     (case mul_active m of
        None \<Rightarrow> m
      | Some i \<Rightarrow>
          backend_result i
            (cba_ProcessReadEvent (be_adapter (mul_backends m ! i)) (be_state (mul_backends m ! i))) m)"

definition backend_interface :: "('w, 'a) backend \<Rightarrow> string \<Rightarrow> string" where
  "backend_interface backend channel =
     (if be_prefix backend = [] then channel
      else
        let name = be_prefix backend @ [separator]
        in name @ take (maxInterfaceNameLength - length name) channel)"

definition MultiEnumerateInterfaces :: "('w, 'a) multi_adapter \<Rightarrow> string list" where
  "MultiEnumerateInterfaces m =
     concat (map (\<lambda>backend. map (backend_interface backend)
       (cba_Interfaces (be_adapter backend) (be_state backend))) (mul_backends m))"

definition IsUsable :: "('w, 'a) backend \<Rightarrow> bool" where
  "IsUsable backend \<longleftrightarrow>
     cba_MissingDrivers (be_adapter backend) (be_state backend) = [] \<and>
     cba_Interfaces (be_adapter backend) (be_state backend) \<noteq> []"

definition MultiEnumerateMissingDrivers :: "('w, 'a) multi_adapter \<Rightarrow> string list" where
  "MultiEnumerateMissingDrivers m =
     (if list_ex IsUsable (mul_backends m) then []
      else concat (map (\<lambda>backend. cba_MissingDrivers (be_adapter backend) (be_state backend)) (mul_backends m)))"

section \<open>The serial adapter as a backend\<close>

definition slcan_told :: "('p, 'a) slcan_adapter \<Rightarrow> ('p, 'a) slcan_adapter \<Rightarrow> 'a adapter_output list" where
  "slcan_told s s' = drop (length (sla_log s)) (sla_log s')"

text \<open>The port lists its names and gives its handle; the serial adapter needs no driver.\<close>

definition slcan_bus ::
    "('p \<Rightarrow> int) \<Rightarrow> ('p \<Rightarrow> string list) \<Rightarrow> (('p, 'a) slcan_adapter, 'a) can_bus_adapter" where
  "slcan_bus portHandle portNames =
     \<lparr>cba_Connect = \<lambda>name bitrate s. (case ConnectS name bitrate s of (ok, s') \<Rightarrow> (ok, slcan_told s s', s')),
      cba_Disconnect = \<lambda>s. (slcan_told s (DisconnectS s), DisconnectS s),
      cba_IsConnected = IsConnectedS,
      cba_SendData = \<lambda>canId data a s. (slcan_told s (SendData canId data a s), SendData canId data a s),
      cba_ReceiveData = ReceiveData,
      cba_FileDescriptor = \<lambda>s. portHandle (sla_portState s),
      cba_ProcessReadEvent = \<lambda>s. (slcan_told s (ProcessReadEvent s), ProcessReadEvent s),
      cba_Interfaces = \<lambda>s. portNames (sla_portState s),
      cba_MissingDrivers = \<lambda>_. []\<rparr>"

end
