(* ===== verification/MultiCanLaws.thy ===== *)
theory MultiCanLaws
  imports MultiCanAdapter SlcanLink
begin

text \<open>
  What the selection of adapters guarantees: an interface name that it lists selects the adapter that
  listed it, only the active adapter is heard, and an accepted connection makes the selected
  adapter active.  The contract an adapter has to keep for that is the locale \<open>bus_adapter\<close>, which the
  serial adapter interprets.
\<close>

section \<open>Names\<close>

lemma ChannelAfter_eq:
  "ChannelAfter name label = Some channel \<longleftrightarrow> label \<noteq> [] \<and> name = label @ separator # channel"
proof
  assume found: "ChannelAfter name label = Some channel"
  then have "label \<noteq> []" "length label < length name" "name ! length label = separator"
    "take (length label) name = label" "channel = drop (length label + 1) name"
    by (auto simp: ChannelAfter_def split: if_splits)
  then show "label \<noteq> [] \<and> name = label @ separator # channel"
    using id_take_nth_drop [of "length label" name] by simp
next
  assume "label \<noteq> [] \<and> name = label @ separator # channel"
  then show "ChannelAfter name label = Some channel" by (auto simp: ChannelAfter_def)
qed

definition names :: "('w, 'a) backend \<Rightarrow> string \<Rightarrow> string option" where
  "names b name =
     (case ChannelAfter name (be_prefix b) of Some ch \<Rightarrow> Some ch | None \<Rightarrow> ChannelAfter name (be_alias b))"

lemma resolve_from_named:
  assumes "k < length bs" and "names (bs ! k) name = Some ch" and "\<forall>j < k. names (bs ! j) name = None"
  shows "resolve_from i bs fallback name = Some (i + k, ch)"
  using assms
proof (induction bs arbitrary: i k fallback)
  case Nil
  then show ?case by simp
next
  case (Cons b bs)
  show ?case
  proof (cases k)
    case 0
    then show ?thesis using Cons.prems by (auto simp: names_def split: option.splits)
  next
    case (Suc n)
    then have "names b name = None" "\<forall>j < n. names (bs ! j) name = None"
      using Cons.prems(3) by auto
    then show ?thesis using Cons.IH [of n "i + 1"] Cons.prems Suc
      by (auto simp: names_def split: option.splits)
  qed
qed

text \<open>The last backend without a prefix serves the names that no label claims.\<close>

fun last_bare :: "nat \<Rightarrow> ('w, 'a) backend list \<Rightarrow> nat option \<Rightarrow> nat option" where
  "last_bare i [] fallback = fallback"
| "last_bare i (b # bs) fallback = last_bare (i + 1) bs (if be_prefix b = [] then Some i else fallback)"

lemma resolve_from_unnamed:
  assumes "\<forall>b \<in> set bs. names b name = None"
  shows "resolve_from i bs fallback name =
    (if separator \<in> set name then None else map_option (\<lambda>j. (j, name)) (last_bare i bs fallback))"
  using assms by (induction bs arbitrary: i fallback) (auto simp: names_def split: option.splits)

lemma last_bare_eq:
  assumes "k < length bs" and "be_prefix (bs ! k) = []" and "\<forall>j < length bs. k < j \<longrightarrow> be_prefix (bs ! j) \<noteq> []"
  shows "last_bare i bs fallback = Some (i + k)"
  using assms
proof (induction bs arbitrary: i k fallback)
  case Nil
  then show ?case by simp
next
  case (Cons b bs)
  show ?case
  proof (cases k)
    case 0
    have "last_bare j bs fb = fb" if "\<forall>b \<in> set bs. be_prefix b \<noteq> []" for j fb
      using that by (induction bs arbitrary: j) simp_all
    moreover have "be_prefix (bs ! n) \<noteq> []" if "n < length bs" for n
      using Cons.prems(3) [rule_format, of "Suc n"] that 0 by simp
    then have "\<forall>b \<in> set bs. be_prefix b \<noteq> []" by (metis in_set_conv_nth)
    ultimately show ?thesis using 0 Cons.prems by simp
  next
    case (Suc n)
    have "be_prefix (bs ! j) \<noteq> []" if "j < length bs" "n < j" for j
      using Cons.prems(3) [rule_format, of "Suc j"] that Suc by simp
    then show ?thesis using Cons.IH [of n "i + 1"] Cons.prems(1,2) Suc by simp
  qed
qed

definition labels :: "('w, 'a) backend \<Rightarrow> string set" where
  "labels b = {be_prefix b, be_alias b} - {[]}"

text \<open>No two backends share a label, and no label contains the separator.\<close>

definition labels_distinct :: "('w, 'a) backend list \<Rightarrow> bool" where
  "labels_distinct bs \<longleftrightarrow>
     (\<forall>i < length bs. \<forall>j < length bs. i \<noteq> j \<longrightarrow> labels (bs ! i) \<inter> labels (bs ! j) = {}) \<and>
     (\<forall>b \<in> set bs. \<forall>l \<in> labels b. separator \<notin> set l)"

lemma split_at_separator:
  assumes "xs @ c # ys = us @ c # vs" and "c \<notin> set xs" and "c \<notin> set us"
  shows "xs = us"
  using assms
proof (induction xs arbitrary: us)
  case Nil
  then show ?case by (cases us) auto
next
  case (Cons x xs)
  then show ?case by (cases us) auto
qed

lemma names_eq: "names b name = Some ch \<Longrightarrow> \<exists>l \<in> labels b. name = l @ separator # ch"
  by (auto simp: names_def labels_def ChannelAfter_eq split: option.splits)

lemma names_prefix:
  assumes "be_prefix b \<noteq> []"
  shows "names b (be_prefix b @ separator # ch) = Some ch"
proof -
  have "ChannelAfter (be_prefix b @ separator # ch) (be_prefix b) = Some ch"
    using assms by (simp add: ChannelAfter_eq)
  then show ?thesis by (simp add: names_def)
qed

section \<open>The contract of an adapter\<close>

text \<open>What the selection relies on: an adapter that is not connected does not report the loss of a
  connection while it accepts a new one, and it is not connected after \<open>Disconnect\<close>.\<close>

locale bus_adapter =
  fixes adapter :: "('w, 'a) can_bus_adapter"
  assumes connect_keeps: "\<not> cba_IsConnected adapter w \<Longrightarrow>
      cba_Connect adapter name bitrate w = (True, out, w') \<Longrightarrow> ConnectionChanged False \<notin> set out"
    and disconnects: "cba_Disconnect adapter w = (out, w') \<Longrightarrow> \<not> cba_IsConnected adapter w'"
begin

lemma accepted_is_active:
  assumes "\<not> MultiIsConnected m" and "Resolve name m = Some (i, channel)"
    and "be_adapter (mul_backends m ! i) = adapter"
    and "\<not> cba_IsConnected adapter (be_state (mul_backends m ! i))"
    and "MultiConnect name bitrate m = (True, m')"
  shows "mul_active m' = Some i"
proof -
  obtain ok out w where call: "cba_Connect adapter channel bitrate (be_state (mul_backends m ! i)) = (ok, out, w)"
    by (metis prod_cases3)
  have ok: "ok" and m': "m' = backend_result i (out, w) (m\<lparr>mul_active := Some i\<rparr>)"
    using assms(1-3,5) call by (auto simp: MultiConnect_def Let_def split: if_splits)
  have quiet: "ConnectionChanged False \<notin> set out" using connect_keeps [OF assms(4)] call ok by simp
  have "mul_active (fold (backend_told i) out x) = Some i" if "mul_active x = Some i" for x :: "('w, 'a) multi_adapter"
    using that quiet
  proof (induction out arbitrary: x)
    case Nil
    then show ?case by simp
  next
    case (Cons e out)
    have "mul_active (backend_told i e x) = Some i"
      using Cons.prems by (cases e) (auto simp: IsActive_def mul_emit_def)
    then show ?case using Cons.IH Cons.prems(2) by simp
  qed
  then show ?thesis by (simp add: m' backend_result_def)
qed

end

lemma slcan_told_silent: "slcan_told s (s\<lparr>sla_log := sla_log s @ out\<rparr>) = out"
  by (simp add: slcan_told_def)

lemma ConnectS_told:
  assumes "\<not> IsConnectedS s" and "ConnectS name bitrate s = (True, s')"
  shows "slcan_told s s' = []"
  using assms by (auto simp: ConnectS_def Let_def slcan_told_def dest: PortWrite_log
      split: option.splits prod.splits bool.splits if_splits)

lemma DisconnectS_closed: "sla_state (DisconnectS s) = linkClosed"
  by (auto simp: DisconnectS_def CloseS_def PortClose_def ReportErrorS_def sla_emit_def Let_def)

interpretation slcan_backend: bus_adapter "slcan_bus portHandle portNames :: (('p, 'a) slcan_adapter, 'a) can_bus_adapter"
  for portHandle :: "'p \<Rightarrow> int" and portNames :: "'p \<Rightarrow> string list"
proof
  fix w :: "('p, 'a) slcan_adapter" and name bitrate out w'
  assume "\<not> cba_IsConnected (slcan_bus portHandle portNames :: (('p, 'a) slcan_adapter, 'a) can_bus_adapter) w"
    and "cba_Connect (slcan_bus portHandle portNames) name bitrate w = (True, out, w')"
  then show "ConnectionChanged False \<notin> set out"
    by (auto simp: slcan_bus_def ConnectS_told split: prod.splits)
next
  fix w :: "('p, 'a) slcan_adapter" and out w'
  assume "cba_Disconnect (slcan_bus portHandle portNames) w = (out, w')"
  then show "\<not> cba_IsConnected (slcan_bus portHandle portNames :: (('p, 'a) slcan_adapter, 'a) can_bus_adapter) w'"
    by (auto simp: slcan_bus_def IsConnectedS_def DisconnectS_closed)
qed

section \<open>Only the active adapter is heard\<close>

lemma inactive_unheard:
  assumes "mul_active m \<noteq> Some i"
  shows "fold (backend_told i) out m = m\<lparr>mul_log := mul_log m @ filter (\<lambda>e. case e of SendCompleted _ _ \<Rightarrow> True | _ \<Rightarrow> False) out\<rparr>"
  using assms
proof (induction out arbitrary: m)
  case Nil
  then show ?case by simp
next
  case (Cons e out)
  then show ?case by (cases e) (simp_all add: IsActive_def mul_emit_def)
qed

section \<open>Properties\<close>

text \<open>The names that the selection lists select the adapter that listed them.  With labels that are
  distinct and free of colons, a listed name that was not shortened resolves to the backend and the
  channel it was made of; for the backend without a prefix the channel must not contain a colon and
  no later backend may lack a prefix.\<close>

theorem listed_interface_resolves:
  assumes "labels_distinct (mul_backends m)" and "k < length (mul_backends m)"
    and "b = mul_backends m ! k" and "ch \<in> set (cba_Interfaces (be_adapter b) (be_state b))"
    and "length (be_prefix b) + 1 + length ch \<le> 64"
    and "be_prefix b = [] \<Longrightarrow> separator \<notin> set ch \<and>
      (\<forall>j < length (mul_backends m). k < j \<longrightarrow> be_prefix (mul_backends m ! j) \<noteq> [])"
  shows "backend_interface b ch \<in> set (MultiEnumerateInterfaces m) \<and>
    Resolve (backend_interface b ch) m = Some (k, ch)"
proof -
  let ?bs = "mul_backends m"
  have b: "b \<in> set ?bs" using assms(2,3) by simp
  have listed: "backend_interface b ch \<in> set (MultiEnumerateInterfaces m)"
    using b assms(4) by (auto simp: MultiEnumerateInterfaces_def)
  show ?thesis
  proof (cases "be_prefix b = []")
    case True
    have "names b' ch = None" if "b' \<in> set ?bs" for b'
      using assms(6) [OF True] names_eq [of b' ch] by (cases "names b' ch") auto
    then have "Resolve ch m = map_option (\<lambda>j. (j, ch)) (last_bare 0 ?bs None)"
      using assms(6) [OF True] by (simp add: Resolve_def resolve_from_unnamed)
    moreover have "last_bare 0 ?bs None = Some (0 + k)"
      using assms(2,3,6) True by (intro last_bare_eq) auto
    ultimately show ?thesis using listed True by (simp add: backend_interface_def)
  next
    case False
    have name: "backend_interface b ch = be_prefix b @ separator # ch"
      using False assms(5) by (simp add: backend_interface_def maxInterfaceNameLength_def)
    have free: "separator \<notin> set l" if "b' \<in> set ?bs" "l \<in> labels b'" for b' l
      using assms(1) that by (auto simp: labels_distinct_def)
    have pre: "be_prefix b \<in> labels b" using False by (simp add: labels_def)
    have other: "names (?bs ! j) (be_prefix b @ separator # ch) = None" if "j < k" for j
    proof (rule ccontr)
      assume "names (?bs ! j) (be_prefix b @ separator # ch) \<noteq> None"
      then obtain ch' l where l: "l \<in> labels (?bs ! j)" "be_prefix b @ separator # ch = l @ separator # ch'"
        using names_eq by blast
      have "?bs ! j \<in> set ?bs" using that assms(2) by simp
      then have "be_prefix b = l" using split_at_separator [OF l(2)] free l(1) b pre by blast
      moreover have "labels (?bs ! j) \<inter> labels (?bs ! k) = {}"
        using assms(1,2) that by (simp add: labels_distinct_def)
      ultimately show False using assms(3) l(1) pre by auto
    qed
    have "Resolve (be_prefix b @ separator # ch) m = Some (0 + k, ch)"
      unfolding Resolve_def using assms(2,3) names_prefix [OF False] other
      by (intro resolve_from_named) simp_all
    then show ?thesis using listed name by simp
  qed
qed

definition sample_slcan :: "((bytes, nat) slcan_adapter, nat) can_bus_adapter" where
  "sample_slcan = slcan_bus (\<lambda>_. 3) (\<lambda>_. [''/dev/ttyACM0''])"

definition sample_multi :: "((bytes, nat) slcan_adapter, nat) multi_adapter" where
  "sample_multi = AddBackend ''slcan'' sample_slcan (SlcanAdapter sample_port [] 0) ''CANable'' MultiCanAdapter"

theorem listed_interface_resolves_witness:
  "Resolve (backend_interface (mul_backends sample_multi ! 0) ''/dev/ttyACM0'') sample_multi =
     Some (0, ''/dev/ttyACM0'')"
proof (rule conjunct2 [OF listed_interface_resolves])
  show "labels_distinct (mul_backends sample_multi)"
    by (simp add: sample_multi_def AddBackend_def MultiCanAdapter_def labels_distinct_def labels_def separator_def)
  show "''/dev/ttyACM0'' \<in> set (cba_Interfaces (be_adapter (mul_backends sample_multi ! 0))
      (be_state (mul_backends sample_multi ! 0)))"
    by (simp add: sample_multi_def AddBackend_def MultiCanAdapter_def sample_slcan_def slcan_bus_def)
qed (simp_all add: sample_multi_def AddBackend_def MultiCanAdapter_def)


lemmas sample_run = sample_multi_def sample_slcan_def AddBackend_def MultiCanAdapter_def slcan_bus_def
  MultiIsConnected_def MultiConnect_def MultiDisconnect_def backend_result_def IsConnectedS_def ConnectS_def
  SlcanAdapter_def sample_port_def PortWrite_def SlcanBitrateCode_def bitrateCodes_def Resolve_def
  ChannelAfter_def separator_def ReceiveData_def slcan_told_def Let_def

lemma sample_connects:
  "Resolve ''slcan:/dev/ttyACM0'' sample_multi = Some (0, ''/dev/ttyACM0'')"
  "\<not> MultiIsConnected sample_multi"
  "fst (MultiConnect ''slcan:/dev/ttyACM0'' 500000 sample_multi)"
  by (simp_all add: sample_run)


end
