(* ===== verification/Floats.thy ===== *)
theory Floats
  imports Complex_Main "HOL-Library.Log_Nat"
begin

text \<open>
  The binary floating-point numbers that the code computes with.  A finite number is the rational
  it stands for, the two zeros are one, and an operation is exact up to a rounding to the nearest
  number of the format, ties to even.  \<open>round_bits\<close> rounds to a number of significant bits, which is
  all a \<^verbatim>\<open>double\<close> needs here; the type \<open>single\<close> of \<^verbatim>\<open>float\<close> has its subnormal numbers, its infinities and
  its not-a-number too.
\<close>

section \<open>Rounding\<close>

definition round_even :: "rat \<Rightarrow> int" where
  "round_even x =
     (let n = \<lfloor>x\<rfloor>; d = x - of_int n
      in if d < 1 / 2 then n else if 1 / 2 < d then n + 1 else if even n then n else n + 1)"

definition floor_log2 :: "rat \<Rightarrow> int" where
  "floor_log2 x =
     (case quotient_of x of
        (a, b) \<Rightarrow>
          let k = int (floorlog 2 (nat a)) - int (floorlog 2 (nat b))
          in if 2 powi k \<le> x then k else k - 1)"

definition round_at :: "int \<Rightarrow> rat \<Rightarrow> rat" where
  "round_at e x = sgn x * of_int (round_even (\<bar>x\<bar> / 2 powi e)) * 2 powi e"

definition round_bits :: "nat \<Rightarrow> rat \<Rightarrow> rat" where
  "round_bits p x = (if x = 0 then 0 else round_at (floor_log2 \<bar>x\<bar> - (int p - 1)) x)"

definition round_double :: "rat \<Rightarrow> rat" where
  "round_double = round_bits 53"

section \<open>Single precision\<close>

datatype single = Not_a_number | Infinity bool | Number rat

text \<open>The flag of an infinity says that it is negative.\<close>

definition round_single :: "rat \<Rightarrow> single" where
  "round_single x =
     (if x = 0 then Number 0
      else let r = round_at (max (floor_log2 \<bar>x\<bar> - 23) (- 149)) x
        in if 2 ^ 128 \<le> \<bar>r\<bar> then Infinity (x < 0) else Number r)"

definition single_of_int :: "int \<Rightarrow> single" where
  "single_of_int n = round_single (of_int n)"

fun times_single :: "single \<Rightarrow> single \<Rightarrow> single" where
  "times_single (Number x) (Number y) = round_single (x * y)"
| "times_single (Infinity a) (Infinity b) = Infinity (a \<noteq> b)"
| "times_single (Infinity a) (Number y) =
     (if y = 0 then Not_a_number else Infinity (a \<noteq> (y < 0)))"
| "times_single (Number x) (Infinity b) =
     (if x = 0 then Not_a_number else Infinity ((x < 0) \<noteq> b))"
| "times_single _ _ = Not_a_number"

text \<open>The divisor is not zero wherever the code divides.\<close>

fun divide_single :: "single \<Rightarrow> single \<Rightarrow> single" where
  "divide_single (Number x) (Number y) =
     (if y = 0 then (if x = 0 then Not_a_number else Infinity (x < 0)) else round_single (x / y))"
| "divide_single (Infinity a) (Number y) = Infinity (a \<noteq> (y < 0))"
| "divide_single (Number x) (Infinity b) = Number 0"
| "divide_single _ _ = Not_a_number"

fun less_single :: "single \<Rightarrow> single \<Rightarrow> bool" where
  "less_single (Number x) (Number y) \<longleftrightarrow> x < y"
| "less_single (Infinity a) (Infinity b) \<longleftrightarrow> a \<and> \<not> b"
| "less_single (Infinity a) (Number _) \<longleftrightarrow> a"
| "less_single (Number _) (Infinity b) \<longleftrightarrow> \<not> b"
| "less_single _ _ \<longleftrightarrow> False"

text \<open>\<^verbatim>\<open>roundf\<close> rounds halves away from zero.\<close>

definition round_away :: "rat \<Rightarrow> int" where
  "round_away x = (if x < 0 then - \<lfloor>- x + 1 / 2\<rfloor> else \<lfloor>x + 1 / 2\<rfloor>)"

fun roundf :: "single \<Rightarrow> single" where
  "roundf (Number x) = Number (of_int (round_away x))"
| "roundf y = y"

text \<open>The conversion to an integer drops the fraction.  It is undefined for the other values.\<close>

fun int_of_single :: "single \<Rightarrow> int" where
  "int_of_single (Number x) = (if x < 0 then \<lceil>x\<rceil> else \<lfloor>x\<rfloor>)"
| "int_of_single _ = 0"

section \<open>How far rounding goes\<close>

lemma round_even_error: "\<bar>of_int (round_even x) - x\<bar> \<le> 1 / 2"
  using of_int_floor_le [of x] floor_correct [of x] unfolding round_even_def Let_def
  by (auto split: if_splits)

lemma round_even_int [simp]: "round_even (of_int n) = n"
  by (simp add: round_even_def)

lemma floorlog_bounds:
  assumes "0 < a"
  shows "2 powi (int (floorlog 2 (nat a)) - 1) \<le> (of_int a :: rat)"
    and "(of_int a :: rat) < 2 powi int (floorlog 2 (nat a))"
proof -
  let ?n = "nat a" and ?k = "floorlog 2 (nat a)"
  have b: "2 ^ (?k - 1) \<le> ?n \<and> ?n < 2 ^ ?k"
    using floorlog_bounds [of ?n 2] assms by simp
  have "0 < ?k" using assms by (simp add: floorlog_def)
  then have k: "int ?k - 1 = int (?k - 1)" by simp
  have "(2 ^ (?k - 1) :: rat) \<le> of_nat ?n"
    using b of_nat_le_iff [of "2 ^ (?k - 1)" ?n, where 'a = rat] by simp
  moreover have "(of_nat ?n :: rat) < 2 ^ ?k"
    using b of_nat_less_iff [of ?n "2 ^ ?k", where 'a = rat] by simp
  moreover have "(of_nat ?n :: rat) = of_int a" using assms by (simp add: of_nat_nat)
  ultimately show "2 powi (int ?k - 1) \<le> (of_int a :: rat)" "(of_int a :: rat) < 2 powi int ?k"
    by (simp_all add: k)
qed

lemma floor_log2_bounds:
  assumes "0 < x"
  shows "2 powi floor_log2 x \<le> x" and "x < 2 * 2 powi floor_log2 x"
proof -
  obtain a b where q: "quotient_of x = (a, b)" by (cases "quotient_of x")
  then have b: "0 < b" and x: "x = of_int a / of_int b"
    by (rule quotient_of_denom_pos, rule quotient_of_div)
  then have a: "0 < a" using assms by (simp add: zero_less_divide_iff)
  let ?la = "int (floorlog 2 (nat a))" and ?lb = "int (floorlog 2 (nat b))"
  let ?k = "?la - ?lb"
  note A = floorlog_bounds [OF a] and B = floorlog_bounds [OF b]
  have b0: "(0 :: rat) < of_int b" using b by simp
  have "x < 2 powi ?la / of_int b" unfolding x by (rule divide_strict_right_mono [OF A(2) b0])
  also have "\<dots> \<le> 2 powi ?la / 2 powi (?lb - 1)" by (rule divide_left_mono) (use B(1) b0 in simp_all)
  also have "\<dots> = 2 * 2 powi ?k" by (simp add: power_int_diff)
  finally have up: "x < 2 * 2 powi ?k" .
  have "2 powi (?k - 1) = 2 powi (?la - 1) / (2 powi ?lb :: rat)" by (simp add: power_int_diff)
  also have "\<dots> \<le> 2 powi (?la - 1) / of_int b" by (rule divide_left_mono) (use B(2) b0 in simp_all)
  also have "\<dots> \<le> x" unfolding x by (rule divide_right_mono) (use A(1) b0 in simp_all)
  finally have low: "2 powi (?k - 1) \<le> x" .
  have f: "floor_log2 x = (if 2 powi ?k \<le> x then ?k else ?k - 1)"
    by (simp add: floor_log2_def q Let_def)
  show "2 powi floor_log2 x \<le> x" using f low by simp
  show "x < 2 * 2 powi floor_log2 x" using f up by (cases "2 powi ?k \<le> x") (simp_all add: power_int_diff)
qed

lemma round_at_error: "\<bar>round_at e x - x\<bar> \<le> 2 powi e / 2"
proof -
  let ?p = "2 powi e :: rat" and ?y = "\<bar>x\<bar> / 2 powi e"
  have p: "0 < ?p" by simp
  have "x = sgn x * ?y * ?p" using p by (simp add: sgn_if)
  then have "round_at e x - x = sgn x * (of_int (round_even ?y) - ?y) * ?p"
    by (simp add: round_at_def algebra_simps)
  then have "\<bar>round_at e x - x\<bar> = \<bar>sgn x\<bar> * \<bar>of_int (round_even ?y) - ?y\<bar> * ?p"
    using p by (simp add: abs_mult)
  also have "\<dots> \<le> 1 * (1 / 2) * ?p"
    by (intro mult_right_mono mult_mono) (use round_even_error [of ?y] p in \<open>simp_all add: sgn_if\<close>)
  finally show ?thesis by simp
qed

lemma round_at_exact:
  assumes "x = of_int n * 2 powi e"
  shows "round_at e x = x"
proof -
  have y: "\<bar>x\<bar> / 2 powi e = of_int \<bar>n\<bar>" using assms by (simp add: abs_mult)
  have "round_at e x = sgn x * of_int \<bar>n\<bar> * 2 powi e"
    unfolding round_at_def y round_even_int ..
  also have "\<dots> = of_int n * 2 powi e" using assms zero_less_power_int [of "2 :: rat" e]
    by (simp add: sgn_if abs_if zero_less_mult_iff mult_less_0_iff del: zero_less_power_int)
  finally show ?thesis using assms by simp
qed

text \<open>A number of the normal range is off by at most a part in \<open>2 ^ 24\<close>, and a product or quotient
  in the middle of the range is a number.\<close>

lemma powi_le_iff [simp]: "(2 powi m :: rat) \<le> 2 powi n \<longleftrightarrow> m \<le> n"
  using power_int_increasing [of m n "2 :: rat"] power_int_strict_increasing [of n m "2 :: rat"]
  by (auto simp: not_le [symmetric])

lemma powi_less_iff [simp]: "(2 powi m :: rat) < 2 powi n \<longleftrightarrow> m < n"
  by (simp add: not_le [symmetric])

lemma round_single_cases:
  obtains (Number) r where "round_single x = Number r" and "\<bar>r - x\<bar> \<le> \<bar>x\<bar> / 2 ^ 24 + 1 / 2 ^ 150"
      and "1 / 2 ^ 100 \<le> \<bar>x\<bar> \<Longrightarrow> \<bar>r - x\<bar> \<le> \<bar>x\<bar> / 2 ^ 24"
  | (Infinity) "2 ^ 126 \<le> \<bar>x\<bar>" and "round_single x = Infinity (x < 0)"
proof (cases "x = 0")
  case True
  then show thesis by (intro Number [of 0]) (simp_all add: round_single_def)
next
  case False
  let ?l = "floor_log2 \<bar>x\<bar>"
  let ?e = "max (?l - 23) (- 149)" let ?r = "round_at ?e x"
  have x: "0 < \<bar>x\<bar>" using False by simp
  note b = floor_log2_bounds [OF x]
  have l: "(2 powi (?l - 23) :: rat) = 2 powi ?l / 2 ^ 23" by (simp add: power_int_diff)
  have m: "(2 powi (- 149) :: rat) = 1 / 2 ^ 149" by (simp add: power_int_minus field_simps)
  have "2 powi ?e \<le> \<bar>x\<bar> / 2 ^ 23 + 1 / 2 ^ 149"
    using b(1) l m x by (cases "?l - 23 \<le> - 149") (simp_all add: max_def)
  then have err: "\<bar>?r - x\<bar> \<le> \<bar>x\<bar> / 2 ^ 24 + 1 / 2 ^ 150" using round_at_error [of ?e x] by simp
  have err2: "\<bar>?r - x\<bar> \<le> \<bar>x\<bar> / 2 ^ 24" if "1 / 2 ^ 100 \<le> \<bar>x\<bar>"
  proof -
    have "2 powi (- 100) = (1 / 2 ^ 100 :: rat)" by (simp add: power_int_minus field_simps)
    also have "\<dots> < 2 powi (?l + 1)" using that b(2) by (simp add: power_int_add)
    finally have "- 100 < ?l + 1" unfolding powi_less_iff .
    then have "2 powi ?e \<le> \<bar>x\<bar> / 2 ^ 23" using b(1) l by simp
    then show ?thesis using round_at_error [of ?e x] by simp
  qed
  show thesis
  proof (cases "2 ^ 128 \<le> \<bar>?r\<bar>")
    case True
    moreover have "\<bar>?r\<bar> \<le> \<bar>x\<bar> + \<bar>?r - x\<bar>" by linarith
    ultimately have "2 ^ 126 \<le> \<bar>x\<bar>" using err by simp
    moreover have "round_single x = Infinity (x < 0)"
      unfolding round_single_def Let_def using True False by simp
    ultimately show thesis by (rule Infinity)
  next
    case small: False
    have "round_single x = Number ?r"
      unfolding round_single_def Let_def using small False by simp
    then show thesis using err err2 by (rule Number)
  qed
qed

lemma round_single_error:
  assumes "1 / 2 ^ 100 \<le> \<bar>x\<bar>" and "\<bar>x\<bar> \<le> 2 ^ 100"
  obtains r where "round_single x = Number r" and "\<bar>r - x\<bar> \<le> \<bar>x\<bar> / 2 ^ 24"
  by (cases x rule: round_single_cases) (use assms that in auto)

lemma single_of_int_exact:
  assumes "\<bar>n\<bar> \<le> 2 ^ 24"
  shows "single_of_int n = Number (of_int n)"
proof (cases "n = 0")
  case False
  let ?x = "of_int n :: rat" let ?l = "floor_log2 \<bar>?x\<bar>"
  have x: "0 < \<bar>?x\<bar>" "1 \<le> \<bar>?x\<bar>" using False by linarith+
  note b = floor_log2_bounds [OF x(1)]
  have up: "\<bar>?x\<bar> \<le> 2 ^ 24" using assms by (metis of_int_abs of_int_le_iff of_int_numeral of_int_power)
  have "2 powi 0 < (2 powi (?l + 1) :: rat)" using x(2) b(2) by (simp add: power_int_add)
  then have l: "0 \<le> ?l" unfolding powi_less_iff by simp
  have "2 powi ?l \<le> (2 powi 24 :: rat)" using up b(1) by simp
  then have l2: "?l \<le> 24" unfolding powi_le_iff .
  have "round_at (?l - 23) ?x = ?x"
  proof (cases "?l = 24")
    case True
    then have "\<bar>?x\<bar> = 2 ^ 24" using up b(1) by simp
    then have "n = 2 ^ 24 \<or> n = - (2 ^ 24)" by (auto simp: abs_if split: if_splits)
    then show ?thesis using True by (intro round_at_exact [of _ "n div 2"]) auto
  next
    case False
    then have "2 powi (23 - ?l) = (2 ^ nat (23 - ?l) :: rat)" using l2 by (simp add: power_int_def)
    then have "?x = of_int (n * 2 ^ nat (23 - ?l)) * 2 powi (?l - 23)"
      by (simp add: power_int_diff field_simps)
    then show ?thesis by (rule round_at_exact)
  qed
  moreover have "max (?l - 23) (- 149) = ?l - 23" using l by simp
  moreover have "\<not> 2 ^ 128 \<le> \<bar>?x\<bar>" using up by simp
  ultimately show ?thesis using False by (simp add: single_of_int_def round_single_def Let_def)
qed (simp add: single_of_int_def round_single_def)

lemma round_away_nearest: "\<bar>x - of_int n\<bar> < 1 / 2 \<Longrightarrow> round_away x = n"
  unfolding round_away_def by (auto simp: abs_if split: if_splits) linarith+

lemma round_away_error: "\<bar>of_int (round_away x) - x\<bar> \<le> 1 / 2"
  unfolding round_away_def by (auto simp: abs_if split: if_splits) linarith+

lemma int_of_single_round [simp]: "int_of_single (Number (of_int n)) = n"
  by simp

end
