(* ===== verification/GsUsbProtocol.thy ===== *)
theory GsUsbProtocol
  imports ProtocolDefs Floats
begin

text \<open>
  The messages of gs_usb adapters, \<^verbatim>\<open>can-lite/drivers/codec/GsUsbProtocol.cpp\<close>: host frames, the
  configuration of the bit timing, and the search for a bit timing.  A \<^verbatim>\<open>double\<close> is the rational it
  stands for, and every operation that rounds is followed by \<open>round_double\<close>; the numbers here are far
  from the limits of the exponent.
\<close>

section \<open>Constants and data\<close>

definition hostFormat :: u32 where "hostFormat = 0x0000beef"
definition extendedFlag :: u32 where "extendedFlag = 0x80000000"
definition remoteFlag :: u32 where "remoteFlag = 0x40000000"
definition errorFlag :: u32 where "errorFlag = 0x20000000"
definition frameSize :: nat where "frameSize = 20"
definition bitTimingConstantsSize :: nat where "bitTimingConstantsSize = 40"
definition bitTimingSize :: nat where "bitTimingSize = 20"
definition modeSize :: nat where "modeSize = 8"
definition gsStandardIdMask :: u32 where "gsStandardIdMask = 0x7ff"
definition gsExtendedIdMask :: u32 where "gsExtendedIdMask = 0x1fffffff"

record bit_timing_constants =
  btc_feature :: u32
  btc_clock :: u32
  btc_tseg1Min :: u32
  btc_tseg1Max :: u32
  btc_tseg2Min :: u32
  btc_tseg2Max :: u32
  btc_sjwMax :: u32
  btc_brpMin :: u32
  btc_brpMax :: u32
  btc_brpIncrement :: u32

record bit_timing =
  bt_propSeg :: u32
  bt_phaseSeg1 :: u32
  bt_phaseSeg2 :: u32
  bt_sjw :: u32
  bt_brp :: u32

record host_frame =
  hf_echoId :: u32
  hf_id :: u32
  hf_extended :: bool
  hf_remote :: bool
  hf_error :: bool
  hf_channel :: u8
  hf_data :: bytes

section \<open>Little-endian numbers\<close>

definition ReadLittleEndian :: "bytes \<Rightarrow> nat \<Rightarrow> u32" where
  "ReadLittleEndian bs offset =
     ucast (bs ! offset) OR push_bit 8 (ucast (bs ! (offset + 1))) OR
     push_bit 16 (ucast (bs ! (offset + 2))) OR push_bit 24 (ucast (bs ! (offset + 3)))"

definition WriteLittleEndian :: "bytes \<Rightarrow> nat \<Rightarrow> u32 \<Rightarrow> bytes" where
  "WriteLittleEndian bs offset v =
     fold (\<lambda>index bs. bs[offset + index := ucast (drop_bit (8 * index) v)]) [0..<4] bs"

section \<open>The search for a bit timing\<close>

definition targetSamplePoint :: rat where "targetSamplePoint = 7 / 8"

type_synonym candidate = "bit_timing \<times> rat"

text \<open>\<^verbatim>\<open>quanta * (1.0 - targetSamplePoint)\<close> is an eighth of a 32-bit number, exactly, and
  \<^verbatim>\<open>lround\<close> rounds halves away from zero.\<close>

definition CandidateFor :: "bit_timing_constants \<Rightarrow> u32 \<Rightarrow> u32 \<Rightarrow> candidate option" where
  "CandidateFor constants brp bitrate =
     (let divisor = unat brp * unat bitrate in
      if divisor = 0 \<or> unat (btc_clock constants) mod divisor \<noteq> 0 then None
      else
        let quanta = of_nat (unat (btc_clock constants) div divisor) :: u32 in
        if quanta < 1 + btc_tseg1Min constants + btc_tseg2Min constants \<or>
           quanta > 1 + btc_tseg1Max constants + btc_tseg2Max constants
        then None
        else
          let tseg2 = of_nat ((unat quanta + 4) div 8) :: u32;
            tseg2 = (if tseg2 < btc_tseg2Min constants then btc_tseg2Min constants
              else if btc_tseg2Max constants < tseg2 then btc_tseg2Max constants else tseg2);
            tseg1 = quanta - 1 - tseg2;
            (tseg1, tseg2) =
              (if tseg1 > btc_tseg1Max constants
               then (btc_tseg1Max constants, quanta - 1 - btc_tseg1Max constants)
               else if tseg1 < btc_tseg1Min constants
               then (btc_tseg1Min constants, quanta - 1 - btc_tseg1Min constants)
               else (tseg1, tseg2))
          in if tseg2 < btc_tseg2Min constants \<or> tseg2 > btc_tseg2Max constants then None
             else
               let propSeg = tseg1 div 2;
                 samplePoint = round_double (of_nat (unat (1 + tseg1)) / of_nat (unat quanta))
               in Some
                 (\<lparr>bt_propSeg = propSeg, bt_phaseSeg1 = tseg1 - propSeg, bt_phaseSeg2 = tseg2,
                   bt_sjw = min (btc_sjwMax constants) 1, bt_brp = brp\<rparr>,
                  \<bar>round_double (samplePoint - targetSamplePoint)\<bar>))"

definition better :: "candidate option \<Rightarrow> candidate option \<Rightarrow> candidate option" where
  "better best candidate =
     (case candidate of
        None \<Rightarrow> best
      | Some c \<Rightarrow>
          (case best of
             None \<Rightarrow> Some c
           | Some b \<Rightarrow> if snd c < snd b then Some c else best))"

text \<open>The loop over the prescalers.  \<^verbatim>\<open>brp += step\<close> wraps: \<open>None\<close> is a loop that never ends.\<close>

partial_function (option) brp_loop ::
    "(u32 \<Rightarrow> candidate option) \<Rightarrow> u32 \<Rightarrow> u32 \<Rightarrow> u32 \<Rightarrow> candidate option \<Rightarrow> candidate option option" where
  "brp_loop candidate brpMax step brp best =
     (if brp \<le> brpMax
      then brp_loop candidate brpMax step (brp + step) (better best (candidate brp))
      else Some best)"

definition ComputeBitTiming :: "bit_timing_constants \<Rightarrow> u32 \<Rightarrow> bit_timing option option" where
  "ComputeBitTiming constants bitrate =
     (let step = max (btc_brpIncrement constants) 1
      in case brp_loop (\<lambda>brp. CandidateFor constants brp bitrate) (btc_brpMax constants) step
                (btc_brpMin constants) None of
           None \<Rightarrow> None
         | Some best \<Rightarrow> Some (map_option fst best))"

section \<open>Messages\<close>

definition DecodeBitTimingConstants :: "bytes \<Rightarrow> bit_timing_constants option" where
  "DecodeBitTimingConstants bs =
     (if length bs < bitTimingConstantsSize then None
      else
        let constants =
          \<lparr>btc_feature = ReadLittleEndian bs 0, btc_clock = ReadLittleEndian bs 4,
           btc_tseg1Min = ReadLittleEndian bs 8, btc_tseg1Max = ReadLittleEndian bs 12,
           btc_tseg2Min = ReadLittleEndian bs 16, btc_tseg2Max = ReadLittleEndian bs 20,
           btc_sjwMax = ReadLittleEndian bs 24, btc_brpMin = ReadLittleEndian bs 28,
           btc_brpMax = ReadLittleEndian bs 32, btc_brpIncrement = ReadLittleEndian bs 36\<rparr>
        in if btc_clock constants = 0 \<or> btc_brpMin constants = 0 \<or>
              btc_brpMax constants < btc_brpMin constants \<or>
              btc_tseg1Max constants < btc_tseg1Min constants \<or>
              btc_tseg2Max constants < btc_tseg2Min constants
           then None
           else Some constants)"

definition EncodeHostFormat :: bytes where
  "EncodeHostFormat = WriteLittleEndian (replicate 4 0) 0 hostFormat"

definition EncodeBitTiming :: "bit_timing \<Rightarrow> bytes" where
  "EncodeBitTiming timing =
     (let bs = replicate bitTimingSize 0;
        bs = WriteLittleEndian bs 0 (bt_propSeg timing);
        bs = WriteLittleEndian bs 4 (bt_phaseSeg1 timing);
        bs = WriteLittleEndian bs 8 (bt_phaseSeg2 timing);
        bs = WriteLittleEndian bs 12 (bt_sjw timing)
      in WriteLittleEndian bs 16 (bt_brp timing))"

definition EncodeMode :: "u32 \<Rightarrow> bytes" where
  "EncodeMode mode = WriteLittleEndian (replicate modeSize 0) 0 mode"

fun std_copy :: "bytes \<Rightarrow> nat \<Rightarrow> bytes \<Rightarrow> bytes" where
  "std_copy [] position bs = bs"
| "std_copy (b # data) position bs = std_copy data (position + 1) (bs[position := b])"

definition EncodeGsFrame :: "u32 \<Rightarrow> u32 \<Rightarrow> bool \<Rightarrow> bytes \<Rightarrow> u8 \<Rightarrow> bytes" where
  "EncodeGsFrame echoId i extended data channel =
     (let bs = replicate frameSize 0;
        bs = WriteLittleEndian bs 0 echoId;
        bs = WriteLittleEndian bs 4
          (if extended then (i AND gsExtendedIdMask) OR extendedFlag else i AND gsStandardIdMask);
        bs = bs[8 := of_nat (length data)];
        bs = bs[9 := channel]
      in std_copy data 12 bs)"

definition DecodeGsFrame :: "bytes \<Rightarrow> host_frame option" where
  "DecodeGsFrame bs =
     (if length bs < frameSize then None
      else
        let rawId = ReadLittleEndian bs 4; len = bs ! 8 in
        if len > 8 then None
        else
          let extended = (rawId AND extendedFlag \<noteq> 0); remote = (rawId AND remoteFlag \<noteq> 0)
          in Some
            \<lparr>hf_echoId = ReadLittleEndian bs 0,
             hf_id = rawId AND (if extended then gsExtendedIdMask else gsStandardIdMask),
             hf_extended = extended, hf_remote = remote,
             hf_error = (rawId AND errorFlag \<noteq> 0),
             hf_channel = bs ! 9,
             hf_data = if remote then [] else take (unat len) (drop 12 bs)\<rparr>)"

end
