(* ===== verification/GsUsbLaws.thy ===== *)
theory GsUsbLaws
  imports GsUsbProtocol
begin

text \<open>
  What the gs_usb messages guarantee: a host frame comes back as it was encoded, and the bit timing
  that the search finds is exact, within the adapter's limits and the best on its grid of
  prescalers.  The search ends whenever the prescaler cannot wrap, and does not end when the
  adapter reports the largest 32-bit number as its last prescaler.
\<close>

section \<open>Little-endian numbers\<close>

definition le32 :: "u32 \<Rightarrow> bytes" where
  "le32 v = [ucast v, ucast (drop_bit 8 v), ucast (drop_bit 16 v), ucast (drop_bit 24 v)]"

lemma length_le32 [simp]: "length (le32 v) = 4"
  by (simp add: le32_def)

lemma fold_4: "fold f [0..<4] s = f 3 (f 2 (f 1 (f 0 s)))"
proof -
  have "[0..<4] = [0, 1, 2, 3 :: nat]" by (simp add: upt_rec)
  then show ?thesis by simp
qed

lemma WriteLittleEndian_eq: "WriteLittleEndian bs offset v =
    bs[offset := ucast v, offset + 1 := ucast (drop_bit 8 v), offset + 2 := ucast (drop_bit 16 v),
      offset + 3 := ucast (drop_bit 24 v)]"
  by (simp add: WriteLittleEndian_def fold_4)

lemma length_WriteLittleEndian [simp]: "length (WriteLittleEndian bs offset v) = length bs"
  by (simp add: WriteLittleEndian_eq)

lemma join_le32:
  fixes v :: u32
  shows "ucast (ucast v :: u8) OR push_bit 8 (ucast (ucast (drop_bit 8 v) :: u8)) OR
    push_bit 16 (ucast (ucast (drop_bit 16 v) :: u8)) OR push_bit 24 (ucast (ucast (drop_bit 24 v) :: u8)) = v"
proof (rule bit_word_eqI)
  fix n
  assume "n < LENGTH(32)"
  then consider "n < 8" | "8 \<le> n" "n < 16" | "16 \<le> n" "n < 24" | "24 \<le> n" "n < 32" by fastforce
  then show "bit (ucast (ucast v :: u8) OR push_bit 8 (ucast (ucast (drop_bit 8 v) :: u8)) OR
    push_bit 16 (ucast (ucast (drop_bit 16 v) :: u8)) OR push_bit 24 (ucast (ucast (drop_bit 24 v) :: u8)) :: u32) n = bit v n"
    by cases (auto simp: bit_simps)
qed

lemma Read_WriteLittleEndian:
  assumes "offset + 4 \<le> length bs"
  shows "ReadLittleEndian (WriteLittleEndian bs offset v) offset = v"
  using assms join_le32 [of v] by (simp add: ReadLittleEndian_def WriteLittleEndian_eq nth_list_update)

lemma Read_elsewhere:
  assumes "offset + 4 \<le> k \<or> k + 4 \<le> offset"
  shows "ReadLittleEndian (WriteLittleEndian bs k v) offset = ReadLittleEndian bs offset"
  using assms by (auto simp: ReadLittleEndian_def WriteLittleEndian_eq)

lemma Read_update: "k < offset \<or> offset + 4 \<le> k \<Longrightarrow> ReadLittleEndian (bs[k := b]) offset = ReadLittleEndian bs offset"
  by (auto simp: ReadLittleEndian_def)

lemma Write_elsewhere: "k < offset \<or> offset + 4 \<le> k \<Longrightarrow> WriteLittleEndian bs offset v ! k = bs ! k"
  by (auto simp: WriteLittleEndian_eq)

lemma length_std_copy [simp]: "length (std_copy data k bs) = length bs"
  by (induction data k bs rule: std_copy.induct) simp_all

lemma nth_std_copy:
  "k + length data \<le> length bs \<Longrightarrow>
     std_copy data k bs ! j = (if k \<le> j \<and> j < k + length data then data ! (j - k) else bs ! j)"
proof (induction data k bs arbitrary: j rule: std_copy.induct)
  case (1 k bs)
  then show ?case by auto
next
  case (2 b data k bs)
  then show ?case by (auto simp: nth_list_update nth_Cons' Suc_diff_le)
qed

lemma Read_std_copy: "offset + 4 \<le> k \<Longrightarrow> k + length data \<le> length bs \<Longrightarrow>
    ReadLittleEndian (std_copy data k bs) offset = ReadLittleEndian bs offset"
  by (simp add: ReadLittleEndian_def nth_std_copy)

section \<open>Host frames\<close>

type_synonym gs_frame = "u32 \<times> u32 \<times> bool \<times> bytes \<times> u8"

fun encode_gs :: "gs_frame \<Rightarrow> bytes" where
  "encode_gs (echo, i, extended, data, ch) = EncodeGsFrame echo i extended data ch"

fun gs_image :: "gs_frame \<Rightarrow> host_frame option" where
  "gs_image (echo, i, extended, data, ch) = Some
     \<lparr>hf_echoId = echo, hf_id = i AND (if extended then 0x1fffffff else 0x7ff), hf_extended = extended,
      hf_remote = False, hf_error = False, hf_channel = ch, hf_data = data\<rparr>"

fun gs_encodable :: "gs_frame \<Rightarrow> bool" where
  "gs_encodable (echo, i, extended, data, ch) \<longleftrightarrow> length data \<le> 8"

definition raw_id :: "u32 \<Rightarrow> bool \<Rightarrow> u32" where
  "raw_id i extended = (if extended then (i AND gsExtendedIdMask) OR extendedFlag else i AND gsStandardIdMask)"

lemma bit_single: "bit (push_bit n 1 :: u32) k \<longleftrightarrow> n < 32 \<and> k = n"
  by (auto simp: bit_simps)

lemma gs_bits:
  "bit extendedFlag k \<longleftrightarrow> k = 31" "bit remoteFlag k \<longleftrightarrow> k = 30" "bit errorFlag k \<longleftrightarrow> k = 29"
  "bit gsExtendedIdMask k \<longleftrightarrow> k < 29" "bit gsStandardIdMask k \<longleftrightarrow> k < 11"
proof -
  have flags: "extendedFlag = push_bit 31 1" "remoteFlag = push_bit 30 1" "errorFlag = push_bit 29 1"
    by (simp_all add: extendedFlag_def remoteFlag_def errorFlag_def push_bit_eq_mult)
  show "bit extendedFlag k \<longleftrightarrow> k = 31" "bit remoteFlag k \<longleftrightarrow> k = 30" "bit errorFlag k \<longleftrightarrow> k = 29"
    unfolding flags bit_single by simp_all
  have masks: "gsExtendedIdMask = mask 29" "gsStandardIdMask = mask 11"
    by (simp_all add: gsExtendedIdMask_def gsStandardIdMask_def mask_eq_exp_minus_1)
  show "bit gsExtendedIdMask k \<longleftrightarrow> k < 29" "bit gsStandardIdMask k \<longleftrightarrow> k < 11"
    unfolding masks by (auto simp: bit_simps)
qed

lemma raw_id_bits: "bit (raw_id i extended) k \<longleftrightarrow>
    (if extended then bit i k \<and> k < 29 \<or> k = 31 else bit i k \<and> k < 11)"
  by (auto simp: raw_id_def gs_bits bit_simps)

lemma raw_id_flags:
  "raw_id i extended AND extendedFlag \<noteq> 0 \<longleftrightarrow> extended"
  "raw_id i extended AND remoteFlag = 0" "raw_id i extended AND errorFlag = 0"
proof -
  have "bit (raw_id i extended AND extendedFlag) 31 = extended"
    by (simp add: bit_and_iff raw_id_bits gs_bits)
  moreover have "raw_id i False AND extendedFlag = 0"
    by (rule bit_word_eqI) (auto simp: bit_and_iff raw_id_bits gs_bits)
  ultimately show "raw_id i extended AND extendedFlag \<noteq> 0 \<longleftrightarrow> extended"
    by (cases extended) auto
  show "raw_id i extended AND remoteFlag = 0" "raw_id i extended AND errorFlag = 0"
    by (rule bit_word_eqI, auto simp: bit_and_iff raw_id_bits gs_bits split: if_splits)+
qed

lemma raw_id_masked:
  "raw_id i extended AND (if extended then gsExtendedIdMask else gsStandardIdMask) =
     i AND (if extended then gsExtendedIdMask else gsStandardIdMask)"
  by (auto intro!: bit_word_eqI simp: bit_and_iff raw_id_bits gs_bits)

lemma decode_encode_gs:
  assumes "gs_encodable f"
  shows "DecodeGsFrame (encode_gs f) = gs_image f"
proof -
  obtain echo i extended data ch where f: "f = (echo, i, extended, data, ch)" by (cases f)
  have data: "length data \<le> 8" using assms f by simp
  let ?bs = "WriteLittleEndian (WriteLittleEndian (replicate frameSize 0) 0 echo) 4 (raw_id i extended)"
  have frame: "encode_gs f = std_copy data 12 (?bs[8 := of_nat (length data), 9 := ch])"
    by (simp add: f EncodeGsFrame_def raw_id_def Let_def)
  have len: "length (encode_gs f) = 20" "length (EncodeGsFrame echo i extended data ch) = 20"
    using frame by (simp_all add: f frameSize_def)
  have "ReadLittleEndian (encode_gs f) 0 = echo" and raw: "ReadLittleEndian (encode_gs f) 4 = raw_id i extended"
    using data by (simp_all add: frame Read_std_copy Read_update Read_elsewhere Read_WriteLittleEndian frameSize_def)
  moreover have "encode_gs f ! 8 = of_nat (length data)" "encode_gs f ! 9 = ch"
    using data by (simp_all add: frame nth_std_copy frameSize_def)
  moreover have "take (length data) (drop 12 (encode_gs f)) = data"
    using data by (intro nth_equalityI) (simp_all add: len, simp add: frame nth_std_copy frameSize_def)
  moreover have "unat (of_nat (length data) :: u8) = length data" "\<not> (8 :: u8) < of_nat (length data)"
    using data by (simp_all add: unat_of_nat word_less_nat_alt)
  ultimately show ?thesis
    using raw_id_flags [of i extended] raw_id_masked [of i extended]
    by (auto simp: DecodeGsFrame_def len frameSize_def f Let_def gsExtendedIdMask_def gsStandardIdMask_def)
qed

interpretation gs_frames: wire_codec encode_gs DecodeGsFrame gs_image gs_encodable
  by unfold_locales (rule decode_encode_gs)

section \<open>One candidate\<close>

text \<open>The limits of an adapter whose sums do not wrap.\<close>

definition limits_ok :: "bit_timing_constants \<Rightarrow> bool" where
  "limits_ok c \<longleftrightarrow> btc_tseg1Min c \<le> btc_tseg1Max c \<and> btc_tseg2Min c \<le> btc_tseg2Max c \<and>
     1 + unat (btc_tseg1Max c) + unat (btc_tseg2Max c) < 2 ^ 32"

definition clamp :: "u32 \<Rightarrow> u32 \<Rightarrow> u32 \<Rightarrow> u32" where
  "clamp v lo hi = (if v < lo then lo else if hi < v then hi else v)"

definition segments :: "bit_timing_constants \<Rightarrow> u32 \<Rightarrow> u32 \<times> u32" where
  "segments c q =
     (let t2 = clamp (of_nat ((unat q + 4) div 8)) (btc_tseg2Min c) (btc_tseg2Max c); t1 = q - 1 - t2
      in if t1 > btc_tseg1Max c then (btc_tseg1Max c, q - 1 - btc_tseg1Max c)
         else if t1 < btc_tseg1Min c then (btc_tseg1Min c, q - 1 - btc_tseg1Min c)
         else (t1, t2))"

lemma unat_u32: "unat (w :: u32) < 2 ^ 32"
  using unsigned_less [of w] by simp

lemma unat_rest:
  fixes q t :: u32
  assumes "1 + unat t \<le> unat q"
  shows "unat (q - 1 - t) = unat q - 1 - unat t"
proof -
  have "(1 :: u32) \<le> q" "t \<le> q - 1" using assms by unat_arith+
  then show ?thesis by (simp add: unat_sub)
qed

lemma unat_limit:
  assumes "limits_ok c" and "a \<le> btc_tseg1Max c" and "b \<le> btc_tseg2Max c"
  shows "unat (1 + a + b) = 1 + unat a + unat b"
proof -
  have "1 + unat a + unat b < 2 ^ 32" using assms by (simp add: limits_ok_def word_le_nat_alt)
  then show ?thesis by (simp add: unat_word_ariths)
qed

lemma segments_in_range:
  assumes "limits_ok c" and "1 + btc_tseg1Min c + btc_tseg2Min c \<le> q"
    and "q \<le> 1 + btc_tseg1Max c + btc_tseg2Max c" and "segments c q = (t1, t2)"
    and "btc_tseg2Min c \<le> t2" and "t2 \<le> btc_tseg2Max c"
  shows "1 + unat t1 + unat t2 = unat q \<and> btc_tseg1Min c \<le> t1 \<and> t1 \<le> btc_tseg1Max c"
proof -
  let ?m1 = "btc_tseg1Min c" and ?M1 = "btc_tseg1Max c" and ?m2 = "btc_tseg2Min c" and ?M2 = "btc_tseg2Max c"
  have order: "?m1 \<le> ?M1" "?m2 \<le> ?M2" using assms(1) by (simp_all add: limits_ok_def)
  have low: "1 + unat ?m1 + unat ?m2 \<le> unat q"
    using assms(2) unat_limit [OF assms(1) order] by (simp add: word_le_nat_alt)
  let ?h = "of_nat ((unat q + 4) div 8) :: u32"
  let ?c = "clamp ?h ?m2 ?M2"
  have "unat q < 2 ^ 32" by (rule unat_u32)
  then have h: "unat ?h = (unat q + 4) div 8" by (simp add: unat_of_nat)
  have "unat ?c \<le> max (unat ?m2) ((unat q + 4) div 8)"
    using h by (simp add: clamp_def word_less_nat_alt)
  also have "\<dots> \<le> unat q - 1" using low by auto
  finally have c: "1 + unat ?c \<le> unat q" using low by linarith
  have rest: "unat (q - 1 - ?c) = unat q - 1 - unat ?c" by (rule unat_rest [OF c])
  show ?thesis
  proof (cases "?M1 < q - 1 - ?c")
    case True
    then have "unat ?M1 < unat q - 1 - unat ?c" using rest by (simp add: word_less_nat_alt)
    moreover have "(t1, t2) = (?M1, q - 1 - ?M1)" using assms(4) True by (auto simp: segments_def Let_def)
    ultimately show ?thesis using unat_rest [of ?M1 q] order by simp
  next
    case False
    show ?thesis
    proof (cases "q - 1 - ?c < ?m1")
      case True
      then have "(t1, t2) = (?m1, q - 1 - ?m1)" using assms(4) False by (auto simp: segments_def Let_def)
      moreover have "1 + unat ?m1 \<le> unat q" using low by simp
      ultimately show ?thesis using unat_rest [of ?m1 q] order by simp
    next
      case False
      then have "(t1, t2) = (q - 1 - ?c, ?c)"
        using assms(4) \<open>\<not> ?M1 < q - 1 - ?c\<close> by (auto simp: segments_def Let_def)
      then show ?thesis using rest c False \<open>\<not> ?M1 < q - 1 - ?c\<close> by (simp add: not_less)
    qed
  qed
qed

definition timing_of :: "bit_timing_constants \<Rightarrow> u32 \<Rightarrow> u32 \<times> u32 \<Rightarrow> bit_timing" where
  "timing_of c brp = (\<lambda>(t1, t2). \<lparr>bt_propSeg = t1 div 2, bt_phaseSeg1 = t1 - t1 div 2, bt_phaseSeg2 = t2,
     bt_sjw = min (btc_sjwMax c) 1, bt_brp = brp\<rparr>)"

definition sample_point_error :: "u32 \<Rightarrow> u32 \<Rightarrow> rat" where
  "sample_point_error t1 q =
     \<bar>round_double (round_double (of_nat (unat (1 + t1)) / of_nat (unat q)) - targetSamplePoint)\<bar>"

lemma CandidateFor_eq:
  "CandidateFor c brp bitrate =
     (let d = unat brp * unat bitrate; q = of_nat (unat (btc_clock c) div d) :: u32 in
      if d = 0 \<or> unat (btc_clock c) mod d \<noteq> 0 then None
      else if q < 1 + btc_tseg1Min c + btc_tseg2Min c \<or> q > 1 + btc_tseg1Max c + btc_tseg2Max c then None
      else case segments c q of
          (t1, t2) \<Rightarrow> if t2 < btc_tseg2Min c \<or> t2 > btc_tseg2Max c then None
            else Some (timing_of c brp (t1, t2), sample_point_error t1 q))"
  unfolding CandidateFor_def segments_def clamp_def timing_of_def sample_point_error_def Let_def case_prod_conv
  by (rule refl)

lemma CandidateFor_segments:
  assumes "CandidateFor c brp bitrate = Some (t, e)"
  shows "\<exists>q t1 t2. unat brp * unat bitrate * unat q = unat (btc_clock c) \<and> segments c q = (t1, t2) \<and>
    1 + btc_tseg1Min c + btc_tseg2Min c \<le> q \<and> q \<le> 1 + btc_tseg1Max c + btc_tseg2Max c \<and>
    btc_tseg2Min c \<le> t2 \<and> t2 \<le> btc_tseg2Max c \<and> t = timing_of c brp (t1, t2)"
proof -
  let ?d = "unat brp * unat bitrate" and ?n = "unat (btc_clock c)"
  let ?q = "of_nat (?n div ?d) :: u32"
  obtain t1 t2 where seg: "segments c ?q = (t1, t2)" by (cases "segments c ?q")
  have d: "?d \<noteq> 0" "?n mod ?d = 0"
    using assms unfolding CandidateFor_eq Let_def by (auto split: if_splits)
  have "?n div ?d \<le> ?n" by simp
  also have "?n < 2 ^ 32" by (rule unat_u32)
  finally have "unat ?q = ?n div ?d" by (simp add: unat_of_nat take_bit_nat_eq_self)
  then have "?d * unat ?q = ?n" using d(2) by (metis mult_div_mod_eq add_0_right)
  moreover have "1 + btc_tseg1Min c + btc_tseg2Min c \<le> ?q" "?q \<le> 1 + btc_tseg1Max c + btc_tseg2Max c"
    "btc_tseg2Min c \<le> t2" "t2 \<le> btc_tseg2Max c" "t = timing_of c brp (t1, t2)"
    using assms unfolding CandidateFor_eq Let_def seg case_prod_conv not_less [symmetric]
    by (simp_all split: if_splits)
  ultimately show ?thesis using seg by blast
qed

lemma halves: "unat ((t :: u32) div 2) + unat (t - t div 2) = unat t"
proof -
  have "t div 2 \<le> t" by (simp add: word_le_nat_alt unat_div)
  then show ?thesis by (simp add: unat_sub word_le_nat_alt)
qed

text \<open>A timing is exact when its quanta divide the clock into the bitrate without remainder.\<close>

definition timing_exact :: "bit_timing_constants \<Rightarrow> u32 \<Rightarrow> bit_timing \<Rightarrow> bool" where
  "timing_exact c bitrate t \<longleftrightarrow>
     (let t1 = unat (bt_propSeg t) + unat (bt_phaseSeg1 t); t2 = unat (bt_phaseSeg2 t)
      in unat (bt_brp t) * unat bitrate * (1 + t1 + t2) = unat (btc_clock c) \<and>
         unat (btc_tseg1Min c) \<le> t1 \<and> t1 \<le> unat (btc_tseg1Max c) \<and>
         unat (btc_tseg2Min c) \<le> t2 \<and> t2 \<le> unat (btc_tseg2Max c) \<and>
         unat (bt_propSeg t) = t1 div 2 \<and> bt_sjw t = min (btc_sjwMax c) 1)"

lemma CandidateFor_exact:
  assumes "limits_ok c" and "CandidateFor c brp bitrate = Some (t, e)"
  shows "timing_exact c bitrate t \<and> bt_brp t = brp"
proof -
  obtain q t1 t2 where q: "unat brp * unat bitrate * unat q = unat (btc_clock c)"
    and seg: "segments c q = (t1, t2)" "1 + btc_tseg1Min c + btc_tseg2Min c \<le> q"
      "q \<le> 1 + btc_tseg1Max c + btc_tseg2Max c" "btc_tseg2Min c \<le> t2" "t2 \<le> btc_tseg2Max c"
    and t: "t = timing_of c brp (t1, t2)"
    using CandidateFor_segments [OF assms(2)] by blast
  note range = segments_in_range [OF assms(1) seg(2,3,1,4,5)]
  have "unat brp * unat bitrate * (1 + unat t1 + unat t2) = unat (btc_clock c)"
    using q range by simp
  then show ?thesis using range seg(4,5) halves [of t1]
    by (simp add: t timing_of_def timing_exact_def Let_def word_le_nat_alt unat_div)
qed

section \<open>The search\<close>

definition prescalers :: "u32 \<Rightarrow> u32 \<Rightarrow> u32 \<Rightarrow> u32 set" where
  "prescalers brp step brpMax = {b. b \<le> brpMax \<and> (\<exists>k. unat b = unat brp + k * unat step)}"

lemma prescalers_step:
  assumes "0 < unat step" and "unat brpMax + unat step < 2 ^ 32" and "brp \<le> brpMax"
  shows "prescalers brp step brpMax = insert brp (prescalers (brp + step) step brpMax)"
    and "unat (brp + step) = unat brp + unat step"
proof -
  have "unat brp + unat step < 2 ^ 32" using assms by (simp add: word_le_nat_alt)
  then show next_brp: "unat (brp + step) = unat brp + unat step" by (simp add: unat_word_ariths)
  have "(\<exists>k. unat b = unat brp + k * unat step) \<longleftrightarrow>
      b = brp \<or> (\<exists>k. unat b = unat (brp + step) + k * unat step)" for b
  proof
    assume "\<exists>k. unat b = unat brp + k * unat step"
    then obtain k where k: "unat b = unat brp + k * unat step" by blast
    show "b = brp \<or> (\<exists>k. unat b = unat (brp + step) + k * unat step)"
    proof (cases k)
      case 0
      then show ?thesis using k by (simp add: word_unat_eq_iff)
    next
      case (Suc j)
      then show ?thesis using k next_brp by (intro disjI2 exI [of _ j]) simp
    qed
  next
    assume "b = brp \<or> (\<exists>k. unat b = unat (brp + step) + k * unat step)"
    then show "\<exists>k. unat b = unat brp + k * unat step"
    proof
      assume "b = brp"
      then show ?thesis by (intro exI [of _ 0]) simp
    next
      assume "\<exists>k. unat b = unat (brp + step) + k * unat step"
      then obtain k where "unat b = unat (brp + step) + k * unat step" by blast
      then show ?thesis using next_brp by (intro exI [of _ "Suc k"]) simp
    qed
  qed
  then show "prescalers brp step brpMax = insert brp (prescalers (brp + step) step brpMax)"
    using assms(3) by (auto simp: prescalers_def)
qed

text \<open>The best of a start and the candidates of a set.\<close>

definition best_of :: "candidate option set \<Rightarrow> candidate option \<Rightarrow> bool" where
  "best_of S r \<longleftrightarrow> r \<in> insert None S \<and>
     (\<forall>c. Some c \<in> S \<longrightarrow> (\<exists>b. r = Some b \<and> snd b \<le> snd c))"

lemma best_of_better:
  "best_of (insert (better best cand) S) r \<Longrightarrow> best_of (insert best (insert cand S)) r"
proof -
  assume r: "best_of (insert (better best cand) S) r"
  show ?thesis
  proof (cases "\<exists>b c. best = Some b \<and> cand = Some c")
    case False
    then show ?thesis using r by (cases best; cases cand) (auto simp: best_of_def better_def)
  next
    case True
    then obtain b c where bc: "best = Some b" "cand = Some c" by blast
    define w where "w = (if snd c < snd b then c else b)"
    have w: "better best cand = Some w" "snd w \<le> snd b" "snd w \<le> snd c" "w = b \<or> w = c"
      by (auto simp: bc better_def w_def)
    from r have "\<exists>x. r = Some x \<and> snd x \<le> snd w" unfolding best_of_def w(1) by blast
    then obtain x where x: "r = Some x" "snd x \<le> snd w" by blast
    have "snd x \<le> snd y" if "Some y \<in> S" for y
      using r that unfolding best_of_def x(1) by blast
    moreover have "r \<in> insert None (insert (Some w) S)" using r unfolding best_of_def w(1) by blast
    moreover have "snd x \<le> snd b" "snd x \<le> snd c" using x w by simp_all
    ultimately show ?thesis using w(4) x(1) unfolding best_of_def bc by blast
  qed
qed

lemma best_of_None: "best_of (insert None S) None \<longleftrightarrow> (\<forall>x \<in> S. x = None)"
proof -
  have "best_of (insert None S) None \<longleftrightarrow> (\<forall>c. Some c \<notin> S)" unfolding best_of_def by blast
  moreover have "(\<forall>c. Some c \<notin> S) \<longleftrightarrow> (\<forall>x \<in> S. x = None)"
  proof safe
    fix x
    assume "\<forall>c. Some c \<notin> S" "x \<in> S"
    then show "x = None" by (cases x) blast+
  qed auto
  ultimately show ?thesis by simp
qed

lemma best_of_Some:
  "best_of (insert None S) (Some b) \<longleftrightarrow> Some b \<in> S \<and> (\<forall>c. Some c \<in> S \<longrightarrow> snd b \<le> snd c)"
  by (auto simp: best_of_def)

lemma brp_loop_best:
  assumes "0 < unat step" and "unat brpMax + unat step < 2 ^ 32"
  shows "\<exists>r. brp_loop cand brpMax step brp best = Some r \<and>
    best_of (insert best (cand ` prescalers brp step brpMax)) r"
proof (induction "2 ^ 32 - unat brp" arbitrary: brp best rule: less_induct)
  case less
  show ?case
  proof (cases "brp \<le> brpMax")
    case False
    then have "unat brpMax < unat brp" by (simp add: word_le_nat_alt)
    then have "prescalers brp step brpMax = {}"
      unfolding prescalers_def word_le_nat_alt by fastforce
    moreover have "best_of {best} best" by (auto simp: best_of_def)
    ultimately show ?thesis using False brp_loop.simps [of cand brpMax step brp best] by simp
  next
    case True
    note step = prescalers_step [OF assms True]
    have "2 ^ 32 - unat (brp + step) < 2 ^ 32 - unat brp"
      using step(2) assms(1) unat_u32 [of brp] by simp
    from less [OF this, of "better best (cand brp)"] obtain r where
      "brp_loop cand brpMax step (brp + step) (better best (cand brp)) = Some r"
      "best_of (insert (better best (cand brp)) (cand ` prescalers (brp + step) step brpMax)) r" by blast
    note r = this
    have "brp_loop cand brpMax step brp best = Some r"
      using True r(1) by (subst brp_loop.simps) simp
    moreover have "best_of (insert best (cand ` prescalers brp step brpMax)) r"
      unfolding step(1) image_insert by (rule best_of_better [OF r(2)])
    ultimately show ?thesis by blast
  qed
qed

lemma brp_loop_endless: "brp_loop cand brpMax step brp best = Some r \<Longrightarrow> brpMax \<noteq> - 1"
proof (erule brp_loop.raw_induct [where P = "\<lambda>cand brpMax step brp best r. brpMax \<noteq> - 1", rotated])
  fix loop :: "(u32 \<Rightarrow> candidate option) \<Rightarrow> u32 \<Rightarrow> u32 \<Rightarrow> u32 \<Rightarrow> candidate option \<Rightarrow> candidate option option"
    and cand brpMax step brp best r
  assume "\<And>cand brpMax step brp best r. loop cand brpMax step brp best = Some r \<Longrightarrow> brpMax \<noteq> - 1"
    and "(if brp \<le> brpMax then loop cand brpMax step (brp + step) (better best (cand brp)) else Some best) = Some r"
  then show "brpMax \<noteq> - 1" by (auto split: if_splits)
qed

section \<open>Properties\<close>

text \<open>A host frame that is encoded and decoded again is the same frame, for every echo number,
  channel and payload of at most eight bytes: the identifier reduced to its width, the kind of
  identifier kept, and no remote or error flag.  Anything after the twenty bytes is ignored.\<close>

theorem gs_frame_round_trip:
  assumes "length data \<le> 8"
  shows "DecodeGsFrame (EncodeGsFrame echoId i extended data channel) = Some
     \<lparr>hf_echoId = echoId, hf_id = i AND (if extended then 0x1fffffff else 0x7ff),
      hf_extended = extended, hf_remote = False, hf_error = False, hf_channel = channel, hf_data = data\<rparr>"
  using gs_frames.decode_encode [of "(echoId, i, extended, data, channel)"] assms by simp

theorem gs_frame_round_trip_witness:
  "DecodeGsFrame (EncodeGsFrame 7 0x1FFF True [1, 2, 3] 1) = Some
     \<lparr>hf_echoId = 7, hf_id = 0x1FFF AND 0x1fffffff, hf_extended = True, hf_remote = False,
      hf_error = False, hf_channel = 1, hf_data = [1, 2, 3]\<rparr>"
  using gs_frame_round_trip [of "[1, 2, 3]" 7 "0x1FFF" True 1] by (simp only: list.size) simp

text \<open>C29: The bit timing found for an adapter is exact and within its limits: prescaler, bitrate and
  quanta multiply to the clock, and both segments are in range.  The search returns, it fails only
  when no prescaler on the grid gives a timing, and the sample point error of its result is the
  smallest on the grid.  The sums of the limits must not wrap.\<close>

theorem bit_timing_exact:
  assumes "DecodeBitTimingConstants bs = Some c"
    and "1 + unat (btc_tseg1Max c) + unat (btc_tseg2Max c) < 2 ^ 32"
    and "unat (btc_brpMax c) + max (unat (btc_brpIncrement c)) 1 < 2 ^ 32"
  shows "\<exists>r. ComputeBitTiming c bitrate = Some r \<and>
    (let grid = prescalers (btc_brpMin c) (max (btc_brpIncrement c) 1) (btc_brpMax c) in
     (r = None \<longleftrightarrow> (\<forall>brp \<in> grid. CandidateFor c brp bitrate = None)) \<and>
     (\<forall>t. r = Some t \<longrightarrow> timing_exact c bitrate t \<and> bt_brp t \<in> grid \<and>
       (\<exists>e. CandidateFor c (bt_brp t) bitrate = Some (t, e) \<and>
         (\<forall>brp t' e'. brp \<in> grid \<longrightarrow> CandidateFor c brp bitrate = Some (t', e') \<longrightarrow> e \<le> e'))))"
proof -
  let ?step = "max (btc_brpIncrement c) 1"
  let ?grid = "prescalers (btc_brpMin c) ?step (btc_brpMax c)"
  let ?cand = "\<lambda>brp. CandidateFor c brp bitrate"
  have limits: "limits_ok c"
    using assms(1,2) by (auto simp: DecodeBitTimingConstants_def limits_ok_def Let_def not_less split: if_splits)
  have step: "unat ?step = max (unat (btc_brpIncrement c)) 1"
    by (simp add: max_def word_le_nat_alt)
  then have "0 < unat ?step" by (simp add: less_max_iff_disj)
  then obtain r where r: "brp_loop ?cand (btc_brpMax c) ?step (btc_brpMin c) None = Some r"
    "best_of (insert None (?cand ` ?grid)) r"
    using brp_loop_best [of ?step "btc_brpMax c" ?cand "btc_brpMin c" None] assms(3) step by auto
  have none: "map_option fst r = None \<longleftrightarrow> (\<forall>brp \<in> ?grid. ?cand brp = None)"
  proof (cases r)
    case None
    then show ?thesis using r(2) unfolding None best_of_None by simp
  next
    case (Some b)
    then have "Some b \<in> ?cand ` ?grid" using r(2) unfolding Some best_of_Some by blast
    then obtain brp where "brp \<in> ?grid" "Some b = ?cand brp" by (rule imageE)
    then have "\<exists>brp \<in> ?grid. ?cand brp \<noteq> None" by (metis option.distinct(1))
    then show ?thesis unfolding Some by simp
  qed
  have some: "timing_exact c bitrate t \<and> bt_brp t \<in> ?grid \<and>
      (\<exists>e. CandidateFor c (bt_brp t) bitrate = Some (t, e) \<and>
        (\<forall>brp t' e'. brp \<in> ?grid \<longrightarrow> CandidateFor c brp bitrate = Some (t', e') \<longrightarrow> e \<le> e'))"
    if found: "map_option fst r = Some t" for t
  proof -
    from found obtain e where e: "r = Some (t, e)" by (cases r) auto
    have member: "Some (t, e) \<in> ?cand ` ?grid" and least: "\<And>b. Some b \<in> ?cand ` ?grid \<Longrightarrow> e \<le> snd b"
      using r(2) unfolding e best_of_Some snd_conv by blast+
    from member obtain brp where brp: "Some (t, e) = ?cand brp" "brp \<in> ?grid" by (rule imageE)
    have "e \<le> e'" if "brp' \<in> ?grid" "?cand brp' = Some (t', e')" for brp' t' e'
    proof -
      have "Some (t', e') \<in> ?cand ` ?grid" using that by (intro image_eqI [of _ _ brp']) simp_all
      from least [OF this] show ?thesis by simp
    qed
    then show ?thesis using CandidateFor_exact [OF limits brp(1) [symmetric]] brp by metis
  qed
  have "ComputeBitTiming c bitrate = Some (map_option fst r)"
    by (simp add: ComputeBitTiming_def r(1) Let_def)
  then show ?thesis unfolding Let_def using none some by blast
qed

text \<open>A controller with a clock of 48 MHz.\<close>

definition sample_constants :: bit_timing_constants where
  "sample_constants = \<lparr>btc_feature = 0, btc_clock = 48000000, btc_tseg1Min = 1, btc_tseg1Max = 16,
     btc_tseg2Min = 1, btc_tseg2Max = 8, btc_sjwMax = 4, btc_brpMin = 1, btc_brpMax = 1024, btc_brpIncrement = 1\<rparr>"

definition sample_descriptor :: bytes where
  "sample_descriptor = concat (map le32 [0, 48000000, 1, 16, 1, 8, 4, 1, 1024, 1])"

lemma sample_decodes: "DecodeBitTimingConstants sample_descriptor = Some sample_constants"
  by code_simp

lemma sample_candidate: "CandidateFor sample_constants 6 500000 \<noteq> None"
  by (simp add: CandidateFor_eq sample_constants_def Let_def segments_def clamp_def)

theorem bit_timing_exact_witness:
  "\<exists>t. ComputeBitTiming sample_constants 500000 = Some (Some t) \<and> timing_exact sample_constants 500000 t"
proof -
  obtain r where r: "ComputeBitTiming sample_constants 500000 = Some r"
    "r = None \<longleftrightarrow> (\<forall>brp \<in> prescalers 1 1 1024. CandidateFor sample_constants brp 500000 = None)"
    "\<And>t. r = Some t \<Longrightarrow> timing_exact sample_constants 500000 t"
    using bit_timing_exact [OF sample_decodes, of 500000]
    by (simp add: sample_constants_def Let_def) blast
  have "6 \<in> prescalers 1 1 1024" by (simp add: prescalers_def exI [of _ 5])
  then have "r \<noteq> None" using bspec [OF iffD1 [OF r(2)]] sample_candidate by metis
  then show ?thesis using r(1,3) by blast
qed

text \<open>The search never returns for an adapter that reports the largest 32-bit number as its last
  prescaler: the prescaler wraps around before it can pass the bound.  \<^verbatim>\<open>DecodeBitTimingConstants\<close>
  accepts such a report.\<close>

theorem search_never_returns:
  assumes "DecodeBitTimingConstants bs = Some c" and "btc_brpMax c = 0xffffffff"
  shows "ComputeBitTiming c bitrate = None"
proof -
  have "brp_loop cand (0xffffffff :: u32) step brp best \<noteq> Some r" for cand step brp best r
    using brp_loop_endless [of cand "0xffffffff" step brp best r] by auto
  then show ?thesis using assms(2) by (auto simp: ComputeBitTiming_def split: option.splits)
qed

definition endless_descriptor :: bytes where
  "endless_descriptor = concat (map le32 [0, 48000000, 1, 16, 1, 8, 4, 1, 0xffffffff, 1])"

lemma endless_decodes:
  "DecodeBitTimingConstants endless_descriptor = Some (sample_constants\<lparr>btc_brpMax := 0xffffffff\<rparr>)"
  by code_simp

theorem search_never_returns_witness:
  "ComputeBitTiming (sample_constants\<lparr>btc_brpMax := 0xffffffff\<rparr>) 500000 = None"
  using search_never_returns [OF endless_decodes, of 500000] by simp

end
