(* ===== verification/FixedPoint.thy ===== *)
theory FixedPoint
  imports Payload Floats
begin

text \<open>
  Fixed-point fields: the float conversions of \<^verbatim>\<open>can-lite/core/CanFrameCodec.cpp\<close> and the accessors
  of \<^verbatim>\<open>can-lite/core/CanPayload.cpp\<close> over them.  Signed integers are \<open>int\<close>, within their range.
  The conversion back returns the field that was sent, and the conversion to a field is off by half
  a unit and the rounding of one product.
\<close>

section \<open>The conversions\<close>

definition int16_max :: int where "int16_max = 2 ^ 15 - 1"
definition int16_min :: int where "int16_min = - (2 ^ 15)"
definition int32_max :: int where "int32_max = 2 ^ 31 - 1"
definition int32_min :: int where "int32_min = - (2 ^ 31)"

definition FloatToFixed16 :: "single \<Rightarrow> int \<Rightarrow> int" where
  "FloatToFixed16 v scale =
     (if v = Not_a_number \<or> scale = 0 then 0
      else
        let scaled = roundf (times_single v (single_of_int scale))
        in if less_single (single_of_int int16_max) scaled then int16_max
           else if less_single scaled (single_of_int int16_min) then int16_min
           else int_of_single scaled)"

definition Fixed16ToFloat :: "int \<Rightarrow> int \<Rightarrow> single" where
  "Fixed16ToFloat v scale =
     (if scale = 0 then Number 0 else divide_single (single_of_int v) (single_of_int scale))"

text \<open>The largest 32-bit integer is not a \<^verbatim>\<open>float\<close>; the code compares with \<open>2 ^ 31\<close>, by \<open>>=\<close>.\<close>

definition FloatToFixed32 :: "single \<Rightarrow> int \<Rightarrow> int" where
  "FloatToFixed32 v scale =
     (if v = Not_a_number \<or> scale = 0 then 0
      else
        let scaled = roundf (times_single v (single_of_int scale)); limit = single_of_int int32_max
        in if less_single limit scaled \<or> scaled = limit then int32_max
           else if less_single scaled (single_of_int int32_min) then int32_min
           else int_of_single scaled)"

definition Fixed32ToFloat :: "int \<Rightarrow> int \<Rightarrow> single" where
  "Fixed32ToFloat v scale =
     (if scale = 0 then Number 0 else divide_single (single_of_int v) (single_of_int scale))"

definition WriteFixed16P :: "single \<Rightarrow> int \<Rightarrow> payload_writer \<Rightarrow> payload_writer" where
  "WriteFixed16P v scale w = WriteInt16P (FloatToFixed16 v scale) w"

definition ReadFixed16P :: "int \<Rightarrow> payload_reader \<Rightarrow> single \<times> payload_reader" where
  "ReadFixed16P scale r = (case ReadInt16P r of (v, r) \<Rightarrow> (Fixed16ToFloat v scale, r))"

section \<open>Scales\<close>

lemma limits: "single_of_int int16_max = Number 32767" "single_of_int int16_min = Number (- 32768)"
  by (simp_all add: single_of_int_exact int16_max_def int16_min_def)

lemma round_away_0 [simp]: "round_away 0 = 0"
proof -
  have "\<lfloor>1 / 2 :: rat\<rfloor> = 0" by (rule floor_unique) simp_all
  then show ?thesis by (simp add: round_away_def)
qed

lemma of_int_ge_1: "n \<noteq> 0 \<Longrightarrow> (1 :: rat) \<le> \<bar>of_int n\<bar>"
  by linarith

lemma scale_single:
  assumes "scale \<noteq> 0" and "\<bar>scale\<bar> \<le> 2 ^ 31"
  obtains s where "single_of_int scale = Number s" and "1 / 2 \<le> \<bar>s\<bar>" and "\<bar>s\<bar> \<le> 2 ^ 32"
    and "\<bar>s - of_int scale\<bar> \<le> \<bar>of_int scale\<bar> / 2 ^ 24"
proof -
  let ?x = "of_int scale :: rat"
  have x: "1 \<le> \<bar>?x\<bar>" "\<bar>?x\<bar> \<le> 2 ^ 31"
    using assms of_int_ge_1 [OF assms(1)] of_int_le_iff [of "\<bar>scale\<bar>" "2 ^ 31", where 'a = rat] by simp_all
  moreover obtain s where "round_single ?x = Number s" and "\<bar>s - ?x\<bar> \<le> \<bar>?x\<bar> / 2 ^ 24"
    by (rule round_single_error [of ?x]) (use x in \<open>simp_all\<close>)
  moreover from this have "\<bar>s\<bar> \<le> \<bar>?x\<bar> + \<bar>?x\<bar> / 2 ^ 24" "\<bar>?x\<bar> - \<bar>?x\<bar> / 2 ^ 24 \<le> \<bar>s\<bar>" by linarith+
  moreover from this x have "1 / 2 \<le> \<bar>s\<bar>" "\<bar>s\<bar> \<le> 2 ^ 32" by simp_all
  ultimately show thesis using that by (simp add: single_of_int_def)
qed

section \<open>There and back\<close>

lemma quotient_times:
  assumes "s \<noteq> 0" and "1 / 2 \<le> \<bar>s\<bar>" and "\<bar>s\<bar> \<le> 2 ^ 32" and "\<bar>of_int v\<bar> \<le> (2 ^ 20 :: rat)" and "v \<noteq> 0"
  obtains q p where "round_single (of_int v / s) = Number q" and "round_single (q * s) = Number p"
    and "\<bar>p - of_int v\<bar> < 1 / 2"
proof -
  let ?v = "of_int v :: rat"
  have v: "1 \<le> \<bar>?v\<bar>" by (rule of_int_ge_1 [OF assms(5)])
  have s: "0 < \<bar>s\<bar>" using assms(1) by simp
  have low: "1 / 2 ^ 32 \<le> \<bar>?v / s\<bar>"
    using v assms(3) s frac_le [of 1 "\<bar>?v\<bar>" "\<bar>s\<bar>" "2 ^ 32"] by (simp add: abs_divide)
  have "\<bar>?v / s\<bar> \<le> 2 ^ 20 / (1 / 2)"
    unfolding abs_divide by (rule frac_le) (use assms(2,4) in simp_all)
  then have up: "\<bar>?v / s\<bar> \<le> 2 ^ 21" by simp
  obtain q where q: "round_single (?v / s) = Number q" "\<bar>q - ?v / s\<bar> \<le> \<bar>?v / s\<bar> / 2 ^ 24"
  proof (rule round_single_error [of "?v / s"])
    show "1 / 2 ^ 100 \<le> \<bar>?v / s\<bar>" by (rule order_trans [OF _ low]) simp
    show "\<bar>?v / s\<bar> \<le> 2 ^ 100" by (rule order_trans [OF up]) simp
  qed blast
  have "\<bar>q * s - ?v\<bar> = \<bar>(q - ?v / s) * s\<bar>" using assms(1) by (simp add: left_diff_distrib)
  also have "\<dots> = \<bar>q - ?v / s\<bar> * \<bar>s\<bar>" by (rule abs_mult)
  also have "\<dots> \<le> \<bar>?v / s\<bar> / 2 ^ 24 * \<bar>s\<bar>" by (rule mult_right_mono [OF q(2)]) simp
  also have "\<dots> = \<bar>?v\<bar> / 2 ^ 24" using s by (simp add: abs_divide)
  finally have e1: "\<bar>q * s - ?v\<bar> \<le> \<bar>?v\<bar> / 2 ^ 24" .
  then have "\<bar>q * s\<bar> \<le> \<bar>?v\<bar> + \<bar>?v\<bar> / 2 ^ 24" "\<bar>?v\<bar> - \<bar>?v\<bar> / 2 ^ 24 \<le> \<bar>q * s\<bar>" by linarith+
  then have range: "1 / 2 \<le> \<bar>q * s\<bar>" "\<bar>q * s\<bar> \<le> 2 * \<bar>?v\<bar>" using v by simp_all
  obtain p where p: "round_single (q * s) = Number p" "\<bar>p - q * s\<bar> \<le> \<bar>q * s\<bar> / 2 ^ 24"
    by (rule round_single_error [of "q * s"]) (use range assms(4) in simp_all)
  have "\<bar>p - ?v\<bar> \<le> \<bar>p - q * s\<bar> + \<bar>q * s - ?v\<bar>" by simp
  also have "\<dots> \<le> 2 * \<bar>?v\<bar> / 2 ^ 24 + \<bar>?v\<bar> / 2 ^ 24" using p(2) e1 range(2) by simp
  also have "\<dots> < 1 / 2" using assms(4) by simp
  finally show thesis using that q(1) p(1) by blast
qed

lemma scaled_back:
  assumes "scale \<noteq> 0" and "\<bar>scale\<bar> \<le> 2 ^ 31" and "\<bar>v\<bar> \<le> 2 ^ 20"
  shows "\<exists>q. divide_single (single_of_int v) (single_of_int scale) = Number q \<and>
    roundf (times_single (Number q) (single_of_int scale)) = Number (of_int v)"
proof -
  obtain s where s: "single_of_int scale = Number s" "1 / 2 \<le> \<bar>s\<bar>" "\<bar>s\<bar> \<le> 2 ^ 32"
    by (rule scale_single [OF assms(1,2)])
  have s0: "s \<noteq> 0" using s(2) by auto
  have v: "single_of_int v = Number (of_int v)" by (rule single_of_int_exact) (use assms(3) in simp)
  show ?thesis
  proof (cases "v = 0")
    case True
    then show ?thesis using v s(1) s0 by (simp add: round_single_def)
  next
    case False
    have "\<bar>of_int v\<bar> \<le> (2 ^ 20 :: rat)"
      using assms(3) of_int_le_iff [of "\<bar>v\<bar>" "2 ^ 20", where 'a = rat] by simp
    then obtain q p where "round_single (of_int v / s) = Number q" "round_single (q * s) = Number p"
      "\<bar>p - of_int v\<bar> < 1 / 2"
      by (rule quotient_times [OF s0 s(2,3) _ False])
    then show ?thesis using v s(1) s0 round_away_nearest [of p v] by simp
  qed
qed

section \<open>Properties\<close>

lemmas fixed_limits = int16_max_def int16_min_def int32_max_def int32_min_def

lemma floor_log2_eq:
  assumes "2 powi k \<le> x" and "x < 2 powi (k + 1)"
  shows "floor_log2 x = k"
proof -
  have "0 < x" using assms(1) by (rule less_le_trans [rotated]) simp
  note b = floor_log2_bounds [OF this]
  have "2 powi k < (2 powi (floor_log2 x + 1) :: rat)" "2 powi floor_log2 x < (2 powi (k + 1) :: rat)"
    using assms b by (simp_all add: power_int_add)
  then show ?thesis unfolding powi_less_iff by simp
qed

lemma int32_limit: "single_of_int int32_max = Number (2 ^ 31)" "single_of_int int32_min = Number (- (2 ^ 31))"
proof -
  have max: "floor_log2 2147483647 = 30" and min: "floor_log2 2147483648 = 31"
    by (rule floor_log2_eq; simp)+
  have "\<lfloor>2147483647 / 128 :: rat\<rfloor> = 16777215" by (rule floor_unique) simp_all
  then have r: "round_even (2147483647 / 128) = 16777216" by (simp add: round_even_def Let_def)
  show "single_of_int int32_max = Number (2 ^ 31)"
    by (simp add: single_of_int_def int32_max_def round_single_def Let_def max round_at_def r)
  have "round_even 8388608 = 8388608" using round_even_int [of 8388608] by simp
  then show "single_of_int int32_min = Number (- (2 ^ 31))"
    by (simp add: single_of_int_def int32_min_def round_single_def Let_def min round_at_def)
qed

lemma FloatToFixed16_int:
  assumes "scale \<noteq> 0" and "roundf (times_single (Number x) (single_of_int scale)) = Number (of_int n)"
  shows "FloatToFixed16 (Number x) scale =
    (if int16_max < n then int16_max else if n < int16_min then int16_min else n)"
proof -
  have "FloatToFixed16 (Number x) scale =
      (if (32767 :: rat) < of_int n then int16_max else if of_int n < (- 32768 :: rat) then int16_min else n)"
    unfolding FloatToFixed16_def Let_def assms(2) limits using assms(1) by simp
  also have "(32767 :: rat) < of_int n \<longleftrightarrow> int16_max < n" by (simp add: int16_max_def)
  also have "of_int n < (- 32768 :: rat) \<longleftrightarrow> n < int16_min"
    using of_int_less_iff [of n "- 32768", where 'a = rat] by (simp add: int16_min_def)
  finally show ?thesis .
qed

lemma FloatToFixed32_int:
  assumes "scale \<noteq> 0" and "roundf (times_single (Number x) (single_of_int scale)) = Number (of_int n)"
    and "\<bar>n\<bar> < 2 ^ 31"
  shows "FloatToFixed32 (Number x) scale = n"
proof -
  have n: "of_int n < (2 ^ 31 :: rat)" "- (2 ^ 31) < (of_int n :: rat)"
    using assms(3) by (simp_all add: abs_less_iff)
  show ?thesis
    unfolding FloatToFixed32_def Let_def assms(2) int32_limit using n assms(1) by simp
qed

lemma FloatToFixed16_range: "int16_min \<le> FloatToFixed16 v scale \<and> FloatToFixed16 v scale \<le> int16_max"
proof (cases "times_single v (single_of_int scale)")
  case (Number x)
  let ?n = "round_away x"
  have "?n \<le> int16_max \<longleftrightarrow> \<not> (32767 :: rat) < of_int ?n" by (simp add: int16_max_def not_less)
  moreover have "int16_min \<le> ?n \<longleftrightarrow> \<not> of_int ?n < (- 32768 :: rat)"
    using of_int_le_iff [of "- 32768" ?n, where 'a = rat] by (simp add: int16_min_def not_less)
  ultimately show ?thesis unfolding FloatToFixed16_def Let_def Number limits roundf.simps
    by (simp add: int_of_single_round del: int_of_single.simps) (simp add: fixed_limits)
qed (auto simp: FloatToFixed16_def Let_def limits fixed_limits)

lemma fixed16_back:
  assumes "scale \<noteq> 0" and "\<bar>scale\<bar> \<le> 2 ^ 31" and "int16_min \<le> v" and "v \<le> int16_max"
  shows "FloatToFixed16 (Fixed16ToFloat v scale) scale = v"
proof -
  have "\<bar>v\<bar> \<le> 2 ^ 20" using assms(3,4) by (simp add: fixed_limits)
  then obtain q where "divide_single (single_of_int v) (single_of_int scale) = Number q"
    "roundf (times_single (Number q) (single_of_int scale)) = Number (of_int v)"
    using scaled_back [OF assms(1,2)] by blast
  then show ?thesis
    using FloatToFixed16_int [OF assms(1)] assms(1,3,4) by (simp add: Fixed16ToFloat_def)
qed



lemma scaled_value:
  assumes "scale \<noteq> 0" and "\<bar>scale\<bar> \<le> 2 ^ 24"
  obtains n where "roundf (times_single (Number x) (single_of_int scale)) = Number (of_int n)"
      and "\<bar>of_int n - x * of_int scale\<bar> \<le> 1 / 2 + \<bar>x * of_int scale\<bar> / 2 ^ 24 + 1 / 2 ^ 150"
  | "2 ^ 126 \<le> \<bar>x * of_int scale\<bar>"
    and "roundf (times_single (Number x) (single_of_int scale)) = Infinity (x * of_int scale < 0)"
proof (cases "x * of_int scale" rule: round_single_cases)
  case (Number r)
  have "\<bar>of_int (round_away r) - x * of_int scale\<bar> \<le> 1 / 2 + \<bar>x * of_int scale\<bar> / 2 ^ 24 + 1 / 2 ^ 150"
    using Number(2) round_away_error [of r] by linarith
  then show thesis using that(1) [of "round_away r"] Number(1) single_of_int_exact [OF assms(2)] by simp
next
  case Infinity
  then show thesis using that(2) single_of_int_exact [OF assms(2)] by simp
qed

text \<open>What becomes of a float that is sent as a 16-bit fixed-point field with a scale of at most
  24 bits: a number whose scaled value is in range becomes the nearest integer, up to the rounding of
  the product; a larger or smaller one, and an infinity, becomes the largest or the smallest field,
  it does not wrap; what is not a number becomes zero.\<close>

theorem fixed16_quantises:
  assumes "scale \<noteq> 0" and "\<bar>scale\<bar> \<le> 2 ^ 24"
  shows "case v of
      Not_a_number \<Rightarrow> FloatToFixed16 v scale = 0
    | Infinity negative \<Rightarrow> FloatToFixed16 v scale = (if negative \<noteq> (scale < 0) then int16_min else int16_max)
    | Number x \<Rightarrow>
        (if x * of_int scale \<ge> 32768 then FloatToFixed16 v scale = int16_max
         else if x * of_int scale \<le> - 32769 then FloatToFixed16 v scale = int16_min
         else int16_min \<le> FloatToFixed16 v scale \<and> FloatToFixed16 v scale \<le> int16_max \<and>
           \<bar>of_int (FloatToFixed16 v scale) - x * of_int scale\<bar> \<le> 1 + 1 / 2 ^ 8)"
proof (cases v)
  case Not_a_number
  then show ?thesis by (simp add: FloatToFixed16_def)
next
  case (Infinity negative)
  then show ?thesis using assms
    by (auto simp: FloatToFixed16_def single_of_int_exact limits)
next
  case (Number x)
  let ?y = "x * of_int scale"
  show ?thesis
  proof (cases rule: scaled_value [OF assms, of x])
    case (1 n)
    have f: "FloatToFixed16 v scale = (if int16_max < n then int16_max else if n < int16_min then int16_min else n)"
      unfolding Number by (rule FloatToFixed16_int [OF assms(1) 1(1)])
    show ?thesis
    proof (cases "32768 \<le> ?y \<or> ?y \<le> - 32769")
      case True
      then show ?thesis
      proof
        assume y: "32768 \<le> ?y"
        then have "(32767 :: rat) < of_int n" using 1(2) by (simp add: abs_le_iff)
        then have "int16_max < n" by (simp add: int16_max_def)
        then show ?thesis using f y Number by simp
      next
        assume y: "?y \<le> - 32769"
        then have "of_int n < (- 32768 :: rat)" using 1(2) by (simp add: abs_le_iff)
        then have "n < int16_min"
          using of_int_less_iff [of n "- 32768", where 'a = rat] by (simp add: int16_min_def)
        then show ?thesis using f y Number by (simp add: fixed_limits)
      qed
    next
      case False
      then have "\<bar>?y\<bar> \<le> 32769" by linarith
      then have err: "\<bar>of_int n - ?y\<bar> \<le> 1 / 2 + 1 / 2 ^ 8" using 1(2) by simp
      define m where "m = FloatToFixed16 v scale"
      have "int16_min \<le> m \<and> m \<le> int16_max \<and> \<bar>of_int m - ?y\<bar> \<le> 1 + 1 / 2 ^ 8"
      proof (cases "int16_max < n \<or> n < int16_min")
        case clamped: True
        then have "(32768 :: rat) \<le> of_int n \<and> m = 32767 \<or> of_int n \<le> (- 32769 :: rat) \<and> m = - 32768"
          by (auto simp: m_def f fixed_limits)
        then show ?thesis using err False by (auto simp: fixed_limits abs_le_iff)
      next
        case False
        then show ?thesis using err by (simp add: m_def f)
      qed
      then show ?thesis using False unfolding Number m_def by simp
    qed
  next
    case 2
    then show ?thesis using assms(1) Number
      by (auto simp: FloatToFixed16_def limits Let_def abs_if split: if_splits)
  qed
qed

theorem fixed16_quantises_witness:
  "\<bar>of_int (FloatToFixed16 (Number (3 / 2)) 1000) - 1500\<bar> \<le> (1 + 1 / 2 ^ 8 :: rat)"
  using fixed16_quantises [of 1000 "Number (3 / 2)"] by simp

end
