(* ===== verification/FocMotor.thy ===== *)
theory FocMotor
  imports CategoryClient FixedPoint
begin

text \<open>
  A category of an application, the motor controller of \<^verbatim>\<open>examples/foc_motor\<close>: the handlers of its
  server and the commands and response handlers of its client.

  An enumeration of the code has a fixed underlying type and a cast makes any byte a value of it, so
  it is a byte with names for its enumerators.  The observers are code of the application, as for
  the firmware upgrade.  A command of this category has its sequence number as its first byte.
\<close>

section \<open>Definitions\<close>

definition focMotorCategoryId :: u8 where "focMotorCategoryId = 0x02"

definition focQueryMotorTypeId :: u8 where "focQueryMotorTypeId = 0x00"
definition focStartId :: u8 where "focStartId = 0x01"
definition focStopId :: u8 where "focStopId = 0x02"
definition focSetPidCurrentId :: u8 where "focSetPidCurrentId = 0x03"
definition focSetPidSpeedId :: u8 where "focSetPidSpeedId = 0x04"
definition focSetPidPositionId :: u8 where "focSetPidPositionId = 0x05"
definition focIdentifyElectricalId :: u8 where "focIdentifyElectricalId = 0x06"
definition focIdentifyMechanicalId :: u8 where "focIdentifyMechanicalId = 0x07"
definition focRequestTelemetryId :: u8 where "focRequestTelemetryId = 0x08"
definition focSetEncoderResolutionId :: u8 where "focSetEncoderResolutionId = 0x09"
definition focClearFaultId :: u8 where "focClearFaultId = 0x0B"
definition focEmergencyStopId :: u8 where "focEmergencyStopId = 0x0C"
definition focConfigureTelemetryRateId :: u8 where "focConfigureTelemetryRateId = 0x0D"
definition focSelectControlModeId :: u8 where "focSelectControlModeId = 0x0E"
definition focSetTorqueSetpointId :: u8 where "focSetTorqueSetpointId = 0x0F"
definition focSetSpeedSetpointId :: u8 where "focSetSpeedSetpointId = 0x10"
definition focSetPositionSetpointId :: u8 where "focSetPositionSetpointId = 0x11"

definition focMotorTypeResponseId :: u8 where "focMotorTypeResponseId = 0x80"
definition focElectricalParamsResponseId :: u8 where "focElectricalParamsResponseId = 0x86"
definition focMechanicalParamsResponseId :: u8 where "focMechanicalParamsResponseId = 0x87"
definition focTelemetryElectricalResponseId :: u8 where "focTelemetryElectricalResponseId = 0x88"
definition focTelemetryStatusResponseId :: u8 where "focTelemetryStatusResponseId = 0x89"
definition focSelectControlModeResponseId :: u8 where "focSelectControlModeResponseId = 0x8E"

lemmas foc_ids = focMotorCategoryId_def focQueryMotorTypeId_def focStartId_def focStopId_def
  focSetPidCurrentId_def focSetPidSpeedId_def focSetPidPositionId_def focIdentifyElectricalId_def
  focIdentifyMechanicalId_def focRequestTelemetryId_def focSetEncoderResolutionId_def
  focClearFaultId_def focEmergencyStopId_def focConfigureTelemetryRateId_def
  focSelectControlModeId_def focSetTorqueSetpointId_def focSetSpeedSetpointId_def
  focSetPositionSetpointId_def focMotorTypeResponseId_def focElectricalParamsResponseId_def
  focMechanicalParamsResponseId_def focTelemetryElectricalResponseId_def
  focTelemetryStatusResponseId_def focSelectControlModeResponseId_def

definition focResistanceScale :: int where "focResistanceScale = 1000"
definition focInductanceScale :: int where "focInductanceScale = 1000"
definition focInertiaScale :: int where "focInertiaScale = 10000"
definition focFrictionScale :: int where "focFrictionScale = 10000"
definition focVoltageScale :: int where "focVoltageScale = 10"
definition focCurrentScale :: int where "focCurrentScale = 10"
definition focSpeedScale :: int where "focSpeedScale = 1"
definition focPositionScale :: int where "focPositionScale = 100"

lemmas foc_scales = focResistanceScale_def focInductanceScale_def focInertiaScale_def
  focFrictionScale_def focVoltageScale_def focCurrentScale_def focSpeedScale_def focPositionScale_def

type_synonym FocMotorMode = u8
type_synonym FocMotorState = u8
type_synonym FocFaultCode = u8
type_synonym FocMotorCategoryError = u8

definition mode_torque :: FocMotorMode where "mode_torque = 0"
definition mode_speed :: FocMotorMode where "mode_speed = 1"
definition mode_position :: FocMotorMode where "mode_position = 2"
definition state_fault :: FocMotorState where "state_fault = 2"

record FocPidGains =
  pid_kp :: int
  pid_ki :: int
  pid_kd :: int

record FocElectricalParams =
  el_resistance :: single
  el_inductance :: single

record FocMechanicalParams =
  me_inertia :: single
  me_friction :: single

record FocTelemetryElectrical =
  te_voltage :: single
  te_maxCurrent :: single
  te_iq :: single
  te_id :: single

record FocTelemetryStatus =
  ts_state :: FocMotorState
  ts_fault :: FocFaultCode
  ts_speed :: single
  ts_position :: single

section \<open>The responses of the server\<close>

record 'o foc_observer =
  OnQueryMotorType :: "'o \<Rightarrow> FocMotorMode list \<times> 'o"
  OnStart :: "'o \<Rightarrow> CanAckStatus list \<times> 'o"
  OnStop :: "'o \<Rightarrow> unit list \<times> 'o"
  OnSetPidCurrent :: "FocPidGains \<Rightarrow> 'o \<Rightarrow> unit list \<times> 'o"
  OnSetPidSpeed :: "FocPidGains \<Rightarrow> 'o \<Rightarrow> unit list \<times> 'o"
  OnSetPidPosition :: "FocPidGains \<Rightarrow> 'o \<Rightarrow> unit list \<times> 'o"
  OnIdentifyElectrical :: "'o \<Rightarrow> FocElectricalParams list \<times> 'o"
  OnIdentifyMechanical :: "'o \<Rightarrow> FocMechanicalParams list \<times> 'o"
  OnRequestTelemetry :: "'o \<Rightarrow> (FocTelemetryElectrical \<times> FocTelemetryStatus) list \<times> 'o"
  OnSetEncoderResolution :: "u16 \<Rightarrow> 'o \<Rightarrow> unit list \<times> 'o"
  OnSelectControlMode :: "FocMotorMode \<Rightarrow> 'o \<Rightarrow> FocMotorMode list \<times> 'o"
  OnSetTorqueSetpoint :: "single \<Rightarrow> 'o \<Rightarrow> unit list \<times> 'o"
  OnSetSpeedSetpoint :: "single \<Rightarrow> 'o \<Rightarrow> unit list \<times> 'o"
  OnSetPositionSetpoint :: "single \<Rightarrow> 'o \<Rightarrow> unit list \<times> 'o"
  OnClearFault :: "'o \<Rightarrow> unit list \<times> 'o"
  OnEmergencyStop :: "'o \<Rightarrow> unit list \<times> 'o"
  OnConfigureTelemetryRate :: "u8 \<Rightarrow> 'o \<Rightarrow> unit list \<times> 'o"

record 'o foc_server =
  foc_observer :: "'o foc_observer option"
  foc_owner :: 'o

type_synonym ('a, 'o) foc_program = "('a server_call, 'o foc_server) program"
type_synonym ('a, 'o) foc_category = "('a server_call, 'o foc_server) category"
type_synonym ('a, 'o) foc_handler = "('a server_call, 'o foc_server) handler"

text \<open>The program \<open>k\<close> is what follows a send.\<close>

definition SendMotorTypeResponse ::
    "('a, 'o) foc_category \<Rightarrow> FocMotorMode \<Rightarrow> ('a, 'o) foc_program \<Rightarrow> ('a, 'o) foc_program" where
  "SendMotorTypeResponse this mode k =
     (let payload = WriteUInt8P mode CanPayloadWriter
      in SendResponsePayload this focMotorTypeResponseId payload (\<lambda>_. k))"

definition SendElectricalParamsResponse ::
    "('a, 'o) foc_category \<Rightarrow> FocElectricalParams \<Rightarrow> ('a, 'o) foc_program \<Rightarrow> ('a, 'o) foc_program" where
  "SendElectricalParamsResponse this params k =
     (let payload = WriteFixed16P (el_inductance params) focInductanceScale
            (WriteFixed16P (el_resistance params) focResistanceScale CanPayloadWriter)
      in SendResponsePayload this focElectricalParamsResponseId payload (\<lambda>_. k))"

definition SendMechanicalParamsResponse ::
    "('a, 'o) foc_category \<Rightarrow> FocMechanicalParams \<Rightarrow> ('a, 'o) foc_program \<Rightarrow> ('a, 'o) foc_program" where
  "SendMechanicalParamsResponse this params k =
     (let payload = WriteFixed16P (me_friction params) focFrictionScale
            (WriteFixed16P (me_inertia params) focInertiaScale CanPayloadWriter)
      in SendResponsePayload this focMechanicalParamsResponseId payload (\<lambda>_. k))"

definition SendTelemetryElectricalResponse ::
    "('a, 'o) foc_category \<Rightarrow> FocTelemetryElectrical \<Rightarrow> ('a, 'o) foc_program \<Rightarrow> ('a, 'o) foc_program" where
  "SendTelemetryElectricalResponse this t k =
     (let payload = WriteFixed16P (te_id t) focCurrentScale (WriteFixed16P (te_iq t) focCurrentScale
            (WriteFixed16P (te_maxCurrent t) focCurrentScale
              (WriteFixed16P (te_voltage t) focVoltageScale CanPayloadWriter)))
      in SendTelemetryPayload this focTelemetryElectricalResponseId payload (\<lambda>_. k))"

definition SendTelemetryStatusResponse ::
    "('a, 'o) foc_category \<Rightarrow> FocTelemetryStatus \<Rightarrow> ('a, 'o) foc_program \<Rightarrow> ('a, 'o) foc_program" where
  "SendTelemetryStatusResponse this status k =
     (let payload = WriteFixed16P (ts_position status) focPositionScale
            (WriteFixed16P (ts_speed status) focSpeedScale
              (WriteUInt8P (ts_fault status) (WriteUInt8P (ts_state status) CanPayloadWriter)))
      in SendTelemetryPayload this focTelemetryStatusResponseId payload (\<lambda>_. k))"

definition SendSelectControlModeResponse ::
    "('a, 'o) foc_category \<Rightarrow> FocMotorMode \<Rightarrow> ('a, 'o) foc_program \<Rightarrow> ('a, 'o) foc_program" where
  "SendSelectControlModeResponse this activeMode k =
     (let payload = WriteUInt8P activeMode CanPayloadWriter
      in SendResponsePayload this focSelectControlModeResponseId payload (\<lambda>_. k))"

definition SendFocCategoryError ::
    "('a, 'o) foc_category \<Rightarrow> u8 \<Rightarrow> FocMotorCategoryError \<Rightarrow> ('a, 'o) foc_program \<Rightarrow> ('a, 'o) foc_program" where
  "SendFocCategoryError this origCommandId errorCode k =
     SendCategoryError this origCommandId errorCode
       (\<lambda>_. SendCommandAckC this origCommandId categoryError k)"

definition BroadcastFaultStatus ::
    "('a, 'o) foc_category \<Rightarrow> FocFaultCode \<Rightarrow> ('a, 'o) foc_program \<Rightarrow> ('a, 'o) foc_program" where
  "BroadcastFaultStatus this fault k =
     SendTelemetryStatusResponse this
       \<lparr>ts_state = state_fault, ts_fault = fault, ts_speed = Number 0, ts_position = Number 0\<rparr> k"

section \<open>The handlers of the server\<close>

definition notify_foc ::
    "('o foc_observer \<Rightarrow> 'o \<Rightarrow> 'r list \<times> 'o) \<Rightarrow> ('r \<Rightarrow> ('a, 'o) foc_program \<Rightarrow> ('a, 'o) foc_program)
       \<Rightarrow> 'o foc_server \<Rightarrow> ('a, 'o) foc_program" where
  "notify_foc method onResult s =
     (case foc_observer s of
        None \<Rightarrow> Return True s
      | Some observer \<Rightarrow>
          (case method observer (foc_owner s) of
             (results, owner) \<Rightarrow>
               each_result (\<lambda>r s k. onResult r (k s)) results (s\<lparr>foc_owner := owner\<rparr>) (Return True)))"

definition acknowledge_success ::
    "('a, 'o) foc_category \<Rightarrow> u8 \<Rightarrow> unit \<Rightarrow> ('a, 'o) foc_program \<Rightarrow> ('a, 'o) foc_program" where
  "acknowledge_success this commandId = (\<lambda>_ k. SendCommandAckC this commandId ackSuccess k)"

definition HandleQueryMotorType :: "('a, 'o) foc_category \<Rightarrow> ('a, 'o) foc_handler" where
  "HandleQueryMotorType this data s =
     notify_foc OnQueryMotorType
       (\<lambda>mode k. SendMotorTypeResponse this mode (SendCommandAckC this focQueryMotorTypeId ackSuccess k)) s"

definition HandleStart :: "('a, 'o) foc_category \<Rightarrow> ('a, 'o) foc_handler" where
  "HandleStart this data s =
     notify_foc OnStart (\<lambda>status k. SendCommandAckC this focStartId status k) s"

definition HandleStop :: "('a, 'o) foc_category \<Rightarrow> ('a, 'o) foc_handler" where
  "HandleStop this data s = notify_foc OnStop (acknowledge_success this focStopId) s"

definition ReadPidGains :: "payload_reader \<Rightarrow> FocPidGains \<times> payload_reader" where
  "ReadPidGains r =
     (case ReadInt16P r of
        (kp, r) \<Rightarrow> case ReadInt16P r of
          (ki, r) \<Rightarrow> case ReadInt16P r of
            (kd, r) \<Rightarrow> (\<lparr>pid_kp = kp, pid_ki = ki, pid_kd = kd\<rparr>, r))"

definition HandleSetPidCurrent :: "('a, 'o) foc_category \<Rightarrow> ('a, 'o) foc_handler" where
  "HandleSetPidCurrent this data s =
     (case ReadPidGains (SkipP 1 (CanPayloadReader data)) of
        (gains, reader) \<Rightarrow>
          if \<not> pr_valid reader then Return False s
          else notify_foc (\<lambda>ob. OnSetPidCurrent ob gains) (acknowledge_success this focSetPidCurrentId) s)"

definition HandleSetPidSpeed :: "('a, 'o) foc_category \<Rightarrow> ('a, 'o) foc_handler" where
  "HandleSetPidSpeed this data s =
     (case ReadPidGains (SkipP 1 (CanPayloadReader data)) of
        (gains, reader) \<Rightarrow>
          if \<not> pr_valid reader then Return False s
          else notify_foc (\<lambda>ob. OnSetPidSpeed ob gains) (acknowledge_success this focSetPidSpeedId) s)"

definition HandleSetPidPosition :: "('a, 'o) foc_category \<Rightarrow> ('a, 'o) foc_handler" where
  "HandleSetPidPosition this data s =
     (case ReadPidGains (SkipP 1 (CanPayloadReader data)) of
        (gains, reader) \<Rightarrow>
          if \<not> pr_valid reader then Return False s
          else notify_foc (\<lambda>ob. OnSetPidPosition ob gains) (acknowledge_success this focSetPidPositionId) s)"

definition HandleIdentifyElectrical :: "('a, 'o) foc_category \<Rightarrow> ('a, 'o) foc_handler" where
  "HandleIdentifyElectrical this data s =
     notify_foc OnIdentifyElectrical
       (\<lambda>params k. SendElectricalParamsResponse this params
          (SendCommandAckC this focIdentifyElectricalId ackSuccess k)) s"

definition HandleIdentifyMechanical :: "('a, 'o) foc_category \<Rightarrow> ('a, 'o) foc_handler" where
  "HandleIdentifyMechanical this data s =
     notify_foc OnIdentifyMechanical
       (\<lambda>params k. SendMechanicalParamsResponse this params
          (SendCommandAckC this focIdentifyMechanicalId ackSuccess k)) s"

definition HandleRequestTelemetry :: "('a, 'o) foc_category \<Rightarrow> ('a, 'o) foc_handler" where
  "HandleRequestTelemetry this data s =
     notify_foc OnRequestTelemetry
       (\<lambda>(electrical, status) k. SendTelemetryElectricalResponse this electrical
          (SendTelemetryStatusResponse this status
            (SendCommandAckC this focRequestTelemetryId ackSuccess k))) s"

definition HandleSetEncoderResolution :: "('a, 'o) foc_category \<Rightarrow> ('a, 'o) foc_handler" where
  "HandleSetEncoderResolution this data s =
     (case ReadUInt16P (SkipP 1 (CanPayloadReader data)) of
        (resolution, reader) \<Rightarrow>
          if \<not> pr_valid reader then Return False s
          else notify_foc (\<lambda>ob. OnSetEncoderResolution ob resolution)
                 (acknowledge_success this focSetEncoderResolutionId) s)"

definition HandleSelectControlMode :: "('a, 'o) foc_category \<Rightarrow> ('a, 'o) foc_handler" where
  "HandleSelectControlMode this data s =
     (case ReadUInt8P (SkipP 1 (CanPayloadReader data)) of
        (mode, reader) \<Rightarrow>
          if \<not> pr_valid reader then Return False s
          else if mode \<noteq> mode_torque \<and> mode \<noteq> mode_speed \<and> mode \<noteq> mode_position then Return False s
          else notify_foc (\<lambda>ob. OnSelectControlMode ob mode)
                 (\<lambda>activatedMode k. SendSelectControlModeResponse this activatedMode
                    (SendCommandAckC this focSelectControlModeId ackSuccess k)) s)"

definition HandleSetTorqueSetpoint :: "('a, 'o) foc_category \<Rightarrow> ('a, 'o) foc_handler" where
  "HandleSetTorqueSetpoint this data s =
     (case ReadFixed16P focCurrentScale (SkipP 1 (CanPayloadReader data)) of
        (v, reader) \<Rightarrow>
          if \<not> pr_valid reader then Return False s
          else notify_foc (\<lambda>ob. OnSetTorqueSetpoint ob v)
                 (acknowledge_success this focSetTorqueSetpointId) s)"

definition HandleSetSpeedSetpoint :: "('a, 'o) foc_category \<Rightarrow> ('a, 'o) foc_handler" where
  "HandleSetSpeedSetpoint this data s =
     (case ReadFixed16P focSpeedScale (SkipP 1 (CanPayloadReader data)) of
        (v, reader) \<Rightarrow>
          if \<not> pr_valid reader then Return False s
          else notify_foc (\<lambda>ob. OnSetSpeedSetpoint ob v)
                 (acknowledge_success this focSetSpeedSetpointId) s)"

definition HandleSetPositionSetpoint :: "('a, 'o) foc_category \<Rightarrow> ('a, 'o) foc_handler" where
  "HandleSetPositionSetpoint this data s =
     (case ReadFixed16P focPositionScale (SkipP 1 (CanPayloadReader data)) of
        (v, reader) \<Rightarrow>
          if \<not> pr_valid reader then Return False s
          else notify_foc (\<lambda>ob. OnSetPositionSetpoint ob v)
                 (acknowledge_success this focSetPositionSetpointId) s)"

definition HandleClearFault :: "('a, 'o) foc_category \<Rightarrow> ('a, 'o) foc_handler" where
  "HandleClearFault this data s = notify_foc OnClearFault (acknowledge_success this focClearFaultId) s"

definition HandleEmergencyStop :: "('a, 'o) foc_category \<Rightarrow> ('a, 'o) foc_handler" where
  "HandleEmergencyStop this data s =
     notify_foc OnEmergencyStop (acknowledge_success this focEmergencyStopId) s"

definition HandleConfigureTelemetryRate :: "('a, 'o) foc_category \<Rightarrow> ('a, 'o) foc_handler" where
  "HandleConfigureTelemetryRate this data s =
     (case ReadUInt8P (SkipP 1 (CanPayloadReader data)) of
        (rateHz, reader) \<Rightarrow>
          if \<not> pr_valid reader then Return False s
          else notify_foc (\<lambda>ob. OnConfigureTelemetryRate ob rateHz)
                 (acknowledge_success this focConfigureTelemetryRateId) s)"

text \<open>The message types in the order of the constructor.\<close>

definition foc_types :: "('a, 'o) foc_category \<Rightarrow> ('a server_call, 'o foc_server) message_type list" where
  "foc_types this =
     [CanMessageHandler focQueryMotorTypeId (HandleQueryMotorType this),
      CanMessageHandler focStartId (HandleStart this),
      CanMessageHandler focStopId (HandleStop this),
      CanMessageHandler focSetPidCurrentId (HandleSetPidCurrent this),
      CanMessageHandler focSetPidSpeedId (HandleSetPidSpeed this),
      CanMessageHandler focSetPidPositionId (HandleSetPidPosition this),
      CanMessageHandler focIdentifyElectricalId (HandleIdentifyElectrical this),
      CanMessageHandler focIdentifyMechanicalId (HandleIdentifyMechanical this),
      CanMessageHandler focRequestTelemetryId (HandleRequestTelemetry this),
      CanMessageHandler focSetEncoderResolutionId (HandleSetEncoderResolution this),
      CanMessageHandler focSelectControlModeId (HandleSelectControlMode this),
      CanMessageHandler focSetTorqueSetpointId (HandleSetTorqueSetpoint this),
      CanMessageHandler focSetSpeedSetpointId (HandleSetSpeedSetpoint this),
      CanMessageHandler focSetPositionSetpointId (HandleSetPositionSetpoint this),
      CanMessageHandler focClearFaultId (HandleClearFault this),
      CanMessageHandler focEmergencyStopId (HandleEmergencyStop this),
      CanMessageHandler focConfigureTelemetryRateId (HandleConfigureTelemetryRate this)]"

text \<open>The category that the handlers refer to has its acknowledger set by the server.\<close>

definition FocMotorCategoryServer :: "nat \<Rightarrow> ('a, 'o) foc_category option" where
  "FocMotorCategoryServer address =
     (let base = CanCategoryServer address focMotorCategoryId
      in AddMessageTypes (foc_types (SetAcknowledger base)) base)"

section \<open>The client\<close>

record 'o foc_client_observer =
  OnMotorTypeResponse :: "FocMotorMode \<Rightarrow> 'o \<Rightarrow> (client_call, 'o) program"
  OnElectricalParamsResponse :: "FocElectricalParams \<Rightarrow> 'o \<Rightarrow> (client_call, 'o) program"
  OnMechanicalParamsResponse :: "FocMechanicalParams \<Rightarrow> 'o \<Rightarrow> (client_call, 'o) program"
  OnTelemetryElectricalResponse :: "FocTelemetryElectrical \<Rightarrow> 'o \<Rightarrow> (client_call, 'o) program"
  OnTelemetryStatusResponse :: "FocTelemetryStatus \<Rightarrow> 'o \<Rightarrow> (client_call, 'o) program"
  OnSelectControlModeResponse :: "FocMotorMode \<Rightarrow> 'o \<Rightarrow> (client_call, 'o) program"
  OnCategoryError :: "u8 \<Rightarrow> FocMotorCategoryError \<Rightarrow> 'o \<Rightarrow> (client_call, 'o) program"

record 'o foc_client =
  fcc_observer :: "'o foc_client_observer option"
  fcc_owner :: 'o

type_synonym 'o foc_client_category = "(client_call, 'o foc_client) category"
type_synonym 'o foc_client_program = "(client_call, 'o foc_client) program"

definition SendQueryMotorType ::
    "'o foc_client_category \<Rightarrow> u16 \<Rightarrow> (bool \<Rightarrow> 'o foc_client_program) \<Rightarrow> 'o foc_client_program" where
  "SendQueryMotorType this targetNodeId k =
     SendCommandEmpty this targetNodeId focQueryMotorTypeId command k"

definition SendStart ::
    "'o foc_client_category \<Rightarrow> u16 \<Rightarrow> (bool \<Rightarrow> 'o foc_client_program) \<Rightarrow> 'o foc_client_program" where
  "SendStart this targetNodeId k =
     SendCommandEmpty this targetNodeId focStartId command k"

definition SendStop ::
    "'o foc_client_category \<Rightarrow> u16 \<Rightarrow> (bool \<Rightarrow> 'o foc_client_program) \<Rightarrow> 'o foc_client_program" where
  "SendStop this targetNodeId k =
     SendCommandEmpty this targetNodeId focStopId command k"

definition SendSetPidCurrent ::
    "'o foc_client_category \<Rightarrow> u16 \<Rightarrow> FocPidGains \<Rightarrow> (bool \<Rightarrow> 'o foc_client_program) \<Rightarrow> 'o foc_client_program" where
  "SendSetPidCurrent this targetNodeId gains k =
     (let payload = WriteInt16P (pid_kd gains) (WriteInt16P (pid_ki gains)
            (WriteInt16P (pid_kp gains) CanPayloadWriter))
      in SendCommandPayload this targetNodeId focSetPidCurrentId payload command k)"

definition SendSetPidSpeed ::
    "'o foc_client_category \<Rightarrow> u16 \<Rightarrow> FocPidGains \<Rightarrow> (bool \<Rightarrow> 'o foc_client_program) \<Rightarrow> 'o foc_client_program" where
  "SendSetPidSpeed this targetNodeId gains k =
     (let payload = WriteInt16P (pid_kd gains) (WriteInt16P (pid_ki gains)
            (WriteInt16P (pid_kp gains) CanPayloadWriter))
      in SendCommandPayload this targetNodeId focSetPidSpeedId payload command k)"

definition SendSetPidPosition ::
    "'o foc_client_category \<Rightarrow> u16 \<Rightarrow> FocPidGains \<Rightarrow> (bool \<Rightarrow> 'o foc_client_program) \<Rightarrow> 'o foc_client_program" where
  "SendSetPidPosition this targetNodeId gains k =
     (let payload = WriteInt16P (pid_kd gains) (WriteInt16P (pid_ki gains)
            (WriteInt16P (pid_kp gains) CanPayloadWriter))
      in SendCommandPayload this targetNodeId focSetPidPositionId payload command k)"

definition SendIdentifyElectrical ::
    "'o foc_client_category \<Rightarrow> u16 \<Rightarrow> (bool \<Rightarrow> 'o foc_client_program) \<Rightarrow> 'o foc_client_program" where
  "SendIdentifyElectrical this targetNodeId k =
     SendCommandEmpty this targetNodeId focIdentifyElectricalId command k"

definition SendIdentifyMechanical ::
    "'o foc_client_category \<Rightarrow> u16 \<Rightarrow> (bool \<Rightarrow> 'o foc_client_program) \<Rightarrow> 'o foc_client_program" where
  "SendIdentifyMechanical this targetNodeId k =
     SendCommandEmpty this targetNodeId focIdentifyMechanicalId command k"

definition SendRequestTelemetry ::
    "'o foc_client_category \<Rightarrow> u16 \<Rightarrow> (bool \<Rightarrow> 'o foc_client_program) \<Rightarrow> 'o foc_client_program" where
  "SendRequestTelemetry this targetNodeId k =
     SendCommandEmpty this targetNodeId focRequestTelemetryId command k"

definition SendSetEncoderResolution ::
    "'o foc_client_category \<Rightarrow> u16 \<Rightarrow> u16 \<Rightarrow> (bool \<Rightarrow> 'o foc_client_program) \<Rightarrow> 'o foc_client_program" where
  "SendSetEncoderResolution this targetNodeId resolution k =
     (let payload = WriteUInt16P resolution CanPayloadWriter
      in SendCommandPayload this targetNodeId focSetEncoderResolutionId payload command k)"

definition SendSelectControlMode ::
    "'o foc_client_category \<Rightarrow> u16 \<Rightarrow> FocMotorMode \<Rightarrow> (bool \<Rightarrow> 'o foc_client_program) \<Rightarrow> 'o foc_client_program" where
  "SendSelectControlMode this targetNodeId mode k =
     (let payload = WriteUInt8P mode CanPayloadWriter
      in SendCommandPayload this targetNodeId focSelectControlModeId payload command k)"

definition SendSetTorqueSetpoint ::
    "'o foc_client_category \<Rightarrow> u16 \<Rightarrow> single \<Rightarrow> (bool \<Rightarrow> 'o foc_client_program) \<Rightarrow> 'o foc_client_program" where
  "SendSetTorqueSetpoint this targetNodeId v k =
     (let payload = WriteFixed16P v focCurrentScale CanPayloadWriter
      in SendCommandPayload this targetNodeId focSetTorqueSetpointId payload command k)"

definition SendSetSpeedSetpoint ::
    "'o foc_client_category \<Rightarrow> u16 \<Rightarrow> single \<Rightarrow> (bool \<Rightarrow> 'o foc_client_program) \<Rightarrow> 'o foc_client_program" where
  "SendSetSpeedSetpoint this targetNodeId v k =
     (let payload = WriteFixed16P v focSpeedScale CanPayloadWriter
      in SendCommandPayload this targetNodeId focSetSpeedSetpointId payload command k)"

definition SendSetPositionSetpoint ::
    "'o foc_client_category \<Rightarrow> u16 \<Rightarrow> single \<Rightarrow> (bool \<Rightarrow> 'o foc_client_program) \<Rightarrow> 'o foc_client_program" where
  "SendSetPositionSetpoint this targetNodeId v k =
     (let payload = WriteFixed16P v focPositionScale CanPayloadWriter
      in SendCommandPayload this targetNodeId focSetPositionSetpointId payload command k)"

definition SendClearFault ::
    "'o foc_client_category \<Rightarrow> u16 \<Rightarrow> (bool \<Rightarrow> 'o foc_client_program) \<Rightarrow> 'o foc_client_program" where
  "SendClearFault this targetNodeId k =
     SendCommandEmpty this targetNodeId focClearFaultId command k"

definition SendEmergencyStop ::
    "'o foc_client_category \<Rightarrow> u16 \<Rightarrow> (bool \<Rightarrow> 'o foc_client_program) \<Rightarrow> 'o foc_client_program" where
  "SendEmergencyStop this targetNodeId k =
     SendCommandEmpty this targetNodeId focEmergencyStopId emergency k"

definition SendConfigureTelemetryRate ::
    "'o foc_client_category \<Rightarrow> u16 \<Rightarrow> u8 \<Rightarrow> (bool \<Rightarrow> 'o foc_client_program) \<Rightarrow> 'o foc_client_program" where
  "SendConfigureTelemetryRate this targetNodeId rateHz k =
     (let payload = WriteUInt8P rateHz CanPayloadWriter
      in SendCommandPayload this targetNodeId focConfigureTelemetryRateId payload command k)"

text \<open>A handler notifies the observer, if there is one, and accepts the message.\<close>

primrec accepting_foc :: "'o foc_client \<Rightarrow> (client_call, 'o) program \<Rightarrow> 'o foc_client_program" where
  "accepting_foc s (Return accepted owner) = Return True (s\<lparr>fcc_owner := owner\<rparr>)"
| "accepting_foc s (Call c k) = Call c (\<lambda>result. accepting_foc s (k result))"

definition tell_foc ::
    "('o foc_client_observer \<Rightarrow> 'o \<Rightarrow> (client_call, 'o) program) \<Rightarrow> 'o foc_client
       \<Rightarrow> 'o foc_client_program" where
  "tell_foc method s =
     (case fcc_observer s of
        None \<Rightarrow> Return True s
      | Some observer \<Rightarrow> accepting_foc s (method observer (fcc_owner s)))"

definition HandleMotorTypeResponse :: "(client_call, 'o foc_client) handler" where
  "HandleMotorTypeResponse data s =
     (case ReadUInt8P (CanPayloadReader data) of
        (mode, reader) \<Rightarrow>
          if \<not> pr_valid reader then Return False s
          else tell_foc (\<lambda>ob. OnMotorTypeResponse ob mode) s)"

definition HandleElectricalParamsResponse :: "(client_call, 'o foc_client) handler" where
  "HandleElectricalParamsResponse data s =
     (case ReadFixed16P focResistanceScale (CanPayloadReader data) of
        (resistance, reader1) \<Rightarrow> case ReadFixed16P focInductanceScale reader1 of
          (inductance, reader) \<Rightarrow>
            if \<not> pr_valid reader then Return False s
            else tell_foc (\<lambda>ob. OnElectricalParamsResponse ob
                   \<lparr>el_resistance = resistance, el_inductance = inductance\<rparr>) s)"

definition HandleMechanicalParamsResponse :: "(client_call, 'o foc_client) handler" where
  "HandleMechanicalParamsResponse data s =
     (case ReadFixed16P focInertiaScale (CanPayloadReader data) of
        (inertia, reader1) \<Rightarrow> case ReadFixed16P focFrictionScale reader1 of
          (friction, reader) \<Rightarrow>
            if \<not> pr_valid reader then Return False s
            else tell_foc (\<lambda>ob. OnMechanicalParamsResponse ob
                   \<lparr>me_inertia = inertia, me_friction = friction\<rparr>) s)"

definition HandleTelemetryElectricalResponse :: "(client_call, 'o foc_client) handler" where
  "HandleTelemetryElectricalResponse data s =
     (case ReadFixed16P focVoltageScale (CanPayloadReader data) of
        (voltage, reader1) \<Rightarrow> case ReadFixed16P focCurrentScale reader1 of
          (maxCurrent, reader2) \<Rightarrow> case ReadFixed16P focCurrentScale reader2 of
            (iq, reader3) \<Rightarrow> case ReadFixed16P focCurrentScale reader3 of
              (id', reader) \<Rightarrow>
                if \<not> pr_valid reader then Return False s
                else tell_foc (\<lambda>ob. OnTelemetryElectricalResponse ob
                       \<lparr>te_voltage = voltage, te_maxCurrent = maxCurrent, te_iq = iq, te_id = id'\<rparr>) s)"

definition HandleTelemetryStatusResponse :: "(client_call, 'o foc_client) handler" where
  "HandleTelemetryStatusResponse data s =
     (case ReadUInt8P (CanPayloadReader data) of
        (state, reader1) \<Rightarrow> case ReadUInt8P reader1 of
          (fault, reader2) \<Rightarrow> case ReadFixed16P focSpeedScale reader2 of
            (speed, reader3) \<Rightarrow> case ReadFixed16P focPositionScale reader3 of
              (position, reader) \<Rightarrow>
                if \<not> pr_valid reader then Return False s
                else tell_foc (\<lambda>ob. OnTelemetryStatusResponse ob
                       \<lparr>ts_state = state, ts_fault = fault, ts_speed = speed, ts_position = position\<rparr>) s)"

definition HandleCategoryError :: "(client_call, 'o foc_client) handler" where
  "HandleCategoryError data s =
     (case ReadUInt8P (CanPayloadReader data) of
        (originCommandId, reader1) \<Rightarrow> case ReadUInt8P reader1 of
          (errorCode, reader) \<Rightarrow>
            if \<not> pr_valid reader then Return False s
            else tell_foc (\<lambda>ob. OnCategoryError ob originCommandId errorCode) s)"

definition HandleSelectControlModeResponse :: "(client_call, 'o foc_client) handler" where
  "HandleSelectControlModeResponse data s =
     (case ReadUInt8P (CanPayloadReader data) of
        (activeMode, reader) \<Rightarrow>
          if \<not> pr_valid reader then Return False s
          else tell_foc (\<lambda>ob. OnSelectControlModeResponse ob activeMode) s)"

definition foc_client_types :: "(client_call, 'o foc_client) message_type list" where
  "foc_client_types =
     [CanMessageHandler focMotorTypeResponseId HandleMotorTypeResponse,
      CanMessageHandler focElectricalParamsResponseId HandleElectricalParamsResponse,
      CanMessageHandler focMechanicalParamsResponseId HandleMechanicalParamsResponse,
      CanMessageHandler focTelemetryElectricalResponseId HandleTelemetryElectricalResponse,
      CanMessageHandler focTelemetryStatusResponseId HandleTelemetryStatusResponse,
      CanMessageHandler focSelectControlModeResponseId HandleSelectControlModeResponse,
      CanMessageHandler canCategoryErrorResponseMessageTypeId HandleCategoryError]"

definition FocMotorCategoryClient :: "nat \<Rightarrow> 'o foc_client_category option" where
  "FocMotorCategoryClient address =
     AddMessageTypes foc_client_types (CanCategoryClient address focMotorCategoryId)"

end
