(* ===== verification/FocMotorLaws.thy ===== *)
theory FocMotorLaws
  imports FocMotor
begin

text \<open>
  What the motor category does, as for the firmware upgrade: \<open>foc_parse\<close> reads a request off a message,
  \<open>foc_reply\<close> is what a server does about it, \<open>answer_calls\<close> the frames of one answer.  Physical values
  travel as fixed-point fields, so what arrives is what was sent up to the rounding of \<open>FixedPoint\<close>.
\<close>

section \<open>The protocol\<close>

datatype foc_request =
    QueryMotorType | Start | Stop
  | SetPidCurrent FocPidGains | SetPidSpeed FocPidGains | SetPidPosition FocPidGains
  | IdentifyElectrical | IdentifyMechanical | RequestTelemetry
  | SetEncoderResolution u16 | SelectControlMode FocMotorMode
  | SetTorqueSetpoint single | SetSpeedSetpoint single | SetPositionSetpoint single
  | ClearFault | EmergencyStop | ConfigureTelemetryRate u8

datatype foc_answer =
    MotorTypeAnswer FocMotorMode
  | StatusAnswer CanAckStatus
  | DoneAnswer
  | ElectricalAnswer FocElectricalParams
  | MechanicalAnswer FocMechanicalParams
  | TelemetryAnswer FocTelemetryElectrical FocTelemetryStatus
  | ModeAnswer FocMotorMode

fun foc_id :: "foc_request \<Rightarrow> u8" where
  "foc_id QueryMotorType = 0x00"
| "foc_id Start = 0x01"
| "foc_id Stop = 0x02"
| "foc_id (SetPidCurrent _) = 0x03"
| "foc_id (SetPidSpeed _) = 0x04"
| "foc_id (SetPidPosition _) = 0x05"
| "foc_id IdentifyElectrical = 0x06"
| "foc_id IdentifyMechanical = 0x07"
| "foc_id RequestTelemetry = 0x08"
| "foc_id (SetEncoderResolution _) = 0x09"
| "foc_id ClearFault = 0x0B"
| "foc_id EmergencyStop = 0x0C"
| "foc_id (ConfigureTelemetryRate _) = 0x0D"
| "foc_id (SelectControlMode _) = 0x0E"
| "foc_id (SetTorqueSetpoint _) = 0x0F"
| "foc_id (SetSpeedSetpoint _) = 0x10"
| "foc_id (SetPositionSetpoint _) = 0x11"

definition fixed16 :: "single \<Rightarrow> int \<Rightarrow> bytes" where
  "fixed16 v scale = be16 (word_of_int (FloatToFixed16 v scale))"

fun gains_bytes :: "FocPidGains \<Rightarrow> bytes" where
  "gains_bytes g = be16 (word_of_int (pid_kp g)) @ be16 (word_of_int (pid_ki g)) @ be16 (word_of_int (pid_kd g))"

fun foc_payload :: "foc_request \<Rightarrow> bytes" where
  "foc_payload (SetPidCurrent g) = gains_bytes g"
| "foc_payload (SetPidSpeed g) = gains_bytes g"
| "foc_payload (SetPidPosition g) = gains_bytes g"
| "foc_payload (SetEncoderResolution n) = be16 n"
| "foc_payload (SelectControlMode m) = [m]"
| "foc_payload (SetTorqueSetpoint v) = fixed16 v focCurrentScale"
| "foc_payload (SetSpeedSetpoint v) = fixed16 v focSpeedScale"
| "foc_payload (SetPositionSetpoint v) = fixed16 v focPositionScale"
| "foc_payload (ConfigureTelemetryRate n) = [n]"
| "foc_payload _ = []"

text \<open>The first byte of a command is its sequence number.\<close>

definition read_gains :: "bytes \<Rightarrow> FocPidGains" where
  "read_gains data = \<lparr>pid_kp = ReadInt16 data 1, pid_ki = ReadInt16 data 3, pid_kd = ReadInt16 data 5\<rparr>"

definition with_gains :: "(FocPidGains \<Rightarrow> foc_request) \<Rightarrow> bytes \<Rightarrow> foc_request option" where
  "with_gains request data = (if 7 \<le> length data then Some (request (read_gains data)) else None)"

definition with_fixed :: "(single \<Rightarrow> foc_request) \<Rightarrow> int \<Rightarrow> bytes \<Rightarrow> foc_request option" where
  "with_fixed request scale data =
     (if 3 \<le> length data then Some (request (Fixed16ToFloat (ReadInt16 data 1) scale)) else None)"

definition foc_parse :: "u8 \<Rightarrow> bytes \<Rightarrow> foc_request option" where
  "foc_parse m data =
     (if m = 0x00 then Some QueryMotorType
      else if m = 0x01 then Some Start
      else if m = 0x02 then Some Stop
      else if m = 0x03 then with_gains SetPidCurrent data
      else if m = 0x04 then with_gains SetPidSpeed data
      else if m = 0x05 then with_gains SetPidPosition data
      else if m = 0x06 then Some IdentifyElectrical
      else if m = 0x07 then Some IdentifyMechanical
      else if m = 0x08 then Some RequestTelemetry
      else if m = 0x09 then if 3 \<le> length data then Some (SetEncoderResolution (ReadUInt16 data 1)) else None
      else if m = 0x0B then Some ClearFault
      else if m = 0x0C then Some EmergencyStop
      else if m = 0x0D then if 2 \<le> length data then Some (ConfigureTelemetryRate (data ! 1)) else None
      else if m = 0x0E then if 2 \<le> length data \<and> data ! 1 < 3 then Some (SelectControlMode (data ! 1)) else None
      else if m = 0x0F then with_fixed SetTorqueSetpoint focCurrentScale data
      else if m = 0x10 then with_fixed SetSpeedSetpoint focSpeedScale data
      else if m = 0x11 then with_fixed SetPositionSetpoint focPositionScale data
      else None)"

definition foc_ids_set :: "u8 set" where
  "foc_ids_set = {0x00, 0x01, 0x02, 0x03, 0x04, 0x05, 0x06, 0x07, 0x08, 0x09,
     0x0B, 0x0C, 0x0D, 0x0E, 0x0F, 0x10, 0x11}"

fun answer_frames :: "foc_answer \<Rightarrow> 'a server_call list" where
  "answer_frames (MotorTypeAnswer m) = [Send response 2 0x80 [m] None]"
| "answer_frames (ElectricalAnswer p) = [Send response 2 0x86
     (fixed16 (el_resistance p) focResistanceScale @ fixed16 (el_inductance p) focInductanceScale) None]"
| "answer_frames (MechanicalAnswer p) = [Send response 2 0x87
     (fixed16 (me_inertia p) focInertiaScale @ fixed16 (me_friction p) focFrictionScale) None]"
| "answer_frames (TelemetryAnswer e t) =
     [Send telemetry 2 0x88 (fixed16 (te_voltage e) focVoltageScale @ fixed16 (te_maxCurrent e) focCurrentScale @
        fixed16 (te_iq e) focCurrentScale @ fixed16 (te_id e) focCurrentScale) None,
      Send telemetry 2 0x89 (ts_state t # ts_fault t #
        fixed16 (ts_speed t) focSpeedScale @ fixed16 (ts_position t) focPositionScale) None]"
| "answer_frames (ModeAnswer m) = [Send response 2 0x8E [m] None]"
| "answer_frames _ = []"

fun answer_status :: "foc_answer \<Rightarrow> CanAckStatus" where
  "answer_status (StatusAnswer status) = status"
| "answer_status _ = ackSuccess"

definition answer_calls :: "foc_request \<Rightarrow> foc_answer \<Rightarrow> 'a server_call list" where
  "answer_calls r a = answer_frames a @ [Ack 2 (foc_id r) (answer_status a)]"

fun asked :: "'o foc_observer \<Rightarrow> foc_request \<Rightarrow> 'o \<Rightarrow> foc_answer list \<times> 'o" where
  "asked ob QueryMotorType own = apfst (map MotorTypeAnswer) (OnQueryMotorType ob own)"
| "asked ob Start own = apfst (map StatusAnswer) (OnStart ob own)"
| "asked ob Stop own = apfst (map (\<lambda>_. DoneAnswer)) (OnStop ob own)"
| "asked ob (SetPidCurrent g) own = apfst (map (\<lambda>_. DoneAnswer)) (OnSetPidCurrent ob g own)"
| "asked ob (SetPidSpeed g) own = apfst (map (\<lambda>_. DoneAnswer)) (OnSetPidSpeed ob g own)"
| "asked ob (SetPidPosition g) own = apfst (map (\<lambda>_. DoneAnswer)) (OnSetPidPosition ob g own)"
| "asked ob IdentifyElectrical own = apfst (map ElectricalAnswer) (OnIdentifyElectrical ob own)"
| "asked ob IdentifyMechanical own = apfst (map MechanicalAnswer) (OnIdentifyMechanical ob own)"
| "asked ob RequestTelemetry own = apfst (map (\<lambda>(e, t). TelemetryAnswer e t)) (OnRequestTelemetry ob own)"
| "asked ob (SetEncoderResolution n) own = apfst (map (\<lambda>_. DoneAnswer)) (OnSetEncoderResolution ob n own)"
| "asked ob (SelectControlMode m) own = apfst (map ModeAnswer) (OnSelectControlMode ob m own)"
| "asked ob (SetTorqueSetpoint v) own = apfst (map (\<lambda>_. DoneAnswer)) (OnSetTorqueSetpoint ob v own)"
| "asked ob (SetSpeedSetpoint v) own = apfst (map (\<lambda>_. DoneAnswer)) (OnSetSpeedSetpoint ob v own)"
| "asked ob (SetPositionSetpoint v) own = apfst (map (\<lambda>_. DoneAnswer)) (OnSetPositionSetpoint ob v own)"
| "asked ob ClearFault own = apfst (map (\<lambda>_. DoneAnswer)) (OnClearFault ob own)"
| "asked ob EmergencyStop own = apfst (map (\<lambda>_. DoneAnswer)) (OnEmergencyStop ob own)"
| "asked ob (ConfigureTelemetryRate n) own = apfst (map (\<lambda>_. DoneAnswer)) (OnConfigureTelemetryRate ob n own)"

definition foc_reply :: "foc_request \<Rightarrow> 'o foc_server \<Rightarrow> 'a server_call list \<times> 'o foc_server" where
  "foc_reply r s =
     (case foc_observer s of
        None \<Rightarrow> ([], s)
      | Some ob \<Rightarrow>
          (case asked ob r (foc_owner s) of
             (answers, own) \<Rightarrow> (concat (map (answer_calls r) answers), s\<lparr>foc_owner := own\<rparr>)))"

definition foc_served :: "foc_request \<Rightarrow> 'o foc_server \<Rightarrow> 'a server_call list \<times> bool \<times> 'o foc_server" where
  "foc_served r s = (case foc_reply r s of (calls, s') \<Rightarrow> (calls, True, s'))"

section \<open>Reading and writing\<close>

lemma writer_fixed:
  "length m \<le> 6 \<Longrightarrow> WriteFixed16P v scale \<lparr>pw_message = m, pw_valid = True\<rparr> =
     \<lparr>pw_message = m @ fixed16 v scale, pw_valid = True\<rparr>"
  "length m \<le> 6 \<Longrightarrow> WriteInt16P n \<lparr>pw_message = m, pw_valid = True\<rparr> =
     \<lparr>pw_message = m @ be16 (word_of_int n), pw_valid = True\<rparr>"
  "length m \<le> 6 \<Longrightarrow> WriteUInt16P w \<lparr>pw_message = m, pw_valid = True\<rparr> =
     \<lparr>pw_message = m @ be16 w, pw_valid = True\<rparr>"
  "length m < 8 \<Longrightarrow> WriteUInt8P b \<lparr>pw_message = m, pw_valid = True\<rparr> =
     \<lparr>pw_message = m @ [b], pw_valid = True\<rparr>"
  using write_field_fits [of "\<lparr>pw_message = m, pw_valid = True\<rparr>" "FS16 (FloatToFixed16 v scale)"]
    write_field_fits [of "\<lparr>pw_message = m, pw_valid = True\<rparr>" "FS16 n"]
    write_field_fits [of "\<lparr>pw_message = m, pw_valid = True\<rparr>" "FU16 w"]
    write_field_fits [of "\<lparr>pw_message = m, pw_valid = True\<rparr>" "FU8 b"]
  by (simp_all add: canMaxFramePayloadSize_def fixed16_def WriteFixed16P_def)

lemma length_fixed16 [simp]: "length (fixed16 v scale) = 2"
  by (simp add: fixed16_def)

definition reader_at :: "bytes \<Rightarrow> nat \<Rightarrow> payload_reader" where
  "reader_at data n = \<lparr>pr_message = data, pr_offset = n, pr_valid = True\<rparr>"

definition past_end :: "bytes \<Rightarrow> nat \<Rightarrow> payload_reader" where
  "past_end data n = \<lparr>pr_message = data, pr_offset = n, pr_valid = False\<rparr>"

lemma reads_at:
  "CanPayloadReader data = reader_at data 0"
  "SkipP k (reader_at data n) = (if n + k \<le> length data then reader_at data (n + k) else past_end data n)"
  "ReadUInt8P (reader_at data n) = (if n + 1 \<le> length data then (data ! n, reader_at data (n + 1)) else (0, past_end data n))"
  "ReadUInt16P (reader_at data n) = (if n + 2 \<le> length data then (ReadUInt16 data n, reader_at data (n + 2)) else (0, past_end data n))"
  "ReadInt16P (reader_at data n) = (if n + 2 \<le> length data then (ReadInt16 data n, reader_at data (n + 2)) else (0, past_end data n))"
  "ReadFixed16P scale (reader_at data n) =
     (if n + 2 \<le> length data then (Fixed16ToFloat (ReadInt16 data n) scale, reader_at data (n + 2))
      else (Fixed16ToFloat 0 scale, past_end data n))"
  by (auto simp: CanPayloadReader_def reader_at_def past_end_def SkipP_def Take_def reader_defs ReadFixed16P_def)

lemma reads_past_end:
  "SkipP k (past_end data n) = past_end data n"
  "ReadUInt8P (past_end data n) = (0, past_end data n)"
  "ReadUInt16P (past_end data n) = (0, past_end data n)"
  "ReadInt16P (past_end data n) = (0, past_end data n)"
  "ReadFixed16P scale (past_end data n) = (Fixed16ToFloat 0 scale, past_end data n)"
  by (auto simp: past_end_def SkipP_def Take_def reader_defs ReadFixed16P_def)

lemma reader_valid [simp]: "pr_valid (reader_at data n)" "\<not> pr_valid (past_end data n)"
  by (simp_all add: reader_at_def past_end_def)

lemmas reading = reads_at reads_past_end

lemma ReadPidGains_fits:
  "7 \<le> length data \<Longrightarrow>
     ReadPidGains (SkipP 1 (CanPayloadReader data)) = (read_gains data, reader_at data 7)"
  by (simp add: ReadPidGains_def reading read_gains_def eval_nat_numeral)

lemma ReadPidGains_short:
  "length data < 7 \<Longrightarrow> \<not> pr_valid (snd (ReadPidGains (SkipP 1 (CanPayloadReader data))))"
  by (auto simp: ReadPidGains_def reading)

section \<open>The server implements it\<close>

lemma each_answer:
  assumes "\<And>r k. run_calls answer (onResult r k) = apfst ((@) (calls r)) (run_calls answer k)"
  shows "run_calls answer (each_result (\<lambda>r s k. onResult r (k s)) rs s (Return True)) =
    (concat (map calls rs), True, s)"
  by (induction rs) (simp_all add: assms)

lemma notified:
  assumes "\<And>ob own. asked ob req own = apfst (map f) (method ob own)"
    and "\<And>r k. run_calls answer (onResult r k) = apfst ((@) (answer_calls req (f r))) (run_calls answer k)"
  shows "run_calls answer (notify_foc method onResult s) =
    foc_served req s"
proof (cases "foc_observer s")
  case None
  then show ?thesis by (simp add: notify_foc_def foc_served_def foc_reply_def)
next
  case (Some ob)
  obtain rs own where "method ob (foc_owner s) = (rs, own)" by fastforce
  then show ?thesis using Some assms(1) each_answer [of answer onResult "answer_calls req \<circ> f", simplified, OF assms(2)]
    by (simp add: notify_foc_def foc_served_def foc_reply_def comp_def)
qed

definition foc_registered :: "('a, 'o) foc_category \<Rightarrow> bool" where
  "foc_registered c \<longleftrightarrow> cat_acknowledger c \<and> cat_id c = focMotorCategoryId"

lemmas response_defs = SendMotorTypeResponse_def SendElectricalParamsResponse_def
  SendMechanicalParamsResponse_def SendTelemetryElectricalResponse_def SendTelemetryStatusResponse_def
  SendSelectControlModeResponse_def SendResponsePayload_def SendResponse_def SendTelemetryPayload_def
  SendTelemetry_def SendCommandAckC_def acknowledge_success_def CanPayloadWriter_def writer_fixed
  answer_calls_def foc_ids foc_registered_def

lemma plain_handlers_serve:
  assumes "foc_registered this"
  shows "run_calls answer (HandleQueryMotorType this data s) = foc_served QueryMotorType s"
    and "run_calls answer (HandleStart this data s) = foc_served Start s"
    and "run_calls answer (HandleStop this data s) = foc_served Stop s"
    and "run_calls answer (HandleIdentifyElectrical this data s) = foc_served IdentifyElectrical s"
    and "run_calls answer (HandleIdentifyMechanical this data s) = foc_served IdentifyMechanical s"
    and "run_calls answer (HandleRequestTelemetry this data s) = foc_served RequestTelemetry s"
    and "run_calls answer (HandleClearFault this data s) = foc_served ClearFault s"
    and "run_calls answer (HandleEmergencyStop this data s) = foc_served EmergencyStop s"
  unfolding HandleQueryMotorType_def HandleStart_def HandleStop_def HandleIdentifyElectrical_def
    HandleIdentifyMechanical_def HandleRequestTelemetry_def HandleClearFault_def HandleEmergencyStop_def
  by (rule notified, rule asked.simps, (use assms in \<open>auto simp: response_defs split: prod.splits\<close>)[1])+

lemma requests_acknowledged:
  assumes "foc_registered this"
  shows "run_calls answer (notify_foc (\<lambda>ob. OnSetPidCurrent ob g) (acknowledge_success this focSetPidCurrentId) s) =
      foc_served (SetPidCurrent g) s"
    and "run_calls answer (notify_foc (\<lambda>ob. OnSetPidSpeed ob g) (acknowledge_success this focSetPidSpeedId) s) =
      foc_served (SetPidSpeed g) s"
    and "run_calls answer (notify_foc (\<lambda>ob. OnSetPidPosition ob g) (acknowledge_success this focSetPidPositionId) s) =
      foc_served (SetPidPosition g) s"
    and "run_calls answer (notify_foc (\<lambda>ob. OnSetEncoderResolution ob n) (acknowledge_success this focSetEncoderResolutionId) s) =
      foc_served (SetEncoderResolution n) s"
    and "run_calls answer (notify_foc (\<lambda>ob. OnSetTorqueSetpoint ob v) (acknowledge_success this focSetTorqueSetpointId) s) =
      foc_served (SetTorqueSetpoint v) s"
    and "run_calls answer (notify_foc (\<lambda>ob. OnSetSpeedSetpoint ob v) (acknowledge_success this focSetSpeedSetpointId) s) =
      foc_served (SetSpeedSetpoint v) s"
    and "run_calls answer (notify_foc (\<lambda>ob. OnSetPositionSetpoint ob v) (acknowledge_success this focSetPositionSetpointId) s) =
      foc_served (SetPositionSetpoint v) s"
    and "run_calls answer (notify_foc (\<lambda>ob. OnConfigureTelemetryRate ob r) (acknowledge_success this focConfigureTelemetryRateId) s) =
      foc_served (ConfigureTelemetryRate r) s"
    and "run_calls answer (notify_foc (\<lambda>ob. OnSelectControlMode ob m)
        (\<lambda>activatedMode k. SendSelectControlModeResponse this activatedMode
          (SendCommandAckC this focSelectControlModeId ackSuccess k)) s) = foc_served (SelectControlMode m) s"
  by (rule notified, rule asked.simps, (use assms in \<open>auto simp: response_defs split: prod.splits\<close>)[1])+

lemma known_modes: "m \<noteq> mode_torque \<and> m \<noteq> mode_speed \<and> m \<noteq> mode_position \<longleftrightarrow> \<not> m < 3"
  unfolding mode_torque_def mode_speed_def mode_position_def by unat_arith

lemma payload_handlers_serve:
  fixes this :: "('a, 'o) foc_category" and s :: "'o foc_server"
  assumes "foc_registered this"
  shows "run_calls answer (HandleSetPidCurrent this data s) =
      (case with_gains SetPidCurrent data of None \<Rightarrow> ([], False, s) | Some r \<Rightarrow> foc_served r s)"
    and "run_calls answer (HandleSetPidSpeed this data s) =
      (case with_gains SetPidSpeed data of None \<Rightarrow> ([], False, s) | Some r \<Rightarrow> foc_served r s)"
    and "run_calls answer (HandleSetPidPosition this data s) =
      (case with_gains SetPidPosition data of None \<Rightarrow> ([], False, s) | Some r \<Rightarrow> foc_served r s)"
    and "run_calls answer (HandleSetTorqueSetpoint this data s) =
      (case with_fixed SetTorqueSetpoint focCurrentScale data of None \<Rightarrow> ([], False, s) | Some r \<Rightarrow> foc_served r s)"
    and "run_calls answer (HandleSetSpeedSetpoint this data s) =
      (case with_fixed SetSpeedSetpoint focSpeedScale data of None \<Rightarrow> ([], False, s) | Some r \<Rightarrow> foc_served r s)"
    and "run_calls answer (HandleSetPositionSetpoint this data s) =
      (case with_fixed SetPositionSetpoint focPositionScale data of None \<Rightarrow> ([], False, s) | Some r \<Rightarrow> foc_served r s)"
    and "run_calls answer (HandleSetEncoderResolution this data s) =
      (if 3 \<le> length data then foc_served (SetEncoderResolution (ReadUInt16 data 1)) s else ([], False, s))"
    and "run_calls answer (HandleConfigureTelemetryRate this data s) =
      (if 2 \<le> length data then foc_served (ConfigureTelemetryRate (data ! 1)) s else ([], False, s))"
    and "run_calls answer (HandleSelectControlMode this data s) =
      (if 2 \<le> length data \<and> data ! 1 < 3 then foc_served (SelectControlMode (data ! 1)) s else ([], False, s))"
proof -
  note opened = HandleSetPidCurrent_def HandleSetPidSpeed_def HandleSetPidPosition_def
    HandleSetEncoderResolution_def HandleSelectControlMode_def HandleSetTorqueSetpoint_def
    HandleSetSpeedSetpoint_def HandleSetPositionSetpoint_def HandleConfigureTelemetryRate_def
    with_gains_def with_fixed_def
  note simps = requests_acknowledged [OF assms] reading
  have gains: "(case ReadPidGains (SkipP 1 (CanPayloadReader data)) of (gains, reader) \<Rightarrow>
      if \<not> pr_valid reader then Return False s else k gains) =
      (if 7 \<le> length data then k (read_gains data) else Return False s)" for k :: "FocPidGains \<Rightarrow> ('a, 'o) foc_program"
    using ReadPidGains_fits [of data] ReadPidGains_short [of data] by (auto split: prod.splits)
  show "run_calls answer (HandleSetPidCurrent this data s) =
      (case with_gains SetPidCurrent data of None \<Rightarrow> ([], False, s) | Some r \<Rightarrow> foc_served r s)"
    unfolding opened gains by (simp add: requests_acknowledged [OF assms])
  show "run_calls answer (HandleSetPidSpeed this data s) =
      (case with_gains SetPidSpeed data of None \<Rightarrow> ([], False, s) | Some r \<Rightarrow> foc_served r s)"
    unfolding opened gains by (simp add: requests_acknowledged [OF assms])
  show "run_calls answer (HandleSetPidPosition this data s) =
      (case with_gains SetPidPosition data of None \<Rightarrow> ([], False, s) | Some r \<Rightarrow> foc_served r s)"
    unfolding opened gains by (simp add: requests_acknowledged [OF assms])
  show "run_calls answer (HandleSetTorqueSetpoint this data s) =
      (case with_fixed SetTorqueSetpoint focCurrentScale data of None \<Rightarrow> ([], False, s) | Some r \<Rightarrow> foc_served r s)"
    unfolding opened by (simp add: simps)
  show "run_calls answer (HandleSetSpeedSetpoint this data s) =
      (case with_fixed SetSpeedSetpoint focSpeedScale data of None \<Rightarrow> ([], False, s) | Some r \<Rightarrow> foc_served r s)"
    unfolding opened by (simp add: simps)
  show "run_calls answer (HandleSetPositionSetpoint this data s) =
      (case with_fixed SetPositionSetpoint focPositionScale data of None \<Rightarrow> ([], False, s) | Some r \<Rightarrow> foc_served r s)"
    unfolding opened by (simp add: simps)
  show "run_calls answer (HandleSetEncoderResolution this data s) =
      (if 3 \<le> length data then foc_served (SetEncoderResolution (ReadUInt16 data 1)) s else ([], False, s))"
    unfolding opened by (simp add: simps)
  show "run_calls answer (HandleConfigureTelemetryRate this data s) =
      (if 2 \<le> length data then foc_served (ConfigureTelemetryRate (data ! 1)) s else ([], False, s))"
    unfolding opened by (simp add: simps)
  show "run_calls answer (HandleSelectControlMode this data s) =
      (if 2 \<le> length data \<and> data ! 1 < 3 then foc_served (SelectControlMode (data ! 1)) s else ([], False, s))"
    unfolding opened known_modes by (simp add: simps)
qed

lemma FocMotorCategoryServer_eq:
  assumes "FocMotorCategoryServer address = Some c"
  shows "c = (CanCategoryServer address focMotorCategoryId)
    \<lparr>cat_messageTypes := foc_types (SetAcknowledger (CanCategoryServer address focMotorCategoryId))\<rparr>"
  using AddMessageTypes_eq [OF assms [unfolded FocMotorCategoryServer_def Let_def]]
  by (simp add: CanCategoryServer_def)

lemma FocMotorCategoryServer_succeeds: "FocMotorCategoryServer address \<noteq> None"
  unfolding FocMotorCategoryServer_def Let_def
  by (rule AddMessageTypes_succeeds)
    (simp add: CanCategoryServer_def foc_types_def CanMessageHandler_def foc_ids)

lemma foc_dispatch:
  fixes c :: "('a, 'o) foc_category"
  assumes "FocMotorCategoryServer address = Some c" and "m \<in> foc_ids_set"
  shows "\<exists>p. HandleMessage m data c s = Some p \<and>
    run_calls answer p = (case foc_parse m data of None \<Rightarrow> ([], False, s) | Some r \<Rightarrow> foc_served r s)"
proof -
  define reg where "reg = (SetAcknowledger (CanCategoryServer address focMotorCategoryId) :: ('a, 'o) foc_category)"
  have "foc_registered reg" by (simp add: reg_def foc_registered_def SetAcknowledger_def CanCategoryServer_def)
  note serves = plain_handlers_serve [OF this] payload_handlers_serve [OF this]
  have message: "HandleMessage m data c s = map_option (\<lambda>h. Handle h data s) (find (\<lambda>h. mt_id h = m) (foc_types reg))"
    by (simp add: reg_def HandleMessage_def FocMotorCategoryServer_eq [OF assms(1)] split: option.split)
  from assms(2) show ?thesis unfolding foc_ids_set_def insert_iff empty_iff message
    by (elim disjE) (simp_all add: foc_types_def CanMessageHandler_def Handle_def foc_ids foc_parse_def serves serves [unfolded One_nat_def])
qed

lemma foc_unknown:
  assumes "FocMotorCategoryServer address = Some c" and "m \<notin> foc_ids_set"
  shows "HandleMessage m data c s = None"
  by (rule HandleMessage_unknown(1))
    (use assms(2) in \<open>simp add: FocMotorCategoryServer_eq [OF assms(1)] foc_types_def CanMessageHandler_def
      foc_ids foc_ids_set_def\<close>)

section \<open>The client implements it\<close>

fun send_foc ::
    "'o foc_client_category \<Rightarrow> u16 \<Rightarrow> foc_request \<Rightarrow> (bool \<Rightarrow> 'o foc_client_program) \<Rightarrow> 'o foc_client_program" where
  "send_foc this node QueryMotorType k = SendQueryMotorType this node k"
| "send_foc this node Start k = SendStart this node k"
| "send_foc this node Stop k = SendStop this node k"
| "send_foc this node (SetPidCurrent g) k = SendSetPidCurrent this node g k"
| "send_foc this node (SetPidSpeed g) k = SendSetPidSpeed this node g k"
| "send_foc this node (SetPidPosition g) k = SendSetPidPosition this node g k"
| "send_foc this node IdentifyElectrical k = SendIdentifyElectrical this node k"
| "send_foc this node IdentifyMechanical k = SendIdentifyMechanical this node k"
| "send_foc this node RequestTelemetry k = SendRequestTelemetry this node k"
| "send_foc this node (SetEncoderResolution n) k = SendSetEncoderResolution this node n k"
| "send_foc this node (SelectControlMode m) k = SendSelectControlMode this node m k"
| "send_foc this node (SetTorqueSetpoint v) k = SendSetTorqueSetpoint this node v k"
| "send_foc this node (SetSpeedSetpoint v) k = SendSetSpeedSetpoint this node v k"
| "send_foc this node (SetPositionSetpoint v) k = SendSetPositionSetpoint this node v k"
| "send_foc this node ClearFault k = SendClearFault this node k"
| "send_foc this node EmergencyStop k = SendEmergencyStop this node k"
| "send_foc this node (ConfigureTelemetryRate n) k = SendConfigureTelemetryRate this node n k"

definition foc_priority :: "foc_request \<Rightarrow> CanPriority" where
  "foc_priority r = (if r = EmergencyStop then emergency else command)"

definition quantised :: "int \<Rightarrow> single \<Rightarrow> single" where
  "quantised scale v = Fixed16ToFloat (FloatToFixed16 v scale) scale"

fun foc_received :: "foc_request \<Rightarrow> foc_request" where
  "foc_received (SetTorqueSetpoint v) = SetTorqueSetpoint (quantised focCurrentScale v)"
| "foc_received (SetSpeedSetpoint v) = SetSpeedSetpoint (quantised focSpeedScale v)"
| "foc_received (SetPositionSetpoint v) = SetPositionSetpoint (quantised focPositionScale v)"
| "foc_received r = r"

definition int16 :: "int \<Rightarrow> bool" where
  "int16 n \<longleftrightarrow> int16_min \<le> n \<and> n \<le> int16_max"

fun gains_ok :: "FocPidGains \<Rightarrow> bool" where
  "gains_ok g \<longleftrightarrow> int16 (pid_kp g) \<and> int16 (pid_ki g) \<and> int16 (pid_kd g)"

fun foc_valid :: "foc_request \<Rightarrow> bool" where
  "foc_valid (SetPidCurrent g) = gains_ok g"
| "foc_valid (SetPidSpeed g) = gains_ok g"
| "foc_valid (SetPidPosition g) = gains_ok g"
| "foc_valid (SelectControlMode m) = (m < 3)"
| "foc_valid _ = True"

lemmas foc_send_defs = SendQueryMotorType_def SendStart_def SendStop_def SendSetPidCurrent_def
  SendSetPidSpeed_def SendSetPidPosition_def SendIdentifyElectrical_def SendIdentifyMechanical_def
  SendRequestTelemetry_def SendSetEncoderResolution_def SendSelectControlMode_def
  SendSetTorqueSetpoint_def SendSetSpeedSetpoint_def SendSetPositionSetpoint_def SendClearFault_def
  SendEmergencyStop_def SendConfigureTelemetryRate_def SendCommandEmpty_def SendCommandPayload_def
  SendCommand_def CanPayloadWriter_def

lemma foc_request_sent:
  assumes "cat_id this = focMotorCategoryId"
  shows "send_foc this node r k =
    Call (ClientCommand node (foc_priority r) focMotorCategoryId (foc_id r) (foc_payload r)) k"
  using assms by (cases r) (simp_all add: foc_send_defs writer_fixed foc_priority_def foc_ids)

lemma ReadUInt16_be16: "length xs = n \<Longrightarrow> ReadUInt16 (xs @ be16 v @ ys) n = v"
  using ReadUInt16_at by blast

lemma sint_int16: "int16 n \<Longrightarrow> sint (word_of_int n :: u16) = n"
  by (rule sint_of_int16) (simp_all add: int16_def fixed_limits)

lemma read_fixed:
  "Fixed16ToFloat (ReadInt16 (q # fixed16 v scale) 1) scale = quantised scale v"
  using ReadUInt16_be16 [of "[q]" 1 _ "[]"] sint_int16 [of "FloatToFixed16 v scale"] FloatToFixed16_range
  by (simp add: ReadInt16_def fixed16_def quantised_def int16_def)

lemma length_gains_bytes [simp]: "length (gains_bytes g) = 6"
  by simp

lemma read_gains_bytes: "gains_ok g \<Longrightarrow> read_gains (q # gains_bytes g) = g"
  using ReadUInt16_be16 [of "[q]" 1 _ "_ @ _"]
    ReadUInt16_be16 [of "q # be16 (word_of_int (pid_kp g))" 3 _ "_"]
    ReadUInt16_be16 [of "q # be16 (word_of_int (pid_kp g)) @ be16 (word_of_int (pid_ki g))" 5 _ "[]"]
  by (simp add: read_gains_def ReadInt16_def sint_int16)

lemma foc_request_parsed:
  assumes "foc_valid r"
  shows "foc_parse (foc_id r) (q # foc_payload r) = Some (foc_received r)"
  using assms ReadUInt16_be16 [of "[q]" 1 _ "[]"]
  by (cases r) (simp_all add: foc_parse_def with_gains_def with_fixed_def read_fixed [unfolded One_nat_def] read_fixed
    read_gains_bytes del: gains_bytes.simps gains_ok.simps)

text \<open>What the client's observer is told when a frame of an answer arrives.\<close>

fun foc_told :: "u8 \<Rightarrow> foc_answer \<Rightarrow> 'o foc_client_observer \<Rightarrow> 'o \<Rightarrow> (client_call, 'o) program" where
  "foc_told m (MotorTypeAnswer mode) ob = OnMotorTypeResponse ob mode"
| "foc_told m (ModeAnswer mode) ob = OnSelectControlModeResponse ob mode"
| "foc_told m (ElectricalAnswer p) ob = OnElectricalParamsResponse ob
     \<lparr>el_resistance = quantised focResistanceScale (el_resistance p),
      el_inductance = quantised focInductanceScale (el_inductance p)\<rparr>"
| "foc_told m (MechanicalAnswer p) ob = OnMechanicalParamsResponse ob
     \<lparr>me_inertia = quantised focInertiaScale (me_inertia p),
      me_friction = quantised focFrictionScale (me_friction p)\<rparr>"
| "foc_told m (TelemetryAnswer e t) ob =
     (if m = 0x88
      then OnTelemetryElectricalResponse ob
        \<lparr>te_voltage = quantised focVoltageScale (te_voltage e),
         te_maxCurrent = quantised focCurrentScale (te_maxCurrent e),
         te_iq = quantised focCurrentScale (te_iq e), te_id = quantised focCurrentScale (te_id e)\<rparr>
      else OnTelemetryStatusResponse ob
        \<lparr>ts_state = ts_state t, ts_fault = ts_fault t, ts_speed = quantised focSpeedScale (ts_speed t),
         ts_position = quantised focPositionScale (ts_position t)\<rparr>)"
| "foc_told m _ ob = Return True"

lemma FocMotorCategoryClient_eq:
  assumes "FocMotorCategoryClient address = Some c"
  shows "c = (CanCategoryClient address focMotorCategoryId)\<lparr>cat_messageTypes := foc_client_types\<rparr>"
  using AddMessageTypes_eq [OF assms [unfolded FocMotorCategoryClient_def]]
  by (simp add: CanCategoryClient_def)

lemma FocMotorCategoryClient_succeeds: "FocMotorCategoryClient address \<noteq> None"
  unfolding FocMotorCategoryClient_def
  by (rule AddMessageTypes_succeeds)
    (simp add: CanCategoryClient_def foc_client_types_def CanMessageHandler_def foc_ids can_constants)

text \<open>A fixed-point field in the middle of a message.\<close>

lemma read_fixed_at:
  assumes "length xs = n"
  shows "Fixed16ToFloat (ReadInt16 (xs @ fixed16 v scale @ ys) n) scale = quantised scale v"
  using ReadUInt16_be16 [OF assms] sint_int16 [of "FloatToFixed16 v scale"] FloatToFixed16_range
  by (simp add: ReadInt16_def fixed16_def quantised_def int16_def)

lemma read_fixed_fields:
  "Fixed16ToFloat (ReadInt16 (fixed16 a p @ ys) 0) p = quantised p a"
  "Fixed16ToFloat (ReadInt16 (fixed16 a p @ fixed16 b q @ ys) 2) q = quantised q b"
  "Fixed16ToFloat (ReadInt16 (fixed16 a p @ fixed16 b q) 2) q = quantised q b"
  "Fixed16ToFloat (ReadInt16 (fixed16 a p @ fixed16 b q @ fixed16 c r @ ys) 4) r = quantised r c"
  "Fixed16ToFloat (ReadInt16 (fixed16 a p @ fixed16 b q @ fixed16 c r @ fixed16 d t) 6) t = quantised t d"
  "Fixed16ToFloat (ReadInt16 (x # y # fixed16 b q @ ys) 2) q = quantised q b"
  "Fixed16ToFloat (ReadInt16 (x # y # fixed16 b q @ fixed16 c r) 4) r = quantised r c"
  using read_fixed_at [of "[]" 0 a p ys] read_fixed_at [of "fixed16 a p" 2 b q ys]
    read_fixed_at [of "fixed16 a p" 2 b q "[]"]
    read_fixed_at [of "fixed16 a p @ fixed16 b q" 4 c r ys]
    read_fixed_at [of "fixed16 a p @ fixed16 b q @ fixed16 c r" 6 d t "[]"]
    read_fixed_at [of "[x, y]" 2 b q ys] read_fixed_at [of "[x, y] @ fixed16 b q" 4 c r "[]"]
  by simp_all

lemmas client_handler_defs = HandleMotorTypeResponse_def HandleElectricalParamsResponse_def
  HandleMechanicalParamsResponse_def HandleTelemetryElectricalResponse_def
  HandleTelemetryStatusResponse_def HandleSelectControlModeResponse_def HandleCategoryError_def

lemma responses_handled:
  "HandleMotorTypeResponse [mode] s = tell_foc (\<lambda>ob. OnMotorTypeResponse ob mode) s"
  "HandleSelectControlModeResponse [mode] s = tell_foc (\<lambda>ob. OnSelectControlModeResponse ob mode) s"
  "HandleElectricalParamsResponse (fixed16 a focResistanceScale @ fixed16 b focInductanceScale) s =
     tell_foc (\<lambda>ob. OnElectricalParamsResponse ob
       \<lparr>el_resistance = quantised focResistanceScale a, el_inductance = quantised focInductanceScale b\<rparr>) s"
  "HandleMechanicalParamsResponse (fixed16 a focInertiaScale @ fixed16 b focFrictionScale) s =
     tell_foc (\<lambda>ob. OnMechanicalParamsResponse ob
       \<lparr>me_inertia = quantised focInertiaScale a, me_friction = quantised focFrictionScale b\<rparr>) s"
  "HandleTelemetryElectricalResponse (fixed16 a focVoltageScale @ fixed16 b focCurrentScale @
       fixed16 c focCurrentScale @ fixed16 d focCurrentScale) s =
     tell_foc (\<lambda>ob. OnTelemetryElectricalResponse ob
       \<lparr>te_voltage = quantised focVoltageScale a, te_maxCurrent = quantised focCurrentScale b,
        te_iq = quantised focCurrentScale c, te_id = quantised focCurrentScale d\<rparr>) s"
  "HandleTelemetryStatusResponse (st # fault # fixed16 a focSpeedScale @ fixed16 b focPositionScale) s =
     tell_foc (\<lambda>ob. OnTelemetryStatusResponse ob
       \<lparr>ts_state = st, ts_fault = fault, ts_speed = quantised focSpeedScale a,
        ts_position = quantised focPositionScale b\<rparr>) s"
  by (simp_all add: client_handler_defs reading read_fixed_fields nth_Cons'
      del: One_nat_def add_2_eq_Suc add_2_eq_Suc')

lemma foc_client_message:
  assumes "FocMotorCategoryClient address = Some c"
  shows "HandleMessage 0x80 data c s = Some (HandleMotorTypeResponse data s)"
    and "HandleMessage 0x86 data c s = Some (HandleElectricalParamsResponse data s)"
    and "HandleMessage 0x87 data c s = Some (HandleMechanicalParamsResponse data s)"
    and "HandleMessage 0x88 data c s = Some (HandleTelemetryElectricalResponse data s)"
    and "HandleMessage 0x89 data c s = Some (HandleTelemetryStatusResponse data s)"
    and "HandleMessage 0x8E data c s = Some (HandleSelectControlModeResponse data s)"
    and "HandleMessage 0xFE data c s = Some (HandleCategoryError data s)"
  by (simp_all add: HandleMessage_def FocMotorCategoryClient_eq [OF assms] foc_client_types_def
      CanMessageHandler_def Handle_def foc_ids can_constants)

lemma foc_answer_told:
  fixes a :: foc_answer
  assumes "FocMotorCategoryClient address = Some c"
    and "Send priority 2 m payload None \<in> set (answer_frames a :: 'a server_call list)"
  shows "HandleMessage m payload c s = Some (tell_foc (foc_told m a) s)"
  using assms(2)
  by (cases a) (auto simp: foc_client_message [OF assms(1)] responses_handled tell_foc_def split: option.split)

lemma foc_error_told:
  assumes "FocMotorCategoryClient address = Some c"
  shows "HandleMessage 0xFE [origin, code] c s = Some (tell_foc (\<lambda>ob. OnCategoryError ob origin code) s)"
  by (simp add: foc_client_message [OF assms] HandleCategoryError_def reading)

lemma foc_error_sent:
  assumes "foc_registered this"
  shows "run_calls answer (SendFocCategoryError this origCommandId errorCode k) =
    apfst ((@) [Send response 2 0xFE [origCommandId, errorCode] None, Ack 2 origCommandId categoryError])
      (run_calls answer k)"
  using assms by (auto simp: SendFocCategoryError_def SendCategoryError_def response_defs can_constants
    split: prod.splits)

lemma quantised_again: "scale \<noteq> 0 \<Longrightarrow> \<bar>scale\<bar> \<le> 2 ^ 31 \<Longrightarrow> quantised scale (quantised scale v) = quantised scale v"
  using fixed16_back [of scale "FloatToFixed16 v scale"] FloatToFixed16_range by (simp add: quantised_def)

section \<open>Properties\<close>

text \<open>C21: The motor server serves every command as the protocol says.  A message type it does not have
  is unknown; a command that is too short, or selects no known control mode, is refused and changes
  nothing; any other is accepted and passed to the observer with the values that the client's fixed
  point fields stand for, and each answer of the observer sends its response or telemetry frames and
  then the acknowledgement of that very command.\<close>

theorem foc_commands_served:
  fixes c :: "('a, 'o) foc_category"
  assumes "FocMotorCategoryServer address = Some c"
  shows "if m \<in> foc_ids_set
    then \<exists>p. HandleMessage m data c s = Some p \<and>
      run_calls answer p = (case foc_parse m data of None \<Rightarrow> ([], False, s) | Some r \<Rightarrow> foc_served r s)
    else HandleMessage m data c s = None"
  using foc_dispatch [OF assms, of m] foc_unknown [OF assms, of m] by simp

definition sample_motor :: "nat foc_observer" where
  "sample_motor =
     \<lparr>OnQueryMotorType = \<lambda>own. ([mode_speed], own), OnStart = \<lambda>own. ([ackSuccess], own + 1),
      OnStop = \<lambda>own. ([()], 0), OnSetPidCurrent = \<lambda>g own. ([], own), OnSetPidSpeed = \<lambda>g own. ([], own),
      OnSetPidPosition = \<lambda>g own. ([], own), OnIdentifyElectrical = \<lambda>own. ([], own),
      OnIdentifyMechanical = \<lambda>own. ([], own), OnRequestTelemetry = \<lambda>own. ([], own),
      OnSetEncoderResolution = \<lambda>n own. ([()], unat n), OnSelectControlMode = \<lambda>m own. ([m], unat m),
      OnSetTorqueSetpoint = \<lambda>v own. ([()], own), OnSetSpeedSetpoint = \<lambda>v own. ([()], own),
      OnSetPositionSetpoint = \<lambda>v own. ([()], own), OnClearFault = \<lambda>own. ([()], own),
      OnEmergencyStop = \<lambda>own. ([()], 0), OnConfigureTelemetryRate = \<lambda>n own. ([()], own)\<rparr>"

theorem foc_commands_served_witness:
  "\<exists>c p. FocMotorCategoryServer 7 = Some c \<and>
     HandleMessage 0x0E [5, 2] c \<lparr>foc_observer = Some sample_motor, foc_owner = 0\<rparr> = Some p \<and>
     run_calls (\<lambda>_. True) p = ([Send response 2 0x8E [2] None, Ack 2 0x0E ackSuccess], True,
       \<lparr>foc_observer = Some sample_motor, foc_owner = 2\<rparr>)"
proof -
  obtain c :: "('a, nat) foc_category" where c: "FocMotorCategoryServer 7 = Some c"
    using FocMotorCategoryServer_succeeds by blast
  have "foc_parse 0x0E [5, 2] = Some (SelectControlMode 2)" by (simp add: foc_parse_def)
  moreover have "(0x0E :: u8) \<in> foc_ids_set" by (simp add: foc_ids_set_def)
  moreover have "(foc_served (SelectControlMode 2) \<lparr>foc_observer = Some sample_motor, foc_owner = 0\<rparr> ::
      'a server_call list \<times> bool \<times> nat foc_server) =
    ([Send response 2 0x8E [2] None, Ack 2 0x0E ackSuccess], True,
     \<lparr>foc_observer = Some sample_motor, foc_owner = 2\<rparr>)"
    by (simp add: foc_served_def foc_reply_def sample_motor_def answer_calls_def)
  ultimately show ?thesis
    using c foc_commands_served [OF c, of "0x0E" "[5, 2]" "\<lparr>foc_observer = Some sample_motor, foc_owner = 0\<rparr>"
        "\<lambda>_. True"] by auto
qed

text \<open>C22: The two ends of the motor category agree on the wire.  Every request of the client is one
  command with its own message type, an emergency stop with emergency priority; the server reads it,
  after any sequence number, as that very request, with physical values rounded to the fixed-point
  grid of the field, where sending them once more changes nothing.  Every frame of an answer is the
  client's notification of that answer, rounded in the same way, and so is an error of the
  category.\<close>

theorem foc_wire_agreement:
  assumes "FocMotorCategoryClient address = Some c"
  shows "(\<forall>r k. send_foc c node r k =
      Call (ClientCommand node (if r = EmergencyStop then emergency else command) 2 (foc_id r) (foc_payload r)) k) \<and>
    (\<forall>r q. foc_valid r \<longrightarrow> foc_parse (foc_id r) (q # foc_payload r) = Some (foc_received r) \<and>
      foc_received (foc_received r) = foc_received r) \<and>
    (\<forall>a priority m payload. Send priority 2 m payload None \<in> set (answer_frames a :: 'a server_call list) \<longrightarrow>
      HandleMessage m payload c s = Some (tell_foc (foc_told m a) s)) \<and>
    (\<forall>origin code. HandleMessage 0xFE [origin, code] c s = Some (tell_foc (\<lambda>ob. OnCategoryError ob origin code) s))"
proof -
  have "cat_id c = focMotorCategoryId"
    by (simp add: FocMotorCategoryClient_eq [OF assms] CanCategoryClient_def)
  then have "send_foc c node r k =
      Call (ClientCommand node (if r = EmergencyStop then emergency else command) 2 (foc_id r) (foc_payload r)) k" for r k
    by (simp add: foc_request_sent) (simp add: foc_priority_def focMotorCategoryId_def)
  moreover have "foc_received (foc_received r) = foc_received r" for r
    by (cases r) (simp_all add: quantised_again foc_scales)
  ultimately show ?thesis
    using foc_request_parsed foc_answer_told [OF assms] foc_error_told [OF assms] by blast
qed

theorem foc_wire_agreement_witness:
  "\<exists>c :: nat foc_client_category. FocMotorCategoryClient 3 = Some c \<and>
     foc_parse 0x0D [9, 50] = Some (ConfigureTelemetryRate 50) \<and>
     HandleMessage 0x8E [1] c \<lparr>fcc_observer = None, fcc_owner = 0\<rparr> = Some (Return True \<lparr>fcc_observer = None, fcc_owner = 0\<rparr>)"
proof -
  obtain c :: "nat foc_client_category" where c: "FocMotorCategoryClient 3 = Some c"
    using FocMotorCategoryClient_succeeds by blast
  let ?s = "\<lparr>fcc_observer = None, fcc_owner = 0 :: nat\<rparr>"
  note agreement = foc_wire_agreement [OF c, of undefined ?s, where 'a = nat, THEN conjunct2]
  have "foc_parse (foc_id (ConfigureTelemetryRate 50)) (9 # foc_payload (ConfigureTelemetryRate 50)) =
      Some (foc_received (ConfigureTelemetryRate 50))"
    by (rule agreement [THEN conjunct1, rule_format, THEN conjunct1]) simp
  moreover have "HandleMessage 0x8E [1] c ?s = Some (tell_foc (foc_told 0x8E (ModeAnswer 1)) ?s)"
    by (rule agreement [THEN conjunct2, THEN conjunct1, rule_format, of response]) simp
  ultimately show ?thesis using c by (simp add: tell_foc_def)
qed

text \<open>A fault that the server broadcasts is a status frame in the fault state, with no speed.\<close>

lemma fault_broadcast:
  assumes "foc_registered this"
  shows "run_calls answer (BroadcastFaultStatus this fault k) =
    apfst ((#) (Send telemetry 2 0x89 [2, fault, 0, 0, 0, 0] None)) (run_calls answer k)"
proof -
  have "FloatToFixed16 (Number 0) scale = 0" for scale
    by (cases "single_of_int scale")
      (auto simp: FloatToFixed16_def limits round_single_def Let_def)
  then have "fixed16 (Number 0) scale = [0, 0]" for scale by (simp add: fixed16_def be16_def)
  then show ?thesis using assms
    by (auto simp: BroadcastFaultStatus_def response_defs state_fault_def split: prod.splits)
qed

end
