(* ===== verification/SocketCanNetlink.thy ===== *)
theory SocketCanNetlink
  imports CanPrelude
begin

text \<open>
  The netlink messages by which the SocketCAN adapter configures an interface,
  \<^verbatim>\<open>can-lite/drivers/implementation/SocketCanNetlink.cpp\<close>: the encoders of the three requests, the
  decoders of the kernel's answers, the socket, and the configuration of the bitrate.

  The structures and numbers are those of the Linux headers that the file includes (\<^verbatim>\<open>rtattr\<close>,
  \<^verbatim>\<open>nlmsghdr\<close>, \<^verbatim>\<open>ifinfomsg\<close>, \<^verbatim>\<open>can_bittiming\<close>), on a little-endian machine; a copy of a structure is its
  bytes.  The kernel is a parameter: the record \<open>route_kernel\<close> of the system calls on a state \<open>'k\<close>.  A
  system call that fails leaves its error number to \<open>rk_errno\<close>.
\<close>

section \<open>Structures\<close>

definition rtm_newlink :: u16 where "rtm_newlink = 16"
definition rtm_getlink :: u16 where "rtm_getlink = 18"
definition nlmsg_error :: u16 where "nlmsg_error = 2"
definition nlm_f_request :: u16 where "nlm_f_request = 1"
definition nlm_f_ack :: u16 where "nlm_f_ack = 4"
definition ifla_linkinfo :: u16 where "ifla_linkinfo = 18"
definition ifla_info_kind :: u16 where "ifla_info_kind = 1"
definition ifla_info_data :: u16 where "ifla_info_data = 2"
definition ifla_can_bittiming :: u16 where "ifla_can_bittiming = 1"
definition nla_f_nested :: u16 where "nla_f_nested = 0x8000"
definition nla_type_mask :: u16 where "nla_type_mask = 0x3fff"
definition iff_up :: u32 where "iff_up = 1"
definition eio :: int where "eio = 5"
definition eproto :: int where "eproto = 71"

lemmas netlink_constants = rtm_newlink_def rtm_getlink_def nlmsg_error_def nlm_f_request_def
  nlm_f_ack_def ifla_linkinfo_def ifla_info_kind_def ifla_info_data_def ifla_can_bittiming_def
  nla_f_nested_def nla_type_mask_def iff_up_def eio_def eproto_def

definition sizeof_rtattr :: nat where "sizeof_rtattr = 4"
definition sizeof_nlmsghdr :: nat where "sizeof_nlmsghdr = 16"
definition sizeof_ifinfomsg :: nat where "sizeof_ifinfomsg = 16"
definition sizeof_can_bittiming :: nat where "sizeof_can_bittiming = 32"

lemmas sizes = sizeof_rtattr_def sizeof_nlmsghdr_def sizeof_ifinfomsg_def sizeof_can_bittiming_def

definition host16 :: "u16 \<Rightarrow> bytes" where
  "host16 v = [ucast v, ucast (drop_bit 8 v)]"

definition host32 :: "u32 \<Rightarrow> bytes" where
  "host32 v = [ucast v, ucast (drop_bit 8 v), ucast (drop_bit 16 v), ucast (drop_bit 24 v)]"

definition load16 :: "bytes \<Rightarrow> nat \<Rightarrow> u16" where
  "load16 bs offset = ucast (bs ! offset) OR push_bit 8 (ucast (bs ! (offset + 1)))"

definition load32 :: "bytes \<Rightarrow> nat \<Rightarrow> u32" where
  "load32 bs offset =
     ucast (bs ! offset) OR push_bit 8 (ucast (bs ! (offset + 1))) OR
     push_bit 16 (ucast (bs ! (offset + 2))) OR push_bit 24 (ucast (bs ! (offset + 3)))"

definition rtattr :: "u16 \<Rightarrow> u16 \<Rightarrow> bytes" where
  "rtattr rta_len rta_type = host16 rta_len @ host16 rta_type"

definition nlmsghdr :: "u32 \<Rightarrow> u16 \<Rightarrow> u16 \<Rightarrow> u32 \<Rightarrow> bytes" where
  "nlmsghdr nlmsg_len nlmsg_type nlmsg_flags nlmsg_seq =
     host32 nlmsg_len @ host16 nlmsg_type @ host16 nlmsg_flags @ host32 nlmsg_seq @ host32 0"

definition ifinfomsg :: "int \<Rightarrow> u32 \<Rightarrow> u32 \<Rightarrow> bytes" where
  "ifinfomsg ifi_index ifi_flags ifi_change =
     [0, 0, 0, 0] @ host32 (word_of_int ifi_index) @ host32 ifi_flags @ host32 ifi_change"

definition can_bittiming :: "u32 \<Rightarrow> bytes" where
  "can_bittiming bitrate = host32 bitrate @ replicate 28 0"

section \<open>Writing a message\<close>

definition Align :: "nat \<Rightarrow> nat" where
  "Align n = (n + 3) div 4 * 4"

definition AttributeType :: "u16 \<Rightarrow> u16" where
  "AttributeType type = type AND nla_type_mask"

record message_writer =
  mw_buffer :: bytes
  mw_size :: nat
  mw_valid :: bool

definition MessageWriter :: "bytes \<Rightarrow> message_writer" where
  "MessageWriter buffer = \<lparr>mw_buffer = replicate (length buffer) 0, mw_size = 0, mw_valid = True\<rparr>"

definition memcpy :: "bytes \<Rightarrow> nat \<Rightarrow> bytes \<Rightarrow> bytes" where
  "memcpy buffer offset data = take offset buffer @ data @ drop (offset + length data) buffer"

definition PutBytes :: "bytes \<Rightarrow> message_writer \<Rightarrow> message_writer" where
  "PutBytes data w =
     (if mw_size w + Align (length data) > length (mw_buffer w) then w\<lparr>mw_valid := False\<rparr>
      else w\<lparr>mw_buffer := memcpy (mw_buffer w) (mw_size w) data,
             mw_size := mw_size w + Align (length data)\<rparr>)"

definition PutAttribute :: "u16 \<Rightarrow> bytes \<Rightarrow> message_writer \<Rightarrow> message_writer" where
  "PutAttribute type data w =
     PutBytes data (PutBytes (rtattr (of_nat (sizeof_rtattr + length data)) type) w)"

definition BeginNest :: "u16 \<Rightarrow> message_writer \<Rightarrow> nat \<times> message_writer" where
  "BeginNest type w = (mw_size w, PutBytes (rtattr 0 (type OR nla_f_nested)) w)"

definition PatchLength :: "nat \<Rightarrow> bytes \<Rightarrow> message_writer \<Rightarrow> message_writer" where
  "PatchLength offset lengthBytes w =
     (if \<not> mw_valid w then w else w\<lparr>mw_buffer := memcpy (mw_buffer w) offset lengthBytes\<rparr>)"

definition EndNest :: "nat \<Rightarrow> message_writer \<Rightarrow> message_writer" where
  "EndNest start w = PatchLength start (host16 (of_nat (mw_size w - start))) w"

text \<open>The encoders return the size of the message, 0 for none, with the buffer they wrote.\<close>

definition Finish :: "message_writer \<Rightarrow> nat \<times> bytes" where
  "Finish w =
     (let w = PatchLength 0 (host32 (of_nat (mw_size w))) w
      in (if mw_valid w then mw_size w else 0, mw_buffer w))"

definition StartLinkMessage ::
    "bytes \<Rightarrow> u16 \<Rightarrow> u16 \<Rightarrow> int \<Rightarrow> u32 \<Rightarrow> u32 \<Rightarrow> u32 \<Rightarrow> message_writer" where
  "StartLinkMessage buffer type flags interfaceIndex seq linkFlags change =
     PutBytes (ifinfomsg interfaceIndex linkFlags change)
       (PutBytes (nlmsghdr 0 type flags seq) (MessageWriter buffer))"

definition EncodeGetLink :: "bytes \<Rightarrow> int \<Rightarrow> u32 \<Rightarrow> nat \<times> bytes" where
  "EncodeGetLink buffer interfaceIndex seq =
     Finish (StartLinkMessage buffer rtm_getlink nlm_f_request interfaceIndex seq 0 0)"

definition EncodeSetLinkUp :: "bytes \<Rightarrow> int \<Rightarrow> bool \<Rightarrow> u32 \<Rightarrow> nat \<times> bytes" where
  "EncodeSetLinkUp buffer interfaceIndex up seq =
     Finish (StartLinkMessage buffer rtm_newlink (nlm_f_request OR nlm_f_ack) interfaceIndex seq
       (if up then iff_up else 0) iff_up)"

definition can_kind :: bytes where
  "can_kind = [0x63, 0x61, 0x6E]"

definition EncodeSetBitrate :: "bytes \<Rightarrow> int \<Rightarrow> u32 \<Rightarrow> u32 \<Rightarrow> nat \<times> bytes" where
  "EncodeSetBitrate buffer interfaceIndex bitrate seq =
     (let w = StartLinkMessage buffer rtm_newlink (nlm_f_request OR nlm_f_ack) interfaceIndex seq 0 0
      in case BeginNest ifla_linkinfo w of
        (linkInfo, w) \<Rightarrow>
          case BeginNest ifla_info_data (PutAttribute ifla_info_kind can_kind w) of
            (data, w) \<Rightarrow>
              Finish (EndNest linkInfo (EndNest data
                (PutAttribute ifla_can_bittiming (can_bittiming bitrate) w))))"

section \<open>Reading a message\<close>

text \<open>The visitors change a state \<open>'s\<close>; a visitor of messages stops the loop when it returns \<open>True\<close>.\<close>

lemma Align_ge: "n \<le> Align n"
  unfolding Align_def by linarith

lemma aligned_progress:
  assumes "0 < len" and "len \<le> n"
  shows "n - min (Align len) n < n"
proof -
  have "0 < Align len" using assms(1) Align_ge by (rule less_le_trans)
  then show ?thesis using assms by (auto simp: min_def)
qed

function ForEachAttribute :: "(u16 \<Rightarrow> bytes \<Rightarrow> 's \<Rightarrow> 's) \<Rightarrow> bytes \<Rightarrow> 's \<Rightarrow> 's" where
  "ForEachAttribute visitor attributes s =
     (if length attributes < sizeof_rtattr then s
      else
        let len = unat (load16 attributes 0); type = load16 attributes 2 in
        if len < sizeof_rtattr \<or> len > length attributes then s
        else
          ForEachAttribute visitor (drop (min (Align len) (length attributes)) attributes)
            (visitor (AttributeType type) (drop sizeof_rtattr (take len attributes)) s))"
  by pat_completeness auto
termination
proof (relation "measure (\<lambda>(visitor, attributes, s). length attributes)")
  show "wf (measure (\<lambda>(visitor, attributes, s :: 'a). length attributes))" by simp
next
  fix attributes :: bytes and visitor :: "u16 \<Rightarrow> bytes \<Rightarrow> 'a \<Rightarrow> 'a" and s len type
  assume "\<not> length attributes < sizeof_rtattr"
    and "\<not> (len < sizeof_rtattr \<or> len > length attributes)"
  then show "((visitor, drop (min (Align len) (length attributes)) attributes,
      visitor (AttributeType type) (drop sizeof_rtattr (take len attributes)) s), (visitor, attributes, s))
    \<in> measure (\<lambda>(visitor, attributes, s). length attributes)"
    by (simp add: sizes aligned_progress)
qed

declare ForEachAttribute.simps [simp del]

function ForEachMessage :: "(u16 \<Rightarrow> bytes \<Rightarrow> 's \<Rightarrow> bool \<times> 's) \<Rightarrow> bytes \<Rightarrow> 's \<Rightarrow> 's" where
  "ForEachMessage visitor messages s =
     (if length messages < sizeof_nlmsghdr then s
      else
        let len = unat (load32 messages 0); type = load16 messages 4 in
        if len < sizeof_nlmsghdr \<or> len > length messages then s
        else case visitor type (drop sizeof_nlmsghdr (take len messages)) s of
            (True, s) \<Rightarrow> s
          | (False, s) \<Rightarrow>
              ForEachMessage visitor (drop (min (Align len) (length messages)) messages) s)"
  by pat_completeness auto
termination
proof (relation "measure (\<lambda>(visitor, messages, s). length messages)")
  show "wf (measure (\<lambda>(visitor, messages, s :: 'a). length messages))" by simp
next
  fix messages :: bytes and visitor :: "u16 \<Rightarrow> bytes \<Rightarrow> 'a \<Rightarrow> bool \<times> 'a"
    and s s' :: 'a and len :: nat and type :: u16 and r :: "bool \<times> 'a" and b :: bool
  assume "\<not> length messages < sizeof_nlmsghdr"
    and "\<not> (len < sizeof_nlmsghdr \<or> len > length messages)"
  then show "((visitor, drop (min (Align len) (length messages)) messages, s'), (visitor, messages, s))
    \<in> measure (\<lambda>(visitor, messages, s). length messages)"
    by (simp add: sizes aligned_progress)
qed

declare ForEachMessage.simps [simp del]

definition IsCanKind :: "bytes \<Rightarrow> bool" where
  "IsCanKind kind \<longleftrightarrow>
     (let len = length (takeWhile (\<lambda>b. b \<noteq> 0) kind) in len = length can_kind \<and> take len kind = can_kind)"

record link_state =
  ls_isCan :: bool
  ls_up :: bool
  ls_bitrate :: "u32 option"

definition DecodeBitrate :: "bytes \<Rightarrow> u32 option" where
  "DecodeBitrate canData =
     ForEachAttribute (\<lambda>type v bitrate.
         if type \<noteq> ifla_can_bittiming \<or> length v < sizeof_can_bittiming then bitrate
         else Some (load32 v 0)) canData None"

definition DecodeLinkInfo :: "bytes \<Rightarrow> link_state \<Rightarrow> link_state" where
  "DecodeLinkInfo linkInfo state =
     ForEachAttribute (\<lambda>type v state.
         if type = ifla_info_kind then state\<lparr>ls_isCan := IsCanKind v\<rparr>
         else if type = ifla_info_data then state\<lparr>ls_bitrate := DecodeBitrate v\<rparr>
         else state) linkInfo state"

definition DecodeLinkMessage :: "bytes \<Rightarrow> link_state option" where
  "DecodeLinkMessage payload =
     (if length payload < sizeof_ifinfomsg then None
      else
        let flags = load32 payload 8;
          state = \<lparr>ls_isCan = False, ls_up = (flags AND iff_up \<noteq> 0), ls_bitrate = None\<rparr>;
          state = ForEachAttribute
            (\<lambda>type v state. if type = ifla_linkinfo then DecodeLinkInfo v state else state)
            (drop (min (Align sizeof_ifinfomsg) (length payload)) payload) state
        in Some (if \<not> ls_isCan state then state\<lparr>ls_bitrate := None\<rparr> else state))"

definition DecodeLink :: "bytes \<Rightarrow> link_state option" where
  "DecodeLink response =
     ForEachMessage (\<lambda>type payload state.
         if type \<noteq> rtm_newlink then (False, state) else (True, DecodeLinkMessage payload)) response None"

definition DecodeAcknowledgement :: "bytes \<Rightarrow> int option" where
  "DecodeAcknowledgement response =
     ForEachMessage (\<lambda>type payload error.
         if type \<noteq> nlmsg_error \<or> length payload < 4 then (False, error)
         else (True, Some (- sint (load32 payload 0)))) response None"

section \<open>The socket\<close>

record 'k route_kernel =
  rk_socket :: "'k \<Rightarrow> int \<times> 'k"
  rk_setTimeout :: "int \<Rightarrow> 'k \<Rightarrow> 'k"
  rk_close :: "int \<Rightarrow> 'k \<Rightarrow> 'k"
  rk_send :: "int \<Rightarrow> bytes \<Rightarrow> 'k \<Rightarrow> int \<times> 'k"
  rk_recv :: "int \<Rightarrow> nat \<Rightarrow> 'k \<Rightarrow> bytes option \<times> 'k"
  rk_errno :: "'k \<Rightarrow> int"

record route_socket =
  rs_descriptor :: int
  rs_sequence :: u32
  rs_request :: bytes

definition requestSize :: nat where "requestSize = 256"
definition responseSize :: nat where "responseSize = 8192"

definition RouteSocket :: "'k route_kernel \<Rightarrow> 'k \<Rightarrow> route_socket \<times> 'k" where
  "RouteSocket K k =
     (case rk_socket K k of
        (descriptor, k) \<Rightarrow>
          (\<lparr>rs_descriptor = descriptor, rs_sequence = 0, rs_request = replicate requestSize 0\<rparr>,
           if descriptor < 0 then k else rk_setTimeout K descriptor k))"

definition RouteSocket_destroy :: "'k route_kernel \<Rightarrow> route_socket \<Rightarrow> 'k \<Rightarrow> 'k" where
  "RouteSocket_destroy K r k = (if rs_descriptor r \<ge> 0 then rk_close K (rs_descriptor r) k else k)"

definition RouteIsOpen :: "route_socket \<Rightarrow> bool" where
  "RouteIsOpen r \<longleftrightarrow> rs_descriptor r \<ge> 0"

text \<open>An answer is \<open>None\<close> when nothing was received, an error or the end of the stream.\<close>

definition Exchange :: "'k route_kernel \<Rightarrow> nat \<Rightarrow> route_socket \<Rightarrow> 'k \<Rightarrow> bytes option \<times> 'k" where
  "Exchange K n r k =
     (if rs_descriptor r < 0 \<or> n = 0 then (None, k)
      else case rk_send K (rs_descriptor r) (take n (rs_request r)) k of
          (sent, k) \<Rightarrow>
            if sent \<noteq> int n then (None, k)
            else (case rk_recv K (rs_descriptor r) responseSize k of
                (received, k) \<Rightarrow> (if received = Some [] then None else received, k)))"

definition Acknowledge :: "'k route_kernel \<Rightarrow> nat \<Rightarrow> route_socket \<Rightarrow> 'k \<Rightarrow> int \<times> 'k" where
  "Acknowledge K n r k =
     (case Exchange K n r k of
        (None, k) \<Rightarrow> (if rk_errno K k \<noteq> 0 then rk_errno K k else eio, k)
      | (Some answer, k) \<Rightarrow>
          (case DecodeAcknowledgement answer of None \<Rightarrow> eproto | Some error \<Rightarrow> error, k))"

definition with_request :: "(u32 \<Rightarrow> nat \<times> bytes) \<Rightarrow> route_socket \<Rightarrow> nat \<times> route_socket" where
  "with_request encode r =
     (let seq = rs_sequence r + 1 in
      case encode seq of (n, buffer) \<Rightarrow> (n, r\<lparr>rs_sequence := seq, rs_request := buffer\<rparr>))"

definition QueryLink ::
    "'k route_kernel \<Rightarrow> int \<Rightarrow> route_socket \<Rightarrow> 'k \<Rightarrow> link_state option \<times> route_socket \<times> 'k" where
  "QueryLink K interfaceIndex r k =
     (case with_request (EncodeGetLink (rs_request r) interfaceIndex) r of
        (n, r) \<Rightarrow>
          case Exchange K n r k of
            (answer, k) \<Rightarrow> (case answer of None \<Rightarrow> None | Some a \<Rightarrow> DecodeLink a, r, k))"

definition SetLinkUp ::
    "'k route_kernel \<Rightarrow> int \<Rightarrow> bool \<Rightarrow> route_socket \<Rightarrow> 'k \<Rightarrow> int \<times> route_socket \<times> 'k" where
  "SetLinkUp K interfaceIndex up r k =
     (case with_request (EncodeSetLinkUp (rs_request r) interfaceIndex up) r of
        (n, r) \<Rightarrow> case Acknowledge K n r k of (error, k) \<Rightarrow> (error, r, k))"

definition SetBitrate ::
    "'k route_kernel \<Rightarrow> int \<Rightarrow> u32 \<Rightarrow> route_socket \<Rightarrow> 'k \<Rightarrow> int \<times> route_socket \<times> 'k" where
  "SetBitrate K interfaceIndex bitrate r k =
     (case with_request (EncodeSetBitrate (rs_request r) interfaceIndex bitrate) r of
        (n, r) \<Rightarrow> case Acknowledge K n r k of (error, k) \<Rightarrow> (error, r, k))"

definition configure ::
    "'k route_kernel \<Rightarrow> int \<Rightarrow> u32 \<Rightarrow> route_socket \<Rightarrow> 'k \<Rightarrow> int \<times> route_socket \<times> 'k" where
  "configure K interfaceIndex bitrate r k =
     (case QueryLink K interfaceIndex r k of
        (link, r, k) \<Rightarrow>
          if (case link of None \<Rightarrow> False
              | Some l \<Rightarrow> \<not> ls_isCan l \<or> ls_up l \<and> ls_bitrate l = Some bitrate)
          then (0, r, k)
          else case SetLinkUp K interfaceIndex False r k of
              (error, r, k) \<Rightarrow>
                if error \<noteq> 0 then (error, r, k)
                else case SetBitrate K interfaceIndex bitrate r k of
                    (error, r, k) \<Rightarrow>
                      if error \<noteq> 0
                      then case SetLinkUp K interfaceIndex True r k of (_, r, k) \<Rightarrow> (error, r, k)
                      else SetLinkUp K interfaceIndex True r k)"

definition ConfigureBitrate :: "'k route_kernel \<Rightarrow> int \<Rightarrow> u32 \<Rightarrow> 'k \<Rightarrow> int \<times> 'k" where
  "ConfigureBitrate K interfaceIndex bitrate k =
     (case RouteSocket K k of
        (r, k) \<Rightarrow>
          if \<not> RouteIsOpen r
          then (if rk_errno K k \<noteq> 0 then rk_errno K k else eio, RouteSocket_destroy K r k)
          else case configure K interfaceIndex bitrate r k of
              (error, r, k) \<Rightarrow> (error, RouteSocket_destroy K r k))"

end
