(* ===== verification/HostAdapter.thy ===== *)
theory HostAdapter
  imports MultiCanAdapter
begin

text \<open>
  What the adapters for the drivers of a host have in common: the channel numbers of
  \<^verbatim>\<open>can-lite/drivers/implementation/ChannelNumber.hpp\<close>, the members and helpers that the classes for
  SocketCAN, PCAN, Kvaser and gs\_usb devices repeat word for word, and the contract that they keep as
  adapters, the locale \<open>host_adapter\<close>.  \<open>leak_free_adapter\<close> extends it by an invariant on what the
  adapter holds of the operating system.

  As for the serial adapter, \<open>ho_log\<close> collects what the observers, the receive callback and the
  completions of sends are told, in order, and \<open>ho_scheduled\<close> counts the actions in the dispatcher.
\<close>

text \<open>Error numbers of Linux; \<^verbatim>\<open>EWOULDBLOCK\<close> is \<^verbatim>\<open>EAGAIN\<close>.\<close>

definition eperm :: int where "eperm = 1"
definition eacces :: int where "eacces = 13"
definition eagain :: int where "eagain = 11"

section \<open>Channel numbers\<close>

fun channel_digits :: "u32 \<Rightarrow> string \<Rightarrow> u32 option" where
  "channel_digits number [] = Some number"
| "channel_digits number (character # rest) =
     (if of_char character < (48 :: nat) \<or> of_char character > (57 :: nat) then None
      else channel_digits (number * 10 + of_nat (of_char character - 48)) rest)"

definition ParseChannelNumber :: "string \<Rightarrow> u32 option" where
  "ParseChannelNumber name = (if name = [] \<or> length name > 4 then None else channel_digits 0 name)"

text \<open>The decimal notation of \<^verbatim>\<open>%u\<close>; a 32-bit number fits the buffer of 12 characters.\<close>

fun decimal :: "nat \<Rightarrow> string" where
  "decimal n = (if n < 10 then [] else decimal (n div 10)) @ [char_of (48 + n mod 10)]"

declare decimal.simps [simp del]

definition ReportChannelNumber :: "u32 \<Rightarrow> string" where
  "ReportChannelNumber number = decimal (unat number)"

lemma decimal_nonempty [simp]: "decimal n \<noteq> []"
  by (subst decimal.simps) simp

lemma decimal_length: "n < 10 ^ k \<Longrightarrow> 0 < k \<Longrightarrow> length (decimal n) \<le> k"
proof (induction n arbitrary: k rule: decimal.induct)
  case (1 n)
  show ?case
  proof (cases "n < 10")
    case True
    then show ?thesis using 1(3) by (subst decimal.simps) simp
  next
    case False
    then obtain k' where k: "k = Suc k'" "0 < k'" using 1(2,3) by (cases k; cases "k - 1") auto
    then have "n div 10 < 10 ^ k'" using 1(2) by (simp add: less_mult_imp_div_less mult.commute)
    then have "length (decimal (n div 10)) \<le> k'" using 1(1) False k(2) by blast
    then show ?thesis using False k(1) by (subst decimal.simps) simp
  qed
qed

lemma channel_digits_append:
  "channel_digits v (xs @ ys) = (case channel_digits v xs of None \<Rightarrow> None | Some w \<Rightarrow> channel_digits w ys)"
  by (induction xs arbitrary: v) simp_all

lemma digit_char: "d < 10 \<Longrightarrow> of_char (char_of (48 + d :: nat)) = 48 + d"
  by simp

lemma parse_decimal: "channel_digits 0 (decimal n) = Some (of_nat n)"
proof (induction n rule: decimal.induct)
  case (1 n)
  have digit: "channel_digits v [char_of (48 + n mod 10)] = Some (v * 10 + of_nat (n mod 10))" for v
    by simp
  show ?case
  proof (cases "n < 10")
    case True
    then show ?thesis using digit [of 0] by (subst decimal.simps) simp
  next
    case False
    have "(of_nat (n div 10) :: u32) * 10 + of_nat (n mod 10) = of_nat (n div 10 * 10 + n mod 10)"
      by (simp only: of_nat_add of_nat_mult of_nat_numeral)
    then have "(of_nat (n div 10) :: u32) * 10 + of_nat (n mod 10) = of_nat n"
      by (simp only: div_mult_mod_eq)
    then show ?thesis using 1 False digit [of "of_nat (n div 10)"]
      by (subst decimal.simps) (simp add: channel_digits_append)
  qed
qed

lemma channel_number_back: "unat number < 10000 \<Longrightarrow> ParseChannelNumber (ReportChannelNumber number) = Some number"
  using decimal_length [of "unat number" 4]
  by (simp add: ParseChannelNumber_def ReportChannelNumber_def parse_decimal)

section \<open>The members and helpers of an adapter\<close>

record 'a host_members =
  ho_receiving :: bool
  ho_pendingCompletion :: "'a option"
  ho_pendingSuccess :: bool
  ho_scheduled :: nat
  ho_log :: "'a adapter_output list"

type_synonym ('a, 'z) host = "('a, 'z) host_members_scheme"

definition ho_emit :: "'a adapter_output list \<Rightarrow> ('a, 'z) host \<Rightarrow> ('a, 'z) host" where
  "ho_emit out s = s\<lparr>ho_log := ho_log s @ out\<rparr>"

definition ReportErrorH :: "string \<Rightarrow> ('a, 'z) host \<Rightarrow> ('a, 'z) host" where
  "ReportErrorH message s = ho_emit [AdapterError message] s"

definition ReceiveDataH :: "('a, 'z) host \<Rightarrow> ('a, 'z) host" where
  "ReceiveDataH s = s\<lparr>ho_receiving := True\<rparr>"

definition DeliverH :: "u32 \<Rightarrow> bytes \<Rightarrow> ('a, 'z) host \<Rightarrow> ('a, 'z) host" where
  "DeliverH canId data s0 =
     (let s = ho_emit [FrameLog False canId data] s0 in
      if ho_receiving s then ho_emit [FrameReceived canId data] s else s)"

definition ScheduleCompletionH :: "'a \<Rightarrow> bool \<Rightarrow> ('a, 'z) host \<Rightarrow> ('a, 'z) host" where
  "ScheduleCompletionH action result s =
     s\<lparr>ho_pendingCompletion := Some action, ho_pendingSuccess := result, ho_scheduled := ho_scheduled s + 1\<rparr>"

definition RunScheduledH :: "('a, 'z) host \<Rightarrow> ('a, 'z) host" where
  "RunScheduledH s0 =
     (let s = s0\<lparr>ho_scheduled := ho_scheduled s0 - 1\<rparr> in
      case ho_pendingCompletion s of
        None \<Rightarrow> s
      | Some action \<Rightarrow> ho_emit [SendCompleted action (ho_pendingSuccess s)] s)"

text \<open>The loop of \<^verbatim>\<open>ProcessReadEvent\<close>: at most \<open>n\<close> rounds, while the adapter is connected, until a round
  asks to return.\<close>

fun poll :: "nat \<Rightarrow> ('s \<Rightarrow> bool) \<Rightarrow> ('s \<Rightarrow> bool \<times> 's) \<Rightarrow> 's \<Rightarrow> 's" where
  "poll 0 connected round s = s"
| "poll (Suc n) connected round s =
     (if \<not> connected s then s
      else case round s of
          (False, s') \<Rightarrow> s'
        | (True, s') \<Rightarrow> poll n connected round s')"

section \<open>Runs of an adapter\<close>

datatype 'a host_event =
    HostConnect string u32
  | HostDisconnect
  | HostSend can_id bytes 'a
  | HostReceiveData
  | HostReadEvent
  | HostRunScheduled

text \<open>The operations of an adapter.  \<open>None\<close> is a \<open>Connect\<close> that never returns.\<close>

record ('a, 's) host_operations =
  hop_Connect :: "string \<Rightarrow> u32 \<Rightarrow> 's \<Rightarrow> (bool \<times> 's) option"
  hop_Disconnect :: "'s \<Rightarrow> 's"
  hop_IsConnected :: "'s \<Rightarrow> bool"
  hop_SendData :: "can_id \<Rightarrow> bytes \<Rightarrow> 'a \<Rightarrow> 's \<Rightarrow> 's"
  hop_ProcessReadEvent :: "'s \<Rightarrow> 's"

fun host_apply :: "('a, ('a, 'z) host) host_operations \<Rightarrow> 'a host_event \<Rightarrow> ('a, 'z) host \<Rightarrow> ('a, 'z) host" where
  "host_apply ops (HostConnect name bitrate) s =
     (case hop_Connect ops name bitrate s of None \<Rightarrow> s | Some (_, s') \<Rightarrow> s')"
| "host_apply ops HostDisconnect s = hop_Disconnect ops s"
| "host_apply ops (HostSend canId data a) s = hop_SendData ops canId data a s"
| "host_apply ops HostReceiveData s = ReceiveDataH s"
| "host_apply ops HostReadEvent s = hop_ProcessReadEvent ops s"
| "host_apply ops HostRunScheduled s = RunScheduledH s"

text \<open>A \<open>Connect\<close> happens when it returns, and a user awaits the completion of a send before the next
  one, as the frame transport does: an adapter keeps one completion function.\<close>

definition host_enabled :: "('a, ('a, 'z) host) host_operations \<Rightarrow> 'a host_event \<Rightarrow> ('a, 'z) host \<Rightarrow> bool" where
  "host_enabled ops e s =
     (case e of
        HostConnect name bitrate \<Rightarrow> hop_Connect ops name bitrate s \<noteq> None
      | HostSend _ _ _ \<Rightarrow> ho_scheduled s = 0
      | HostRunScheduled \<Rightarrow> 0 < ho_scheduled s
      | _ \<Rightarrow> True)"

definition told :: "('a, 'z) host \<Rightarrow> ('a, 'z) host \<Rightarrow> 'a adapter_output list" where
  "told s s' = drop (length (ho_log s)) (ho_log s')"

definition host_step ::
    "('a, ('a, 'z) host) host_operations \<Rightarrow> 'a host_event \<Rightarrow> ('a, 'z) host \<Rightarrow> ('a, 'z) host \<times> 'a adapter_output list" where
  "host_step ops e s = (let s' = host_apply ops e s in (s', told s s'))"

end
