(* ===== verification/SocketCanAdapter.thy ===== *)
theory SocketCanAdapter
  imports SocketCanNetlink HostAdapter
begin

text \<open>
  The adapter for the CAN sockets of Linux, \<^verbatim>\<open>can-lite/drivers/implementation/SocketCanAdapter.cpp\<close>.

  The kernel is a parameter: the record \<open>can_kernel\<close> of the system calls on a state \<open>'k\<close>, with those of
  the route socket in \<open>ck_route\<close>; its \<open>rk_close\<close> and \<open>rk_errno\<close> serve both.  \<open>ck_read\<close> fills a frame and
  returns the number of bytes that were read.  A directory stream is its descriptor with the names
  that remain to be read.
\<close>

section \<open>State\<close>

record can_frame =
  cf_id :: u32
  cf_dlc :: u8
  cf_data :: bytes

record 'k can_kernel =
  ck_route :: "'k route_kernel"
  ck_socket :: "'k \<Rightarrow> int \<times> 'k"
  ck_ifindex :: "int \<Rightarrow> string \<Rightarrow> 'k \<Rightarrow> int option \<times> 'k"
  ck_bind :: "int \<Rightarrow> int \<Rightarrow> 'k \<Rightarrow> bool \<times> 'k"
  ck_write :: "int \<Rightarrow> can_frame \<Rightarrow> 'k \<Rightarrow> int \<times> 'k"
  ck_read :: "int \<Rightarrow> 'k \<Rightarrow> int \<times> can_frame \<times> 'k"
  ck_opendir :: "string \<Rightarrow> 'k \<Rightarrow> (int \<times> string list) option \<times> 'k"
  ck_closedir :: "int \<Rightarrow> 'k \<Rightarrow> 'k"
  ck_openat :: "int \<Rightarrow> string \<Rightarrow> 'k \<Rightarrow> int \<times> 'k"
  ck_readFile :: "int \<Rightarrow> nat \<Rightarrow> 'k \<Rightarrow> bytes option \<times> 'k"

record ('a, 'k) socket_can = "'a host_members" +
  sc_kernel :: "'k can_kernel"
  sc_state :: 'k
  sc_descriptor :: int

definition can_eff_flag :: u32 where "can_eff_flag = 0x80000000"
definition can_rtr_flag :: u32 where "can_rtr_flag = 0x40000000"
definition can_err_flag :: u32 where "can_err_flag = 0x20000000"
definition can_eff_mask :: u32 where "can_eff_mask = 0x1fffffff"
definition sizeof_can_frame :: int where "sizeof_can_frame = 16"
definition ifnamsiz :: nat where "ifnamsiz = 16"
definition arphrdCan :: int where "arphrdCan = 280"
definition maxFramesPerRead :: nat where "maxFramesPerRead = 256"

definition SocketCanAdapter :: "'k can_kernel \<Rightarrow> 'k \<Rightarrow> ('a, 'k) socket_can" where
  "SocketCanAdapter K k =
     \<lparr>ho_receiving = False, ho_pendingCompletion = None, ho_pendingSuccess = False, ho_scheduled = 0,
      ho_log = [], sc_kernel = K, sc_state = k, sc_descriptor = - 1\<rparr>"

section \<open>Connection\<close>

definition BitrateFailure :: "int \<Rightarrow> string" where
  "BitrateFailure error =
     (if error = eperm \<or> error = eacces
      then ''Setting the CAN bitrate needs root or CAP_NET_ADMIN; or configure the interface beforehand with ip link''
      else ''The CAN interface did not accept the bitrate'')"

definition IsConnectedSC :: "('a, 'k) socket_can \<Rightarrow> bool" where
  "IsConnectedSC s \<longleftrightarrow> sc_descriptor s \<ge> 0"

definition CloseSocket :: "('a, 'k) socket_can \<Rightarrow> ('a, 'k) socket_can" where
  "CloseSocket s =
     s\<lparr>sc_state := rk_close (ck_route (sc_kernel s)) (sc_descriptor s) (sc_state s), sc_descriptor := - 1\<rparr>"

definition DisconnectSC :: "('a, 'k) socket_can \<Rightarrow> ('a, 'k) socket_can" where
  "DisconnectSC s =
     (if sc_descriptor s \<ge> 0 then ho_emit [ConnectionChanged False] (CloseSocket s) else s)"

definition ConnectSC :: "string \<Rightarrow> u32 \<Rightarrow> ('a, 'k) socket_can \<Rightarrow> bool \<times> ('a, 'k) socket_can" where
  "ConnectSC interfaceName bitrate s0 =
     (let s = (if IsConnectedSC s0 then DisconnectSC s0 else s0); K = sc_kernel s in
      case ck_socket K (sc_state s) of
        (descriptor, k) \<Rightarrow>
          let s = s\<lparr>sc_descriptor := descriptor, sc_state := k\<rparr> in
          if descriptor < 0 then (False, ReportErrorH ''Failed to create CAN socket'' s)
          else case ck_ifindex K descriptor (take (ifnamsiz - 1) interfaceName) (sc_state s) of
              (None, k) \<Rightarrow>
                (False, ReportErrorH ''CAN interface not found'' (CloseSocket (s\<lparr>sc_state := k\<rparr>)))
            | (Some index, k) \<Rightarrow>
                (case ConfigureBitrate (ck_route K) index bitrate k of
                   (error, k) \<Rightarrow>
                     if error \<noteq> 0
                     then (False, ReportErrorH (BitrateFailure error) (CloseSocket (s\<lparr>sc_state := k\<rparr>)))
                     else case ck_bind K descriptor index k of
                         (False, k) \<Rightarrow>
                           (False, ReportErrorH ''Failed to bind CAN socket'' (CloseSocket (s\<lparr>sc_state := k\<rparr>)))
                       | (True, k) \<Rightarrow> (True, ho_emit [ConnectionChanged True] (s\<lparr>sc_state := k\<rparr>))))"

section \<open>Sending and receiving\<close>

definition FrameSC :: "u32 \<Rightarrow> bytes \<Rightarrow> can_frame" where
  "FrameSC rawId data =
     \<lparr>cf_id = rawId OR can_eff_flag, cf_dlc = of_nat (min (length data) 8),
      cf_data = take 8 data @ replicate (8 - length data) 0\<rparr>"

definition SendDataSC :: "can_id \<Rightarrow> bytes \<Rightarrow> 'a \<Rightarrow> ('a, 'k) socket_can \<Rightarrow> ('a, 'k) socket_can" where
  "SendDataSC canId data actionOnCompletion s0 =
     (if \<not> IsConnectedSC s0 then ScheduleCompletionH actionOnCompletion False s0
      else case canId of
          Id11 _ \<Rightarrow> ScheduleCompletionH actionOnCompletion False s0
        | Id29 rawId \<Rightarrow>
            (case ck_write (sc_kernel s0) (sc_descriptor s0) (FrameSC rawId data) (sc_state s0) of
               (bytesWritten, k) \<Rightarrow>
                 let s = s0\<lparr>sc_state := k\<rparr>; savedErrno = rk_errno (ck_route (sc_kernel s)) k;
                   success = (bytesWritten = sizeof_can_frame);
                   s = (if success then ho_emit [FrameLog True rawId data] s
                        else if \<not> (bytesWritten < 0 \<and> savedErrno = eagain)
                        then ReportErrorH ''Failed to send CAN frame'' s
                        else s)
                 in ScheduleCompletionH actionOnCompletion success s))"

definition IsExtendedDataFrame :: "u32 \<Rightarrow> bool" where
  "IsExtendedDataFrame canId \<longleftrightarrow>
     canId AND can_eff_flag \<noteq> 0 \<and> canId AND (can_rtr_flag OR can_err_flag) = 0"

definition DeliverSC :: "can_frame \<Rightarrow> ('a, 'k) socket_can \<Rightarrow> ('a, 'k) socket_can" where
  "DeliverSC frame s =
     DeliverH (cf_id frame AND can_eff_mask)
       (map (\<lambda>i. cf_data frame ! i) [0..<min (unat (cf_dlc frame)) 8]) s"

definition ReadFrameSC :: "('a, 'k) socket_can \<Rightarrow> bool \<times> ('a, 'k) socket_can" where
  "ReadFrameSC s0 =
     (case ck_read (sc_kernel s0) (sc_descriptor s0) (sc_state s0) of
        (bytesRead, frame, k) \<Rightarrow>
          let s = s0\<lparr>sc_state := k\<rparr> in
          if bytesRead < 0
          then (False, if rk_errno (ck_route (sc_kernel s)) k \<noteq> eagain then ReportErrorH ''CAN read error'' s else s)
          else (True, if bytesRead = sizeof_can_frame \<and> IsExtendedDataFrame (cf_id frame)
                      then DeliverSC frame s else s))"

definition ProcessReadEventSC :: "('a, 'k) socket_can \<Rightarrow> ('a, 'k) socket_can" where
  "ProcessReadEventSC s = poll maxFramesPerRead IsConnectedSC ReadFrameSC s"

definition FileDescriptorSC :: "('a, 'k) socket_can \<Rightarrow> int" where
  "FileDescriptorSC s = sc_descriptor s"

section \<open>Interfaces\<close>

text \<open>\<^verbatim>\<open>std::from_chars\<close> on an \<^verbatim>\<open>int\<close>: the longest run of digits, after a minus sign.\<close>

definition is_digit :: "u8 \<Rightarrow> bool" where
  "is_digit b \<longleftrightarrow> 48 \<le> b \<and> b \<le> 57"

definition from_chars :: "bytes \<Rightarrow> int option" where
  "from_chars text =
     (let negative = (text \<noteq> [] \<and> hd text = 45);
        digits = takeWhile is_digit (if negative then tl text else text);
        n = foldl (\<lambda>n b. n * 10 + (uint b - 48)) 0 digits;
        n = (if negative then - n else n)
      in if digits = [] \<or> n < - (2 ^ 31) \<or> n \<ge> 2 ^ 31 then None else Some n)"

definition ReadType :: "'k can_kernel \<Rightarrow> int \<Rightarrow> 'k \<Rightarrow> int option \<times> 'k" where
  "ReadType K typeFile k =
     (case ck_readFile K typeFile 16 k of
        (text, k) \<Rightarrow>
          (case text of None \<Rightarrow> None | Some [] \<Rightarrow> None | Some t \<Rightarrow> from_chars t,
           rk_close (ck_route K) typeFile k))"

definition InterfaceType :: "'k can_kernel \<Rightarrow> int \<Rightarrow> string \<Rightarrow> 'k \<Rightarrow> int option \<times> 'k" where
  "InterfaceType K netDirectory name k =
     (case ck_openat K netDirectory name k of
        (interfaceDirectory, k) \<Rightarrow>
          if interfaceDirectory < 0 then (None, k)
          else case ck_openat K interfaceDirectory ''type'' k of
              (typeFile, k) \<Rightarrow>
                let k = rk_close (ck_route K) interfaceDirectory k in
                if typeFile < 0 then (None, k) else ReadType K typeFile k)"

fun can_interfaces :: "'k can_kernel \<Rightarrow> int \<Rightarrow> string list \<Rightarrow> 'k \<Rightarrow> string list \<times> 'k" where
  "can_interfaces K netDirectory [] k = ([], k)"
| "can_interfaces K netDirectory (name # entries) k =
     (if name \<noteq> [] \<and> hd name = CHR ''.'' then can_interfaces K netDirectory entries k
      else case InterfaceType K netDirectory name k of
          (type, k) \<Rightarrow>
            case can_interfaces K netDirectory entries k of
              (names, k) \<Rightarrow> (if type = Some arphrdCan then name # names else names, k))"

definition EnumerateInterfacesSC :: "('a, 'k) socket_can \<Rightarrow> string list \<times> 'k" where
  "EnumerateInterfacesSC s =
     (let K = sc_kernel s in
      case ck_opendir K ''/sys/class/net'' (sc_state s) of
        (None, k) \<Rightarrow> ([], k)
      | (Some (netDirectory, entries), k) \<Rightarrow>
          (case (if netDirectory \<ge> 0 then can_interfaces K netDirectory entries k else ([], k)) of
             (names, k) \<Rightarrow> (names, ck_closedir K netDirectory k)))"

definition EnumerateMissingDriversSC :: "('a, 'k) socket_can \<Rightarrow> string list \<times> 'k" where
  "EnumerateMissingDriversSC s =
     (case ck_socket (sc_kernel s) (sc_state s) of
        (fd, k) \<Rightarrow>
          if fd < 0
          then ([''SocketCAN: the CAN kernel modules are not loaded; run sudo modprobe -a can can_raw (and vcan for a virtual bus)''], k)
          else ([], rk_close (ck_route (sc_kernel s)) fd k))"

definition socket_can_operations :: "('a, ('a, 'k) socket_can) host_operations" where
  "socket_can_operations =
     \<lparr>hop_Connect = \<lambda>name bitrate s. Some (ConnectSC name bitrate s), hop_Disconnect = DisconnectSC,
      hop_IsConnected = IsConnectedSC, hop_SendData = SendDataSC, hop_ProcessReadEvent = ProcessReadEventSC\<rparr>"

end
