(* ===== verification/HostLaws.thy ===== *)
theory HostLaws
  imports HostAdapter MultiCanLaws
begin

text \<open>
  What every adapter for a driver of the host guarantees, proved once from the contract of its
  operations: the observers see a connection that opens and closes, with frames only in between; every
  send is completed once, with success exactly when its frame was reported as transmitted; and an
  adapter keeps what the selection of adapters asks for.  Each adapter's theory interprets the locales
  on its own operations.
\<close>

section \<open>Outputs\<close>

text \<open>An operation that tells \<open>out\<close> and leaves the sends alone.\<close>

definition tells :: "('a, 'z) host \<Rightarrow> 'a adapter_output list \<Rightarrow> ('a, 'z) host \<Rightarrow> bool" where
  "tells s out s' \<longleftrightarrow> ho_log s' = ho_log s @ out \<and> ho_scheduled s' = ho_scheduled s \<and>
     ho_pendingCompletion s' = ho_pendingCompletion s \<and> ho_pendingSuccess s' = ho_pendingSuccess s \<and>
     ho_receiving s' = ho_receiving s"

lemma tells_trans: "tells s xs s1 \<Longrightarrow> tells s1 ys s2 \<Longrightarrow> tells s (xs @ ys) s2"
  by (simp add: tells_def)

lemma tells_told: "tells s out s' \<Longrightarrow> told s s' = out"
  by (simp add: tells_def told_def)

lemma tells_nothing [simp]: "tells s [] s"
  by (simp add: tells_def)

lemma more_updates [simp]:
  "host_members.more (ho_emit out s) = host_members.more s"
  "host_members.more (ReportErrorH e s) = host_members.more s"
  "host_members.more (ReceiveDataH s) = host_members.more s"
  "host_members.more (DeliverH i d s) = host_members.more s"
  "host_members.more (ScheduleCompletionH a ok s) = host_members.more s"
  "host_members.more (RunScheduledH s) = host_members.more s"
  by (simp_all add: ho_emit_def ReportErrorH_def ReceiveDataH_def DeliverH_def ScheduleCompletionH_def
      RunScheduledH_def Let_def split: option.split)

definition results_in :: "'a adapter_output list \<Rightarrow> ('a \<times> bool) multiset" where
  "results_in out = mset (concat (map (\<lambda>e. case e of SendCompleted a ok \<Rightarrow> [(a, ok)] | _ \<Rightarrow> []) out))"

lemma results_in_simps [simp]:
  "results_in [] = {#}" "results_in (xs @ ys) = results_in xs + results_in ys"
  "results_in [SendCompleted a ok] = {#(a, ok)#}"
  by (simp_all add: results_in_def)

lemma results_in_none: "\<forall>e \<in> set out. \<forall>a ok. e \<noteq> SendCompleted a ok \<Longrightarrow> results_in out = {#}"
  by (induction out) (auto simp: results_in_def split: adapter_output.split)

definition transmits :: "'a adapter_output list \<Rightarrow> bool" where
  "transmits out \<longleftrightarrow> (\<exists>i d. FrameLog True i d \<in> set out)"

text \<open>What reading may tell: received frames of at most eight bytes, errors, the loss of the
  connection.\<close>

fun received_only :: "'a adapter_output \<Rightarrow> bool" where
  "received_only (FrameLog transmitted i d) = (\<not> transmitted \<and> length d \<le> 8)"
| "received_only (FrameReceived i d) = (length d \<le> 8)"
| "received_only (AdapterError e) = True"
| "received_only (ConnectionChanged connected) = (\<not> connected)"
| "received_only (SendCompleted a ok) = False"

lemma view_errors: "foldl adapter_view (Some c) (map AdapterError errors) = Some c"
  by (induction errors) simp_all

lemma DeliverH_tells:
  "tells s (FrameLog False i d # (if ho_receiving s then [FrameReceived i d] else [])) (DeliverH i d s)"
  by (simp add: DeliverH_def tells_def ho_emit_def Let_def)

text \<open>What a loop that reads tells, while it stays connected.\<close>

definition reads :: "bool \<Rightarrow> ('a, 'z) host \<Rightarrow> bool \<Rightarrow> ('a, 'z) host \<Rightarrow> bool" where
  "reads c s c' s' \<longleftrightarrow> (\<exists>out. tells s out s' \<and> list_all received_only out \<and>
     foldl adapter_view (Some c) out = Some c')"

lemma reads_refl [simp]: "reads c s c s"
  unfolding reads_def by (rule exI [of _ "[]"]) simp

lemma reads_trans: "reads c s c1 s1 \<Longrightarrow> reads c1 s1 c2 s2 \<Longrightarrow> reads c s c2 s2"
  unfolding reads_def using tells_trans by (metis foldl_append list_all_append)

lemma reads_deliver: "length d \<le> 8 \<Longrightarrow> reads True s True (DeliverH i d s)"
  unfolding reads_def by (rule exI, rule conjI, rule DeliverH_tells) simp

lemma reads_error: "reads c s c (ReportErrorH e s)"
  unfolding reads_def by (rule exI [of _ "[AdapterError e]"]) (simp add: ReportErrorH_def tells_def ho_emit_def)

lemma reads_state: "tells s [] s' \<Longrightarrow> reads c s c s'"
  unfolding reads_def by (rule exI [of _ "[]"]) simp

lemma poll_reads:
  assumes "\<And>s again s'. connected s \<Longrightarrow> round s = (again, s') \<Longrightarrow> reads True s (connected s') s'"
  shows "reads (connected s) s (connected (poll n connected round s)) (poll n connected round s)"
proof (induction n arbitrary: s)
  case 0
  then show ?case by simp
next
  case (Suc n)
  obtain again s1 where r: "round s = (again, s1)" by force
  show ?case
    using r assms [OF _ r] Suc [of s1] reads_trans [of True s "connected s1" s1]
    by (cases "connected s"; cases again) auto
qed

lemma poll_keeps:
  assumes "\<And>s. P s \<Longrightarrow> connected s \<Longrightarrow> P (snd (round s))" and "P s"
  shows "P (poll n connected round s)"
  using assms(2)
proof (induction n arbitrary: s)
  case 0
  then show ?case by simp
next
  case (Suc n)
  obtain again s1 where r: "round s = (again, s1)" by force
  show ?case using r assms(1) [OF Suc.prems] Suc by (cases again) auto
qed

text \<open>What \<open>Connect\<close> and \<open>SendData\<close> may come to: a connection, after the loss of the one before, or
  one error; a transmitted frame and a completion with success, or errors and one without.\<close>

definition connect_outcome :: "bool \<Rightarrow> bool \<Rightarrow> ('a, 'z) host \<Rightarrow> ('a, 'z) host \<Rightarrow> bool" where
  "connect_outcome before ok s s' \<longleftrightarrow> (\<exists>m. tells s ((if before then [ConnectionChanged False] else []) @
     [if ok then ConnectionChanged True else AdapterError m]) s')"

lemma connect_fails: "tells s [] s' \<Longrightarrow> connect_outcome False False s (ReportErrorH m s')"
  by (auto simp: connect_outcome_def tells_def ReportErrorH_def ho_emit_def)

lemma connect_succeeds: "tells s [] s' \<Longrightarrow> connect_outcome False True s (ho_emit [ConnectionChanged True] s')"
  by (auto simp: connect_outcome_def tells_def ho_emit_def)

lemma connect_again:
  "tells s [ConnectionChanged False] s1 \<Longrightarrow> connect_outcome False ok s1 s' \<Longrightarrow> connect_outcome True ok s s'"
  using tells_trans by (fastforce simp: connect_outcome_def)

definition send_outcome :: "bool \<Rightarrow> can_id \<Rightarrow> bytes \<Rightarrow> 'a \<Rightarrow> ('a, 'z) host \<Rightarrow> ('a, 'z) host \<Rightarrow> bool" where
  "send_outcome connected canId data a s s' \<longleftrightarrow>
     (\<exists>i s1. connected \<and> canId = Id29 i \<and> tells s [FrameLog True i data] s1 \<and> s' = ScheduleCompletionH a True s1) \<or>
     (\<exists>errors s1. tells s (map AdapterError errors) s1 \<and> s' = ScheduleCompletionH a False s1)"

lemma send_refused: "tells s [] s1 \<Longrightarrow> send_outcome connected canId data a s (ScheduleCompletionH a False s1)"
  unfolding send_outcome_def by (intro disjI2 exI [of _ "[]"] exI [of _ s1]) simp

lemma send_fails:
  "tells s [] s1 \<Longrightarrow> send_outcome connected canId data a s (ScheduleCompletionH a False (ReportErrorH m s1))"
  unfolding send_outcome_def
  by (intro disjI2 exI [of _ "[m]"] exI [of _ "ReportErrorH m s1"]) (simp add: tells_def ReportErrorH_def ho_emit_def)

lemma send_succeeds:
  "tells s [] s1 \<Longrightarrow> connected \<Longrightarrow>
    send_outcome connected (Id29 i) data a s (ScheduleCompletionH a True (ho_emit [FrameLog True i data] s1))"
  unfolding send_outcome_def
  by (intro disjI1 exI [of _ i] exI [of _ "ho_emit [FrameLog True i data] s1"]) (simp add: tells_def ho_emit_def)

lemma send_outcome_told:
  assumes "send_outcome c canId data a s s'"
  obtains ok out s1 where "s' = ScheduleCompletionH a ok s1" "tells s out s1"
    "foldl adapter_view (Some c) out = Some c" "results_in out = {#}" "transmits out = ok"
proof -
  consider i s1 where c "canId = Id29 i" "tells s [FrameLog True i data] s1" "s' = ScheduleCompletionH a True s1"
    | errors s1 where "tells s (map AdapterError errors) s1" "s' = ScheduleCompletionH a False s1"
    using assms unfolding send_outcome_def by blast
  then show thesis
  proof cases
    case 1
    then show thesis using that by (auto simp: transmits_def results_in_def)
  next
    case (2 errors s1)
    have "results_in (map AdapterError errors :: 'a adapter_output list) = {#}"
      "\<not> transmits (map AdapterError errors :: 'a adapter_output list)"
      by (auto simp: transmits_def intro: results_in_none)
    then show thesis using that [OF 2(2,1) view_errors] by simp
  qed
qed

section \<open>The contract\<close>

locale host_adapter =
  fixes ops :: "('a, ('a, 'z) host) host_operations"
  assumes connected_members: "host_members.more s = host_members.more s' \<Longrightarrow>
      hop_IsConnected ops s = hop_IsConnected ops s'"
    and connect_tells: "hop_Connect ops name bitrate s = Some (ok, s') \<Longrightarrow>
      hop_IsConnected ops s' = ok \<and> connect_outcome (hop_IsConnected ops s) ok s s'"
    and disconnect_tells: "\<not> hop_IsConnected ops (hop_Disconnect ops s) \<and>
      tells s (if hop_IsConnected ops s then [ConnectionChanged False] else []) (hop_Disconnect ops s)"
    and send_tells: "hop_IsConnected ops (hop_SendData ops canId data a s) = hop_IsConnected ops s \<and>
      send_outcome (hop_IsConnected ops s) canId data a s (hop_SendData ops canId data a s)"
    and read_tells: "reads (hop_IsConnected ops s) s
      (hop_IsConnected ops (hop_ProcessReadEvent ops s)) (hop_ProcessReadEvent ops s)"

definition host_awaited :: "('a, 'z) host \<Rightarrow> ('a \<times> bool) multiset" where
  "host_awaited s = (if ho_scheduled s = 0 then {#}
     else mset (case ho_pendingCompletion s of None \<Rightarrow> [] | Some a \<Rightarrow> [(a, ho_pendingSuccess s)]))"

definition host_brought ::
    "('a, ('a, 'z) host) host_operations \<Rightarrow> 'a host_event \<Rightarrow> ('a, 'z) host \<Rightarrow> ('a \<times> bool) multiset" where
  "host_brought ops e s =
     (case e of HostSend _ _ a \<Rightarrow> {#(a, transmits (snd (host_step ops e s)))#} | _ \<Rightarrow> {#})"

definition host_inv :: "('a, ('a, 'z) host) host_operations \<Rightarrow> ('a, 'z) host \<Rightarrow> bool" where
  "host_inv ops s \<longleftrightarrow> seen (ho_log s) = Some (hop_IsConnected ops s) \<and> ho_scheduled s \<le> 1 \<and>
     (ho_scheduled s = 1 \<longrightarrow> ho_pendingCompletion s \<noteq> None)"

definition host_idle :: "('a, ('a, 'z) host) host_operations \<Rightarrow> ('a, 'z) host \<Rightarrow> bool" where
  "host_idle ops s \<longleftrightarrow> ho_log s = [] \<and> ho_scheduled s = 0 \<and> \<not> hop_IsConnected ops s"

lemma host_idle_inv: "host_idle ops s \<Longrightarrow> host_inv ops s \<and> host_awaited s = {#}"
  by (simp add: host_idle_def host_inv_def host_awaited_def seen_def)

definition step_ok :: "('a, ('a, 'z) host) host_operations \<Rightarrow> 'a host_event \<Rightarrow> ('a, 'z) host \<Rightarrow> bool" where
  "step_ok ops e s \<longleftrightarrow> host_inv ops (host_apply ops e s) \<and>
     host_awaited (host_apply ops e s) + results_in (told s (host_apply ops e s)) = host_awaited s + host_brought ops e s"

text \<open>A step that tells no completion and leaves the sends alone.\<close>

lemma silent_step_ok:
  assumes "host_inv ops s" and "tells s out (host_apply ops e s)" and "\<forall>x \<in> set out. \<forall>a ok. x \<noteq> SendCompleted a ok"
    and "foldl adapter_view (Some (hop_IsConnected ops s)) out = Some (hop_IsConnected ops (host_apply ops e s))"
    and "\<And>i d a. e \<noteq> HostSend i d a"
  shows "step_ok ops e s"
proof -
  have "seen (ho_log (host_apply ops e s)) = Some (hop_IsConnected ops (host_apply ops e s))"
    using assms(1,2,4) by (simp add: host_inv_def tells_def seen_append)
  moreover have "host_brought ops e s = {#}"
  proof (cases e)
    case (HostSend i d a)
    then show ?thesis using assms(5) by blast
  qed (simp_all add: host_brought_def)
  ultimately show ?thesis
    using assms(1) tells_told [OF assms(2)] results_in_none [OF assms(3)] assms(2)
    by (simp add: step_ok_def host_inv_def host_awaited_def tells_def split: option.split)
qed

context host_adapter begin

lemma connect_step:
  assumes "host_inv ops s" and "host_enabled ops (HostConnect name bitrate) s"
  shows "step_ok ops (HostConnect name bitrate) s"
proof -
  from assms(2) obtain ok s' where c: "hop_Connect ops name bitrate s = Some (ok, s')"
    by (auto simp: host_enabled_def)
  have ok: "hop_IsConnected ops s' = ok" using connect_tells [OF c] by blast
  have s': "host_apply ops (HostConnect name bitrate) s = s'" using c by simp
  obtain m where "tells s ((if hop_IsConnected ops s then [ConnectionChanged False] else []) @
      [if ok then ConnectionChanged True else AdapterError m]) (host_apply ops (HostConnect name bitrate) s)"
    using connect_tells [OF c] s' by (auto simp: connect_outcome_def)
  from silent_step_ok [OF assms(1) this] show ?thesis unfolding s' using ok by (auto split: if_splits)
qed

lemma send_step:
  assumes "host_inv ops s" and "host_enabled ops (HostSend canId data a) s"
  shows "step_ok ops (HostSend canId data a) s"
proof -
  obtain ok out s1 where
    d: "hop_SendData ops canId data a s = ScheduleCompletionH a ok s1" "tells s out s1" and
    out: "foldl adapter_view (Some (hop_IsConnected ops s)) out = Some (hop_IsConnected ops s)"
      "results_in out = {#}" "transmits out = ok"
    using send_outcome_told [OF conjunct2 [OF send_tells [of canId data a s]]] by blast
  have same: "hop_IsConnected ops (ScheduleCompletionH a ok s1) = hop_IsConnected ops s"
    using send_tells [of canId data a s] d(1) by simp
  have "told s (ScheduleCompletionH a ok s1) = out" "ho_log (ScheduleCompletionH a ok s1) = ho_log s @ out"
    using d(2) by (simp_all add: told_def tells_def ScheduleCompletionH_def)
  then show ?thesis using assms out same d(1,2)
    by (simp add: step_ok_def host_brought_def host_step_def Let_def host_inv_def seen_append host_awaited_def
        host_enabled_def) (simp add: ScheduleCompletionH_def tells_def)
qed

lemma run_scheduled_step:
  assumes "host_inv ops s" and "host_enabled ops HostRunScheduled s"
  shows "step_ok ops HostRunScheduled s"
proof -
  from assms obtain a where one: "ho_scheduled s = 1" "ho_pendingCompletion s = Some a"
    by (auto simp: host_inv_def host_enabled_def)
  have "hop_IsConnected ops (RunScheduledH s) = hop_IsConnected ops s"
    by (rule connected_members) simp
  then show ?thesis using assms(1) one
    by (simp add: step_ok_def host_inv_def host_awaited_def host_brought_def told_def)
      (simp add: RunScheduledH_def ho_emit_def seen_append)
qed

lemma every_step:
  assumes "host_inv ops s" and "host_enabled ops e s"
  shows "step_ok ops e s"
proof (cases e)
  case (HostConnect name bitrate)
  then show ?thesis using connect_step assms by simp
next
  case (HostSend canId data a)
  then show ?thesis using send_step assms by simp
next
  case HostRunScheduled
  then show ?thesis using run_scheduled_step assms by simp
next
  case HostDisconnect
  show ?thesis unfolding HostDisconnect
    by (rule silent_step_ok [OF assms(1), where out = "if hop_IsConnected ops s then [ConnectionChanged False] else []"])
      (use disconnect_tells [of s] in auto)
next
  case HostReceiveData
  have "hop_IsConnected ops (s\<lparr>ho_receiving := True\<rparr>) = hop_IsConnected ops s" by (rule connected_members) simp
  then show ?thesis unfolding HostReceiveData using assms(1)
    by (simp add: step_ok_def host_inv_def host_awaited_def host_brought_def told_def ReceiveDataH_def
        split: option.split)
next
  case HostReadEvent
  obtain out where out: "tells s out (hop_ProcessReadEvent ops s)" "list_all received_only out"
    "foldl adapter_view (Some (hop_IsConnected ops s)) out = Some (hop_IsConnected ops (hop_ProcessReadEvent ops s))"
    using read_tells [of s] by (auto simp: reads_def)
  have "\<forall>x \<in> set out. \<forall>a ok. x \<noteq> SendCompleted a ok" using out(2) by (auto simp: list_all_iff)
  then show ?thesis unfolding HostReadEvent
    using out by (intro silent_step_ok [OF assms(1), where out = out]) simp_all
qed

end

sublocale host_adapter \<subseteq> machine: conserving_machine "host_step ops" "host_enabled ops" "host_inv ops"
  host_awaited "host_brought ops" results_in
proof
  fix s e
  assume "host_inv ops s" and "host_enabled ops e s"
  from every_step [OF this]
  show "host_inv ops (fst (host_step ops e s))"
    and "host_awaited (fst (host_step ops e s)) + results_in (snd (host_step ops e s)) =
      host_awaited s + host_brought ops e s"
    by (simp_all add: step_ok_def host_step_def Let_def)
qed simp_all

context host_adapter begin

lemma observers_consistent:
  assumes "host_idle ops s0" and "admissible (host_enabled ops) (host_step ops) es s0"
    and "run_io (host_step ops) es s0 = (s, out)"
  shows "seen (ho_log s) = Some (hop_IsConnected ops s)"
    and "results_in out + host_awaited s = total_over (host_brought ops) (host_step ops) es s0"
    and "size (host_awaited s) \<le> 1"
proof -
  note start = host_idle_inv [OF assms(1)]
  show "seen (ho_log s) = Some (hop_IsConnected ops s)"
    using machine.run_inv [OF conjunct1 [OF start] assms(2)] assms(3) by (simp add: host_inv_def)
  show "results_in out + host_awaited s = total_over (host_brought ops) (host_step ops) es s0"
    using machine.run_conserves [OF conjunct1 [OF start] assms(2)] assms(3) start by (simp add: add.commute)
  show "size (host_awaited s) \<le> 1" by (simp add: host_awaited_def split: option.split)
qed

end

section \<open>An adapter among others\<close>

text \<open>The adapter as the interface that the selection uses, for an adapter whose \<open>Connect\<close> returns.\<close>

definition host_bus :: "('a, ('a, 'z) host) host_operations \<Rightarrow> (('a, 'z) host \<Rightarrow> int) \<Rightarrow>
    (('a, 'z) host \<Rightarrow> string list) \<Rightarrow> (('a, 'z) host \<Rightarrow> string list) \<Rightarrow> (('a, 'z) host, 'a) can_bus_adapter" where
  "host_bus ops descriptor interfaces missing =
     \<lparr>cba_Connect = \<lambda>name bitrate s. (case hop_Connect ops name bitrate s of
          None \<Rightarrow> (False, [], s) | Some (ok, s') \<Rightarrow> (ok, told s s', s')),
      cba_Disconnect = \<lambda>s. (told s (hop_Disconnect ops s), hop_Disconnect ops s),
      cba_IsConnected = hop_IsConnected ops,
      cba_SendData = \<lambda>canId data a s. (told s (hop_SendData ops canId data a s), hop_SendData ops canId data a s),
      cba_ReceiveData = ReceiveDataH,
      cba_FileDescriptor = descriptor,
      cba_ProcessReadEvent = \<lambda>s. (told s (hop_ProcessReadEvent ops s), hop_ProcessReadEvent ops s),
      cba_Interfaces = interfaces,
      cba_MissingDrivers = missing\<rparr>"

sublocale host_adapter \<subseteq> bus: bus_adapter "host_bus ops descriptor interfaces missing"
  for descriptor interfaces missing
proof
  fix w name bitrate out w'
  assume off: "\<not> cba_IsConnected (host_bus ops descriptor interfaces missing) w"
    and "cba_Connect (host_bus ops descriptor interfaces missing) name bitrate w = (True, out, w')"
  then have "hop_Connect ops name bitrate w = Some (True, w')" "out = told w w'"
    by (auto simp: host_bus_def split: option.splits prod.splits)
  then show "ConnectionChanged False \<notin> set out"
    using connect_tells [of name bitrate w True w'] off by (auto simp: host_bus_def connect_outcome_def tells_told)
next
  fix w out w'
  assume "cba_Disconnect (host_bus ops descriptor interfaces missing) w = (out, w')"
  then show "\<not> cba_IsConnected (host_bus ops descriptor interfaces missing) w'"
    using disconnect_tells [of w] by (auto simp: host_bus_def)
qed

section \<open>What an adapter holds of the system\<close>

text \<open>An operation that opens a handle that was not open before, or fails with a negative one.\<close>

definition opens :: "('k \<Rightarrow> int set) \<Rightarrow> int \<times> 'k \<Rightarrow> 'k \<Rightarrow> bool" where
  "opens fds result k \<longleftrightarrow>
     (if fst result < 0 then fds (snd result) = fds k
      else fst result \<notin> fds k \<and> fds (snd result) = insert (fst result) (fds k))"

locale leak_free_adapter = host_adapter ops
  for ops :: "('a, ('a, 'z) host) host_operations" +
  fixes balanced :: "('a, 'z) host \<Rightarrow> bool"
  assumes balanced_members: "host_members.more s = host_members.more s' \<Longrightarrow> balanced s = balanced s'"
    and connect_balanced: "balanced s \<Longrightarrow> hop_Connect ops name bitrate s = Some (ok, s') \<Longrightarrow> balanced s'"
    and disconnect_balanced: "balanced s \<Longrightarrow> balanced (hop_Disconnect ops s)"
    and send_balanced: "balanced s \<Longrightarrow> balanced (hop_SendData ops canId data a s)"
    and read_balanced: "balanced s \<Longrightarrow> balanced (hop_ProcessReadEvent ops s)"

sublocale leak_free_adapter \<subseteq> resources: io_machine "host_step ops" "host_enabled ops" balanced
proof
  fix s e
  assume s: "balanced s" and "host_enabled ops e s"
  have "balanced (ReceiveDataH s)" "balanced (RunScheduledH s)"
    using s balanced_members [of "ReceiveDataH s" s] balanced_members [of "RunScheduledH s" s] by simp_all
  then have step: "balanced (host_apply ops e s)"
  proof (cases e)
    case (HostConnect name bitrate)
    then show ?thesis using s connect_balanced [OF s] by (cases "hop_Connect ops name bitrate s") auto
  qed (simp_all add: s disconnect_balanced send_balanced read_balanced)
  then show "balanced (fst (host_step ops e s))" by (simp add: host_step_def Let_def)
qed

end
