(* ===== verification/NetlinkLaws.thy ===== *)
theory NetlinkLaws
  imports SocketCanNetlink
begin

text \<open>
  What the netlink messages guarantee.  A message is a header and a sequence of padded attributes
  (\<open>attribute\<close>, \<open>link_message\<close>): the encoders write exactly these, the loop of the decoders visits
  exactly these, and so a request reads back as what it asks for.  With a kernel that answers as its
  documentation says, the configuration of a bitrate leaves a CAN interface up at that bitrate, or
  reports an error.
\<close>

section \<open>Numbers\<close>

lemma length_host [simp]: "length (host16 v) = 2" "length (host32 w) = 4"
  by (simp_all add: host16_def host32_def)

lemma load16_host16: "length xs = n \<Longrightarrow> load16 (xs @ host16 v @ ys) n = v"
  by (rule bit_word_eqI) (auto simp: load16_def host16_def nth_append bit_simps)

lemma join_host32:
  fixes v :: u32
  shows "ucast (ucast v :: u8) OR push_bit 8 (ucast (ucast (drop_bit 8 v) :: u8)) OR
    push_bit 16 (ucast (ucast (drop_bit 16 v) :: u8)) OR push_bit 24 (ucast (ucast (drop_bit 24 v) :: u8)) = v"
    (is "?joined = v")
proof (rule bit_word_eqI)
  fix n
  assume "n < LENGTH(32)"
  then have "n < 8 \<or> 8 \<le> n \<and> n < 16 \<or> 16 \<le> n \<and> n < 24 \<or> 24 \<le> n \<and> n < 32" by simp arith
  then show "bit ?joined n = bit v n" by (elim disjE) (auto simp: bit_simps)
qed

lemma load32_host32: "length xs = n \<Longrightarrow> load32 (xs @ host32 v @ ys) n = v"
  by (simp add: load32_def host32_def nth_append join_host32 [unfolded One_nat_def])

lemma unat_of_nat_fits:
  "k < 2 ^ 16 \<Longrightarrow> unat (of_nat k :: u16) = k" "k < 2 ^ 32 \<Longrightarrow> unat (of_nat k :: u32) = k"
  by (simp_all add: unat_of_nat take_bit_nat_eq_self)

section \<open>Attributes\<close>

definition padded :: "bytes \<Rightarrow> bytes" where
  "padded v = v @ replicate (Align (length v) - length v) 0"

definition attribute :: "u16 \<Rightarrow> bytes \<Rightarrow> bytes" where
  "attribute type v = rtattr (of_nat (sizeof_rtattr + length v)) type @ padded v"

lemma length_padded [simp]: "length (padded v) = Align (length v)"
  using Align_ge [of "length v"] by (simp add: padded_def)

lemma Align_add_4: "Align (4 + n) = 4 + Align n" "Align (Suc (Suc (Suc (Suc n)))) = 4 + Align n"
  unfolding Align_def by presburger+

lemma length_rtattr [simp]: "length (rtattr len type) = 4"
  by (simp add: rtattr_def)

lemma length_attribute [simp]: "length (attribute type v) = 4 + Align (length v)"
  by (simp add: attribute_def)

lemma load_rtattr: "load16 (rtattr len type @ ys) 0 = len" "load16 (rtattr len type @ ys) 2 = type"
  using load16_host16 [of "[]" 0 len "host16 type @ ys"] load16_host16 [of "host16 len" 2 type ys]
  by (simp_all add: rtattr_def)

lemma ForEachAttribute_step:
  assumes "length v + 4 < 2 ^ 16"
  shows "ForEachAttribute f (attribute type v @ rest) s = ForEachAttribute f rest (f (AttributeType type) v s)"
proof -
  let ?as = "attribute type v @ rest"
  have l: "unat (load16 ?as 0) = 4 + length v"
    using unat_of_nat_fits(1) [of "4 + length v"] assms
    by (simp add: attribute_def load_rtattr sizes del: of_nat_add)
  have t: "load16 ?as 2 = type" by (simp add: attribute_def load_rtattr)
  have pad: "length v \<le> Align (length v)" by (rule Align_ge)
  have len: "length ?as = 4 + Align (length v) + length rest" by simp
  have "drop sizeof_rtattr (take (4 + length v) ?as) = v"
    by (simp add: attribute_def padded_def sizes)
  moreover have "drop (min (Align (4 + length v)) (length ?as)) ?as = rest"
    using len by (simp add: Align_add_4 min_def)
  moreover have "\<not> length ?as < sizeof_rtattr" "\<not> (4 + length v < sizeof_rtattr \<or> 4 + length v > length ?as)"
    using len pad by (simp_all add: sizes)
  ultimately show ?thesis
    unfolding ForEachAttribute.simps [of f ?as] Let_def l t by simp
qed

lemma ForEachAttribute_short: "length rest < 4 \<Longrightarrow> ForEachAttribute f rest s = s"
  by (simp add: ForEachAttribute.simps [of f rest] sizes)

lemma ForEachAttribute_list:
  assumes "\<forall>(type, v) \<in> set attributes. length v + 4 < 2 ^ 16" and "length rest < 4"
  shows "ForEachAttribute f (concat (map (\<lambda>(type, v). attribute type v) attributes) @ rest) s =
    fold (\<lambda>(type, v). f (AttributeType type) v) attributes s"
  using assms by (induction attributes arbitrary: s) (auto simp: ForEachAttribute_step ForEachAttribute_short)

lemma ForEachAttribute_one:
  "length v + 4 < 2 ^ 16 \<Longrightarrow> ForEachAttribute f (attribute type v) s = f (AttributeType type) v s"
  using ForEachAttribute_step [of v f type "[]"] ForEachAttribute_short [of "[]" f] by simp

lemma padded_aligned: "4 dvd length v \<Longrightarrow> padded v = v"
  by (auto simp: padded_def Align_def elim!: dvdE)

section \<open>Messages\<close>

definition link_message :: "u16 \<Rightarrow> u16 \<Rightarrow> u32 \<Rightarrow> int \<Rightarrow> u32 \<Rightarrow> u32 \<Rightarrow> bytes \<Rightarrow> bytes" where
  "link_message type flags seq interfaceIndex linkFlags change attributes =
     nlmsghdr (of_nat (32 + length attributes)) type flags seq @
     ifinfomsg interfaceIndex linkFlags change @ attributes"

definition bitrate_attributes :: "u32 \<Rightarrow> bytes" where
  "bitrate_attributes bitrate =
     attribute (ifla_linkinfo OR nla_f_nested)
       (attribute ifla_info_kind can_kind @
        attribute (ifla_info_data OR nla_f_nested) (attribute ifla_can_bittiming (can_bittiming bitrate)))"

definition acknowledgement :: "int \<Rightarrow> bytes" where
  "acknowledgement code = nlmsghdr 20 nlmsg_error 0 0 @ host32 (word_of_int code)"

lemma length_can_kind [simp]: "length can_kind = 3"
  by (simp add: can_kind_def)

lemma length_headers [simp]:
  "length (nlmsghdr len type flags seq) = 16" "length (ifinfomsg index linkFlags change) = 16"
  "length (can_bittiming bitrate) = 32"
  by (simp_all add: nlmsghdr_def ifinfomsg_def can_bittiming_def)

lemma Align_values: "Align 3 = 4" "Align 4 = 4" "Align 12 = 12" "Align 16 = 16" "Align 32 = 32" "Align 36 = 36" "Align 48 = 48"
  by (simp_all add: Align_def)

lemma length_bitrate_attributes [simp]: "length (bitrate_attributes bitrate) = 52"
  by (simp add: bitrate_attributes_def Align_values)

lemma load_nlmsghdr:
  "load32 (nlmsghdr len type flags seq @ ys) 0 = len" "load16 (nlmsghdr len type flags seq @ ys) 4 = type"
  using load32_host32 [of "[]" 0 len "host16 type @ host16 flags @ host32 seq @ host32 0 @ ys"]
    load16_host16 [of "host32 len" 4 type "host16 flags @ host32 seq @ host32 0 @ ys"]
  by (simp_all add: nlmsghdr_def)

lemma ForEachMessage_first:
  assumes "length payload + 16 < 2 ^ 32"
  shows "ForEachMessage f (nlmsghdr (of_nat (16 + length payload)) type flags seq @ payload) s =
    snd (f type payload s)"
proof -
  let ?m = "nlmsghdr (of_nat (16 + length payload)) type flags seq @ payload"
  have l: "unat (load32 ?m 0) = 16 + length payload"
    using unat_of_nat_fits(2) [of "16 + length payload"] assms by (simp add: load_nlmsghdr del: of_nat_add)
  have t: "load16 ?m 4 = type" by (rule load_nlmsghdr)
  have "length ?m \<le> Align (16 + length payload)" using Align_ge [of "16 + length payload"] by simp
  then have "drop (min (Align (16 + length payload)) (length ?m)) ?m = []" by simp
  then have rest: "ForEachMessage f (drop (min (Align (16 + length payload)) (length ?m)) ?m) s' = s'" for s'
    by (simp add: ForEachMessage.simps [of f "[]"] sizes)
  show ?thesis
    unfolding ForEachMessage.simps [of f ?m] Let_def l t rest
    by (simp add: sizes split: prod.split bool.split)
qed

lemma types_masked:
  "AttributeType ifla_linkinfo = ifla_linkinfo" "AttributeType (ifla_linkinfo OR nla_f_nested) = ifla_linkinfo"
  "AttributeType ifla_info_kind = ifla_info_kind" "AttributeType (ifla_info_data OR nla_f_nested) = ifla_info_data"
  "AttributeType ifla_can_bittiming = ifla_can_bittiming"
  by (simp_all add: AttributeType_def netlink_constants)

lemma DecodeBitrate_timing: "DecodeBitrate (attribute ifla_can_bittiming (can_bittiming bitrate)) = Some bitrate"
  using load32_host32 [of "[]" 0 bitrate]
  by (simp add: DecodeBitrate_def ForEachAttribute_one types_masked sizes) (simp add: can_bittiming_def)

lemma IsCanKind_can: "IsCanKind can_kind"
  by (simp add: IsCanKind_def can_kind_def)

lemma DecodeLinkInfo_bitrate:
  "DecodeLinkInfo (attribute ifla_info_kind can_kind @
      attribute (ifla_info_data OR nla_f_nested) (attribute ifla_can_bittiming (can_bittiming bitrate))) l =
    l\<lparr>ls_isCan := True, ls_bitrate := Some bitrate\<rparr>"
proof -
  have "ifla_info_data \<noteq> ifla_info_kind" by (simp add: netlink_constants)
  then show ?thesis
    by (simp add: DecodeLinkInfo_def ForEachAttribute_step ForEachAttribute_one types_masked
        Align_values DecodeBitrate_timing IsCanKind_can)
qed

lemma load_ifinfomsg: "load32 (ifinfomsg index linkFlags change @ ys) 8 = linkFlags"
  using load32_host32 [of "[0, 0, 0, 0] @ host32 (word_of_int index)" 8 linkFlags "host32 change @ ys"]
  by (simp add: ifinfomsg_def)

lemma DecodeLink_message:
  assumes "length attributes < 2 ^ 16"
  shows "DecodeLink (link_message rtm_newlink flags seq index linkFlags change attributes) =
    DecodeLinkMessage (ifinfomsg index linkFlags change @ attributes)"
  unfolding DecodeLink_def link_message_def
  using assms by (simp add: ForEachMessage_first [of "ifinfomsg index linkFlags change @ attributes", simplified])

lemma DecodeLink_bitrate:
  "DecodeLink (link_message rtm_newlink flags seq index linkFlags change (bitrate_attributes bitrate)) =
    Some \<lparr>ls_isCan = True, ls_up = (linkFlags AND iff_up \<noteq> 0), ls_bitrate = Some bitrate\<rparr>"
  unfolding DecodeLink_message [of "bitrate_attributes bitrate", simplified]
  by (simp add: DecodeLinkMessage_def Let_def sizes load_ifinfomsg Align_values bitrate_attributes_def
      ForEachAttribute_one types_masked DecodeLinkInfo_bitrate)

lemma DecodeLink_plain:
  "DecodeLink (link_message rtm_newlink flags seq index linkFlags change []) =
    Some \<lparr>ls_isCan = False, ls_up = (linkFlags AND iff_up \<noteq> 0), ls_bitrate = None\<rparr>"
  using load_ifinfomsg [of index linkFlags change "[]"]
  by (simp add: DecodeLink_message DecodeLinkMessage_def Let_def sizes Align_values ForEachAttribute_short)

lemma DecodeLink_get:
  "DecodeLink (link_message rtm_getlink flags seq index linkFlags change []) = None"
  unfolding DecodeLink_def link_message_def
  by (simp add: ForEachMessage_first [of "ifinfomsg index linkFlags change", simplified]) (simp add: netlink_constants)

lemma DecodeAcknowledgement_eq:
  assumes "- (2 ^ 31) \<le> code" and "code < 2 ^ 31"
  shows "DecodeAcknowledgement (acknowledgement code) = Some (- code)"
  using load32_host32 [of "[]" 0 "word_of_int code" "[]"] assms
  by (simp add: DecodeAcknowledgement_def acknowledgement_def signed_of_int signed_take_bit_int_eq_self_iff
      ForEachMessage_first [of "host32 (word_of_int code)", simplified])

section \<open>The encoders\<close>

text \<open>A valid writer holds what was written, then zeros.\<close>

definition holds :: "nat \<Rightarrow> bytes \<Rightarrow> message_writer" where
  "holds n content = \<lparr>mw_buffer = content @ replicate (n - length content) 0,
     mw_size = length content, mw_valid = True\<rparr>"

lemma MessageWriter_holds: "MessageWriter buffer = holds (length buffer) []"
  by (simp add: MessageWriter_def holds_def)

lemma PutBytes_holds:
  assumes "length content + Align (length data) \<le> n"
  shows "PutBytes data (holds n content) = holds n (content @ padded data)"
proof -
  have fits: "length data \<le> Align (length data)" by (rule Align_ge)
  then have gap: "n - (length data + length content) =
      (Align (length data) - length data) + (n - (length content + Align (length data)))"
    using assms by linarith
  have "replicate (n - (length data + length content)) (0 :: u8) =
      replicate (Align (length data) - length data) 0 @ replicate (n - (length content + Align (length data))) 0"
    unfolding gap by (rule replicate_add)
  then show ?thesis using assms le_add_diff_inverse [OF fits]
    by (simp add: PutBytes_def holds_def memcpy_def padded_def add.commute)
qed

lemma PutBytes_full:
  assumes "mw_valid (PutBytes data w)"
  shows "mw_valid w" and "mw_size w + Align (length data) \<le> length (mw_buffer w)"
    and "mw_size (PutBytes data w) = mw_size w + Align (length data)"
    and "length (mw_buffer (PutBytes data w)) = length (mw_buffer w)"
proof -
  have "length data \<le> Align (length data)" by (rule Align_ge)
  then show "mw_valid w" "mw_size w + Align (length data) \<le> length (mw_buffer w)"
    "mw_size (PutBytes data w) = mw_size w + Align (length data)"
    "length (mw_buffer (PutBytes data w)) = length (mw_buffer w)"
    using assms by (auto simp: PutBytes_def memcpy_def split: if_splits)
qed

lemma padded_4 [simp]: "padded (rtattr len type) = rtattr len type" "padded (nlmsghdr a b c d) = nlmsghdr a b c d"
    "padded (ifinfomsg e f g) = ifinfomsg e f g" "padded (can_bittiming h) = can_bittiming h"
  by (rule padded_aligned, simp)+

lemma memcpy_middle: "length old = length new \<Longrightarrow> memcpy (xs @ old @ ys) (length xs) new = xs @ new @ ys"
  by (simp add: memcpy_def)

lemma EndNest_holds:
  assumes "length content = start" and "start + 4 + length rest \<le> n"
  shows "EndNest start (holds n (content @ rtattr 0 type @ rest)) =
    holds n (content @ rtattr (of_nat (4 + length rest)) type @ rest)"
  using assms memcpy_middle [of "host16 0" "host16 (of_nat (4 + length rest))" content]
  by (simp add: EndNest_def PatchLength_def holds_def rtattr_def)

lemma Finish_holds:
  assumes "length (nlmsghdr 0 a b c @ rest) \<le> n"
  shows "Finish (holds n (nlmsghdr 0 a b c @ rest)) =
    (16 + length rest, nlmsghdr (of_nat (16 + length rest)) a b c @ rest @ replicate (n - (16 + length rest)) 0)"
  using assms memcpy_middle [of "host32 0" "host32 (of_nat (16 + length rest))" "[]"]
  by (simp add: Finish_def PatchLength_def holds_def nlmsghdr_def)

lemma Finish_invalid: "\<not> mw_valid w \<Longrightarrow> fst (Finish w) = 0"
  by (simp add: Finish_def PatchLength_def Let_def)

lemma StartLinkMessage_holds:
  assumes "32 \<le> length buffer"
  shows "StartLinkMessage buffer type flags index seq linkFlags change =
    holds (length buffer) (nlmsghdr 0 type flags seq @ ifinfomsg index linkFlags change)"
  using assms by (simp add: StartLinkMessage_def MessageWriter_holds PutBytes_holds Align_values)

lemma PutAttribute_holds:
  assumes "length content + 4 + Align (length data) \<le> n"
  shows "PutAttribute type data (holds n content) = holds n (content @ attribute type data)"
  using assms by (simp add: PutAttribute_def PutBytes_holds Align_values attribute_def)

lemma BeginNest_holds:
  assumes "length content + 4 \<le> n"
  shows "BeginNest type (holds n content) = (length content, holds n (content @ rtattr 0 (type OR nla_f_nested)))"
  using assms by (simp add: BeginNest_def PutBytes_holds Align_values) (simp add: holds_def)

lemma EncodeGetLink_eq:
  assumes "32 \<le> length buffer"
  shows "EncodeGetLink buffer index seq =
    (32, link_message rtm_getlink nlm_f_request seq index 0 0 [] @ replicate (length buffer - 32) 0)"
  using assms Finish_holds [of rtm_getlink nlm_f_request seq "ifinfomsg index 0 0" "length buffer"]
  by (simp add: EncodeGetLink_def StartLinkMessage_holds link_message_def)

lemma EncodeSetLinkUp_eq:
  assumes "32 \<le> length buffer"
  shows "EncodeSetLinkUp buffer index up seq =
    (32, link_message rtm_newlink (nlm_f_request OR nlm_f_ack) seq index (if up then iff_up else 0) iff_up [] @
      replicate (length buffer - 32) 0)"
  using assms Finish_holds [of rtm_newlink _ seq "ifinfomsg index _ iff_up" "length buffer"]
  by (simp add: EncodeSetLinkUp_def StartLinkMessage_holds link_message_def)

lemma EncodeSetBitrate_eq:
  assumes "84 \<le> length buffer"
  shows "EncodeSetBitrate buffer index bitrate seq =
    (84, link_message rtm_newlink (nlm_f_request OR nlm_f_ack) seq index 0 0 (bitrate_attributes bitrate) @
      replicate (length buffer - 84) 0)"
proof -
  let ?n = "length buffer" and ?li = "ifla_linkinfo OR nla_f_nested" and ?da = "ifla_info_data OR nla_f_nested"
  let ?kind = "attribute ifla_info_kind can_kind" and ?timing = "attribute ifla_can_bittiming (can_bittiming bitrate)"
  let ?flags = "nlm_f_request OR nlm_f_ack"
  let ?start = "nlmsghdr 0 rtm_newlink ?flags seq @ ifinfomsg index 0 0"
  have inner: "EndNest 44 (holds ?n ((?start @ rtattr 0 ?li @ ?kind) @ rtattr 0 ?da @ ?timing)) =
      holds ?n ((?start @ rtattr 0 ?li @ ?kind) @ rtattr (of_nat (4 + length ?timing)) ?da @ ?timing)"
    by (rule EndNest_holds) (use assms in \<open>simp_all add: Align_values\<close>)
  have nested: "rtattr (of_nat (4 + length ?timing)) ?da @ ?timing = attribute ?da ?timing"
    by (simp add: attribute_def sizes padded_aligned Align_values)
  have outer: "EndNest 32 (holds ?n (?start @ rtattr 0 ?li @ ?kind @ attribute ?da ?timing)) =
      holds ?n (?start @ rtattr (of_nat (4 + length (?kind @ attribute ?da ?timing))) ?li @ ?kind @ attribute ?da ?timing)"
    by (rule EndNest_holds) (use assms in \<open>simp_all add: Align_values\<close>)
  have whole: "rtattr (of_nat (4 + length (?kind @ attribute ?da ?timing))) ?li @ ?kind @ attribute ?da ?timing =
      bitrate_attributes bitrate"
    by (simp add: bitrate_attributes_def attribute_def [of ?li] sizes padded_aligned Align_values)
  have "EncodeSetBitrate buffer index bitrate seq =
      Finish (EndNest 32 (EndNest 44 (holds ?n ((?start @ rtattr 0 ?li @ ?kind) @ rtattr 0 ?da @ ?timing))))"
    using assms by (simp add: EncodeSetBitrate_def StartLinkMessage_holds BeginNest_holds PutAttribute_holds Align_values)
  also have "\<dots> = Finish (holds ?n (?start @ bitrate_attributes bitrate))"
    using inner nested outer whole by (simp del: length_attribute)
  also have "\<dots> = (84, link_message rtm_newlink ?flags seq index 0 0 (bitrate_attributes bitrate) @ replicate (?n - 84) 0)"
    using assms Finish_holds [of rtm_newlink ?flags seq "ifinfomsg index 0 0 @ bitrate_attributes bitrate" ?n]
    by (simp add: link_message_def)
  finally show ?thesis .
qed

lemma StartLinkMessage_full:
  assumes "mw_valid (StartLinkMessage buffer type flags index seq linkFlags change)"
  shows "32 \<le> length buffer"
    and "mw_size (StartLinkMessage buffer type flags index seq linkFlags change) = 32"
    and "length (mw_buffer (StartLinkMessage buffer type flags index seq linkFlags change)) = length buffer"
  using PutBytes_full [OF assms [unfolded StartLinkMessage_def]]
    PutBytes_full [of "nlmsghdr 0 type flags seq" "MessageWriter buffer"]
  by (simp_all add: MessageWriter_def Align_values StartLinkMessage_def)

lemma EncodeSetBitrate_small:
  assumes "length buffer < 84"
  shows "fst (EncodeSetBitrate buffer index bitrate seq) = 0"
proof -
  let ?w = "StartLinkMessage buffer rtm_newlink (nlm_f_request OR nlm_f_ack) index seq 0 0"
  define w1 where "w1 = PutBytes (rtattr 0 (ifla_linkinfo OR nla_f_nested)) ?w"
  define w2 where "w2 = PutBytes (rtattr 7 ifla_info_kind) w1"
  define w3 where "w3 = PutBytes can_kind w2"
  define w4 where "w4 = PutBytes (rtattr 0 (ifla_info_data OR nla_f_nested)) w3"
  define w5 where "w5 = PutBytes (rtattr 36 ifla_can_bittiming) w4"
  define w6 where "w6 = PutBytes (can_bittiming bitrate) w5"
  have "\<not> mw_valid w6"
  proof
    assume "mw_valid w6"
    note v6 = PutBytes_full [OF this [unfolded w6_def]]
    note v5 = PutBytes_full [OF v6(1) [unfolded w5_def]]
    note v4 = PutBytes_full [OF v5(1) [unfolded w4_def]]
    note v3 = PutBytes_full [OF v4(1) [unfolded w3_def]]
    note v2 = PutBytes_full [OF v3(1) [unfolded w2_def]]
    note v1 = PutBytes_full [OF v2(1) [unfolded w1_def]]
    note v0 = StartLinkMessage_full [OF v1(1)]
    have "mw_size w1 = 36" "length (mw_buffer w1) = length buffer"
      using v1 v0 by (simp_all add: w1_def Align_values)
    then have "mw_size w2 = 40" "length (mw_buffer w2) = length buffer"
      using v2 by (simp_all add: w2_def Align_values)
    then have "mw_size w3 = 44" "length (mw_buffer w3) = length buffer"
      using v3 by (simp_all add: w3_def Align_values)
    then have "mw_size w4 = 48" "length (mw_buffer w4) = length buffer"
      using v4 by (simp_all add: w4_def Align_values)
    then have "mw_size w5 = 52" "length (mw_buffer w5) = length buffer"
      using v5 by (simp_all add: w5_def Align_values)
    then show False using v6(2) assms by (simp add: Align_values)
  qed
  moreover have "mw_valid (EndNest k w) = mw_valid w" for k w
    by (simp add: EndNest_def PatchLength_def)
  ultimately show ?thesis
    by (auto simp: EncodeSetBitrate_def BeginNest_def PutAttribute_def sizes Let_def w6_def w5_def w4_def w3_def
        w2_def w1_def intro!: Finish_invalid)
qed

lemma link_requests_small:
  assumes "length buffer < 32"
  shows "fst (EncodeGetLink buffer index seq) = 0" and "fst (EncodeSetLinkUp buffer index up seq) = 0"
  using assms StartLinkMessage_full(1) Finish_invalid
  by (force simp: EncodeGetLink_def EncodeSetLinkUp_def)+

section \<open>A kernel that keeps its word\<close>

text \<open>The exchange of one request.  A kernel obeys the protocol for an interface with link state \<open>link\<close>
  when a query is answered with the link state and changes nothing, a change of the link is
  acknowledged with an error number, and the link has the new value when the number is zero and is
  unchanged otherwise.  Opening and closing a socket do not touch the link.\<close>

definition answered :: "'k route_kernel \<Rightarrow> int \<Rightarrow> bytes \<Rightarrow> 'k \<Rightarrow> bytes \<Rightarrow> 'k \<Rightarrow> bool" where
  "answered K d req k answer k' \<longleftrightarrow>
     (\<exists>k1. rk_send K d req k = (int (length req), k1) \<and> rk_recv K d responseSize k1 = (Some answer, k')) \<and> answer \<noteq> []"

definition link_query :: "int \<Rightarrow> u32 \<Rightarrow> bytes" where
  "link_query index seq = link_message rtm_getlink nlm_f_request seq index 0 0 []"

definition up_request :: "int \<Rightarrow> bool \<Rightarrow> u32 \<Rightarrow> bytes" where
  "up_request index up seq =
     link_message rtm_newlink (nlm_f_request OR nlm_f_ack) seq index (if up then iff_up else 0) iff_up []"

definition bitrate_request :: "int \<Rightarrow> u32 \<Rightarrow> u32 \<Rightarrow> bytes" where
  "bitrate_request index bitrate seq =
     link_message rtm_newlink (nlm_f_request OR nlm_f_ack) seq index 0 0 (bitrate_attributes bitrate)"

definition changed :: "'k route_kernel \<Rightarrow> ('k \<Rightarrow> link_state) \<Rightarrow> (u32 \<Rightarrow> bytes) \<Rightarrow> (link_state \<Rightarrow> link_state) \<Rightarrow> bool" where
  "changed K link request change \<longleftrightarrow>
     (\<forall>d seq k. \<exists>answer k' error. answered K d (request seq) k answer k' \<and>
        DecodeAcknowledgement answer = Some error \<and>
        link k' = (if error = 0 then change (link k) else link k))"

definition kernel_obeys :: "'k route_kernel \<Rightarrow> ('k \<Rightarrow> link_state) \<Rightarrow> int \<Rightarrow> bool" where
  "kernel_obeys K link index \<longleftrightarrow>
     (\<forall>d seq k. \<exists>answer k'. answered K d (link_query index seq) k answer k' \<and>
        DecodeLink answer = Some (link k) \<and> link k' = link k) \<and>
     (\<forall>up. changed K link (up_request index up) (\<lambda>l. l\<lparr>ls_up := up\<rparr>)) \<and>
     (\<forall>bitrate. changed K link (bitrate_request index bitrate) (\<lambda>l. l\<lparr>ls_bitrate := Some bitrate\<rparr>)) \<and>
     (\<forall>k. 0 \<le> fst (rk_socket K k) \<and> link (snd (rk_socket K k)) = link k) \<and>
     (\<forall>d k. link (rk_setTimeout K d k) = link k \<and> link (rk_close K d k) = link k)"

definition socket_ready :: "route_socket \<Rightarrow> bool" where
  "socket_ready r \<longleftrightarrow> 0 \<le> rs_descriptor r \<and> length (rs_request r) = requestSize"

lemma length_link_message [simp]: "length (link_message a b c d e f attributes) = 32 + length attributes"
  by (simp add: link_message_def)

lemma link_message_nonempty [simp]: "link_message a b c d e f attributes \<noteq> []"
proof
  assume "link_message a b c d e f attributes = []"
  then have "length (link_message a b c d e f attributes) = 0" by simp
  then show False by simp
qed

lemma Exchange_answered:
  assumes "socket_ready r" and "answered K (rs_descriptor r) req k answer k'"
    and "rs_request r = req @ rest" and "req \<noteq> []"
  shows "Exchange K (length req) r k = (Some answer, k')"
  using assms by (auto simp: Exchange_def answered_def socket_ready_def)

lemma QueryLink_obeys:
  assumes "kernel_obeys K link index" and "socket_ready r"
  shows "\<exists>r' k'. QueryLink K index r k = (Some (link k), r', k') \<and> link k' = link k \<and> socket_ready r'"
proof -
  let ?seq = "rs_sequence r + 1" and ?n = "requestSize - 32"
  let ?r = "r\<lparr>rs_sequence := ?seq, rs_request := link_query index ?seq @ replicate ?n 0\<rparr>"
  from assms obtain answer k' where a: "answered K (rs_descriptor r) (link_query index ?seq) k answer k'"
    "DecodeLink answer = Some (link k)" "link k' = link k" unfolding kernel_obeys_def by blast
  have ready: "socket_ready ?r" using assms(2) by (simp add: socket_ready_def link_query_def requestSize_def)
  have "Exchange K (length (link_query index ?seq)) ?r k = (Some answer, k')"
    by (rule Exchange_answered [OF ready]) (use a in \<open>simp_all add: link_query_def\<close>)
  then have "QueryLink K index r k = (Some (link k), ?r, k')"
    using assms(2) a(2) EncodeGetLink_eq [of "rs_request r" index ?seq]
    by (simp add: QueryLink_def with_request_def Let_def socket_ready_def requestSize_def link_query_def)
  then show ?thesis using a(3) ready by blast
qed

lemma change_obeys:
  assumes "changed K link request change" and "socket_ready r"
    and "with_request encode r = (length (request seq), r\<lparr>rs_sequence := seq, rs_request := request seq @ rest\<rparr>)"
    and "request seq \<noteq> []" and "length (request seq @ rest) = requestSize"
    and "\<And>k. f k = (case with_request encode r of (n, r) \<Rightarrow> case Acknowledge K n r k of (error, k) \<Rightarrow> (error, r, k))"
  shows "\<exists>error r' k'. f k = (error, r', k') \<and> socket_ready r' \<and>
    link k' = (if error = 0 then change (link k) else link k)"
proof -
  let ?r = "r\<lparr>rs_sequence := seq, rs_request := request seq @ rest\<rparr>"
  from assms(1) obtain answer k' error where a: "answered K (rs_descriptor r) (request seq) k answer k'"
    "DecodeAcknowledgement answer = Some error" "link k' = (if error = 0 then change (link k) else link k)"
    unfolding changed_def by blast
  have ready: "socket_ready ?r" using assms(2,5) by (simp add: socket_ready_def)
  have "Exchange K (length (request seq)) ?r k = (Some answer, k')"
    by (rule Exchange_answered [OF ready]) (use a(1) assms(4) in simp_all)
  then have "f k = (error, ?r, k')"
    using assms(3,6) a(2) by (simp add: Acknowledge_def)
  then show ?thesis using a(3) ready by blast
qed

lemma SetLinkUp_obeys:
  assumes "kernel_obeys K link index" and "socket_ready r"
  shows "\<exists>error r' k'. SetLinkUp K index up r k = (error, r', k') \<and> socket_ready r' \<and>
    link k' = (if error = 0 then (link k)\<lparr>ls_up := up\<rparr> else link k)"
proof (rule change_obeys [where encode = "EncodeSetLinkUp (rs_request r) index up" and seq = "rs_sequence r + 1"
      and rest = "replicate (requestSize - 32) 0" and f = "SetLinkUp K index up r"])
  show "changed K link (up_request index up) (\<lambda>l. l\<lparr>ls_up := up\<rparr>)"
    using assms(1) by (simp add: kernel_obeys_def)
  show "up_request index up (rs_sequence r + 1) \<noteq> []"
    by (simp add: up_request_def)
qed (use assms(2) in \<open>simp_all add: SetLinkUp_def with_request_def Let_def EncodeSetLinkUp_eq socket_ready_def
      requestSize_def up_request_def\<close>)

lemma SetBitrate_obeys:
  assumes "kernel_obeys K link index" and "socket_ready r"
  shows "\<exists>error r' k'. SetBitrate K index bitrate r k = (error, r', k') \<and> socket_ready r' \<and>
    link k' = (if error = 0 then (link k)\<lparr>ls_bitrate := Some bitrate\<rparr> else link k)"
proof (rule change_obeys [where encode = "EncodeSetBitrate (rs_request r) index bitrate" and seq = "rs_sequence r + 1"
      and rest = "replicate (requestSize - 84) 0" and f = "SetBitrate K index bitrate r"])
  show "changed K link (bitrate_request index bitrate) (\<lambda>l. l\<lparr>ls_bitrate := Some bitrate\<rparr>)"
    using assms(1) by (simp add: kernel_obeys_def)
  show "bitrate_request index bitrate (rs_sequence r + 1) \<noteq> []"
    by (simp add: bitrate_request_def)
qed (use assms(2) in \<open>simp_all add: SetBitrate_def with_request_def Let_def EncodeSetBitrate_eq socket_ready_def
      requestSize_def bitrate_request_def\<close>)

lemma configure_obeys:
  assumes "kernel_obeys K link index" and "socket_ready r"
  shows "\<exists>error r' k'. configure K index bitrate r k = (error, r', k') \<and> socket_ready r' \<and>
    (if \<not> ls_isCan (link k) \<or> ls_up (link k) \<and> ls_bitrate (link k) = Some bitrate
     then error = 0 \<and> link k' = link k
     else if error = 0 then link k' = (link k)\<lparr>ls_up := True, ls_bitrate := Some bitrate\<rparr>
     else (\<exists>up. link k' = (link k)\<lparr>ls_up := up\<rparr>) \<or>
       link k' = (link k)\<lparr>ls_up := False, ls_bitrate := Some bitrate\<rparr>)"
proof -
  obtain r1 k1 where q: "QueryLink K index r k = (Some (link k), r1, k1)" "link k1 = link k" "socket_ready r1"
    using QueryLink_obeys [OF assms] by blast
  show ?thesis
  proof (cases "\<not> ls_isCan (link k) \<or> ls_up (link k) \<and> ls_bitrate (link k) = Some bitrate")
    case True
    then show ?thesis using q by (simp add: configure_def)
  next
    case False
    obtain e1 r2 k2 where d: "SetLinkUp K index False r1 k1 = (e1, r2, k2)" "socket_ready r2"
      "link k2 = (if e1 = 0 then (link k1)\<lparr>ls_up := False\<rparr> else link k1)"
      using SetLinkUp_obeys [OF assms(1) q(3)] by blast
    obtain e2 r3 k3 where b: "SetBitrate K index bitrate r2 k2 = (e2, r3, k3)" "socket_ready r3"
      "link k3 = (if e2 = 0 then (link k2)\<lparr>ls_bitrate := Some bitrate\<rparr> else link k2)"
      using SetBitrate_obeys [OF assms(1) d(2)] by blast
    obtain e3 r4 k4 where u: "SetLinkUp K index True r3 k3 = (e3, r4, k4)" "socket_ready r4"
      "link k4 = (if e3 = 0 then (link k3)\<lparr>ls_up := True\<rparr> else link k3)"
      using SetLinkUp_obeys [OF assms(1) b(2)] by blast
    have c: "configure K index bitrate r k =
        (if e1 \<noteq> 0 then (e1, r2, k2) else if e2 \<noteq> 0 then (e2, r4, k4) else (e3, r4, k4))"
      by (simp only: configure_def q(1) d(1) b(1) u(1) prod.case option.case False [THEN Eq_FalseI] if_False)
    consider "e1 \<noteq> 0" | "e1 = 0" "e2 \<noteq> 0" | "e1 = 0" "e2 = 0" by blast
    then show ?thesis
    proof cases
      case 1
      then have "link k2 = link k" using q(2) d(3) by simp
      then have "\<exists>up. link k2 = (link k)\<lparr>ls_up := up\<rparr>"
        by (intro exI [of _ "ls_up (link k)"]) simp
      then show ?thesis using c 1 False d(2) by simp
    next
      case 2
      then have "link k4 = (link k)\<lparr>ls_up := e3 = 0\<rparr>" using q(2) d(3) b(3) u(3) by simp
      then show ?thesis using c 2 False u(2) by auto
    next
      case 3
      then have "link k4 = (link k)\<lparr>ls_up := e3 = 0, ls_bitrate := Some bitrate\<rparr>" using q(2) d(3) b(3) u(3) by simp
      then show ?thesis using c 3 False u(2) by (cases "e3 = 0") auto
    qed
  qed
qed

section \<open>Properties\<close>

text \<open>The requests to the kernel are well formed.  A buffer that is large enough holds exactly the
  message, with its length in the header, and the rest zeros; read back, a request to set a bitrate
  is a CAN link with that bitrate and a request to change a link is one with that flag; a query is
  not mistaken for a link.  A buffer that is too small gives no message at all.\<close>

theorem link_requests_round_trip:
  "(case EncodeSetBitrate buffer index bitrate seq of (n, out) \<Rightarrow>
      if length buffer < 84 then n = 0
      else n = 84 \<and> length out = length buffer \<and> load32 out 0 = of_nat n \<and> DecodeLink (take n out) =
          Some \<lparr>ls_isCan = True, ls_up = False, ls_bitrate = Some bitrate\<rparr>) \<and>
   (case EncodeSetLinkUp buffer index up seq of (n, out) \<Rightarrow>
      if length buffer < 32 then n = 0
      else n = 32 \<and> length out = length buffer \<and> load32 out 0 = of_nat n \<and> DecodeLink (take n out) =
          Some \<lparr>ls_isCan = False, ls_up = up, ls_bitrate = None\<rparr>) \<and>
   (case EncodeGetLink buffer index seq of (n, out) \<Rightarrow>
      if length buffer < 32 then n = 0
      else n = 32 \<and> length out = length buffer \<and> load32 out 0 = of_nat n \<and> DecodeLink (take n out) = None)"
proof (intro conjI)
  have header: "load32 (link_message a b c d e f attributes @ rest) 0 = of_nat (32 + length attributes)"
    for a b c d e f attributes rest
    by (simp add: link_message_def load_nlmsghdr del: of_nat_add)
  show "case EncodeSetBitrate buffer index bitrate seq of (n, out) \<Rightarrow>
      if length buffer < 84 then n = 0
      else n = 84 \<and> length out = length buffer \<and> load32 out 0 = of_nat n \<and> DecodeLink (take n out) =
          Some \<lparr>ls_isCan = True, ls_up = False, ls_bitrate = Some bitrate\<rparr>"
    using EncodeSetBitrate_small [of buffer index bitrate seq]
    by (cases "length buffer < 84") (auto simp: EncodeSetBitrate_eq header DecodeLink_bitrate split: prod.splits)
  have bits: "(if up then iff_up else 0) AND iff_up \<noteq> 0 \<longleftrightarrow> up" by (simp add: iff_up_def)
  show "case EncodeSetLinkUp buffer index up seq of (n, out) \<Rightarrow>
      if length buffer < 32 then n = 0
      else n = 32 \<and> length out = length buffer \<and> load32 out 0 = of_nat n \<and> DecodeLink (take n out) =
          Some \<lparr>ls_isCan = False, ls_up = up, ls_bitrate = None\<rparr>"
    using link_requests_small(2) [of buffer index up seq]
    by (cases "length buffer < 32") (auto simp: EncodeSetLinkUp_eq header DecodeLink_plain bits split: prod.splits if_splits)
  show "case EncodeGetLink buffer index seq of (n, out) \<Rightarrow>
      if length buffer < 32 then n = 0
      else n = 32 \<and> length out = length buffer \<and> load32 out 0 = of_nat n \<and> DecodeLink (take n out) = None"
    using link_requests_small(1) [of buffer index seq]
    by (cases "length buffer < 32") (auto simp: EncodeGetLink_eq header DecodeLink_get split: prod.splits)
qed

text \<open>The configuration of a bitrate, with a kernel that keeps to its protocol.  An interface that is
  no CAN controller, or is up at that bitrate already, is left alone, without an error.  Without an
  error, any other interface is up at the bitrate afterwards and nothing else has changed; with an
  error it is not up at a bitrate that nobody asked for: it has the bitrate it had, or is down.\<close>

lemma ConfigureBitrate_obeys:
  assumes "kernel_obeys K link index" and "ConfigureBitrate K index bitrate k = (error, k')"
  shows "if \<not> ls_isCan (link k) \<or> ls_up (link k) \<and> ls_bitrate (link k) = Some bitrate
     then error = 0 \<and> link k' = link k
     else if error = 0 then link k' = (link k)\<lparr>ls_up := True, ls_bitrate := Some bitrate\<rparr>
     else (\<exists>up. link k' = (link k)\<lparr>ls_up := up\<rparr>) \<or>
       link k' = (link k)\<lparr>ls_up := False, ls_bitrate := Some bitrate\<rparr>"
proof -
  obtain d k1 where s: "rk_socket K k = (d, k1)" by fastforce
  have o: "0 \<le> d" "link k1 = link k"
    using assms(1) s by (auto simp: kernel_obeys_def dest!: spec [of _ k])
  let ?r = "\<lparr>rs_descriptor = d, rs_sequence = 0, rs_request = replicate requestSize 0\<rparr>"
  let ?k = "rk_setTimeout K d k1"
  have quiet: "link (rk_setTimeout K d' x) = link x" "link (rk_close K d' x) = link x" for d' x
    using assms(1) by (simp_all add: kernel_obeys_def)
  have "socket_ready ?r" using o by (simp add: socket_ready_def)
  from configure_obeys [OF assms(1) this, of bitrate ?k] obtain e r2 k2
    where c: "configure K index bitrate ?r ?k = (e, r2, k2)"
      "if \<not> ls_isCan (link ?k) \<or> ls_up (link ?k) \<and> ls_bitrate (link ?k) = Some bitrate
       then e = 0 \<and> link k2 = link ?k
       else if e = 0 then link k2 = (link ?k)\<lparr>ls_up := True, ls_bitrate := Some bitrate\<rparr>
       else (\<exists>up. link k2 = (link ?k)\<lparr>ls_up := up\<rparr>) \<or>
         link k2 = (link ?k)\<lparr>ls_up := False, ls_bitrate := Some bitrate\<rparr>" by blast
  have "error = e" "link k' = link k2"
    using assms(2) s o c(1) by (auto simp: ConfigureBitrate_def RouteSocket_def RouteIsOpen_def RouteSocket_destroy_def quiet)
  moreover have "link ?k = link k" using quiet(1) o(2) by simp
  ultimately show ?thesis using c(2) by (simp only:)
qed

text \<open>A kernel with one CAN interface, which accepts every request: whether the interface is up, its
  bitrate, and the answer that waits to be received.\<close>

definition sample_link :: "bool \<times> u32 \<times> bytes \<Rightarrow> link_state" where
  "sample_link = (\<lambda>(up, bitrate, _). \<lparr>ls_isCan = True, ls_up = up, ls_bitrate = Some bitrate\<rparr>)"

definition sample_kernel :: "(bool \<times> u32 \<times> bytes) route_kernel" where
  "sample_kernel =
     \<lparr>rk_socket = \<lambda>k. (3, k), rk_setTimeout = \<lambda>_ k. k, rk_close = \<lambda>_ k. k,
      rk_send = \<lambda>_ req (up, bitrate, _). (int (length req),
        case DecodeLink req of
          None \<Rightarrow> (up, bitrate, link_message rtm_newlink 0 0 0 (if up then iff_up else 0) 0 (bitrate_attributes bitrate))
        | Some l \<Rightarrow>
            (case ls_bitrate l of
               None \<Rightarrow> (ls_up l, bitrate, acknowledgement 0)
             | Some b \<Rightarrow> (up, b, acknowledgement 0))),
      rk_recv = \<lambda>_ _ (up, bitrate, answer). (Some answer, (up, bitrate, answer)),
      rk_errno = \<lambda>_. 0\<rparr>"

lemma sample_kernel_obeys: "kernel_obeys sample_kernel sample_link index"
proof -
  have bits: "(if up then iff_up else 0) AND iff_up \<noteq> 0 \<longleftrightarrow> up" for up by (simp add: iff_up_def)
  have ack: "acknowledgement 0 \<noteq> []" by (simp add: acknowledgement_def host32_def)
  have "DecodeLink (up_request index up seq) = Some \<lparr>ls_isCan = False, ls_up = up, ls_bitrate = None\<rparr>" for up seq
    unfolding up_request_def DecodeLink_plain bits ..
  moreover have "DecodeLink (bitrate_request index b seq) =
      Some \<lparr>ls_isCan = True, ls_up = False, ls_bitrate = Some b\<rparr>" for b seq
    by (simp add: bitrate_request_def DecodeLink_bitrate)
  moreover have "DecodeLink (link_query index seq) = None" for seq by (simp add: link_query_def DecodeLink_get)
  moreover have "DecodeLink (link_message rtm_newlink 0 0 0 (if up then iff_up else 0) 0 (bitrate_attributes b)) =
      Some \<lparr>ls_isCan = True, ls_up = up, ls_bitrate = Some b\<rparr>" for up b
    unfolding DecodeLink_bitrate bits ..
  moreover have "DecodeAcknowledgement (acknowledgement 0) = Some 0" by (simp add: DecodeAcknowledgement_eq)
  ultimately show ?thesis
    unfolding kernel_obeys_def changed_def answered_def
    by (auto simp: sample_kernel_def sample_link_def ack)
qed

end
