(* ===== verification/SocketCanLaws.thy ===== *)
theory SocketCanLaws
  imports SocketCanAdapter HostLaws NetlinkLaws
begin

text \<open>
  What the adapter for CAN sockets guarantees: it keeps the contract of an adapter, leaves no
  descriptor open, and configures the interface that it connects to.
\<close>

section \<open>The contract of an adapter\<close>

lemma tells_socket [simp]:
  "tells s out (s'\<lparr>sc_state := k\<rparr>) = tells s out s'" "tells s out (s'\<lparr>sc_descriptor := d\<rparr>) = tells s out s'"
  "tells (s\<lparr>sc_state := k\<rparr>) out s' = tells s out s'" "tells (s\<lparr>sc_descriptor := d\<rparr>) out s' = tells s out s'"
  by (simp_all add: tells_def)

lemma socket_can_operations_simps [simp]:
  "hop_Connect socket_can_operations name bitrate s = Some (ConnectSC name bitrate s)"
  "hop_Disconnect socket_can_operations = DisconnectSC" "hop_IsConnected socket_can_operations = IsConnectedSC"
  "hop_SendData socket_can_operations = SendDataSC" "hop_ProcessReadEvent socket_can_operations = ProcessReadEventSC"
  by (simp_all add: socket_can_operations_def)

lemma socket_members:
  "host_members.more s = host_members.more s' \<Longrightarrow>
    sc_kernel s = sc_kernel s' \<and> sc_state s = sc_state s' \<and> sc_descriptor s = sc_descriptor s'"
  by (cases s; cases s') simp

lemma ConnectSC_reconnects: "IsConnectedSC s \<Longrightarrow> ConnectSC name bitrate s = ConnectSC name bitrate (DisconnectSC s)"
  by (simp add: ConnectSC_def IsConnectedSC_def DisconnectSC_def CloseSocket_def ho_emit_def Let_def)

lemma socket_fields [simp]:
  "sc_descriptor (ho_emit out s) = sc_descriptor s" "sc_descriptor (ReportErrorH m s) = sc_descriptor s"
  "sc_descriptor (DeliverSC f s) = sc_descriptor s" "sc_descriptor (ScheduleCompletionH a ok s) = sc_descriptor s"
  "sc_kernel (ho_emit out s) = sc_kernel s" "sc_kernel (ReportErrorH m s) = sc_kernel s"
  "sc_kernel (DeliverSC f s) = sc_kernel s" "sc_kernel (ScheduleCompletionH a ok s) = sc_kernel s"
  "sc_state (ho_emit out s) = sc_state s" "sc_state (ReportErrorH m s) = sc_state s"
  "sc_state (DeliverSC f s) = sc_state s" "sc_state (ScheduleCompletionH a ok s) = sc_state s"
  by (simp_all add: DeliverSC_def DeliverH_def ReportErrorH_def ho_emit_def ScheduleCompletionH_def Let_def)

lemma CloseSocket_fields [simp]:
  "sc_descriptor (CloseSocket s) = - 1" "sc_kernel (CloseSocket s) = sc_kernel s"
  "sc_state (CloseSocket s) = rk_close (ck_route (sc_kernel s)) (sc_descriptor s) (sc_state s)"
  "tells s out (CloseSocket s') = tells s out s'"
  by (simp_all add: CloseSocket_def)

text \<open>The branches of \<open>Connect\<close> on an adapter that is not connected.\<close>

lemma ConnectSC_cases:
  assumes "ConnectSC name bitrate s = (ok, s')" and "\<not> IsConnectedSC s"
  obtains (socket) d k m where "ck_socket (sc_kernel s) (sc_state s) = (d, k)" "d < 0" "ok = False"
      "s' = ReportErrorH m (s\<lparr>sc_descriptor := d, sc_state := k\<rparr>)"
  | (interface) d k k1 m where "ck_socket (sc_kernel s) (sc_state s) = (d, k)" "0 \<le> d" "ok = False"
      "ck_ifindex (sc_kernel s) d (take (ifnamsiz - 1) name) k = (None, k1)"
      "s' = ReportErrorH m (CloseSocket (s\<lparr>sc_descriptor := d, sc_state := k1\<rparr>))"
  | (bitrate) d k index k1 error k2 m where "ck_socket (sc_kernel s) (sc_state s) = (d, k)" "0 \<le> d" "ok = False"
      "ck_ifindex (sc_kernel s) d (take (ifnamsiz - 1) name) k = (Some index, k1)"
      "ConfigureBitrate (ck_route (sc_kernel s)) index bitrate k1 = (error, k2)" "error \<noteq> 0"
      "s' = ReportErrorH m (CloseSocket (s\<lparr>sc_descriptor := d, sc_state := k2\<rparr>))"
  | (unbound) d k index k1 k2 k3 m where "ck_socket (sc_kernel s) (sc_state s) = (d, k)" "0 \<le> d" "ok = False"
      "ck_ifindex (sc_kernel s) d (take (ifnamsiz - 1) name) k = (Some index, k1)"
      "ConfigureBitrate (ck_route (sc_kernel s)) index bitrate k1 = (0, k2)"
      "ck_bind (sc_kernel s) d index k2 = (False, k3)"
      "s' = ReportErrorH m (CloseSocket (s\<lparr>sc_descriptor := d, sc_state := k3\<rparr>))"
  | (bound) d k index k1 k2 k3 where "ck_socket (sc_kernel s) (sc_state s) = (d, k)" "0 \<le> d" "ok = True"
      "ck_ifindex (sc_kernel s) d (take (ifnamsiz - 1) name) k = (Some index, k1)"
      "ConfigureBitrate (ck_route (sc_kernel s)) index bitrate k1 = (0, k2)"
      "ck_bind (sc_kernel s) d index k2 = (True, k3)"
      "s' = ho_emit [ConnectionChanged True] (s\<lparr>sc_descriptor := d, sc_state := k3\<rparr>)"
proof -
  obtain d k where d: "ck_socket (sc_kernel s) (sc_state s) = (d, k)" by force
  obtain found k1 where i: "ck_ifindex (sc_kernel s) d (take (ifnamsiz - 1) name) k = (found, k1)" by force
  obtain error k2 where e: "ConfigureBitrate (ck_route (sc_kernel s)) (the found) bitrate k1 = (error, k2)" by force
  obtain b k3 where b: "ck_bind (sc_kernel s) d (the found) k2 = (b, k3)" by force
  note step = assms(1) [unfolded ConnectSC_def Let_def if_not_P [OF assms(2)]]
  consider "d < 0" | "0 \<le> d" "found = None" | index where "0 \<le> d" "found = Some index" by force
  then show thesis
  proof cases
    case 1
    then show thesis using socket [OF d] step by (auto simp: d)
  next
    case 2
    then show thesis using interface [OF d] step i by (auto simp: d)
  next
    case (3 index)
    then have e': "ConfigureBitrate (ck_route (sc_kernel s)) index bitrate k1 = (error, k2)"
      and b': "ck_bind (sc_kernel s) d index k2 = (b, k3)"
      and i': "ck_ifindex (sc_kernel s) d (take (ifnamsiz - 1) name) k = (Some index, k1)"
      using e b i by simp_all
    consider "error \<noteq> 0" | "error = 0" "\<not> b" | "error = 0" b by blast
    then show thesis
    proof cases
      case 1
      then show thesis using bitrate [OF d 3(1) _ i' e'] step 3(1) i' e' by (auto simp: d)
    next
      case 2
      then show thesis using unbound [OF d 3(1) _ i'] step 3(1) i' e' b' by (auto simp: d)
    next
      case 3
      then show thesis using bound [OF d \<open>0 \<le> d\<close> _ i'] step \<open>0 \<le> d\<close> i' e' b' by (auto simp: d)
    qed
  qed
qed

lemma ConnectSC_fresh:
  assumes "ConnectSC name bitrate s = (ok, s')" and "\<not> IsConnectedSC s"
  shows "IsConnectedSC s' = ok \<and> connect_outcome False ok s s'"
  using assms by (rule ConnectSC_cases) (simp_all add: IsConnectedSC_def connect_fails connect_succeeds)

lemma DisconnectSC_tells:
  "\<not> IsConnectedSC (DisconnectSC s)" "IsConnectedSC s \<Longrightarrow> tells s [ConnectionChanged False] (DisconnectSC s)"
  "\<not> IsConnectedSC s \<Longrightarrow> DisconnectSC s = s"
  by (simp_all add: IsConnectedSC_def DisconnectSC_def CloseSocket_def ho_emit_def tells_def)

lemma ConnectSC_tells:
  assumes "ConnectSC name bitrate s = (ok, s')"
  shows "IsConnectedSC s' = ok \<and> connect_outcome (IsConnectedSC s) ok s s'"
proof (cases "IsConnectedSC s")
  case True
  note fresh = ConnectSC_fresh [OF assms [unfolded ConnectSC_reconnects [OF True]] DisconnectSC_tells(1)]
  then show ?thesis
    using connect_again [OF DisconnectSC_tells(2) [OF True] conjunct2 [OF fresh]] True by simp
next
  case False
  then show ?thesis using ConnectSC_fresh [OF assms] by simp
qed

lemma SendDataSC_tells:
  "IsConnectedSC (SendDataSC canId data a s) = IsConnectedSC s \<and>
    send_outcome (IsConnectedSC s) canId data a s (SendDataSC canId data a s)"
proof (cases "IsConnectedSC s \<and> (\<exists>i. canId = Id29 i)")
  case False
  then have "SendDataSC canId data a s = ScheduleCompletionH a False s"
    by (auto simp: SendDataSC_def split: can_id.split)
  then show ?thesis by (simp add: send_refused IsConnectedSC_def)
next
  case True
  then obtain i where i: "canId = Id29 i" "IsConnectedSC s" by blast
  obtain n k where w: "ck_write (sc_kernel s) (sc_descriptor s) (FrameSC i data) (sc_state s) = (n, k)" by force
  have "tells s [] (s\<lparr>sc_state := k\<rparr>)" by simp
  then show ?thesis using i w
    by (simp add: SendDataSC_def Let_def send_succeeds send_refused send_fails) (simp add: IsConnectedSC_def)
qed

lemma DeliverSC_reads: "reads True s True (DeliverSC frame s)"
  unfolding DeliverSC_def by (rule reads_deliver) simp

lemma reads_socket [simp]:
  "reads c (s\<lparr>sc_state := k\<rparr>) c' s' = reads c s c' s'" "reads c s c' (s'\<lparr>sc_state := k\<rparr>) = reads c s c' s'"
  by (simp_all add: reads_def)

lemma ReadFrameSC_reads:
  assumes "ReadFrameSC s = (again, s')"
  shows "reads True s True s' \<and> sc_descriptor s' = sc_descriptor s \<and> sc_kernel s' = sc_kernel s"
proof -
  have "reads True s True (ReportErrorH e (s\<lparr>sc_state := k\<rparr>))" for e k
    using reads_error [of True "s\<lparr>sc_state := k\<rparr>" e] by simp
  moreover have "reads True s True (DeliverSC f (s\<lparr>sc_state := k\<rparr>))" for f k
    using DeliverSC_reads [of "s\<lparr>sc_state := k\<rparr>" f] by simp
  ultimately show ?thesis using assms by (auto simp: ReadFrameSC_def Let_def split: prod.splits if_splits)
qed

lemma ProcessReadEventSC_reads:
  fixes s :: "('a, 'k) socket_can"
  shows "reads (IsConnectedSC s) s (IsConnectedSC (ProcessReadEventSC s)) (ProcessReadEventSC s)"
  unfolding ProcessReadEventSC_def
proof (rule poll_reads)
  fix s s' :: "('a, 'k) socket_can" and again
  assume "IsConnectedSC s" and "ReadFrameSC s = (again, s')"
  then show "reads True s (IsConnectedSC s') s'" using ReadFrameSC_reads [of s again s'] by (simp add: IsConnectedSC_def)
qed

interpretation socket_can: host_adapter "socket_can_operations :: ('a, ('a, 'k) socket_can) host_operations"
proof
  fix s s' :: "('a, 'k) socket_can"
  assume "host_members.more s = host_members.more s'"
  then show "hop_IsConnected socket_can_operations s = hop_IsConnected socket_can_operations s'"
    using socket_members [of s s'] by (simp add: IsConnectedSC_def)
next
  fix s s' :: "('a, 'k) socket_can" and name bitrate ok
  assume "hop_Connect socket_can_operations name bitrate s = Some (ok, s')"
  then have "ConnectSC name bitrate s = (ok, s')" by simp
  from ConnectSC_tells [OF this]
  show "hop_IsConnected socket_can_operations s' = ok \<and>
      connect_outcome (hop_IsConnected socket_can_operations s) ok s s'"
    by simp
next
  fix s :: "('a, 'k) socket_can" and canId data a
  show "\<not> hop_IsConnected socket_can_operations (hop_Disconnect socket_can_operations s) \<and>
      tells s (if hop_IsConnected socket_can_operations s then [ConnectionChanged False] else [])
        (hop_Disconnect socket_can_operations s)"
    by (simp add: DisconnectSC_def IsConnectedSC_def CloseSocket_def tells_def ho_emit_def)
  show "hop_IsConnected socket_can_operations (hop_SendData socket_can_operations canId data a s) =
        hop_IsConnected socket_can_operations s \<and>
      send_outcome (hop_IsConnected socket_can_operations s) canId data a s
        (hop_SendData socket_can_operations canId data a s)"
    using SendDataSC_tells by (simp add: socket_can_operations_def)
  show "reads (hop_IsConnected socket_can_operations s) s
      (hop_IsConnected socket_can_operations (hop_ProcessReadEvent socket_can_operations s))
      (hop_ProcessReadEvent socket_can_operations s)"
    using ProcessReadEventSC_reads by simp
qed

section \<open>Descriptors\<close>

text \<open>A kernel that keeps the set \<open>fds\<close> of open descriptors: a new descriptor was not open before, a
  closed one is not open any more, and nothing else opens or closes one.\<close>

definition route_tracked :: "'k route_kernel \<Rightarrow> ('k \<Rightarrow> int set) \<Rightarrow> bool" where
  "route_tracked K fds \<longleftrightarrow>
     (\<forall>k. opens fds (rk_socket K k) k) \<and> (\<forall>d k. fds (rk_close K d k) = fds k - {d}) \<and>
     (\<forall>d k. fds (rk_setTimeout K d k) = fds k) \<and> (\<forall>d req k. fds (snd (rk_send K d req k)) = fds k) \<and>
     (\<forall>d n k. fds (snd (rk_recv K d n k)) = fds k)"

definition descriptors_tracked :: "'k can_kernel \<Rightarrow> ('k \<Rightarrow> int set) \<Rightarrow> bool" where
  "descriptors_tracked K fds \<longleftrightarrow> route_tracked (ck_route K) fds \<and> (\<forall>k. opens fds (ck_socket K k) k) \<and>
     (\<forall>d name k. fds (snd (ck_ifindex K d name k)) = fds k) \<and> (\<forall>d i k. fds (snd (ck_bind K d i k)) = fds k) \<and>
     (\<forall>d f k. fds (snd (ck_write K d f k)) = fds k) \<and> (\<forall>d k. fds (snd (snd (ck_read K d k))) = fds k)"

lemma Exchange_tracked:
  assumes "route_tracked K fds"
  shows "fds (snd (Exchange K n r k)) = fds k"
proof -
  obtain m k1 where s: "rk_send K (rs_descriptor r) (take n (rs_request r)) k = (m, k1)" by force
  obtain a k2 where r: "rk_recv K (rs_descriptor r) responseSize k1 = (a, k2)" by force
  have "fds (snd (rk_send K (rs_descriptor r) (take n (rs_request r)) k)) = fds k"
    "fds (snd (rk_recv K (rs_descriptor r) responseSize k1)) = fds k1"
    using assms unfolding route_tracked_def by blast+
  then show ?thesis using s r by (simp add: Exchange_def)
qed

lemma Acknowledge_tracked: "route_tracked K fds \<Longrightarrow> fds (snd (Acknowledge K n r k)) = fds k"
  using Exchange_tracked [of K fds n r k]
  by (cases "Exchange K n r k") (simp add: Acknowledge_def split: option.split)

lemma with_request_descriptor: "rs_descriptor (snd (with_request encode r)) = rs_descriptor r"
  by (auto simp: with_request_def Let_def split: prod.splits)

text \<open>A request on the route socket leaves the descriptors alone.\<close>

definition keeps_open :: "('k \<Rightarrow> int set) \<Rightarrow> route_socket \<Rightarrow> 'k \<Rightarrow> 'x \<times> route_socket \<times> 'k \<Rightarrow> bool" where
  "keeps_open fds r k result \<longleftrightarrow>
     rs_descriptor (fst (snd result)) = rs_descriptor r \<and> fds (snd (snd result)) = fds k"

lemma QueryLink_keeps: "route_tracked K fds \<Longrightarrow> keeps_open fds r k (QueryLink K i r k)"
  using Exchange_tracked [of K fds] with_request_descriptor [of "EncodeGetLink (rs_request r) i" r]
  by (simp add: QueryLink_def keeps_open_def split: prod.split) (metis snd_conv)

lemma SetLinkUp_keeps: "route_tracked K fds \<Longrightarrow> keeps_open fds r k (SetLinkUp K i up r k)"
  using Acknowledge_tracked [of K fds] with_request_descriptor [of "EncodeSetLinkUp (rs_request r) i up" r]
  by (simp add: SetLinkUp_def keeps_open_def split: prod.split) (metis snd_conv)

lemma SetBitrate_keeps: "route_tracked K fds \<Longrightarrow> keeps_open fds r k (SetBitrate K i bitrate r k)"
  using Acknowledge_tracked [of K fds] with_request_descriptor [of "EncodeSetBitrate (rs_request r) i bitrate" r]
  by (simp add: SetBitrate_def keeps_open_def split: prod.split) (metis snd_conv)

lemma configure_keeps:
  assumes "route_tracked K fds"
  shows "keeps_open fds r k (configure K i bitrate r k)"
proof -
  obtain l r1 k1 where q: "QueryLink K i r k = (l, r1, k1)" using prod_cases3 by blast
  obtain e1 r2 k2 where d: "SetLinkUp K i False r1 k1 = (e1, r2, k2)" using prod_cases3 by blast
  obtain e2 r3 k3 where b: "SetBitrate K i bitrate r2 k2 = (e2, r3, k3)" using prod_cases3 by blast
  obtain e3 r4 k4 where u: "SetLinkUp K i True r3 k3 = (e3, r4, k4)" using prod_cases3 by blast
  have "keeps_open fds r k (l, r1, k1)" "keeps_open fds r1 k1 (e1, r2, k2)" "keeps_open fds r2 k2 (e2, r3, k3)"
    "keeps_open fds r3 k3 (e3, r4, k4)"
    using QueryLink_keeps [OF assms, of r k i] SetLinkUp_keeps [OF assms, of r1 k1 i False]
      SetBitrate_keeps [OF assms, of r2 k2 i bitrate] SetLinkUp_keeps [OF assms, of r3 k3 i True] q d b u by simp_all
  then show ?thesis using q d b u by (simp add: configure_def keeps_open_def)
qed

lemma ConfigureBitrate_tracked:
  assumes "route_tracked K fds"
  shows "fds (snd (ConfigureBitrate K i bitrate k)) = fds k"
proof -
  obtain d k1 where o: "rk_socket K k = (d, k1)" by force
  have opened: "opens fds (d, k1) k" using assms o unfolding route_tracked_def by metis
  have same: "fds (rk_setTimeout K d x) = fds x" "fds (rk_close K d x) = fds x - {d}" for x
    using assms unfolding route_tracked_def by blast+
  let ?r = "\<lparr>rs_descriptor = d, rs_sequence = 0, rs_request = replicate requestSize 0\<rparr>"
  obtain e r2 k2 where c: "configure K i bitrate ?r (rk_setTimeout K d k1) = (e, r2, k2)" using prod_cases3 by blast
  show ?thesis
    using configure_keeps [OF assms, of ?r "rk_setTimeout K d k1" i bitrate] opened o c same
    by (auto simp: ConfigureBitrate_def RouteSocket_def RouteIsOpen_def RouteSocket_destroy_def keeps_open_def
        opens_def split: if_splits)
qed

definition socket_balanced :: "('k \<Rightarrow> int set) \<Rightarrow> int set \<Rightarrow> ('a, 'k) socket_can \<Rightarrow> bool" where
  "socket_balanced fds others s \<longleftrightarrow> descriptors_tracked (sc_kernel s) fds \<and>
     (if IsConnectedSC s then sc_descriptor s \<notin> others \<and> fds (sc_state s) = insert (sc_descriptor s) others
      else fds (sc_state s) = others)"

lemma DisconnectSC_balanced: "socket_balanced fds others s \<Longrightarrow> socket_balanced fds others (DisconnectSC s)"
  by (auto simp: socket_balanced_def DisconnectSC_def IsConnectedSC_def descriptors_tracked_def route_tracked_def)

lemma ConnectSC_balanced:
  fixes s :: "('a, 'k) socket_can"
  assumes "socket_balanced fds others s" and "ConnectSC name bitrate s = (ok, s')"
  shows "socket_balanced fds others s'"
proof -
  have fresh: "socket_balanced fds others s'"
    if s: "socket_balanced fds others s" and c: "ConnectSC name bitrate s = (ok, s')" and off: "\<not> IsConnectedSC s"
    for s :: "('a, 'k) socket_can"
  proof -
    let ?K = "sc_kernel s"
    have K: "route_tracked (ck_route ?K) fds" "opens fds (ck_socket ?K k) k"
      "fds (snd (ck_ifindex ?K d n k)) = fds k" "fds (snd (ck_bind ?K d i k)) = fds k"
      "fds (rk_close (ck_route ?K) d k) = fds k - {d}" for d k n i
      using s by (simp_all add: socket_balanced_def descriptors_tracked_def route_tracked_def)
    note tracked = K(2) [of "sc_state s"] K(3) K(4) ConfigureBitrate_tracked [OF K(1)]
    show ?thesis using c off
    proof (cases rule: ConnectSC_cases)
      case (socket d k m)
      then show ?thesis using s off tracked(1) by (simp add: socket_balanced_def IsConnectedSC_def opens_def)
    next
      case (interface d k k1 m)
      then show ?thesis using s off K(5) tracked(1) tracked(2) [of d _ k]
        by (simp add: socket_balanced_def IsConnectedSC_def opens_def) (metis Diff_insert_absorb snd_conv)
    next
      case (bitrate d k index k1 error k2 m)
      then show ?thesis using s off K(5) tracked(1) tracked(2) [of d _ k] tracked(4) [of index _ k1]
        by (simp add: socket_balanced_def IsConnectedSC_def opens_def) (metis Diff_insert_absorb snd_conv)
    next
      case (unbound d k index k1 k2 k3 m)
      then show ?thesis using s off K(5) tracked(1) tracked(2) [of d _ k] tracked(4) [of index _ k1] tracked(3) [of d index k2]
        by (simp add: socket_balanced_def IsConnectedSC_def opens_def) (metis Diff_insert_absorb snd_conv)
    next
      case (bound d k index k1 k2 k3)
      then show ?thesis using s off tracked(1) tracked(2) [of d _ k] tracked(4) [of index _ k1] tracked(3) [of d index k2]
        by (simp add: socket_balanced_def IsConnectedSC_def opens_def) (metis snd_conv)
    qed
  qed
  show ?thesis
  proof (cases "IsConnectedSC s")
    case True
    then show ?thesis
      using fresh [OF DisconnectSC_balanced [OF assms(1)] assms(2) [unfolded ConnectSC_reconnects [OF True]]
          DisconnectSC_tells(1)] by simp
  next
    case False
    then show ?thesis using fresh [OF assms] by simp
  qed
qed

lemma balanced_update:
  assumes "socket_balanced fds others s" and "fds k = fds (sc_state s)"
  shows "socket_balanced fds others (s\<lparr>sc_state := k\<rparr>)"
  using assms by (simp add: socket_balanced_def IsConnectedSC_def)

lemma balanced_telling [simp]:
  "socket_balanced fds others (ho_emit out s) = socket_balanced fds others s"
  "socket_balanced fds others (ReportErrorH m s) = socket_balanced fds others s"
  "socket_balanced fds others (DeliverSC f s) = socket_balanced fds others s"
  "socket_balanced fds others (ScheduleCompletionH a ok s) = socket_balanced fds others s"
  by (simp_all add: socket_balanced_def IsConnectedSC_def)

lemma SendDataSC_balanced:
  assumes "socket_balanced fds others s"
  shows "socket_balanced fds others (SendDataSC canId data a s)"
proof -
  have "socket_balanced fds others (s\<lparr>sc_state := k\<rparr>)"
    if "ck_write (sc_kernel s) (sc_descriptor s) f (sc_state s) = (n, k)" for f n k
    using assms that by (intro balanced_update) (simp_all add: socket_balanced_def descriptors_tracked_def, metis snd_conv)
  then show ?thesis using assms by (simp add: SendDataSC_def Let_def split: can_id.split prod.split)
qed

lemma ReadFrameSC_balanced:
  assumes "socket_balanced fds others s"
  shows "socket_balanced fds others (snd (ReadFrameSC s))"
proof -
  have "socket_balanced fds others (s\<lparr>sc_state := k\<rparr>)"
    if "ck_read (sc_kernel s) (sc_descriptor s) (sc_state s) = (n, f, k)" for n f k
    using assms that by (intro balanced_update) (simp_all add: socket_balanced_def descriptors_tracked_def, metis snd_conv)
  then show ?thesis by (simp add: ReadFrameSC_def Let_def split: prod.split)
qed

lemma ProcessReadEventSC_balanced: "socket_balanced fds others s \<Longrightarrow> socket_balanced fds others (ProcessReadEventSC s)"
  unfolding ProcessReadEventSC_def by (rule poll_keeps) (rule ReadFrameSC_balanced)

interpretation socket_descriptors: leak_free_adapter "socket_can_operations :: ('a, ('a, 'k) socket_can) host_operations"
    "socket_balanced fds others" for fds :: "'k \<Rightarrow> int set" and others
proof
  fix s s' :: "('a, 'k) socket_can"
  assume "host_members.more s = host_members.more s'"
  then show "socket_balanced fds others s = socket_balanced fds others s'"
    using socket_members [of s s'] by (simp add: socket_balanced_def IsConnectedSC_def)
next
  fix s s' :: "('a, 'k) socket_can" and name bitrate ok canId data a
  assume s: "socket_balanced fds others s"
  show "socket_balanced fds others s'" if "hop_Connect socket_can_operations name bitrate s = Some (ok, s')"
    using ConnectSC_balanced [OF s] that by simp
  show "socket_balanced fds others (hop_Disconnect socket_can_operations s)"
    using DisconnectSC_balanced [OF s] by (simp add: socket_can_operations_def)
  show "socket_balanced fds others (hop_SendData socket_can_operations canId data a s)"
    using SendDataSC_balanced [OF s] by (simp add: socket_can_operations_def)
  show "socket_balanced fds others (hop_ProcessReadEvent socket_can_operations s)"
    using ProcessReadEventSC_balanced [OF s] by simp
qed

section \<open>The configured interface\<close>

text \<open>The calls for CAN sockets do not touch the link of the interface.\<close>

definition can_calls_quiet :: "'k can_kernel \<Rightarrow> ('k \<Rightarrow> link_state) \<Rightarrow> bool" where
  "can_calls_quiet K link \<longleftrightarrow> (\<forall>k. link (snd (ck_socket K k)) = link k) \<and>
     (\<forall>d name k. link (snd (ck_ifindex K d name k)) = link k) \<and> (\<forall>d i k. link (snd (ck_bind K d i k)) = link k)"

definition configured :: "link_state \<Rightarrow> u32 \<Rightarrow> link_state" where
  "configured l bitrate = (if ls_isCan l then l\<lparr>ls_up := True, ls_bitrate := Some bitrate\<rparr> else l)"

definition half_configured :: "link_state \<Rightarrow> u32 \<Rightarrow> link_state \<Rightarrow> bool" where
  "half_configured l bitrate l' \<longleftrightarrow>
     (\<exists>up. l' = l\<lparr>ls_up := up\<rparr> \<or> l' = l\<lparr>ls_up := up, ls_bitrate := Some bitrate\<rparr>)"

lemma half_configured_same: "half_configured l bitrate l"
  unfolding half_configured_def by (rule exI [of _ "ls_up l"]) simp

lemma half_configured_whole: "half_configured l bitrate (configured l bitrate)"
  using half_configured_same unfolding configured_def half_configured_def by metis

lemma ConfigureBitrate_configures:
  assumes "kernel_obeys K link index" and "ConfigureBitrate K index bitrate k = (error, k')"
  shows "if error = 0 then link k' = configured (link k) bitrate else half_configured (link k) bitrate (link k')"
proof -
  have same: "l = l\<lparr>ls_up := True, ls_bitrate := Some bitrate\<rparr>" if "ls_up l" "ls_bitrate l = Some bitrate" for l :: link_state
    using that by (cases l) simp
  show ?thesis
    using ConfigureBitrate_obeys [OF assms] same [of "link k"]
    by (auto simp: configured_def half_configured_def split: if_splits)
qed

lemma ConnectSC_configures:
  assumes "kernel_obeys (ck_route (sc_kernel s)) link index" and "can_calls_quiet (sc_kernel s) link"
    and "\<forall>d k. fst (ck_ifindex (sc_kernel s) d (take (ifnamsiz - 1) name) k) = Some index"
    and "ConnectSC name bitrate s = (ok, s')" and "\<not> IsConnectedSC s"
  shows "if ok then link (sc_state s') = configured (link (sc_state s)) bitrate
    else half_configured (link (sc_state s)) bitrate (link (sc_state s'))"
proof -
  let ?K = "sc_kernel s" and ?l = "link (sc_state s)"
  have close: "link (rk_close (ck_route ?K) d k) = link k" for d k
    using assms(1) by (simp add: kernel_obeys_def)
  have opened: "link k = ?l" if "ck_socket ?K (sc_state s) = (d, k)" for d k
    using assms(2) that unfolding can_calls_quiet_def by (metis snd_conv)
  have found: "i = Some index \<and> link k1 = link k" if "ck_ifindex ?K d (take (ifnamsiz - 1) name) k = (i, k1)" for d k k1 i
    using assms(2,3) that unfolding can_calls_quiet_def by (metis fst_conv snd_conv)
  have binds: "link k1 = link k" if "ck_bind ?K d i k = (b, k1)" for d i k b k1
    using assms(2) that unfolding can_calls_quiet_def by (metis snd_conv)
  show ?thesis using assms(4,5)
  proof (cases rule: ConnectSC_cases)
    case (socket d k m)
    then show ?thesis using opened by (simp add: half_configured_same)
  next
    case (interface d k k1 m)
    then show ?thesis using found by blast
  next
    case (bitrate d k i k1 error k2 m)
    then have "i = index" "link k1 = link k" using found [OF bitrate(4)] by simp_all
    then show ?thesis
      using bitrate ConfigureBitrate_configures [OF assms(1), of bitrate k1 error k2] opened [OF bitrate(1)] close by simp
  next
    case (unbound d k i k1 k2 k3 m)
    then have "i = index" "link k1 = link k" using found [OF unbound(4)] by simp_all
    then show ?thesis
      using unbound ConfigureBitrate_configures [OF assms(1), of bitrate k1 0 k2] opened [OF unbound(1)] close
        binds [OF unbound(6)] half_configured_whole by simp
  next
    case (bound d k i k1 k2 k3)
    then have "i = index" "link k1 = link k" using found [OF bound(4)] by simp_all
    then show ?thesis
      using bound ConfigureBitrate_configures [OF assms(1), of bitrate k1 0 k2] opened [OF bound(1)] binds [OF bound(6)] by simp
  qed
qed

section \<open>Frames\<close>

text \<open>The frames that reading gives from the state \<open>k\<close>, until the socket would block.\<close>

fun queued :: "'k can_kernel \<Rightarrow> int \<Rightarrow> 'k \<Rightarrow> can_frame list \<Rightarrow> 'k \<Rightarrow> bool" where
  "queued K d k [] k' = (\<exists>n f. ck_read K d k = (n, f, k') \<and> n < 0 \<and> rk_errno (ck_route K) k' = eagain)"
| "queued K d k (f # fs) k' = (\<exists>k1. ck_read K d k = (sizeof_can_frame, f, k1) \<and> queued K d k1 fs k')"

definition frame_of :: "can_frame \<Rightarrow> u32 \<times> bytes" where
  "frame_of f = (cf_id f AND can_eff_mask, map (\<lambda>i. cf_data f ! i) [0..<min (unat (cf_dlc f)) 8])"

definition delivered :: "u32 \<times> bytes \<Rightarrow> 'a adapter_output list" where
  "delivered = (\<lambda>(i, data). [FrameLog False i data, FrameReceived i data])"

lemma DeliverSC_eq: "ho_receiving s \<Longrightarrow> DeliverSC f s = ho_emit (delivered (frame_of f)) s"
  by (simp add: DeliverSC_def DeliverH_def frame_of_def delivered_def ho_emit_def Let_def)

lemma poll_queued:
  assumes "queued (sc_kernel s) (sc_descriptor s) (sc_state s) fs k'" and "length fs < n"
    and "IsConnectedSC s" and "ho_receiving s"
  shows "poll n IsConnectedSC ReadFrameSC s = ho_emit (concat (map (\<lambda>f. delivered (frame_of f))
    (filter (\<lambda>f. IsExtendedDataFrame (cf_id f)) fs))) (s\<lparr>sc_state := k'\<rparr>)"
  using assms
proof (induction fs arbitrary: s n)
  case Nil
  then obtain m where "n = Suc m" by (cases n) auto
  then show ?case using Nil by (auto simp: ReadFrameSC_def ho_emit_def Let_def)
next
  case (Cons f fs)
  then obtain m where n: "n = Suc m" "length fs < m" by (cases n) auto
  from Cons.prems(1) obtain k1 where r: "ck_read (sc_kernel s) (sc_descriptor s) (sc_state s) = (sizeof_can_frame, f, k1)"
    "queued (sc_kernel s) (sc_descriptor s) k1 fs k'" by auto
  let ?out = "if IsExtendedDataFrame (cf_id f) then delivered (frame_of f) else []"
  let ?s = "ho_emit ?out (s\<lparr>sc_state := k1\<rparr>)"
  have "ReadFrameSC s = (True, ?s)"
    using r Cons.prems(4) by (simp add: ReadFrameSC_def Let_def DeliverSC_eq sizeof_can_frame_def) (simp add: ho_emit_def)
  then have "poll n IsConnectedSC ReadFrameSC s = poll m IsConnectedSC ReadFrameSC ?s" using n Cons.prems(3) by simp
  also have "\<dots> = ho_emit (concat (map (\<lambda>f. delivered (frame_of f))
      (filter (\<lambda>f. IsExtendedDataFrame (cf_id f)) fs))) (?s\<lparr>sc_state := k'\<rparr>)"
    by (rule Cons.IH) (use r(2) n(2) Cons.prems(3,4) in \<open>simp_all add: IsConnectedSC_def\<close>, simp add: ho_emit_def)
  finally show ?case by (simp add: ho_emit_def)
qed

lemma can_flag_bits:
  "bit can_eff_flag n \<longleftrightarrow> n = 31" "bit can_rtr_flag n \<longleftrightarrow> n = 30" "bit can_err_flag n \<longleftrightarrow> n = 29"
  "bit can_eff_mask n \<longleftrightarrow> n < 29"
proof -
  have one: "bit (push_bit m 1 :: u32) n \<longleftrightarrow> m < 32 \<and> n = m" for m
    by (auto simp: bit_simps)
  have flags: "can_eff_flag = push_bit 31 1" "can_rtr_flag = push_bit 30 1" "can_err_flag = push_bit 29 1"
    by (simp_all add: can_eff_flag_def can_rtr_flag_def can_err_flag_def push_bit_eq_mult)
  show "bit can_eff_flag n \<longleftrightarrow> n = 31" "bit can_rtr_flag n \<longleftrightarrow> n = 30" "bit can_err_flag n \<longleftrightarrow> n = 29"
    unfolding flags one by simp_all
  have mask: "can_eff_mask = mask 29" by (simp add: can_eff_mask_def mask_eq_exp_minus_1)
  show "bit can_eff_mask n \<longleftrightarrow> n < 29"
    unfolding mask by (auto simp: bit_simps)
qed

lemma can_flags_apart:
  fixes i :: u32
  assumes "i < 2 ^ 29"
  shows "i AND can_eff_flag = 0" "i AND (can_rtr_flag OR can_err_flag) = 0" "i AND can_eff_mask = i"
proof -
  have "take_bit 29 i = i" by (rule take_bit_small) (use assms in \<open>simp add: word_less_nat_alt\<close>)
  then have high: "\<not> bit i n" if "29 \<le> n" for n
    using that by (metis bit_take_bit_iff not_le)
  show "i AND can_eff_flag = 0" "i AND (can_rtr_flag OR can_err_flag) = 0" "i AND can_eff_mask = i"
    using high \<open>take_bit 29 i = i\<close>
    by (auto intro!: bit_word_eqI simp: bit_and_iff bit_or_iff can_flag_bits) (metis not_le)
qed

lemma FrameSC_arrives:
  assumes "i < 2 ^ 29" and "length data \<le> 8"
  shows "IsExtendedDataFrame (cf_id (FrameSC i data)) \<and> frame_of (FrameSC i data) = (i, data)"
proof -
  note apart = can_flags_apart [OF assms(1)]
  have "(i OR can_eff_flag) AND can_eff_flag = can_eff_flag" "can_eff_flag \<noteq> 0"
    by (rule bit_word_eqI) (auto simp: bit_simps can_eff_flag_def)
  moreover have "(i OR can_eff_flag) AND (can_rtr_flag OR can_err_flag) = i AND (can_rtr_flag OR can_err_flag)"
    "(i OR can_eff_flag) AND can_eff_mask = i AND can_eff_mask"
    by (auto intro!: bit_word_eqI simp: bit_and_iff bit_or_iff can_flag_bits)
  moreover have "map (\<lambda>j. (take 8 data @ replicate (8 - length data) 0) ! j) [0..<length data] = data"
    using assms(2) by (intro nth_equalityI) (simp_all add: nth_append)
  moreover have "unat (of_nat (length data) :: u8) = length data"
    using assms(2) by (simp add: unat_of_nat)
  ultimately show ?thesis
    using apart assms(2) by (simp add: FrameSC_def frame_of_def IsExtendedDataFrame_def)
qed

section \<open>Properties\<close>

text \<open>C30: What a user of the adapter for CAN sockets sees, whatever the kernel answers.  The connections
  it reports alternate with their losses and agree with \<^verbatim>\<open>IsConnected\<close>, and frames are reported only
  while it is connected; every send is completed exactly once, with success exactly when the frame
  was transmitted; and no descriptor is left open: at any time the only one that the adapter holds is
  that of its connection, which its destructor closes.\<close>

theorem socket_can_consistent:
  fixes es :: "'a host_event list"
  assumes "descriptors_tracked K fds"
    and "admissible (host_enabled socket_can_operations) (host_step socket_can_operations) es (SocketCanAdapter K k)"
  shows "case run_io (host_step socket_can_operations) es (SocketCanAdapter K k) of
    (s, out) \<Rightarrow>
      seen (ho_log s) = Some (IsConnectedSC s) \<and>
      results_in out + host_awaited s =
        total_over (host_brought socket_can_operations) (host_step socket_can_operations) es (SocketCanAdapter K k) \<and>
      size (host_awaited s) \<le> 1 \<and>
      fds (sc_state s) = fds k \<union> (if IsConnectedSC s then {sc_descriptor s} else {}) \<and>
      fds (sc_state (DisconnectSC s)) = fds k"
proof -
  let ?ops = "socket_can_operations :: ('a, ('a, 'b) socket_can) host_operations"
  let ?s0 = "SocketCanAdapter K k :: ('a, 'b) socket_can"
  obtain s out where run: "run_io (host_step ?ops) es ?s0 = (s, out)" by force
  have "host_idle ?ops ?s0"
    by (simp add: host_idle_def SocketCanAdapter_def IsConnectedSC_def)
  note seen = socket_can.observers_consistent [OF this assms(2) run]
  have "socket_balanced fds (fds k) ?s0"
    using assms(1) by (simp add: socket_balanced_def SocketCanAdapter_def IsConnectedSC_def)
  from socket_descriptors.resources.run_inv [OF this assms(2)]
  have balanced: "socket_balanced fds (fds k) s" by (simp add: run)
  have "fds (sc_state (DisconnectSC s)) = fds k"
    using DisconnectSC_balanced [OF balanced] DisconnectSC_tells(1) [of s] by (simp add: socket_balanced_def)
  then show ?thesis using seen balanced
    by (simp add: run socket_balanced_def)
qed

text \<open>A kernel with one CAN interface: the open descriptors, the state of the interface, and the frames
  that wait to be read.\<close>

definition fresh_descriptor :: "int list \<Rightarrow> int" where
  "fresh_descriptor open_ones = foldr max open_ones 2 + 1"

lemma fresh_descriptor: "0 \<le> fresh_descriptor l" "\<not> fresh_descriptor l < 0" "fresh_descriptor l \<notin> set l"
proof -
  have "2 \<le> foldr max l 2 \<and> (\<forall>d \<in> set l. d \<le> foldr max l 2)" by (induction l) auto
  then show "0 \<le> fresh_descriptor l" "\<not> fresh_descriptor l < 0" "fresh_descriptor l \<notin> set l" by (auto simp: fresh_descriptor_def)
qed

type_synonym sample_state = "int list \<times> (bool \<times> u32 \<times> bytes) \<times> can_frame list"

definition sample_route :: "sample_state route_kernel" where
  "sample_route =
     \<lparr>rk_socket = \<lambda>(l, k). (fresh_descriptor l, (fresh_descriptor l # l, k)), rk_setTimeout = \<lambda>_ k. k,
      rk_close = \<lambda>d (l, k). (removeAll d l, k),
      rk_send = \<lambda>d req (l, r, q). (case rk_send sample_kernel d req r of (n, r) \<Rightarrow> (n, (l, r, q))),
      rk_recv = \<lambda>d n (l, r, q). (case rk_recv sample_kernel d n r of (a, r) \<Rightarrow> (a, (l, r, q))),
      rk_errno = \<lambda>_. eagain\<rparr>"

definition sample_can :: "sample_state can_kernel" where
  "sample_can =
     \<lparr>ck_route = sample_route, ck_socket = rk_socket sample_route, ck_ifindex = \<lambda>_ _ k. (Some 2, k),
      ck_bind = \<lambda>_ _ k. (True, k), ck_write = \<lambda>_ _ k. (sizeof_can_frame, k),
      ck_read = \<lambda>_ (l, r, q). (case q of [] \<Rightarrow> (- 1, FrameSC 0 [], (l, r, [])) | f # q \<Rightarrow> (sizeof_can_frame, f, (l, r, q))),
      ck_opendir = \<lambda>_ k. (None, k), ck_closedir = \<lambda>_ k. k, ck_openat = \<lambda>_ _ k. (- 1, k),
      ck_readFile = \<lambda>_ _ k. (None, k)\<rparr>"

lemma sample_can_tracked: "descriptors_tracked sample_can (\<lambda>(l, k). set l)"
  by (auto simp: descriptors_tracked_def route_tracked_def opens_def sample_can_def sample_route_def fresh_descriptor
      split: prod.splits list.splits)

theorem socket_can_consistent_witness:
  "\<exists>s out. run_io (host_step socket_can_operations)
      [HostReceiveData, HostSend (Id29 5) [1] (7 :: nat), HostRunScheduled, HostConnect ''can0'' 500000, HostReadEvent]
      (SocketCanAdapter sample_can ([], (False, 250000, []), [])) = (s, out) \<and>
    seen (ho_log s) = Some (IsConnectedSC s) \<and> fst (sc_state (DisconnectSC s)) = []"
proof -
  let ?es = "[HostReceiveData, HostSend (Id29 5) [1] (7 :: nat), HostRunScheduled, HostConnect ''can0'' 500000, HostReadEvent]"
  let ?s0 = "SocketCanAdapter sample_can ([], (False, 250000, []), []) :: (nat, sample_state) socket_can"
  have "admissible (host_enabled socket_can_operations) (host_step socket_can_operations) ?es ?s0"
    by (simp add: host_enabled_def host_step_def Let_def SendDataSC_def IsConnectedSC_def ReceiveDataH_def
        ScheduleCompletionH_def SocketCanAdapter_def)
  from socket_can_consistent [OF sample_can_tracked this] show ?thesis
    by (cases "run_io (host_step socket_can_operations) ?es ?s0") (auto split: prod.splits)
qed


definition sample_can_link :: "sample_state \<Rightarrow> link_state" where
  "sample_can_link = (\<lambda>(_, r, _). sample_link r)"

lemma sample_can_obeys: "kernel_obeys (ck_route sample_can) sample_can_link index"
proof -
  have lifted: "answered sample_route d req (l, r, q) a (l, r', q)" if "answered sample_kernel d req r a r'"
    for d req l r q a r'
    using that by (auto simp: answered_def sample_route_def)
  have link: "sample_can_link (l, r, q) = sample_link r" for l r q by (simp add: sample_can_link_def)
  have "changed sample_route sample_can_link request change" if "changed sample_kernel sample_link request change"
    for request change
    using that lifted unfolding changed_def by (metis link prod_cases3)
  moreover have "\<exists>a k'. answered sample_route d (link_query index seq) k a k' \<and> DecodeLink a = Some (sample_can_link k) \<and>
      sample_can_link k' = sample_can_link k" for d seq k
    using sample_kernel_obeys [of index] lifted unfolding kernel_obeys_def by (metis link prod_cases3)
  moreover have "0 \<le> fst (rk_socket sample_route k) \<and> sample_can_link (snd (rk_socket sample_route k)) = sample_can_link k"
    "sample_can_link (rk_setTimeout sample_route d k) = sample_can_link k"
    "sample_can_link (rk_close sample_route d k) = sample_can_link k" for d k
    by (cases k, simp add: sample_route_def sample_can_link_def fresh_descriptor)+
  ultimately show ?thesis using sample_kernel_obeys [of index]
    by (simp add: kernel_obeys_def sample_can_def)
qed


text \<open>C32: One \<^verbatim>\<open>ProcessReadEvent\<close> of a connected adapter delivers what waits in the socket: of fewer than
  256 frames each extended data frame, in order, once to the observer and once to the receive
  callback, and nothing of the others; and what another such adapter sends arrives as it was sent.\<close>

theorem socket_can_frames_delivered:
  assumes "IsConnectedSC s" and "ho_receiving s"
    and "queued (sc_kernel s) (sc_descriptor s) (sc_state s) fs k'" and "length fs < 256"
  shows "ProcessReadEventSC s = ho_emit (concat (map (\<lambda>f. delivered (frame_of f))
      (filter (\<lambda>f. IsExtendedDataFrame (cf_id f)) fs))) (s\<lparr>sc_state := k'\<rparr>) \<and>
    (\<forall>i data. i < 2 ^ 29 \<longrightarrow> length data \<le> 8 \<longrightarrow>
      IsExtendedDataFrame (cf_id (FrameSC i data)) \<and> frame_of (FrameSC i data) = (i, data))"
  using poll_queued [OF assms(3) _ assms(1,2), of maxFramesPerRead] assms(4) FrameSC_arrives
  by (simp add: ProcessReadEventSC_def maxFramesPerRead_def)

theorem socket_can_frames_delivered_witness:
  "ho_log (ProcessReadEventSC ((SocketCanAdapter sample_can ([3], (True, 500000, []), [FrameSC 5 [1, 2]]))
     \<lparr>sc_descriptor := 3, ho_receiving := True\<rparr> :: (nat, sample_state) socket_can)) =
   [FrameLog False 5 [1, 2], FrameReceived 5 [1, 2]]"
proof -
  let ?s = "(SocketCanAdapter sample_can ([3], (True, 500000, []), [FrameSC 5 [1, 2]]))
    \<lparr>sc_descriptor := 3, ho_receiving := True\<rparr> :: (nat, sample_state) socket_can"
  have "queued (sc_kernel ?s) (sc_descriptor ?s) (sc_state ?s) [FrameSC 5 [1, 2]] ([3], (True, 500000, []), [])"
    by (simp add: SocketCanAdapter_def sample_can_def sample_route_def)
  note result = socket_can_frames_delivered [OF _ _ this]
  have "IsExtendedDataFrame (cf_id (FrameSC 5 [1, 2])) \<and> frame_of (FrameSC 5 [1, 2]) = (5, [1, 2])"
    by (rule result [THEN conjunct2, rule_format]) (simp_all add: SocketCanAdapter_def IsConnectedSC_def)
  then show ?thesis using result [THEN conjunct1]
    by (simp add: IsConnectedSC_def delivered_def) (simp add: SocketCanAdapter_def ho_emit_def)
qed

end
