(* ===== verification/HostLibraries.thy ===== *)
theory HostLibraries
  imports HostAdapter
begin

text \<open>
  The libraries of Windows as the adapters for PCAN and Kvaser devices use them: a library is loaded by
  its name at run time, and a function is called through the address that \<^verbatim>\<open>GetProcAddress\<close> gives, if it
  gives one.  The operating system is a parameter, the record \<open>windows_loader\<close> on a state \<open>'k\<close>; a null
  handle is 0.
\<close>

record 'k windows_loader =
  wl_LoadLibrary :: "string \<Rightarrow> 'k \<Rightarrow> nat \<times> 'k"
  wl_FreeLibrary :: "nat \<Rightarrow> 'k \<Rightarrow> 'k"
  wl_exports :: "nat \<Rightarrow> string \<Rightarrow> bool"

text \<open>\<open>Load\<close> and \<open>LoadFrom\<close>: the function, or a null pointer.\<close>

definition LoadFrom :: "'k windows_loader \<Rightarrow> nat \<Rightarrow> string \<Rightarrow> 'f \<Rightarrow> 'f option" where
  "LoadFrom L module name f = (if wl_exports L module name then Some f else None)"

text \<open>The action of a function whose result is not used, when it is there.\<close>

definition if_loaded :: "('k \<Rightarrow> 'k) option \<Rightarrow> 'k \<Rightarrow> 'k" where
  "if_loaded f k = (case f of None \<Rightarrow> k | Some f \<Rightarrow> f k)"

text \<open>A counter \<open>loaded\<close> of the loads that were not freed yet.\<close>

definition loader_tracked :: "'k windows_loader \<Rightarrow> ('k \<Rightarrow> nat) \<Rightarrow> bool" where
  "loader_tracked L loaded \<longleftrightarrow>
     (\<forall>name k. case wl_LoadLibrary L name k of (m, k') \<Rightarrow> loaded k' = (if m = 0 then loaded k else Suc (loaded k))) \<and>
     (\<forall>m k. loaded (wl_FreeLibrary L m k) = loaded k - 1)"

lemma LoadLibrary_tracked:
  assumes "loader_tracked L loaded" and "wl_LoadLibrary L name k = (m, k')"
  shows "loaded k' = (if m = 0 then loaded k else Suc (loaded k))"
proof -
  have "case wl_LoadLibrary L name k of (m, k') \<Rightarrow> loaded k' = (if m = 0 then loaded k else Suc (loaded k))"
    using assms(1) by (simp add: loader_tracked_def)
  then show ?thesis using assms(2) by simp
qed

lemma FreeLibrary_tracked: "loader_tracked L loaded \<Longrightarrow> loaded (wl_FreeLibrary L m k) = loaded k - 1"
  by (simp add: loader_tracked_def)

end
