(* ===== verification/KvaserAdapter.thy ===== *)
theory KvaserAdapter
  imports HostLibraries
begin

text \<open>
  The adapter for Kvaser devices, \<^verbatim>\<open>can-lite/drivers/implementation/KvaserAdapter.cpp\<close>.  The vendor's
  library is a parameter, the record \<open>canlib\<close> of the functions that are looked up in it; the results
  of \<^verbatim>\<open>canBusOff\<close> and \<^verbatim>\<open>canClose\<close> are not used.  A \<^verbatim>\<open>long\<close> has 32 bits on Windows.
\<close>

record kvaser_message =
  km_id :: int
  km_data :: bytes
  km_length :: u32
  km_flags :: u32

record 'k canlib =
  kv_loader :: "'k windows_loader"
  kv_initializeLibrary :: "'k \<Rightarrow> 'k"
  kv_unloadLibrary :: "'k \<Rightarrow> 'k"
  kv_getNumberOfChannels :: "'k \<Rightarrow> int \<times> int \<times> 'k"
  kv_openChannel :: "int \<Rightarrow> int \<Rightarrow> 'k \<Rightarrow> int \<times> 'k"
  kv_setBusParams :: "int \<Rightarrow> int \<Rightarrow> 'k \<Rightarrow> int \<times> 'k"
  kv_busOn :: "int \<Rightarrow> 'k \<Rightarrow> int \<times> 'k"
  kv_busOff :: "int \<Rightarrow> 'k \<Rightarrow> 'k"
  kv_close :: "int \<Rightarrow> 'k \<Rightarrow> 'k"
  kv_write :: "int \<Rightarrow> int \<Rightarrow> bytes \<Rightarrow> nat \<Rightarrow> u32 \<Rightarrow> 'k \<Rightarrow> int \<times> 'k"
  kv_read :: "int \<Rightarrow> 'k \<Rightarrow> int \<times> kvaser_message \<times> 'k"

record ('a, 'k) kvaser = "'a host_members" +
  kva_system :: "'k canlib"
  kva_state :: 'k
  kva_library :: nat
  kva_handle :: int

definition kvStatusOk :: int where "kvStatusOk = 0"
definition openExclusive :: int where "openExclusive = 0x0008"
definition kvMessageRemote :: u32 where "kvMessageRemote = 0x0001"
definition kvMessageExtended :: u32 where "kvMessageExtended = 0x0004"
definition kvMessageErrorFrame :: u32 where "kvMessageErrorFrame = 0x0020"
definition kvMaxFramesPerPoll :: nat where "kvMaxFramesPerPoll = 256"
definition kvMaxChannels :: nat where "kvMaxChannels = 64"

definition kvBitrateCodes :: "(u32 \<times> int) list" where
  "kvBitrateCodes = [(1000000, - 1), (500000, - 2), (250000, - 3), (125000, - 4), (100000, - 5), (50000, - 7), (10000, - 9)]"

definition KvBitrateCode :: "u32 \<Rightarrow> int option" where
  "KvBitrateCode bitrate = map_of kvBitrateCodes bitrate"

definition KvaserAdapter :: "'k canlib \<Rightarrow> 'k \<Rightarrow> ('a, 'k) kvaser" where
  "KvaserAdapter K k =
     \<lparr>ho_receiving = False, ho_pendingCompletion = None, ho_pendingSuccess = False, ho_scheduled = 0,
      ho_log = [], kva_system = K, kva_state = k, kva_library = 0, kva_handle = - 1\<rparr>"

section \<open>The library\<close>

definition canlibName :: string where "canlibName = ''canlib32.dll''"

definition LoadCanlib :: "'k canlib \<Rightarrow> 'k \<Rightarrow> nat \<times> 'k" where
  "LoadCanlib K k =
     (case wl_LoadLibrary (kv_loader K) canlibName k of
        (canlib, k) \<Rightarrow>
          if canlib = 0 then (0, k)
          else (canlib, if_loaded (LoadFrom (kv_loader K) canlib ''canInitializeLibrary'' (kv_initializeLibrary K)) k))"

definition UnloadCanlib :: "'k canlib \<Rightarrow> nat \<Rightarrow> 'k \<Rightarrow> 'k" where
  "UnloadCanlib K canlib k =
     wl_FreeLibrary (kv_loader K) canlib
       (if_loaded (LoadFrom (kv_loader K) canlib ''canUnloadLibrary'' (kv_unloadLibrary K)) k)"

definition ReleaseK :: "('a, 'k) kvaser \<Rightarrow> ('a, 'k) kvaser" where
  "ReleaseK s =
     (let K = kva_system s; library = kva_library s; handle = kva_handle s; k = kva_state s;
        k = (if library \<noteq> 0 \<and> handle \<ge> 0
             then if_loaded (LoadFrom (kv_loader K) library ''canClose'' (kv_close K handle))
                    (if_loaded (LoadFrom (kv_loader K) library ''canBusOff'' (kv_busOff K handle)) k)
             else k);
        k = (if library \<noteq> 0 then UnloadCanlib K library k else k)
      in s\<lparr>kva_state := k, kva_library := 0, kva_handle := - 1\<rparr>)"

section \<open>Connection\<close>

definition IsConnectedK :: "('a, 'k) kvaser \<Rightarrow> bool" where
  "IsConnectedK s \<longleftrightarrow> kva_library s \<noteq> 0 \<and> kva_handle s \<ge> 0"

definition OpenK :: "int \<Rightarrow> int \<Rightarrow> ('a, 'k) kvaser \<Rightarrow> bool \<times> ('a, 'k) kvaser" where
  "OpenK channelNumber bitrateCode s =
     (let K = kva_system s; L = kv_loader K;
        refused = (\<lambda>s. (False, ReportErrorH
          ''The Kvaser channel could not be opened; check that the adapter is plugged in and not in use'' (ReleaseK s)))
      in case LoadCanlib K (kva_state s) of
        (library, k) \<Rightarrow>
          let s = s\<lparr>kva_library := library, kva_state := k\<rparr> in
          if library = 0 \<or> \<not> wl_exports L library ''canOpenChannel'' \<or>
             \<not> wl_exports L library ''canSetBusParams'' \<or> \<not> wl_exports L library ''canBusOn''
          then (False, ReportErrorH ''canlib32.dll was not found; install the Kvaser CANlib driver'' (ReleaseK s))
          else case kv_openChannel K channelNumber openExclusive k of
              (handle, k) \<Rightarrow>
                let s = s\<lparr>kva_handle := handle, kva_state := k\<rparr> in
                if handle < 0 then refused s
                else case kv_setBusParams K handle bitrateCode k of
                    (status, k) \<Rightarrow>
                      if status \<noteq> kvStatusOk then refused (s\<lparr>kva_state := k\<rparr>)
                      else case kv_busOn K handle k of
                          (status, k) \<Rightarrow>
                            if status \<noteq> kvStatusOk then refused (s\<lparr>kva_state := k\<rparr>)
                            else (True, s\<lparr>kva_state := k\<rparr>))"

definition DisconnectK :: "('a, 'k) kvaser \<Rightarrow> ('a, 'k) kvaser" where
  "DisconnectK s = (if \<not> IsConnectedK s then s else ho_emit [ConnectionChanged False] (ReleaseK s))"

definition ConnectK :: "string \<Rightarrow> u32 \<Rightarrow> ('a, 'k) kvaser \<Rightarrow> bool \<times> ('a, 'k) kvaser" where
  "ConnectK interfaceName bitrate s0 =
     (let s = (if IsConnectedK s0 then DisconnectK s0 else s0) in
      case (ParseChannelNumber interfaceName, KvBitrateCode bitrate) of
        (Some number, Some code) \<Rightarrow>
          if unat number \<ge> kvMaxChannels
          then (False, ReportErrorH ''Kvaser channels are numbered from 0 (for example Kvaser:0) and need a standard bitrate'' s)
          else (case OpenK (uint number) code s of
              (False, s) \<Rightarrow> (False, s)
            | (True, s) \<Rightarrow> (True, ho_emit [ConnectionChanged True] s))
      | _ \<Rightarrow> (False, ReportErrorH ''Kvaser channels are numbered from 0 (for example Kvaser:0) and need a standard bitrate'' s))"

section \<open>Sending and receiving\<close>

definition SendDataK :: "can_id \<Rightarrow> bytes \<Rightarrow> 'a \<Rightarrow> ('a, 'k) kvaser \<Rightarrow> ('a, 'k) kvaser" where
  "SendDataK canId data actionOnCompletion s0 =
     (case canId of
        Id11 _ \<Rightarrow> ScheduleCompletionH actionOnCompletion False s0
      | Id29 rawId \<Rightarrow>
          if \<not> IsConnectedK s0 \<or> \<not> wl_exports (kv_loader (kva_system s0)) (kva_library s0) ''canWrite''
          then ScheduleCompletionH actionOnCompletion False s0
          else
            let len = min (length data) 8; buffer = take len data @ replicate (8 - len) 0 in
            (case kv_write (kva_system s0) (kva_handle s0) (sint rawId) buffer len kvMessageExtended (kva_state s0) of
               (status, k) \<Rightarrow>
                 let s = s0\<lparr>kva_state := k\<rparr>; success = (status = kvStatusOk);
                   s = (if success then ho_emit [FrameLog True rawId data] s
                        else ReportErrorH ''Failed to send CAN frame via Kvaser'' s)
                 in ScheduleCompletionH actionOnCompletion success s))"

definition read_kvaser :: "('a, 'k) kvaser \<Rightarrow> bool \<times> ('a, 'k) kvaser" where
  "read_kvaser s0 =
     (case kv_read (kva_system s0) (kva_handle s0) (kva_state s0) of
        (status, m, k) \<Rightarrow>
          let s = s0\<lparr>kva_state := k\<rparr> in
          if status \<noteq> kvStatusOk then (False, s)
          else if km_flags m AND (kvMessageRemote OR kvMessageErrorFrame) \<noteq> 0 \<or> km_flags m AND kvMessageExtended = 0
          then (True, s)
          else (True, DeliverH (word_of_int (km_id m)) (take (min (unat (km_length m)) 8) (km_data m)) s))"

definition ProcessReadEventK :: "('a, 'k) kvaser \<Rightarrow> ('a, 'k) kvaser" where
  "ProcessReadEventK s =
     (if IsConnectedK s \<and> wl_exports (kv_loader (kva_system s)) (kva_library s) ''canRead''
      then poll kvMaxFramesPerPoll IsConnectedK read_kvaser s
      else s)"

definition FileDescriptorK :: "('a, 'k) kvaser \<Rightarrow> int" where
  "FileDescriptorK s = - 1"

section \<open>Interfaces\<close>

definition EnumerateInterfacesK :: "('a, 'k) kvaser \<Rightarrow> string list \<times> 'k" where
  "EnumerateInterfacesK s =
     (let K = kva_system s in
      case LoadCanlib K (kva_state s) of
        (probe, k) \<Rightarrow>
          if probe = 0 then ([], k)
          else case (if wl_exports (kv_loader K) probe ''canGetNumberOfChannels''
                     then kv_getNumberOfChannels K k else (- 1, 0, k)) of
              (status, n, k) \<Rightarrow>
                (if status = kvStatusOk
                 then map (\<lambda>index. ReportChannelNumber (of_nat index)) [0..<nat (min n (int kvMaxChannels))]
                 else [],
                 UnloadCanlib K probe k))"

definition EnumerateMissingDriversK :: "('a, 'k) kvaser \<Rightarrow> string list \<times> 'k" where
  "EnumerateMissingDriversK s =
     (let L = kv_loader (kva_system s) in
      case wl_LoadLibrary L canlibName (kva_state s) of
        (probe, k) \<Rightarrow>
          if probe = 0 then ([''Kvaser: canlib32.dll was not found; install the Kvaser CANlib driver''], k)
          else ([], wl_FreeLibrary L probe k))"

definition kvaser_operations :: "('a, ('a, 'k) kvaser) host_operations" where
  "kvaser_operations =
     \<lparr>hop_Connect = \<lambda>name bitrate s. Some (ConnectK name bitrate s), hop_Disconnect = DisconnectK,
      hop_IsConnected = IsConnectedK, hop_SendData = SendDataK, hop_ProcessReadEvent = ProcessReadEventK\<rparr>"

end
