(* ===== verification/KvaserLaws.thy ===== *)
theory KvaserLaws
  imports KvaserAdapter HostLaws
begin

text \<open>
  What the adapter for Kvaser devices guarantees: it keeps the contract of an adapter, frees the
  library as often as it loads it and closes every channel that it opens, and accepts every channel
  that it lists.
\<close>

section \<open>The contract of an adapter\<close>

lemma tells_kvaser [simp]:
  "tells s out (s'\<lparr>kva_state := k\<rparr>) = tells s out s'" "tells s out (s'\<lparr>kva_library := l\<rparr>) = tells s out s'"
  "tells s out (s'\<lparr>kva_handle := h\<rparr>) = tells s out s'" "tells s out (ReleaseK s') = tells s out s'"
  by (simp_all add: tells_def ReleaseK_def Let_def)

lemma kvaser_operations_simps [simp]:
  "hop_Connect kvaser_operations name bitrate s = Some (ConnectK name bitrate s)"
  "hop_Disconnect kvaser_operations = DisconnectK" "hop_IsConnected kvaser_operations = IsConnectedK"
  "hop_SendData kvaser_operations = SendDataK" "hop_ProcessReadEvent kvaser_operations = ProcessReadEventK"
  by (simp_all add: kvaser_operations_def)

lemma kvaser_members:
  "host_members.more s = host_members.more s' \<Longrightarrow> kva_system s = kva_system s' \<and> kva_state s = kva_state s' \<and>
    kva_library s = kva_library s' \<and> kva_handle s = kva_handle s'"
  by (cases s; cases s') simp

lemma kvaser_fields [simp]:
  "kva_system (ho_emit out s) = kva_system s" "kva_state (ho_emit out s) = kva_state s"
  "kva_library (ho_emit out s) = kva_library s" "kva_handle (ho_emit out s) = kva_handle s"
  "kva_system (ReportErrorH m s) = kva_system s" "kva_state (ReportErrorH m s) = kva_state s"
  "kva_library (ReportErrorH m s) = kva_library s" "kva_handle (ReportErrorH m s) = kva_handle s"
  "kva_system (DeliverH i d s) = kva_system s" "kva_state (DeliverH i d s) = kva_state s"
  "kva_library (DeliverH i d s) = kva_library s" "kva_handle (DeliverH i d s) = kva_handle s"
  "kva_system (ScheduleCompletionH a ok s) = kva_system s" "kva_state (ScheduleCompletionH a ok s) = kva_state s"
  "kva_library (ScheduleCompletionH a ok s) = kva_library s" "kva_handle (ScheduleCompletionH a ok s) = kva_handle s"
  by (simp_all add: ho_emit_def ReportErrorH_def DeliverH_def ScheduleCompletionH_def Let_def)

lemma ReleaseK_fields [simp]:
  "kva_library (ReleaseK s) = 0" "kva_handle (ReleaseK s) = - 1" "kva_system (ReleaseK s) = kva_system s"
  by (simp_all add: ReleaseK_def Let_def)

text \<open>The branches of \<open>Open\<close>.\<close>

lemma OpenK_cases:
  assumes "OpenK n code s = (ok, s')"
  obtains (missing) lib k m where "LoadCanlib (kva_system s) (kva_state s) = (lib, k)" "ok = False"
      "s' = ReportErrorH m (ReleaseK (s\<lparr>kva_library := lib, kva_state := k\<rparr>))"
  | (refused) lib k h k1 k2 m where "LoadCanlib (kva_system s) (kva_state s) = (lib, k)" "lib \<noteq> 0" "ok = False"
      "kv_openChannel (kva_system s) n openExclusive k = (h, k1)"
      "k2 \<in> {k1, snd (kv_setBusParams (kva_system s) h code k1),
        snd (kv_busOn (kva_system s) h (snd (kv_setBusParams (kva_system s) h code k1)))}"
      "s' = ReportErrorH m (ReleaseK (s\<lparr>kva_library := lib, kva_handle := h, kva_state := k2\<rparr>))"
  | (opened) lib k h k1 where "LoadCanlib (kva_system s) (kva_state s) = (lib, k)" "lib \<noteq> 0" "ok = True"
      "kv_openChannel (kva_system s) n openExclusive k = (h, k1)" "0 \<le> h"
      "fst (kv_setBusParams (kva_system s) h code k1) = kvStatusOk"
      "s' = s\<lparr>kva_library := lib, kva_handle := h,
         kva_state := snd (kv_busOn (kva_system s) h (snd (kv_setBusParams (kva_system s) h code k1)))\<rparr>"
proof -
  let ?K = "kva_system s"
  obtain lib k where l: "LoadCanlib ?K (kva_state s) = (lib, k)" by force
  obtain h k1 where o: "kv_openChannel ?K n openExclusive k = (h, k1)" by force
  obtain st1 k2 where b: "kv_setBusParams ?K h code k1 = (st1, k2)" by force
  obtain st2 k3 where u: "kv_busOn ?K h k2 = (st2, k3)" by force
  note step = assms [unfolded OpenK_def Let_def l prod.case]
  let ?exported = "\<lambda>f. wl_exports (kv_loader ?K) lib f"
  show thesis
  proof (cases "lib = 0 \<or> \<not> ?exported ''canOpenChannel'' \<or> \<not> ?exported ''canSetBusParams'' \<or> \<not> ?exported ''canBusOn''")
    case True
    then show thesis using step missing [OF l] by auto
  next
    case False
    note step = step [unfolded if_not_P [OF False] o prod.case b u]
    consider "h < 0" | "0 \<le> h" "st1 \<noteq> kvStatusOk" | "0 \<le> h" "st1 = kvStatusOk" "st2 \<noteq> kvStatusOk"
      | "0 \<le> h" "st1 = kvStatusOk" "st2 = kvStatusOk" by force
    then show thesis
    proof cases
      case 1
      then show thesis using step refused [OF l _ _ o, of k1] False by auto
    next
      case 2
      then show thesis using step refused [OF l _ _ o, of k2] False b by auto
    next
      case 3
      then show thesis using step refused [OF l _ _ o, of k3] False b u by auto
    next
      case 4
      then show thesis using step opened [OF l _ _ o] False b u by auto
    qed
  qed
qed

lemma OpenK_outcome:
  assumes "OpenK n code s = (ok, s')"
  shows "IsConnectedK s' = ok"
    and "\<not> ok \<Longrightarrow> connect_outcome False False s s'" and "ok \<Longrightarrow> tells s [] s'"
  using assms by (rule OpenK_cases; simp add: IsConnectedK_def connect_fails)+

lemma ConnectK_reconnects: "IsConnectedK s \<Longrightarrow> ConnectK name bitrate s = ConnectK name bitrate (DisconnectK s)"
  by (simp add: ConnectK_def IsConnectedK_def DisconnectK_def)

text \<open>A \<open>Connect\<close> on an adapter that is not connected.\<close>

lemma ConnectK_cases:
  assumes "ConnectK name bitrate s = (ok, s')" and "\<not> IsConnectedK s"
  obtains (invalid) m where "ok = False" "s' = ReportErrorH m s"
  | (failed) n code where "ParseChannelNumber name = Some n" "KvBitrateCode bitrate = Some code" "unat n < kvMaxChannels"
      "OpenK (uint n) code s = (False, s')" "ok = False"
  | (accepted) n code s1 where "ParseChannelNumber name = Some n" "KvBitrateCode bitrate = Some code" "unat n < kvMaxChannels"
      "OpenK (uint n) code s = (True, s1)" "ok = True" "s' = ho_emit [ConnectionChanged True] s1"
proof (cases "ParseChannelNumber name")
  case None
  then show thesis using assms invalid by (auto simp: ConnectK_def)
next
  case (Some n)
  note parsed = this
  show thesis
  proof (cases "KvBitrateCode bitrate")
    case None
    then show thesis using assms parsed invalid by (auto simp: ConnectK_def)
  next
    case (Some code)
    show thesis
    proof (cases "unat n < kvMaxChannels")
      case False
      then show thesis using assms parsed Some invalid by (auto simp: ConnectK_def)
    next
      case True
      obtain b s1 where "OpenK (uint n) code s = (b, s1)" by force
      then show thesis using assms parsed Some True failed accepted by (cases b) (auto simp: ConnectK_def)
    qed
  qed
qed

lemma ConnectK_fresh:
  assumes "ConnectK name bitrate s = (ok, s')" and "\<not> IsConnectedK s"
  shows "IsConnectedK s' = ok \<and> connect_outcome False ok s s'"
  using assms
proof (cases rule: ConnectK_cases)
  case (invalid m)
  then show ?thesis using assms(2) by (simp add: connect_fails IsConnectedK_def)
next
  case (failed n code)
  then show ?thesis using OpenK_outcome [OF failed(4)] by simp
next
  case (accepted n code s1)
  then show ?thesis using OpenK_outcome [OF accepted(4)] by (simp add: connect_succeeds IsConnectedK_def)
qed

lemma DisconnectK_tells:
  "\<not> IsConnectedK (DisconnectK s)" "IsConnectedK s \<Longrightarrow> tells s [ConnectionChanged False] (DisconnectK s)"
  "\<not> IsConnectedK s \<Longrightarrow> DisconnectK s = s"
proof -
  have "tells s [] (ReleaseK s)" by simp
  then show "IsConnectedK s \<Longrightarrow> tells s [ConnectionChanged False] (DisconnectK s)"
    by (simp add: DisconnectK_def ho_emit_def tells_def)
qed (simp_all add: IsConnectedK_def DisconnectK_def)

lemma ConnectK_tells:
  assumes "ConnectK name bitrate s = (ok, s')"
  shows "IsConnectedK s' = ok \<and> connect_outcome (IsConnectedK s) ok s s'"
proof (cases "IsConnectedK s")
  case True
  note fresh = ConnectK_fresh [OF assms [unfolded ConnectK_reconnects [OF True]] DisconnectK_tells(1)]
  then show ?thesis
    using connect_again [OF DisconnectK_tells(2) [OF True] conjunct2 [OF fresh]] True by simp
next
  case False
  then show ?thesis using ConnectK_fresh [OF assms] by simp
qed

lemma SendDataK_tells:
  "IsConnectedK (SendDataK canId data a s) = IsConnectedK s \<and>
    send_outcome (IsConnectedK s) canId data a s (SendDataK canId data a s)"
proof (cases "\<exists>i. canId = Id29 i \<and> IsConnectedK s \<and> wl_exports (kv_loader (kva_system s)) (kva_library s) ''canWrite''")
  case False
  then have "SendDataK canId data a s = ScheduleCompletionH a False s"
    by (auto simp: SendDataK_def split: can_id.split)
  then show ?thesis by (simp add: send_refused IsConnectedK_def)
next
  case True
  then obtain i where i: "canId = Id29 i" "IsConnectedK s" "wl_exports (kv_loader (kva_system s)) (kva_library s) ''canWrite''"
    by blast
  let ?len = "min (length data) 8"
  obtain st k where w: "kv_write (kva_system s) (kva_handle s) (sint i) (take ?len data @ replicate (8 - ?len) 0) ?len
      kvMessageExtended (kva_state s) = (st, k)" by force
  have "tells s [] (s\<lparr>kva_state := k\<rparr>)" by simp
  then show ?thesis using i w
    by (simp add: SendDataK_def Let_def send_succeeds send_fails) (simp add: IsConnectedK_def)
qed

lemma read_kvaser_reads:
  assumes "IsConnectedK s" and "read_kvaser s = (again, s')"
  shows "reads True s (IsConnectedK s') s'"
proof -
  obtain st m k where r: "kv_read (kva_system s) (kva_handle s) (kva_state s) = (st, m, k)" using prod_cases3 by blast
  have quiet: "reads True s True (s\<lparr>kva_state := k\<rparr>)" by (rule reads_state) simp
  moreover have "reads True (s\<lparr>kva_state := k\<rparr>) True (DeliverH i (take (min n 8) d) (s\<lparr>kva_state := k\<rparr>))" for i n d
    by (rule reads_deliver) simp
  ultimately have "reads True s True (DeliverH i (take (min n 8) d) (s\<lparr>kva_state := k\<rparr>))" for i n d
    using reads_trans by blast
  then show ?thesis using assms r quiet
    by (auto simp: read_kvaser_def Let_def IsConnectedK_def split: if_splits)
qed

lemma ProcessReadEventK_reads:
  "reads (IsConnectedK s) s (IsConnectedK (ProcessReadEventK s)) (ProcessReadEventK s)"
proof -
  have "reads (IsConnectedK s) s (IsConnectedK (poll n IsConnectedK read_kvaser s)) (poll n IsConnectedK read_kvaser s)" for n
    by (rule poll_reads) (rule read_kvaser_reads)
  then show ?thesis by (cases "IsConnectedK s") (simp_all add: ProcessReadEventK_def)
qed

interpretation kvaser: host_adapter "kvaser_operations :: ('a, ('a, 'k) kvaser) host_operations"
proof
  fix s s' :: "('a, 'k) kvaser" and name bitrate ok canId data a
  show "hop_IsConnected kvaser_operations s = hop_IsConnected kvaser_operations s'"
    if "host_members.more s = host_members.more s'"
    using kvaser_members [OF that] by (simp add: IsConnectedK_def)
  show "hop_IsConnected kvaser_operations s' = ok \<and> connect_outcome (hop_IsConnected kvaser_operations s) ok s s'"
    if "hop_Connect kvaser_operations name bitrate s = Some (ok, s')"
    using ConnectK_tells [of name bitrate s ok s'] that by simp
  show "\<not> hop_IsConnected kvaser_operations (hop_Disconnect kvaser_operations s) \<and>
      tells s (if hop_IsConnected kvaser_operations s then [ConnectionChanged False] else [])
        (hop_Disconnect kvaser_operations s)"
    using DisconnectK_tells [of s] by simp
  show "hop_IsConnected kvaser_operations (hop_SendData kvaser_operations canId data a s) =
        hop_IsConnected kvaser_operations s \<and>
      send_outcome (hop_IsConnected kvaser_operations s) canId data a s (hop_SendData kvaser_operations canId data a s)"
    using SendDataK_tells by simp
  show "reads (hop_IsConnected kvaser_operations s) s
      (hop_IsConnected kvaser_operations (hop_ProcessReadEvent kvaser_operations s))
      (hop_ProcessReadEvent kvaser_operations s)"
    using ProcessReadEventK_reads by simp
qed

section \<open>What the adapter holds\<close>

text \<open>A library that keeps to its documentation: \<open>loaded\<close> counts the loads that were not freed, \<open>channels\<close> is
  the set of open channels, \<^verbatim>\<open>canClose\<close> is one of its functions, and no other function loads, frees,
  opens or closes.\<close>

definition unmoved :: "('k \<Rightarrow> nat) \<Rightarrow> ('k \<Rightarrow> int set) \<Rightarrow> 'k \<Rightarrow> 'k \<Rightarrow> bool" where
  "unmoved loaded channels k k' \<longleftrightarrow> loaded k' = loaded k \<and> channels k' = channels k"

definition canlib_tracked :: "'k canlib \<Rightarrow> ('k \<Rightarrow> nat) \<Rightarrow> ('k \<Rightarrow> int set) \<Rightarrow> bool" where
  "canlib_tracked K loaded channels \<longleftrightarrow>
     loader_tracked (kv_loader K) loaded \<and> (\<forall>m. wl_exports (kv_loader K) m ''canClose'') \<and>
     (\<forall>name k. channels (snd (wl_LoadLibrary (kv_loader K) name k)) = channels k) \<and>
     (\<forall>m k. channels (wl_FreeLibrary (kv_loader K) m k) = channels k) \<and>
     (\<forall>k. unmoved loaded channels k (kv_initializeLibrary K k)) \<and>
     (\<forall>k. unmoved loaded channels k (kv_unloadLibrary K k)) \<and>
     (\<forall>n e k. loaded (snd (kv_openChannel K n e k)) = loaded k \<and> opens channels (kv_openChannel K n e k) k) \<and>
     (\<forall>h c k. unmoved loaded channels k (snd (kv_setBusParams K h c k))) \<and>
     (\<forall>h k. unmoved loaded channels k (snd (kv_busOn K h k))) \<and>
     (\<forall>h k. unmoved loaded channels k (kv_busOff K h k)) \<and>
     (\<forall>h k. loaded (kv_close K h k) = loaded k \<and> channels (kv_close K h k) = channels k - {h}) \<and>
     (\<forall>h i d n f k. unmoved loaded channels k (snd (kv_write K h i d n f k))) \<and>
     (\<forall>h k. unmoved loaded channels k (snd (snd (kv_read K h k))))"

lemma canlib_functions:
  assumes "canlib_tracked K loaded channels"
  shows "loader_tracked (kv_loader K) loaded" "wl_exports (kv_loader K) m ''canClose''"
    and "channels (snd (wl_LoadLibrary (kv_loader K) name k)) = channels k"
    and "channels (wl_FreeLibrary (kv_loader K) m k) = channels k" "loaded (wl_FreeLibrary (kv_loader K) m k) = loaded k - 1"
    and "loaded (kv_initializeLibrary K k) = loaded k" "channels (kv_initializeLibrary K k) = channels k"
    and "loaded (kv_unloadLibrary K k) = loaded k" "channels (kv_unloadLibrary K k) = channels k"
    and "loaded (snd (kv_openChannel K n e k)) = loaded k" "opens channels (kv_openChannel K n e k) k"
    and "loaded (snd (kv_setBusParams K h c k)) = loaded k" "channels (snd (kv_setBusParams K h c k)) = channels k"
    and "loaded (snd (kv_busOn K h k)) = loaded k" "channels (snd (kv_busOn K h k)) = channels k"
    and "loaded (kv_busOff K h k) = loaded k" "channels (kv_busOff K h k) = channels k"
    and "loaded (kv_close K h k) = loaded k" "channels (kv_close K h k) = channels k - {h}"
    and "loaded (snd (kv_write K h i d len f k)) = loaded k" "channels (snd (kv_write K h i d len f k)) = channels k"
    and "loaded (snd (snd (kv_read K h k))) = loaded k" "channels (snd (snd (kv_read K h k))) = channels k"
  using assms by (simp_all add: canlib_tracked_def unmoved_def FreeLibrary_tracked)

lemma LoadCanlib_tracked:
  assumes "canlib_tracked K loaded channels" and "LoadCanlib K k = (lib, k')"
  shows "loaded k' = (if lib = 0 then loaded k else Suc (loaded k))" and "channels k' = channels k"
proof -
  note f = canlib_functions [OF assms(1)]
  obtain m k1 where l: "wl_LoadLibrary (kv_loader K) canlibName k = (m, k1)" by force
  have "loaded k1 = (if m = 0 then loaded k else Suc (loaded k))" "channels k1 = channels k"
    using LoadLibrary_tracked [OF f(1) l] f(3) [of canlibName k] l by simp_all
  then show "loaded k' = (if lib = 0 then loaded k else Suc (loaded k))" and "channels k' = channels k"
    using assms(2) l f(6,7) by (auto simp: LoadCanlib_def if_loaded_def LoadFrom_def split: if_splits)
qed

text \<open>\<open>Release\<close> gives back what is held: the library, and the channel when one is open.\<close>

lemma ReleaseK_frees:
  assumes "canlib_tracked (kva_system s) loaded channels"
    and "loaded (kva_state s) = (if kva_library s = 0 then n else Suc n)"
    and "if kva_library s \<noteq> 0 \<and> 0 \<le> kva_handle s
      then kva_handle s \<notin> others \<and> channels (kva_state s) = insert (kva_handle s) others
      else channels (kva_state s) = others"
  shows "loaded (kva_state (ReleaseK s)) = n \<and> channels (kva_state (ReleaseK s)) = others"
  using assms(2,3) canlib_functions [OF assms(1)]
  by (auto simp: ReleaseK_def UnloadCanlib_def if_loaded_def LoadFrom_def Let_def)

definition kvaser_balanced ::
    "('k \<Rightarrow> nat) \<Rightarrow> ('k \<Rightarrow> int set) \<Rightarrow> nat \<Rightarrow> int set \<Rightarrow> ('a, 'k) kvaser \<Rightarrow> bool" where
  "kvaser_balanced loaded channels n others s \<longleftrightarrow> canlib_tracked (kva_system s) loaded channels \<and>
     (if IsConnectedK s
      then loaded (kva_state s) = Suc n \<and> kva_handle s \<notin> others \<and> channels (kva_state s) = insert (kva_handle s) others
      else kva_library s = 0 \<and> kva_handle s < 0 \<and> loaded (kva_state s) = n \<and> channels (kva_state s) = others)"

lemma kvaser_balanced_telling [simp]:
  "kvaser_balanced loaded channels n others (ho_emit out s) = kvaser_balanced loaded channels n others s"
  "kvaser_balanced loaded channels n others (ReportErrorH m s) = kvaser_balanced loaded channels n others s"
  "kvaser_balanced loaded channels n others (DeliverH i d s) = kvaser_balanced loaded channels n others s"
  "kvaser_balanced loaded channels n others (ScheduleCompletionH a ok s) = kvaser_balanced loaded channels n others s"
  by (simp_all add: kvaser_balanced_def IsConnectedK_def)

lemma released_balanced:
  assumes "canlib_tracked (kva_system s) loaded channels"
    and "loaded (kva_state s) = (if kva_library s = 0 then n else Suc n)"
    and "if kva_library s \<noteq> 0 \<and> 0 \<le> kva_handle s
      then kva_handle s \<notin> others \<and> channels (kva_state s) = insert (kva_handle s) others
      else channels (kva_state s) = others"
  shows "kvaser_balanced loaded channels n others (ReleaseK s)"
  using ReleaseK_frees [OF assms] assms(1) by (simp add: kvaser_balanced_def IsConnectedK_def)

lemma OpenK_balanced:
  assumes "kvaser_balanced loaded channels n others s" and "\<not> IsConnectedK s" and "OpenK c code s = (ok, s')"
  shows "kvaser_balanced loaded channels n others s'"
proof -
  let ?K = "kva_system s"
  have s: "canlib_tracked ?K loaded channels" "kva_library s = 0" "kva_handle s < 0" "loaded (kva_state s) = n"
    "channels (kva_state s) = others" using assms(1,2) by (simp_all add: kvaser_balanced_def)
  note f = canlib_functions [OF s(1)] and load = LoadCanlib_tracked [OF s(1)]
  show ?thesis using assms(3)
  proof (cases rule: OpenK_cases)
    case (missing lib k m)
    then show ?thesis using s load [OF missing(1)] by (auto intro!: released_balanced)
  next
    case (refused lib k h k1 k2 m)
    have "loaded k1 = Suc n" "opens channels (h, k1) k" "channels k = others"
      using f(10,11) [of c openExclusive k] refused(2,4) load [OF refused(1)] s by simp_all
    moreover from this have "loaded k2 = Suc n" "channels k2 = channels k1"
      using refused(5) f(12-15) by auto
    ultimately show ?thesis unfolding refused(6) using refused(2) s
      by (auto simp: opens_def intro!: released_balanced split: if_splits)
  next
    case (opened lib k h k1)
    have "loaded k1 = Suc n" "opens channels (h, k1) k" "channels k = others"
      using f(10,11) [of c openExclusive k] opened(2,4) load [OF opened(1)] s by simp_all
    then show ?thesis unfolding opened(7) using opened(2,5) s f(12-15)
      by (auto simp: opens_def kvaser_balanced_def IsConnectedK_def)
  qed
qed

lemma DisconnectK_balanced:
  assumes "kvaser_balanced loaded channels n others s"
  shows "kvaser_balanced loaded channels n others (DisconnectK s)"
proof (cases "IsConnectedK s")
  case True
  then have "kvaser_balanced loaded channels n others (ReleaseK s)"
    using assms by (intro released_balanced) (auto simp: kvaser_balanced_def IsConnectedK_def)
  then show ?thesis using True by (simp add: DisconnectK_def)
next
  case False
  then show ?thesis using assms by (simp add: DisconnectK_def)
qed

lemma ConnectK_balanced:
  assumes "kvaser_balanced loaded channels n others s" and "ConnectK name bitrate s = (ok, s')"
  shows "kvaser_balanced loaded channels n others s'"
proof -
  let ?s = "DisconnectK s"
  have s: "kvaser_balanced loaded channels n others ?s" by (rule DisconnectK_balanced [OF assms(1)])
  have "ConnectK name bitrate ?s = (ok, s')"
    using assms(2) ConnectK_reconnects [of s name bitrate] DisconnectK_tells(3) [of s] by (cases "IsConnectedK s") simp_all
  then show ?thesis using DisconnectK_tells(1) [of s]
  proof (cases rule: ConnectK_cases)
    case (invalid m)
    then show ?thesis using s by simp
  next
    case (failed c code)
    then show ?thesis using OpenK_balanced [OF s DisconnectK_tells(1)] by blast
  next
    case (accepted c code s1)
    then show ?thesis using OpenK_balanced [OF s DisconnectK_tells(1) accepted(4)] by simp
  qed
qed

lemma kvaser_balanced_update:
  assumes "kvaser_balanced loaded channels n others s" and "loaded k = loaded (kva_state s)" "channels k = channels (kva_state s)"
  shows "kvaser_balanced loaded channels n others (s\<lparr>kva_state := k\<rparr>)"
  using assms by (simp add: kvaser_balanced_def IsConnectedK_def)

lemma SendDataK_balanced:
  assumes "kvaser_balanced loaded channels n others s"
  shows "kvaser_balanced loaded channels n others (SendDataK canId data a s)"
proof -
  have "kvaser_balanced loaded channels n others (s\<lparr>kva_state := k\<rparr>)"
    if "kv_write (kva_system s) h i d len f (kva_state s) = (st, k)" for h i d len f st k
    using assms that canlib_functions(20,21) [of "kva_system s" loaded channels h i d len f "kva_state s"]
    by (intro kvaser_balanced_update) (simp_all add: kvaser_balanced_def)
  then show ?thesis using assms by (simp add: SendDataK_def Let_def split: can_id.split prod.split)
qed

lemma read_kvaser_balanced:
  assumes "kvaser_balanced loaded channels n others s"
  shows "kvaser_balanced loaded channels n others (snd (read_kvaser s))"
proof -
  have "kvaser_balanced loaded channels n others (s\<lparr>kva_state := k\<rparr>)"
    if "kv_read (kva_system s) h (kva_state s) = (st, m, k)" for h st m k
    using assms that canlib_functions(22,23) [of "kva_system s" loaded channels h "kva_state s"]
    by (intro kvaser_balanced_update) (simp_all add: kvaser_balanced_def)
  then show ?thesis by (simp add: read_kvaser_def Let_def split: prod.split)
qed

lemma ProcessReadEventK_balanced:
  assumes "kvaser_balanced loaded channels n others s"
  shows "kvaser_balanced loaded channels n others (ProcessReadEventK s)"
proof -
  have "kvaser_balanced loaded channels n others (poll m IsConnectedK read_kvaser s)" for m
    by (rule poll_keeps) (rule read_kvaser_balanced, assumption, rule assms)
  then show ?thesis using assms by (simp add: ProcessReadEventK_def)
qed

interpretation kvaser_resources: leak_free_adapter "kvaser_operations :: ('a, ('a, 'k) kvaser) host_operations"
    "kvaser_balanced loaded channels n others" for loaded :: "'k \<Rightarrow> nat" and channels n others
proof
  fix s s' :: "('a, 'k) kvaser" and name bitrate ok canId data a
  show "kvaser_balanced loaded channels n others s = kvaser_balanced loaded channels n others s'"
    if "host_members.more s = host_members.more s'"
    using kvaser_members [OF that] by (simp add: kvaser_balanced_def IsConnectedK_def)
  assume s: "kvaser_balanced loaded channels n others s"
  show "kvaser_balanced loaded channels n others s'" if "hop_Connect kvaser_operations name bitrate s = Some (ok, s')"
    using ConnectK_balanced [OF s] that by simp
  show "kvaser_balanced loaded channels n others (hop_Disconnect kvaser_operations s)"
    "kvaser_balanced loaded channels n others (hop_SendData kvaser_operations canId data a s)"
    "kvaser_balanced loaded channels n others (hop_ProcessReadEvent kvaser_operations s)"
    using DisconnectK_balanced [OF s] SendDataK_balanced [OF s] ProcessReadEventK_balanced [OF s] by simp_all
qed

section \<open>Properties\<close>

text \<open>C33: What a user of the adapter for Kvaser devices sees, whatever the driver answers.  The
  connections it reports alternate with their losses and agree with \<^verbatim>\<open>IsConnected\<close>, and frames are
  reported only while it is connected; every send is completed exactly once, with success exactly
  when the frame was transmitted; and at any time the adapter holds the library once and its channel
  while it is connected, and otherwise neither, however a connection failed.\<close>

theorem kvaser_consistent:
  fixes es :: "'a host_event list"
  assumes "canlib_tracked K loaded channels"
    and "admissible (host_enabled kvaser_operations) (host_step kvaser_operations) es (KvaserAdapter K k)"
  shows "case run_io (host_step kvaser_operations) es (KvaserAdapter K k) of
    (s, out) \<Rightarrow>
      seen (ho_log s) = Some (IsConnectedK s) \<and>
      results_in out + host_awaited s =
        total_over (host_brought kvaser_operations) (host_step kvaser_operations) es (KvaserAdapter K k) \<and>
      size (host_awaited s) \<le> 1 \<and>
      loaded (kva_state s) = loaded k + (if IsConnectedK s then 1 else 0) \<and>
      channels (kva_state s) = channels k \<union> (if IsConnectedK s then {kva_handle s} else {}) \<and>
      loaded (kva_state (DisconnectK s)) = loaded k \<and> channels (kva_state (DisconnectK s)) = channels k"
proof -
  let ?ops = "kvaser_operations :: ('a, ('a, 'b) kvaser) host_operations"
  let ?s0 = "KvaserAdapter K k :: ('a, 'b) kvaser"
  obtain s out where run: "run_io (host_step ?ops) es ?s0 = (s, out)" by force
  have "host_idle ?ops ?s0" by (simp add: host_idle_def KvaserAdapter_def IsConnectedK_def)
  note seen = kvaser.observers_consistent [OF this assms(2) run]
  have "kvaser_balanced loaded channels (loaded k) (channels k) ?s0"
    using assms(1) by (simp add: kvaser_balanced_def KvaserAdapter_def IsConnectedK_def)
  from kvaser_resources.resources.run_inv [OF this assms(2)]
  have balanced: "kvaser_balanced loaded channels (loaded k) (channels k) s" by (simp add: run)
  have "loaded (kva_state (DisconnectK s)) = loaded k \<and> channels (kva_state (DisconnectK s)) = channels k"
    using DisconnectK_balanced [OF balanced] DisconnectK_tells(1) [of s] by (simp add: kvaser_balanced_def)
  then show ?thesis using seen balanced by (simp add: run kvaser_balanced_def)
qed

text \<open>A driver with one channel, whose state is the number of loads and the open channels.\<close>

definition sample_canlib :: "(nat \<times> int set) canlib" where
  "sample_canlib =
     \<lparr>kv_loader = \<lparr>wl_LoadLibrary = \<lambda>_ (l, c). (1, (Suc l, c)), wl_FreeLibrary = \<lambda>_ (l, c). (l - 1, c),
        wl_exports = \<lambda>_ _. True\<rparr>,
      kv_initializeLibrary = \<lambda>k. k, kv_unloadLibrary = \<lambda>k. k, kv_getNumberOfChannels = \<lambda>k. (kvStatusOk, 1, k),
      kv_openChannel = \<lambda>_ _ (l, c). if 0 \<in> c then (- 1, (l, c)) else (0, (l, insert 0 c)),
      kv_setBusParams = \<lambda>_ _ k. (kvStatusOk, k), kv_busOn = \<lambda>_ k. (kvStatusOk, k), kv_busOff = \<lambda>_ k. k,
      kv_close = \<lambda>h (l, c). (l, c - {h}), kv_write = \<lambda>_ _ _ _ _ k. (kvStatusOk, k),
      kv_read = \<lambda>_ k. (- 2, \<lparr>km_id = 0, km_data = [], km_length = 0, km_flags = 0\<rparr>, k)\<rparr>"

lemma sample_canlib_tracked: "canlib_tracked sample_canlib fst snd"
  by (simp add: canlib_tracked_def loader_tracked_def unmoved_def opens_def sample_canlib_def split: prod.split)

theorem kvaser_consistent_witness:
  "\<exists>s out. run_io (host_step kvaser_operations)
      [HostReceiveData, HostSend (Id29 5) [1] (7 :: nat), HostRunScheduled, HostConnect ''0'' 500000, HostReadEvent]
      (KvaserAdapter sample_canlib (0, {})) = (s, out) \<and>
    seen (ho_log s) = Some (IsConnectedK s) \<and> kva_state (DisconnectK s) = (0, {})"
proof -
  let ?es = "[HostReceiveData, HostSend (Id29 5) [1] (7 :: nat), HostRunScheduled, HostConnect ''0'' 500000, HostReadEvent]"
  let ?start = "KvaserAdapter sample_canlib (0, {}) :: (nat, nat \<times> int set) kvaser"
  have "admissible (host_enabled kvaser_operations) (host_step kvaser_operations) ?es ?start"
    by (simp add: host_enabled_def host_step_def Let_def SendDataK_def IsConnectedK_def ReceiveDataH_def
        ScheduleCompletionH_def KvaserAdapter_def)
  from kvaser_consistent [OF sample_canlib_tracked this] show ?thesis
    by (cases "run_io (host_step kvaser_operations) ?es ?start") (auto split: prod.splits intro: prod_eqI)
qed

end
