(* ===== verification/PcanAdapter.thy ===== *)
theory PcanAdapter
  imports HostLibraries
begin

text \<open>
  The adapter for PCAN devices, \<^verbatim>\<open>can-lite/drivers/implementation/PcanAdapter.cpp\<close>.  The vendor's
  library and the event objects of Windows are a parameter, the record \<open>pcan_basic\<close>; the result of
  \<^verbatim>\<open>CAN_Uninitialize\<close> and the time stamp of a message are not used.
\<close>

record pcan_message =
  pm_id :: u32
  pm_type :: u8
  pm_length :: u8
  pm_data :: bytes

record 'k pcan_basic =
  pb_loader :: "'k windows_loader"
  pb_CreateEvent :: "'k \<Rightarrow> nat \<times> 'k"
  pb_CloseHandle :: "nat \<Rightarrow> 'k \<Rightarrow> 'k"
  pb_Initialize :: "u16 \<Rightarrow> u16 \<Rightarrow> 'k \<Rightarrow> u32 \<times> 'k"
  pb_Uninitialize :: "u16 \<Rightarrow> 'k \<Rightarrow> 'k"
  pb_Read :: "u16 \<Rightarrow> 'k \<Rightarrow> u32 \<times> pcan_message \<times> 'k"
  pb_Write :: "u16 \<Rightarrow> pcan_message \<Rightarrow> 'k \<Rightarrow> u32 \<times> 'k"
  pb_GetCondition :: "u16 \<Rightarrow> 'k \<Rightarrow> u32 \<times> u32 \<times> 'k"
  pb_SetReceiveEvent :: "u16 \<Rightarrow> nat \<Rightarrow> 'k \<Rightarrow> u32 \<times> 'k"

record ('a, 'k) pcan = "'a host_members" +
  pca_system :: "'k pcan_basic"
  pca_state :: 'k
  pca_library :: nat
  pca_channel :: u16
  pca_readEvent :: nat

definition pcStatusOk :: u32 where "pcStatusOk = 0x00000"
definition channelAvailable :: u32 where "channelAvailable = 0x01"
definition channelOccupied :: u32 where "channelOccupied = 0x02"
definition pcMessageRemote :: u8 where "pcMessageRemote = 0x01"
definition pcMessageExtended :: u8 where "pcMessageExtended = 0x02"
definition pcMessageError :: u8 where "pcMessageError = 0x40"
definition pcMessageStatus :: u8 where "pcMessageStatus = 0x80"
definition pcMaxChannels :: nat where "pcMaxChannels = 16"
definition pcMaxFramesPerPoll :: nat where "pcMaxFramesPerPoll = 256"
definition pcanLibraryName :: string where "pcanLibraryName = ''PCANBasic.dll''"

definition pcBitrateCodes :: "(u32 \<times> u16) list" where
  "pcBitrateCodes = [(1000000, 0x0014), (800000, 0x0016), (500000, 0x001C), (250000, 0x011C), (125000, 0x031C),
     (100000, 0x432F), (50000, 0x472F), (20000, 0x532F), (10000, 0x672F)]"

definition PcBitrateCode :: "u32 \<Rightarrow> u16 option" where
  "PcBitrateCode bitrate = map_of pcBitrateCodes bitrate"

definition UsbChannel :: "u32 \<Rightarrow> u16" where
  "UsbChannel oneBasedIndex = ucast (if oneBasedIndex \<le> 8 then 0x50 + oneBasedIndex else 0x500 + oneBasedIndex)"

definition PcanAdapter :: "'k pcan_basic \<Rightarrow> 'k \<Rightarrow> ('a, 'k) pcan" where
  "PcanAdapter K k =
     \<lparr>ho_receiving = False, ho_pendingCompletion = None, ho_pendingSuccess = False, ho_scheduled = 0,
      ho_log = [], pca_system = K, pca_state = k, pca_library = 0, pca_channel = 0, pca_readEvent = 0\<rparr>"

section \<open>Connection\<close>

definition ReleaseP :: "('a, 'k) pcan \<Rightarrow> ('a, 'k) pcan" where
  "ReleaseP s =
     (let K = pca_system s; library = pca_library s; k = pca_state s;
        k = (if library \<noteq> 0 \<and> pca_channel s \<noteq> 0
             then if_loaded (LoadFrom (pb_loader K) library ''CAN_Uninitialize'' (pb_Uninitialize K (pca_channel s))) k
             else k);
        k = (if pca_readEvent s \<noteq> 0 then pb_CloseHandle K (pca_readEvent s) k else k);
        k = (if library \<noteq> 0 then wl_FreeLibrary (pb_loader K) library k else k)
      in s\<lparr>pca_state := k, pca_library := 0, pca_channel := 0, pca_readEvent := 0\<rparr>)"

definition IsConnectedP :: "('a, 'k) pcan \<Rightarrow> bool" where
  "IsConnectedP s \<longleftrightarrow> pca_library s \<noteq> 0 \<and> pca_channel s \<noteq> 0"

definition OpenP :: "u16 \<Rightarrow> u16 \<Rightarrow> ('a, 'k) pcan \<Rightarrow> bool \<times> ('a, 'k) pcan" where
  "OpenP candidate bitrateCode s =
     (let K = pca_system s; L = pb_loader K in
      case wl_LoadLibrary L pcanLibraryName (pca_state s) of
        (library, k) \<Rightarrow>
          let s = s\<lparr>pca_library := library, pca_state := k\<rparr> in
          if library = 0 \<or> \<not> wl_exports L library ''CAN_Initialize''
          then (False, ReportErrorH ''PCANBasic.dll was not found; install the PEAK-System PCAN driver package'' (ReleaseP s))
          else case pb_Initialize K candidate bitrateCode k of
              (status, k) \<Rightarrow>
                if status \<noteq> pcStatusOk
                then (False, ReportErrorH
                  ''The PCAN channel could not be opened; check that the adapter is plugged in and not in use''
                  (ReleaseP (s\<lparr>pca_state := k\<rparr>)))
                else case pb_CreateEvent K k of
                    (event, k) \<Rightarrow>
                      if event = 0
                      then (True, s\<lparr>pca_channel := candidate, pca_readEvent := 0, pca_state := k\<rparr>)
                      else case (if wl_exports L library ''CAN_SetValue'' then pb_SetReceiveEvent K candidate event k else (1, k)) of
                          (status, k) \<Rightarrow>
                            (True, s\<lparr>pca_channel := candidate,
                               pca_readEvent := (if status \<noteq> pcStatusOk then 0 else event),
                               pca_state := (if status \<noteq> pcStatusOk then pb_CloseHandle K event k else k)\<rparr>))"

definition DisconnectP :: "('a, 'k) pcan \<Rightarrow> ('a, 'k) pcan" where
  "DisconnectP s = (if \<not> IsConnectedP s then s else ho_emit [ConnectionChanged False] (ReleaseP s))"

definition ConnectP :: "string \<Rightarrow> u32 \<Rightarrow> ('a, 'k) pcan \<Rightarrow> bool \<times> ('a, 'k) pcan" where
  "ConnectP interfaceName bitrate s0 =
     (let s = (if IsConnectedP s0 then DisconnectP s0 else s0) in
      case (ParseChannelNumber interfaceName, PcBitrateCode bitrate) of
        (Some index, Some code) \<Rightarrow>
          if unat index < 1 \<or> unat index > pcMaxChannels
          then (False, ReportErrorH ''PCAN channels are numbered 1 to 16 (for example PCAN:1) and need a standard bitrate'' s)
          else (case OpenP (UsbChannel index) code s of
              (False, s) \<Rightarrow> (False, s)
            | (True, s) \<Rightarrow> (True, ho_emit [ConnectionChanged True] s))
      | _ \<Rightarrow> (False, ReportErrorH ''PCAN channels are numbered 1 to 16 (for example PCAN:1) and need a standard bitrate'' s))"

section \<open>Sending and receiving\<close>

definition SendDataP :: "can_id \<Rightarrow> bytes \<Rightarrow> 'a \<Rightarrow> ('a, 'k) pcan \<Rightarrow> ('a, 'k) pcan" where
  "SendDataP canId data actionOnCompletion s0 =
     (case canId of
        Id11 _ \<Rightarrow> ScheduleCompletionH actionOnCompletion False s0
      | Id29 rawId \<Rightarrow>
          if \<not> IsConnectedP s0 \<or> \<not> wl_exports (pb_loader (pca_system s0)) (pca_library s0) ''CAN_Write''
          then ScheduleCompletionH actionOnCompletion False s0
          else
            let len = min (length data) 8;
              message = \<lparr>pm_id = rawId, pm_type = pcMessageExtended, pm_length = of_nat len,
                pm_data = take len data @ replicate (8 - len) 0\<rparr> in
            (case pb_Write (pca_system s0) (pca_channel s0) message (pca_state s0) of
               (status, k) \<Rightarrow>
                 let s = s0\<lparr>pca_state := k\<rparr>; success = (status = pcStatusOk);
                   s = (if success then ho_emit [FrameLog True rawId data] s
                        else ReportErrorH ''Failed to send CAN frame via PCAN'' s)
                 in ScheduleCompletionH actionOnCompletion success s))"

definition read_pcan :: "('a, 'k) pcan \<Rightarrow> bool \<times> ('a, 'k) pcan" where
  "read_pcan s0 =
     (case pb_Read (pca_system s0) (pca_channel s0) (pca_state s0) of
        (status, m, k) \<Rightarrow>
          let s = s0\<lparr>pca_state := k\<rparr> in
          if status \<noteq> pcStatusOk then (False, s)
          else if pm_type m AND (pcMessageStatus OR pcMessageError OR pcMessageRemote) \<noteq> 0 \<or>
                  pm_type m AND pcMessageExtended = 0
          then (True, s)
          else (True, DeliverH (pm_id m) (take (min (unat (pm_length m)) 8) (pm_data m)) s))"

definition ProcessReadEventP :: "('a, 'k) pcan \<Rightarrow> ('a, 'k) pcan" where
  "ProcessReadEventP s =
     (if IsConnectedP s \<and> wl_exports (pb_loader (pca_system s)) (pca_library s) ''CAN_Read''
      then poll pcMaxFramesPerPoll IsConnectedP read_pcan s
      else s)"

definition FileDescriptorP :: "('a, 'k) pcan \<Rightarrow> int" where
  "FileDescriptorP s = (if pca_readEvent s \<noteq> 0 then int (pca_readEvent s) else - 1)"

section \<open>Interfaces\<close>

fun pcan_conditions :: "'k pcan_basic \<Rightarrow> nat list \<Rightarrow> 'k \<Rightarrow> string list \<times> 'k" where
  "pcan_conditions K [] k = ([], k)"
| "pcan_conditions K (index # indices) k =
     (case pb_GetCondition K (UsbChannel (of_nat index)) k of
        (status, condition, k) \<Rightarrow>
          case pcan_conditions K indices k of
            (found, k) \<Rightarrow>
              (if status = pcStatusOk \<and> (condition = channelAvailable \<or> condition = channelOccupied)
               then ReportChannelNumber (of_nat index) # found else found, k))"

definition EnumerateInterfacesP :: "('a, 'k) pcan \<Rightarrow> string list \<times> 'k" where
  "EnumerateInterfacesP s =
     (let K = pca_system s; L = pb_loader K in
      case wl_LoadLibrary L pcanLibraryName (pca_state s) of
        (probe, k) \<Rightarrow>
          if probe = 0 then ([], k)
          else case (if wl_exports L probe ''CAN_GetValue'' then pcan_conditions K [1..<pcMaxChannels + 1] k else ([], k)) of
              (found, k) \<Rightarrow> (found, wl_FreeLibrary L probe k))"

definition EnumerateMissingDriversP :: "('a, 'k) pcan \<Rightarrow> string list \<times> 'k" where
  "EnumerateMissingDriversP s =
     (let L = pb_loader (pca_system s) in
      case wl_LoadLibrary L pcanLibraryName (pca_state s) of
        (probe, k) \<Rightarrow>
          if probe = 0
          then ([''PCAN: PCANBasic.dll was not found; install the PEAK-System PCAN driver package''], k)
          else ([], wl_FreeLibrary L probe k))"

definition pcan_operations :: "('a, ('a, 'k) pcan) host_operations" where
  "pcan_operations =
     \<lparr>hop_Connect = \<lambda>name bitrate s. Some (ConnectP name bitrate s), hop_Disconnect = DisconnectP,
      hop_IsConnected = IsConnectedP, hop_SendData = SendDataP, hop_ProcessReadEvent = ProcessReadEventP\<rparr>"

end
