(* ===== verification/PcanLaws.thy ===== *)
theory PcanLaws
  imports PcanAdapter HostLaws
begin

text \<open>
  What the adapter for PCAN devices guarantees: it keeps the contract of an adapter, frees the
  library as often as it loads it, uninitialises every channel that it initialises, closes every event
  object, and accepts every channel that it lists.
\<close>

section \<open>The contract of an adapter\<close>

lemma tells_pcan [simp]:
  "tells s out (s'\<lparr>pca_state := k\<rparr>) = tells s out s'" "tells s out (s'\<lparr>pca_library := l\<rparr>) = tells s out s'"
  "tells s out (s'\<lparr>pca_channel := c\<rparr>) = tells s out s'" "tells s out (s'\<lparr>pca_readEvent := e\<rparr>) = tells s out s'"
  "tells s out (ReleaseP s') = tells s out s'"
  by (simp_all add: tells_def ReleaseP_def Let_def)

lemma pcan_operations_simps [simp]:
  "hop_Connect pcan_operations name bitrate s = Some (ConnectP name bitrate s)"
  "hop_Disconnect pcan_operations = DisconnectP" "hop_IsConnected pcan_operations = IsConnectedP"
  "hop_SendData pcan_operations = SendDataP" "hop_ProcessReadEvent pcan_operations = ProcessReadEventP"
  by (simp_all add: pcan_operations_def)

lemma pcan_members:
  "host_members.more s = host_members.more s' \<Longrightarrow> pca_system s = pca_system s' \<and> pca_state s = pca_state s' \<and>
    pca_library s = pca_library s' \<and> pca_channel s = pca_channel s' \<and> pca_readEvent s = pca_readEvent s'"
  by (cases s; cases s') simp

lemma pcan_fields [simp]:
  "pca_system (ho_emit out s) = pca_system s" "pca_state (ho_emit out s) = pca_state s"
  "pca_library (ho_emit out s) = pca_library s" "pca_channel (ho_emit out s) = pca_channel s"
  "pca_readEvent (ho_emit out s) = pca_readEvent s"
  "pca_system (ReportErrorH m s) = pca_system s" "pca_state (ReportErrorH m s) = pca_state s"
  "pca_library (ReportErrorH m s) = pca_library s" "pca_channel (ReportErrorH m s) = pca_channel s"
  "pca_readEvent (ReportErrorH m s) = pca_readEvent s"
  "pca_system (DeliverH i d s) = pca_system s" "pca_state (DeliverH i d s) = pca_state s"
  "pca_library (DeliverH i d s) = pca_library s" "pca_channel (DeliverH i d s) = pca_channel s"
  "pca_readEvent (DeliverH i d s) = pca_readEvent s"
  "pca_system (ScheduleCompletionH a ok s) = pca_system s" "pca_state (ScheduleCompletionH a ok s) = pca_state s"
  "pca_library (ScheduleCompletionH a ok s) = pca_library s" "pca_channel (ScheduleCompletionH a ok s) = pca_channel s"
  "pca_readEvent (ScheduleCompletionH a ok s) = pca_readEvent s"
  by (simp_all add: ho_emit_def ReportErrorH_def DeliverH_def ScheduleCompletionH_def Let_def)

lemma ReleaseP_fields [simp]:
  "pca_library (ReleaseP s) = 0" "pca_channel (ReleaseP s) = 0" "pca_readEvent (ReleaseP s) = 0"
  "pca_system (ReleaseP s) = pca_system s"
  by (simp_all add: ReleaseP_def Let_def)

text \<open>The branches of \<open>Open\<close>: with an event object that the library signals, or without one.\<close>

lemma OpenP_cases:
  assumes "OpenP c code s = (ok, s')"
  obtains (missing) lib k m where "wl_LoadLibrary (pb_loader (pca_system s)) pcanLibraryName (pca_state s) = (lib, k)" "ok = False"
      "s' = ReportErrorH m (ReleaseP (s\<lparr>pca_library := lib, pca_state := k\<rparr>))"
  | (refused) lib k st k1 m where "wl_LoadLibrary (pb_loader (pca_system s)) pcanLibraryName (pca_state s) = (lib, k)"
      "lib \<noteq> 0" "ok = False" "pb_Initialize (pca_system s) c code k = (st, k1)" "st \<noteq> pcStatusOk"
      "s' = ReportErrorH m (ReleaseP (s\<lparr>pca_library := lib, pca_state := k1\<rparr>))"
  | (opened) lib k k1 event k2 r final where
      "wl_LoadLibrary (pb_loader (pca_system s)) pcanLibraryName (pca_state s) = (lib, k)" "lib \<noteq> 0" "ok = True"
      "pb_Initialize (pca_system s) c code k = (pcStatusOk, k1)" "pb_CreateEvent (pca_system s) k1 = (event, k2)"
      "s' = s\<lparr>pca_library := lib, pca_channel := c, pca_readEvent := r, pca_state := final\<rparr>"
      "event = 0 \<and> r = 0 \<and> final = k2 \<or>
       event \<noteq> 0 \<and> r = event \<and> final = snd (pb_SetReceiveEvent (pca_system s) c event k2) \<or>
       event \<noteq> 0 \<and> r = 0 \<and> final = pb_CloseHandle (pca_system s) event k2 \<or>
       event \<noteq> 0 \<and> r = 0 \<and>
         final = pb_CloseHandle (pca_system s) event (snd (pb_SetReceiveEvent (pca_system s) c event k2))"
proof -
  let ?K = "pca_system s"
  obtain lib k where l: "wl_LoadLibrary (pb_loader ?K) pcanLibraryName (pca_state s) = (lib, k)" by force
  obtain st k1 where i: "pb_Initialize ?K c code k = (st, k1)" by force
  obtain event k2 where e: "pb_CreateEvent ?K k1 = (event, k2)" by force
  obtain st' k3 where v: "pb_SetReceiveEvent ?K c event k2 = (st', k3)" by force
  note step = assms [unfolded OpenP_def Let_def l prod.case]
  show thesis
  proof (cases "lib = 0 \<or> \<not> wl_exports (pb_loader ?K) lib ''CAN_Initialize''")
    case True
    then show thesis using step missing [OF l] by auto
  next
    case False
    note step = step [unfolded if_not_P [OF False] i e prod.case]
    consider "st \<noteq> pcStatusOk" | "st = pcStatusOk" "event = 0"
      | "st = pcStatusOk" "event \<noteq> 0" "wl_exports (pb_loader ?K) lib ''CAN_SetValue''"
      | "st = pcStatusOk" "event \<noteq> 0" "\<not> wl_exports (pb_loader ?K) lib ''CAN_SetValue''" by blast
    then show thesis
    proof cases
      case 1
      then show thesis using step refused [OF l _ _ i] False by auto
    next
      case 2
      then show thesis using step opened [OF l _ _ _ e, where r = 0 and final = k2] False i by auto
    next
      case 3
      then show thesis
        using step opened [OF l _ _ _ e, where r = event and final = k3] opened [OF l _ _ _ e, where r = 0 and final = "pb_CloseHandle ?K event k3"] False i v
        by (cases "st' = pcStatusOk") auto
    next
      case 4
      have "(1 :: u32) \<noteq> pcStatusOk" by (simp add: pcStatusOk_def)
      then show thesis using 4 step opened [OF l _ _ _ e, where r = 0 and final = "pb_CloseHandle ?K event k2"] False i by auto
    qed
  qed
qed

lemma OpenP_outcome:
  assumes "OpenP c code s = (ok, s')" and "c \<noteq> 0"
  shows "IsConnectedP s' = ok"
    and "\<not> ok \<Longrightarrow> connect_outcome False False s s'" and "ok \<Longrightarrow> tells s [] s'"
  using assms by (elim OpenP_cases; simp add: IsConnectedP_def connect_fails)+

lemma UsbChannel_nonzero:
  assumes "unat n \<le> pcMaxChannels"
  shows "UsbChannel n \<noteq> 0"
proof -
  have "n = of_nat (unat n)" by simp
  moreover have "unat n \<in> {0..16}" using assms by (simp add: pcMaxChannels_def)
  then have "unat n \<in> set [0..<17]" by simp
  moreover have "\<forall>m \<in> set [0..<17]. UsbChannel (of_nat m) \<noteq> 0" by code_simp
  ultimately show ?thesis by metis
qed

lemma ConnectP_reconnects: "IsConnectedP s \<Longrightarrow> ConnectP name bitrate s = ConnectP name bitrate (DisconnectP s)"
  by (simp add: ConnectP_def IsConnectedP_def DisconnectP_def)

text \<open>A \<open>Connect\<close> on an adapter that is not connected.\<close>

lemma ConnectP_cases:
  assumes "ConnectP name bitrate s = (ok, s')" and "\<not> IsConnectedP s"
  obtains (invalid) m where "ok = False" "s' = ReportErrorH m s"
  | (failed) n code where "ParseChannelNumber name = Some n" "PcBitrateCode bitrate = Some code" "1 \<le> unat n" "unat n \<le> pcMaxChannels"
      "OpenP (UsbChannel n) code s = (False, s')" "ok = False"
  | (accepted) n code s1 where "ParseChannelNumber name = Some n" "PcBitrateCode bitrate = Some code" "1 \<le> unat n" "unat n \<le> pcMaxChannels"
      "OpenP (UsbChannel n) code s = (True, s1)" "ok = True" "s' = ho_emit [ConnectionChanged True] s1"
proof (cases "ParseChannelNumber name")
  case None
  then show thesis using assms invalid by (auto simp: ConnectP_def)
next
  case (Some n)
  note parsed = this
  show thesis
  proof (cases "PcBitrateCode bitrate")
    case None
    then show thesis using assms parsed invalid by (auto simp: ConnectP_def)
  next
    case (Some code)
    show thesis
    proof (cases "1 \<le> unat n \<and> unat n \<le> pcMaxChannels")
      case False
      then show thesis using assms parsed Some invalid by (auto simp: ConnectP_def)
    next
      case True
      obtain b s1 where "OpenP (UsbChannel n) code s = (b, s1)" by force
      then show thesis using assms parsed Some True failed accepted by (cases b) (auto simp: ConnectP_def)
    qed
  qed
qed

lemma ConnectP_fresh:
  assumes "ConnectP name bitrate s = (ok, s')" and "\<not> IsConnectedP s"
  shows "IsConnectedP s' = ok \<and> connect_outcome False ok s s'"
  using assms
proof (cases rule: ConnectP_cases)
  case (invalid m)
  then show ?thesis using assms(2) by (simp add: connect_fails IsConnectedP_def)
next
  case (failed n code)
  then show ?thesis using OpenP_outcome [OF failed(5) UsbChannel_nonzero] by simp
next
  case (accepted n code s1)
  then show ?thesis using OpenP_outcome [OF accepted(5) UsbChannel_nonzero] by (simp add: connect_succeeds IsConnectedP_def)
qed

lemma DisconnectP_tells:
  "\<not> IsConnectedP (DisconnectP s)" "IsConnectedP s \<Longrightarrow> tells s [ConnectionChanged False] (DisconnectP s)"
  "\<not> IsConnectedP s \<Longrightarrow> DisconnectP s = s"
proof -
  have "tells s [] (ReleaseP s)" by simp
  then show "IsConnectedP s \<Longrightarrow> tells s [ConnectionChanged False] (DisconnectP s)"
    by (simp add: DisconnectP_def ho_emit_def tells_def)
qed (simp_all add: IsConnectedP_def DisconnectP_def)

lemma ConnectP_tells:
  assumes "ConnectP name bitrate s = (ok, s')"
  shows "IsConnectedP s' = ok \<and> connect_outcome (IsConnectedP s) ok s s'"
proof (cases "IsConnectedP s")
  case True
  note fresh = ConnectP_fresh [OF assms [unfolded ConnectP_reconnects [OF True]] DisconnectP_tells(1)]
  then show ?thesis
    using connect_again [OF DisconnectP_tells(2) [OF True] conjunct2 [OF fresh]] True by simp
next
  case False
  then show ?thesis using ConnectP_fresh [OF assms] by simp
qed

lemma SendDataP_tells:
  "IsConnectedP (SendDataP canId data a s) = IsConnectedP s \<and>
    send_outcome (IsConnectedP s) canId data a s (SendDataP canId data a s)"
proof (cases "\<exists>i. canId = Id29 i \<and> IsConnectedP s \<and> wl_exports (pb_loader (pca_system s)) (pca_library s) ''CAN_Write''")
  case False
  then have "SendDataP canId data a s = ScheduleCompletionH a False s"
    by (auto simp: SendDataP_def split: can_id.split)
  then show ?thesis by (simp add: send_refused IsConnectedP_def)
next
  case True
  then obtain i where i: "canId = Id29 i" "IsConnectedP s" "wl_exports (pb_loader (pca_system s)) (pca_library s) ''CAN_Write''"
    by blast
  let ?len = "min (length data) 8"
  obtain st k where w: "pb_Write (pca_system s) (pca_channel s) \<lparr>pm_id = i, pm_type = pcMessageExtended,
      pm_length = of_nat ?len, pm_data = take ?len data @ replicate (8 - ?len) 0\<rparr> (pca_state s) = (st, k)" by force
  have "tells s [] (s\<lparr>pca_state := k\<rparr>)" by simp
  then show ?thesis using i w
    by (simp add: SendDataP_def Let_def send_succeeds send_fails) (simp add: IsConnectedP_def)
qed

lemma read_pcan_reads:
  assumes "IsConnectedP s" and "read_pcan s = (again, s')"
  shows "reads True s (IsConnectedP s') s'"
proof -
  obtain st m k where r: "pb_Read (pca_system s) (pca_channel s) (pca_state s) = (st, m, k)" using prod_cases3 by blast
  have quiet: "reads True s True (s\<lparr>pca_state := k\<rparr>)" by (rule reads_state) simp
  moreover have "reads True (s\<lparr>pca_state := k\<rparr>) True (DeliverH i (take (min n 8) d) (s\<lparr>pca_state := k\<rparr>))" for i n d
    by (rule reads_deliver) simp
  ultimately have "reads True s True (DeliverH i (take (min n 8) d) (s\<lparr>pca_state := k\<rparr>))" for i n d
    using reads_trans by blast
  then show ?thesis using assms r quiet
    by (auto simp: read_pcan_def Let_def IsConnectedP_def split: if_splits)
qed

lemma ProcessReadEventP_reads:
  "reads (IsConnectedP s) s (IsConnectedP (ProcessReadEventP s)) (ProcessReadEventP s)"
proof -
  have "reads (IsConnectedP s) s (IsConnectedP (poll n IsConnectedP read_pcan s)) (poll n IsConnectedP read_pcan s)" for n
    by (rule poll_reads) (rule read_pcan_reads)
  then show ?thesis by (cases "IsConnectedP s") (simp_all add: ProcessReadEventP_def)
qed

interpretation pcan: host_adapter "pcan_operations :: ('a, ('a, 'k) pcan) host_operations"
proof
  fix s s' :: "('a, 'k) pcan" and name bitrate ok canId data a
  show "hop_IsConnected pcan_operations s = hop_IsConnected pcan_operations s'"
    if "host_members.more s = host_members.more s'"
    using pcan_members [OF that] by (simp add: IsConnectedP_def)
  show "hop_IsConnected pcan_operations s' = ok \<and> connect_outcome (hop_IsConnected pcan_operations s) ok s s'"
    if "hop_Connect pcan_operations name bitrate s = Some (ok, s')"
    using ConnectP_tells [of name bitrate s ok s'] that by simp
  show "\<not> hop_IsConnected pcan_operations (hop_Disconnect pcan_operations s) \<and>
      tells s (if hop_IsConnected pcan_operations s then [ConnectionChanged False] else [])
        (hop_Disconnect pcan_operations s)"
    using DisconnectP_tells [of s] by simp
  show "hop_IsConnected pcan_operations (hop_SendData pcan_operations canId data a s) =
        hop_IsConnected pcan_operations s \<and>
      send_outcome (hop_IsConnected pcan_operations s) canId data a s (hop_SendData pcan_operations canId data a s)"
    using SendDataP_tells by simp
  show "reads (hop_IsConnected pcan_operations s) s
      (hop_IsConnected pcan_operations (hop_ProcessReadEvent pcan_operations s))
      (hop_ProcessReadEvent pcan_operations s)"
    using ProcessReadEventP_reads by simp
qed

section \<open>What the adapter holds\<close>

text \<open>A library that keeps to its documentation.  \<open>held\<close> is what its user holds: the number of loads that
  were not freed, the initialised channels and the event objects; \<^verbatim>\<open>CAN_Uninitialize\<close> is one of its
  functions, and the functions that are not named here hold and release nothing.\<close>

definition pcan_tracked :: "'k pcan_basic \<Rightarrow> ('k \<Rightarrow> nat \<times> u16 set \<times> nat set) \<Rightarrow> bool" where
  "pcan_tracked K held \<longleftrightarrow>
     (\<forall>m. wl_exports (pb_loader K) m ''CAN_Uninitialize'') \<and>
     (\<forall>name k m k' l c e. wl_LoadLibrary (pb_loader K) name k = (m, k') \<longrightarrow> held k = (l, c, e) \<longrightarrow>
        held k' = (if m = 0 then l else Suc l, c, e)) \<and>
     (\<forall>m k l c e. held k = (l, c, e) \<longrightarrow> held (wl_FreeLibrary (pb_loader K) m k) = (l - 1, c, e)) \<and>
     (\<forall>k ev k' l c e. pb_CreateEvent K k = (ev, k') \<longrightarrow> held k = (l, c, e) \<longrightarrow>
        (if ev = 0 then held k' = held k else ev \<notin> e \<and> held k' = (l, c, insert ev e))) \<and>
     (\<forall>h k l c e. held k = (l, c, e) \<longrightarrow> held (pb_CloseHandle K h k) = (l, c, e - {h})) \<and>
     (\<forall>ch code k st k' l c e. pb_Initialize K ch code k = (st, k') \<longrightarrow> held k = (l, c, e) \<longrightarrow>
        (if st = pcStatusOk then ch \<notin> c \<and> held k' = (l, insert ch c, e) else held k' = held k)) \<and>
     (\<forall>ch k l c e. held k = (l, c, e) \<longrightarrow> held (pb_Uninitialize K ch k) = (l, c - {ch}, e)) \<and>
     (\<forall>ch k. held (snd (snd (pb_Read K ch k))) = held k) \<and> (\<forall>ch m k. held (snd (pb_Write K ch m k)) = held k) \<and>
     (\<forall>ch e k. held (snd (pb_SetReceiveEvent K ch e k)) = held k)"

lemma pcan_functions:
  assumes "pcan_tracked K held"
  shows "wl_exports (pb_loader K) m ''CAN_Uninitialize''"
    and "wl_LoadLibrary (pb_loader K) name k = (m, k') \<Longrightarrow> held k = (l, c, e) \<Longrightarrow> held k' = (if m = 0 then l else Suc l, c, e)"
    and "held k = (l, c, e) \<Longrightarrow> held (wl_FreeLibrary (pb_loader K) m k) = (l - 1, c, e)"
    and "pb_CreateEvent K k = (ev, k') \<Longrightarrow> held k = (l, c, e) \<Longrightarrow>
      (if ev = 0 then held k' = held k else ev \<notin> e \<and> held k' = (l, c, insert ev e))"
    and "held k = (l, c, e) \<Longrightarrow> held (pb_CloseHandle K h k) = (l, c, e - {h})"
    and "pb_Initialize K ch code k = (st, k') \<Longrightarrow> held k = (l, c, e) \<Longrightarrow>
      (if st = pcStatusOk then ch \<notin> c \<and> held k' = (l, insert ch c, e) else held k' = held k)"
    and "held k = (l, c, e) \<Longrightarrow> held (pb_Uninitialize K ch k) = (l, c - {ch}, e)"
    and "held (snd (snd (pb_Read K ch k))) = held k" and "held (snd (pb_Write K ch msg k)) = held k"
    and "held (snd (pb_SetReceiveEvent K ch ev k)) = held k"
  using assms unfolding pcan_tracked_def by ((elim conjE)?, (fast | simp))+

definition pcan_balanced ::
    "('k \<Rightarrow> nat \<times> u16 set \<times> nat set) \<Rightarrow> nat \<times> u16 set \<times> nat set \<Rightarrow> ('a, 'k) pcan \<Rightarrow> bool" where
  "pcan_balanced held others s \<longleftrightarrow> pcan_tracked (pca_system s) held \<and>
     (case others of (n, cs, es) \<Rightarrow>
        if IsConnectedP s
        then pca_channel s \<notin> cs \<and> (pca_readEvent s \<noteq> 0 \<longrightarrow> pca_readEvent s \<notin> es) \<and>
          held (pca_state s) = (Suc n, insert (pca_channel s) cs,
            if pca_readEvent s = 0 then es else insert (pca_readEvent s) es)
        else pca_library s = 0 \<and> pca_channel s = 0 \<and> pca_readEvent s = 0 \<and> held (pca_state s) = others)"

lemma pcan_balanced_telling [simp]:
  "pcan_balanced held others (ho_emit out s) = pcan_balanced held others s"
  "pcan_balanced held others (ReportErrorH m s) = pcan_balanced held others s"
  "pcan_balanced held others (DeliverH i d s) = pcan_balanced held others s"
  "pcan_balanced held others (ScheduleCompletionH a ok s) = pcan_balanced held others s"
  by (simp_all add: pcan_balanced_def IsConnectedP_def split: prod.split)

text \<open>\<open>Release\<close> gives back what is held: the library, the channel when one is initialised, and the event.\<close>

lemma ReleaseP_frees:
  assumes "pcan_tracked (pca_system s) held"
    and "held (pca_state s) = (if pca_library s = 0 then n else Suc n,
      if pca_channel s = 0 then cs else insert (pca_channel s) cs, if pca_readEvent s = 0 then es else insert (pca_readEvent s) es)"
    and "pca_channel s \<noteq> 0 \<longrightarrow> pca_library s \<noteq> 0 \<and> pca_channel s \<notin> cs"
    and "pca_readEvent s \<noteq> 0 \<longrightarrow> pca_readEvent s \<notin> es"
  shows "pcan_balanced held (n, cs, es) (ReleaseP s)"
proof -
  let ?K = "pca_system s"
  note f = pcan_functions [OF assms(1)]
  define k1 where "k1 = (if pca_channel s \<noteq> 0 then pb_Uninitialize ?K (pca_channel s) (pca_state s) else pca_state s)"
  define k2 where "k2 = (if pca_readEvent s \<noteq> 0 then pb_CloseHandle ?K (pca_readEvent s) k1 else k1)"
  have "held k1 = (if pca_library s = 0 then n else Suc n, cs, if pca_readEvent s = 0 then es else insert (pca_readEvent s) es)"
    using assms(2,3) f(7) [of "pca_state s"] by (auto simp: k1_def)
  then have k2: "held k2 = (if pca_library s = 0 then n else Suc n, cs, es)"
    using assms(4) f(5) [of k1] by (auto simp: k2_def)
  have "pca_state (ReleaseP s) = (if pca_library s \<noteq> 0 then wl_FreeLibrary (pb_loader ?K) (pca_library s) k2 else k2)"
    using assms(3) f(1) by (auto simp: ReleaseP_def Let_def if_loaded_def LoadFrom_def k1_def k2_def)
  then have "held (pca_state (ReleaseP s)) = (n, cs, es)"
    using k2 f(3) [of k2] by auto
  then show ?thesis using assms(1) by (simp add: pcan_balanced_def IsConnectedP_def)
qed

lemma OpenP_balanced:
  assumes "pcan_balanced held (n, cs, es) s" and "\<not> IsConnectedP s" and "OpenP c code s = (ok, s')" and "c \<noteq> 0"
  shows "pcan_balanced held (n, cs, es) s'"
proof -
  let ?K = "pca_system s"
  have s: "pcan_tracked ?K held" "pca_library s = 0" "pca_channel s = 0" "pca_readEvent s = 0" "held (pca_state s) = (n, cs, es)"
    using assms(1,2) by (simp_all add: pcan_balanced_def)
  note f = pcan_functions [OF s(1)]
  show ?thesis using assms(3)
  proof (cases rule: OpenP_cases)
    case (missing lib k m)
    have "held k = (if lib = 0 then n else Suc n, cs, es)" using f(2) [OF missing(1) s(5)] .
    then show ?thesis unfolding missing(3) using s by (auto intro!: ReleaseP_frees)
  next
    case (refused lib k st k1 m)
    have "held k = (Suc n, cs, es)" using f(2) [OF refused(1) s(5)] refused(2) by simp
    then have "held k1 = (Suc n, cs, es)" using f(6) [OF refused(4)] refused(5) by simp
    then show ?thesis unfolding refused(6) using s refused(2) by (auto intro!: ReleaseP_frees)
  next
    case (opened lib k k1 event k2 r k3)
    have "held k = (Suc n, cs, es)" using f(2) [OF opened(1) s(5)] opened(2) by simp
    then have k1: "held k1 = (Suc n, insert c cs, es)" "c \<notin> cs" using f(6) [OF opened(4)] by simp_all
    have k2: "if event = 0 then held k2 = held k1 else event \<notin> es \<and> held k2 = (Suc n, insert c cs, insert event es)"
      using f(4) [OF opened(5) k1(1)] .
    have closed: "held (pb_CloseHandle ?K event k2) = (Suc n, insert c cs, es)"
      "held (pb_CloseHandle ?K event (snd (pb_SetReceiveEvent ?K c event k2))) = (Suc n, insert c cs, es)" if "event \<noteq> 0"
      using that k2 f(5) [of k2] f(5) [of "snd (pb_SetReceiveEvent ?K c event k2)"] f(10) [of c event k2] by auto
    have "held k3 = (Suc n, insert c cs, if r = 0 then es else insert r es) \<and> (r \<noteq> 0 \<longrightarrow> r \<notin> es)"
      using opened(7) k1 k2 closed f(10) [of c event k2] by auto
    then show ?thesis
      unfolding opened(6) using s(1) opened(2) assms(4) k1(2) by (simp add: pcan_balanced_def IsConnectedP_def)
  qed
qed

lemma DisconnectP_balanced:
  assumes "pcan_balanced held others s"
  shows "pcan_balanced held others (DisconnectP s)"
proof (cases "IsConnectedP s")
  case True
  obtain n cs es where o: "others = (n, cs, es)" by (cases others)
  have s: "pcan_tracked (pca_system s) held" "pca_library s \<noteq> 0" "pca_channel s \<noteq> 0" "pca_channel s \<notin> cs"
    "pca_readEvent s \<noteq> 0 \<longrightarrow> pca_readEvent s \<notin> es"
    "held (pca_state s) = (Suc n, insert (pca_channel s) cs, if pca_readEvent s = 0 then es else insert (pca_readEvent s) es)"
    using assms True by (simp_all add: o pcan_balanced_def) (simp_all add: IsConnectedP_def)
  have "pcan_balanced held (n, cs, es) (ReleaseP s)"
    by (rule ReleaseP_frees) (use s in simp_all)
  then show ?thesis using True o by (simp add: DisconnectP_def)
next
  case False
  then show ?thesis using assms by (simp add: DisconnectP_def)
qed

lemma ConnectP_balanced:
  assumes "pcan_balanced held others s" and "ConnectP name bitrate s = (ok, s')"
  shows "pcan_balanced held others s'"
proof -
  let ?s = "DisconnectP s"
  obtain n cs es where o: "others = (n, cs, es)" by (cases others)
  have s: "pcan_balanced held (n, cs, es) ?s" using DisconnectP_balanced [OF assms(1)] o by simp
  have "ConnectP name bitrate ?s = (ok, s')"
    using assms(2) ConnectP_reconnects [of s name bitrate] DisconnectP_tells(3) [of s] by (cases "IsConnectedP s") simp_all
  then show ?thesis unfolding o using DisconnectP_tells(1) [of s]
  proof (cases rule: ConnectP_cases)
    case (invalid m)
    then show "pcan_balanced held (n, cs, es) s'" using s by simp
  next
    case (failed c code)
    then show "pcan_balanced held (n, cs, es) s'"
      using OpenP_balanced [OF s DisconnectP_tells(1) failed(5) UsbChannel_nonzero] by blast
  next
    case (accepted c code s1)
    then show "pcan_balanced held (n, cs, es) s'"
      using OpenP_balanced [OF s DisconnectP_tells(1) accepted(5) UsbChannel_nonzero] by simp
  qed
qed

lemma pcan_balanced_update:
  assumes "pcan_balanced held others s" and "held k = held (pca_state s)"
  shows "pcan_balanced held others (s\<lparr>pca_state := k\<rparr>)"
proof -
  have same: "IsConnectedP (s\<lparr>pca_state := k\<rparr>) = IsConnectedP s" "pca_system (s\<lparr>pca_state := k\<rparr>) = pca_system s"
    "pca_channel (s\<lparr>pca_state := k\<rparr>) = pca_channel s" "pca_library (s\<lparr>pca_state := k\<rparr>) = pca_library s"
    "pca_readEvent (s\<lparr>pca_state := k\<rparr>) = pca_readEvent s" "pca_state (s\<lparr>pca_state := k\<rparr>) = k"
    by (simp_all add: IsConnectedP_def)
  show ?thesis using assms(1) unfolding pcan_balanced_def same assms(2) .
qed

lemma SendDataP_balanced:
  assumes "pcan_balanced held others s"
  shows "pcan_balanced held others (SendDataP canId data a s)"
proof -
  have tracked: "pcan_tracked (pca_system s) held" using assms unfolding pcan_balanced_def by blast
  have "pcan_balanced held others (s\<lparr>pca_state := k\<rparr>)" if "pb_Write (pca_system s) ch m (pca_state s) = (st, k)" for ch m st k
    using pcan_balanced_update [OF assms, of k] that pcan_functions(9) [OF tracked, of ch m "pca_state s"] by simp
  then show ?thesis using assms by (simp add: SendDataP_def Let_def split: can_id.split prod.split)
qed

lemma read_pcan_balanced:
  assumes "pcan_balanced held others s"
  shows "pcan_balanced held others (snd (read_pcan s))"
proof -
  have tracked: "pcan_tracked (pca_system s) held" using assms unfolding pcan_balanced_def by blast
  have "pcan_balanced held others (s\<lparr>pca_state := k\<rparr>)" if "pb_Read (pca_system s) ch (pca_state s) = (st, m, k)" for ch st m k
    using pcan_balanced_update [OF assms, of k] that pcan_functions(8) [OF tracked, of ch "pca_state s"] by simp
  then show ?thesis by (simp add: read_pcan_def Let_def split: prod.split)
qed

lemma ProcessReadEventP_balanced:
  assumes "pcan_balanced held others s"
  shows "pcan_balanced held others (ProcessReadEventP s)"
proof -
  have "pcan_balanced held others (poll m IsConnectedP read_pcan s)" for m
    by (rule poll_keeps) (rule read_pcan_balanced, assumption, rule assms)
  then show ?thesis using assms by (simp add: ProcessReadEventP_def)
qed

interpretation pcan_resources: leak_free_adapter "pcan_operations :: ('a, ('a, 'k) pcan) host_operations"
    "pcan_balanced held others" for held :: "'k \<Rightarrow> nat \<times> u16 set \<times> nat set" and others
proof
  fix s s' :: "('a, 'k) pcan" and name bitrate ok canId data a
  show "pcan_balanced held others s = pcan_balanced held others s'" if "host_members.more s = host_members.more s'"
    using pcan_members [OF that] by (simp add: pcan_balanced_def IsConnectedP_def)
  assume s: "pcan_balanced held others s"
  show "pcan_balanced held others s'" if "hop_Connect pcan_operations name bitrate s = Some (ok, s')"
    using ConnectP_balanced [OF s] that by simp
  show "pcan_balanced held others (hop_Disconnect pcan_operations s)"
    "pcan_balanced held others (hop_SendData pcan_operations canId data a s)"
    "pcan_balanced held others (hop_ProcessReadEvent pcan_operations s)"
    using DisconnectP_balanced [OF s] SendDataP_balanced [OF s] ProcessReadEventP_balanced [OF s] by simp_all
qed

section \<open>Properties\<close>

text \<open>C34: What a user of the adapter for PCAN devices sees, whatever the driver answers.  The connections
  it reports alternate with their losses and agree with \<^verbatim>\<open>IsConnected\<close>, and frames are reported only
  while it is connected; every send is completed exactly once, with success exactly when the frame
  was transmitted; and at any time the adapter holds what its connection needs and nothing else: the
  library, the channel, and the event when there is one, all of which its destructor gives back.\<close>

theorem pcan_consistent:
  fixes es :: "'a host_event list"
  assumes "pcan_tracked K held" and "held k = (n, cs, evs)"
    and "admissible (host_enabled pcan_operations) (host_step pcan_operations) es (PcanAdapter K k)"
  shows "case run_io (host_step pcan_operations) es (PcanAdapter K k) of
    (s, out) \<Rightarrow>
      seen (ho_log s) = Some (IsConnectedP s) \<and>
      results_in out + host_awaited s =
        total_over (host_brought pcan_operations) (host_step pcan_operations) es (PcanAdapter K k) \<and>
      size (host_awaited s) \<le> 1 \<and>
      held (pca_state s) = (if IsConnectedP s
        then (Suc n, insert (pca_channel s) cs, if pca_readEvent s = 0 then evs else insert (pca_readEvent s) evs)
        else (n, cs, evs)) \<and>
      held (pca_state (DisconnectP s)) = (n, cs, evs)"
proof -
  let ?ops = "pcan_operations :: ('a, ('a, 'b) pcan) host_operations"
  let ?s0 = "PcanAdapter K k :: ('a, 'b) pcan"
  obtain s out where run: "run_io (host_step ?ops) es ?s0 = (s, out)" by force
  have "host_idle ?ops ?s0" by (simp add: host_idle_def PcanAdapter_def IsConnectedP_def)
  note seen = pcan.observers_consistent [OF this assms(3) run]
  have "pcan_balanced held (n, cs, evs) ?s0"
    using assms(1,2) by (simp add: pcan_balanced_def PcanAdapter_def IsConnectedP_def)
  from pcan_resources.resources.run_inv [OF this assms(3)]
  have balanced: "pcan_balanced held (n, cs, evs) s" by (simp add: run)
  have "held (pca_state (DisconnectP s)) = (n, cs, evs)"
    using DisconnectP_balanced [OF balanced] DisconnectP_tells(1) [of s] by (simp add: pcan_balanced_def)
  then show ?thesis using seen balanced by (simp add: run pcan_balanced_def)
qed

text \<open>A driver that initialises each channel once at a time; its state is the number of loads, the channels
  that are initialised and the open events.\<close>

definition sample_pcan :: "(nat \<times> u16 set \<times> nat set) pcan_basic" where
  "sample_pcan =
     \<lparr>pb_loader = \<lparr>wl_LoadLibrary = \<lambda>_ (l, k). (1, (Suc l, k)), wl_FreeLibrary = \<lambda>_ (l, k). (l - 1, k),
        wl_exports = \<lambda>_ _. True\<rparr>,
      pb_CreateEvent = \<lambda>(l, c, e). if 1 \<in> e then (0, (l, c, e)) else (1, (l, c, insert 1 e)),
      pb_CloseHandle = \<lambda>h (l, c, e). (l, c, e - {h}),
      pb_Initialize = \<lambda>ch _ (l, c, e). if ch \<in> c then (1, (l, c, e)) else (pcStatusOk, (l, insert ch c, e)),
      pb_Uninitialize = \<lambda>ch (l, c, e). (l, c - {ch}, e),
      pb_Read = \<lambda>_ k. (0x20, \<lparr>pm_id = 0, pm_type = 0, pm_length = 0, pm_data = []\<rparr>, k),
      pb_Write = \<lambda>_ _ k. (pcStatusOk, k), pb_GetCondition = \<lambda>_ k. (pcStatusOk, channelAvailable, k),
      pb_SetReceiveEvent = \<lambda>_ _ k. (pcStatusOk, k)\<rparr>"

lemma sample_pcan_tracked: "pcan_tracked sample_pcan (\<lambda>k. k)"
  by (simp add: pcan_tracked_def sample_pcan_def pcStatusOk_def split: if_split)

theorem pcan_consistent_witness:
  "\<exists>s out. run_io (host_step pcan_operations)
      [HostReceiveData, HostSend (Id29 5) [1] (7 :: nat), HostRunScheduled, HostConnect ''1'' 500000, HostReadEvent]
      (PcanAdapter sample_pcan (0, {}, {})) = (s, out) \<and>
    seen (ho_log s) = Some (IsConnectedP s) \<and> pca_state (DisconnectP s) = (0, {}, {})"
proof -
  let ?es = "[HostReceiveData, HostSend (Id29 5) [1] (7 :: nat), HostRunScheduled, HostConnect ''1'' 500000, HostReadEvent]"
  let ?start = "PcanAdapter sample_pcan (0, {}, {}) :: (nat, nat \<times> u16 set \<times> nat set) pcan"
  have "admissible (host_enabled pcan_operations) (host_step pcan_operations) ?es ?start"
    by (simp add: host_enabled_def host_step_def Let_def SendDataP_def IsConnectedP_def ReceiveDataH_def
        ScheduleCompletionH_def PcanAdapter_def)
  from pcan_consistent [OF sample_pcan_tracked refl this] show ?thesis
    by (cases "run_io (host_step pcan_operations) ?es ?start") (auto split: prod.splits)
qed

end
