(* ===== verification/GsUsbAdapter.thy ===== *)
theory GsUsbAdapter
  imports GsUsbProtocol HostAdapter
begin

text \<open>
  The adapter for USB devices of the gs\_usb family on Windows,
  \<^verbatim>\<open>can-lite/drivers/implementation/GsUsbAdapter.cpp\<close>.

  WinUSB, the list of devices and the objects of the operating system are a parameter, the record
  \<open>win_usb\<close> of calls on a state \<open>'k\<close>.  A null handle is 0, \<open>None\<close> the invalid handle of a file, and the
  overlapped structures are the event objects that they name.  A read that is complete gives the bytes
  that it put into the buffer.  A call of \<^verbatim>\<open>Connect\<close> that never returns, in the search for a bit timing,
  is \<open>None\<close>.
\<close>

section \<open>State\<close>

record setup_packet =
  su_requestType :: u8
  su_request :: u8
  su_value :: u16
  su_length :: nat

record 'k win_usb =
  wu_GetClassDevs :: "'k \<Rightarrow> nat option \<times> 'k"
  wu_EnumDeviceInterfaces :: "nat \<Rightarrow> nat \<Rightarrow> 'k \<Rightarrow> nat option \<times> 'k"
  wu_GetDeviceInterfaceDetail :: "nat \<Rightarrow> nat \<Rightarrow> 'k \<Rightarrow> string option \<times> 'k"
  wu_DestroyDeviceInfoList :: "nat \<Rightarrow> 'k \<Rightarrow> 'k"
  wu_CreateFile :: "string \<Rightarrow> 'k \<Rightarrow> nat option \<times> 'k"
  wu_Initialize :: "nat \<Rightarrow> 'k \<Rightarrow> nat \<times> 'k"
  wu_QueryInterfaceSettings :: "nat \<Rightarrow> 'k \<Rightarrow> nat option \<times> 'k"
  wu_QueryPipe :: "nat \<Rightarrow> nat \<Rightarrow> 'k \<Rightarrow> (bool \<times> u8) option \<times> 'k"
  wu_SetPipePolicy :: "nat \<Rightarrow> u8 \<Rightarrow> 'k \<Rightarrow> 'k"
  wu_ControlOut :: "nat \<Rightarrow> setup_packet \<Rightarrow> bytes \<Rightarrow> 'k \<Rightarrow> bool \<times> 'k"
  wu_ControlIn :: "nat \<Rightarrow> setup_packet \<Rightarrow> 'k \<Rightarrow> bytes option \<times> 'k"
  wu_CreateEvent :: "'k \<Rightarrow> nat \<times> 'k"
  wu_ResetEvent :: "nat \<Rightarrow> 'k \<Rightarrow> 'k"
  wu_ReadPipe :: "nat \<Rightarrow> u8 \<Rightarrow> nat \<Rightarrow> 'k \<Rightarrow> bool \<times> 'k"
  wu_WritePipe :: "nat \<Rightarrow> u8 \<Rightarrow> bytes \<Rightarrow> nat \<Rightarrow> 'k \<Rightarrow> bool \<times> 'k"
  wu_GetReadResult :: "nat \<Rightarrow> bool \<Rightarrow> 'k \<Rightarrow> bytes option \<times> 'k"
  wu_GetWriteResult :: "nat \<Rightarrow> nat \<Rightarrow> 'k \<Rightarrow> nat option \<times> 'k"
  wu_GetLastError :: "'k \<Rightarrow> u32"
  wu_AbortPipe :: "nat \<Rightarrow> u8 \<Rightarrow> 'k \<Rightarrow> 'k"
  wu_Free :: "nat \<Rightarrow> 'k \<Rightarrow> 'k"
  wu_CloseHandle :: "nat \<Rightarrow> 'k \<Rightarrow> 'k"

record ('a, 'k) gs_usb = "'a host_members" +
  gsa_system :: "'k win_usb"
  gsa_state :: 'k
  gsa_device :: "nat option"
  gsa_usb :: nat
  gsa_inPipe :: u8
  gsa_outPipe :: u8
  gsa_readEvent :: nat
  gsa_writeEvent :: nat
  gsa_readPending :: bool
  gsa_open :: bool
  gsa_nextEchoId :: u32

definition vendorToInterface :: u8 where "vendorToInterface = 0x41"
definition vendorFromInterface :: u8 where "vendorFromInterface = 0xc1"
definition gsChannel :: u16 where "gsChannel = 0"
definition echoSlots :: u32 where "echoSlots = 32"
definition maxTransfersPerPoll :: nat where "maxTransfersPerPoll = 64"
definition maxDevices :: nat where "maxDevices = 32"
definition requestHostFormat :: u8 where "requestHostFormat = 0"
definition requestBitTiming :: u8 where "requestBitTiming = 1"
definition requestMode :: u8 where "requestMode = 2"
definition requestBitTimingConstants :: u8 where "requestBitTimingConstants = 4"
definition modeReset :: u32 where "modeReset = 0"
definition modeStart :: u32 where "modeStart = 1"
definition receivedEchoId :: u32 where "receivedEchoId = 0xffffffff"
definition errorIoPending :: u32 where "errorIoPending = 997"
definition errorIoIncomplete :: u32 where "errorIoIncomplete = 996"

definition GsUsbAdapter :: "'k win_usb \<Rightarrow> 'k \<Rightarrow> ('a, 'k) gs_usb" where
  "GsUsbAdapter K k =
     \<lparr>ho_receiving = False, ho_pendingCompletion = None, ho_pendingSuccess = False, ho_scheduled = 0,
      ho_log = [], gsa_system = K, gsa_state = k, gsa_device = None, gsa_usb = 0, gsa_inPipe = 0,
      gsa_outPipe = 0, gsa_readEvent = 0, gsa_writeEvent = 0, gsa_readPending = False, gsa_open = False,
      gsa_nextEchoId = 0\<rparr>"

text \<open>A call of the system in a method of the adapter.\<close>

definition sys :: "('k win_usb \<Rightarrow> 'k \<Rightarrow> 'r \<times> 'k) \<Rightarrow> ('a, 'k) gs_usb \<Rightarrow> 'r \<times> ('a, 'k) gs_usb" where
  "sys call s = (case call (gsa_system s) (gsa_state s) of (r, k) \<Rightarrow> (r, s\<lparr>gsa_state := k\<rparr>))"

definition sys_do :: "('k win_usb \<Rightarrow> 'k \<Rightarrow> 'k) \<Rightarrow> ('a, 'k) gs_usb \<Rightarrow> ('a, 'k) gs_usb" where
  "sys_do call s = s\<lparr>gsa_state := call (gsa_system s) (gsa_state s)\<rparr>"

section \<open>Devices\<close>

text \<open>The visitor gets and returns what it has collected with the adapter; it may never return, and stops
  the loop by \<open>False\<close>.\<close>

fun visit_devices ::
    "nat \<Rightarrow> nat list \<Rightarrow> (nat \<Rightarrow> string \<Rightarrow> 'x \<Rightarrow> ('a, 'k) gs_usb \<Rightarrow> (bool \<times> 'x \<times> ('a, 'k) gs_usb) option) \<Rightarrow> 'x
       \<Rightarrow> ('a, 'k) gs_usb \<Rightarrow> ('x \<times> ('a, 'k) gs_usb) option" where
  "visit_devices devices [] visit x s = Some (x, s)"
| "visit_devices devices (index # indices) visit x s =
     (case sys (\<lambda>K. wu_EnumDeviceInterfaces K devices index) s of
        (None, s) \<Rightarrow> Some (x, s)
      | (Some interfaceData, s) \<Rightarrow>
          (case sys (\<lambda>K. wu_GetDeviceInterfaceDetail K devices interfaceData) s of
             (None, s) \<Rightarrow> visit_devices devices indices visit x s
           | (Some path, s) \<Rightarrow>
               (case visit index path x s of
                  None \<Rightarrow> None
                | Some (again, x, s) \<Rightarrow> if again then visit_devices devices indices visit x s else Some (x, s))))"

definition ForEachDevicePath ::
    "(nat \<Rightarrow> string \<Rightarrow> 'x \<Rightarrow> ('a, 'k) gs_usb \<Rightarrow> (bool \<times> 'x \<times> ('a, 'k) gs_usb) option) \<Rightarrow> 'x
       \<Rightarrow> ('a, 'k) gs_usb \<Rightarrow> ('x \<times> ('a, 'k) gs_usb) option" where
  "ForEachDevicePath visit x s =
     (case sys wu_GetClassDevs s of
        (None, s) \<Rightarrow> Some (x, s)
      | (Some devices, s) \<Rightarrow>
          (case visit_devices devices [0..<maxDevices] visit x s of
             None \<Rightarrow> None
           | Some (x, s) \<Rightarrow> Some (x, sys_do (\<lambda>K. wu_DestroyDeviceInfoList K devices) s)))"

definition ControlOut :: "u8 \<Rightarrow> u16 \<Rightarrow> bytes \<Rightarrow> ('a, 'k) gs_usb \<Rightarrow> bool \<times> ('a, 'k) gs_usb" where
  "ControlOut request v data s =
     sys (\<lambda>K. wu_ControlOut K (gsa_usb s)
        \<lparr>su_requestType = vendorToInterface, su_request = request, su_value = v, su_length = length data\<rparr> data) s"

definition ControlIn :: "u8 \<Rightarrow> u16 \<Rightarrow> nat \<Rightarrow> ('a, 'k) gs_usb \<Rightarrow> bytes option \<times> ('a, 'k) gs_usb" where
  "ControlIn request v len s =
     (case sys (\<lambda>K. wu_ControlIn K (gsa_usb s)
        \<lparr>su_requestType = vendorFromInterface, su_request = request, su_value = v, su_length = len\<rparr>) s of
        (data, s) \<Rightarrow> (case data of None \<Rightarrow> None | Some d \<Rightarrow> if length d = len then Some d else None, s))"

section \<open>Connection\<close>

definition IsConnectedG :: "('a, 'k) gs_usb \<Rightarrow> bool" where
  "IsConnectedG s \<longleftrightarrow> gsa_open s"

definition CloseEventHandle :: "nat \<Rightarrow> ('a, 'k) gs_usb \<Rightarrow> ('a, 'k) gs_usb" where
  "CloseEventHandle event s = (if event \<noteq> 0 then sys_do (\<lambda>K. wu_CloseHandle K event) s else s)"

definition CloseG :: "('a, 'k) gs_usb \<Rightarrow> ('a, 'k) gs_usb" where
  "CloseG s0 =
     (let s = (if gsa_usb s0 \<noteq> 0
          then let s = (if gsa_readPending s0
              then snd (sys (\<lambda>K. wu_GetReadResult K (gsa_usb s0) True)
                (sys_do (\<lambda>K. wu_AbortPipe K (gsa_usb s0) (gsa_inPipe s0)) s0))
              else s0)
            in sys_do (\<lambda>K. wu_Free K (gsa_usb s)) s
          else s0);
        s = (case gsa_device s of None \<Rightarrow> s | Some device \<Rightarrow> sys_do (\<lambda>K. wu_CloseHandle K device) s);
        s = CloseEventHandle (gsa_writeEvent s) (CloseEventHandle (gsa_readEvent s) s)
      in s\<lparr>gsa_usb := 0, gsa_device := None, gsa_readEvent := 0, gsa_writeEvent := 0, gsa_readPending := False,
           gsa_open := False, gsa_inPipe := 0, gsa_outPipe := 0\<rparr>)"

fun find_pipes :: "nat list \<Rightarrow> ('a, 'k) gs_usb \<Rightarrow> ('a, 'k) gs_usb" where
  "find_pipes [] s = s"
| "find_pipes (index # indices) s =
     (case sys (\<lambda>K. wu_QueryPipe K (gsa_usb s) index) s of
        (None, s) \<Rightarrow> find_pipes indices s
      | (Some (bulk, pipeId), s) \<Rightarrow>
          if \<not> bulk then find_pipes indices s
          else find_pipes indices
            (if pipeId AND 0x80 \<noteq> 0 then s\<lparr>gsa_inPipe := pipeId\<rparr> else s\<lparr>gsa_outPipe := pipeId\<rparr>))"

definition FindPipes :: "('a, 'k) gs_usb \<Rightarrow> bool \<times> ('a, 'k) gs_usb" where
  "FindPipes s =
     (case sys (\<lambda>K. wu_QueryInterfaceSettings K (gsa_usb s)) s of
        (None, s) \<Rightarrow> (False, s)
      | (Some numEndpoints, s) \<Rightarrow>
          let s = find_pipes [0..<numEndpoints] s in (gsa_inPipe s \<noteq> 0 \<and> gsa_outPipe s \<noteq> 0, s))"

definition ConfigureG :: "u32 \<Rightarrow> ('a, 'k) gs_usb \<Rightarrow> (bool \<times> ('a, 'k) gs_usb) option" where
  "ConfigureG bitrate s =
     (let silent = (\<lambda>s. Some (False, ReportErrorH ''The candleLight adapter did not answer the gs_usb setup requests'' s));
        unable = (\<lambda>s. Some (False, ReportErrorH ''The candleLight adapter cannot run at this bitrate'' s));
        refused = (\<lambda>s. Some (False, ReportErrorH ''The candleLight adapter refused the bit timing or would not start'' s))
      in case ControlOut requestHostFormat 1 EncodeHostFormat s of
        (False, s) \<Rightarrow> silent s
      | (True, s) \<Rightarrow>
          (case ControlIn requestBitTimingConstants gsChannel bitTimingConstantsSize s of
             (None, s) \<Rightarrow> silent s
           | (Some constantsBytes, s) \<Rightarrow>
               (case DecodeBitTimingConstants constantsBytes of
                  None \<Rightarrow> unable s
                | Some constants \<Rightarrow>
                    (case ComputeBitTiming constants bitrate of
                       None \<Rightarrow> None
                     | Some None \<Rightarrow> unable s
                     | Some (Some timing) \<Rightarrow>
                         (case ControlOut requestBitTiming gsChannel (EncodeBitTiming timing) s of
                            (False, s) \<Rightarrow> refused s
                          | (True, s) \<Rightarrow>
                              (case ControlOut requestMode gsChannel (EncodeMode modeStart) s of
                                 (False, s) \<Rightarrow> refused s
                               | (True, s) \<Rightarrow> Some (True, s)))))))"

definition StartRead :: "('a, 'k) gs_usb \<Rightarrow> bool \<times> ('a, 'k) gs_usb" where
  "StartRead s0 =
     (let s = sys_do (\<lambda>K. wu_ResetEvent K (gsa_readEvent s0)) s0 in
      case sys (\<lambda>K. wu_ReadPipe K (gsa_usb s) (gsa_inPipe s) (gsa_readEvent s)) s of
        (started, s) \<Rightarrow>
          if \<not> started \<and> wu_GetLastError (gsa_system s) (gsa_state s) \<noteq> errorIoPending then (False, s)
          else (True, s\<lparr>gsa_readPending := True\<rparr>))"

definition OpenDevice :: "string \<Rightarrow> ('a, 'k) gs_usb \<Rightarrow> bool \<times> ('a, 'k) gs_usb" where
  "OpenDevice path s =
     (case sys (\<lambda>K. wu_CreateFile K path) s of
        (device, s) \<Rightarrow>
          let s = s\<lparr>gsa_device := device\<rparr> in
          case device of
            None \<Rightarrow> (False, s)
          | Some d \<Rightarrow> (case sys (\<lambda>K. wu_Initialize K d) s of (usb, s) \<Rightarrow> (usb \<noteq> 0, s\<lparr>gsa_usb := usb\<rparr>)))"

definition StartReceiving :: "('a, 'k) gs_usb \<Rightarrow> bool \<times> ('a, 'k) gs_usb" where
  "StartReceiving s =
     (let s = sys_do (\<lambda>K. wu_SetPipePolicy K (gsa_usb s) (gsa_outPipe s)) s in
      case sys wu_CreateEvent s of
        (event, s) \<Rightarrow>
          let s = s\<lparr>gsa_readEvent := event\<rparr> in
          case sys wu_CreateEvent s of
            (event, s) \<Rightarrow>
              let s = s\<lparr>gsa_writeEvent := event\<rparr> in
              if gsa_readEvent s = 0 \<or> gsa_writeEvent s = 0 then (False, s) else StartRead s)"

definition OpenG :: "string \<Rightarrow> u32 \<Rightarrow> ('a, 'k) gs_usb \<Rightarrow> (bool \<times> ('a, 'k) gs_usb) option" where
  "OpenG path bitrate s =
     (case OpenDevice path s of
        (False, s) \<Rightarrow>
          Some (False, ReportErrorH ''The candleLight adapter could not be opened; it may be in use by another program'' s)
      | (True, s) \<Rightarrow>
          (case FindPipes s of
             (False, s) \<Rightarrow> Some (False, ReportErrorH ''The candleLight adapter does not offer the expected endpoints'' s)
           | (True, s) \<Rightarrow>
               (case ConfigureG bitrate s of
                  None \<Rightarrow> None
                | Some (False, s) \<Rightarrow> Some (False, s)
                | Some (True, s) \<Rightarrow>
                    (case StartReceiving s of
                       (False, s) \<Rightarrow> Some (False, ReportErrorH ''The candleLight adapter could not start receiving'' s)
                     | (True, s) \<Rightarrow> Some (True, s\<lparr>gsa_open := True\<rparr>)))))"

definition DisconnectG :: "('a, 'k) gs_usb \<Rightarrow> ('a, 'k) gs_usb" where
  "DisconnectG s =
     (if \<not> IsConnectedG s then s
      else ho_emit [ConnectionChanged False] (CloseG (snd (ControlOut requestMode gsChannel (EncodeMode modeReset) s))))"

definition open_numbered ::
    "nat \<Rightarrow> u32 \<Rightarrow> nat \<Rightarrow> string \<Rightarrow> bool \<Rightarrow> ('a, 'k) gs_usb \<Rightarrow> (bool \<times> bool \<times> ('a, 'k) gs_usb) option" where
  "open_numbered number bitrate index path found s =
     (if index + 1 \<noteq> number then Some (True, found, s)
      else case OpenG path bitrate s of
          None \<Rightarrow> None
        | Some (success, s) \<Rightarrow> Some (False, True, if \<not> success then CloseG s else s))"

definition ConnectG :: "string \<Rightarrow> u32 \<Rightarrow> ('a, 'k) gs_usb \<Rightarrow> (bool \<times> ('a, 'k) gs_usb) option" where
  "ConnectG interfaceName bitrate s0 =
     (let s = (if IsConnectedG s0 then DisconnectG s0 else s0) in
      case (case ParseChannelNumber interfaceName of
              None \<Rightarrow> Some (False, s)
            | Some number \<Rightarrow>
                if number \<ge> 1 then ForEachDevicePath (open_numbered (unat number) bitrate) False s else Some (False, s)) of
        None \<Rightarrow> None
      | Some (found, s) \<Rightarrow>
          let s = (if \<not> found
            then ReportErrorH ''No such candleLight adapter is plugged in; candleLight adapters are numbered from 1 (for example candleLight:1)'' s
            else s)
          in Some (if \<not> gsa_open s then (False, s) else (True, ho_emit [ConnectionChanged True] s)))"

definition LostG :: "string \<Rightarrow> ('a, 'k) gs_usb \<Rightarrow> ('a, 'k) gs_usb" where
  "LostG message s = ho_emit [ConnectionChanged False] (ReportErrorH message (CloseG s))"

section \<open>Sending and receiving\<close>

definition WriteFrame :: "u32 \<Rightarrow> bytes \<Rightarrow> ('a, 'k) gs_usb \<Rightarrow> bool \<times> ('a, 'k) gs_usb" where
  "WriteFrame rawId data s0 =
     (let frame = EncodeGsFrame (gsa_nextEchoId s0) rawId True data 0;
        s = s0\<lparr>gsa_nextEchoId := (gsa_nextEchoId s0 + 1) mod echoSlots\<rparr>;
        s = sys_do (\<lambda>K. wu_ResetEvent K (gsa_writeEvent s)) s
      in case sys (\<lambda>K. wu_WritePipe K (gsa_usb s) (gsa_outPipe s) frame (gsa_writeEvent s)) s of
        (started, s) \<Rightarrow>
          if \<not> started \<and> wu_GetLastError (gsa_system s) (gsa_state s) \<noteq> errorIoPending then (False, s)
          else case sys (\<lambda>K. wu_GetWriteResult K (gsa_usb s) (gsa_writeEvent s)) s of
              (written, s) \<Rightarrow> (written = Some (length frame), s))"

definition SendDataG :: "can_id \<Rightarrow> bytes \<Rightarrow> 'a \<Rightarrow> ('a, 'k) gs_usb \<Rightarrow> ('a, 'k) gs_usb" where
  "SendDataG canId data actionOnCompletion s0 =
     (case canId of
        Id11 _ \<Rightarrow> ScheduleCompletionH actionOnCompletion False s0
      | Id29 rawId \<Rightarrow>
          if \<not> IsConnectedG s0 then ScheduleCompletionH actionOnCompletion False s0
          else case WriteFrame rawId data s0 of
              (True, s) \<Rightarrow> ScheduleCompletionH actionOnCompletion True (ho_emit [FrameLog True rawId data] s)
            | (False, s) \<Rightarrow>
                ScheduleCompletionH actionOnCompletion False
                  (ReportErrorH ''Failed to send CAN frame via candleLight'' s))"

definition DispatchFrame :: "bytes \<Rightarrow> ('a, 'k) gs_usb \<Rightarrow> ('a, 'k) gs_usb" where
  "DispatchFrame bs s =
     (case DecodeGsFrame bs of
        None \<Rightarrow> s
      | Some frame \<Rightarrow>
          if hf_echoId frame \<noteq> receivedEchoId \<or> hf_remote frame then s
          else if hf_error frame then ReportErrorH ''The candleLight adapter reported a CAN bus error'' s
          else if \<not> hf_extended frame then s
          else DeliverH (hf_id frame) (hf_data frame) s)"

function DispatchG :: "bytes \<Rightarrow> ('a, 'k) gs_usb \<Rightarrow> ('a, 'k) gs_usb" where
  "DispatchG bs s =
     (if frameSize \<le> length bs \<and> IsConnectedG s then DispatchG (drop frameSize bs) (DispatchFrame bs s) else s)"
  by pat_completeness auto
termination
  by (relation "measure (\<lambda>(bs, s). length bs)") (auto simp: frameSize_def)

declare DispatchG.simps [simp del]

definition poll_read :: "('a, 'k) gs_usb \<Rightarrow> bool \<times> ('a, 'k) gs_usb" where
  "poll_read s =
     (case sys (\<lambda>K. wu_GetReadResult K (gsa_usb s) False) s of
        (None, s) \<Rightarrow>
          (False, if wu_GetLastError (gsa_system s) (gsa_state s) \<noteq> errorIoIncomplete
                  then LostG ''The candleLight adapter was disconnected'' s else s)
      | (Some received, s) \<Rightarrow>
          let s = DispatchG received (s\<lparr>gsa_readPending := False\<rparr>) in
          if \<not> IsConnectedG s then (True, s)
          else case StartRead s of
              (True, s) \<Rightarrow> (True, s)
            | (False, s) \<Rightarrow> (False, LostG ''The candleLight adapter stopped responding'' s))"

definition ProcessReadEventG :: "('a, 'k) gs_usb \<Rightarrow> ('a, 'k) gs_usb" where
  "ProcessReadEventG s = poll maxTransfersPerPoll IsConnectedG poll_read s"

definition FileDescriptorG :: "('a, 'k) gs_usb \<Rightarrow> int" where
  "FileDescriptorG s = (if gsa_readEvent s \<noteq> 0 then int (gsa_readEvent s) else - 1)"

definition EnumerateInterfacesG :: "('a, 'k) gs_usb \<Rightarrow> string list \<times> ('a, 'k) gs_usb" where
  "EnumerateInterfacesG s =
     (case ForEachDevicePath
        (\<lambda>index path found s. Some (True, found @ [ReportChannelNumber (of_nat (index + 1))], s)) [] s of
        None \<Rightarrow> ([], s) | Some r \<Rightarrow> r)"

definition gs_usb_operations :: "('a, ('a, 'k) gs_usb) host_operations" where
  "gs_usb_operations =
     \<lparr>hop_Connect = ConnectG, hop_Disconnect = DisconnectG, hop_IsConnected = IsConnectedG,
      hop_SendData = SendDataG, hop_ProcessReadEvent = ProcessReadEventG\<rparr>"

end
