(* ===== verification/GsUsbAdapterLaws.thy ===== *)
theory GsUsbAdapterLaws
  imports GsUsbAdapter HostLaws GsUsbLaws
begin

text \<open>
  What the adapter for USB devices of the gs\_usb family guarantees: it keeps the contract of an
  adapter, gives back every handle that it opens and aborts the read that is in flight before it does,
  and connects to every device that it lists and that can run at the bitrate.
\<close>

section \<open>The state of the system\<close>

text \<open>What \<open>Close\<close> does to the system, and to the members.\<close>

definition freed :: "('a, 'k) gs_usb \<Rightarrow> 'k" where
  "freed s =
     (let K = gsa_system s; u = gsa_usb s;
        k = (if u \<noteq> 0 then wu_Free K u (if gsa_readPending s
            then snd (wu_GetReadResult K u True (wu_AbortPipe K u (gsa_inPipe s) (gsa_state s))) else gsa_state s)
          else gsa_state s);
        k = (case gsa_device s of None \<Rightarrow> k | Some d \<Rightarrow> wu_CloseHandle K d k);
        k = (if gsa_readEvent s \<noteq> 0 then wu_CloseHandle K (gsa_readEvent s) k else k)
      in if gsa_writeEvent s \<noteq> 0 then wu_CloseHandle K (gsa_writeEvent s) k else k)"

lemma CloseEventHandle_form:
  "CloseEventHandle event (s\<lparr>gsa_state := k\<rparr>) =
     s\<lparr>gsa_state := (if event \<noteq> 0 then wu_CloseHandle (gsa_system s) event k else k)\<rparr>"
  by (simp add: CloseEventHandle_def sys_do_def)

lemma CloseG_form:
  "CloseG s = s\<lparr>gsa_state := freed s, gsa_usb := 0, gsa_device := None, gsa_readEvent := 0, gsa_writeEvent := 0,
     gsa_readPending := False, gsa_open := False, gsa_inPipe := 0, gsa_outPipe := 0\<rparr>"
proof -
  let ?K = "gsa_system s" and ?u = "gsa_usb s"
  let ?read = "if gsa_readPending s
    then snd (sys (\<lambda>K. wu_GetReadResult K ?u True) (sys_do (\<lambda>K. wu_AbortPipe K ?u (gsa_inPipe s)) s)) else s"
  let ?k0 = "if gsa_readPending s then snd (wu_GetReadResult ?K ?u True (wu_AbortPipe ?K ?u (gsa_inPipe s) (gsa_state s)))
    else gsa_state s"
  have read: "?read = s\<lparr>gsa_state := ?k0\<rparr>" by (simp add: sys_def sys_do_def split: prod.split)
  have free: "(if ?u \<noteq> 0 then sys_do (\<lambda>K. wu_Free K (gsa_usb (s\<lparr>gsa_state := ?k0\<rparr>))) (s\<lparr>gsa_state := ?k0\<rparr>) else s) =
      s\<lparr>gsa_state := (if ?u \<noteq> 0 then wu_Free ?K ?u ?k0 else gsa_state s)\<rparr>"
    by (simp add: sys_do_def)
  have device: "(case gsa_device (s\<lparr>gsa_state := k\<rparr>) of None \<Rightarrow> s\<lparr>gsa_state := k\<rparr>
      | Some device \<Rightarrow> sys_do (\<lambda>K. wu_CloseHandle K device) (s\<lparr>gsa_state := k\<rparr>)) =
      s\<lparr>gsa_state := (case gsa_device s of None \<Rightarrow> k | Some device \<Rightarrow> wu_CloseHandle ?K device k)\<rparr>" for k
    by (simp add: sys_do_def split: option.split)
  show ?thesis
    unfolding CloseG_def Let_def read free device CloseEventHandle_form freed_def by simp
qed

lemma tells_gs_usb [simp]:
  "tells s out (s'\<lparr>gsa_state := k\<rparr>) = tells s out s'" "tells s out (s'\<lparr>gsa_device := d\<rparr>) = tells s out s'"
  "tells s out (s'\<lparr>gsa_usb := u\<rparr>) = tells s out s'" "tells s out (s'\<lparr>gsa_inPipe := p\<rparr>) = tells s out s'"
  "tells s out (s'\<lparr>gsa_outPipe := p\<rparr>) = tells s out s'" "tells s out (s'\<lparr>gsa_readEvent := e\<rparr>) = tells s out s'"
  "tells s out (s'\<lparr>gsa_writeEvent := e\<rparr>) = tells s out s'" "tells s out (s'\<lparr>gsa_readPending := b\<rparr>) = tells s out s'"
  "tells s out (s'\<lparr>gsa_open := b\<rparr>) = tells s out s'" "tells s out (s'\<lparr>gsa_nextEchoId := i\<rparr>) = tells s out s'"
  "tells s out (sys_do call' s') = tells s out s'" "tells s out (CloseG s') = tells s out s'"
proof -
  show sys_do: "tells s out (sys_do call s') = tells s out s'" for call and s' :: "('a, 'b) gs_usb"
    by (simp add: tells_def sys_do_def)
  show "tells s out (CloseG s') = tells s out s'"
    by (simp add: tells_def CloseG_form)
qed (simp_all add: tells_def)

lemma gs_usb_members:
  assumes "host_members.more s = host_members.more s'"
  shows "gsa_system s = gsa_system s'" "gsa_state s = gsa_state s'" "gsa_device s = gsa_device s'"
    "gsa_usb s = gsa_usb s'" "gsa_inPipe s = gsa_inPipe s'" "gsa_outPipe s = gsa_outPipe s'"
    "gsa_readEvent s = gsa_readEvent s'" "gsa_writeEvent s = gsa_writeEvent s'"
    "gsa_readPending s = gsa_readPending s'" "gsa_open s = gsa_open s'"
  using assms by (cases s; cases s'; simp)+

text \<open>What the adapter holds of the system: lists of devices, handles of files and events, interfaces of
  devices, and the read in flight.\<close>

datatype usb_resource = DeviceList nat | Handle nat | Interface nat | Reading

definition usb_tracked :: "'k win_usb \<Rightarrow> ('k \<Rightarrow> usb_resource set) \<Rightarrow> bool" where
  "usb_tracked K held \<longleftrightarrow>
     (\<forall>k. case wu_GetClassDevs K k of (None, k') \<Rightarrow> held k' = held k
        | (Some d, k') \<Rightarrow> DeviceList d \<notin> held k \<and> held k' = insert (DeviceList d) (held k)) \<and>
     (\<forall>d k. held (wu_DestroyDeviceInfoList K d k) = held k - {DeviceList d}) \<and>
     (\<forall>path k. case wu_CreateFile K path k of (None, k') \<Rightarrow> held k' = held k
        | (Some d, k') \<Rightarrow> Handle d \<notin> held k \<and> held k' = insert (Handle d) (held k)) \<and>
     (\<forall>d k. case wu_Initialize K d k of (u, k') \<Rightarrow>
        if u = 0 then held k' = held k else Interface u \<notin> held k \<and> held k' = insert (Interface u) (held k)) \<and>
     (\<forall>u k. held (wu_Free K u k) = held k - {Interface u}) \<and>
     (\<forall>k. case wu_CreateEvent K k of (e, k') \<Rightarrow>
        if e = 0 then held k' = held k else Handle e \<notin> held k \<and> held k' = insert (Handle e) (held k)) \<and>
     (\<forall>h k. held (wu_CloseHandle K h k) = held k - {Handle h}) \<and>
     (\<forall>u p e k. case wu_ReadPipe K u p e k of (started, k') \<Rightarrow>
        held k' = (if started \<or> wu_GetLastError K k' = errorIoPending then insert Reading (held k) else held k)) \<and>
     (\<forall>u k. held (snd (wu_GetReadResult K u True k)) = held k - {Reading}) \<and>
     (\<forall>u k. case wu_GetReadResult K u False k of (r, k') \<Rightarrow>
        if r = None then held k' = held k \<or> held k' = held k - {Reading} else held k' = held k - {Reading})"

text \<open>The calls that open and close nothing.\<close>

definition usb_silent :: "'k win_usb \<Rightarrow> ('k \<Rightarrow> usb_resource set) \<Rightarrow> bool" where
  "usb_silent K held \<longleftrightarrow>
     (\<forall>d i k. held (snd (wu_EnumDeviceInterfaces K d i k)) = held k) \<and>
     (\<forall>d i k. held (snd (wu_GetDeviceInterfaceDetail K d i k)) = held k) \<and>
     (\<forall>u k. held (snd (wu_QueryInterfaceSettings K u k)) = held k) \<and>
     (\<forall>u i k. held (snd (wu_QueryPipe K u i k)) = held k) \<and>
     (\<forall>u p k. held (wu_SetPipePolicy K u p k) = held k) \<and>
     (\<forall>u packet data k. held (snd (wu_ControlOut K u packet data k)) = held k) \<and>
     (\<forall>u packet k. held (snd (wu_ControlIn K u packet k)) = held k) \<and>
     (\<forall>e k. held (wu_ResetEvent K e k) = held k) \<and>
     (\<forall>u p frame e k. held (snd (wu_WritePipe K u p frame e k)) = held k) \<and>
     (\<forall>u e k. held (snd (wu_GetWriteResult K u e k)) = held k) \<and>
     (\<forall>u p k. held (wu_AbortPipe K u p k) = held k)"

lemma usb_silent_calls:
  assumes "usb_silent K held"
  shows "held (snd (wu_EnumDeviceInterfaces K d i k)) = held k" "held (snd (wu_GetDeviceInterfaceDetail K d i k)) = held k"
    "held (snd (wu_QueryInterfaceSettings K u k)) = held k" "held (snd (wu_QueryPipe K u i k)) = held k"
    "held (wu_SetPipePolicy K u p k) = held k" "held (snd (wu_ControlOut K u packet data k)) = held k"
    "held (snd (wu_ControlIn K u packet k)) = held k" "held (wu_ResetEvent K e k) = held k"
    "held (snd (wu_WritePipe K u p frame e k)) = held k" "held (snd (wu_GetWriteResult K u e k)) = held k"
    "held (wu_AbortPipe K u p k) = held k"
  using assms by (simp_all add: usb_silent_def)

section \<open>Steps that open and close nothing\<close>

definition mild :: "('a, 'k) gs_usb \<Rightarrow> ('a, 'k) gs_usb \<Rightarrow> bool" where
  "mild s s' \<longleftrightarrow> tells s [] s' \<and> gsa_system s' = gsa_system s \<and> gsa_open s' = gsa_open s \<and> gsa_device s' = gsa_device s \<and>
     gsa_usb s' = gsa_usb s \<and> gsa_readEvent s' = gsa_readEvent s \<and> gsa_writeEvent s' = gsa_writeEvent s \<and>
     gsa_readPending s' = gsa_readPending s \<and>
     (\<forall>held. usb_silent (gsa_system s) held \<longrightarrow> held (gsa_state s') = held (gsa_state s))"

lemma mild_refl [simp]: "mild s s"
  by (simp add: mild_def)

lemma mild_trans:
  assumes "mild s s1" and "mild s1 s2"
  shows "mild s s2"
proof -
  have "held (gsa_state s2) = held (gsa_state s)" if "usb_silent (gsa_system s) held" for held
  proof -
    have "held (gsa_state s1) = held (gsa_state s)" using assms(1) that unfolding mild_def by blast
    moreover have "held (gsa_state s2) = held (gsa_state s1)" using assms that unfolding mild_def by metis
    ultimately show ?thesis by simp
  qed
  moreover have "tells s [] s2" using assms tells_trans [of s "[]" s1 "[]" s2] by (simp add: mild_def)
  ultimately show ?thesis using assms by (simp add: mild_def)
qed

lemma mild_fields [simp]:
  "mild s (s'\<lparr>gsa_inPipe := p\<rparr>) = mild s s'" "mild s (s'\<lparr>gsa_outPipe := p\<rparr>) = mild s s'"
  "mild s (s'\<lparr>gsa_nextEchoId := i\<rparr>) = mild s s'"
  by (simp_all add: mild_def)

lemma mild_sys:
  assumes "sys call s = (r, s')" and "\<And>held k. usb_silent (gsa_system s) held \<Longrightarrow> held (snd (call (gsa_system s) k)) = held k"
  shows "mild s s'"
proof -
  obtain k where k: "call (gsa_system s) (gsa_state s) = (r, k)" "s' = s\<lparr>gsa_state := k\<rparr>"
    using assms(1) by (auto simp: sys_def split: prod.splits)
  then have "held k = held (gsa_state s)" if "usb_silent (gsa_system s) held" for held
    using assms(2) [OF that, of "gsa_state s"] by simp
  then show ?thesis by (simp add: mild_def k(2))
qed

lemma mild_sys_do:
  assumes "\<And>held k. usb_silent (gsa_system s) held \<Longrightarrow> held (call (gsa_system s) k) = held k"
  shows "mild s (sys_do call s)"
  using assms by (simp add: sys_do_def mild_def)

lemma ControlOut_mild: "ControlOut request v data s = (r, s') \<Longrightarrow> mild s s'"
  unfolding ControlOut_def by (erule mild_sys) (rule usb_silent_calls)

lemma ControlIn_mild:
  assumes "ControlIn request v len s = (r, s')"
  shows "mild s s'"
proof -
  let ?packet = "\<lparr>su_requestType = vendorFromInterface, su_request = request, su_value = v, su_length = len\<rparr>"
  obtain data s1 where d: "sys (\<lambda>K. wu_ControlIn K (gsa_usb s) ?packet) s = (data, s1)" by force
  then have "mild s s1" by (rule mild_sys) (rule usb_silent_calls)
  then show ?thesis using assms d by (auto simp: ControlIn_def)
qed

lemma find_pipes_mild: "mild s (find_pipes indices s)"
proof (induction indices arbitrary: s)
  case (Cons index indices)
  obtain r s1 where q: "sys (\<lambda>K. wu_QueryPipe K (gsa_usb s) index) s = (r, s1)" by force
  have "mild s s1" using q by (rule mild_sys) (rule usb_silent_calls)
  then have "mild s (find_pipes indices s2)" if "mild s1 s2" for s2
    using that Cons mild_trans by blast
  then show ?case using q by (auto split: option.split)
qed simp

lemma FindPipes_mild:
  assumes "FindPipes s = (ok, s')"
  shows "mild s s'"
proof -
  obtain r s1 where q: "sys (\<lambda>K. wu_QueryInterfaceSettings K (gsa_usb s)) s = (r, s1)" by force
  have "mild s s1" using q by (rule mild_sys) (rule usb_silent_calls)
  then show ?thesis
    using assms q mild_trans [OF _ find_pipes_mild] by (auto simp: FindPipes_def Let_def split: option.splits)
qed

lemma WriteFrame_mild:
  assumes "WriteFrame i data s = (ok, s')"
  shows "mild s s'"
proof -
  let ?frame = "EncodeGsFrame (gsa_nextEchoId s) i True data 0"
  define s1 where "s1 = s\<lparr>gsa_nextEchoId := (gsa_nextEchoId s + 1) mod echoSlots\<rparr>"
  define s2 where "s2 = sys_do (\<lambda>K. wu_ResetEvent K (gsa_writeEvent s1)) s1"
  obtain b s3 where w: "sys (\<lambda>K. wu_WritePipe K (gsa_usb s2) (gsa_outPipe s2) ?frame (gsa_writeEvent s2)) s2 = (b, s3)" by force
  obtain n s4 where g: "sys (\<lambda>K. wu_GetWriteResult K (gsa_usb s3) (gsa_writeEvent s3)) s3 = (n, s4)" by force
  have "mild s s1" by (simp add: s1_def)
  also have "mild s1 s2" unfolding s2_def by (rule mild_sys_do) (rule usb_silent_calls)
  finally (mild_trans) have "mild s s2" .
  also have "mild s2 s3" using w by (rule mild_sys) (rule usb_silent_calls)
  finally (mild_trans) have s3: "mild s s3" .
  also have "mild s3 s4" using g by (rule mild_sys) (rule usb_silent_calls)
  finally (mild_trans) have "mild s s4" .
  then show ?thesis using assms s3 w g
    by (auto simp: WriteFrame_def Let_def s1_def [symmetric] s2_def [symmetric] split: if_splits)
qed

lemma ConfigureG_mild:
  assumes "ConfigureG bitrate s = Some (ok, s')"
  shows "if ok then mild s s' else \<exists>s1 m. mild s s1 \<and> s' = ReportErrorH m s1"
proof -
  obtain b1 s1 where o1: "ControlOut requestHostFormat 1 EncodeHostFormat s = (b1, s1)" by force
  obtain cs s2 where i: "ControlIn requestBitTimingConstants gsChannel bitTimingConstantsSize s1 = (cs, s2)" by force
  have s1: "mild s s1" using ControlOut_mild [OF o1] .
  have s2: "mild s s2" using mild_trans [OF s1 ControlIn_mild [OF i]] .
  note step = assms [unfolded ConfigureG_def Let_def o1 i prod.case]
  show ?thesis
  proof (cases "b1 \<and> cs \<noteq> None")
    case False
    then show ?thesis using step s1 s2 by (cases b1) auto
  next
    case True
    then obtain bs where bs: "cs = Some bs" "b1" by blast
    consider "DecodeBitTimingConstants bs = None"
      | c where "DecodeBitTimingConstants bs = Some c" "ComputeBitTiming c bitrate = Some None"
      | c t where "DecodeBitTimingConstants bs = Some c" "ComputeBitTiming c bitrate = Some (Some t)"
      using step bs by (auto split: option.splits)
    then show ?thesis
    proof cases
      case (3 c t)
      obtain b3 s3 where o3: "ControlOut requestBitTiming gsChannel (EncodeBitTiming t) s2 = (b3, s3)" by force
      obtain b4 s4 where o4: "ControlOut requestMode gsChannel (EncodeMode modeStart) s3 = (b4, s4)" by force
      have s3: "mild s s3" using mild_trans [OF s2 ControlOut_mild [OF o3]] .
      have s4: "mild s s4" using mild_trans [OF s3 ControlOut_mild [OF o4]] .
      show ?thesis using step bs 3 o3 o4 s3 s4 by (auto split: bool.splits)
    qed (use step bs s2 in auto)
  qed
qed

section \<open>What the adapter holds\<close>

definition holds :: "('a, 'k) gs_usb \<Rightarrow> usb_resource set" where
  "holds s = (case gsa_device s of None \<Rightarrow> {} | Some d \<Rightarrow> {Handle d}) \<union>
     (if gsa_usb s = 0 then {} else {Interface (gsa_usb s)}) \<union>
     (if gsa_readEvent s = 0 then {} else {Handle (gsa_readEvent s)}) \<union>
     (if gsa_writeEvent s = 0 then {} else {Handle (gsa_writeEvent s)})"

definition all_closed :: "('a, 'k) gs_usb \<Rightarrow> bool" where
  "all_closed s \<longleftrightarrow> gsa_device s = None \<and> gsa_usb s = 0 \<and> gsa_readEvent s = 0 \<and> gsa_writeEvent s = 0 \<and>
     \<not> gsa_readPending s \<and> \<not> gsa_open s"

definition accounted :: "('k \<Rightarrow> usb_resource set) \<Rightarrow> usb_resource set \<Rightarrow> ('a, 'k) gs_usb \<Rightarrow> bool" where
  "accounted held others s \<longleftrightarrow> usb_tracked (gsa_system s) held \<and> usb_silent (gsa_system s) held \<and>
     held (gsa_state s) - {Reading} = others \<union> holds s \<and> others \<inter> holds s = {} \<and> Reading \<notin> others \<and>
     (Reading \<in> held (gsa_state s) \<longrightarrow> gsa_readPending s) \<and> (gsa_readPending s \<longrightarrow> gsa_usb s \<noteq> 0)"

lemma all_closed_holds: "all_closed s \<Longrightarrow> holds s = {}"
  by (simp add: all_closed_def holds_def)

lemma accounted_closed: "accounted held others s \<Longrightarrow> all_closed s \<Longrightarrow> held (gsa_state s) = others"
  by (auto simp: accounted_def all_closed_holds) (auto simp: all_closed_def)

lemma Reading_not_held [simp]: "Reading \<notin> holds s" "DeviceList d \<notin> holds s"
  by (auto simp: holds_def split: option.splits if_splits)

lemma mild_holds: "mild s s' \<Longrightarrow> holds s' = holds s"
  by (simp add: mild_def holds_def)

lemma mild_closed: "mild s s' \<Longrightarrow> all_closed s' = all_closed s"
  by (simp add: mild_def all_closed_def)

lemma mild_accounted:
  assumes "mild s s'" and "accounted held others s"
  shows "accounted held others s'"
proof -
  have "held (gsa_state s') = held (gsa_state s)" using assms by (simp add: mild_def accounted_def)
  then show ?thesis using assms mild_holds [OF assms(1)] by (simp add: accounted_def) (simp add: mild_def)
qed

lemma usb_tracked_calls:
  assumes "usb_tracked K held"
  shows "wu_GetClassDevs K k = (None, k') \<Longrightarrow> held k' = held k"
    and "wu_GetClassDevs K k = (Some d, k') \<Longrightarrow> DeviceList d \<notin> held k \<and> held k' = insert (DeviceList d) (held k)"
    and "held (wu_DestroyDeviceInfoList K d k) = held k - {DeviceList d}"
    and "wu_CreateFile K path k = (None, k') \<Longrightarrow> held k' = held k"
    and "wu_CreateFile K path k = (Some d, k') \<Longrightarrow> Handle d \<notin> held k \<and> held k' = insert (Handle d) (held k)"
    and "wu_Initialize K d k = (u, k') \<Longrightarrow>
      if u = 0 then held k' = held k else Interface u \<notin> held k \<and> held k' = insert (Interface u) (held k)"
    and "held (wu_Free K u k) = held k - {Interface u}"
    and "wu_CreateEvent K k = (e, k') \<Longrightarrow>
      if e = 0 then held k' = held k else Handle e \<notin> held k \<and> held k' = insert (Handle e) (held k)"
    and "held (wu_CloseHandle K h k) = held k - {Handle h}"
    and "wu_ReadPipe K u p e k = (started, k') \<Longrightarrow>
      held k' = (if started \<or> wu_GetLastError K k' = errorIoPending then insert Reading (held k) else held k)"
    and "held (snd (wu_GetReadResult K u True k)) = held k - {Reading}"
    and "wu_GetReadResult K u False k = (r, k') \<Longrightarrow>
      if r = None then held k' = held k \<or> held k' = held k - {Reading} else held k' = held k - {Reading}"
proof -
  note all = assms [unfolded usb_tracked_def]
  show "wu_GetClassDevs K k = (None, k') \<Longrightarrow> held k' = held k"
    using conjunct1 [OF all, rule_format, of k] by simp
  show "wu_GetClassDevs K k = (Some d, k') \<Longrightarrow> DeviceList d \<notin> held k \<and> held k' = insert (DeviceList d) (held k)"
    using conjunct1 [OF all, rule_format, of k] by simp
  note all = conjunct2 [OF all]
  show "held (wu_DestroyDeviceInfoList K d k) = held k - {DeviceList d}" by (rule conjunct1 [OF all, rule_format])
  note all = conjunct2 [OF all]
  show "wu_CreateFile K path k = (None, k') \<Longrightarrow> held k' = held k"
    using conjunct1 [OF all, rule_format, of k path] by simp
  show "wu_CreateFile K path k = (Some d, k') \<Longrightarrow> Handle d \<notin> held k \<and> held k' = insert (Handle d) (held k)"
    using conjunct1 [OF all, rule_format, of k path] by simp
  note all = conjunct2 [OF all]
  show "wu_Initialize K d k = (u, k') \<Longrightarrow>
      if u = 0 then held k' = held k else Interface u \<notin> held k \<and> held k' = insert (Interface u) (held k)"
    using conjunct1 [OF all, rule_format, of k d] by simp
  note all = conjunct2 [OF all]
  show "held (wu_Free K u k) = held k - {Interface u}" by (rule conjunct1 [OF all, rule_format])
  note all = conjunct2 [OF all]
  show "wu_CreateEvent K k = (e, k') \<Longrightarrow>
      if e = 0 then held k' = held k else Handle e \<notin> held k \<and> held k' = insert (Handle e) (held k)"
    using conjunct1 [OF all, rule_format, of k] by simp
  note all = conjunct2 [OF all]
  show "held (wu_CloseHandle K h k) = held k - {Handle h}" by (rule conjunct1 [OF all, rule_format])
  note all = conjunct2 [OF all]
  show "wu_ReadPipe K u p e k = (started, k') \<Longrightarrow>
      held k' = (if started \<or> wu_GetLastError K k' = errorIoPending then insert Reading (held k) else held k)"
    using conjunct1 [OF all, rule_format, of k u p e] by simp
  note all = conjunct2 [OF all]
  show "held (snd (wu_GetReadResult K u True k)) = held k - {Reading}" by (rule conjunct1 [OF all, rule_format])
  show "wu_GetReadResult K u False k = (r, k') \<Longrightarrow>
      if r = None then held k' = held k \<or> held k' = held k - {Reading} else held k' = held k - {Reading}"
    using conjunct2 [OF all, rule_format, of k u] by simp
qed

text \<open>\<open>Close\<close> gives everything back, whichever part of a connection there is.\<close>

lemma CloseG_frees:
  assumes "accounted held others s"
  shows "accounted held others (CloseG s)" and "all_closed (CloseG s)"
proof -
  let ?K = "gsa_system s" and ?u = "gsa_usb s"
  have s: "usb_tracked ?K held" "usb_silent ?K held" "held (gsa_state s) - {Reading} = others \<union> holds s"
    "others \<inter> holds s = {}" "Reading \<notin> others" "Reading \<in> held (gsa_state s) \<longrightarrow> gsa_readPending s"
    "gsa_readPending s \<longrightarrow> ?u \<noteq> 0"
    using assms by (simp_all add: accounted_def)
  note f = usb_tracked_calls [OF s(1)] and q = usb_silent_calls(11) [OF s(2)]
  define k1 where "k1 = (if ?u \<noteq> 0 then wu_Free ?K ?u (if gsa_readPending s
      then snd (wu_GetReadResult ?K ?u True (wu_AbortPipe ?K ?u (gsa_inPipe s) (gsa_state s))) else gsa_state s) else gsa_state s)"
  define k2 where "k2 = (case gsa_device s of None \<Rightarrow> k1 | Some d \<Rightarrow> wu_CloseHandle ?K d k1)"
  define k3 where "k3 = (if gsa_readEvent s \<noteq> 0 then wu_CloseHandle ?K (gsa_readEvent s) k2 else k2)"
  define k4 where "k4 = (if gsa_writeEvent s \<noteq> 0 then wu_CloseHandle ?K (gsa_writeEvent s) k3 else k3)"
  have "held k1 = held (gsa_state s) - {Reading} - (if ?u = 0 then {} else {Interface ?u})"
    using s(6,7) f(7,11) q by (auto simp: k1_def)
  then have k1: "held k1 = (others \<union> holds s) - (if ?u = 0 then {} else {Interface ?u})" unfolding s(3) .
  have k2: "held k2 = held k1 - (case gsa_device s of None \<Rightarrow> {} | Some d \<Rightarrow> {Handle d})"
    using f(9) by (auto simp: k2_def split: option.split)
  have k3: "held k3 = held k2 - (if gsa_readEvent s = 0 then {} else {Handle (gsa_readEvent s)})"
    using f(9) by (auto simp: k3_def)
  have k4: "held k4 = held k3 - (if gsa_writeEvent s = 0 then {} else {Handle (gsa_writeEvent s)})"
    using f(9) by (auto simp: k4_def)
  have "held k4 = (others \<union> holds s) - holds s"
    unfolding k4 k3 k2 k1 by (simp add: holds_def Diff_Un Diff_eq Int_commute Int_left_commute Int_assoc)
  then have "held k4 = others" using s(4) by blast
  moreover have "gsa_state (CloseG s) = k4"
    unfolding CloseG_form freed_def Let_def k4_def k3_def k2_def k1_def by simp
  moreover show closed: "all_closed (CloseG s)" by (simp add: CloseG_form all_closed_def)
  moreover have "gsa_system (CloseG s) = ?K"
    by (simp add: CloseG_form)
  ultimately show "accounted held others (CloseG s)"
    using s(1,2,5) all_closed_holds [OF closed] by (simp add: accounted_def) (simp add: all_closed_def)
qed

section \<open>Opening a device\<close>

lemma sys_result:
  assumes "sys call s = (r, s')"
  obtains k where "call (gsa_system s) (gsa_state s) = (r, k)" "s' = s\<lparr>gsa_state := k\<rparr>"
  using assms by (auto simp: sys_def split: prod.splits)

lemma accounted_acquires:
  assumes "accounted held others s" and "gsa_system s' = gsa_system s" and "gsa_readPending s' = gsa_readPending s"
    and "gsa_usb s \<noteq> 0 \<longrightarrow> gsa_usb s' \<noteq> 0" and "held (gsa_state s) \<inter> R = {}" and "Reading \<notin> R"
    and "held (gsa_state s') = held (gsa_state s) \<union> R" and "holds s' = holds s \<union> R"
  shows "accounted held others s'"
proof -
  have s: "held (gsa_state s) - {Reading} = others \<union> holds s" "others \<inter> holds s = {}" "Reading \<notin> others"
    using assms(1) by (simp_all add: accounted_def)
  then have "held (gsa_state s') - {Reading} = others \<union> holds s'" using assms(6-8) by (simp add: Un_Diff Un_assoc)
  moreover have "others \<inter> holds s' = {}"
  proof -
    have "others \<subseteq> held (gsa_state s)" using s(1) by blast
    then show ?thesis using s(2) assms(5,8) by blast
  qed
  ultimately show ?thesis using assms s(3) by (simp add: accounted_def)
qed

lemma accounted_telling [simp]:
  "accounted held others (ho_emit out s) = accounted held others s"
  "accounted held others (ReportErrorH m s) = accounted held others s"
  "accounted held others (DeliverH i d s) = accounted held others s"
  "accounted held others (ScheduleCompletionH a ok s) = accounted held others s"
  "all_closed (ho_emit out s) = all_closed s" "all_closed (ReportErrorH m s) = all_closed s"
  "all_closed (DeliverH i d s) = all_closed s" "all_closed (ScheduleCompletionH a ok s) = all_closed s"
  by (simp_all add: accounted_def holds_def all_closed_def ho_emit_def ReportErrorH_def DeliverH_def ScheduleCompletionH_def Let_def)

lemma gs_usb_fields [simp]:
  "gsa_open (ho_emit out s) = gsa_open s" "gsa_open (ReportErrorH m s) = gsa_open s"
  "gsa_open (DeliverH i d s) = gsa_open s" "gsa_open (ScheduleCompletionH a ok s) = gsa_open s"
  "gsa_usb (ho_emit out s) = gsa_usb s" "gsa_usb (ReportErrorH m s) = gsa_usb s"
  "gsa_usb (DeliverH i d s) = gsa_usb s" "gsa_usb (ScheduleCompletionH a ok s) = gsa_usb s"
  "gsa_system (ho_emit out s) = gsa_system s" "gsa_system (ReportErrorH m s) = gsa_system s"
  "gsa_system (DeliverH i d s) = gsa_system s" "gsa_system (ScheduleCompletionH a ok s) = gsa_system s"
  by (simp_all add: ho_emit_def ReportErrorH_def DeliverH_def ScheduleCompletionH_def Let_def)

lemma StartRead_result:
  assumes "StartRead s = (ok, s')"
  shows "tells s [] s' \<and> gsa_open s' = gsa_open s \<and> gsa_usb s' = gsa_usb s"
    and "accounted held others s \<Longrightarrow> gsa_usb s \<noteq> 0 \<Longrightarrow> accounted held others s'"
proof -
  define s1 where "s1 = sys_do (\<lambda>K. wu_ResetEvent K (gsa_readEvent s)) s"
  have s1: "mild s s1" unfolding s1_def by (rule mild_sys_do) (rule usb_silent_calls)
  obtain b s2 where "sys (\<lambda>K. wu_ReadPipe K (gsa_usb s1) (gsa_inPipe s1) (gsa_readEvent s1)) s1 = (b, s2)" by force
  then obtain k where k: "wu_ReadPipe (gsa_system s1) (gsa_usb s1) (gsa_inPipe s1) (gsa_readEvent s1) (gsa_state s1) = (b, k)"
    "sys (\<lambda>K. wu_ReadPipe K (gsa_usb s1) (gsa_inPipe s1) (gsa_readEvent s1)) s1 = (b, s1\<lparr>gsa_state := k\<rparr>)"
    by (auto elim!: sys_result)
  have ok: "ok \<longleftrightarrow> b \<or> wu_GetLastError (gsa_system s1) k = errorIoPending"
    and s': "s' = (if ok then s1\<lparr>gsa_state := k, gsa_readPending := True\<rparr> else s1\<lparr>gsa_state := k\<rparr>)"
    using assms k(2) by (auto simp: StartRead_def Let_def s1_def [symmetric] split: if_splits)
  show "tells s [] s' \<and> gsa_open s' = gsa_open s \<and> gsa_usb s' = gsa_usb s"
    using s1 by (simp add: s' mild_def)
  assume "accounted held others s" and usb: "gsa_usb s \<noteq> 0"
  then have a: "accounted held others s1" using mild_accounted [OF s1] by blast
  then have "held k = (if ok then insert Reading (held (gsa_state s1)) else held (gsa_state s1))"
    using usb_tracked_calls(10) [OF _ k(1), of held] ok by (simp add: accounted_def)
  moreover have "holds s' = holds s1" by (simp add: s' holds_def)
  moreover have "gsa_usb s1 \<noteq> 0" using s1 usb by (simp add: mild_def)
  ultimately show "accounted held others s'" using a by (simp add: accounted_def s')
qed

lemma OpenDevice_result:
  assumes "OpenDevice path s = (ok, s')"
  shows "tells s [] s' \<and> gsa_open s' = gsa_open s \<and> gsa_readEvent s' = gsa_readEvent s \<and>
      gsa_writeEvent s' = gsa_writeEvent s \<and> (ok \<longrightarrow> gsa_usb s' \<noteq> 0)"
    and "all_closed s \<Longrightarrow> accounted held others s \<Longrightarrow> accounted held others s'"
proof -
  let ?K = "gsa_system s"
  obtain d k1 where c: "wu_CreateFile ?K path (gsa_state s) = (d, k1)" by force
  define s1 where "s1 = s\<lparr>gsa_state := k1, gsa_device := d\<rparr>"
  obtain u k2 where i: "wu_Initialize ?K (the d) k1 = (u, k2)" by force
  have s': "s' = (if d = None then s1 else s1\<lparr>gsa_state := k2, gsa_usb := u\<rparr>)" "ok \<longleftrightarrow> d \<noteq> None \<and> u \<noteq> 0"
    using assms(1) c i by (auto simp: OpenDevice_def sys_def s1_def Let_def split: option.splits)
  then show "tells s [] s' \<and> gsa_open s' = gsa_open s \<and> gsa_readEvent s' = gsa_readEvent s \<and>
      gsa_writeEvent s' = gsa_writeEvent s \<and> (ok \<longrightarrow> gsa_usb s' \<noteq> 0)"
    by (simp add: s1_def)
  assume "all_closed s" and a: "accounted held others s"
  then have closed: "holds s = {}" "gsa_usb s = 0" "gsa_readEvent s = 0" "gsa_writeEvent s = 0" "\<not> gsa_readPending s"
    using all_closed_holds by (auto simp: all_closed_def)
  have tracked: "usb_tracked ?K held" using a by (simp add: accounted_def)
  have a1: "accounted held others s1"
  proof (rule accounted_acquires [OF a, where R = "case d of None \<Rightarrow> {} | Some d \<Rightarrow> {Handle d}"])
    show "held (gsa_state s) \<inter> (case d of None \<Rightarrow> {} | Some d \<Rightarrow> {Handle d}) = {}"
      "held (gsa_state s1) = held (gsa_state s) \<union> (case d of None \<Rightarrow> {} | Some d \<Rightarrow> {Handle d})"
      using usb_tracked_calls(4,5) [OF tracked] c by (auto simp: s1_def split: option.splits)
    show "holds s1 = holds s \<union> (case d of None \<Rightarrow> {} | Some d \<Rightarrow> {Handle d})"
      using closed by (simp add: s1_def holds_def)
  qed (simp_all add: s1_def closed split: option.split)
  have state: "gsa_state s1 = k1" "gsa_usb s1 = 0" by (simp_all add: s1_def closed)
  have "accounted held others (s1\<lparr>gsa_state := k2, gsa_usb := u\<rparr>)" if "d \<noteq> None"
  proof (rule accounted_acquires [OF a1, where R = "if u = 0 then {} else {Interface u}"])
    show "held (gsa_state s1) \<inter> (if u = 0 then {} else {Interface u}) = {}"
      using usb_tracked_calls(6) [OF tracked i] by (simp add: state)
    show "held (gsa_state (s1\<lparr>gsa_state := k2, gsa_usb := u\<rparr>)) = held (gsa_state s1) \<union> (if u = 0 then {} else {Interface u})"
      using usb_tracked_calls(6) [OF tracked i] by (auto simp: state)
    show "holds (s1\<lparr>gsa_state := k2, gsa_usb := u\<rparr>) = holds s1 \<union> (if u = 0 then {} else {Interface u})"
      using state by (auto simp: holds_def)
  qed (simp_all add: state)
  then show "accounted held others s'" using a1 by (simp add: s')
qed

lemma accounted_event:
  assumes "accounted held others s" and "sys wu_CreateEvent s = (e, s1)"
  shows "gsa_readEvent s = 0 \<Longrightarrow> accounted held others (s1\<lparr>gsa_readEvent := e\<rparr>)"
    and "gsa_writeEvent s = 0 \<Longrightarrow> accounted held others (s1\<lparr>gsa_writeEvent := e\<rparr>)"
proof -
  obtain k where c: "wu_CreateEvent (gsa_system s) (gsa_state s) = (e, k)" and s1: "s1 = s\<lparr>gsa_state := k\<rparr>"
    using sys_result [OF assms(2)] by blast
  let ?R = "if e = 0 then {} else {Handle e}"
  have tracked: "usb_tracked (gsa_system s) held" using assms(1) by (simp add: accounted_def)
  note k = usb_tracked_calls(8) [OF tracked c]
  have fresh: "held (gsa_state s) \<inter> ?R = {}" "held k = held (gsa_state s) \<union> ?R" using k by (auto split: if_splits)
  show "accounted held others (s1\<lparr>gsa_readEvent := e\<rparr>)" if "gsa_readEvent s = 0"
    by (rule accounted_acquires [OF assms(1), where R = ?R]) (use fresh that s1 in \<open>auto simp: holds_def split: option.splits\<close>)
  show "accounted held others (s1\<lparr>gsa_writeEvent := e\<rparr>)" if "gsa_writeEvent s = 0"
    by (rule accounted_acquires [OF assms(1), where R = ?R]) (use fresh that s1 in \<open>auto simp: holds_def split: option.splits\<close>)
qed

lemma StartReceiving_result:
  assumes "StartReceiving s = (ok, s')"
  shows "tells s [] s' \<and> gsa_open s' = gsa_open s \<and> gsa_usb s' = gsa_usb s"
    and "accounted held others s \<Longrightarrow> gsa_usb s \<noteq> 0 \<Longrightarrow> gsa_readEvent s = 0 \<Longrightarrow> gsa_writeEvent s = 0 \<Longrightarrow>
      accounted held others s'"
proof -
  define s1 where "s1 = sys_do (\<lambda>K. wu_SetPipePolicy K (gsa_usb s) (gsa_outPipe s)) s"
  have s1: "mild s s1" unfolding s1_def by (rule mild_sys_do) (rule usb_silent_calls)
  obtain e1 s2 where c1: "sys wu_CreateEvent s1 = (e1, s2)" by force
  define s3 where "s3 = s2\<lparr>gsa_readEvent := e1\<rparr>"
  obtain e2 s4 where c2: "sys wu_CreateEvent s3 = (e2, s4)" by force
  define s5 where "s5 = s4\<lparr>gsa_writeEvent := e2\<rparr>"
  obtain b s6 where r: "StartRead s5 = (b, s6)" by force
  have s': "s' \<in> {s5, s6}"
    using assms c1 c2 r by (auto simp: StartReceiving_def Let_def s1_def [symmetric] s3_def [symmetric] s5_def [symmetric]
        split: if_splits)
  have unwritten: "gsa_writeEvent s3 = gsa_writeEvent s" using s1 c1 by (auto simp: s3_def mild_def elim!: sys_result)
  have s5: "tells s [] s5 \<and> gsa_open s5 = gsa_open s \<and> gsa_usb s5 = gsa_usb s"
    using s1 c1 c2 by (auto simp: s5_def s3_def mild_def elim!: sys_result)
  then show "tells s [] s' \<and> gsa_open s' = gsa_open s \<and> gsa_usb s' = gsa_usb s"
    using s' StartRead_result(1) [OF r] tells_trans [of s "[]" s5 "[]" s6] by auto
  assume a: "accounted held others s" and usb: "gsa_usb s \<noteq> 0" and none: "gsa_readEvent s = 0" "gsa_writeEvent s = 0"
  have "gsa_readEvent s1 = 0" using s1 none by (simp add: mild_def)
  then have "accounted held others s3"
    unfolding s3_def by (rule accounted_event(1) [OF mild_accounted [OF s1 a] c1])
  then have "accounted held others s5"
    unfolding s5_def using accounted_event(2) [OF _ c2] unwritten none by simp
  then show "accounted held others s'" using StartRead_result(2) [OF r] usb s5 s' by auto
qed

text \<open>The result of \<open>Open\<close> on an adapter that holds nothing.\<close>

lemma OpenG_cases:
  assumes "OpenG path bitrate s = Some (ok, s')" and "OpenDevice path s = (b1, s1)"
  obtains (unsuitable) s2 m where "\<not> ok" "mild s1 s2" "s' = ReportErrorH m s2"
    | (deaf) s3 s4 m where "mild s1 s3" "StartReceiving s3 = (False, s4)" "b1" "\<not> ok" "s' = ReportErrorH m s4"
    | (opened) s3 s4 where "mild s1 s3" "StartReceiving s3 = (True, s4)" "b1" "ok" "s' = s4\<lparr>gsa_open := True\<rparr>"
proof (cases b1)
  case False
  then have "\<not> ok \<and> s' = ReportErrorH ''The candleLight adapter could not be opened; it may be in use by another program'' s1"
    using assms by (simp add: OpenG_def)
  then show thesis using unsuitable [OF _ mild_refl] by blast
next
  case b1: True
  obtain b2 s2 where f: "FindPipes s1 = (b2, s2)" by force
  have m2: "mild s1 s2" using FindPipes_mild [OF f] .
  show thesis
  proof (cases b2)
    case False
    then have "\<not> ok \<and> s' = ReportErrorH ''The candleLight adapter does not offer the expected endpoints'' s2"
      using assms b1 f by (simp add: OpenG_def)
    then show thesis using unsuitable [OF _ m2] by blast
  next
    case b2: True
    then obtain b3 s3 where c: "ConfigureG bitrate s2 = Some (b3, s3)"
      using assms b1 f by (cases "ConfigureG bitrate s2") (auto simp: OpenG_def)
    show thesis
    proof (cases b3)
      case False
      then have "\<not> ok \<and> s' = s3" using assms b1 b2 c f by (simp add: OpenG_def)
      moreover obtain s5 m where "mild s2 s5" "s3 = ReportErrorH m s5" using False ConfigureG_mild [OF c] by auto
      ultimately show thesis using unsuitable mild_trans [OF m2] by blast
    next
      case b3: True
      have m3: "mild s1 s3" using b3 ConfigureG_mild [OF c] mild_trans [OF m2] by auto
      obtain b4 s4 where r: "StartReceiving s3 = (b4, s4)" by force
      show thesis
      proof (cases b4)
        case True
        then have "ok \<and> s' = s4\<lparr>gsa_open := True\<rparr>" using assms b1 b2 b3 c f r by (simp add: OpenG_def)
        then show thesis using opened [OF m3, of s4] r True b1 by simp
      next
        case False
        then have "\<not> ok \<and> s' = ReportErrorH ''The candleLight adapter could not start receiving'' s4"
          using assms b1 b2 b3 c f r by (simp add: OpenG_def)
        then show thesis using deaf [OF m3, of s4] r False b1 by simp
      qed
    qed
  qed
qed

lemma error_tells: "tells s [] s1 \<Longrightarrow> tells s [AdapterError m] (ReportErrorH m s1)"
  by (simp add: ReportErrorH_def ho_emit_def tells_def)

lemma mild_tells: "tells s [] s1 \<Longrightarrow> mild s1 s2 \<Longrightarrow> tells s [] s2"
  using tells_trans [of s "[]" s1 "[]" s2] by (simp add: mild_def)

lemma OpenG_result:
  assumes "OpenG path bitrate s = Some (ok, s')" and "\<not> gsa_open s"
  shows "gsa_open s' = ok \<and> (if ok then gsa_usb s' \<noteq> 0 \<and> tells s [] s' else \<exists>m. tells s [AdapterError m] s')"
proof -
  obtain b1 s1 where o: "OpenDevice path s = (b1, s1)" by force
  note s1 = OpenDevice_result(1) [OF o]
  have received: "tells s [] s4 \<and> \<not> gsa_open s4 \<and> gsa_usb s4 = gsa_usb s1"
    if "mild s1 s3" "StartReceiving s3 = (b, s4)" for s3 s4 b
  proof -
    note r = StartReceiving_result(1) [OF that(2)]
    have "tells s [] s4" using tells_trans [OF mild_tells [OF _ that(1)] conjunct1 [OF r]] s1 by simp
    then show ?thesis using r that(1) s1 assms(2) by (simp add: mild_def)
  qed
  from assms(1) o show ?thesis
  proof (cases rule: OpenG_cases)
    case (unsuitable s2 m)
    then have "\<not> gsa_open s2" using s1 assms(2) by (simp add: mild_def)
    then show ?thesis using unsuitable error_tells [OF mild_tells [OF _ unsuitable(2)], of s m] s1 by auto
  next
    case (deaf s3 s4 m)
    then show ?thesis using received [OF deaf(1,2)] error_tells [of s s4 m] by auto
  next
    case (opened s3 s4)
    then show ?thesis using received [OF opened(1,2)] s1 by simp
  qed
qed

lemma OpenG_accounted:
  assumes "OpenG path bitrate s = Some (ok, s')" and "all_closed s" and "accounted held others s"
  shows "accounted held others s'"
proof -
  obtain b1 s1 where o: "OpenDevice path s = (b1, s1)" by force
  note s1 = OpenDevice_result(1) [OF o]
  have a: "accounted held others s1" by (rule OpenDevice_result(2) [OF o assms(2,3)])
  have received: "accounted held others s4" if m: "mild s1 s3" and r: "StartReceiving s3 = (b, s4)" and "b1" for s3 s4 b
  proof (rule StartReceiving_result(2) [OF r mild_accounted [OF m a]])
    show "gsa_usb s3 \<noteq> 0" "gsa_readEvent s3 = 0" "gsa_writeEvent s3 = 0"
      using m s1 that(3) assms(2) by (simp_all add: mild_def all_closed_def)
  qed
  from assms(1) o show ?thesis
  proof (cases rule: OpenG_cases)
    case (unsuitable s2 m)
    then show ?thesis using mild_accounted [OF unsuitable(2) a] by simp
  next
    case (deaf s3 s4 m)
    then show ?thesis using received [OF deaf(1-3)] by simp
  next
    case (opened s3 s4)
    have "holds s' = holds s4" by (simp add: opened(5) holds_def)
    then show ?thesis using received [OF opened(1-3)] opened(5) by (simp add: accounted_def)
  qed
qed

text \<open>Rule for the walk through the devices: \<open>P\<close> holds as long as it goes on, \<open>Q\<close> at its end.\<close>

lemma visit_devices_rule:
  assumes "visit_devices devices indices visit x s = Some (x', s')" and "P x s"
    and mild: "\<And>x s s'. P x s \<Longrightarrow> mild s s' \<Longrightarrow> P x s'" and final: "\<And>x s. P x s \<Longrightarrow> Q x s"
    and "\<And>i path x s again x' s'. P x s \<Longrightarrow> i \<in> set indices \<Longrightarrow> visit i path x s = Some (again, x', s') \<Longrightarrow>
      if again then P x' s' else Q x' s'"
  shows "Q x' s'"
  using assms(1,2,5)
proof (induction indices arbitrary: x s)
  case Nil
  then show ?case using final [of x s] by simp
next
  case (Cons index indices)
  obtain d s1 where e: "sys (\<lambda>K. wu_EnumDeviceInterfaces K devices index) s = (d, s1)" by force
  have "mild s s1" using e by (rule mild_sys) (rule usb_silent_calls)
  then have s1: "P x s1" using Cons.prems(2) mild by blast
  have later: "Q x' s'" if "visit_devices devices indices visit x1 s2 = Some (x', s')" "P x1 s2" for x1 s2
  proof (rule Cons.IH [OF that])
    show "if again then P x' s' else Q x' s'" if "P x s" "i \<in> set indices" "visit i path x s = Some (again, x', s')"
      for i path x s again x' s'
      using Cons.prems(3) [OF that(1) _ that(3)] that(2) by simp
  qed
  show ?case
  proof (cases d)
    case None
    then have "x' = x \<and> s' = s1" using Cons.prems(1) e by simp
    then show ?thesis using final [OF s1] by simp
  next
    case (Some interface)
    obtain p s2 where g: "sys (\<lambda>K. wu_GetDeviceInterfaceDetail K devices interface) s1 = (p, s2)" by force
    have "mild s1 s2" using g by (rule mild_sys) (rule usb_silent_calls)
    then have s2: "P x s2" using s1 mild by blast
    show ?thesis
    proof (cases p)
      case None
      then have "visit_devices devices indices visit x s2 = Some (x', s')" using Cons.prems(1) e g Some by simp
      then show ?thesis using s2 by (rule later)
    next
      case path: (Some path)
      obtain again x1 s3 where v: "visit index path x s2 = Some (again, x1, s3)"
        using Cons.prems(1) e g Some path by (cases "visit index path x s2") auto
      have next_one: "if again then P x1 s3 else Q x1 s3" using Cons.prems(3) [OF s2 _ v] by simp
      have "if again then visit_devices devices indices visit x1 s3 = Some (x', s') else x' = x1 \<and> s' = s3"
        using Cons.prems(1) e g Some path v by (cases again) simp_all
      then show ?thesis using next_one later by (cases again) simp_all
    qed
  qed
qed

section \<open>The contract of an adapter\<close>

lemma gs_usb_operations_simps [simp]:
  "hop_Connect gs_usb_operations = ConnectG"
  "hop_Disconnect gs_usb_operations = DisconnectG" "hop_IsConnected gs_usb_operations = IsConnectedG"
  "hop_SendData gs_usb_operations = SendDataG" "hop_ProcessReadEvent gs_usb_operations = ProcessReadEventG"
  by (simp_all add: gs_usb_operations_def)

text \<open>The walk of \<open>Connect\<close> through the devices: nothing is told before the device is found, and \<open>Open\<close>
  tells an error when it fails.\<close>

definition searched :: "bool \<Rightarrow> ('a, 'k) gs_usb \<Rightarrow> bool \<Rightarrow> ('a, 'k) gs_usb \<Rightarrow> bool" where
  "searched strict s0 found s \<longleftrightarrow> (if gsa_open s then found \<and> gsa_usb s \<noteq> 0 \<and> tells s0 [] s
     else (strict \<longrightarrow> all_closed s) \<and> (if found then \<exists>m. tells s0 [AdapterError m] s else tells s0 [] s))"

lemma searched_mild:
  assumes "mild s s'" and "searched strict s0 found s"
  shows "searched strict s0 found s'"
proof -
  have same: "gsa_open s' = gsa_open s" "gsa_usb s' = gsa_usb s" "tells s [] s'" using assms(1) by (simp_all add: mild_def)
  have "tells s0 out s \<Longrightarrow> tells s0 out s'" for out using tells_trans [OF _ same(3)] by fastforce
  then show ?thesis using assms(2) same mild_closed [OF assms(1)] by (auto simp: searched_def split: if_splits)
qed

lemma open_numbered_result:
  assumes "open_numbered number bitrate index path found s = Some (again, found', s')" and "searched strict s0 found s" and "\<not> found"
  shows "searched strict s0 found' s' \<and> again = (\<not> found')"
    and "strict \<Longrightarrow> accounted held others s \<Longrightarrow> accounted held others s'"
proof -
  have s: "strict \<longrightarrow> all_closed s" "tells s0 [] s" "\<not> gsa_open s" using assms(2,3) by (auto simp: searched_def split: if_splits)
  have both: "searched strict s0 found' s' \<and> again = (\<not> found') \<and> (strict \<longrightarrow> accounted held others s \<longrightarrow> accounted held others s')"
  proof (cases "index + 1 = number")
    case False
    then show ?thesis using assms by (auto simp: open_numbered_def)
  next
    case True
    then obtain b s1 where o: "OpenG path bitrate s = Some (b, s1)" "again = False" "found' = True"
        "s' = (if b then s1 else CloseG s1)"
      using assms(1) by (cases "OpenG path bitrate s") (auto simp: open_numbered_def)
    note r = OpenG_result [OF o(1) s(3)]
    have a: "strict \<longrightarrow> accounted held others s \<longrightarrow> accounted held others s1" using OpenG_accounted [OF o(1)] s(1) by blast
    show ?thesis
    proof (cases b)
      case True
      then show ?thesis using o r a tells_trans [OF s(2), of "[]" s1] by (simp add: searched_def)
    next
      case False
      then obtain m where "tells s [AdapterError m] s1" using r by auto
      then have "tells s0 [AdapterError m] (CloseG s1)" using tells_trans [OF s(2)] by fastforce
      moreover have "all_closed (CloseG s1)" by (simp add: CloseG_form all_closed_def)
      moreover then have "\<not> gsa_open (CloseG s1)" by (simp add: all_closed_def)
      ultimately show ?thesis using False o a CloseG_frees(1) [of held others s1] by (auto simp: searched_def)
    qed
  qed
  then show "searched strict s0 found' s' \<and> again = (\<not> found')" by blast
  show "strict \<Longrightarrow> accounted held others s \<Longrightarrow> accounted held others s'" using both by blast
qed

lemma ForEachDevicePath_cases:
  assumes "ForEachDevicePath visit x s = Some (x', s')"
  obtains (none) k where "wu_GetClassDevs (gsa_system s) (gsa_state s) = (None, k)" "x' = x" "s' = s\<lparr>gsa_state := k\<rparr>"
    | (some) d k s1 where "wu_GetClassDevs (gsa_system s) (gsa_state s) = (Some d, k)"
      "visit_devices d [0..<maxDevices] visit x (s\<lparr>gsa_state := k\<rparr>) = Some (x', s1)"
      "s' = sys_do (\<lambda>K. wu_DestroyDeviceInfoList K d) s1"
proof -
  obtain r k where k: "wu_GetClassDevs (gsa_system s) (gsa_state s) = (r, k)" by force
  show thesis
  proof (cases r)
    case None
    then show thesis using assms k none by (simp add: ForEachDevicePath_def sys_def)
  next
    case (Some d)
    then show thesis
      using assms k some by (cases "visit_devices d [0..<maxDevices] visit x (s\<lparr>gsa_state := k\<rparr>)")
        (auto simp: ForEachDevicePath_def sys_def)
  qed
qed

lemma searched_updates [simp]:
  "searched strict s0 found (s\<lparr>gsa_state := k\<rparr>) = searched strict s0 found s" "searched strict s0 found (sys_do call' s) = searched strict s0 found s"
  by (simp_all add: searched_def all_closed_def sys_do_def)

lemma search_outcome:
  assumes "ForEachDevicePath (open_numbered number bitrate) False s = Some (found, s')" and "if strict then all_closed s else \<not> gsa_open s"
  shows "searched strict s found s'"
proof -
  have start: "searched strict s False s" using assms(2) by (auto simp: searched_def all_closed_def split: if_splits)
  from assms(1) show ?thesis
  proof (cases rule: ForEachDevicePath_cases)
    case (none k)
    then show ?thesis using start by simp
  next
    case (some d k s1)
    have "searched strict s found s1"
    proof (rule visit_devices_rule [OF some(2), where P = "\<lambda>found s'. \<not> found \<and> searched strict s found s'"])
      show "if again then \<not> f' \<and> searched strict s f' t' else searched strict s f' t'"
        if "\<not> f \<and> searched strict s f t" "open_numbered number bitrate i path f t = Some (again, f', t')" for i path f t again f' t'
        using open_numbered_result(1) [OF that(2)] that(1) by fastforce
    qed (use start searched_mild in auto)
    then show ?thesis using some by simp
  qed
qed

text \<open>A \<open>Connect\<close> on an adapter that is not connected.\<close>

lemma ConnectG_cases:
  assumes "ConnectG name bitrate s = Some (ok, s')" and "\<not> IsConnectedG s"
  obtains (invalid) m where "ok = False" "s' = ReportErrorH m s"
  | (walked) number found s1 m where "ForEachDevicePath (open_numbered number bitrate) False s = Some (found, s1)"
      "ok = gsa_open s1" "s' = (let s2 = if found then s1 else ReportErrorH m s1 in
        if ok then ho_emit [ConnectionChanged True] s2 else s2)"
proof -
  have s: "\<not> gsa_open s" using assms(2) by (simp add: IsConnectedG_def)
  let ?m = "''No such candleLight adapter is plugged in; candleLight adapters are numbered from 1 (for example candleLight:1)''"
  show thesis
  proof (cases "\<exists>number. ParseChannelNumber name = Some number \<and> number \<ge> 1")
    case False
    have "ConnectG name bitrate s = Some (False, ReportErrorH ?m s)"
    proof (cases "ParseChannelNumber name")
      case None
      then show ?thesis using s by (simp add: ConnectG_def Let_def IsConnectedG_def)
    next
      case (Some number)
      then have "\<not> number \<ge> 1" using False by blast
      then show ?thesis using s Some by (simp add: ConnectG_def Let_def IsConnectedG_def)
    qed
    then show thesis using invalid assms(1) by simp
  next
    case True
    then obtain number where n: "ParseChannelNumber name = Some number" "number \<ge> 1" by blast
    show thesis
    proof (cases "ForEachDevicePath (open_numbered (unat number) bitrate) False s")
      case None
      then have "ConnectG name bitrate s = None" using n s by (simp add: ConnectG_def Let_def IsConnectedG_def)
      then show thesis using assms(1) by simp
    next
      case (Some r)
      obtain found s1 where r: "r = (found, s1)" by force
      define s2 where "s2 = (if found then s1 else ReportErrorH ?m s1)"
      have "ConnectG name bitrate s = Some (if \<not> gsa_open s2 then (False, s2) else (True, ho_emit [ConnectionChanged True] s2))"
        using n s Some r by (simp add: ConnectG_def Let_def IsConnectedG_def s2_def)
      moreover have "gsa_open s2 = gsa_open s1" by (simp add: s2_def)
      ultimately show thesis
        using walked [OF Some [unfolded r], of ?m] assms(1) by (cases "gsa_open s1") (simp_all add: Let_def s2_def)
    qed
  qed
qed

text \<open>\<open>usb_balanced\<close> is the invariant: what is held is accounted for, and an adapter without a connection
  holds nothing.\<close>

definition usb_balanced :: "('k \<Rightarrow> usb_resource set) \<Rightarrow> usb_resource set \<Rightarrow> ('a, 'k) gs_usb \<Rightarrow> bool" where
  "usb_balanced held others s \<longleftrightarrow> accounted held others s \<and> (if gsa_open s then gsa_usb s \<noteq> 0 else all_closed s)"

lemma usb_balanced_telling [simp]:
  "usb_balanced held others (ho_emit out s) = usb_balanced held others s"
  "usb_balanced held others (ReportErrorH m s) = usb_balanced held others s"
  "usb_balanced held others (DeliverH i d s) = usb_balanced held others s"
  "usb_balanced held others (ScheduleCompletionH a ok s) = usb_balanced held others s"
  by (simp_all add: usb_balanced_def)

lemma usb_balanced_closed: "usb_balanced held others s \<Longrightarrow> \<not> IsConnectedG s \<Longrightarrow> all_closed s \<and> held (gsa_state s) = others"
  using accounted_closed by (auto simp: usb_balanced_def IsConnectedG_def)

lemma mild_balanced:
  assumes "mild s s'" and "usb_balanced held others s"
  shows "usb_balanced held others s'"
proof -
  have "gsa_open s' = gsa_open s" "gsa_usb s' = gsa_usb s" using assms(1) by (simp_all add: mild_def)
  then show ?thesis
    using assms mild_accounted [OF assms(1)] mild_closed [OF assms(1)] by (simp add: usb_balanced_def)
qed

lemma DisconnectG_result:
  "\<not> IsConnectedG (DisconnectG s)" "IsConnectedG s \<Longrightarrow> tells s [ConnectionChanged False] (DisconnectG s)"
  "\<not> IsConnectedG s \<Longrightarrow> DisconnectG s = s" "usb_balanced held others s \<Longrightarrow> usb_balanced held others (DisconnectG s)"
proof -
  obtain ok s1 where o: "ControlOut requestMode gsChannel (EncodeMode modeReset) s = (ok, s1)" by force
  have m: "mild s s1" using ControlOut_mild [OF o] .
  have closed: "\<not> gsa_open (CloseG s1)" by (simp add: CloseG_form)
  show "\<not> IsConnectedG (DisconnectG s)" using o closed by (simp add: DisconnectG_def IsConnectedG_def)
  show "\<not> IsConnectedG s \<Longrightarrow> DisconnectG s = s" by (simp add: DisconnectG_def)
  show "tells s [ConnectionChanged False] (DisconnectG s)" if "IsConnectedG s"
  proof -
    have "tells s [] (CloseG s1)" using m by (simp add: mild_def)
    then show ?thesis using o that by (simp add: DisconnectG_def ho_emit_def tells_def)
  qed
  show "usb_balanced held others (DisconnectG s)" if "usb_balanced held others s"
  proof -
    have "accounted held others s1" using mild_accounted [OF m] that by (simp add: usb_balanced_def)
    then show ?thesis using o that closed CloseG_frees by (auto simp: DisconnectG_def usb_balanced_def)
  qed
qed

lemma ConnectG_reconnects: "IsConnectedG s \<Longrightarrow> ConnectG name bitrate s = ConnectG name bitrate (DisconnectG s)"
  using DisconnectG_result(1) [of s] by (simp add: ConnectG_def)

lemma CloseG_closed: "\<not> IsConnectedG s \<Longrightarrow> usb_balanced held others s \<Longrightarrow> all_closed s"
  by (simp add: usb_balanced_def IsConnectedG_def)

lemma ForEachDevicePath_accounted:
  assumes "ForEachDevicePath (open_numbered number bitrate) False s = Some (found, s')" and "all_closed s"
    and "accounted held others s"
  shows "accounted held others s'"
proof -
  have a: "usb_tracked (gsa_system s) held" "held (gsa_state s) = others"
    using assms(2,3) accounted_closed by (auto simp: accounted_def)
  from assms(1) show ?thesis
  proof (cases rule: ForEachDevicePath_cases)
    case (none k)
    then have "held k = held (gsa_state s)" using usb_tracked_calls(1) [OF a(1)] by simp
    moreover have "holds (s\<lparr>gsa_state := k\<rparr>) = holds s" by (simp add: holds_def)
    ultimately show ?thesis using assms(3) none(3) by (simp add: accounted_def)
  next
    case (some d k s1)
    let ?others = "insert (DeviceList d) others"
    have k: "DeviceList d \<notin> others" "held k = ?others" using usb_tracked_calls(2) [OF a(1) some(1)] a(2) by simp_all
    have "holds (s\<lparr>gsa_state := k\<rparr>) = {}" using assms(2) by (simp add: holds_def all_closed_def)
    then have start: "accounted held ?others (s\<lparr>gsa_state := k\<rparr>)"
      using assms(2,3) k by (simp add: accounted_def)
    have closed: "searched True s False (s\<lparr>gsa_state := k\<rparr>)" using assms(2) by (auto simp: searched_def all_closed_def)
    have "accounted held ?others s1"
    proof (rule visit_devices_rule [OF some(2), where P = "\<lambda>found s'. \<not> found \<and> searched True s found s' \<and> accounted held ?others s'"])
      show "if again then \<not> f' \<and> searched True s f' t' \<and> accounted held ?others t' else accounted held ?others t'"
        if "\<not> f \<and> searched True s f t \<and> accounted held ?others t" "open_numbered number bitrate i path f t = Some (again, f', t')"
        for i path f t again f' t'
        using open_numbered_result [OF that(2)] that(1) by fastforce
      show "\<not> f \<and> searched True s f t' \<and> accounted held ?others t'"
        if "\<not> f \<and> searched True s f t \<and> accounted held ?others t" "mild t t'" for f t t'
        using that searched_mild mild_accounted by blast
    qed (use start closed in simp_all)
    then have s1: "usb_tracked (gsa_system s1) held" "usb_silent (gsa_system s1) held"
        "held (gsa_state s1) - {Reading} = ?others \<union> holds s1" "?others \<inter> holds s1 = {}" "Reading \<notin> others"
        "Reading \<in> held (gsa_state s1) \<longrightarrow> gsa_readPending s1" "gsa_readPending s1 \<longrightarrow> gsa_usb s1 \<noteq> 0"
      by (simp_all add: accounted_def)
    have "held (gsa_state s1) - {DeviceList d} - {Reading} = others \<union> holds s1"
      using s1(3) k(1) Reading_not_held(2) [of d s1] by blast
    moreover have "holds s' = holds s1" by (simp add: some(3) holds_def sys_do_def)
    ultimately show ?thesis
      using s1 usb_tracked_calls(3) [OF s1(1), of d "gsa_state s1"] by (simp add: accounted_def some(3) sys_do_def)
  qed
qed

lemma ConnectG_fresh:
  assumes "ConnectG name bitrate s = Some (ok, s')" and "\<not> IsConnectedG s"
  shows "IsConnectedG s' = ok \<and> connect_outcome False ok s s'"
    and "usb_balanced held others s \<Longrightarrow> usb_balanced held others s'"
proof -
  have off: "\<not> gsa_open s" using assms(2) by (simp add: IsConnectedG_def)
  have both: "IsConnectedG s' = ok \<and> connect_outcome False ok s s' \<and>
      (usb_balanced held others s \<longrightarrow> usb_balanced held others s')"
    using assms
  proof (cases rule: ConnectG_cases)
    case (invalid m)
    then show ?thesis using assms(2) connect_fails [of s s m] by (simp add: IsConnectedG_def)
  next
    case (walked number found s1 m)
    have r: "searched False s found s1" by (rule search_outcome [OF walked(1)]) (simp add: off)
    have a: "accounted held others s1 \<and> searched True s found s1" if "usb_balanced held others s"
    proof
      have c: "all_closed s" using that off by (simp add: usb_balanced_def)
      show "accounted held others s1"
        by (rule ForEachDevicePath_accounted [OF walked(1) c]) (use that in \<open>simp add: usb_balanced_def\<close>)
      show "searched True s found s1" by (rule search_outcome [OF walked(1)]) (simp add: c)
    qed
    show ?thesis
    proof (cases ok)
      case True
      then have "found" "tells s [] s1" "gsa_usb s1 \<noteq> 0" "gsa_open s1" using r walked(2) by (simp_all add: searched_def)
      then show ?thesis using walked(3) True a by (simp add: connect_succeeds IsConnectedG_def usb_balanced_def)
    next
      case False
      then have c: "\<not> gsa_open s1" "if found then \<exists>m. tells s [AdapterError m] s1 else tells s [] s1"
        using r walked(2) by (simp_all add: searched_def)
      have s': "s' = (if found then s1 else ReportErrorH m s1)" using walked(3) False by (simp add: Let_def)
      have "connect_outcome False False s s'"
      proof (cases found)
        case True
        then show ?thesis using c(2) s' by (auto simp: connect_outcome_def)
      next
        case not_found: False
        then show ?thesis using c(2) s' by (simp add: connect_fails)
      qed
      then show ?thesis using False s' c(1) a by (auto simp: usb_balanced_def IsConnectedG_def searched_def)
    qed
  qed
  then show "IsConnectedG s' = ok \<and> connect_outcome False ok s s'"
    and "usb_balanced held others s \<Longrightarrow> usb_balanced held others s'" by blast+
qed

lemma SendDataG_result:
  "IsConnectedG (SendDataG canId data a s) = IsConnectedG s \<and>
    send_outcome (IsConnectedG s) canId data a s (SendDataG canId data a s)"
  "usb_balanced held others s \<Longrightarrow> usb_balanced held others (SendDataG canId data a s)"
proof -
  have "IsConnectedG (SendDataG canId data a s) = IsConnectedG s \<and>
    send_outcome (IsConnectedG s) canId data a s (SendDataG canId data a s) \<and>
    (usb_balanced held others s \<longrightarrow> usb_balanced held others (SendDataG canId data a s))"
  proof (cases "\<exists>i. canId = Id29 i \<and> IsConnectedG s")
    case False
    then have "SendDataG canId data a s = ScheduleCompletionH a False s"
      by (auto simp: SendDataG_def split: can_id.split)
    then show ?thesis by (simp add: send_refused IsConnectedG_def)
  next
    case True
    then obtain i where i: "canId = Id29 i" "IsConnectedG s" by blast
    obtain ok s1 where w: "WriteFrame i data s = (ok, s1)" by force
    have m: "mild s s1" using WriteFrame_mild [OF w] .
    have "tells s [] s1" "gsa_open s1 = gsa_open s" using m by (simp_all add: mild_def)
    then show ?thesis using i w mild_balanced [OF m, of held others]
      by (cases ok) (simp_all add: SendDataG_def send_succeeds send_fails IsConnectedG_def)
  qed
  then show "IsConnectedG (SendDataG canId data a s) = IsConnectedG s \<and>
    send_outcome (IsConnectedG s) canId data a s (SendDataG canId data a s)"
    "usb_balanced held others s \<Longrightarrow> usb_balanced held others (SendDataG canId data a s)" by blast+
qed

lemma DecodeGsFrame_short: "DecodeGsFrame bs = Some f \<Longrightarrow> length (hf_data f) \<le> 8"
  by (auto simp: DecodeGsFrame_def Let_def word_less_nat_alt min_def split: if_splits)

lemma DispatchFrame_reads: "reads True s True (DispatchFrame bs s)"
  using DecodeGsFrame_short [of bs] reads_deliver [of _ s] reads_error
  by (auto simp: DispatchFrame_def split: option.split)

lemma DispatchFrame_keeps [simp]:
  "gsa_open (DispatchFrame bs s) = gsa_open s" "gsa_usb (DispatchFrame bs s) = gsa_usb s"
  "usb_balanced held others (DispatchFrame bs s) = usb_balanced held others s"
  by (simp_all add: DispatchFrame_def split: option.split)

lemma DispatchG_step:
  "frameSize \<le> length bs \<and> IsConnectedG s \<Longrightarrow> DispatchG bs s = DispatchG (drop frameSize bs) (DispatchFrame bs s)"
  "\<not> (frameSize \<le> length bs \<and> IsConnectedG s) \<Longrightarrow> DispatchG bs s = s"
  by (rule trans [OF DispatchG.simps if_P], assumption, rule trans [OF DispatchG.simps if_not_P], assumption)

lemma DispatchG_result:
  "gsa_open (DispatchG bs s) = gsa_open s \<and> gsa_usb (DispatchG bs s) = gsa_usb s \<and>
   usb_balanced held others (DispatchG bs s) = usb_balanced held others s \<and>
   (IsConnectedG s \<longrightarrow> reads True s True (DispatchG bs s))"
proof (induction bs s rule: DispatchG.induct)
  case (1 bs s)
  show ?case
  proof (cases "frameSize \<le> length bs \<and> IsConnectedG s")
    case False
    then show ?thesis by (simp only: DispatchG_step(2) [OF False]) simp
  next
    case True
    have "IsConnectedG (DispatchFrame bs s)" using True by (simp add: IsConnectedG_def)
    then show ?thesis using "1.IH" [OF True] reads_trans [OF DispatchFrame_reads [of s bs]] by (simp add: DispatchG_step(1) [OF True])
  qed
qed

lemma LostG_result:
  "\<not> gsa_open (LostG m s)" "reads True s False (LostG m s)"
  "accounted held others s \<Longrightarrow> usb_balanced held others (LostG m s)"
proof -
  show "\<not> gsa_open (LostG m s)" by (simp add: LostG_def CloseG_form)
  have "tells s [] (CloseG s)" by simp
  then have "tells s [AdapterError m, ConnectionChanged False] (LostG m s)"
    by (simp add: LostG_def ReportErrorH_def ho_emit_def tells_def)
  then show "reads True s False (LostG m s)"
    unfolding reads_def by (rule exI [where x = "[AdapterError m, ConnectionChanged False]", OF conjI]) simp
  show "usb_balanced held others (LostG m s)" if "accounted held others s"
    using CloseG_frees [OF that] by (simp add: LostG_def usb_balanced_def) (simp add: all_closed_def)
qed

lemma poll_read_result:
  assumes "poll_read s = (again, s')" and "IsConnectedG s"
  shows "reads True s (IsConnectedG s') s'"
    and "usb_balanced held others s \<Longrightarrow> usb_balanced held others s'"
proof -
  obtain r k where k: "wu_GetReadResult (gsa_system s) (gsa_usb s) False (gsa_state s) = (r, k)" by force
  let ?s1 = "s\<lparr>gsa_state := k\<rparr>"
  have on: "gsa_open s" using assms(2) by (simp add: IsConnectedG_def)
  have quiet: "reads True s True ?s1" "reads True s True (?s1\<lparr>gsa_readPending := False\<rparr>)" by (rule reads_state, simp)+
  have got: "accounted held others ?s1" "r \<noteq> None \<Longrightarrow> usb_balanced held others (?s1\<lparr>gsa_readPending := False\<rparr>)"
    if b: "usb_balanced held others s"
  proof -
    have s: "usb_tracked (gsa_system s) held" "usb_silent (gsa_system s) held" "held (gsa_state s) - {Reading} = others \<union> holds s"
        "others \<inter> holds s = {}" "Reading \<notin> others" "Reading \<in> held (gsa_state s) \<longrightarrow> gsa_readPending s" "gsa_usb s \<noteq> 0"
      using b on by (simp_all add: usb_balanced_def accounted_def)
    note held = usb_tracked_calls(12) [OF s(1) k]
    have same: "holds ?s1 = holds s" "holds (?s1\<lparr>gsa_readPending := False\<rparr>) = holds s" by (simp_all add: holds_def)
    have "held k - {Reading} = held (gsa_state s) - {Reading}" "Reading \<in> held k \<longrightarrow> Reading \<in> held (gsa_state s)"
        "r \<noteq> None \<longrightarrow> Reading \<notin> held k"
      using held by (auto split: if_splits)
    then show "accounted held others ?s1" "r \<noteq> None \<Longrightarrow> usb_balanced held others (?s1\<lparr>gsa_readPending := False\<rparr>)"
      using s same on by (simp_all add: accounted_def usb_balanced_def)
  qed
  have both: "reads True s (IsConnectedG s') s' \<and> (usb_balanced held others s \<longrightarrow> usb_balanced held others s')"
  proof (cases r)
    case None
    then consider "s' = ?s1" | m where "s' = LostG m ?s1"
      using assms(1) k by (auto simp: poll_read_def sys_def split: if_splits)
    then show ?thesis
    proof cases
      case 1
      then show ?thesis using quiet on got(1) by (simp add: IsConnectedG_def usb_balanced_def)
    next
      case (2 m)
      then show ?thesis
        using got(1) LostG_result(1) [of m ?s1] reads_trans [OF quiet(1) LostG_result(2) [of ?s1 m]]
          LostG_result(3) [of held others ?s1 m] by (simp add: IsConnectedG_def)
    qed
  next
    case (Some received)
    define s2 where "s2 = DispatchG received (?s1\<lparr>gsa_readPending := False\<rparr>)"
    have d: "gsa_open s2" "gsa_usb s2 = gsa_usb s" "reads True s True s2"
      "usb_balanced held others s \<longrightarrow> usb_balanced held others s2"
      using DispatchG_result [of received "?s1\<lparr>gsa_readPending := False\<rparr>"] on got(2) Some reads_trans [OF quiet(2)]
      by (simp_all add: s2_def IsConnectedG_def)
    obtain b s3 where r: "StartRead s2 = (b, s3)" by force
    note s3 = StartRead_result [OF r]
    have read: "reads True s True s3" using reads_trans [OF d(3) reads_state] s3(1) by blast
    have a: "usb_balanced held others s \<longrightarrow> accounted held others s3"
      using s3(2) d by (auto simp: usb_balanced_def)
    have "s' = (if b then s3 else LostG ''The candleLight adapter stopped responding'' s3)"
      using assms(1) k Some d(1) r by (auto simp: poll_read_def sys_def Let_def s2_def [symmetric] IsConnectedG_def split: bool.splits)
    then show ?thesis
      using read a d(1,2) s3(1) LostG_result(1) [of _ s3] reads_trans [OF read LostG_result(2)] LostG_result(3) [of held others s3] on
      by (cases b) (simp_all add: IsConnectedG_def usb_balanced_def)
  qed
  then show "reads True s (IsConnectedG s') s'"
    and "usb_balanced held others s \<Longrightarrow> usb_balanced held others s'" by blast+
qed

lemma ProcessReadEventG_result:
  "reads (IsConnectedG s) s (IsConnectedG (ProcessReadEventG s)) (ProcessReadEventG s)"
  "usb_balanced held others s \<Longrightarrow> usb_balanced held others (ProcessReadEventG s)"
proof -
  show "reads (IsConnectedG s) s (IsConnectedG (ProcessReadEventG s)) (ProcessReadEventG s)"
    unfolding ProcessReadEventG_def by (rule poll_reads) (rule poll_read_result(1))
  show "usb_balanced held others (ProcessReadEventG s)" if "usb_balanced held others s"
    unfolding ProcessReadEventG_def
  proof (rule poll_keeps [where P = "usb_balanced held others", OF _ that])
    show "usb_balanced held others (snd (poll_read t))" if "usb_balanced held others t" "IsConnectedG t" for t
      using poll_read_result(2) [OF _ that(2,1), of "fst (poll_read t)"] by simp
  qed
qed

lemma ConnectG_result:
  assumes "ConnectG name bitrate s = Some (ok, s')"
  shows "IsConnectedG s' = ok \<and> connect_outcome (IsConnectedG s) ok s s'"
    and "usb_balanced held others s \<Longrightarrow> usb_balanced held others s'"
proof -
  have c: "ConnectG name bitrate (DisconnectG s) = Some (ok, s')"
    using assms ConnectG_reconnects [of s name bitrate] DisconnectG_result(3) [of s] by (cases "IsConnectedG s") simp_all
  note fresh = ConnectG_fresh [OF c DisconnectG_result(1)]
  show "IsConnectedG s' = ok \<and> connect_outcome (IsConnectedG s) ok s s'"
    using fresh(1) DisconnectG_result(2,3) [of s] connect_again [of s "DisconnectG s"] by (cases "IsConnectedG s") auto
  show "usb_balanced held others s'" if "usb_balanced held others s"
    using fresh(2) DisconnectG_result(4) that by blast
qed

interpretation gs_usb: host_adapter "gs_usb_operations :: ('a, ('a, 'k) gs_usb) host_operations"
proof
  fix s s' :: "('a, 'k) gs_usb" and name bitrate ok canId data a
  show "hop_IsConnected gs_usb_operations s = hop_IsConnected gs_usb_operations s'"
    if "host_members.more s = host_members.more s'"
    using gs_usb_members [OF that] by (simp add: IsConnectedG_def)
  show "hop_IsConnected gs_usb_operations s' = ok \<and> connect_outcome (hop_IsConnected gs_usb_operations s) ok s s'"
    if "hop_Connect gs_usb_operations name bitrate s = Some (ok, s')"
    using ConnectG_result(1) [of name bitrate s ok s'] that by simp
  show "\<not> hop_IsConnected gs_usb_operations (hop_Disconnect gs_usb_operations s) \<and>
      tells s (if hop_IsConnected gs_usb_operations s then [ConnectionChanged False] else [])
        (hop_Disconnect gs_usb_operations s)"
    using DisconnectG_result(1-3) [of s] by simp
  show "hop_IsConnected gs_usb_operations (hop_SendData gs_usb_operations canId data a s) =
        hop_IsConnected gs_usb_operations s \<and>
      send_outcome (hop_IsConnected gs_usb_operations s) canId data a s (hop_SendData gs_usb_operations canId data a s)"
    using SendDataG_result(1) by simp
  show "reads (hop_IsConnected gs_usb_operations s) s
      (hop_IsConnected gs_usb_operations (hop_ProcessReadEvent gs_usb_operations s))
      (hop_ProcessReadEvent gs_usb_operations s)"
    using ProcessReadEventG_result(1) by simp
qed

interpretation gs_usb_resources: leak_free_adapter "gs_usb_operations :: ('a, ('a, 'k) gs_usb) host_operations"
    "usb_balanced held others" for held :: "'k \<Rightarrow> usb_resource set" and others
proof
  fix s s' :: "('a, 'k) gs_usb" and name bitrate ok canId data a
  show "usb_balanced held others s = usb_balanced held others s'" if "host_members.more s = host_members.more s'"
    using gs_usb_members [OF that] by (simp add: usb_balanced_def accounted_def holds_def all_closed_def)
  assume s: "usb_balanced held others s"
  show "usb_balanced held others s'" if "hop_Connect gs_usb_operations name bitrate s = Some (ok, s')"
    using ConnectG_result(2) [OF _ s] that by simp
  show "usb_balanced held others (hop_Disconnect gs_usb_operations s)"
    "usb_balanced held others (hop_SendData gs_usb_operations canId data a s)"
    "usb_balanced held others (hop_ProcessReadEvent gs_usb_operations s)"
    using DisconnectG_result(4) [OF s] SendDataG_result(2) [OF s] ProcessReadEventG_result(2) [OF s] by simp_all
qed

section \<open>When \<open>Connect\<close> returns\<close>

lemma ComputeBitTiming_returns:
  assumes "unat (btc_brpMax c) + max (unat (btc_brpIncrement c)) 1 < 2 ^ 32"
  shows "\<exists>r. ComputeBitTiming c bitrate = Some r"
proof -
  let ?step = "max (btc_brpIncrement c) 1"
  have step: "unat ?step = max (unat (btc_brpIncrement c)) 1" by (simp add: max_def word_le_nat_alt)
  then have "0 < unat ?step" by (simp add: less_max_iff_disj)
  then obtain r where "brp_loop (\<lambda>brp. CandidateFor c brp bitrate) (btc_brpMax c) ?step (btc_brpMin c) None = Some r"
    using brp_loop_best [of ?step "btc_brpMax c"] assms step by metis
  then show ?thesis by (simp add: ComputeBitTiming_def Let_def)
qed

text \<open>The devices report limits of the prescaler that do not wrap around.\<close>

definition prescalers_end :: "'k win_usb \<Rightarrow> bool" where
  "prescalers_end K \<longleftrightarrow> (\<forall>u packet k bs k' c. wu_ControlIn K u packet k = (Some bs, k') \<longrightarrow>
     DecodeBitTimingConstants bs = Some c \<longrightarrow> unat (btc_brpMax c) + max (unat (btc_brpIncrement c)) 1 < 2 ^ 32)"

lemma ControlIn_answer:
  assumes "ControlIn request v len s = (Some bs, s')"
  shows "\<exists>u packet k k'. wu_ControlIn (gsa_system s) u packet k = (Some bs, k')"
  using assms by (auto simp: ControlIn_def sys_def split: prod.splits option.splits if_splits)

lemma mild_system: "mild s s' \<Longrightarrow> gsa_system s' = gsa_system s"
  by (simp add: mild_def)

lemma ConfigureG_returns:
  assumes "prescalers_end (gsa_system s)"
  shows "ConfigureG bitrate s \<noteq> None"
proof -
  obtain b1 s1 where o1: "ControlOut requestHostFormat 1 EncodeHostFormat s = (b1, s1)" by force
  obtain cs s2 where i: "ControlIn requestBitTimingConstants gsChannel bitTimingConstantsSize s1 = (cs, s2)" by force
  have "\<exists>r. ComputeBitTiming c bitrate = Some r" if "cs = Some bs" "DecodeBitTimingConstants bs = Some c" for bs c
    using ControlIn_answer [of _ _ _ s1 bs s2] i that assms mild_system [OF ControlOut_mild [OF o1]]
    unfolding prescalers_end_def by (metis ComputeBitTiming_returns)
  then show ?thesis
    using o1 i by (fastforce simp: ConfigureG_def Let_def split: option.splits bool.splits prod.splits)
qed

lemma OpenG_returns:
  assumes "prescalers_end (gsa_system s)"
  shows "OpenG path bitrate s \<noteq> None"
proof -
  obtain b1 s1 where o: "OpenDevice path s = (b1, s1)" by force
  obtain b2 s2 where f: "FindPipes s1 = (b2, s2)" by force
  have "gsa_system s1 = gsa_system s"
    using o by (auto simp: OpenDevice_def sys_def Let_def split: option.splits prod.splits)
  then have "ConfigureG bitrate s2 \<noteq> None"
    using ConfigureG_returns [of s2] assms mild_system [OF FindPipes_mild [OF f]] by simp
  then show ?thesis using o f by (auto simp: OpenG_def split: bool.splits option.splits prod.splits)
qed

lemma visit_devices_returns:
  assumes "\<And>i path x s. gsa_system s = K \<Longrightarrow> visit i path x s \<noteq> None"
    and "\<And>i path x s x' s'. visit i path x s = Some (True, x', s') \<Longrightarrow> gsa_system s' = gsa_system s"
  shows "gsa_system s = K \<Longrightarrow> visit_devices devices indices visit x s \<noteq> None"
proof (induction indices arbitrary: x s)
  case (Cons index indices)
  obtain d s1 where e: "sys (\<lambda>K. wu_EnumDeviceInterfaces K devices index) s = (d, s1)" by force
  obtain p s2 where g: "sys (\<lambda>K. wu_GetDeviceInterfaceDetail K devices (the d)) s1 = (p, s2)" by force
  have s2: "gsa_system s2 = K" using e g Cons.prems by (auto elim!: sys_result)
  show ?case
  proof (cases "d = None \<or> p = None")
    case True
    then show ?thesis using e g Cons.IH [OF s2, of x] by (cases d) auto
  next
    case False
    then obtain interface path where dp: "d = Some interface" "p = Some path" by (cases d; cases p) auto
    obtain again x' s' where v: "visit index path x s2 = Some (again, x', s')" using assms(1) [OF s2] by (metis not_None_eq prod_cases3)
    show ?thesis
    proof (cases again)
      case True
      then have "gsa_system s' = K" using assms(2) [of index path x s2 x' s'] v s2 by simp
      then show ?thesis using Cons.IH [of s' x'] e g dp v True by simp
    qed (use e g dp v in simp)
  qed
qed simp

lemma ConnectG_returns:
  fixes s :: "('a, 'k) gs_usb"
  assumes "prescalers_end (gsa_system s)"
  shows "ConnectG name bitrate s \<noteq> None"
proof -
  let ?s = "if IsConnectedG s then DisconnectG s else s"
  have "gsa_system (DisconnectG s) = gsa_system s"
  proof -
    obtain ok s1 where o: "ControlOut requestMode gsChannel (EncodeMode modeReset) s = (ok, s1)" by force
    have "gsa_system (CloseG s1) = gsa_system s1"
      by (simp add: CloseG_form)
    then show ?thesis using o mild_system [OF ControlOut_mild [OF o]] by (simp add: DisconnectG_def)
  qed
  then have same: "gsa_system ?s = gsa_system s" by simp
  have "visit_devices d [0..<maxDevices] (open_numbered n bitrate) False s1 \<noteq> None"
    if "gsa_system s1 = gsa_system s" for n d and s1 :: "('a, 'k) gs_usb"
  proof (rule visit_devices_returns [OF _ _ that])
    show "open_numbered n bitrate i path x t \<noteq> None" if "gsa_system t = gsa_system s" for i path x and t :: "('a, 'k) gs_usb"
      using OpenG_returns [of t path bitrate] assms that
      by (auto simp: open_numbered_def split: option.split)
    show "gsa_system t' = gsa_system t" if "open_numbered n bitrate i path x t = Some (True, x', t')"
      for i path x t x' and t' :: "('a, 'k) gs_usb"
      using that by (auto simp: open_numbered_def split: option.splits if_splits)
  qed
  note visited = this
  have "ForEachDevicePath (open_numbered n bitrate) False t \<noteq> None" if t: "gsa_system t = gsa_system s"
    for n and t :: "('a, 'k) gs_usb"
  proof -
    obtain r k where k: "wu_GetClassDevs (gsa_system t) (gsa_state t) = (r, k)" by force
    have v: "visit_devices d [0..<maxDevices] (open_numbered n bitrate) False (t\<lparr>gsa_state := k\<rparr>) \<noteq> None" for d
      by (rule visited) (simp add: t)
    show ?thesis
    proof (cases r)
      case None
      then show ?thesis using k by (simp add: ForEachDevicePath_def sys_def)
    next
      case (Some d)
      then show ?thesis using k v [of d] by (auto simp: ForEachDevicePath_def sys_def)
    qed
  qed
  note found = this [OF same]
  show ?thesis
  proof (cases "ParseChannelNumber name")
    case None
    then show ?thesis by (simp add: ConnectG_def Let_def)
  next
    case (Some number)
    obtain r where "ForEachDevicePath (open_numbered (unat number) bitrate) False ?s = Some r"
      using found [of "unat number"] by blast
    then show ?thesis using Some by (simp add: ConnectG_def Let_def split: prod.split)
  qed
qed

section \<open>Properties\<close>

text \<open>C35: What a user of the adapter for gs\_usb devices sees, whatever the devices answer.  The
  connections it reports alternate with their losses and agree with \<^verbatim>\<open>IsConnected\<close>, and frames are
  reported only while it is connected; every send is completed exactly once, with success exactly when
  the frame was transmitted; and at any time the adapter holds what its connection needs and nothing
  else: without a connection, and after its destructor, every handle is closed, the list of devices is
  freed and no read into its buffer is in flight, and a read is in flight only under a connection.\<close>

theorem gs_usb_consistent:
  fixes es :: "'a host_event list"
  assumes "usb_tracked K held" and "usb_silent K held" and "Reading \<notin> held k"
    and "admissible (host_enabled gs_usb_operations) (host_step gs_usb_operations) es (GsUsbAdapter K k)"
  shows "case run_io (host_step gs_usb_operations) es (GsUsbAdapter K k) of
    (s, out) \<Rightarrow>
      seen (ho_log s) = Some (IsConnectedG s) \<and>
      results_in out + host_awaited s =
        total_over (host_brought gs_usb_operations) (host_step gs_usb_operations) es (GsUsbAdapter K k) \<and>
      size (host_awaited s) \<le> 1 \<and>
      held (gsa_state s) - {Reading} = held k \<union> holds s \<and>
      (if IsConnectedG s then gsa_usb s \<noteq> 0 else held (gsa_state s) = held k) \<and>
      held (gsa_state (DisconnectG s)) = held k"
proof -
  let ?ops = "gs_usb_operations :: ('a, ('a, 'b) gs_usb) host_operations"
  let ?s0 = "GsUsbAdapter K k :: ('a, 'b) gs_usb"
  obtain s out where run: "run_io (host_step ?ops) es ?s0 = (s, out)" by force
  have "host_idle ?ops ?s0" by (simp add: host_idle_def GsUsbAdapter_def IsConnectedG_def)
  note seen = gs_usb.observers_consistent [OF this assms(4) run]
  have "usb_balanced held (held k) ?s0"
    using assms(1-3) by (simp add: usb_balanced_def accounted_def all_closed_def holds_def GsUsbAdapter_def)
  from gs_usb_resources.resources.run_inv [OF this assms(4)]
  have balanced: "usb_balanced held (held k) s" by (simp add: run)
  note usb_balanced_closed [OF DisconnectG_result(4) [OF balanced] DisconnectG_result(1)]
  moreover have "held (gsa_state s) - {Reading} = held k \<union> holds s" "IsConnectedG s \<Longrightarrow> gsa_usb s \<noteq> 0"
    using balanced by (simp_all add: usb_balanced_def accounted_def IsConnectedG_def)
  ultimately show ?thesis using seen usb_balanced_closed [OF balanced] by (simp add: run)
qed

text \<open>A host with one device, whose state is what is open.\<close>

definition sample_usb :: "usb_resource set win_usb" where
  "sample_usb =
     \<lparr>wu_GetClassDevs = \<lambda>k. if DeviceList 1 \<in> k then (None, k) else (Some 1, insert (DeviceList 1) k),
      wu_EnumDeviceInterfaces = \<lambda>_ i k. (if i = 0 then Some 0 else None, k),
      wu_GetDeviceInterfaceDetail = \<lambda>_ _ k. (Some ''candle'', k),
      wu_DestroyDeviceInfoList = \<lambda>d k. k - {DeviceList d},
      wu_CreateFile = \<lambda>_ k. if Handle 1 \<in> k then (None, k) else (Some 1, insert (Handle 1) k),
      wu_Initialize = \<lambda>_ k. if Interface 1 \<in> k then (0, k) else (1, insert (Interface 1) k),
      wu_QueryInterfaceSettings = \<lambda>_ k. (Some 2, k),
      wu_QueryPipe = \<lambda>_ i k. (Some (True, if i = 0 then 0x81 else 0x02), k),
      wu_SetPipePolicy = \<lambda>_ _ k. k, wu_ControlOut = \<lambda>_ _ _ k. (True, k),
      wu_ControlIn = \<lambda>_ _ k. (Some sample_descriptor, k),
      wu_CreateEvent = \<lambda>k. if Handle 2 \<notin> k then (2, insert (Handle 2) k)
        else if Handle 3 \<notin> k then (3, insert (Handle 3) k) else (0, k),
      wu_ResetEvent = \<lambda>_ k. k, wu_ReadPipe = \<lambda>_ _ _ k. (True, insert Reading k),
      wu_WritePipe = \<lambda>_ _ _ _ k. (True, k),
      wu_GetReadResult = \<lambda>_ wait k. if wait then (Some [], k - {Reading}) else (None, k),
      wu_GetWriteResult = \<lambda>_ _ k. (Some frameSize, k), wu_GetLastError = \<lambda>_. errorIoIncomplete,
      wu_AbortPipe = \<lambda>_ _ k. k, wu_Free = \<lambda>u k. k - {Interface u}, wu_CloseHandle = \<lambda>h k. k - {Handle h}\<rparr>"

lemma sample_usb_tracked: "usb_tracked sample_usb (\<lambda>k. k)" and sample_usb_silent: "usb_silent sample_usb (\<lambda>k. k)"
  by (simp_all add: usb_tracked_def usb_silent_def sample_usb_def)

lemma sample_usb_prescalers: "prescalers_end sample_usb"
  using sample_decodes by (simp add: prescalers_end_def sample_usb_def sample_constants_def)

theorem gs_usb_consistent_witness:
  "\<exists>s out. run_io (host_step gs_usb_operations)
      [HostReceiveData, HostSend (Id29 5) [1] (7 :: nat), HostRunScheduled, HostConnect ''1'' 500000, HostReadEvent]
      (GsUsbAdapter sample_usb {}) = (s, out) \<and>
    seen (ho_log s) = Some (IsConnectedG s) \<and> gsa_state (DisconnectG s) = {}"
proof -
  let ?es = "[HostReceiveData, HostSend (Id29 5) [1] (7 :: nat), HostRunScheduled, HostConnect ''1'' 500000, HostReadEvent]"
  let ?s0 = "GsUsbAdapter sample_usb {} :: (nat, usb_resource set) gs_usb"
  let ?later = "RunScheduledH (ScheduleCompletionH 7 False (ReceiveDataH ?s0))"
  have sent: "SendDataG (Id29 5) [1] 7 (ReceiveDataH ?s0) = ScheduleCompletionH 7 False (ReceiveDataH ?s0)"
    by (simp add: SendDataG_def IsConnectedG_def ReceiveDataH_def GsUsbAdapter_def)
  have "gsa_system ?later = sample_usb"
    by (simp add: RunScheduledH_def ScheduleCompletionH_def ReceiveDataH_def GsUsbAdapter_def ho_emit_def)
  then have "ConnectG ''1'' 500000 ?later \<noteq> None" using ConnectG_returns [of ?later] sample_usb_prescalers by simp
  then have "admissible (host_enabled gs_usb_operations) (host_step gs_usb_operations) ?es ?s0"
    by (simp add: host_enabled_def host_step_def Let_def sent)
      (simp add: ReceiveDataH_def ScheduleCompletionH_def GsUsbAdapter_def)
  from gs_usb_consistent [OF sample_usb_tracked sample_usb_silent _ this] show ?thesis
    by (cases "run_io (host_step gs_usb_operations) ?es ?s0") (auto split: prod.splits)
qed

text \<open>C36: When \<^verbatim>\<open>Connect\<close> returns.  With devices whose prescaler limits do not wrap around it returns,
  in any state, for any name and bitrate, connected exactly when it says so, and a run of events is
  never held up by it.  A device that reports the largest 32-bit number as its last prescaler, and
  accepts the host format, stops it for good: the configuration does not return.\<close>

theorem gs_usb_connect_returns:
  fixes s :: "('a, 'k) gs_usb"
  shows "(prescalers_end (gsa_system s) \<longrightarrow>
      (\<exists>ok s'. ConnectG name bitrate s = Some (ok, s') \<and> IsConnectedG s' = ok) \<and>
      host_enabled gs_usb_operations (HostConnect name bitrate) s) \<and>
    (\<forall>s1 s2 bs c. ControlOut requestHostFormat 1 EncodeHostFormat s = (True, s1) \<longrightarrow>
      ControlIn requestBitTimingConstants gsChannel bitTimingConstantsSize s1 = (Some bs, s2) \<longrightarrow>
      DecodeBitTimingConstants bs = Some c \<longrightarrow> btc_brpMax c = 0xffffffff \<longrightarrow> ConfigureG bitrate s = None)"
proof (intro conjI impI allI)
  assume "prescalers_end (gsa_system s)"
  then obtain ok s' where c: "ConnectG name bitrate s = Some (ok, s')" using ConnectG_returns [of s name bitrate] by force
  then show "\<exists>ok s'. ConnectG name bitrate s = Some (ok, s') \<and> IsConnectedG s' = ok" using ConnectG_result(1) by blast
  show "host_enabled gs_usb_operations (HostConnect name bitrate) s" using c by (simp add: host_enabled_def)
next
  fix s1 s2 bs c
  assume "ControlOut requestHostFormat 1 EncodeHostFormat s = (True, s1)"
    and "ControlIn requestBitTimingConstants gsChannel bitTimingConstantsSize s1 = (Some bs, s2)"
    and c: "DecodeBitTimingConstants bs = Some c" "btc_brpMax c = 0xffffffff"
  then show "ConfigureG bitrate s = None"
    using search_never_returns [OF c, of bitrate] by (simp add: ConfigureG_def)
qed

theorem gs_usb_connect_returns_witness:
  "(\<exists>ok s'. ConnectG ''1'' 500000 (GsUsbAdapter sample_usb {} :: (nat, usb_resource set) gs_usb) = Some (ok, s')) \<and>
   (let K = sample_usb\<lparr>wu_ControlIn := \<lambda>_ _ k. (Some endless_descriptor, k)\<rparr> in
     ConfigureG 500000 (GsUsbAdapter K {} :: (nat, usb_resource set) gs_usb) = None)"
proof
  let ?s = "GsUsbAdapter sample_usb {} :: (nat, usb_resource set) gs_usb"
  have "prescalers_end (gsa_system ?s)" using sample_usb_prescalers by (simp add: GsUsbAdapter_def)
  then show "\<exists>ok s'. ConnectG ''1'' 500000 ?s = Some (ok, s')"
    using gs_usb_connect_returns [of ?s "''1''" 500000] by blast
  let ?K = "sample_usb\<lparr>wu_ControlIn := \<lambda>_ _ k. (Some endless_descriptor, k)\<rparr>"
  let ?t = "GsUsbAdapter ?K {} :: (nat, usb_resource set) gs_usb"
  have "ControlOut requestHostFormat 1 EncodeHostFormat ?t = (True, ?t)"
    by (simp add: ControlOut_def sys_def GsUsbAdapter_def sample_usb_def)
  moreover have "length endless_descriptor = bitTimingConstantsSize" by code_simp
  then have "ControlIn requestBitTimingConstants gsChannel bitTimingConstantsSize ?t = (Some endless_descriptor, ?t)"
    by (simp add: ControlIn_def sys_def GsUsbAdapter_def sample_usb_def)
  ultimately have "ConfigureG 500000 ?t = None"
    using gs_usb_connect_returns [of ?t "''1''" 500000] endless_decodes by simp
  then show "let K = ?K in ConfigureG 500000 (GsUsbAdapter K {} :: (nat, usb_resource set) gs_usb) = None" by simp
qed

end
