(* ===== verification/SerialPorts.thy ===== *)
theory SerialPorts
  imports HostAdapter
begin

text \<open>
  The serial ports of a host, as the serial adapter uses them:
  \<^verbatim>\<open>can-lite/drivers/implementation/PosixSerialPort.cpp\<close> and
  \<^verbatim>\<open>can-lite/drivers/implementation/WindowsSerialPort.cpp\<close>.

  The operating systems are parameters: records of their calls on a state \<open>'k\<close>.  The settings of a
  terminal are a type \<open>'t\<close> of the C library with the functions on it.  The loops that repeat an
  interrupted call may run forever: \<open>None\<close>.  Of a buffer of characters, a C function sees those before
  the first null character.
\<close>

definition c_string :: "string \<Rightarrow> string" where
  "c_string buffer = takeWhile (\<lambda>c. of_char c \<noteq> (0 :: nat)) buffer"

section \<open>Linux\<close>

record ('t, 'k) posix_kernel =
  pk_open :: "string \<Rightarrow> 'k \<Rightarrow> int \<times> 'k"
  pk_flock :: "int \<Rightarrow> 'k \<Rightarrow> int \<times> 'k"
  pk_close :: "int \<Rightarrow> 'k \<Rightarrow> 'k"
  pk_write :: "int \<Rightarrow> bytes \<Rightarrow> 'k \<Rightarrow> int \<times> 'k"
  pk_read :: "int \<Rightarrow> nat \<Rightarrow> 'k \<Rightarrow> int \<times> bytes \<times> 'k"
  pk_poll :: "int \<Rightarrow> 'k \<Rightarrow> int \<times> bool \<times> 'k"
  pk_errno :: "'k \<Rightarrow> int"
  pk_access :: "string \<Rightarrow> 'k \<Rightarrow> bool"
  pk_tcgetattr :: "int \<Rightarrow> 'k \<Rightarrow> 't option \<times> 'k"
  pk_tcsetattr :: "int \<Rightarrow> 't \<Rightarrow> 'k \<Rightarrow> 'k"
  pk_tcflush :: "int \<Rightarrow> 'k \<Rightarrow> 'k"
  pk_cfmakeraw :: "'t \<Rightarrow> 't"
  pk_cfsetispeed :: "u32 \<Rightarrow> 't \<Rightarrow> 't"
  pk_cfsetospeed :: "u32 \<Rightarrow> 't \<Rightarrow> 't"
  pk_addControlFlags :: "u32 \<Rightarrow> 't \<Rightarrow> 't"

record ('t, 'k) posix_port =
  pp_kernel :: "('t, 'k) posix_kernel"
  pp_state :: 'k
  pp_descriptor :: int

definition enoent :: int where "enoent = 2"
definition eintr :: int where "eintr = 4"
definition enxio :: int where "enxio = 6"
definition ebusy :: int where "ebusy = 16"
definition enodev :: int where "enodev = 19"
definition b115200 :: u32 where "b115200 = 0x1002"
definition clocal :: u32 where "clocal = 0x800"
definition cread :: u32 where "cread = 0x80"
definition posixMaxPathLength :: nat where "posixMaxPathLength = 256"
definition maxPortIndex :: nat where "maxPortIndex = 32"
definition portPrefixes :: "string list" where "portPrefixes = [''/dev/ttyACM'', ''/dev/ttyUSB'']"

definition PosixSerialPort :: "('t, 'k) posix_kernel \<Rightarrow> 'k \<Rightarrow> ('t, 'k) posix_port" where
  "PosixSerialPort K k = \<lparr>pp_kernel = K, pp_state = k, pp_descriptor = - 1\<rparr>"

definition PosixResultFor :: "int \<Rightarrow> SerialPortOpenResult" where
  "PosixResultFor error =
     (if error \<in> {enoent, enodev, enxio} then notFound
      else if error \<in> {eacces, eperm} then accessDenied
      else if error \<in> {ebusy, eagain} then inUse
      else openFailed)"

definition WaitWritable :: "('t, 'k) posix_kernel \<Rightarrow> int \<Rightarrow> 'k \<Rightarrow> bool \<times> 'k" where
  "WaitWritable K descriptor k = (case pk_poll K descriptor k of (n, writable, k) \<Rightarrow> (n > 0 \<and> writable, k))"

definition IsWouldBlock :: "int \<Rightarrow> bool" where
  "IsWouldBlock error \<longleftrightarrow> error = eagain"

definition ConfigureRaw :: "('t, 'k) posix_kernel \<Rightarrow> int \<Rightarrow> 'k \<Rightarrow> 'k" where
  "ConfigureRaw K descriptor k =
     (case pk_tcgetattr K descriptor k of
        (None, k) \<Rightarrow> k
      | (Some settings, k) \<Rightarrow>
          let settings = pk_cfsetospeed K b115200 (pk_cfsetispeed K b115200 (pk_cfmakeraw K settings));
            settings = pk_addControlFlags K (clocal OR cread) settings
          in pk_tcflush K descriptor (pk_tcsetattr K descriptor settings k))"

definition PosixClose :: "('t, 'k) posix_port \<Rightarrow> ('t, 'k) posix_port" where
  "PosixClose p =
     p\<lparr>pp_state := (if pp_descriptor p \<ge> 0 then pk_close (pp_kernel p) (pp_descriptor p) (pp_state p) else pp_state p),
       pp_descriptor := - 1\<rparr>"

definition PosixIsOpen :: "('t, 'k) posix_port \<Rightarrow> bool" where
  "PosixIsOpen p \<longleftrightarrow> pp_descriptor p \<ge> 0"

definition PosixOpen :: "string \<Rightarrow> ('t, 'k) posix_port \<Rightarrow> SerialPortOpenResult \<times> ('t, 'k) posix_port" where
  "PosixOpen path p0 =
     (let p = PosixClose p0; K = pp_kernel p in
      if path = [] \<or> length path \<ge> posixMaxPathLength then (notFound, p)
      else case pk_open K (c_string path) (pp_state p) of
          (descriptor, k) \<Rightarrow>
            let p = p\<lparr>pp_descriptor := descriptor, pp_state := k\<rparr> in
            if descriptor < 0 then (PosixResultFor (pk_errno K k), p)
            else case pk_flock K descriptor k of
                (locked, k) \<Rightarrow>
                  if locked \<noteq> 0 then (PosixResultFor (pk_errno K k), PosixClose (p\<lparr>pp_state := k\<rparr>))
                  else (opened, p\<lparr>pp_state := ConfigureRaw K descriptor k\<rparr>))"

partial_function (option) posix_write_from ::
    "bytes \<Rightarrow> nat \<Rightarrow> ('t, 'k) posix_port \<Rightarrow> (bool \<times> ('t, 'k) posix_port) option" where
  "posix_write_from data offset p =
     (if pp_descriptor p \<ge> 0 \<and> offset < length data
      then case pk_write (pp_kernel p) (pp_descriptor p) (drop offset data) (pp_state p) of
          (written, k) \<Rightarrow>
            let p = p\<lparr>pp_state := k\<rparr>; errno = pk_errno (pp_kernel p) k in
            if written > 0 then posix_write_from data (offset + nat written) p
            else if written < 0 \<and> IsWouldBlock errno \<and> offset > 0
            then case WaitWritable (pp_kernel p) (pp_descriptor p) k of
                (writable, k) \<Rightarrow>
                  let p = p\<lparr>pp_state := k\<rparr> in
                  if \<not> writable then Some (False, p) else posix_write_from data offset p
            else if written = 0 \<or> errno \<noteq> eintr then Some (False, p)
            else posix_write_from data offset p
      else Some (pp_descriptor p \<ge> 0, p))"

definition PosixWrite :: "bytes \<Rightarrow> ('t, 'k) posix_port \<Rightarrow> (bool \<times> ('t, 'k) posix_port) option" where
  "PosixWrite data p = posix_write_from data 0 p"

partial_function (option) PosixRead ::
    "nat \<Rightarrow> ('t, 'k) posix_port \<Rightarrow> (bytes option \<times> ('t, 'k) posix_port) option" where
  "PosixRead len p =
     (if pp_descriptor p \<ge> 0
      then case pk_read (pp_kernel p) (pp_descriptor p) len (pp_state p) of
          (received, buffer, k) \<Rightarrow>
            let p = p\<lparr>pp_state := k\<rparr>; errno = pk_errno (pp_kernel p) k in
            if received > 0 then Some (Some (take (nat received) buffer), p)
            else if received < 0 \<and> errno = eintr then PosixRead len p
            else if received < 0 \<and> errno = eagain then Some (Some [], p)
            else Some (None, p)
      else Some (None, p))"

definition PosixHandle :: "('t, 'k) posix_port \<Rightarrow> int" where
  "PosixHandle p = pp_descriptor p"

definition PosixEnumeratePorts :: "('t, 'k) posix_port \<Rightarrow> string list" where
  "PosixEnumeratePorts p =
     filter (\<lambda>path. pk_access (pp_kernel p) path (pp_state p))
       (concat (map (\<lambda>prefix. map (\<lambda>index. prefix @ decimal index) [0..<maxPortIndex]) portPrefixes))"

text \<open>The port as the serial adapter uses it, for calls that return.\<close>

definition posix_serial :: "('t, 'k) posix_port serial_port" where
  "posix_serial =
     \<lparr>sp_Open = PosixOpen, sp_Close = PosixClose,
      sp_Write = \<lambda>data p. (case PosixWrite data p of None \<Rightarrow> (False, p) | Some r \<Rightarrow> r),
      sp_Read = \<lambda>len p. (case PosixRead len p of None \<Rightarrow> (None, p) | Some r \<Rightarrow> r)\<rparr>"

section \<open>Windows\<close>

record dcb =
  dcb_BaudRate :: u32
  dcb_ByteSize :: u8
  dcb_Parity :: u8
  dcb_StopBits :: u8
  dcb_fDtrControl :: u32
  dcb_fRtsControl :: u32
  dcb_others :: bytes

record 'k windows_ports =
  wp_CreateFile :: "string \<Rightarrow> 'k \<Rightarrow> nat option \<times> 'k"
  wp_GetLastError :: "'k \<Rightarrow> u32"
  wp_CloseHandle :: "nat \<Rightarrow> 'k \<Rightarrow> 'k"
  wp_GetCommState :: "nat \<Rightarrow> dcb \<Rightarrow> 'k \<Rightarrow> dcb \<times> 'k"
  wp_SetCommState :: "nat \<Rightarrow> dcb \<Rightarrow> 'k \<Rightarrow> 'k"
  wp_SetCommTimeouts :: "nat \<Rightarrow> u32 \<Rightarrow> u32 \<Rightarrow> 'k \<Rightarrow> 'k"
  wp_PurgeComm :: "nat \<Rightarrow> 'k \<Rightarrow> 'k"
  wp_WriteFile :: "nat \<Rightarrow> bytes \<Rightarrow> 'k \<Rightarrow> nat option \<times> 'k"
  wp_ReadFile :: "nat \<Rightarrow> nat \<Rightarrow> 'k \<Rightarrow> bytes option \<times> 'k"
  wp_RegOpenKey :: "'k \<Rightarrow> nat option \<times> 'k"
  wp_RegEnumValue :: "nat \<Rightarrow> nat \<Rightarrow> 'k \<Rightarrow> (u32 \<times> string) option \<times> 'k"
  wp_RegCloseKey :: "nat \<Rightarrow> 'k \<Rightarrow> 'k"

record 'k windows_port =
  wsp_system :: "'k windows_ports"
  wsp_state :: 'k
  wsp_handle :: "nat option"

definition errorFileNotFound :: u32 where "errorFileNotFound = 2"
definition errorPathNotFound :: u32 where "errorPathNotFound = 3"
definition errorAccessDenied :: u32 where "errorAccessDenied = 5"
definition errorSharingViolation :: u32 where "errorSharingViolation = 32"
definition regSz :: u32 where "regSz = 1"
definition windowsMaxPathLength :: nat where "windowsMaxPathLength = 64"
definition writeTimeoutMs :: u32 where "writeTimeoutMs = 50"
definition maxRegistryValues :: nat where "maxRegistryValues = 256"
definition devicePrefix :: string where "devicePrefix = [CHR 0x5C, CHR 0x5C, CHR ''.'', CHR 0x5C]"

definition WindowsSerialPort :: "'k windows_ports \<Rightarrow> 'k \<Rightarrow> 'k windows_port" where
  "WindowsSerialPort K k = \<lparr>wsp_system = K, wsp_state = k, wsp_handle = None\<rparr>"

definition WindowsResultFor :: "u32 \<Rightarrow> SerialPortOpenResult" where
  "WindowsResultFor error =
     (if error \<in> {errorFileNotFound, errorPathNotFound} then notFound
      else if error \<in> {errorAccessDenied, errorSharingViolation} then inUse
      else openFailed)"

definition ConfigureW :: "'k windows_ports \<Rightarrow> nat \<Rightarrow> 'k \<Rightarrow> 'k" where
  "ConfigureW K handle k =
     (case wp_GetCommState K handle \<lparr>dcb_BaudRate = 0, dcb_ByteSize = 0, dcb_Parity = 0, dcb_StopBits = 0,
          dcb_fDtrControl = 0, dcb_fRtsControl = 0, dcb_others = []\<rparr> k of
        (settings, k) \<Rightarrow>
          let settings = settings\<lparr>dcb_BaudRate := 115200, dcb_ByteSize := 8, dcb_Parity := 0, dcb_StopBits := 0,
            dcb_fDtrControl := 1, dcb_fRtsControl := 0\<rparr>
          in wp_PurgeComm K handle
               (wp_SetCommTimeouts K handle 0xffffffff writeTimeoutMs (wp_SetCommState K handle settings k)))"

definition WindowsClose :: "'k windows_port \<Rightarrow> 'k windows_port" where
  "WindowsClose p =
     p\<lparr>wsp_state := (case wsp_handle p of None \<Rightarrow> wsp_state p | Some h \<Rightarrow> wp_CloseHandle (wsp_system p) h (wsp_state p)),
       wsp_handle := None\<rparr>"

definition WindowsIsOpen :: "'k windows_port \<Rightarrow> bool" where
  "WindowsIsOpen p \<longleftrightarrow> wsp_handle p \<noteq> None"

definition WindowsOpen :: "string \<Rightarrow> 'k windows_port \<Rightarrow> SerialPortOpenResult \<times> 'k windows_port" where
  "WindowsOpen path p0 =
     (let p = WindowsClose p0; K = wsp_system p in
      if path = [] \<or> length devicePrefix + length path \<ge> windowsMaxPathLength then (notFound, p)
      else case wp_CreateFile K (c_string (devicePrefix @ path)) (wsp_state p) of
          (handle, k) \<Rightarrow>
            let p = p\<lparr>wsp_handle := handle, wsp_state := k\<rparr> in
            case handle of
              None \<Rightarrow> (WindowsResultFor (wp_GetLastError K k), p)
            | Some h \<Rightarrow> (opened, p\<lparr>wsp_state := ConfigureW K h k\<rparr>))"

definition WindowsWrite :: "bytes \<Rightarrow> 'k windows_port \<Rightarrow> bool \<times> 'k windows_port" where
  "WindowsWrite data p =
     (case wsp_handle p of
        None \<Rightarrow> (False, p)
      | Some h \<Rightarrow>
          (case wp_WriteFile (wsp_system p) h data (wsp_state p) of
             (written, k) \<Rightarrow> (written = Some (length data), p\<lparr>wsp_state := k\<rparr>)))"

definition WindowsRead :: "nat \<Rightarrow> 'k windows_port \<Rightarrow> bytes option \<times> 'k windows_port" where
  "WindowsRead len p =
     (case wsp_handle p of
        None \<Rightarrow> (None, p)
      | Some h \<Rightarrow>
          (case wp_ReadFile (wsp_system p) h len (wsp_state p) of
             (received, k) \<Rightarrow> (received, p\<lparr>wsp_state := k\<rparr>)))"

definition WindowsHandle :: "'k windows_port \<Rightarrow> int" where
  "WindowsHandle p = - 1"

fun registry_values :: "'k windows_ports \<Rightarrow> nat \<Rightarrow> nat list \<Rightarrow> 'k \<Rightarrow> string list \<times> 'k" where
  "registry_values K key [] k = ([], k)"
| "registry_values K key (index # indices) k =
     (case wp_RegEnumValue K key index k of
        (None, k) \<Rightarrow> ([], k)
      | (Some (type, port), k) \<Rightarrow>
          (case registry_values K key indices k of
             (ports, k) \<Rightarrow> (if type = regSz then c_string port # ports else ports, k)))"

definition WindowsEnumeratePorts :: "'k windows_port \<Rightarrow> string list \<times> 'k" where
  "WindowsEnumeratePorts p =
     (let K = wsp_system p in
      case wp_RegOpenKey K (wsp_state p) of
        (None, k) \<Rightarrow> ([], k)
      | (Some key, k) \<Rightarrow>
          (case registry_values K key [0..<maxRegistryValues] k of
             (ports, k) \<Rightarrow> (ports, wp_RegCloseKey K key k)))"

definition windows_serial :: "'k windows_port serial_port" where
  "windows_serial =
     \<lparr>sp_Open = WindowsOpen, sp_Close = WindowsClose, sp_Write = WindowsWrite, sp_Read = WindowsRead\<rparr>"

end
