(* ===== verification/SerialLaws.thy ===== *)
theory SerialLaws
  imports SerialPorts HostLaws
begin

text \<open>
  What the serial ports guarantee: a write that succeeds has handed every byte to the system, once and in
  order, and returns when the system does not interrupt it forever; and a serial adapter over a port
  gives the port back whenever its link is closed.  \<open>serial_contract\<close> is what the adapter relies on; both
  ports keep it.
\<close>

section \<open>The contract of a port\<close>

locale serial_contract =
  fixes port :: "'p serial_port" and sound :: "'p \<Rightarrow> bool" and on :: "'p \<Rightarrow> bool"
  assumes open_port: "sound p \<Longrightarrow> sp_Open port name p = (r, p') \<Longrightarrow> sound p' \<and> (on p' \<longrightarrow> r = opened)"
    and close_port: "sound p \<Longrightarrow> sound (sp_Close port p) \<and> \<not> on (sp_Close port p)"
    and write_port: "sound p \<Longrightarrow> sp_Write port data p = (ok, p') \<Longrightarrow> sound p' \<and> (on p' = on p)"
    and read_port: "sound p \<Longrightarrow> sp_Read port n p = (answer, p') \<Longrightarrow> sound p' \<and> (on p' = on p)"

context serial_contract begin

text \<open>The adapter holds its port only while its link is not closed.\<close>

definition holding :: "('p, 'a) slcan_adapter \<Rightarrow> bool" where
  "holding s \<longleftrightarrow> sla_port s = port \<and> sound (sla_portState s) \<and> (on (sla_portState s) \<longrightarrow> sla_state s \<noteq> linkClosed)"

lemma holding_updates [simp]:
  "holding (s\<lparr>sla_decoder := d\<rparr>) = holding s" "holding (s\<lparr>sla_repliesReceived := n\<rparr>) = holding s"
  "holding (s\<lparr>sla_handshakeTimer := t\<rparr>) = holding s" "holding (s\<lparr>sla_receiving := b\<rparr>) = holding s"
  "holding (s\<lparr>sla_scheduled := k\<rparr>) = holding s" "holding (s\<lparr>sla_pendingCompletion := a\<rparr>) = holding s"
  "holding (s\<lparr>sla_pendingSuccess := b\<rparr>) = holding s" "holding (s\<lparr>sla_now := n'\<rparr>) = holding s"
  "holding (sla_emit out s) = holding s" "holding (ReportErrorS m s) = holding s"
  by (simp_all add: holding_def sla_emit_def ReportErrorS_def)

lemma holding_opening: "holding s \<Longrightarrow> st \<noteq> linkClosed \<Longrightarrow> holding (s\<lparr>sla_state := st\<rparr>)"
  by (simp add: holding_def)

lemma PortWrite_holding:
  assumes "PortWrite data s = (ok, s')" and "sla_port s = port" and "sound (sla_portState s)"
  shows "sla_port s' = port \<and> sound (sla_portState s') \<and> (on (sla_portState s') = on (sla_portState s)) \<and>
    sla_state s' = sla_state s"
proof -
  obtain p where "sp_Write port data (sla_portState s) = (ok, p)" "s' = s\<lparr>sla_portState := p\<rparr>"
    using assms(1,2) by (auto simp: PortWrite_def split: prod.splits)
  then show ?thesis using write_port [OF assms(3)] assms(2) by simp
qed

lemma CloseS_holding:
  assumes "sla_port s = port" and "sound (sla_portState s)"
  shows "holding (CloseS e s)" and "\<not> on (sla_portState (CloseS e s))"
proof -
  note closed = close_port [OF assms(2)]
  have "sla_portState (CloseS e s) = sp_Close port (sla_portState s)" "sla_port (CloseS e s) = port"
    using assms(1) by (cases e; simp add: CloseS_def PortClose_def ReportErrorS_def sla_emit_def Let_def)+
  then show "holding (CloseS e s)" and "\<not> on (sla_portState (CloseS e s))" using closed by (simp_all add: holding_def)
qed

lemma DisconnectS_holding:
  assumes "holding s"
  shows "holding (DisconnectS s)" and "\<not> on (sla_portState (DisconnectS s))"
proof -
  obtain ok s1 where w: "PortWrite SlcanCloseCommand s = (ok, s1)" by force
  have "sla_port s1 = port \<and> sound (sla_portState s1)"
    using PortWrite_holding [OF w] assms by (simp add: holding_def)
  then have "holding (CloseS None s1)" "\<not> on (sla_portState (CloseS None s1))" using CloseS_holding by blast+
  then show "holding (DisconnectS s)" and "\<not> on (sla_portState (DisconnectS s))"
    using w assms by (auto simp: DisconnectS_def holding_def)
qed

lemma ConnectS_holding:
  assumes "holding s"
  shows "holding (snd (ConnectS name bitrate s))"
proof -
  define s1 where "s1 = (if IsConnectedS s then DisconnectS s else s)"
  have s1: "holding s1" using DisconnectS_holding(1) [OF assms] assms by (simp add: s1_def)
  show ?thesis
  proof (cases "SlcanBitrateCode bitrate")
    case None
    then show ?thesis using s1 by (simp add: ConnectS_def s1_def [symmetric])
  next
    case (Some code)
    obtain r p where o: "sp_Open (sla_port s1) name (sla_portState s1) = (r, p)" by force
    have sound: "sla_port s1 = port" "sound (sla_portState s1)" using s1 by (simp_all add: holding_def)
    have p: "sound p" "on p \<longrightarrow> r = opened" using open_port [OF sound(2)] o sound(1) by auto
    obtain ok s2 where w: "PortWrite (SlcanOpenCommands code) (s1\<lparr>sla_portState := p\<rparr>) = (ok, s2)" by force
    then have s2: "sla_port s2 = port \<and> sound (sla_portState s2)" using PortWrite_holding [OF w] p(1) sound(1) by simp
    have "holding (PortClose s2)" using close_port s2 by (simp add: holding_def PortClose_def)
    moreover have "holding (s2\<lparr>sla_decoder := d, sla_state := linkOpening, sla_repliesReceived := 0, sla_handshakeTimer := t\<rparr>)" for d t
      using s2 by (simp add: holding_def)
    moreover have "r \<noteq> opened \<Longrightarrow> holding (s1\<lparr>sla_portState := p\<rparr>)" using p sound(1) by (auto simp: holding_def)
    ultimately show ?thesis using Some o w by (cases ok) (simp_all add: ConnectS_def s1_def [symmetric] Let_def)
  qed
qed

lemma Handshake_holding:
  assumes "holding s"
  shows "holding (Handshake item s)"
proof -
  have "holding (CloseS e (s\<lparr>sla_repliesReceived := n\<rparr>))" for e n
    by (rule CloseS_holding(1)) (use assms in \<open>simp_all add: holding_def\<close>)
  moreover have "holding (CompleteHandshake (s\<lparr>sla_repliesReceived := n\<rparr>))" for n
    using assms by (simp add: CompleteHandshake_def holding_opening)
  ultimately show ?thesis using assms
    by (cases item) (simp_all add: Handshake_def FailHandshake_def Let_def)
qed

lemma Dispatch_holding: "holding s \<Longrightarrow> holding (Dispatch item s)"
  by (cases item) (simp_all add: Dispatch_def Handshake_holding Deliver_def Let_def)

lemma feed_received_holding: "holding s \<Longrightarrow> holding (feed_received bs s)"
proof (induction bs s rule: feed_received.induct)
  case (2 b bs s)
  then show ?case using Dispatch_holding [of "s\<lparr>sla_decoder := snd (Feed b (sla_decoder s))\<rparr>"]
    by (auto split: prod.split option.split)
qed simp

lemma ReadAvailable_holding:
  assumes "holding s" and "sla_state s \<noteq> linkClosed" and "ReadAvailable s = (full, s')"
  shows "holding s'"
proof -
  obtain r p where r: "sp_Read port readChunkSize (sla_portState s) = (r, p)" by force
  have s: "sla_port s = port" "sound (sla_portState s)" using assms(1) by (simp_all add: holding_def)
  have p: "sound p" "on p = on (sla_portState s)" using read_port [OF s(2) r] by simp_all
  have "holding (s\<lparr>sla_portState := p\<rparr>)" using s p assms(2) by (simp add: holding_def)
  moreover have "holding (Lost (s\<lparr>sla_portState := p\<rparr>))" unfolding Lost_def by (rule CloseS_holding(1)) (simp_all add: s p)
  ultimately show ?thesis
    using assms(3) r s(1) feed_received_holding by (auto simp: ReadAvailable_def Let_def split: option.splits)
qed

lemma read_chunks_holding: "holding s \<Longrightarrow> holding (read_chunks n s)"
proof (induction n s rule: read_chunks.induct)
  case (2 n s)
  obtain full s' where r: "ReadAvailable s = (full, s')" by force
  show ?case using 2 r ReadAvailable_holding [OF 2(2) _ r] by (cases "sla_state s = linkClosed"; cases full) auto
qed simp

lemma SendData_holding:
  assumes "holding s"
  shows "holding (SendData canId data a s)"
proof -
  have "holding s'" if "PortWrite bs s = (ok, s')" for bs ok s'
    using PortWrite_holding [OF that] assms by (simp add: holding_def)
  then show ?thesis using assms
    by (auto simp: SendData_def ScheduleCompletion_def split: can_id.split prod.split bool.split)
qed

lemma step_holding: "holding s \<Longrightarrow> holding (fst (sla_step e s))"
proof (cases e)
  case AdapterHandshakeTimer
  assume "holding s"
  then show ?thesis using AdapterHandshakeTimer CloseS_holding(1) [of "s\<lparr>sla_handshakeTimer := None\<rparr>"]
    by (simp add: sla_step_def Let_def HandshakeExpired_def FailHandshake_def holding_def)
qed (auto simp: sla_step_def Let_def ConnectS_holding DisconnectS_holding SendData_holding ReceiveData_def
    ProcessReadEvent_def read_chunks_holding RunScheduled_def split: option.split)

end

sublocale serial_contract \<subseteq> adapter: io_machine sla_step sla_enabled holding
  by unfold_locales (rule step_holding)

section \<open>The port of Linux\<close>

definition posix_tracked :: "('t, 'k) posix_kernel \<Rightarrow> ('k \<Rightarrow> int set) \<Rightarrow> bool" where
  "posix_tracked K fds \<longleftrightarrow> (\<forall>path k. opens fds (pk_open K path k) k) \<and>
     (\<forall>d k. fds (pk_close K d k) = fds k - {d}) \<and> (\<forall>d k. fds (snd (pk_flock K d k)) = fds k) \<and>
     (\<forall>d data k. fds (snd (pk_write K d data k)) = fds k) \<and> (\<forall>d n k. fds (snd (snd (pk_read K d n k))) = fds k) \<and>
     (\<forall>d k. fds (snd (snd (pk_poll K d k))) = fds k) \<and> (\<forall>d k. fds (snd (pk_tcgetattr K d k)) = fds k) \<and>
     (\<forall>d t k. fds (pk_tcsetattr K d t k) = fds k) \<and> (\<forall>d k. fds (pk_tcflush K d k) = fds k)"

lemma posix_calls:
  assumes "posix_tracked K fds"
  shows "opens fds (pk_open K path k) k" "fds (pk_close K d k) = fds k - {d}" "fds (snd (pk_flock K d k)) = fds k"
    "fds (snd (pk_write K d data k)) = fds k" "fds (snd (snd (pk_read K d n k))) = fds k"
    "fds (snd (WaitWritable K d k)) = fds k" "fds (ConfigureRaw K d k) = fds k"
proof -
  show "fds (snd (WaitWritable K d k)) = fds k"
    using assms by (auto simp: posix_tracked_def WaitWritable_def split: prod.split) (metis snd_conv)+
  obtain r k1 where g: "pk_tcgetattr K d k = (r, k1)" by force
  then have "fds k1 = fds k" using assms by (auto simp: posix_tracked_def) (metis snd_conv)+
  then show "fds (ConfigureRaw K d k) = fds k"
    using assms g by (simp add: posix_tracked_def ConfigureRaw_def Let_def split: option.split)
qed (use assms in \<open>simp_all add: posix_tracked_def\<close>)

definition posix_balanced :: "('k \<Rightarrow> int set) \<Rightarrow> int set \<Rightarrow> ('t, 'k) posix_port \<Rightarrow> bool" where
  "posix_balanced fds others p \<longleftrightarrow> posix_tracked (pp_kernel p) fds \<and>
     fds (pp_state p) = others \<union> (if PosixIsOpen p then {pp_descriptor p} else {}) \<and>
     (PosixIsOpen p \<longrightarrow> pp_descriptor p \<notin> others)"

lemma posix_balanced_state:
  "posix_balanced fds others p \<Longrightarrow> fds k = fds (pp_state p) \<Longrightarrow> posix_balanced fds others (p\<lparr>pp_state := k\<rparr>)"
  by (simp add: posix_balanced_def PosixIsOpen_def)

lemma PosixClose_balanced:
  assumes "posix_balanced fds others p"
  shows "posix_balanced fds others (PosixClose p)" and "\<not> PosixIsOpen (PosixClose p)"
  using assms posix_calls(2) [of "pp_kernel p" fds]
  by (auto simp: posix_balanced_def PosixClose_def PosixIsOpen_def)

lemma PosixOpen_balanced:
  assumes "posix_balanced fds others p" and "PosixOpen path p = (r, p')"
  shows "posix_balanced fds others p' \<and> (PosixIsOpen p' \<longrightarrow> r = opened)"
proof -
  define q where "q = PosixClose p"
  let ?K = "pp_kernel q"
  have q: "posix_balanced fds others q" "\<not> PosixIsOpen q" using PosixClose_balanced [OF assms(1)] by (simp_all add: q_def)
  then have tracked: "posix_tracked ?K fds" and none: "fds (pp_state q) = others" by (simp_all add: posix_balanced_def)
  note f = posix_calls [OF tracked]
  show ?thesis
  proof (cases "path = [] \<or> length path \<ge> posixMaxPathLength")
    case True
    then show ?thesis using assms(2) q by (simp add: PosixOpen_def Let_def q_def [symmetric])
  next
    case False
    obtain d k1 where o: "pk_open ?K (c_string path) (pp_state q) = (d, k1)" by force
    obtain l k2 where l: "pk_flock ?K d k1 = (l, k2)" by force
    note step = assms(2) [unfolded PosixOpen_def Let_def q_def [symmetric] if_not_P [OF False] o l prod.case]
    have opened_now: "opens fds (d, k1) (pp_state q)" using f(1) [of "c_string path" "pp_state q"] o by simp
    show ?thesis
    proof (cases "d < 0")
      case True
      then have "p' = q\<lparr>pp_descriptor := d, pp_state := k1\<rparr>" using step by simp
      moreover have "fds k1 = others" using True opened_now none by (simp add: opens_def)
      ultimately show ?thesis using True tracked by (simp add: posix_balanced_def PosixIsOpen_def)
    next
      case False
      then have d: "d \<notin> others" "fds k1 = insert d others" using opened_now none by (simp_all add: opens_def)
      have "fds k2 = fds k1" using f(3) [of d k1] l by simp
      then have b: "posix_balanced fds others (q\<lparr>pp_descriptor := d, pp_state := k2\<rparr>)"
        using d False tracked by (simp add: posix_balanced_def PosixIsOpen_def)
      show ?thesis
      proof (cases "l = 0")
        case True
        have "posix_balanced fds others (q\<lparr>pp_descriptor := d, pp_state := ConfigureRaw ?K d k2\<rparr>)"
          using posix_balanced_state [OF b, of "ConfigureRaw ?K d k2"] f(7) by simp
        moreover have "r = opened" "p' = q\<lparr>pp_descriptor := d, pp_state := ConfigureRaw ?K d k2\<rparr>"
          using step False True by simp_all
        ultimately show ?thesis by simp
      next
        case locked: False
        then have "p' = PosixClose (q\<lparr>pp_descriptor := d, pp_state := k2\<rparr>)" using step False by simp
        then show ?thesis using PosixClose_balanced [OF b] by simp
      qed
    qed
  qed
qed

text \<open>Every call of the kernel in the loops keeps what the port holds.\<close>

definition posix_quiet :: "('t, 'k) posix_port \<Rightarrow> ('t, 'k) posix_port \<Rightarrow> bool" where
  "posix_quiet p p' \<longleftrightarrow> (\<forall>fds others. posix_balanced fds others p \<longrightarrow> posix_balanced fds others p') \<and>
     pp_descriptor p' = pp_descriptor p"

lemma posix_quiet_refl [simp]: "posix_quiet p p"
  by (simp add: posix_quiet_def)

lemma posix_quiet_trans: "posix_quiet p p1 \<Longrightarrow> posix_quiet p1 p2 \<Longrightarrow> posix_quiet p p2"
  by (simp add: posix_quiet_def)

lemma posix_quiet_state:
  assumes "\<And>fds :: 'k \<Rightarrow> int set. posix_tracked (pp_kernel p) fds \<Longrightarrow> fds k = fds (pp_state p)"
  shows "posix_quiet p (p\<lparr>pp_state := k\<rparr>)"
proof -
  have "posix_balanced fds others (p\<lparr>pp_state := k\<rparr>)" if "posix_balanced fds others p" for fds others
    by (rule posix_balanced_state [OF that]) (rule assms, use that in \<open>simp add: posix_balanced_def\<close>)
  then show ?thesis by (simp add: posix_quiet_def)
qed

lemma posix_write_from_quiet:
  "posix_write_from data offset p = Some (ok, p') \<Longrightarrow> posix_quiet p p'"
proof -
  have "posix_write_from data offset p = Some r \<Longrightarrow> posix_quiet p (snd r)" for r
  proof (erule posix_write_from.raw_induct [where P = "\<lambda>data offset p r. posix_quiet p (snd r)", rotated])
    fix loop :: "bytes \<Rightarrow> nat \<Rightarrow> ('a, 'b) posix_port \<Rightarrow> (bool \<times> ('a, 'b) posix_port) option"
      and data offset p r
    assume IH: "\<And>data offset p r. loop data offset p = Some r \<Longrightarrow> posix_quiet p (snd r)"
      and body: "(if pp_descriptor p \<ge> 0 \<and> offset < length data
        then case pk_write (pp_kernel p) (pp_descriptor p) (drop offset data) (pp_state p) of
          (written, k) \<Rightarrow>
            let p = p\<lparr>pp_state := k\<rparr>; errno = pk_errno (pp_kernel p) k in
            if written > 0 then loop data (offset + nat written) p
            else if written < 0 \<and> IsWouldBlock errno \<and> offset > 0
            then case WaitWritable (pp_kernel p) (pp_descriptor p) k of
                (writable, k) \<Rightarrow>
                  let p = p\<lparr>pp_state := k\<rparr> in
                  if \<not> writable then Some (False, p) else loop data offset p
            else if written = 0 \<or> errno \<noteq> eintr then Some (False, p)
            else loop data offset p
        else Some (pp_descriptor p \<ge> 0, p)) = Some r"
    obtain n k where w: "pk_write (pp_kernel p) (pp_descriptor p) (drop offset data) (pp_state p) = (n, k)" by force
    obtain b k2 where v: "WaitWritable (pp_kernel p) (pp_descriptor p) k = (b, k2)" by force
    have q1: "posix_quiet p (p\<lparr>pp_state := k\<rparr>)"
      using posix_calls(4) [of "pp_kernel p" _ "pp_descriptor p" "drop offset data" "pp_state p"] w
      by (intro posix_quiet_state) simp
    have q2: "posix_quiet p (p\<lparr>pp_state := k2\<rparr>)"
      using posix_calls(4) [of "pp_kernel p" _ "pp_descriptor p" "drop offset data" "pp_state p"] w
        posix_calls(6) [of "pp_kernel p" _ "pp_descriptor p" k] v
      by (intro posix_quiet_state) (metis snd_conv)
    have later: "posix_quiet p (snd r)" if "loop data j q = Some r" "posix_quiet p q" for j q
      using posix_quiet_trans [OF that(2) IH [OF that(1)]] .
    show "posix_quiet p (snd r)"
    proof (cases "pp_descriptor p \<ge> 0 \<and> offset < length data")
      case False
      then show ?thesis using body by (simp only: if_False simp_thms) auto
    next
      case True
      note body = body [unfolded if_P [OF True] w v Let_def prod.case]
      then show ?thesis using q1 q2 later by (auto simp: v split: if_splits)
    qed
  qed
  then show "posix_write_from data offset p = Some (ok, p') \<Longrightarrow> posix_quiet p p'" by fastforce
qed

lemma PosixRead_quiet:
  "PosixRead n p = Some (data, p') \<Longrightarrow> posix_quiet p p'"
proof -
  have "PosixRead n p = Some r \<Longrightarrow> posix_quiet p (snd r)" for r
  proof (erule PosixRead.raw_induct [where P = "\<lambda>n p r. posix_quiet p (snd r)", rotated])
    fix loop :: "nat \<Rightarrow> ('a, 'b) posix_port \<Rightarrow> (bytes option \<times> ('a, 'b) posix_port) option" and n p r
    assume IH: "\<And>n p r. loop n p = Some r \<Longrightarrow> posix_quiet p (snd r)"
      and body: "(if pp_descriptor p \<ge> 0
        then case pk_read (pp_kernel p) (pp_descriptor p) n (pp_state p) of
          (m, buffer, k) \<Rightarrow>
            let p = p\<lparr>pp_state := k\<rparr>; errno = pk_errno (pp_kernel p) k in
            if m > 0 then Some (Some (take (nat m) buffer), p)
            else if m < 0 \<and> errno = eintr then loop n p
            else if m < 0 \<and> errno = eagain then Some (Some [], p)
            else Some (None, p)
        else Some (None, p)) = Some r"
    obtain m buffer k where w: "pk_read (pp_kernel p) (pp_descriptor p) n (pp_state p) = (m, buffer, k)"
      using prod_cases3 by blast
    have q1: "posix_quiet p (p\<lparr>pp_state := k\<rparr>)"
      using posix_calls(5) [of "pp_kernel p" _ "pp_descriptor p" n "pp_state p"] w by (intro posix_quiet_state) simp
    show "posix_quiet p (snd r)"
      using body w q1 posix_quiet_trans [OF q1 IH] by (auto simp: Let_def split: if_splits)
  qed
  then show "PosixRead n p = Some (data, p') \<Longrightarrow> posix_quiet p p'" by fastforce
qed

interpretation posix: serial_contract "posix_serial :: ('t, 'k) posix_port serial_port" "posix_balanced fds others" PosixIsOpen
  for fds :: "'k \<Rightarrow> int set" and others
proof
  fix p p' :: "('t, 'k) posix_port" and name r data ok n answer
  assume p: "posix_balanced fds others p"
  show "posix_balanced fds others p' \<and> (PosixIsOpen p' \<longrightarrow> r = opened)" if "sp_Open posix_serial name p = (r, p')"
    using PosixOpen_balanced [OF p] that by (simp add: posix_serial_def)
  show "posix_balanced fds others (sp_Close posix_serial p) \<and> \<not> PosixIsOpen (sp_Close posix_serial p)"
    using PosixClose_balanced [OF p] by (simp add: posix_serial_def)
  show "posix_balanced fds others p' \<and> (PosixIsOpen p' = PosixIsOpen p)" if "sp_Write posix_serial data p = (ok, p')"
    using posix_write_from_quiet [of data 0 p ok p'] that p
    by (auto simp: posix_serial_def PosixWrite_def posix_quiet_def PosixIsOpen_def split: option.splits)
  show "posix_balanced fds others p' \<and> (PosixIsOpen p' = PosixIsOpen p)" if "sp_Read posix_serial n p = (answer, p')"
    using PosixRead_quiet [of n p answer p'] that p
    by (auto simp: posix_serial_def posix_quiet_def PosixIsOpen_def split: option.splits)
qed

section \<open>The port of Windows\<close>

definition windows_tracked :: "'k windows_ports \<Rightarrow> ('k \<Rightarrow> nat set) \<Rightarrow> bool" where
  "windows_tracked K handles \<longleftrightarrow>
     (\<forall>path k. case wp_CreateFile K path k of (None, k') \<Rightarrow> handles k' = handles k
        | (Some h, k') \<Rightarrow> h \<notin> handles k \<and> handles k' = insert h (handles k)) \<and>
     (\<forall>h k. handles (wp_CloseHandle K h k) = handles k - {h}) \<and>
     (\<forall>h settings k. handles (snd (wp_GetCommState K h settings k)) = handles k) \<and>
     (\<forall>h settings k. handles (wp_SetCommState K h settings k) = handles k) \<and>
     (\<forall>h r w k. handles (wp_SetCommTimeouts K h r w k) = handles k) \<and>
     (\<forall>h k. handles (wp_PurgeComm K h k) = handles k) \<and>
     (\<forall>h data k. handles (snd (wp_WriteFile K h data k)) = handles k) \<and>
     (\<forall>h n k. handles (snd (wp_ReadFile K h n k)) = handles k)"

definition windows_balanced :: "('k \<Rightarrow> nat set) \<Rightarrow> nat set \<Rightarrow> 'k windows_port \<Rightarrow> bool" where
  "windows_balanced handles others p \<longleftrightarrow> windows_tracked (wsp_system p) handles \<and>
     (case wsp_handle p of None \<Rightarrow> handles (wsp_state p) = others
      | Some h \<Rightarrow> h \<notin> others \<and> handles (wsp_state p) = insert h others)"

lemma windows_balanced_state:
  "windows_balanced handles others p \<Longrightarrow> handles k = handles (wsp_state p) \<Longrightarrow>
    windows_balanced handles others (p\<lparr>wsp_state := k\<rparr>)"
  by (simp add: windows_balanced_def split: option.splits)

lemma ConfigureW_keeps:
  assumes "windows_tracked K handles"
  shows "handles (ConfigureW K h k) = handles k"
proof -
  let ?zero = "\<lparr>dcb_BaudRate = 0, dcb_ByteSize = 0, dcb_Parity = 0, dcb_StopBits = 0,
    dcb_fDtrControl = 0, dcb_fRtsControl = 0, dcb_others = []\<rparr>"
  obtain settings k1 where g: "wp_GetCommState K h ?zero k = (settings, k1)" by force
  have "\<forall>h settings k. handles (snd (wp_GetCommState K h settings k)) = handles k"
    using assms by (simp add: windows_tracked_def)
  then have "handles k1 = handles k" using g by (metis snd_conv)
  then show ?thesis using assms g by (simp add: ConfigureW_def Let_def windows_tracked_def)
qed

lemma WindowsClose_balanced:
  assumes "windows_balanced handles others p"
  shows "windows_balanced handles others (WindowsClose p) \<and> \<not> WindowsIsOpen (WindowsClose p)"
proof -
  have "\<forall>h k. handles (wp_CloseHandle (wsp_system p) h k) = handles k - {h}"
    using assms by (simp add: windows_balanced_def windows_tracked_def)
  then show ?thesis
    using assms by (cases "wsp_handle p") (simp_all add: windows_balanced_def WindowsClose_def WindowsIsOpen_def)
qed

lemma WindowsOpen_balanced:
  assumes "windows_balanced handles others p" and "WindowsOpen path p = (r, p')"
  shows "windows_balanced handles others p' \<and> (WindowsIsOpen p' \<longrightarrow> r = opened)"
proof -
  define q where "q = WindowsClose p"
  let ?K = "wsp_system q"
  have q: "windows_balanced handles others q" "\<not> WindowsIsOpen q" using WindowsClose_balanced [OF assms(1)] by (simp_all add: q_def)
  then have tracked: "windows_tracked ?K handles" and none: "handles (wsp_state q) = others"
    by (simp_all add: windows_balanced_def WindowsIsOpen_def)
  show ?thesis
  proof (cases "path = [] \<or> length devicePrefix + length path \<ge> windowsMaxPathLength")
    case True
    then show ?thesis using assms(2) q by (simp add: WindowsOpen_def Let_def q_def [symmetric])
  next
    case False
    obtain h k where o: "wp_CreateFile ?K (c_string (devicePrefix @ path)) (wsp_state q) = (h, k)" by force
    have "\<forall>path k. case wp_CreateFile ?K path k of (None, k') \<Rightarrow> handles k' = handles k
        | (Some h, k') \<Rightarrow> h \<notin> handles k \<and> handles k' = insert h (handles k)"
      using tracked by (simp add: windows_tracked_def)
    from this [THEN spec, of "c_string (devicePrefix @ path)", THEN spec, of "wsp_state q"]
    have now: "windows_balanced handles others (q\<lparr>wsp_handle := h, wsp_state := k\<rparr>)"
      using o none tracked by (cases h) (simp_all add: windows_balanced_def)
    note step = assms(2) [unfolded WindowsOpen_def Let_def q_def [symmetric] if_not_P [OF False] o prod.case]
    show ?thesis
    proof (cases h)
      case None
      then show ?thesis using step now by (auto simp: WindowsIsOpen_def)
    next
      case (Some f)
      then have "r = opened" "p' = q\<lparr>wsp_handle := h, wsp_state := ConfigureW ?K f k\<rparr>" using step by simp_all
      then show ?thesis using windows_balanced_state [OF now] ConfigureW_keeps [OF tracked] by simp
    qed
  qed
qed

lemma WindowsWrite_balanced:
  assumes "windows_balanced handles others p" and "WindowsWrite data p = (ok, p')"
  shows "windows_balanced handles others p' \<and> (WindowsIsOpen p' = WindowsIsOpen p)"
proof (cases "wsp_handle p")
  case None
  then show ?thesis using assms by (simp add: WindowsWrite_def)
next
  case (Some h)
  obtain n k where w: "wp_WriteFile (wsp_system p) h data (wsp_state p) = (n, k)" by force
  have "\<forall>h data k. handles (snd (wp_WriteFile (wsp_system p) h data k)) = handles k"
    using assms(1) by (simp add: windows_balanced_def windows_tracked_def)
  then have "handles k = handles (wsp_state p)" using w by (metis snd_conv)
  then show ?thesis using assms Some w windows_balanced_state by (auto simp: WindowsWrite_def WindowsIsOpen_def)
qed

lemma WindowsRead_balanced:
  assumes "windows_balanced handles others p" and "WindowsRead n p = (data, p')"
  shows "windows_balanced handles others p' \<and> (WindowsIsOpen p' = WindowsIsOpen p)"
proof (cases "wsp_handle p")
  case None
  then show ?thesis using assms by (simp add: WindowsRead_def)
next
  case (Some h)
  obtain m k where w: "wp_ReadFile (wsp_system p) h n (wsp_state p) = (m, k)" by force
  have "\<forall>h n k. handles (snd (wp_ReadFile (wsp_system p) h n k)) = handles k"
    using assms(1) by (simp add: windows_balanced_def windows_tracked_def)
  then have "handles k = handles (wsp_state p)" using w by (metis snd_conv)
  then show ?thesis using assms Some w windows_balanced_state by (auto simp: WindowsRead_def WindowsIsOpen_def)
qed

interpretation windows: serial_contract "windows_serial :: 'k windows_port serial_port" "windows_balanced handles others"
    WindowsIsOpen
  for handles :: "'k \<Rightarrow> nat set" and others
proof
  fix p p' :: "'k windows_port" and name r data ok n answer
  assume p: "windows_balanced handles others p"
  show "windows_balanced handles others p' \<and> (WindowsIsOpen p' \<longrightarrow> r = opened)" if "sp_Open windows_serial name p = (r, p')"
    using WindowsOpen_balanced [OF p, of name r p'] that by (simp add: windows_serial_def)
  show "windows_balanced handles others (sp_Close windows_serial p) \<and> \<not> WindowsIsOpen (sp_Close windows_serial p)"
    using WindowsClose_balanced [OF p] by (simp add: windows_serial_def)
  show "windows_balanced handles others p' \<and> (WindowsIsOpen p' = WindowsIsOpen p)" if "sp_Write windows_serial data p = (ok, p')"
    using WindowsWrite_balanced [OF p, of data ok p'] that by (simp add: windows_serial_def)
  show "windows_balanced handles others p' \<and> (WindowsIsOpen p' = WindowsIsOpen p)" if "sp_Read windows_serial n p = (answer, p')"
    using WindowsRead_balanced [OF p, of n answer p'] that by (simp add: windows_serial_def)
qed

section \<open>Writing everything\<close>

text \<open>A kernel that takes a prefix of what it is given, and that refuses or interrupts a writer only finitely
  often: \<open>patience\<close> counts how often it still may.\<close>

definition takes_prefixes :: "('t, 'k) posix_kernel \<Rightarrow> ('k \<Rightarrow> bytes) \<Rightarrow> bool" where
  "takes_prefixes K sent \<longleftrightarrow>
     (\<forall>d data k n k'. pk_write K d data k = (n, k') \<longrightarrow> n \<le> int (length data) \<and> sent k' = sent k @ take (nat n) data) \<and>
     (\<forall>d k. sent (snd (snd (pk_poll K d k))) = sent k)"

definition finitely_interrupted :: "('t, 'k) posix_kernel \<Rightarrow> ('k \<Rightarrow> nat) \<Rightarrow> bool" where
  "finitely_interrupted K patience \<longleftrightarrow>
     (\<forall>d data k n k'. pk_write K d data k = (n, k') \<longrightarrow>
        (if n < 0 then patience k' < patience k else patience k' \<le> patience k)) \<and>
     (\<forall>d k. patience (snd (snd (pk_poll K d k))) \<le> patience k)"

lemma WaitWritable_state: "snd (WaitWritable K d k) = snd (snd (pk_poll K d k))"
  by (simp add: WaitWritable_def split: prod.split)

lemma posix_write_from_complete:
  assumes "takes_prefixes K sent" and "finitely_interrupted K patience"
    and "pp_kernel p = K" and "offset \<le> length data"
  shows "\<exists>ok p' m. posix_write_from data offset p = Some (ok, p') \<and> offset \<le> m \<and> m \<le> length data \<and>
    sent (pp_state p') = sent (pp_state p) @ take (m - offset) (drop offset data) \<and>
    pp_descriptor p' = pp_descriptor p \<and> (ok \<longleftrightarrow> PosixIsOpen p \<and> m = length data)"
  using assms(3,4)
proof (induction "patience (pp_state p) + (length data - offset)" arbitrary: offset p rule: less_induct)
  case less
  let ?d = "pp_descriptor p"
  show ?case
  proof (cases "?d \<ge> 0 \<and> offset < length data")
    case False
    have "posix_write_from data offset p = Some (?d \<ge> 0, p)" by (subst posix_write_from.simps) (simp only: False if_False)
    then show ?thesis using False less.prems by (intro exI [of _ "?d \<ge> 0"] exI [of _ p] exI [of _ offset]) (auto simp: PosixIsOpen_def)
  next
    case True
    obtain n k where w: "pk_write K ?d (drop offset data) (pp_state p) = (n, k)" by force
    obtain b k2 where v: "WaitWritable K ?d k = (b, k2)" by force
    let ?q = "p\<lparr>pp_state := k\<rparr>" and ?q2 = "p\<lparr>pp_state := k2\<rparr>"
    have sent: "n \<le> int (length data - offset)" "sent k = sent (pp_state p) @ take (nat n) (drop offset data)"
      using assms(1) w True unfolding takes_prefixes_def by fastforce+
    have sent2: "sent k2 = sent k" using assms(1) v WaitWritable_state [of K ?d k] by (simp add: takes_prefixes_def)
    have patient: "if n < 0 then patience k < patience (pp_state p) else patience k \<le> patience (pp_state p)"
      using assms(2) w unfolding finitely_interrupted_def by blast
    have patient2: "patience k2 \<le> patience k"
      using assms(2) v WaitWritable_state [of K ?d k] by (simp add: finitely_interrupted_def)
    have step: "posix_write_from data offset p =
        (if n > 0 then posix_write_from data (offset + nat n) ?q
         else if n < 0 \<and> IsWouldBlock (pk_errno K k) \<and> offset > 0
         then if \<not> b then Some (False, ?q2) else posix_write_from data offset ?q2
         else if n = 0 \<or> pk_errno K k \<noteq> eintr then Some (False, ?q) else posix_write_from data offset ?q)"
      by (subst posix_write_from.simps) (simp add: True w v less.prems Let_def)
    consider (some) "n > 0" | (refused) q where "n \<le> 0" "posix_write_from data offset p = Some (False, q)" "q \<in> {?q, ?q2}"
      | (again) q where "n < 0" "posix_write_from data offset p = posix_write_from data offset q" "q \<in> {?q, ?q2}"
      using step by (cases "n > 0"; cases "n = 0"; cases b) (auto split: if_splits)
    then show ?thesis
    proof cases
      case some
      have "patience (pp_state ?q) + (length data - (offset + nat n)) < patience (pp_state p) + (length data - offset)"
        using some patient sent(1) True by simp
      moreover have "offset + nat n \<le> length data" using sent(1) some True by linarith
      ultimately obtain ok p' m where r: "posix_write_from data (offset + nat n) ?q = Some (ok, p')"
          "offset + nat n \<le> m" "m \<le> length data"
          "sent (pp_state p') = sent k @ take (m - (offset + nat n)) (drop (offset + nat n) data)"
          "pp_descriptor p' = ?d" "ok \<longleftrightarrow> PosixIsOpen p \<and> m = length data"
        using less.hyps [of ?q "offset + nat n"] less.prems by (auto simp: PosixIsOpen_def)
      have "take (nat n) (drop offset data) @ take (m - (offset + nat n)) (drop (offset + nat n) data) =
          take (m - offset) (drop offset data)"
        using take_add [of "nat n" "m - (offset + nat n)" "drop offset data"] r(2) by (simp add: add.commute)
      then show ?thesis using step some r sent(2)
        by (intro exI [of _ ok] exI [of _ p'] exI [of _ m]) simp
    next
      case (refused q)
      then have "sent (pp_state q) = sent (pp_state p)" "pp_descriptor q = ?d" using sent(2) sent2 by auto
      then show ?thesis using refused True
        by (intro exI [of _ False] exI [of _ q] exI [of _ offset]) auto
    next
      case (again q)
      then have q: "sent (pp_state q) = sent (pp_state p)" "pp_descriptor q = ?d" "pp_kernel q = K"
          "patience (pp_state q) < patience (pp_state p)"
        using sent(2) sent2 patient patient2 less.prems by auto
      have "patience (pp_state q) + (length data - offset) < patience (pp_state p) + (length data - offset)" using q(4) by simp
      from less.hyps [OF this q(3) less.prems(2)] show ?thesis using q(1,2) again(2) by (auto simp: PosixIsOpen_def)
    qed
  qed
qed

section \<open>What an adapter leaves\<close>

lemma posix_released:
  assumes "posix.holding fds others s"
  shows "sla_state s = linkClosed \<longrightarrow> \<not> PosixIsOpen (sla_portState s)"
    and "fds (pp_state (sla_portState s)) = others \<union> (if PosixIsOpen (sla_portState s) then {pp_descriptor (sla_portState s)} else {})"
    and "fds (pp_state (sla_portState (DisconnectS s))) = others"
  using assms posix.DisconnectS_holding [OF assms] unfolding posix.holding_def posix_balanced_def by auto

lemma windows_released:
  assumes "windows.holding handles others s"
  shows "sla_state s = linkClosed \<longrightarrow> \<not> WindowsIsOpen (sla_portState s)"
    and "handles (wsp_state (sla_portState s)) = others \<union> (case wsp_handle (sla_portState s) of None \<Rightarrow> {} | Some h \<Rightarrow> {h})"
    and "handles (wsp_state (sla_portState (DisconnectS s))) = others"
  using assms windows.DisconnectS_holding [OF assms] unfolding windows.holding_def windows_balanced_def
  by (auto simp: WindowsIsOpen_def split: option.splits)

section \<open>Properties\<close>


text \<open>A kernel with one port, whose state is the bytes that were written, how often it still interrupts
  the writer, and the open descriptors; it takes at most three bytes at a time.\<close>

type_synonym sample_serial = "bytes \<times> nat \<times> int set"

definition sample_posix :: "(unit, sample_serial) posix_kernel" where
  "sample_posix =
     \<lparr>pk_open = \<lambda>_ (w, n, f). if 3 \<in> f then (- 1, (w, n, f)) else (3, (w, n, insert 3 f)),
      pk_flock = \<lambda>_ k. (0, k), pk_close = \<lambda>d (w, n, f). (w, n, f - {d}),
      pk_write = \<lambda>_ data (w, n, f). (case n of 0 \<Rightarrow> (int (min (length data) 3), (w @ take 3 data, 0, f)) | Suc m \<Rightarrow> (- 1, (w, m, f))),
      pk_read = \<lambda>_ _ k. (- 1, [], k), pk_poll = \<lambda>_ k. (1, True, k), pk_errno = \<lambda>(w, n, f). if 3 \<in> f then eintr else ebusy,
      pk_access = \<lambda>_ _. True, pk_tcgetattr = \<lambda>_ k. (Some (), k), pk_tcsetattr = \<lambda>_ _ k. k, pk_tcflush = \<lambda>_ k. k,
      pk_cfmakeraw = \<lambda>t. t, pk_cfsetispeed = \<lambda>_ t. t, pk_cfsetospeed = \<lambda>_ t. t, pk_addControlFlags = \<lambda>_ t. t\<rparr>"


text \<open>C38: A serial adapter gives its port back.  In every state that it can reach over a port of Linux or of
  Windows, whatever the system and the device answer, it holds at most the one handle of its port, and
  none while its link is closed; so none is left after \<^verbatim>\<open>Disconnect\<close>, which its destructor calls.\<close>

theorem serial_adapter_releases_port:
  fixes es :: "'a adapter_event list" and es' :: "'b adapter_event list"
  assumes "posix_tracked K fds" and "admissible sla_enabled sla_step es (SlcanAdapter posix_serial (PosixSerialPort K k) now)"
    and "windows_tracked W handles" and "admissible sla_enabled sla_step es' (SlcanAdapter windows_serial (WindowsSerialPort W w) now)"
  shows "(let s = fst (run_io sla_step es (SlcanAdapter posix_serial (PosixSerialPort K k) now)); p = sla_portState s in
      (sla_state s = linkClosed \<longrightarrow> \<not> PosixIsOpen p) \<and>
      fds (pp_state p) = fds k \<union> (if PosixIsOpen p then {pp_descriptor p} else {}) \<and>
      fds (pp_state (sla_portState (DisconnectS s))) = fds k) \<and>
    (let s = fst (run_io sla_step es' (SlcanAdapter windows_serial (WindowsSerialPort W w) now)); p = sla_portState s in
      (sla_state s = linkClosed \<longrightarrow> \<not> WindowsIsOpen p) \<and>
      handles (wsp_state p) = handles w \<union> (case wsp_handle p of None \<Rightarrow> {} | Some h \<Rightarrow> {h}) \<and>
      handles (wsp_state (sla_portState (DisconnectS s))) = handles w)"
proof
  let ?start = "SlcanAdapter posix_serial (PosixSerialPort K k) now :: (_, 'a) slcan_adapter"
  let ?final = "fst (run_io sla_step es ?start)"
  have "posix.holding fds (fds k) ?start"
    using assms(1) by (simp add: posix.holding_def SlcanAdapter_def posix_balanced_def PosixSerialPort_def PosixIsOpen_def)
  then have "posix.holding fds (fds k) ?final" by (rule posix.adapter.run_inv [OF _ assms(2)])
  from posix_released [OF this] show "let s = ?final; p = sla_portState s in (sla_state s = linkClosed \<longrightarrow> \<not> PosixIsOpen p) \<and>
      fds (pp_state p) = fds k \<union> (if PosixIsOpen p then {pp_descriptor p} else {}) \<and>
      fds (pp_state (sla_portState (DisconnectS s))) = fds k"
    unfolding Let_def by blast
next
  let ?start = "SlcanAdapter windows_serial (WindowsSerialPort W w) now :: (_, 'b) slcan_adapter"
  let ?final = "fst (run_io sla_step es' ?start)"
  have "windows.holding handles (handles w) ?start"
    using assms(3) by (simp add: windows.holding_def SlcanAdapter_def windows_balanced_def WindowsSerialPort_def WindowsIsOpen_def)
  then have "windows.holding handles (handles w) ?final" by (rule windows.adapter.run_inv [OF _ assms(4)])
  from windows_released [OF this] show "let s = ?final; p = sla_portState s in (sla_state s = linkClosed \<longrightarrow> \<not> WindowsIsOpen p) \<and>
      handles (wsp_state p) = handles w \<union> (case wsp_handle p of None \<Rightarrow> {} | Some h \<Rightarrow> {h}) \<and>
      handles (wsp_state (sla_portState (DisconnectS s))) = handles w"
    unfolding Let_def by blast
qed

definition sample_windows :: "nat set windows_ports" where
  "sample_windows =
     \<lparr>wp_CreateFile = \<lambda>_ k. if 4 \<in> k then (None, k) else (Some 4, insert 4 k), wp_GetLastError = \<lambda>_. errorAccessDenied,
      wp_CloseHandle = \<lambda>h k. k - {h}, wp_GetCommState = \<lambda>_ settings k. (settings, k), wp_SetCommState = \<lambda>_ _ k. k,
      wp_SetCommTimeouts = \<lambda>_ _ _ k. k, wp_PurgeComm = \<lambda>_ k. k, wp_WriteFile = \<lambda>_ data k. (Some (length data), k),
      wp_ReadFile = \<lambda>_ _ k. (Some [], k), wp_RegOpenKey = \<lambda>k. (None, k), wp_RegEnumValue = \<lambda>_ _ k. (None, k),
      wp_RegCloseKey = \<lambda>_ k. k\<rparr>"

theorem serial_adapter_releases_port_witness:
  "snd (snd (pp_state (sla_portState (DisconnectS (fst (run_io sla_step
      [AdapterConnect ''/dev/ttyACM0'' 500000, AdapterReceiveData, AdapterReadEvent]
      (SlcanAdapter posix_serial (PosixSerialPort sample_posix ([], 1, {})) 0 :: (_, nat) slcan_adapter))))))) = {} \<and>
   wsp_state (sla_portState (DisconnectS (fst (run_io sla_step
      [AdapterConnect ''COM3'' 500000, AdapterReceiveData, AdapterReadEvent]
      (SlcanAdapter windows_serial (WindowsSerialPort sample_windows {}) 0 :: (_, nat) slcan_adapter))))) = {}"
proof -
  have posix: "posix_tracked sample_posix (\<lambda>(w, n, f). f)"
    by (auto simp: posix_tracked_def sample_posix_def opens_def split: nat.splits)
  have windows: "windows_tracked sample_windows (\<lambda>k. k)"
    by (simp add: windows_tracked_def sample_windows_def)
  have 1: "admissible sla_enabled sla_step [AdapterConnect ''/dev/ttyACM0'' 500000, AdapterReceiveData, AdapterReadEvent]
      (SlcanAdapter posix_serial (PosixSerialPort sample_posix ([], 1, {})) 0 :: (_, nat) slcan_adapter)"
    and 2: "admissible sla_enabled sla_step [AdapterConnect ''COM3'' 500000, AdapterReceiveData, AdapterReadEvent]
      (SlcanAdapter windows_serial (WindowsSerialPort sample_windows {}) 0 :: (_, nat) slcan_adapter)"
    by (simp_all add: sla_enabled_def)
  from serial_adapter_releases_port [OF posix 1 windows 2] show ?thesis by (simp add: Let_def split_beta)
qed

end
