(* ===== verification/PlatformCanAdapter.thy ===== *)
theory PlatformCanAdapter
  imports SocketCanLaws KvaserLaws PcanLaws GsUsbAdapterLaws SerialLaws
begin

text \<open>
  The adapters of a platform behind one selection,
  \<^verbatim>\<open>can-lite/drivers/implementation/PlatformCanAdapter.cpp\<close>: on Linux the CAN sockets and the serial
  adapter, on Windows the PCAN, Kvaser, serial and gs\_usb adapters.  The selection keeps its backends
  in one list, so the states of the adapters are the cases of a datatype.
\<close>

section \<open>Adapters on a common state\<close>

definition lift_bus :: "('v \<Rightarrow> 'w) \<Rightarrow> ('w \<Rightarrow> 'v) \<Rightarrow> ('w, 'a) can_bus_adapter \<Rightarrow> ('v, 'a) can_bus_adapter" where
  "lift_bus part whole adapter =
     \<lparr>cba_Connect = \<lambda>name bitrate v. (case cba_Connect adapter name bitrate (part v) of (ok, out, w) \<Rightarrow> (ok, out, whole w)),
      cba_Disconnect = \<lambda>v. map_prod id whole (cba_Disconnect adapter (part v)),
      cba_IsConnected = \<lambda>v. cba_IsConnected adapter (part v),
      cba_SendData = \<lambda>canId data a v. map_prod id whole (cba_SendData adapter canId data a (part v)),
      cba_ReceiveData = \<lambda>v. whole (cba_ReceiveData adapter (part v)),
      cba_FileDescriptor = \<lambda>v. cba_FileDescriptor adapter (part v),
      cba_ProcessReadEvent = \<lambda>v. map_prod id whole (cba_ProcessReadEvent adapter (part v)),
      cba_Interfaces = \<lambda>v. cba_Interfaces adapter (part v),
      cba_MissingDrivers = \<lambda>v. cba_MissingDrivers adapter (part v)\<rparr>"

lemma lift_bus_adapter:
  assumes "bus_adapter adapter" and "\<And>w. part (whole w) = w"
  shows "bus_adapter (lift_bus part whole adapter)"
proof
  fix v name bitrate out v'
  assume "\<not> cba_IsConnected (lift_bus part whole adapter) v"
    and "cba_Connect (lift_bus part whole adapter) name bitrate v = (True, out, v')"
  then show "ConnectionChanged False \<notin> set out"
    using bus_adapter.connect_keeps [OF assms(1)] by (auto simp: lift_bus_def split: prod.splits)
next
  fix v out v'
  assume "cba_Disconnect (lift_bus part whole adapter) v = (out, v')"
  then show "\<not> cba_IsConnected (lift_bus part whole adapter) v'"
    using bus_adapter.disconnects [OF assms(1)] assms(2)
    by (cases "cba_Disconnect adapter (part v)") (auto simp: lift_bus_def)
qed

section \<open>The platforms\<close>

datatype ('a, 'k, 't, 'q) linux_adapter =
    SocketCanPart (socketCan: "('a, 'k) socket_can")
  | LinuxSlcanPart (linuxSlcan: "(('t, 'q) posix_port, 'a) slcan_adapter")

datatype ('a, 'p, 'v, 'q, 'u) windows_adapter =
    PcanPart (pcanPart: "('a, 'p) pcan")
  | KvaserPart (kvaserPart: "('a, 'v) kvaser")
  | WindowsSlcanPart (windowsSlcan: "('q windows_port, 'a) slcan_adapter")
  | CandleLightPart (candleLight: "('a, 'u) gs_usb")

definition socket_can_bus :: "(('a, 'k) socket_can, 'a) can_bus_adapter" where
  "socket_can_bus = host_bus socket_can_operations FileDescriptorSC
     (\<lambda>s. fst (EnumerateInterfacesSC s)) (\<lambda>s. fst (EnumerateMissingDriversSC s))"

definition pcan_bus :: "(('a, 'k) pcan, 'a) can_bus_adapter" where
  "pcan_bus = host_bus pcan_operations FileDescriptorP
     (\<lambda>s. fst (EnumerateInterfacesP s)) (\<lambda>s. fst (EnumerateMissingDriversP s))"

definition kvaser_bus :: "(('a, 'k) kvaser, 'a) can_bus_adapter" where
  "kvaser_bus = host_bus kvaser_operations FileDescriptorK
     (\<lambda>s. fst (EnumerateInterfacesK s)) (\<lambda>s. fst (EnumerateMissingDriversK s))"

definition gs_usb_bus :: "(('a, 'k) gs_usb, 'a) can_bus_adapter" where
  "gs_usb_bus = host_bus gs_usb_operations FileDescriptorG (\<lambda>s. fst (EnumerateInterfacesG s)) (\<lambda>s. [])"

definition LinuxPlatform ::
    "'k can_kernel \<Rightarrow> 'k \<Rightarrow> ('t, 'q) posix_kernel \<Rightarrow> 'q \<Rightarrow> time \<Rightarrow>
       (('a, 'k, 't, 'q) linux_adapter, 'a) multi_adapter" where
  "LinuxPlatform K k Q q now =
     AddBackend ''slcan'' (lift_bus linuxSlcan LinuxSlcanPart (slcan_bus PosixHandle PosixEnumeratePorts))
       (LinuxSlcanPart (SlcanAdapter posix_serial (PosixSerialPort Q q) now)) ''CANable''
     (AddBackend '''' (lift_bus socketCan SocketCanPart socket_can_bus) (SocketCanPart (SocketCanAdapter K k)) ''''
     MultiCanAdapter)"

definition WindowsPlatform ::
    "'p pcan_basic \<Rightarrow> 'p \<Rightarrow> 'v canlib \<Rightarrow> 'v \<Rightarrow> 'q windows_ports \<Rightarrow> 'q \<Rightarrow> 'u win_usb \<Rightarrow> 'u \<Rightarrow> time \<Rightarrow>
       (('a, 'p, 'v, 'q, 'u) windows_adapter, 'a) multi_adapter" where
  "WindowsPlatform P p V v Q q U u now =
     AddBackend ''candleLight'' (lift_bus candleLight CandleLightPart gs_usb_bus)
       (CandleLightPart (GsUsbAdapter U u)) ''''
     (AddBackend ''slcan''
       (lift_bus windowsSlcan WindowsSlcanPart (slcan_bus WindowsHandle (\<lambda>port. fst (WindowsEnumeratePorts port))))
       (WindowsSlcanPart (SlcanAdapter windows_serial (WindowsSerialPort Q q) now)) ''CANable''
     (AddBackend ''Kvaser'' (lift_bus kvaserPart KvaserPart kvaser_bus) (KvaserPart (KvaserAdapter V v)) ''''
     (AddBackend ''PCAN'' (lift_bus pcanPart PcanPart pcan_bus) (PcanPart (PcanAdapter P p)) ''''
     MultiCanAdapter)))"

text \<open>Every backend of a platform keeps the contract that the selection relies on.\<close>

interpretation linux_sockets: bus_adapter "lift_bus socketCan SocketCanPart socket_can_bus"
  by (rule lift_bus_adapter) (simp_all add: socket_can_bus_def socket_can.bus.bus_adapter_axioms)

interpretation linux_slcan: bus_adapter "lift_bus linuxSlcan LinuxSlcanPart (slcan_bus PosixHandle PosixEnumeratePorts)"
  by (rule lift_bus_adapter) (simp_all add: slcan_backend.bus_adapter_axioms)

interpretation windows_pcan: bus_adapter "lift_bus pcanPart PcanPart pcan_bus"
  by (rule lift_bus_adapter) (simp_all add: pcan_bus_def pcan.bus.bus_adapter_axioms)

interpretation windows_kvaser: bus_adapter "lift_bus kvaserPart KvaserPart kvaser_bus"
  by (rule lift_bus_adapter) (simp_all add: kvaser_bus_def kvaser.bus.bus_adapter_axioms)

interpretation windows_slcan: bus_adapter "lift_bus windowsSlcan WindowsSlcanPart (slcan_bus WindowsHandle (\<lambda>port. fst (WindowsEnumeratePorts port)))"
  by (rule lift_bus_adapter) (simp_all add: slcan_backend.bus_adapter_axioms)

interpretation windows_gs_usb: bus_adapter "lift_bus candleLight CandleLightPart gs_usb_bus"
  by (rule lift_bus_adapter) (simp_all add: gs_usb_bus_def gs_usb.bus.bus_adapter_axioms)

section \<open>Names\<close>

lemma ChannelAfter_none: "ChannelAfter name label = None \<longleftrightarrow> label = [] \<or> (\<forall>channel. name \<noteq> label @ separator # channel)"
  using ChannelAfter_eq [of name label] by (cases "ChannelAfter name label") auto

lemma linux_route:
  "Resolve name (LinuxPlatform K k Q q now) = Some (i, c) \<longleftrightarrow>
     i = 1 \<and> (name = ''slcan:'' @ c \<or> name = ''CANable:'' @ c) \<or> i = 0 \<and> c = name \<and> CHR '':'' \<notin> set name"
  by (auto simp: Resolve_def LinuxPlatform_def AddBackend_def MultiCanAdapter_def ChannelAfter_eq ChannelAfter_none
      separator_def split: option.splits)

lemma windows_route:
  "Resolve name (WindowsPlatform P p V v Q q U u now) = Some (i, c) \<longleftrightarrow>
     i = 0 \<and> name = ''PCAN:'' @ c \<or> i = 1 \<and> name = ''Kvaser:'' @ c \<or>
     i = 2 \<and> (name = ''slcan:'' @ c \<or> name = ''CANable:'' @ c) \<or> i = 3 \<and> name = ''candleLight:'' @ c"
  by (auto simp: Resolve_def WindowsPlatform_def AddBackend_def MultiCanAdapter_def ChannelAfter_eq ChannelAfter_none
      separator_def split: option.splits)

text \<open>The numbers that the adapters list.\<close>

lemma ReportChannelNumber_back:
  assumes "n < 10000"
  shows "ParseChannelNumber (ReportChannelNumber (of_nat n)) = Some (of_nat n)" and "unat (of_nat n :: u32) = n"
proof -
  show "unat (of_nat n :: u32) = n" using assms by (simp add: unat_of_nat take_bit_nat_eq_self)
  then show "ParseChannelNumber (ReportChannelNumber (of_nat n)) = Some (of_nat n)"
    using assms by (intro channel_number_back) simp
qed

lemma kvaser_lists:
  assumes "name \<in> set (fst (EnumerateInterfacesK s))"
  shows "\<exists>n < kvMaxChannels. name = ReportChannelNumber (of_nat n)"
proof -
  have "n < kvMaxChannels" if "n < nat (min m (int kvMaxChannels))" for n m using that by simp
  then show ?thesis using assms by (fastforce simp: EnumerateInterfacesK_def Let_def split: prod.splits if_splits)
qed

lemma pcan_lists:
  assumes "name \<in> set (fst (EnumerateInterfacesP s))"
  shows "\<exists>n. 1 \<le> n \<and> n \<le> pcMaxChannels \<and> name = ReportChannelNumber (of_nat n)"
proof -
  have listed: "name \<in> set found \<Longrightarrow> \<exists>n \<in> set indices. name = ReportChannelNumber (of_nat n)"
    if "pcan_conditions K indices k = (found, k')" for K indices k found k'
    using that
  proof (induction indices arbitrary: k found k')
    case (Cons index indices)
    then show ?case by (fastforce split: prod.splits if_splits)
  qed simp
  show ?thesis
    using assms listed [of _ "[1..<pcMaxChannels + 1]"]
    by (fastforce simp: EnumerateInterfacesP_def Let_def split: prod.splits if_splits)
qed

lemma gs_usb_lists:
  assumes "name \<in> set (fst (EnumerateInterfacesG s))"
  shows "\<exists>n. 1 \<le> n \<and> n \<le> maxDevices \<and> name = ReportChannelNumber (of_nat n)"
proof -
  let ?visit = "\<lambda>index (path :: string) found t. Some (True, found @ [ReportChannelNumber (of_nat (index + 1))], t)"
  let ?numbered = "\<lambda>names. \<forall>name \<in> set names. \<exists>n. 1 \<le> n \<and> n \<le> maxDevices \<and> name = ReportChannelNumber (of_nat n)"
  have "?numbered names" if "ForEachDevicePath ?visit [] s = Some (names, s')" for names s'
    using that
  proof (cases rule: ForEachDevicePath_cases)
    case (some d k s1)
    show ?thesis
    proof (rule visit_devices_rule [OF some(2), where P = "\<lambda>names s. ?numbered names"])
      show "if again then ?numbered f' else ?numbered f'"
        if "?numbered f" "i \<in> set [0..<maxDevices]" "?visit i path f t = Some (again, f', t')" for i path f t again f' t'
      proof -
        have "\<exists>n. 1 \<le> n \<and> n \<le> maxDevices \<and> ReportChannelNumber (of_nat (i + 1)) = ReportChannelNumber (of_nat n)"
          using that(2) by (intro exI [of _ "i + 1"]) simp
        then show ?thesis using that(1,3) by auto
      qed
    qed simp_all
  qed simp
  then show ?thesis using assms by (cases "ForEachDevicePath ?visit [] s") (auto simp: EnumerateInterfacesG_def)
qed

text \<open>C39: Which adapter of a platform a name means.  On Linux \<^verbatim>\<open>slcan:\<close> and \<^verbatim>\<open>CANable:\<close> go to the serial adapter
  with what follows, every name without a colon goes to the CAN sockets as it is, and no other name is
  accepted; on Windows the five labels go to the four adapters, and no other name is accepted.  Every
  channel that the Kvaser, PCAN and gs\_usb adapters list is routed back to its adapter under the
  adapter's label, and is there the number of a channel in its range.\<close>

theorem platform_names_route:
  fixes W :: "(('a, 'p, 'v, 'q, 'u) windows_adapter, 'a) multi_adapter"
  assumes "W = WindowsPlatform P p V v Q q U u now"
  shows "(Resolve name (LinuxPlatform K k Q' q' now) = Some (i, c) \<longleftrightarrow>
      i = 1 \<and> (name = ''slcan:'' @ c \<or> name = ''CANable:'' @ c) \<or> i = 0 \<and> c = name \<and> CHR '':'' \<notin> set name) \<and>
    (Resolve name W = Some (i, c) \<longleftrightarrow>
      i = 0 \<and> name = ''PCAN:'' @ c \<or> i = 1 \<and> name = ''Kvaser:'' @ c \<or>
      i = 2 \<and> (name = ''slcan:'' @ c \<or> name = ''CANable:'' @ c) \<or> i = 3 \<and> name = ''candleLight:'' @ c) \<and>
    (\<forall>ch \<in> set (fst (EnumerateInterfacesP s)). Resolve (''PCAN:'' @ ch) W = Some (0, ch) \<and>
      (\<exists>n. ParseChannelNumber ch = Some n \<and> 1 \<le> unat n \<and> unat n \<le> pcMaxChannels)) \<and>
    (\<forall>ch \<in> set (fst (EnumerateInterfacesK s')). Resolve (''Kvaser:'' @ ch) W = Some (1, ch) \<and>
      (\<exists>n. ParseChannelNumber ch = Some n \<and> unat n < kvMaxChannels)) \<and>
    (\<forall>ch \<in> set (fst (EnumerateInterfacesG s'')). Resolve (''candleLight:'' @ ch) W = Some (3, ch) \<and>
      (\<exists>n. ParseChannelNumber ch = Some n \<and> 1 \<le> unat n \<and> unat n \<le> maxDevices))"
proof (intro conjI ballI)
  have number: "\<exists>m. ParseChannelNumber ch = Some m \<and> unat m = n" if "ch = ReportChannelNumber (of_nat n)" "n \<le> 64" for ch n
    using that ReportChannelNumber_back [of n] by auto
  show "\<exists>n. ParseChannelNumber ch = Some n \<and> 1 \<le> unat n \<and> unat n \<le> pcMaxChannels"
    if "ch \<in> set (fst (EnumerateInterfacesP s))" for ch
    using pcan_lists [OF that] number [of ch] by (force simp: pcMaxChannels_def)
  show "\<exists>n. ParseChannelNumber ch = Some n \<and> unat n < kvMaxChannels" if "ch \<in> set (fst (EnumerateInterfacesK s'))" for ch
    using kvaser_lists [OF that] number [of ch] by (force simp: kvMaxChannels_def)
  show "\<exists>n. ParseChannelNumber ch = Some n \<and> 1 \<le> unat n \<and> unat n \<le> maxDevices"
    if "ch \<in> set (fst (EnumerateInterfacesG s''))" for ch
    using gs_usb_lists [OF that] number [of ch] by (force simp: maxDevices_def)
qed (auto simp: assms linux_route windows_route)

theorem platform_names_route_witness:
  "Resolve ''slcan:/dev/ttyACM0'' (LinuxPlatform sample_can ([], (False, 250000, []), []) sample_posix ([], 0, {}) 0) =
     Some (1, ''/dev/ttyACM0'') \<and>
   Resolve ''candleLight:1'' (WindowsPlatform sample_pcan (0, {}, {}) sample_canlib (0, {}) sample_windows {} sample_usb {} 0) =
     Some (3, ''1'')"
proof -
  have refl: "WindowsPlatform sample_pcan (0, {}, {}) sample_canlib (0, {}) sample_windows {} sample_usb {} 0 =
      WindowsPlatform sample_pcan (0, {}, {}) sample_canlib (0, {}) sample_windows {} sample_usb {} 0" ..
  note names = platform_names_route [OF refl, of _ sample_can "([], (False, 250000, []), [])" sample_posix "([], 0, {})"]
  have "Resolve ''slcan:/dev/ttyACM0'' (LinuxPlatform sample_can ([], (False, 250000, []), []) sample_posix ([], 0, {}) 0) =
      Some (1, ''/dev/ttyACM0'')"
    by (rule iffD2 [OF conjunct1 [OF names]]) simp
  moreover have "Resolve ''candleLight:1'' (WindowsPlatform sample_pcan (0, {}, {}) sample_canlib (0, {}) sample_windows {} sample_usb {} 0) =
      Some (3, ''1'')"
    by (rule iffD2 [OF conjunct1 [OF conjunct2 [OF names]]]) simp
  ultimately show ?thesis by blast
qed

end
