(* ===== verification/Tracing.thy ===== *)
theory Tracing
  imports IsoTpTransport ProtocolServer ProtocolClient
begin

text \<open>
  The objects that write what happens around an interface to a tracer, \<^verbatim>\<open>can-lite/tracing\<close>: a CAN
  driver, an ISO-TP transport and the observers of a client and of a server.

  The tracer and its stream are a library's.  A line is the list of what the code inserts into the
  stream that \<^verbatim>\<open>tracer.Trace()\<close> returns: texts, the manipulator \<^verbatim>\<open>infra::hex\<close>, numbers and the bytes given to
  \<^verbatim>\<open>infra::AsHex\<close>.  The outputs of an object are its lines and its calls, in their order.
\<close>

datatype insertion = InsText string | InsHex | InsNumber nat | InsBytes bytes

type_synonym trace_line = "insertion list"

datatype 'o traced = Line trace_line | Made 'o

section \<open>The driver\<close>

definition canFirmwareUpgradeCategoryId :: u8 where "canFirmwareUpgradeCategoryId = 0x01"

definition tracingCanPrefix :: string where "tracingCanPrefix = ''TracingCan: ''"

definition PriorityName :: "u8 \<Rightarrow> string" where
  "PriorityName priority =
     (if priority = CanPriority_code emergency then ''emergency''
      else if priority = CanPriority_code command then ''command''
      else if priority = CanPriority_code response then ''response''
      else if priority = CanPriority_code telemetry then ''telemetry''
      else if priority = CanPriority_code heartbeat then ''heartbeat''
      else ''unknown'')"

definition CategoryName :: "u8 \<Rightarrow> string" where
  "CategoryName category =
     (if category = canSystemCategoryId then ''system''
      else if category = canFirmwareUpgradeCategoryId then ''firmwareUpgrade''
      else ''application'')"

definition MessageTypeName :: "u8 \<Rightarrow> u8 \<Rightarrow> string" where
  "MessageTypeName category messageType =
     (if messageType = canCategoryErrorResponseMessageTypeId then ''categoryError''
      else if category \<noteq> canSystemCategoryId then ''unknown''
      else if messageType = canHeartbeatMessageTypeId then ''heartbeat''
      else if messageType = canCommandAckMessageTypeId then ''commandAck''
      else if messageType = canStatusRequestMessageTypeId then ''statusRequest''
      else if messageType = canCategoryListRequestMessageTypeId then ''categoryListRequest''
      else if messageType = canCategoryListResponseMessageTypeId then ''categoryListResponse''
      else ''unknown'')"

definition TraceCommandAck :: "bytes \<Rightarrow> trace_line list" where
  "TraceCommandAck data =
     [[InsText tracingCanPrefix, InsText ''ack'', InsHex, InsText '' cat 0x'', InsNumber (unat (data ! 0)),
       InsText '' type 0x'', InsNumber (unat (data ! 1)), InsText '' status '',
       InsText (CanAckStatusToString (data ! 2)), InsText '' expectedSeq 0x'', InsNumber (unat (data ! 3))]]"

definition TraceExtendedFrame :: "string \<Rightarrow> u32 \<Rightarrow> bytes \<Rightarrow> trace_line list" where
  "TraceExtendedFrame direction rawId data =
     (let category = ExtractCanCategory rawId; messageType = ExtractCanMessageType rawId in
      [[InsText tracingCanPrefix, InsText direction, InsHex, InsText '' id 0x'', InsNumber (unat rawId),
        InsText '' prio '', InsText (PriorityName (ExtractCanPriority rawId)),
        InsText '' cat 0x'', InsNumber (unat category), InsText '' '', InsText (CategoryName category),
        InsText '' type 0x'', InsNumber (unat messageType), InsText '' '',
        InsText (MessageTypeName category messageType),
        InsText '' node 0x'', InsNumber (unat (ExtractCanNodeId rawId)),
        InsText '' dlc '', InsNumber (length data), InsText '' data '', InsBytes data]] @
      (if category = canSystemCategoryId \<and> messageType = canCommandAckMessageTypeId \<and> length data \<ge> canCommandAckSize
       then TraceCommandAck data else []))"

fun TraceFrame :: "string \<Rightarrow> can_id \<Rightarrow> bytes \<Rightarrow> trace_line list" where
  "TraceFrame direction (Id29 rawId) data = TraceExtendedFrame direction rawId data"
| "TraceFrame direction (Id11 rawId) data =
     [[InsText tracingCanPrefix, InsText direction, InsHex, InsText '' standard id 0x'', InsNumber (unat rawId),
       InsText '' dlc '', InsNumber (length data), InsText '' data '', InsBytes data]]"

text \<open>What a user does to a CAN driver and a driver to its user.  A function that was stored is \<open>'r\<close>, the
  empty one \<open>None\<close>; calling that is \<open>None\<close>.\<close>

datatype ('a, 'r) can_event =
    CanSend can_id bytes 'a
  | CanListen "'r option"
  | CanArrives can_id bytes

datatype ('a, 'r) can_output =
    CanSent can_id bytes 'a
  | CanListens
  | CanReceived 'r can_id bytes

record 'r tracing_can =
  trc_receivedAction :: "'r option"

definition TracingCan :: "'r tracing_can" where
  "TracingCan = \<lparr>trc_receivedAction = None\<rparr>"

definition TracedSendData ::
    "can_id \<Rightarrow> bytes \<Rightarrow> 'a \<Rightarrow> 'r tracing_can \<Rightarrow> 'r tracing_can \<times> ('a, 'r) can_output traced list" where
  "TracedSendData canId data actionOnCompletion s =
     (s, map Line (TraceFrame ''TX'' canId data) @ [Made (CanSent canId data actionOnCompletion)])"

definition TracedReceiveData ::
    "'r option \<Rightarrow> 'r tracing_can \<Rightarrow> 'r tracing_can \<times> ('a, 'r) can_output traced list" where
  "TracedReceiveData receivedAction s = (s\<lparr>trc_receivedAction := receivedAction\<rparr>, [Made CanListens])"

definition TracedReceived ::
    "can_id \<Rightarrow> bytes \<Rightarrow> 'r tracing_can \<Rightarrow> ('r tracing_can \<times> ('a, 'r) can_output traced list) option" where
  "TracedReceived canId data s =
     (case trc_receivedAction s of
        None \<Rightarrow> None
      | Some action \<Rightarrow> Some (s, map Line (TraceFrame ''RX'' canId data) @ [Made (CanReceived action canId data)]))"

section \<open>The ISO-TP transport\<close>

definition tracingIsoTpPrefix :: string where "tracingIsoTpPrefix = ''TracingIsoTpTransport: ''"

definition OutcomeName :: "bool \<Rightarrow> string" where
  "OutcomeName accepted = (if accepted then ''accepted'' else ''rejected'')"

fun AbortReasonName :: "AbortReason \<Rightarrow> string" where
  "AbortReasonName nBsTimeoutReason = ''nBsTimeout''"
| "AbortReasonName nCrTimeoutReason = ''nCrTimeout''"
| "AbortReasonName overflowReason = ''overflow''"
| "AbortReasonName unexpectedFrame = ''unexpectedFrame''"
| "AbortReasonName waitLimitExceeded = ''waitLimitExceeded''"
| "AbortReasonName sendFailed = ''sendFailed''"
| "AbortReasonName nAsTimeoutReason = ''nAsTimeout''"

text \<open>The decorated transport, and whether the functions that the user gave are there to be called.\<close>

record ('d, 'o) tracing_iso_tp =
  tri_transport :: "('d, 'o) iso_transport"
  tri_onPduReceived :: bool
  tri_onAbort :: bool

definition TracingIsoTpTransport :: "('d, 'o) iso_transport \<Rightarrow> ('d, 'o) tracing_iso_tp" where
  "TracingIsoTpTransport transport =
     \<lparr>tri_transport = transport, tri_onPduReceived = False, tri_onAbort = False\<rparr>"

definition pdu_line :: "u32 \<Rightarrow> bytes \<Rightarrow> trace_line" where
  "pdu_line dataId pdu =
     [InsText tracingIsoTpPrefix, InsText ''PduReceived'', InsHex, InsText '' dataId 0x'', InsNumber (unat dataId),
      InsText '' size 0x'', InsNumber (length pdu), InsText '' data '', InsBytes pdu]"

definition abort_line :: "u32 \<Rightarrow> AbortReason \<Rightarrow> trace_line" where
  "abort_line dataId reason =
     [InsText tracingIsoTpPrefix, InsText ''Abort'', InsHex, InsText '' dataId 0x'', InsNumber (unat dataId),
      InsText '' reason '', InsText (AbortReasonName reason)]"

text \<open>The two functions that the object gives to the transport, and all else that the transport does.\<close>

definition forward ::
    "('d, 'o) tracing_iso_tp \<Rightarrow> ('d, 'o) iso_output \<Rightarrow> ('d, 'o) iso_output traced list option" where
  "forward s out =
     (case out of
        IsoPduReceived dataId pdu \<Rightarrow>
          if tri_onPduReceived s then Some [Line (pdu_line dataId pdu), Made out] else None
      | IsoAborted dataId reason \<Rightarrow>
          if tri_onAbort s then Some [Line (abort_line dataId reason), Made out] else None
      | _ \<Rightarrow> Some [Made out])"

fun forward_all ::
    "('d, 'o) tracing_iso_tp \<Rightarrow> ('d, 'o) iso_output list \<Rightarrow> ('d, 'o) iso_output traced list option" where
  "forward_all s [] = Some []"
| "forward_all s (out # outs) =
     (case (forward s out, forward_all s outs) of
        (Some first, Some rest) \<Rightarrow> Some (first @ rest)
      | _ \<Rightarrow> None)"

text \<open>A call that leaves the transport in the state \<open>t\<close>.\<close>

definition inside ::
    "('d, 'o) iso_transport \<Rightarrow> ('d, 'o) tracing_iso_tp
       \<Rightarrow> (('d, 'o) tracing_iso_tp \<times> ('d, 'o) iso_output traced list) option" where
  "inside t s =
     map_option (\<lambda>outs. (s\<lparr>tri_transport := t\<rparr>, outs))
       (forward_all s (drop (length (iso_log (tri_transport s))) (iso_log t)))"

definition TracedRegisterReceiveChannel ::
    "u32 \<Rightarrow> u32 \<Rightarrow> ('d, 'o) tracing_iso_tp
       \<Rightarrow> (bool \<times> ('d, 'o) tracing_iso_tp \<times> ('d, 'o) iso_output traced list) option" where
  "TracedRegisterReceiveChannel dataId fcId s =
     (case RegisterReceiveChannel dataId fcId (tri_transport s) of
        (accepted, t) \<Rightarrow>
          map_option (\<lambda>(s, outs). (accepted, s, outs @ [Line
            [InsText tracingIsoTpPrefix, InsText ''RegisterReceiveChannel'', InsHex,
             InsText '' dataId 0x'', InsNumber (unat dataId), InsText '' fcId 0x'', InsNumber (unat fcId),
             InsText '' '', InsText (OutcomeName accepted)]]))
          (inside t s))"

definition TracedReleaseChannel ::
    "u32 \<Rightarrow> ('d, 'o) tracing_iso_tp \<Rightarrow> (('d, 'o) tracing_iso_tp \<times> ('d, 'o) iso_output traced list) option" where
  "TracedReleaseChannel dataId s =
     map_option (\<lambda>(s, outs). (s, Line
         [InsText tracingIsoTpPrefix, InsText ''ReleaseChannel'', InsHex, InsText '' dataId 0x'', InsNumber (unat dataId)]
         # outs))
       (inside (ReleaseChannel dataId (tri_transport s)) s)"

definition TracedSendPdu ::
    "time \<Rightarrow> u32 \<Rightarrow> u32 \<Rightarrow> bytes \<Rightarrow> 'd \<Rightarrow> ('d, 'o) tracing_iso_tp
       \<Rightarrow> (bool \<times> ('d, 'o) tracing_iso_tp \<times> ('d, 'o) iso_output traced list) option" where
  "TracedSendPdu now dataId fcId pdu onDone s =
     (case SendPdu now dataId fcId pdu onDone (tri_transport s) of
        (accepted, t) \<Rightarrow>
          map_option (\<lambda>(s, outs). (accepted, s, outs @ [Line
            [InsText tracingIsoTpPrefix, InsText ''SendPdu'', InsHex,
             InsText '' dataId 0x'', InsNumber (unat dataId), InsText '' fcId 0x'', InsNumber (unat fcId),
             InsText '' size 0x'', InsNumber (length pdu), InsText '' '', InsText (OutcomeName accepted)]]))
          (inside t s))"

definition TracedProcessFrame ::
    "time \<Rightarrow> u32 \<Rightarrow> bytes \<Rightarrow> ('d, 'o) tracing_iso_tp
       \<Rightarrow> (bool \<times> ('d, 'o) tracing_iso_tp \<times> ('d, 'o) iso_output traced list) option" where
  "TracedProcessFrame now canId frame s =
     (case ProcessFrameT now canId frame (tri_transport s) of
        (claimed, t) \<Rightarrow>
          map_option (\<lambda>(s, outs). (claimed, s, outs @ (if claimed then [Line
            [InsText tracingIsoTpPrefix, InsText ''ProcessFrame'', InsHex, InsText '' canId 0x'', InsNumber (unat canId),
             InsText '' dlc '', InsNumber (length frame), InsText '' data '', InsBytes frame]] else [])))
          (inside t s))"

definition TracedSetOnPduReceived :: "bool \<Rightarrow> ('d, 'o) tracing_iso_tp \<Rightarrow> ('d, 'o) tracing_iso_tp" where
  "TracedSetOnPduReceived callback s =
     s\<lparr>tri_onPduReceived := callback, tri_transport := SetOnPduReceived True (tri_transport s)\<rparr>"

definition TracedSetOnAbort :: "bool \<Rightarrow> ('d, 'o) tracing_iso_tp \<Rightarrow> ('d, 'o) tracing_iso_tp" where
  "TracedSetOnAbort callback s =
     s\<lparr>tri_onAbort := callback, tri_transport := SetOnAbort True (tri_transport s)\<rparr>"

section \<open>The observers\<close>

definition tracingClientPrefix :: string where "tracingClientPrefix = ''TracingCanProtocolClientObserver: ''"
definition tracingServerPrefix :: string where "tracingServerPrefix = ''TracingCanProtocolServerObserver: ''"

definition TracedServerOnline :: "u16 \<Rightarrow> trace_line" where
  "TracedServerOnline nodeId =
     [InsText tracingClientPrefix, InsText ''ServerOnline'', InsHex, InsText '' node 0x'', InsNumber (unat nodeId)]"

definition TracedServerOffline :: "u16 \<Rightarrow> trace_line" where
  "TracedServerOffline nodeId =
     [InsText tracingClientPrefix, InsText ''ServerOffline'', InsHex, InsText '' node 0x'', InsNumber (unat nodeId)]"

definition TracedCommandAckTimeout :: "u16 \<Rightarrow> u8 \<Rightarrow> u8 \<Rightarrow> trace_line" where
  "TracedCommandAckTimeout nodeId category messageType =
     [InsText tracingClientPrefix, InsText ''CommandAckTimeout'', InsHex, InsText '' node 0x'', InsNumber (unat nodeId),
      InsText '' cat 0x'', InsNumber (unat category), InsText '' type 0x'', InsNumber (unat messageType)]"

definition TracedOnline :: trace_line where
  "TracedOnline = [InsText tracingServerPrefix, InsText ''Online'']"

definition TracedOffline :: trace_line where
  "TracedOffline = [InsText tracingServerPrefix, InsText ''Offline'']"

text \<open>What the observers write for the outputs of the object they are attached to.\<close>

fun client_observer_lines :: "('a, 'd) client_output \<Rightarrow> trace_line list" where
  "client_observer_lines (Presence (ServerOnline nodeId)) = [TracedServerOnline nodeId]"
| "client_observer_lines (Presence (ServerOffline nodeId)) = [TracedServerOffline nodeId]"
| "client_observer_lines (CommandAckTimeout nodeId category messageType) =
     [TracedCommandAckTimeout nodeId category messageType]"
| "client_observer_lines _ = []"

fun server_observer_lines :: "'a server_output \<Rightarrow> trace_line list" where
  "server_observer_lines ClientOnline = [TracedOnline]"
| "server_observer_lines ClientOffline = [TracedOffline]"
| "server_observer_lines _ = []"

end
