(* ===== verification/TracingLaws.thy ===== *)
theory TracingLaws
  imports Tracing "HOL-Library.Sublist"
begin

text \<open>
  Tracing is transparent: the locale \<open>decorator\<close> relates a machine to one that writes lines around
  what it does; the driver and the ISO-TP transport with their tracing objects are instances.
\<close>

section \<open>Machines that write lines\<close>

fun made :: "'o traced list \<Rightarrow> 'o list" where
  "made [] = []"
| "made (Line l # outs) = made outs"
| "made (Made o1 # outs) = o1 # made outs"

lemma made_append [simp]: "made (xs @ ys) = made xs @ made ys"
  by (induction xs rule: made.induct) simp_all

lemma made_lines [simp]: "made (map Line ls) = []"
  by (induction ls) simp_all

text \<open>Every output comes directly after the lines that announce it.\<close>

definition announced :: "('o \<Rightarrow> trace_line list) \<Rightarrow> 'o traced list \<Rightarrow> bool" where
  "announced lines outs \<longleftrightarrow> (\<forall>xs o1 ys. outs = xs @ Made o1 # ys \<longrightarrow> suffix (map Line (lines o1)) xs)"

lemma announced_Nil [simp]: "announced lines []"
  by (simp add: announced_def)

lemma announced_append:
  assumes "announced lines us" and "announced lines vs"
  shows "announced lines (us @ vs)"
  unfolding announced_def
proof (intro allI impI)
  fix xs o1 ys
  assume "us @ vs = xs @ Made o1 # ys"
  then consider zs where "us = xs @ Made o1 # zs" | zs where "xs = us @ zs" "vs = zs @ Made o1 # ys"
    by (auto simp: append_eq_append_conv2 append_eq_Cons_conv)
  then show "suffix (map Line (lines o1)) xs"
    using assms by cases (auto simp: announced_def suffix_appendI)
qed

lemma announced_lines [simp]: "announced lines (map Line ls)"
proof -
  have "Made o1 \<notin> set (map Line ls)" for o1 :: 'a by auto
  then show ?thesis unfolding announced_def by (metis in_set_conv_decomp)
qed

lemma announced_line [simp]: "announced lines [Line l]"
  using announced_lines [of lines "[l]"] by simp

lemma announced_block: "announced lines (map Line (lines o1) @ [Made o1])"
  unfolding announced_def
proof (intro allI impI)
  fix xs o2 ys
  assume eq: "map Line (lines o1) @ [Made o1] = xs @ Made o2 # ys"
  have "Made o2 \<notin> set (map Line (lines o1))" by auto
  then have "ys = []" using eq by (cases ys rule: rev_cases) (auto dest: arg_cong [where f = set])
  then show "suffix (map Line (lines o2)) xs" using eq by (auto intro: suffix_order.refl)
qed

fun traced_run ::
    "('e \<Rightarrow> 't \<Rightarrow> ('t \<times> 'o traced list) option) \<Rightarrow> 'e list \<Rightarrow> 't \<Rightarrow> ('t \<times> 'o traced list) option" where
  "traced_run step [] t = Some (t, [])"
| "traced_run step (e # es) t =
     (case step e t of
        None \<Rightarrow> None
      | Some (t', out) \<Rightarrow> map_option (\<lambda>(t'', out'). (t'', out @ out')) (traced_run step es t'))"

locale decorator =
  fixes plain :: "'e \<Rightarrow> 's \<Rightarrow> 's \<times> 'o list"
    and tracing :: "'e \<Rightarrow> 't \<Rightarrow> ('t \<times> 'o traced list) option"
    and may_happen :: "'e \<Rightarrow> 's \<Rightarrow> bool"
    and related :: "'t \<Rightarrow> 's \<Rightarrow> bool"
    and lines :: "'o \<Rightarrow> trace_line list"
  assumes simulates: "related t s \<Longrightarrow> may_happen e s \<Longrightarrow>
    \<exists>t' outs. tracing e t = Some (t', outs) \<and> related t' (fst (plain e s)) \<and>
      made outs = snd (plain e s) \<and> announced lines outs"
begin

lemma transparent:
  assumes "related t s" and "admissible may_happen plain es s"
  shows "\<exists>t' outs. traced_run tracing es t = Some (t', outs) \<and> related t' (fst (run_io plain es s)) \<and>
    made outs = snd (run_io plain es s) \<and> announced lines outs"
  using assms
proof (induction es arbitrary: t s)
  case (Cons e es)
  obtain t1 outs where first: "tracing e t = Some (t1, outs)" "related t1 (fst (plain e s))"
      "made outs = snd (plain e s)" "announced lines outs"
    using simulates [OF Cons.prems(1), of e] Cons.prems(2) by auto
  obtain t2 outs' where "traced_run tracing es t1 = Some (t2, outs')"
      "related t2 (fst (run_io plain es (fst (plain e s))))" "made outs' = snd (run_io plain es (fst (plain e s)))"
      "announced lines outs'"
    using Cons.IH [OF first(2)] Cons.prems(2) by auto
  then show ?case using first by (simp add: announced_append case_prod_beta)
qed simp

end

section \<open>The driver\<close>

text \<open>A driver without tracing calls the function that it was given; a frame that arrives needs one.\<close>

fun can_plain :: "('a, 'r) can_event \<Rightarrow> 'r option \<Rightarrow> 'r option \<times> ('a, 'r) can_output list" where
  "can_plain (CanSend canId data a) action = (action, [CanSent canId data a])"
| "can_plain (CanListen receivedAction) action = (receivedAction, [CanListens])"
| "can_plain (CanArrives canId data) action =
     (action, case action of None \<Rightarrow> [] | Some f \<Rightarrow> [CanReceived f canId data])"

fun can_tracing :: "('a, 'r) can_event \<Rightarrow> 'r tracing_can \<Rightarrow> ('r tracing_can \<times> ('a, 'r) can_output traced list) option" where
  "can_tracing (CanSend canId data a) s = Some (TracedSendData canId data a s)"
| "can_tracing (CanListen receivedAction) s = Some (TracedReceiveData receivedAction s)"
| "can_tracing (CanArrives canId data) s = TracedReceived canId data s"

fun can_arrival_heard :: "('a, 'r) can_event \<Rightarrow> 'r option \<Rightarrow> bool" where
  "can_arrival_heard (CanArrives canId data) action \<longleftrightarrow> action \<noteq> None"
| "can_arrival_heard _ action \<longleftrightarrow> True"

fun can_lines :: "('a, 'r) can_output \<Rightarrow> trace_line list" where
  "can_lines (CanSent canId data a) = TraceFrame ''TX'' canId data"
| "can_lines CanListens = []"
| "can_lines (CanReceived f canId data) = TraceFrame ''RX'' canId data"

interpretation can_trace: decorator can_plain can_tracing can_arrival_heard
    "\<lambda>s action. trc_receivedAction s = action" can_lines
proof
  fix s :: "'r tracing_can" and action and e :: "('a, 'r) can_event"
  assume "trc_receivedAction s = action" "can_arrival_heard e action"
  then show "\<exists>t' outs. can_tracing e s = Some (t', outs) \<and> trc_receivedAction t' = fst (can_plain e action) \<and>
      made outs = snd (can_plain e action) \<and> announced can_lines outs"
  proof (cases e)
    case (CanSend canId data a)
    then show ?thesis using \<open>trc_receivedAction s = action\<close> announced_block [of can_lines "CanSent canId data a"]
      by (simp add: TracedSendData_def)
  next
    case (CanListen f)
    then show ?thesis using announced_block [of can_lines CanListens] by (simp add: TracedReceiveData_def)
  next
    case (CanArrives canId data)
    then obtain f where "action = Some f" using \<open>can_arrival_heard e action\<close> by auto
    then show ?thesis using CanArrives \<open>trc_receivedAction s = action\<close> announced_block [of can_lines "CanReceived f canId data"]
      by (simp add: TracedReceived_def)
  qed
qed

lemma can_lines_tell:
  "TraceFrame direction canId data = TraceFrame direction' canId' data' \<longleftrightarrow>
     direction = direction' \<and> canId = canId' \<and> data = data'"
  by (cases canId; cases canId') (auto simp: TraceExtendedFrame_def Let_def unsigned_word_eqI)

lemma can_tracing_transparent:
  assumes "admissible can_arrival_heard can_plain es None"
  shows "\<exists>s outs. traced_run can_tracing es TracingCan = Some (s, outs) \<and>
    made outs = snd (run_io can_plain es None) \<and> announced can_lines outs"
  using can_trace.transparent [of TracingCan None es] assms by (auto simp: TracingCan_def)

section \<open>The ISO-TP transport\<close>

text \<open>What the transport emits after a step, and that it calls only functions that it was given.\<close>

definition heeds :: "('d, 'o) iso_transport \<Rightarrow> ('d, 'o) iso_output \<Rightarrow> bool" where
  "heeds t out \<longleftrightarrow>
     (case out of
        IsoPduReceived dataId pdu \<Rightarrow> iso_onPduReceived t
      | IsoAborted dataId reason \<Rightarrow> iso_onAbort t
      | _ \<Rightarrow> True)"

definition emits :: "('d, 'o) iso_transport \<Rightarrow> ('d, 'o) iso_transport \<Rightarrow> bool" where
  "emits t t' \<longleftrightarrow>
     iso_onPduReceived t' = iso_onPduReceived t \<and> iso_onAbort t' = iso_onAbort t \<and>
     (\<exists>outs. iso_log t' = iso_log t @ outs \<and> list_all (heeds t) outs)"

lemma emits_refl [simp, intro]: "emits t t"
  by (simp add: emits_def)

lemma heeds_cong: "iso_onPduReceived t' = iso_onPduReceived t \<Longrightarrow> iso_onAbort t' = iso_onAbort t \<Longrightarrow> heeds t' = heeds t"
  by (auto simp: heeds_def fun_eq_iff split: iso_output.split)

lemma emits_trans [trans]:
  assumes "emits t t1" and "emits t1 t2"
  shows "emits t t2"
  using assms heeds_cong [of t1 t] unfolding emits_def by fastforce

lemma emits_fold:
  assumes "\<And>x t. x \<in> set xs \<Longrightarrow> emits t (f x t)"
  shows "emits t (fold f xs t)"
  using assms
proof (induction xs arbitrary: t)
  case (Cons x xs)
  have "emits t (f x t)" by (simp add: Cons.prems)
  also have "emits (f x t) (fold f xs (f x t))" by (rule Cons.IH) (simp add: Cons.prems)
  finally show ?case by simp
qed simp

lemma emits_quiet [simp]:
  "emits t (set_channel i ch t)" "emits t (t\<lparr>iso_transport := tx\<rparr>)"
  "emits t (t\<lparr>iso_channels := chs\<rparr>)"
  by (simp_all add: emits_def set_channel_def)

lemma emits_notify [simp]: "emits t (notify e t)"
  by (cases e) (simp_all add: OnPduReady_def OnAbort_def emit_iso_def emits_def heeds_def)

lemma emits_emit: "heeds t out \<Longrightarrow> emits t (emit_iso out t)"
  by (simp add: emits_def emit_iso_def)

lemma emits_run_failed [simp]: "emits t (run_failed now i cb t)"
  unfolding run_failed_def
  by (auto split: prod.split intro!: emits_trans [OF emits_quiet(1) emits_fold])

lemma emits_send_effect [simp]: "emits t (send_effect now e t)"
  by (induction now e t rule: send_effect.induct) (simp_all add: emits_emit heeds_def)

lemma emits_OnRawSend: "OnRawSend now canId frame onDone t = (ok, t') \<Longrightarrow> emits t t'"
  unfolding OnRawSend_def
  by (auto split: prod.splits intro!: emits_trans [OF emits_quiet(2) emits_fold])

lemma emits_run_channel_effect [simp]: "emits t (run_channel_effect now i e t)"
proof (cases e)
  case (ChTransmit canId f cb)
  then show ?thesis
    by (auto simp: raw_send_def split: prod.splits intro: emits_OnRawSend emits_trans [OF emits_OnRawSend])
qed (simp_all del: notify.simps)

lemma emits_channel_does [simp]: "emits t (channel_does now i r t)"
  unfolding channel_does_def by (rule emits_trans [OF emits_quiet(1) emits_fold]) simp

lemma emits_OpenConnection: "OpenConnection rx tx t = (r, t') \<Longrightarrow> emits t t'"
  by (auto simp: OpenConnection_def split: option.splits if_splits)

lemma emits_RegisterReceiveChannel: "RegisterReceiveChannel dataId fcId t = (ok, t') \<Longrightarrow> emits t t'"
  by (auto simp: RegisterReceiveChannel_def split: option.splits if_splits prod.splits
      dest!: emits_OpenConnection intro: emits_trans [OF _ emits_quiet(1)])

lemma emits_ReleaseChannel [simp]: "emits t (ReleaseChannel dataId t)"
  by (simp add: ReleaseChannel_def split: option.split)

lemma emits_send_on: "send_on now i pdu d t = (ok, t') \<Longrightarrow> emits t t'"
  by (auto simp: send_on_def split: option.splits prod.splits)

lemma emits_SendPdu: "SendPdu now dataId fcId pdu d t = (ok, t') \<Longrightarrow> emits t t'"
  by (auto simp: SendPdu_def split: option.splits prod.splits bool.splits
      dest!: emits_OpenConnection emits_send_on
      intro: emits_trans emits_trans [OF emits_trans emits_quiet(1)])

lemma emits_process_from: "process_from now canId frame is t = (ok, t') \<Longrightarrow> emits t t'"
  by (induction now canId frame "is" t rule: process_from.induct) (auto split: if_splits prod.splits bool.splits)

lemma emits_completion_effect [simp]: "emits t (completion_effect now e t)"
  by (induction now e t rule: completion_effect.induct) (simp_all add: emits_emit heeds_def)

lemma emits_OnSendCompleteT [simp]: "emits t (OnSendCompleteT now success t)"
  unfolding OnSendCompleteT_def
  by (auto split: option.split intro!: emits_trans [OF emits_quiet(2) emits_fold])

section \<open>The ISO-TP transport with its tracing object\<close>

fun traced_iso_step ::
    "('d, 'o) iso_event \<Rightarrow> ('d, 'o) tracing_iso_tp \<Rightarrow> (('d, 'o) tracing_iso_tp \<times> ('d, 'o) iso_output traced list) option" where
  "traced_iso_step (IsoRegister dataId fcId) s = map_option snd (TracedRegisterReceiveChannel dataId fcId s)"
| "traced_iso_step (IsoRelease dataId) s = TracedReleaseChannel dataId s"
| "traced_iso_step (iso_event.IsoSend now dataId fcId pdu d) s = map_option snd (TracedSendPdu now dataId fcId pdu d s)"
| "traced_iso_step (IsoFrameIn now canId frame) s = map_option snd (TracedProcessFrame now canId frame s)"
| "traced_iso_step (IsoOnPdu callback) s = Some (TracedSetOnPduReceived callback s, [])"
| "traced_iso_step (IsoOnAbort callback) s = Some (TracedSetOnAbort callback s, [])"
| "traced_iso_step e s = inside (iso_apply e (tri_transport s)) s"

fun iso_lines :: "('d, 'o) iso_output \<Rightarrow> trace_line list" where
  "iso_lines (IsoPduReceived dataId pdu) = [pdu_line dataId pdu]"
| "iso_lines (IsoAborted dataId reason) = [abort_line dataId reason]"
| "iso_lines _ = []"

definition traces_iso :: "('d, 'o) tracing_iso_tp \<Rightarrow> ('d, 'o) iso_transport \<Rightarrow> bool" where
  "traces_iso s t \<longleftrightarrow> tri_transport s = t \<and>
     (iso_onPduReceived t \<longrightarrow> tri_onPduReceived s) \<and> (iso_onAbort t \<longrightarrow> tri_onAbort s)"

fun gives_functions :: "('d, 'o) iso_event \<Rightarrow> bool" where
  "gives_functions (IsoOnPdu callback) = callback"
| "gives_functions (IsoOnAbort callback) = callback"
| "gives_functions _ = True"

lemma forward_heeded:
  assumes "traces_iso s t" and "heeds t out"
  shows "forward s out = Some (map Line (iso_lines out) @ [Made out])"
  using assms by (cases out) (auto simp: forward_def heeds_def traces_iso_def)

lemma forward_all_heeded:
  assumes "traces_iso s t" and "list_all (heeds t) outs"
  shows "\<exists>traced. forward_all s outs = Some traced \<and> made traced = outs \<and> announced iso_lines traced"
  using assms(2)
proof (induction outs)
  case (Cons out outs)
  then obtain traced where "forward_all s outs = Some traced" "made traced = outs" "announced iso_lines traced" by auto
  then show ?case using Cons.prems forward_heeded [OF assms(1), of out]
      announced_append [OF announced_block [of iso_lines out]] by simp
qed simp

lemma inside_heeded:
  assumes "traces_iso s t" and "emits t t'"
  shows "\<exists>traced. inside t' s = Some (s\<lparr>tri_transport := t'\<rparr>, traced) \<and> traces_iso (s\<lparr>tri_transport := t'\<rparr>) t' \<and>
    made traced = drop (length (iso_log t)) (iso_log t') \<and> announced iso_lines traced"
proof -
  obtain outs where outs: "iso_log t' = iso_log t @ outs" "list_all (heeds t) outs" using assms(2) by (auto simp: emits_def)
  obtain traced where "forward_all s outs = Some traced" "made traced = outs" "announced iso_lines traced"
    using forward_all_heeded [OF assms(1) outs(2)] by auto
  then show ?thesis using assms outs(1) by (auto simp: inside_def traces_iso_def emits_def)
qed

lemma announced_around:
  "announced lines outs \<Longrightarrow> announced lines (Line l # outs)"
  "announced lines outs \<Longrightarrow> announced lines (outs @ [Line l])"
  using announced_append [OF announced_line [of lines l], of outs] announced_append [OF _ announced_line [of lines l], of outs]
  by simp_all

interpretation iso_trace: decorator iso_step traced_iso_step "\<lambda>e t. gives_functions e" traces_iso iso_lines
proof
  fix s :: "('d, 'o) tracing_iso_tp" and t and e :: "('d, 'o) iso_event"
  assume rel: "traces_iso s t" and given: "gives_functions e"
  note out = inside_heeded [OF rel]
  have at: "tri_transport s = t" using rel by (simp add: traces_iso_def)
  show "\<exists>t' outs. traced_iso_step e s = Some (t', outs) \<and> traces_iso t' (fst (iso_step e t)) \<and>
      made outs = snd (iso_step e t) \<and> announced iso_lines outs"
  proof (cases e)
    case (IsoRegister dataId fcId)
    obtain ok t' where r: "RegisterReceiveChannel dataId fcId t = (ok, t')" by fastforce
    then show ?thesis using out [OF emits_RegisterReceiveChannel [OF r]] IsoRegister at
      by (auto simp: TracedRegisterReceiveChannel_def iso_step_def announced_around)
  next
    case (IsoRelease dataId)
    then show ?thesis using out [OF emits_ReleaseChannel] at
      by (fastforce simp: TracedReleaseChannel_def iso_step_def Let_def announced_around)
  next
    case (IsoSend now dataId fcId pdu d)
    obtain ok t' where r: "SendPdu now dataId fcId pdu d t = (ok, t')" by fastforce
    then show ?thesis using out [OF emits_SendPdu [OF r]] IsoSend at
      by (auto simp: TracedSendPdu_def iso_step_def announced_around)
  next
    case (IsoFrameIn now canId frame)
    obtain ok t' where r: "ProcessFrameT now canId frame t = (ok, t')" by fastforce
    then show ?thesis using out [OF emits_process_from [OF r [unfolded ProcessFrameT_def]]] IsoFrameIn at
      by (auto simp: TracedProcessFrame_def iso_step_def announced_around)
  next
    case (IsoRawSend now canId frame other)
    obtain ok t' where r: "OnRawSend now canId frame (OtherCb other) t = (ok, t')" by fastforce
    then show ?thesis using out [OF emits_OnRawSend [OF r]] IsoRawSend at by (auto simp: iso_step_def)
  next
    case (IsoComplete now success)
    then show ?thesis using out [OF emits_OnSendCompleteT] at by (fastforce simp: iso_step_def Let_def)
  next
    case (IsoTimer now i timer)
    then show ?thesis using out [OF emits_channel_does] at by (fastforce simp: iso_step_def Let_def)
  qed (use rel given in \<open>auto simp: traces_iso_def iso_step_def TracedSetOnPduReceived_def TracedSetOnAbort_def
      SetOnPduReceived_def SetOnAbort_def\<close>)
qed

section \<open>A detached transport\<close>

text \<open>A protocol object detaches from its transport by \<^verbatim>\<open>SetOnPduReceived(nullptr)\<close>.  What then arrives on a
  channel is dropped by the transport, but not by the tracing object.\<close>

definition detached :: "u32 \<Rightarrow> u32 \<Rightarrow> time \<Rightarrow> bytes \<Rightarrow> ('d, 'o) iso_event list" where
  "detached dataId fcId now frame =
     [IsoOnPdu True, IsoRegister dataId fcId, IsoOnPdu False, IsoFrameIn now dataId frame]"

lemma first_channel_registers:
  assumes "iso_channels t = replicate (Suc n) (IsoTpChannelImpl maxPduSize)" and "dataId \<noteq> fcId"
  shows "\<exists>ch. RegisterReceiveChannel dataId fcId t = (True, t\<lparr>iso_channels := ch # replicate n (IsoTpChannelImpl maxPduSize)\<rparr>) \<and>
    ch_occupied ch \<and> ch_receptionEnabled ch \<and> ch_rxId ch = dataId \<and>
    rcv_state (ch_receiver ch) = receiverIdle \<and> rcv_maxSize (ch_receiver ch) = maxPduSize"
proof -
  have "FindChannel i t = None" for i
    using assms(1) by (auto simp: FindChannel_def find_first_None IsoTpChannelImpl_def)
  moreover have "AllocateFreeChannel t = Some 0" using assms(1) by (simp add: AllocateFreeChannel_def IsoTpChannelImpl_def)
  ultimately show ?thesis using assms
    by (intro exI [of _ "EnableReception (SetFlowControlParametersC (icfg_blockSize (iso_config t))
          (icfg_separationTime (iso_config t)) (Configure dataId fcId (IsoTpChannelImpl maxPduSize)))"])
      (simp add: RegisterReceiveChannel_def OpenConnection_def FindConnection_def set_channel_def EnableReception_def
        SetFlowControlParametersC_def Configure_def SetFlowControlParameters_def IsoTpChannelImpl_def IsoTpReceiver_def)
qed

lemma first_channel_receives:
  assumes "iso_channels t = ch # chs" and "ch_occupied ch" and "ch_receptionEnabled ch" and "ch_rxId ch = dataId"
    and "rcv_state (ch_receiver ch) = receiverIdle" and "EncodeSingleFrame pdu = Some frame"
    and "length pdu \<le> rcv_maxSize (ch_receiver ch)"
  shows "\<exists>ch'. ProcessFrameT now dataId frame t = (True, OnPduReady dataId pdu (set_channel 0 ch' t))"
proof -
  note dec = single_frame_decodes [OF assms(6)]
  let ?len = "DecodeSingleFrameLength frame"
  have "?len \<noteq> 0" "\<not> ?len > of_nat sfMaxPayloadBytes" "\<not> ?len > of_nat (length pdu)"
    using dec(2,5,6) by (auto simp: word_less_nat_alt unat_of_nat_small sfMaxPayloadBytes_def)
  then obtain r where "ProcessFrameR now frame (ch_receiver ch) = (r, [PduReady pdu])"
    using dec assms(5,7) by (simp add: ProcessFrameR_def HandleSingleFrame_def EndSupersededReception_def drop_Suc)
  then have "ProcessFrameC now dataId frame ch = (True, ch\<lparr>ch_receiver := r\<rparr>, [ChPdu dataId pdu])"
    using assms(3,4) dec(1) by (simp add: ProcessFrameC_def with_receiver_def)
  then show ?thesis using assms(1,2)
    by (auto simp: ProcessFrameT_def upt_conv_Cons channel_does_def simp del: upt_Suc)
qed

lemma detached_outcomes:
  assumes T: "T = IsoTpTransportImpl maxPduSize (Suc n) transport config" and "dataId \<noteq> fcId"
    and "EncodeSingleFrame pdu = Some frame" and "length pdu \<le> maxPduSize"
  shows "snd (run_io iso_step (detached dataId fcId now frame) T) = []"
    and "traced_run traced_iso_step (detached dataId fcId now frame) (TracingIsoTpTransport T) = None"
proof -
  let ?t = "SetOnPduReceived True T"
  obtain ch where ch: "RegisterReceiveChannel dataId fcId ?t = (True, ?t\<lparr>iso_channels := ch # replicate n (IsoTpChannelImpl maxPduSize)\<rparr>)"
      "ch_occupied ch" "ch_receptionEnabled ch" "ch_rxId ch = dataId" "rcv_state (ch_receiver ch) = receiverIdle"
      "rcv_maxSize (ch_receiver ch) = maxPduSize"
    using first_channel_registers [of ?t n maxPduSize dataId fcId] assms(2) by (auto simp: T IsoTpTransportImpl_def SetOnPduReceived_def)
  let ?u = "?t\<lparr>iso_channels := ch # replicate n (IsoTpChannelImpl maxPduSize)\<rparr>"
  have arrives: "\<exists>ch'. ProcessFrameT now dataId frame (SetOnPduReceived c ?u) =
      (True, OnPduReady dataId pdu (set_channel 0 ch' (SetOnPduReceived c ?u)))" for c
    using ch assms(3,4) by (intro first_channel_receives [of _ ch]) (simp_all add: SetOnPduReceived_def)
  have log: "iso_log T = []" by (simp add: T IsoTpTransportImpl_def)
  show "snd (run_io iso_step (detached dataId fcId now frame) T) = []"
    using arrives [of False] ch(1) log
    by (auto simp: detached_def iso_step_def Let_def OnPduReady_def SetOnPduReceived_def set_channel_def)
  show "traced_run traced_iso_step (detached dataId fcId now frame) (TracingIsoTpTransport T) = None"
    using arrives [of True] ch(1) log
    by (auto simp: detached_def TracedSetOnPduReceived_def TracedRegisterReceiveChannel_def TracedProcessFrame_def
        TracingIsoTpTransport_def inside_def OnPduReady_def SetOnPduReceived_def set_channel_def emit_iso_def forward_def)
qed

section \<open>The observers\<close>

lemma observer_lines_tell:
  assumes "client_observer_lines out = client_observer_lines out'" and "client_observer_lines out \<noteq> []"
  shows "out = out'"
  using assms
  by (induction out rule: client_observer_lines.induct; induction out' rule: client_observer_lines.induct)
    (auto simp: TracedServerOnline_def TracedServerOffline_def TracedCommandAckTimeout_def unsigned_word_eqI)

section \<open>Properties\<close>

lemma gives_functions_admissible:
  "list_all gives_functions es \<Longrightarrow> admissible (\<lambda>e t. gives_functions e) iso_step es t"
  by (induction es arbitrary: t) simp_all

text \<open>C40: Tracing an ISO-TP transport changes nothing, as long as its user gives it functions: whatever happens,
  the traced transport goes through the states of the transport alone, its calls and notifications are
  the same ones in the same order, and the line of each PDU and of each abort comes directly before the
  user hears of it.  It is not so when the user takes its function back, as a client and a server do
  when they detach from their transport: a PDU that arrives then is dropped by the transport, while the
  tracing object calls the empty function.\<close>

theorem traced_transport_transparent:
  assumes "T = IsoTpTransportImpl maxPduSize (Suc n) transport config"
  shows "(list_all gives_functions es \<longrightarrow>
      (\<exists>s outs. traced_run traced_iso_step es (TracingIsoTpTransport T) = Some (s, outs) \<and>
        tri_transport s = fst (run_io iso_step es T) \<and> made outs = snd (run_io iso_step es T) \<and>
        announced iso_lines outs)) \<and>
    (dataId \<noteq> fcId \<longrightarrow> EncodeSingleFrame pdu = Some frame \<longrightarrow> length pdu \<le> maxPduSize \<longrightarrow>
      snd (run_io iso_step (detached dataId fcId now frame) T) = [] \<and>
      traced_run traced_iso_step (detached dataId fcId now frame) (TracingIsoTpTransport T) = None)"
proof (intro conjI impI)
  have "traces_iso (TracingIsoTpTransport T) T"
    by (simp add: traces_iso_def TracingIsoTpTransport_def assms IsoTpTransportImpl_def)
  then show "\<exists>s outs. traced_run traced_iso_step es (TracingIsoTpTransport T) = Some (s, outs) \<and>
      tri_transport s = fst (run_io iso_step es T) \<and> made outs = snd (run_io iso_step es T) \<and> announced iso_lines outs"
    if "list_all gives_functions es"
    using iso_trace.transparent gives_functions_admissible [OF that] unfolding traces_iso_def by blast
qed (simp_all add: detached_outcomes [OF assms])

theorem traced_transport_transparent_witness:
  "traced_run traced_iso_step (detached 1 2 0 [2, 8, 9] :: (unit, unit) iso_event list)
      (TracingIsoTpTransport (IsoTpTransportImpl 8 2 (CanFrameTransport 1 True)
        \<lparr>icfg_blockSize = 0, icfg_separationTime = 0\<rparr>)) = None \<and>
   snd (run_io iso_step (detached 1 2 0 [2, 8, 9] :: (unit, unit) iso_event list)
      (IsoTpTransportImpl 8 2 (CanFrameTransport 1 True) \<lparr>icfg_blockSize = 0, icfg_separationTime = 0\<rparr>)) = []"
proof -
  have "IsoTpTransportImpl 8 2 (CanFrameTransport 1 True) \<lparr>icfg_blockSize = 0, icfg_separationTime = 0\<rparr> =
      (IsoTpTransportImpl 8 (Suc 1) (CanFrameTransport 1 True) \<lparr>icfg_blockSize = 0, icfg_separationTime = 0\<rparr> :: (unit, unit) iso_transport)"
    by (simp add: numeral_2_eq_2)
  from traced_transport_transparent [OF this, of "[]" 1 2 "[8, 9]" "[2, 8, 9]" 0] show ?thesis
    by (simp add: EncodeSingleFrame_def sfMaxPayloadBytes_def)
qed

end
