(* ===== verification/Spec2Isabelle.thy ===== *)
theory Spec2Isabelle
  imports Payload IsoTpLink IsoTpTransport Session FirmwareLaws SlcanLink MultiCanLaws GsUsbLaws FocMotorLaws
    PlatformCanAdapter TracingLaws
begin

text \<open>
  A model of can-lite, a C++ library that runs a small command and telemetry protocol over a CAN
  bus, with the theorems that make it correct.  Paths are relative to \<^verbatim>\<open>src/can-lite\<close>, those of the
  example to \<^verbatim>\<open>src\<close>.

  \<^bold>\<open>The program.\<close>  A node of the bus is a client (a host tool) or a server (a device).  Both own a
  frame transport, the prioritised queue between them and the CAN driver.  A frame's 29-bit
  identifier holds a priority, a category, a message type and a node.  A category is a set of
  message types with handlers; it answers through the protocol object it is registered with.  The
  server admits a command only with the expected sequence number, acknowledges it, limits the rate
  of received frames and watches whether its client is alive.  The client numbers its commands for
  each server, awaits their acknowledgements, discovers a server's categories and watches which
  servers are alive.  Messages longer than a frame travel over ISO-TP (ISO 15765-2) channels that
  share the node's frame transport.  On a host, frames reach the bus through an adapter: one that
  speaks the text protocol SLCAN over a serial port, the CAN sockets of Linux, a vendor's library (PCAN,
  Kvaser), or USB devices of the gs\_usb family; one object selects the adapter by the name of its
  interface.  Tracing objects stand around a driver or a transport and write down what passes.

  \<^bold>\<open>Theories and code.\<close>
  \<^item> \<open>CanPrelude\<close>: words, timers, lemmas on masks and bytes, table updates, and the interfaces
    \<open>io_machine\<close> (an event-driven component with an invariant), \<open>conserving_machine\<close> (one that
    answers each obligation once) and \<open>wire_codec\<close> (an encoder with the decoder that inverts it).
  \<^item> \<open>ProtocolDefs\<close>, \<open>FrameCodec\<close>, \<open>Payload\<close>, \<open>FixedPoint\<close>: \<^verbatim>\<open>core/CanProtocolDefinitions.hpp\<close>,
    \<^verbatim>\<open>core/CanFrameCodec.cpp\<close>, \<^verbatim>\<open>core/CanPayload.cpp\<close>.  \<open>Floats\<close> holds the floating-point numbers that the
    fixed-point fields and the bit timing compute with: a number is the rational it stands for, rounded
    after each operation that rounds.
  \<^item> \<open>FrameTransport\<close>: \<^verbatim>\<open>core/CanFrameTransport.cpp\<close>.  The record \<open>transport\<close> holds the object's
    members; the frame being sent, the queue and the retry counter are its state.
  \<^item> \<open>Category\<close>, \<open>CategoryClient\<close>: \<^verbatim>\<open>core/CanCategory.cpp\<close>, \<^verbatim>\<open>core/CanMessageHandler.hpp\<close> and
    \<^verbatim>\<open>categories/system\<close>.  A handler is a value of the datatype \<open>program\<close>: the calls it makes on
    its protocol object, in order.
  \<^item> \<open>IsoTpCodec\<close>, \<open>IsoTpReceiver\<close>, \<open>IsoTpSender\<close>, \<open>IsoTpTransport\<close>, \<open>IsoTpInterface\<close>:
    \<^verbatim>\<open>transport/iso-tp\<close> and \<^verbatim>\<open>transport/IsoTpTransportImpl.cpp\<close>.  \<open>IsoTpLink\<close> joins a sender and a
    receiver by a bus.
  \<^item> \<open>ProtocolServer\<close>, \<open>ServerLaws\<close>: \<^verbatim>\<open>server/CanProtocolServer.cpp\<close>.
  \<^item> \<open>SequenceTable\<close>, \<open>ServerPresence\<close>, \<open>ProtocolClient\<close>, \<open>ClientLaws\<close>:
    \<^verbatim>\<open>client/CanProtocolClient.cpp\<close>, its two tables first.
  \<^item> \<open>Session\<close>: a client and a server together.
  \<^item> \<open>FirmwareUpgrade\<close>, \<open>FirmwareLaws\<close>: \<^verbatim>\<open>categories/firmware_upgrade\<close>, both ends.
  \<^item> \<open>FocMotor\<close>, \<open>FocMotorLaws\<close>: \<^verbatim>\<open>examples/foc_motor\<close>, the two ends of the category for a motor
    controller.
  \<^item> \<open>SlcanCodec\<close>, \<open>SlcanLaws\<close>: \<^verbatim>\<open>drivers/codec/SlcanCodec.cpp\<close>; \<open>SlcanAdapter\<close>, \<open>SlcanLink\<close>:
    \<^verbatim>\<open>drivers/implementation/SlcanAdapter.cpp\<close>.
  \<^item> \<open>GsUsbProtocol\<close>, \<open>GsUsbLaws\<close>: \<^verbatim>\<open>drivers/codec/GsUsbProtocol.cpp\<close>.
  \<^item> \<open>SocketCanNetlink\<close>, \<open>NetlinkLaws\<close>: \<^verbatim>\<open>drivers/implementation/SocketCanNetlink.cpp\<close>, with the kernel
    as a parameter.
  \<^item> \<open>MultiCanAdapter\<close>, \<open>MultiCanLaws\<close>: \<^verbatim>\<open>drivers/implementation/MultiCanAdapter.cpp\<close>.
  \<^item> \<open>HostAdapter\<close>: the members and helpers that the four adapters of host libraries repeat word for word,
    and \<^verbatim>\<open>drivers/implementation/ChannelNumber.hpp\<close>.  \<open>HostLaws\<close> states once, as locales over the operations
    of an adapter, what every one of them keeps; \<open>HostLibraries\<close> is the loader of libraries of Windows.
  \<^item> \<open>SocketCanAdapter\<close>, \<open>KvaserAdapter\<close>, \<open>PcanAdapter\<close>, \<open>GsUsbAdapter\<close> with \<open>SocketCanLaws\<close>, \<open>KvaserLaws\<close>,
    \<open>PcanLaws\<close>, \<open>GsUsbAdapterLaws\<close>: the files of these names under \<^verbatim>\<open>drivers/implementation\<close>.
  \<^item> \<open>SerialPorts\<close>, \<open>SerialLaws\<close>: \<^verbatim>\<open>drivers/implementation/PosixSerialPort.cpp\<close> and
    \<^verbatim>\<open>drivers/implementation/WindowsSerialPort.cpp\<close>.
  \<^item> \<open>PlatformCanAdapter\<close>: \<^verbatim>\<open>drivers/implementation/PlatformCanAdapter.cpp\<close>, the adapters of Linux and of
    Windows behind the selection by name.
  \<^item> \<open>Tracing\<close>, \<open>TracingLaws\<close>: \<^verbatim>\<open>tracing\<close>.

  The kernels, the libraries of vendors, USB, the registry and the loader are records of their calls on a
  state of their own, parameters of the adapters; what a theorem needs of them (a descriptor that was
  closed is free again, a send takes a prefix) is a named hypothesis with an instance in its witness.

  \<^bold>\<open>Conventions.\<close>  The state of an object is a record of its members with a prefix (\<open>tx_\<close>, \<open>srv_\<close>,
  \<open>cli_\<close>, \<open>rcv_\<close>, \<open>snd_\<close>, \<open>iso_\<close>, \<open>fws_\<close>, \<open>foc_\<close>, \<open>sla_\<close>, \<open>mul_\<close>,
  \<open>mw_\<close>, \<open>rs_\<close>, \<open>ho_\<close>, \<open>sc_\<close>, \<open>kva_\<close>, \<open>pca_\<close>, \<open>gsa_\<close>, \<open>pp_\<close>, \<open>wsp_\<close>, \<open>trc_\<close>, \<open>tri_\<close>), and an operation keeps the name of its
  C++ function.  Integers have their width.  A callback that the code stores is a value of a type
  parameter, or of a datatype with one constructor for each lambda and a field for each variable it
  captures; running it is a function of its own.  What an object does to its surroundings is a list
  of effects or a log, in the order of the calls.  A running timer is its deadline and expires by an
  event.  A failed assertion and the call of an empty function are \<open>None\<close>.  For each stateful
  component there is a datatype of the events its surroundings may cause, a step function on them
  and a predicate for the events that can occur in a state (a timer fires only when it runs, the
  driver completes only a frame it was given): \<open>io_machine\<close> turns these into reachable states.

  \<^bold>\<open>What is proved.\<close>
  \<^item> Frame transport: every accepted frame completes once, with the truth about its transmission;
    the queue is a stable priority queue with a reserve for emergency frames; what is displaced,
    refused and retried.
  \<^item> Server and client: the outcome of every command, the refusal of a command out of sequence,
    the rate limit, heartbeats, presence; consecutive sequence numbers, one answer for each discovery,
    no reachable stop; together, one refusal brings both back in step.
  \<^item> ISO-TP: frames round-trip; a receiver never overruns its buffer and a sender ends each transfer
    once; over a bus that loses nothing a transfer always ends with the message delivered; the
    channel table routes without ambiguity.
  \<^item> Firmware upgrade and motor controller: a server's reaction to every message, with the session
    timer of the one; the two ends of each agree on the wire, physical values up to the fixed-point
    grid of their fields, whose conversions are stable, saturate and have a bounded error.
  \<^item> Adapters: serial frames round-trip and arrive at another adapter, the handshake and the observers
    of a serial adapter, the selection by name; the bit timing of a gs\_usb device is exact and the best
    there is, and for one input the search for it never returns; the netlink requests are well formed,
    and what the configuration of a bitrate leaves of an interface.
  \<^item> Host adapters, whatever the system and the devices answer: what the observers see agrees with the
    state, each send completes once, and no descriptor, library, channel, event or device handle leaks.
    For the CAN sockets, what a connection leaves of the interface and which frames are delivered; for
    gs\_usb, when a connection returns.  A write to a serial port is complete when it says so, a serial
    adapter gives its port back, and the names of a platform lead to its adapters.
  \<^item> Tracing changes nothing of what it traces, except that a transport whose user has detached calls the
    empty function.

  \<^bold>\<open>Loops and bounds.\<close>  Loops over tables and bytes are structural recursion or folds.  The search for
  a bit timing may run forever: it is a \<open>partial_function\<close> on options, with a theorem that it returns
  for every device whose largest prescaler plus its increment does not wrap, and one that it does not
  for a device that wraps.  The reading loop of the serial adapter recurses on the contents of the
  port, those of the other adapters on the bound of the code for one read event.  The search makes
  \<^verbatim>\<open>Connect\<close> of the gs\_usb adapter an option too.  The loops of the serial port of Linux that repeat an
  interrupted call are \<open>partial_function\<close>s; writing returns when a kernel interrupts only finitely often,
  by a measure on what it may still do and the bytes that are left.  A transfer of \<open>IsoTpLink\<close> ends by a measure on the frames that are still to come; no fuel is
  used there, and runs of events are lists.

  \<^bold>\<open>Not modelled.\<close>
  \<^item> Observers and receive callbacks that call back into the object that is notifying them, except
    where the code is made for it (the handlers of categories, the observer of the firmware client,
    an attached ISO-TP transport).
  \<^item> The destructor of \<^verbatim>\<open>MultiCanAdapter\<close> and the limit of 256 bytes on its error text.  The destructors of the
    other adapters and ports only call \<^verbatim>\<open>Disconnect\<close> or \<^verbatim>\<open>Close\<close>.
  \<^item> What listing the interfaces of a host adapter does to the state of its library, once the adapter is a
    backend of the selection: that operation is \<^verbatim>\<open>const\<close> there.
  \<^item> How the tracer formats what is inserted into its stream: it is a library's.
  \<^item> Tests, integration tests and the example programs' entry points.
\<close>

end
